(* ===== verification/Prelude.thy ===== *)
theory Prelude
  imports Complex_Main "HOL-Library.Multiset"
begin

text \<open>
  Shared vocabulary of the development. The back end is TypeScript, so the prelude fixes how the
  parts of the language and of its standard library that the sources use are read:

  \<^item> a \<open>number\<close> that only ever holds an integer (a count, a millisecond time stamp, an index) is an
    \<open>int\<close> or, where the code keeps it non-negative by construction, a \<open>nat\<close>; a quotient is an exact
    \<open>rat\<close>. Rounding of IEEE doubles is not modelled, which is exact for integers below \<open>2 ^ 53\<close>;
  \<^item> \<open>undefined\<close> and \<open>null\<close> are \<open>None\<close>; \<open>||\<close> and \<open>??\<close> on optional strings are \<open>js_or\<close> and \<open>nullish\<close>;
  \<^item> a string is a list of characters, \<open>trim\<close>, \<open>split\<close>, \<open>join\<close>, \<open>parseInt\<close> and \<open>String\<close> are written
    out below; \<open>NaN\<close>, which \<open>parseInt\<close> returns for a string without digits, is \<open>None\<close>;
  \<^item> \<open>Array.prototype.slice\<close>, \<open>find\<close> and the stable \<open>sort\<close> are \<open>slice\<close>, \<open>List.find\<close> and \<open>sort_key\<close>;
  \<^item> \<open>Date.now()\<close>, random identifiers and every answer of a service outside the repository are
    arguments of the functions that read them.

  The collection \<open>js_simps\<close> holds the rewrite rules for these operations.
\<close>

named_theorems js_simps \<open>rewrite rules for the modelled JavaScript operations\<close>
named_theorems inv_intros \<open>invariant preservation lemmas of the components\<close>

section \<open>Optional values and truthiness\<close>

type_synonym millis = int
type_synonym address = string

fun truthy :: "string option \<Rightarrow> bool" where
  "truthy None = False"
| "truthy (Some s) = (s \<noteq> [])"

definition js_or :: "string option \<Rightarrow> string option \<Rightarrow> string option" where
  "js_or a b = (if truthy a then a else b)"

fun nullish :: "'a option \<Rightarrow> 'a option \<Rightarrow> 'a option" where
  "nullish None b = b"
| "nullish (Some x) b = Some x"

fun or_default :: "'a option \<Rightarrow> 'a \<Rightarrow> 'a" where
  "or_default None d = d"
| "or_default (Some x) d = x"

section \<open>Numbers\<close>

text \<open>\<open>Math.ceil(a / b)\<close> for integers \<open>a\<close>, \<open>b\<close> with \<open>b > 0\<close>.\<close>

definition ceil_div :: "int \<Rightarrow> int \<Rightarrow> int" where
  "ceil_div a b = - ((- a) div b)"

text \<open>\<open>Math.round(x)\<close>: half-way cases go up.\<close>

definition math_round :: "rat \<Rightarrow> int" where
  "math_round x = \<lfloor>x + 1 / 2\<rfloor>"

text \<open>\<open>Math.min(1, Math.max(0, x))\<close>, the clamp the scoring code uses.\<close>

definition clamp01 :: "rat \<Rightarrow> rat" where
  "clamp01 x = min 1 (max 0 x)"

section \<open>Strings\<close>

definition is_space :: "char \<Rightarrow> bool" where
  "is_space c = ((of_char c :: nat) \<in> {9, 10, 11, 12, 13, 32, 160})"

definition trim :: "string \<Rightarrow> string" where
  "trim s = rev (dropWhile is_space (rev (dropWhile is_space s)))"

fun split_on :: "char \<Rightarrow> string \<Rightarrow> string list" where
  "split_on c [] = [[]]"
| "split_on c (x # xs) =
     (if x = c then [] # split_on c xs
      else (case split_on c xs of [] \<Rightarrow> [[x]] | w # ws \<Rightarrow> (x # w) # ws))"

fun join :: "string \<Rightarrow> string list \<Rightarrow> string" where
  "join sep [] = []"
| "join sep [w] = w"
| "join sep (w # ws) = w @ sep @ join sep ws"

definition is_digit :: "char \<Rightarrow> bool" where
  "is_digit c = (48 \<le> (of_char c :: nat) \<and> (of_char c :: nat) \<le> 57)"

definition digit_val :: "char \<Rightarrow> nat" where
  "digit_val c = of_char c - 48"

definition digit_char :: "nat \<Rightarrow> char" where
  "digit_char d = char_of (48 + d)"

fun digits_value :: "nat \<Rightarrow> string \<Rightarrow> nat" where
  "digits_value acc [] = acc"
| "digits_value acc (c # cs) = digits_value (10 * acc + digit_val c) cs"

fun string_of_nat :: "nat \<Rightarrow> string" where
  "string_of_nat n =
     (if n < 10 then [digit_char n] else string_of_nat (n div 10) @ [digit_char (n mod 10)])"

definition string_of_int :: "int \<Rightarrow> string" where
  "string_of_int i = (if i < 0 then CHR ''-'' # string_of_nat (nat (- i)) else string_of_nat (nat i))"

definition parse_sign :: "string \<Rightarrow> int \<times> string" where
  "parse_sign s =
     (case s of
        [] \<Rightarrow> (1, [])
      | c # cs \<Rightarrow> if c = CHR ''-'' then (-1, cs) else if c = CHR ''+'' then (1, cs) else (1, s))"

definition parseInt :: "string \<Rightarrow> int option" where
  "parseInt s =
     (let (sgn, rest) = parse_sign (dropWhile is_space s);
          ds = takeWhile is_digit rest
      in if ds = [] then None else Some (sgn * int (digits_value 0 ds)))"

definition startsWith :: "string \<Rightarrow> string \<Rightarrow> bool" where
  "startsWith s p \<longleftrightarrow> take (length p) s = p"

section \<open>Arrays\<close>

definition slice :: "nat \<Rightarrow> nat \<Rightarrow> 'a list \<Rightarrow> 'a list" where
  "slice from to xs = take (to - from) (drop from xs)"

text \<open>\<open>xs.slice(a, b)\<close> for any integers: negative positions count from the end.\<close>

definition slice_index :: "nat \<Rightarrow> int \<Rightarrow> nat" where
  "slice_index n i = nat (if i < 0 then max 0 (int n + i) else min i (int n))"

definition js_slice :: "int \<Rightarrow> int \<Rightarrow> 'a list \<Rightarrow> 'a list" where
  "js_slice a b xs = slice (slice_index (length xs) a) (slice_index (length xs) b) xs"

text \<open>The first element of an array that satisfies a test is updated in place.\<close>

fun update_first :: "('a \<Rightarrow> bool) \<Rightarrow> ('a \<Rightarrow> 'a) \<Rightarrow> 'a list \<Rightarrow> 'a list" where
  "update_first p f [] = []"
| "update_first p f (x # xs) = (if p x then f x # xs else x # update_first p f xs)"

text \<open>The elements of \<open>new Set(xs)\<close> in the order of iteration, which is that of first insertion.\<close>

definition js_set :: "'a list \<Rightarrow> 'a list" where
  "js_set xs = rev (remdups (rev xs))"

section \<open>Lemmas on optional values and numbers\<close>

lemma js_or_truthy [simp]: "truthy a \<Longrightarrow> js_or a b = a"
  by (simp add: js_or_def)

lemma js_or_falsy [simp]: "\<not> truthy a \<Longrightarrow> js_or a b = b"
  by (simp add: js_or_def)

lemma truthy_js_or [js_simps]: "truthy (js_or a b) \<longleftrightarrow> truthy a \<or> truthy b"
  by (simp add: js_or_def)

lemma nullish_None_right [simp]: "nullish a None = a"
  by (cases a) simp_all

lemma nullish_assoc: "nullish (nullish a b) c = nullish a (nullish b c)"
  by (cases a) simp_all

lemma ceil_div_le_iff:
  assumes "0 < b"
  shows "ceil_div a b \<le> n \<longleftrightarrow> a \<le> n * b"
proof -
  have split: "- a = b * ((- a) div b) + (- a) mod b" "0 \<le> (- a) mod b" "(- a) mod b < b"
    using assms by simp_all
  have "- n \<le> (- a) div b \<longleftrightarrow> (- n) * b \<le> - a"
  proof
    assume "- n \<le> (- a) div b"
    then have "(- n) * b \<le> (- a) div b * b" using assms by (simp only: mult_right_mono less_imp_le)
    also have "\<dots> \<le> - a" using split by (metis add_increasing2 mult.commute order_refl)
    finally show "(- n) * b \<le> - a" .
  next
    assume le: "(- n) * b \<le> - a"
    show "- n \<le> (- a) div b"
      using zdiv_mono1 [OF le assms] nonzero_mult_div_cancel_right [of b "- n"] assms by linarith
  qed
  then show ?thesis by (auto simp: ceil_div_def)
qed

lemma ceil_div_nonneg: "0 < b \<Longrightarrow> 0 \<le> a \<Longrightarrow> 0 \<le> ceil_div a b"
  by (simp add: ceil_div_def div_nonpos_pos_le0)

lemma ceil_div_upper: "0 < b \<Longrightarrow> a \<le> ceil_div a b * b"
  using ceil_div_le_iff [of b a "ceil_div a b"] by simp

lemma math_round_int [simp]: "math_round (of_int n) = n"
  by (simp add: math_round_def floor_unique)

lemma math_round_mono: "x \<le> y \<Longrightarrow> math_round x \<le> math_round y"
  by (simp add: math_round_def floor_mono)

lemma math_round_bounds: "of_int a \<le> x \<Longrightarrow> x \<le> of_int b \<Longrightarrow> a \<le> math_round x \<and> math_round x \<le> b"
  using math_round_mono [of "of_int a" x] math_round_mono [of x "of_int b"] by simp

lemma clamp01_bounds: "0 \<le> clamp01 x" "clamp01 x \<le> 1"
  by (simp_all add: clamp01_def)

section \<open>Lemmas on strings and decimal numbers\<close>

declare string_of_nat.simps [simp del]

lemma of_char_digit_char [simp]: "d < 10 \<Longrightarrow> (of_char (digit_char d) :: nat) = 48 + d"
  by (simp add: digit_char_def of_char_of take_bit_eq_mod)

lemma is_digit_digit_char [simp]: "d < 10 \<Longrightarrow> is_digit (digit_char d)"
  by (simp add: is_digit_def)

lemma digit_val_digit_char [simp]: "d < 10 \<Longrightarrow> digit_val (digit_char d) = d"
  by (simp add: digit_val_def)

lemma string_of_nat_digits: "c \<in> set (string_of_nat n) \<Longrightarrow> is_digit c"
proof (induction n rule: string_of_nat.induct)
  case (1 n)
  then show ?case
    by (subst (asm) string_of_nat.simps) (auto split: if_splits)
qed

lemma string_of_nat_nonempty [simp]: "string_of_nat n \<noteq> []"
  by (subst string_of_nat.simps) simp

lemma digits_value_append: "digits_value a (xs @ ys) = digits_value (digits_value a xs) ys"
  by (induction xs arbitrary: a) simp_all

lemma digits_value_string_of_nat: "digits_value 0 (string_of_nat n) = n"
proof (induction n rule: string_of_nat.induct)
  case (1 n)
  show ?case
  proof (cases "n < 10")
    case True
    then show ?thesis by (subst string_of_nat.simps) simp
  next
    case False
    with 1 have "digits_value 0 (string_of_nat (n div 10)) = n div 10" by simp
    with False show ?thesis
      by (subst string_of_nat.simps) (simp add: digits_value_append)
  qed
qed

lemma string_of_nat_inject [simp]: "string_of_nat m = string_of_nat n \<longleftrightarrow> m = n"
  by (metis digits_value_string_of_nat)

lemma digit_not_space: "is_digit c \<Longrightarrow> \<not> is_space c"
  by (auto simp: is_digit_def is_space_def)

lemma parse_sign_digits:
  assumes "s \<noteq> []" and "\<And>c. c \<in> set s \<Longrightarrow> is_digit c"
  shows "parse_sign s = (1, s)"
proof -
  obtain c cs where s: "s = c # cs" using assms(1) by (cases s) auto
  have "is_digit c" using assms(2) s by simp
  then have "c \<noteq> CHR ''-''" "c \<noteq> CHR ''+''" by (auto simp: is_digit_def)
  then show ?thesis by (simp add: parse_sign_def s)
qed

lemma parseInt_digits:
  assumes "s \<noteq> []" and "\<And>c. c \<in> set s \<Longrightarrow> is_digit c"
  shows "parseInt s = Some (int (digits_value 0 s))"
proof -
  have d: "dropWhile is_space s = s"
    using assms by (cases s) (auto dest: digit_not_space)
  have t: "takeWhile is_digit s = s"
    using assms(2) by (simp add: takeWhile_eq_all_conv)
  show ?thesis
    using assms by (simp add: parseInt_def d t parse_sign_digits)
qed

lemma parseInt_string_of_nat [js_simps]: "parseInt (string_of_nat n) = Some (int n)"
  by (simp add: parseInt_digits string_of_nat_digits digits_value_string_of_nat)

lemma parseInt_string_of_int [js_simps]: "parseInt (string_of_int i) = Some i"
proof (cases "i < 0")
  case False
  then show ?thesis by (simp add: string_of_int_def parseInt_string_of_nat)
next
  case True
  have t: "takeWhile is_digit (string_of_nat (nat (- i))) = string_of_nat (nat (- i))"
    by (simp add: takeWhile_eq_all_conv string_of_nat_digits)
  show ?thesis
    using True by (simp add: string_of_int_def parseInt_def parse_sign_def is_space_def t
        digits_value_string_of_nat)
qed

lemma string_of_int_inject [simp]: "string_of_int i = string_of_int j \<longleftrightarrow> i = j"
  by (metis option.inject parseInt_string_of_int)

lemma split_on_nonempty [simp]: "split_on c s \<noteq> []"
  by (induction s) (auto split: list.split)

lemma join_Cons_nonempty: "ws \<noteq> [] \<Longrightarrow> join sep (w # ws) = w @ sep @ join sep ws"
  by (cases ws) simp_all

lemma join_split_on [js_simps]: "join [c] (split_on c s) = s"
proof (induction s)
  case (Cons x xs)
  obtain w ws where ws: "split_on c xs = w # ws" by (cases "split_on c xs") auto
  with Cons show ?case
    by (cases "x = c"; cases ws) simp_all
qed simp

lemma split_on_no_sep: "c \<notin> set s \<Longrightarrow> split_on c s = [s]"
  by (induction s) auto

lemma split_on_word_append:
  "c \<notin> set w \<Longrightarrow> split_on c (w @ c # s) = w # split_on c s"
  by (induction w) auto

lemma split_on_join:
  assumes "ws \<noteq> []" and "\<And>w. w \<in> set ws \<Longrightarrow> c \<notin> set w"
  shows "split_on c (join [c] ws) = ws"
  using assms
proof (induction ws)
  case (Cons w ws)
  then show ?case
    by (cases "ws = []") (simp_all add: split_on_no_sep join_Cons_nonempty split_on_word_append)
qed simp

lemma join_inject:
  assumes "ws \<noteq> []" "vs \<noteq> []"
    and "\<And>w. w \<in> set ws \<Longrightarrow> c \<notin> set w" "\<And>w. w \<in> set vs \<Longrightarrow> c \<notin> set w"
    and "join [c] ws = join [c] vs"
  shows "ws = vs"
proof -
  have "ws = split_on c (join [c] ws)" using assms(1,3) by (simp add: split_on_join)
  also have "\<dots> = split_on c (join [c] vs)" by (simp only: assms(5))
  also have "\<dots> = vs" using assms(2,4) by (simp add: split_on_join)
  finally show ?thesis .
qed

section \<open>Lemmas on arrays\<close>

lemma length_slice [js_simps]: "length (slice i j xs) = min (j - i) (length xs - i)"
  by (simp add: slice_def)

lemma slice_append_slice: "i \<le> j \<Longrightarrow> j \<le> k \<Longrightarrow> slice i j xs @ slice j k xs = slice i k xs"
proof -
  assume "i \<le> j" "j \<le> k"
  then have "slice j k xs = take (k - j) (drop (j - i) (drop i xs))"
    by (simp add: slice_def)
  moreover have "k - i = (j - i) + (k - j)" using \<open>i \<le> j\<close> \<open>j \<le> k\<close> by simp
  ultimately show ?thesis by (simp add: slice_def take_add)
qed

lemma js_slice_nonneg:
  assumes "0 \<le> a" "0 \<le> b"
  shows "js_slice a b xs = slice (nat a) (nat b) xs"
proof -
  have "slice (min i (length xs)) (min j (length xs)) xs = slice i j xs" for i j
    by (cases "i \<le> length xs") (auto simp: slice_def min_def)
  moreover have "slice_index (length xs) a = min (nat a) (length xs)" "slice_index (length xs) b = min (nat b) (length xs)"
    using assms by (auto simp: slice_index_def min_def)
  ultimately show ?thesis by (simp add: js_slice_def)
qed

lemma slice_all: "length xs \<le> n \<Longrightarrow> slice 0 n xs = xs"
  by (simp add: slice_def)

lemma set_slice: "set (slice i j xs) \<subseteq> set xs"
  unfolding slice_def by (meson order_trans set_drop_subset set_take_subset)

lemma length_update_first [simp]: "length (update_first p f xs) = length xs"
  by (induction xs) simp_all

lemma update_first_Nil_iff [simp]: "update_first p f xs = [] \<longleftrightarrow> xs = []"
  by (cases xs) simp_all

lemma map_update_first:
  assumes "\<And>x. p x \<Longrightarrow> g (f x) = g x"
  shows "map g (update_first p f xs) = map g xs"
  using assms by (induction xs) simp_all

lemma update_first_none: "(\<And>x. x \<in> set xs \<Longrightarrow> \<not> p x) \<Longrightarrow> update_first p f xs = xs"
  by (induction xs) auto

lemma set_update_first: "set (update_first p f xs) \<subseteq> set xs \<union> f ` {x \<in> set xs. p x}"
  by (induction xs) auto

lemma sum_list_map_add:
  "sum_list (map (\<lambda>x. f x + g x) xs) = sum_list (map f xs) + sum_list (map g xs)"
  for f g :: "'a \<Rightarrow> 'b::comm_monoid_add"
  by (induction xs) (simp_all add: ac_simps)

lemma length_filter_le_imp:
  "(\<And>x. x \<in> set xs \<Longrightarrow> p x \<Longrightarrow> q x) \<Longrightarrow> length (filter p xs) \<le> length (filter q xs)"
  by (induction xs) (auto simp: le_SucI)

lemma distinct_map_filter: "distinct (map f xs) \<Longrightarrow> distinct (map f (filter p xs))"
  by (induction xs) auto

lemma set_js_set [simp]: "set (js_set xs) = set xs"
  by (simp add: js_set_def)

lemma distinct_js_set [simp]: "distinct (js_set xs)"
  by (simp add: js_set_def)

lemma js_set_Nil_iff [simp]: "js_set xs = [] \<longleftrightarrow> xs = []"
  by (simp add: js_set_def)

lemma length_js_set: "length (js_set xs) = card (set xs)"
  using distinct_card [of "js_set xs"] by simp

lemma find_SomeD: "List.find P xs = Some x \<Longrightarrow> x \<in> set xs \<and> P x"
  by (induction xs) (auto split: if_splits)

end
