(* ===== verification/Http.thy ===== *)
theory Http
  imports Prelude
begin

text \<open>
  What the middlewares read of an Express request and what they do to the response. A request
  carries the fields that the limiters and guards inspect; a response collects the headers that
  were set, the status and the JSON body that were sent, and whether \<open>next()\<close> was called. A handler
  that neither calls \<open>next()\<close> nor sends leaves both empty.
\<close>

datatype header = HStr string | HArr "string list"

text \<open>JSON values as the handlers build them; \<open>JNum\<close> is an integral number, \<open>JRat\<close> any other.\<close>

datatype json = JNull | JBool bool | JNum int | JRat rat | JStr string | JArr "json list" | JObj "(string \<times> json) list"

record request =
  req_path :: string
  req_method :: string
  req_headers :: "string \<Rightarrow> header option"
  req_ip :: "string option"
  req_socket_addr :: "string option"
  req_userId :: "string option"
  req_adminId :: "string option"
  req_user_id :: "string option"
  req_user_tier :: "string option"
  req_apiKey_userId :: "string option"
  req_apiKey_tier :: "string option"
  req_captcha_body :: "string option"

record response =
  res_headers :: "string \<Rightarrow> string option"
  res_status :: "int option"
  res_body :: json
  res_next :: bool

definition fresh_response :: response where
  "fresh_response = \<lparr>res_headers = (\<lambda>_. None), res_status = None, res_body = JNull, res_next = False\<rparr>"

definition set_header :: "string \<Rightarrow> string \<Rightarrow> response \<Rightarrow> response" where
  "set_header k v r = r\<lparr>res_headers := (res_headers r)(k \<mapsto> v)\<rparr>"

definition send_json :: "int \<Rightarrow> json \<Rightarrow> response \<Rightarrow> response" where
  "send_json code b r = r\<lparr>res_status := Some code, res_body := b\<rparr>"

definition call_next :: "response \<Rightarrow> response" where
  "call_next r = r\<lparr>res_next := True\<rparr>"

definition empty_request :: request where
  "empty_request = \<lparr>req_path = ''/'', req_method = ''GET'', req_headers = (\<lambda>_. None), req_ip = None,
     req_socket_addr = None, req_userId = None, req_adminId = None, req_user_id = None,
     req_user_tier = None, req_apiKey_userId = None, req_apiKey_tier = None, req_captcha_body = None\<rparr>"

lemma set_header_simps [simp]:
  "res_next (set_header k v r) = res_next r"
  "res_status (set_header k v r) = res_status r"
  "res_body (set_header k v r) = res_body r"
  "res_headers (set_header k v r) = (res_headers r)(k \<mapsto> v)"
  by (simp_all add: set_header_def)

lemma send_json_simps [simp]:
  "res_next (send_json c b r) = res_next r"
  "res_status (send_json c b r) = Some c"
  "res_body (send_json c b r) = b"
  "res_headers (send_json c b r) = res_headers r"
  by (simp_all add: send_json_def)

lemma call_next_simps [simp]:
  "res_next (call_next r) = True"
  "res_status (call_next r) = res_status r"
  "res_body (call_next r) = res_body r"
  "res_headers (call_next r) = res_headers r"
  by (simp_all add: call_next_def)

lemma fresh_response_simps [simp]:
  "res_next fresh_response = False"
  "res_status fresh_response = None"
  "res_headers fresh_response k = None"
  by (simp_all add: fresh_response_def)

end
