(* ===== verification/Sliding_Window.thy ===== *)
theory Sliding_Window
  imports Prelude
begin

text \<open>
  The interface of the sliding-window stores. Three components keep, per key, the time stamps of
  recent visits and drop the ones that left the window when the key is visited again: the request
  limiter (\<open>rate_limiter.ts\<close>), the ramp velocity store (\<open>fiat_ramp_protection.ts\<close>) and the rapid
  succession check (\<open>aml_service.ts\<close>). The locale \<open>window_store\<close> states what one visit does to the
  stored time stamps; \<open>capped_store\<close> adds the admission rule of a limiter and \<open>counting_store\<close> the
  rule of a store that records every visit. The client lemmas are proved once here, for whole
  sequences of visits, and the components obtain them by interpretation.
\<close>

section \<open>Runs of a store\<close>

type_synonym visit_trace = "(string \<times> millis) list"

primrec visits :: "('s \<Rightarrow> string \<Rightarrow> millis \<Rightarrow> 's) \<Rightarrow> 's \<Rightarrow> visit_trace \<Rightarrow> 's" where
  "visits v s [] = s"
| "visits v s (r # rs) = visits v (v s (fst r) (snd r)) rs"

text \<open>The times at which visits to the key \<open>k\<close> were admitted along a run.\<close>

primrec admitted ::
  "('s \<Rightarrow> string \<Rightarrow> millis \<Rightarrow> 's) \<Rightarrow> ('s \<Rightarrow> string \<Rightarrow> millis \<Rightarrow> bool) \<Rightarrow> 's \<Rightarrow> visit_trace \<Rightarrow> string \<Rightarrow> millis list" where
  "admitted v a s [] k = []"
| "admitted v a s (r # rs) k =
     (if fst r = k \<and> a s k (snd r) then [snd r] else []) @ admitted v a (v s (fst r) (snd r)) rs k"

definition in_window :: "millis \<Rightarrow> millis \<Rightarrow> millis \<Rightarrow> bool" where
  "in_window w x ts \<longleftrightarrow> x - w < ts \<and> ts \<le> x"

lemma visits_append: "visits v s (rs @ rs') = visits v (visits v s rs) rs'"
  by (induction rs arbitrary: s) simp_all

lemma admitted_append:
  "admitted v a s (rs @ rs') k = admitted v a s rs k @ admitted v a (visits v s rs) rs' k"
  by (induction rs arbitrary: s) simp_all

lemma admitted_subset: "set (admitted v a s rs k) \<subseteq> snd ` set rs"
  by (induction rs arbitrary: s) auto

lemma admitted_all:
  "(\<And>s now. a s k now) \<Longrightarrow> admitted v a s rs k = map snd (filter (\<lambda>r. fst r = k) rs)"
  by (induction rs arbitrary: s) auto

lemma filter_window_shift:
  "x \<le> (y::int) \<Longrightarrow> filter (\<lambda>ts. x - w < ts \<and> y - w < ts) xs = filter (\<lambda>ts. y - w < ts) xs"
  by (induction xs) auto

section \<open>The interface\<close>

locale window_store =
  fixes hits :: "'s \<Rightarrow> string \<Rightarrow> millis list"
    and visit :: "'s \<Rightarrow> string \<Rightarrow> millis \<Rightarrow> 's"
    and admits :: "'s \<Rightarrow> string \<Rightarrow> millis \<Rightarrow> bool"
    and window :: "string \<Rightarrow> millis"
  assumes hits_visit_same:
    "hits (visit s k now) k =
       filter (\<lambda>ts. now - window k < ts) (hits s k) @ (if admits s k now then [now] else [])"
    and hits_visit_other: "k' \<noteq> k \<Longrightarrow> hits (visit s k now) k' = hits s k'"
begin

lemma hits_step:
  "hits (visit s j now) k =
     (if j = k
      then filter (\<lambda>ts. now - window k < ts) (hits s k) @ (if admits s k now then [now] else [])
      else hits s k)"
  by (auto simp: hits_visit_same hits_visit_other)

text \<open>Along a run with a clock that does not go back, a window that ends after the run sees the
  same stamps in the store as in the log of all admitted visits.\<close>

lemma log_window:
  assumes "sorted (map snd rs)" and "\<And>r. r \<in> set rs \<Longrightarrow> snd r \<le> x" and "hits s0 k = []"
  shows "filter (\<lambda>ts. x - window k < ts) (admitted visit admits s0 rs k) =
         filter (\<lambda>ts. x - window k < ts) (hits (visits visit s0 rs) k)"
  using assms
proof (induction rs rule: rev_induct)
  case Nil
  then show ?case by simp
next
  case (snoc r rs)
  obtain j now where r: "r = (j, now)" by (cases r)
  let ?s = "visits visit s0 rs"
  have IH: "filter (\<lambda>ts. x - window k < ts) (admitted visit admits s0 rs k) =
      filter (\<lambda>ts. x - window k < ts) (hits ?s k)"
    using snoc by (auto simp: sorted_append)
  have "now \<le> x" using snoc.prems(2) [of r] r by simp
  then show ?case
    by (simp add: r admitted_append visits_append hits_step IH filter_window_shift)
qed

lemma sorted_log:
  "sorted (map snd rs) \<Longrightarrow> sorted (admitted visit admits s rs k)"
proof (induction rs arbitrary: s)
  case (Cons r rs)
  have "\<And>t. t \<in> set (admitted visit admits (visit s (fst r) (snd r)) rs k) \<Longrightarrow> snd r \<le> t"
    using Cons.prems admitted_subset by fastforce
  with Cons show ?case by simp
qed simp

end

section \<open>Stores that limit\<close>

locale capped_store = window_store +
  fixes cap :: "string \<Rightarrow> int"
  assumes admits_iff:
    "admits s k now \<longleftrightarrow> int (length (filter (\<lambda>ts. now - window k < ts) (hits s k))) < cap k"
begin

text \<open>The limit holds for the window that ends at the moment of the last visit.\<close>

lemma cap_at_admission:
  assumes "sorted (map snd (rs @ [(k, now)]))" and "hits s0 k = []"
    and "admits (visits visit s0 rs) k now"
  shows "int (length (filter (\<lambda>ts. now - window k < ts) (admitted visit admits s0 rs k))) < cap k"
proof -
  have "\<And>r. r \<in> set rs \<Longrightarrow> snd r \<le> now" using assms(1) by (auto simp: sorted_append)
  with assms show ?thesis
    by (simp add: log_window sorted_append admits_iff)
qed

theorem window_cap:
  assumes "sorted (map snd rs)" and "hits s0 k = []" and "0 \<le> cap k"
  shows "int (length (filter (in_window (window k) x) (admitted visit admits s0 rs k))) \<le> cap k"
  using assms
proof (induction rs rule: rev_induct)
  case Nil
  then show ?case by simp
next
  case (snoc r rs)
  obtain j now where r: "r = (j, now)" by (cases r)
  let ?log = "admitted visit admits s0 rs k"
  have IH: "int (length (filter (in_window (window k) x) ?log)) \<le> cap k"
    using snoc by (simp add: sorted_append)
  show ?case
  proof (cases "j = k \<and> admits (visits visit s0 rs) k now \<and> in_window (window k) x now")
    case False
    with IH show ?thesis by (auto simp: r admitted_append)
  next
    case True
    have "int (length (filter (\<lambda>ts. now - window k < ts) ?log)) < cap k"
      using cap_at_admission snoc.prems True r by simp
    moreover have "length (filter (in_window (window k) x) ?log)
        \<le> length (filter (\<lambda>ts. now - window k < ts) ?log)"
      by (rule length_filter_le_imp) (use True in \<open>auto simp: in_window_def\<close>)
    ultimately show ?thesis using True by (simp add: r admitted_append)
  qed
qed

end

context capped_store begin

lemma hits_le_cap:
  "hits s0 k = [] \<Longrightarrow> 0 \<le> cap k \<Longrightarrow> int (length (hits (visits visit s0 rs) k)) \<le> cap k"
proof (induction rs rule: rev_induct)
  case (snoc r rs)
  let ?s = "visits visit s0 rs"
  define n where "n = length (filter (\<lambda>ts. snd r - window k < ts) (hits ?s k))"
  have "n \<le> length (hits ?s k)" by (simp add: n_def)
  moreover have "int (length (hits ?s k)) \<le> cap k" using snoc by simp
  ultimately show ?case by (simp add: visits_append hits_step admits_iff flip: n_def)
qed simp

text \<open>Once the oldest stamp that a refusal has seen leaves the window, a visit is admitted.\<close>

lemma admits_after_reset:
  assumes "int (length (hits s k)) \<le> cap k" and "0 < cap k" and "\<not> admits s k now"
    and "hd (filter (\<lambda>ts. now - window k < ts) (hits s k)) + window k \<le> t"
  shows "admits (visit s k now) k t"
proof -
  let ?P = "filter (\<lambda>ts. now - window k < ts) (hits s k)"
  have full: "cap k \<le> int (length ?P)" using assms(3) by (simp add: admits_iff)
  then obtain t0 P where P: "?P = t0 # P" using assms(2) by (cases ?P) auto
  have "length ?P \<le> length (hits s k)" by simp
  then have "int (length P) < cap k" using P assms(1) by simp
  moreover have "length (filter (\<lambda>ts. t - window k < ts) ?P) \<le> length P"
    using assms(4) by (simp add: P)
  ultimately show ?thesis
    using assms(3) by (simp add: admits_iff [of "visit s k now"] hits_visit_same)
qed

end

section \<open>Stores that count\<close>

locale counting_store = window_store +
  assumes admits_always: "admits s k now"
begin

text \<open>The number of stamps after a visit is the number of visits in the window that ends there.\<close>

lemma hits_after_visit:
  assumes "sorted (map snd (rs @ [(k, now)]))" and "hits s0 k = []" and "0 < window k"
  shows "hits (visits visit s0 (rs @ [(k, now)])) k =
         map snd (filter (\<lambda>r. fst r = k \<and> in_window (window k) now (snd r)) (rs @ [(k, now)]))"
proof -
  let ?rs = "rs @ [(k, now)]"
  have le: "\<And>r. r \<in> set ?rs \<Longrightarrow> snd r \<le> now" using assms(1) by (auto simp: sorted_append)
  have stored: "hits (visits visit s0 ?rs) k =
      filter (\<lambda>ts. now - window k < ts) (hits (visits visit s0 ?rs) k)"
    using assms(3) by (simp add: visits_append hits_step admits_always filter_window_shift)
  also have "\<dots> = filter (\<lambda>ts. now - window k < ts) (map snd (filter (\<lambda>r. fst r = k) ?rs))"
    using log_window [of ?rs now s0 k] assms le by (simp add: admitted_all admits_always)
  also have "\<dots> = map snd (filter (\<lambda>r. fst r = k \<and> in_window (window k) now (snd r)) ?rs)"
    using le by (auto simp: filter_map in_window_def o_def conj_commute intro!: arg_cong [of _ _ "map snd"] filter_cong)
  finally show ?thesis .
qed

lemma hits_bounded_by_window:
  assumes "ts \<in> set (hits (visit s k now) k)" and "0 < window k"
  shows "now - window k < ts"
  using assms by (auto simp: hits_visit_same split: if_splits)

end

end
