(* ===== verification/Rate_Limiter.thy ===== *)
theory Rate_Limiter
  imports Http Sliding_Window
begin

text \<open>
  The in-process request limiter, \<open>backend/src/rate_limiter.ts\<close>: the class \<open>SlidingWindowStore\<close>
  (a \<open>Map\<close> from keys to time stamps, here a HOL map), the helpers that read the request, and the
  two middlewares that \<open>createRateLimiterMiddleware\<close> and \<open>createAuthRateLimiterMiddleware\<close> return.
  A middleware is a function from the closure's store, the clock and the request to the new store
  and the response. The store implements the interface \<open>capped_store\<close>.
\<close>

section \<open>The sliding-window store\<close>

record RateLimitPolicy =
  windowMs :: int
  policy_max :: int

record RateLimitResult =
  rl_allowed :: bool
  rl_limit :: int
  rl_remaining :: int
  rl_resetAtMs :: int
  rl_retryAfterSeconds :: int

type_synonym SlidingWindowStore = "string \<Rightarrow> millis list option"

text \<open>\<open>current[0] ?? nowMs\<close>\<close>

definition first_or :: "millis \<Rightarrow> millis list \<Rightarrow> millis" where
  "first_or d xs = (case xs of [] \<Rightarrow> d | x # _ \<Rightarrow> x)"

definition take_slot ::
  "SlidingWindowStore \<Rightarrow> string \<Rightarrow> RateLimitPolicy \<Rightarrow> millis \<Rightarrow> RateLimitResult \<times> SlidingWindowStore" where
  "take_slot store key policy nowMs =
     (let cutoff = nowMs - windowMs policy;
          current = filter (\<lambda>ts. ts > cutoff) (or_default (store key) [])
      in if int (length current) \<ge> policy_max policy
         then (let resetAtMs = first_or nowMs current + windowMs policy
               in (\<lparr>rl_allowed = False, rl_limit = policy_max policy, rl_remaining = 0,
                    rl_resetAtMs = resetAtMs,
                    rl_retryAfterSeconds = max 1 (ceil_div (resetAtMs - nowMs) 1000)\<rparr>,
                   store(key \<mapsto> current)))
         else (let pushed = current @ [nowMs];
                   resetAtMs = first_or nowMs pushed + windowMs policy
               in (\<lparr>rl_allowed = True, rl_limit = policy_max policy,
                    rl_remaining = max 0 (policy_max policy - int (length pushed)),
                    rl_resetAtMs = resetAtMs,
                    rl_retryAfterSeconds = max 0 (ceil_div (resetAtMs - nowMs) 1000)\<rparr>,
                   store(key \<mapsto> pushed))))"

section \<open>Reading the request\<close>

fun readHeaderValue :: "header option \<Rightarrow> string option" where
  "readHeaderValue (Some (HStr v)) = (if trim v \<noteq> [] then Some (trim v) else None)"
| "readHeaderValue (Some (HArr (v # _))) = (if trim v \<noteq> [] then Some (trim v) else None)"
| "readHeaderValue _ = None"

definition extractUserId :: "request \<Rightarrow> string option" where
  "extractUserId req =
     (let explicitUserId = js_or (js_or (req_userId req) (req_adminId req)) (req_user_id req)
      in if truthy explicitUserId then explicitUserId
         else readHeaderValue (req_headers req ''x-user-id''))"

definition isAuthenticated :: "request \<Rightarrow> bool" where
  "isAuthenticated req =
     (if truthy (req_adminId req) \<or> truthy (req_userId req) \<or> truthy (req_user_id req) then True
      else truthy (readHeaderValue (req_headers req ''authorization'')))"

definition extractIp :: "request \<Rightarrow> string" where
  "extractIp req =
     (let forwarded = readHeaderValue (req_headers req ''x-forwarded-for'')
      in if truthy forwarded then trim (hd (split_on CHR '','' (the forwarded)))
         else or_default (js_or (js_or (req_ip req) (req_socket_addr req)) (Some ''unknown'')) ''unknown'')"

definition applyRateLimitHeaders :: "RateLimitResult \<Rightarrow> response \<Rightarrow> response" where
  "applyRateLimitHeaders result res =
     set_header ''X-RateLimit-Reset'' (string_of_int (ceil_div (rl_resetAtMs result) 1000))
       (set_header ''X-RateLimit-Remaining'' (string_of_int (rl_remaining result))
         (set_header ''X-RateLimit-Limit'' (string_of_int (rl_limit result)) res))"

section \<open>The middlewares\<close>

definition WINDOW_15_MIN :: int where
  "WINDOW_15_MIN = 15 * 60 * 1000"

record RateLimiterOptions =
  ipPolicy :: RateLimitPolicy
  userPolicy :: RateLimitPolicy

definition default_options :: RateLimiterOptions where
  "default_options = \<lparr>ipPolicy = \<lparr>windowMs = WINDOW_15_MIN, policy_max = 100\<rparr>,
                      userPolicy = \<lparr>windowMs = WINDOW_15_MIN, policy_max = 200\<rparr>\<rparr>"

definition bucket_key :: "request \<Rightarrow> string" where
  "bucket_key req =
     (if truthy (extractUserId req) \<and> isAuthenticated req
      then ''user:'' @ the (extractUserId req) else ''ip:'' @ extractIp req)"

definition bucket_policy :: "RateLimiterOptions \<Rightarrow> request \<Rightarrow> RateLimitPolicy" where
  "bucket_policy opts req =
     (if truthy (extractUserId req) \<and> isAuthenticated req then userPolicy opts else ipPolicy opts)"

definition rateLimiterMiddleware ::
  "RateLimiterOptions \<Rightarrow> SlidingWindowStore \<Rightarrow> millis \<Rightarrow> request \<Rightarrow> SlidingWindowStore \<times> response" where
  "rateLimiterMiddleware opts store nowMs req =
     (if isAuthenticated req \<and> \<not> truthy (extractUserId req)
      then (store, call_next fresh_response)
      else
        (let (result, store') = take_slot store (bucket_key req) (bucket_policy opts req) nowMs;
             res = applyRateLimitHeaders result fresh_response
         in if \<not> rl_allowed result
            then (store', send_json 429 (JObj [(''error'', JStr ''Too many requests'')])
                    (set_header ''Retry-After'' (string_of_int (rl_retryAfterSeconds result)) res))
            else (store', call_next res)))"

definition auth_policy :: RateLimitPolicy where
  "auth_policy = \<lparr>windowMs = WINDOW_15_MIN, policy_max = 10\<rparr>"

definition authRateLimiterMiddleware ::
  "SlidingWindowStore \<Rightarrow> millis \<Rightarrow> request \<Rightarrow> SlidingWindowStore \<times> response" where
  "authRateLimiterMiddleware store nowMs req =
     (let (result, store') = take_slot store (''auth:ip:'' @ extractIp req) auth_policy nowMs;
          res = applyRateLimitHeaders result fresh_response
      in if \<not> rl_allowed result
         then (store', send_json 429
                 (JObj [(''error'', JStr ''Too many requests''),
                        (''retryAfter'', JNum (rl_retryAfterSeconds result))])
                 (set_header ''Retry-After'' (string_of_int (rl_retryAfterSeconds result)) res))
         else (store', call_next res))"

text \<open>A middleware serving a sequence of requests, with the responses in order.\<close>

primrec serve ::
  "('s \<Rightarrow> millis \<Rightarrow> request \<Rightarrow> 's \<times> response) \<Rightarrow> 's \<Rightarrow> (request \<times> millis) list \<Rightarrow> response list" where
  "serve mw s [] = []"
| "serve mw s (q # qs) = (let (s', r) = mw s (snd q) (fst q) in r # serve mw s' qs)"

text \<open>The times at which a request that satisfies a test was let through.\<close>

definition passed_times ::
  "('s \<Rightarrow> millis \<Rightarrow> request \<Rightarrow> 's \<times> response) \<Rightarrow> 's \<Rightarrow> (request \<Rightarrow> bool) \<Rightarrow> (request \<times> millis) list \<Rightarrow> millis list" where
  "passed_times mw s p qs =
     map (\<lambda>x. snd (fst x)) (filter (\<lambda>x. p (fst (fst x)) \<and> res_next (snd x)) (zip qs (serve mw s qs)))"

section \<open>The store implements the interface\<close>

definition sw_hits :: "SlidingWindowStore \<Rightarrow> string \<Rightarrow> millis list" where
  "sw_hits s k = or_default (s k) []"

definition sw_visit ::
  "(string \<Rightarrow> RateLimitPolicy) \<Rightarrow> SlidingWindowStore \<Rightarrow> string \<Rightarrow> millis \<Rightarrow> SlidingWindowStore" where
  "sw_visit pol s k now = snd (take_slot s k (pol k) now)"

definition sw_admits ::
  "(string \<Rightarrow> RateLimitPolicy) \<Rightarrow> SlidingWindowStore \<Rightarrow> string \<Rightarrow> millis \<Rightarrow> bool" where
  "sw_admits pol s k now = rl_allowed (fst (take_slot s k (pol k) now))"

lemma take_slot_allowed:
  "rl_allowed (fst (take_slot s k p now)) \<longleftrightarrow>
     int (length (filter (\<lambda>ts. now - windowMs p < ts) (sw_hits s k))) < policy_max p"
  by (simp add: take_slot_def sw_hits_def Let_def)

lemma take_slot_store:
  "snd (take_slot s k p now) =
     s(k \<mapsto> filter (\<lambda>ts. now - windowMs p < ts) (sw_hits s k) @
        (if rl_allowed (fst (take_slot s k p now)) then [now] else []))"
  by (simp add: take_slot_def sw_hits_def Let_def)

interpretation sw: capped_store sw_hits "sw_visit pol" "sw_admits pol"
  "\<lambda>k. windowMs (pol k)" "\<lambda>k. policy_max (pol k)" for pol
proof unfold_locales
  fix s :: SlidingWindowStore and k k' :: string and now :: millis
  show "sw_hits (sw_visit pol s k now) k =
      filter (\<lambda>ts. now - windowMs (pol k) < ts) (sw_hits s k) @ (if sw_admits pol s k now then [now] else [])"
    unfolding sw_visit_def sw_admits_def take_slot_store by (simp add: sw_hits_def)
  show "sw_hits (sw_visit pol s k now) k' = sw_hits s k'" if "k' \<noteq> k"
    unfolding sw_visit_def take_slot_store using that by (simp add: sw_hits_def)
  show "sw_admits pol s k now \<longleftrightarrow>
      int (length (filter (\<lambda>ts. now - windowMs (pol k) < ts) (sw_hits s k))) < policy_max (pol k)"
    unfolding sw_admits_def by (rule take_slot_allowed)
qed

section \<open>Lemmas on the middlewares\<close>

text \<open>The policy that a key of the shared store is always used with.\<close>

definition key_policy :: "RateLimiterOptions \<Rightarrow> string \<Rightarrow> RateLimitPolicy" where
  "key_policy opts k = (if take 5 k = ''user:'' then userPolicy opts else ipPolicy opts)"

definition bypasses :: "request \<Rightarrow> bool" where
  "bypasses req \<longleftrightarrow> isAuthenticated req \<and> \<not> truthy (extractUserId req)"

lemma key_policy_bucket [simp]: "key_policy opts (bucket_key req) = bucket_policy opts req"
  by (simp add: key_policy_def bucket_key_def bucket_policy_def)

lemma rateLimiter_bypass:
  "bypasses req \<Longrightarrow> rateLimiterMiddleware opts s now req = (s, call_next fresh_response)"
  by (simp add: rateLimiterMiddleware_def bypasses_def)

lemma rateLimiter_store:
  "\<not> bypasses req \<Longrightarrow>
     fst (rateLimiterMiddleware opts s now req) = sw_visit (key_policy opts) s (bucket_key req) now"
  by (auto simp: rateLimiterMiddleware_def bypasses_def sw_visit_def Let_def split: prod.split)

lemma rateLimiter_next:
  "\<not> bypasses req \<Longrightarrow>
     res_next (snd (rateLimiterMiddleware opts s now req)) \<longleftrightarrow> sw_admits (key_policy opts) s (bucket_key req) now"
  by (auto simp: rateLimiterMiddleware_def bypasses_def sw_admits_def applyRateLimitHeaders_def Let_def
      split: prod.split)

lemma rateLimiter_status:
  assumes "\<not> bypasses req"
  shows "let r = snd (rateLimiterMiddleware opts s now req)
         in if res_next r then res_status r = None
            else res_status r = Some 429 \<and> res_headers r ''Retry-After'' \<noteq> None"
  using assms
  by (auto simp: rateLimiterMiddleware_def bypasses_def applyRateLimitHeaders_def Let_def split: prod.split)

lemma bypasses_iff:
  "bypasses req \<longleftrightarrow>
     truthy (readHeaderValue (req_headers req ''authorization'')) \<and> \<not> truthy (req_userId req) \<and>
     \<not> truthy (req_adminId req) \<and> \<not> truthy (req_user_id req) \<and>
     \<not> truthy (readHeaderValue (req_headers req ''x-user-id''))"
  by (auto simp: bypasses_def isAuthenticated_def extractUserId_def truthy_js_or Let_def)

text \<open>Serving requests is a run of the store over the requests that are not bypassed.\<close>

lemma passed_times_admitted:
  "passed_times (rateLimiterMiddleware opts) s (\<lambda>q. \<not> bypasses q \<and> bucket_key q = k) qs =
   admitted (sw_visit (key_policy opts)) (sw_admits (key_policy opts)) s
     (map (\<lambda>q. (bucket_key (fst q), snd q)) (filter (\<lambda>q. \<not> bypasses (fst q)) qs)) k"
proof (induction qs arbitrary: s)
  case Nil
  then show ?case by (simp add: passed_times_def)
next
  case (Cons q qs)
  obtain req now where q: "q = (req, now)" by (cases q)
  obtain s' r where mw: "rateLimiterMiddleware opts s now req = (s', r)"
    by (cases "rateLimiterMiddleware opts s now req")
  show ?case
  proof (cases "bypasses req")
    case True
    then have "s' = s" using mw by (simp add: rateLimiter_bypass)
    with Cons [of s] True show ?thesis by (simp add: passed_times_def q mw)
  next
    case False
    then have s': "s' = sw_visit (key_policy opts) s (bucket_key req) now"
      and r: "res_next r = sw_admits (key_policy opts) s (bucket_key req) now"
      using rateLimiter_store [OF False, of opts s now] rateLimiter_next [OF False, of opts s now] mw by simp_all
    with Cons [of s'] False show ?thesis by (auto simp: passed_times_def q mw)
  qed
qed

lemma authLimiter_store:
  "fst (authRateLimiterMiddleware s now req) = sw_visit (\<lambda>_. auth_policy) s (''auth:ip:'' @ extractIp req) now"
  by (auto simp: authRateLimiterMiddleware_def sw_visit_def Let_def split: prod.split)

lemma authLimiter_next:
  "res_next (snd (authRateLimiterMiddleware s now req)) \<longleftrightarrow>
     sw_admits (\<lambda>_. auth_policy) s (''auth:ip:'' @ extractIp req) now"
  by (auto simp: authRateLimiterMiddleware_def sw_admits_def applyRateLimitHeaders_def Let_def split: prod.split)

lemma auth_passed_times_admitted:
  "passed_times authRateLimiterMiddleware s (\<lambda>q. extractIp q = ip) qs =
   admitted (sw_visit (\<lambda>_. auth_policy)) (sw_admits (\<lambda>_. auth_policy)) s
     (map (\<lambda>q. (''auth:ip:'' @ extractIp (fst q), snd q)) qs) (''auth:ip:'' @ ip)"
proof (induction qs arbitrary: s)
  case Nil
  then show ?case by (simp add: passed_times_def)
next
  case (Cons q qs)
  obtain req now where q: "q = (req, now)" by (cases q)
  obtain s' r where mw: "authRateLimiterMiddleware s now req = (s', r)"
    by (cases "authRateLimiterMiddleware s now req")
  have "s' = sw_visit (\<lambda>_. auth_policy) s (''auth:ip:'' @ extractIp req) now"
    and "res_next r = sw_admits (\<lambda>_. auth_policy) s (''auth:ip:'' @ extractIp req) now"
    using authLimiter_store [of s now req] authLimiter_next [of s now req] mw by simp_all
  with Cons [of s'] show ?case by (auto simp: passed_times_def q mw)
qed

lemma sorted_map_filter_times: "sorted (map snd qs) \<Longrightarrow> sorted (map snd (filter p qs))"
  by (induction qs) auto

section \<open>Properties\<close>

text \<open>C1. Whatever requests arrive, as long as the clock does not go back, in every window of the
  bucket's length at most \<open>max\<close> requests that share a bucket (a user id or an address) are let
  through to the next handler.\<close>

theorem rate_limit_never_exceeded:
  assumes "sorted (map snd qs)" and "0 \<le> policy_max (key_policy opts k)"
  shows "int (length (filter (in_window (windowMs (key_policy opts k)) x)
           (passed_times (rateLimiterMiddleware opts) (\<lambda>_. None) (\<lambda>q. \<not> bypasses q \<and> bucket_key q = k) qs)))
         \<le> policy_max (key_policy opts k)"
  unfolding passed_times_admitted
  by (rule sw.window_cap) (use assms in \<open>simp_all add: sw_hits_def o_def sorted_map_filter_times\<close>)

theorem rate_limit_never_exceeded_witness:
  "int (length (filter (in_window (windowMs (key_policy default_options ''ip:unknown'')) 5)
           (passed_times (rateLimiterMiddleware default_options) (\<lambda>_. None)
              (\<lambda>q. \<not> bypasses q \<and> bucket_key q = ''ip:unknown'') [(empty_request, 1), (empty_request, 5)])))
   \<le> policy_max (key_policy default_options ''ip:unknown'')"
  by (rule rate_limit_never_exceeded) (simp_all add: key_policy_def default_options_def)

text \<open>C13. The advice of a refusal is sound: after any run of the store, a refused caller that waits
  \<open>retryAfterSeconds\<close> and comes back, with no other visit to its bucket in between, is admitted.\<close>

theorem retry_after_suffices:
  fixes rs :: visit_trace
  assumes "0 < policy_max (pol k)"
    and "take_slot (visits (sw_visit pol) (\<lambda>_. None) rs) k (pol k) now = (res, s')"
    and "\<not> rl_allowed res"
    and "now + 1000 * rl_retryAfterSeconds res \<le> t"
  shows "rl_allowed (fst (take_slot s' k (pol k) t))"
proof -
  let ?s = "visits (sw_visit pol) (\<lambda>_. None) rs"
  let ?P = "filter (\<lambda>ts. now - windowMs (pol k) < ts) (sw_hits ?s k)"
  have deny: "\<not> sw_admits pol ?s k now" and s': "s' = sw_visit pol ?s k now"
    using assms(2,3) by (simp_all add: sw_admits_def sw_visit_def)
  then have "?P \<noteq> []" using assms(1) sw.admits_iff [where pol = pol and s = ?s and k = k and now = now] by force
  then have reset: "rl_resetAtMs res = hd ?P + windowMs (pol k)"
    and retry: "rl_retryAfterSeconds res = max 1 (ceil_div (rl_resetAtMs res - now) 1000)"
    using assms(2,3) by (auto simp: take_slot_def Let_def sw_hits_def first_or_def split: if_splits list.splits)
  have "rl_resetAtMs res - now \<le> ceil_div (rl_resetAtMs res - now) 1000 * 1000"
    by (rule ceil_div_upper) simp
  also have "\<dots> \<le> 1000 * rl_retryAfterSeconds res" unfolding retry by linarith
  finally have "rl_resetAtMs res \<le> t" using assms(4) by linarith
  moreover have "int (length (sw_hits ?s k)) \<le> policy_max (pol k)"
    by (rule sw.hits_le_cap) (use assms(1) in \<open>simp_all add: sw_hits_def\<close>)
  ultimately have "sw_admits pol (sw_visit pol ?s k now) k t"
    using sw.admits_after_reset [where pol = pol and s = ?s and k = k and now = now and t = t] assms(1) deny reset by simp
  then show ?thesis by (simp add: sw_admits_def s')
qed

theorem retry_after_suffices_witness:
  "rl_allowed (fst (take_slot
     (snd (take_slot (visits (sw_visit (\<lambda>_. \<lparr>windowMs = 1000, policy_max = 1\<rparr>)) (\<lambda>_. None) [(''k'', 0)])
        ''k'' \<lparr>windowMs = 1000, policy_max = 1\<rparr> 10)) ''k'' \<lparr>windowMs = 1000, policy_max = 1\<rparr> 1010))"
  by (rule retry_after_suffices [where pol = "\<lambda>_. \<lparr>windowMs = 1000, policy_max = 1\<rparr>"
        and rs = "[(''k'', 0)]" and now = 10
        and res = "fst (take_slot (visits (sw_visit (\<lambda>_. \<lparr>windowMs = 1000, policy_max = 1\<rparr>)) (\<lambda>_. None) [(''k'', 0)])
        ''k'' \<lparr>windowMs = 1000, policy_max = 1\<rparr> 10)"])
    (simp_all add: sw_visit_def take_slot_def Let_def first_or_def ceil_div_def)

text \<open>The limiter lets a request through without counting it exactly when the request carries a
  non-blank \<open>Authorization\<close> header and no user or admin id in any form; every other request is
  either passed on and recorded, or answered with status 429.\<close>

theorem rate_limiter_outcomes:
  "(bypasses req \<longleftrightarrow>
      truthy (readHeaderValue (req_headers req ''authorization'')) \<and> \<not> truthy (req_userId req) \<and>
      \<not> truthy (req_adminId req) \<and> \<not> truthy (req_user_id req) \<and>
      \<not> truthy (readHeaderValue (req_headers req ''x-user-id''))) \<and>
   (let (s', r) = rateLimiterMiddleware opts s now req
    in if bypasses req then s' = s \<and> res_next r
       else if sw_admits (key_policy opts) s (bucket_key req) now
       then res_next r \<and> res_status r = None \<and> now \<in> set (sw_hits s' (bucket_key req))
       else \<not> res_next r \<and> res_status r = Some 429 \<and> res_headers r ''Retry-After'' \<noteq> None)"
proof (cases "bypasses req")
  case True
  then show ?thesis by (simp add: bypasses_iff [symmetric] rateLimiter_bypass)
next
  case False
  obtain s' r where mw: "rateLimiterMiddleware opts s now req = (s', r)"
    by (cases "rateLimiterMiddleware opts s now req")
  have "s' = sw_visit (key_policy opts) s (bucket_key req) now"
    and "res_next r = sw_admits (key_policy opts) s (bucket_key req) now"
    and "\<not> res_next r \<Longrightarrow> res_status r = Some 429 \<and> res_headers r ''Retry-After'' \<noteq> None"
    and "res_next r \<Longrightarrow> res_status r = None"
    using rateLimiter_store [OF False, of opts s now] rateLimiter_next [OF False, of opts s now]
      rateLimiter_status [OF False, of opts s now] mw by simp_all
  with False show ?thesis by (simp add: bypasses_iff [symmetric] mw sw.hits_visit_same)
qed

end
