(* ===== verification/Ramp_Protection.thy ===== *)
theory Ramp_Protection
  imports Http Sliding_Window
begin

text \<open>
  Abuse protection of the fiat ramp and KYC endpoints, \<open>backend/src/fiat_ramp_protection.ts\<close>: the
  \<open>InMemoryVelocityStore\<close>, the address limiter with its hourly anomaly check, the per-user deposit
  velocity limiter, the CAPTCHA gate and their composition \<open>rampProtection\<close>. The one module-level
  store is the state; besides the response, an outcome records the anomaly flags and the limit
  breaches that the code counts in its metrics. The store implements \<open>counting_store\<close>.
\<close>

section \<open>The velocity store\<close>

type_synonym velocity_store = "string \<Rightarrow> millis list option"

definition velocity_record :: "velocity_store \<Rightarrow> string \<Rightarrow> int \<Rightarrow> millis \<Rightarrow> int \<times> velocity_store" where
  "velocity_record buckets key windowMs nowMs =
     (let cutoff = nowMs - windowMs;
          timestamps = filter (\<lambda>ts. ts > cutoff) (or_default (buckets key) []) @ [nowMs]
      in (int (length timestamps), buckets(key \<mapsto> timestamps)))"

definition velocity_count :: "velocity_store \<Rightarrow> string \<Rightarrow> int \<Rightarrow> millis \<Rightarrow> int" where
  "velocity_count buckets key windowMs nowMs =
     (let cutoff = nowMs - windowMs
      in case buckets key of
           None \<Rightarrow> 0
         | Some timestamps \<Rightarrow> int (length (filter (\<lambda>ts. ts > cutoff) timestamps)))"

section \<open>Helpers and constants\<close>

text \<open>Node joins a repeated \<open>x-user-id\<close> header; an array value is read the way a template string
  prints it.\<close>

fun header_string :: "header option \<Rightarrow> string option" where
  "header_string None = None"
| "header_string (Some (HStr v)) = Some v"
| "header_string (Some (HArr vs)) = Some (join '','' vs)"

definition ramp_extractIp :: "request \<Rightarrow> string" where
  "ramp_extractIp req =
     (case req_headers req ''x-forwarded-for'' of
        Some (HStr f) \<Rightarrow>
          if trim f \<noteq> [] then trim (hd (split_on CHR '','' f))
          else or_default (nullish (req_ip req) (req_socket_addr req)) ''unknown''
      | _ \<Rightarrow> or_default (nullish (req_ip req) (req_socket_addr req)) ''unknown'')"

definition ramp_extractUserId :: "request \<Rightarrow> string option" where
  "ramp_extractUserId req =
     nullish (nullish (req_userId req) (req_user_id req)) (header_string (req_headers req ''x-user-id''))"

definition sendRateLimitResponse :: "int \<Rightarrow> string \<Rightarrow> response \<Rightarrow> response" where
  "sendRateLimitResponse retryAfterSeconds reason res =
     send_json 429 (JObj [(''error'', JStr ''Too many requests''), (''reason'', JStr reason),
                          (''retryAfterSeconds'', JNum retryAfterSeconds)])
       (set_header ''Retry-After'' (string_of_int retryAfterSeconds) res)"

definition RAMP_WINDOW_15_MIN :: int where "RAMP_WINDOW_15_MIN = 15 * 60 * 1000"
definition RAMP_WINDOW_1_HOUR :: int where "RAMP_WINDOW_1_HOUR = 60 * 60 * 1000"
definition IP_MAX_PER_15_MIN :: int where "IP_MAX_PER_15_MIN = 5"
definition USER_MAX_DEPOSITS_PER_HOUR :: int where "USER_MAX_DEPOSITS_PER_HOUR = 3"
definition IP_ANOMALY_THRESHOLD_PER_HOUR :: int where "IP_ANOMALY_THRESHOLD_PER_HOUR = 20"

definition key15 :: "string \<Rightarrow> string" where "key15 ip = ''ramp:ip:'' @ ip"
definition key60 :: "string \<Rightarrow> string" where "key60 ip = ''ramp:ip:hour:'' @ ip"

record ramp_outcome =
  ro_store :: velocity_store
  ro_res :: response
  ro_flags :: "string list"
  ro_breaches :: "string list"

definition pass_on :: "velocity_store \<Rightarrow> ramp_outcome" where
  "pass_on s = \<lparr>ro_store = s, ro_res = call_next fresh_response, ro_flags = [], ro_breaches = []\<rparr>"

section \<open>The middlewares\<close>

definition rampIpRateLimiter :: "velocity_store \<Rightarrow> millis \<Rightarrow> request \<Rightarrow> ramp_outcome" where
  "rampIpRateLimiter s nowMs req =
     (let ip = ramp_extractIp req;
          key = key15 ip;
          (count, s1) = velocity_record s key RAMP_WINDOW_15_MIN nowMs;
          hourCount = velocity_count s1 (key60 ip) RAMP_WINDOW_1_HOUR nowMs;
          flags = (if hourCount > IP_ANOMALY_THRESHOLD_PER_HOUR then [''high_ip_volume''] else [])
      in if count > IP_MAX_PER_15_MIN
         then \<lparr>ro_store = s1,
               ro_res = sendRateLimitResponse (15 * 60) ''IP rate limit exceeded on ramp endpoint'' fresh_response,
               ro_flags = flags, ro_breaches = [''ip_15min'']\<rparr>
         else \<lparr>ro_store = snd (velocity_record s1 (key60 ip) RAMP_WINDOW_1_HOUR nowMs),
               ro_res = call_next fresh_response, ro_flags = flags, ro_breaches = []\<rparr>)"

definition rampUserVelocityLimiter :: "velocity_store \<Rightarrow> millis \<Rightarrow> request \<Rightarrow> ramp_outcome" where
  "rampUserVelocityLimiter s nowMs req =
     (let userId = ramp_extractUserId req
      in if \<not> truthy userId then pass_on s
         else
           (let key = ''ramp:user:deposit:'' @ the userId;
                (count, s1) = velocity_record s key RAMP_WINDOW_1_HOUR nowMs
            in if count > USER_MAX_DEPOSITS_PER_HOUR
               then \<lparr>ro_store = s1,
                     ro_res = sendRateLimitResponse (60 * 60) ''Deposit velocity limit exceeded'' fresh_response,
                     ro_flags = [], ro_breaches = [''user_deposit_velocity'']\<rparr>
               else pass_on s1))"

record captcha_config =
  captcha_secretKey :: "string option"
  captcha_nodeEnv :: string

definition verifyCaptchaToken :: "captcha_config \<Rightarrow> string \<Rightarrow> bool" where
  "verifyCaptchaToken cfg token =
     (if \<not> truthy (captcha_secretKey cfg)
      then (if captcha_nodeEnv cfg = ''production'' then False else True)
      else length token > 0)"

definition rampCaptchaGate :: "captcha_config \<Rightarrow> velocity_store \<Rightarrow> millis \<Rightarrow> request \<Rightarrow> ramp_outcome" where
  "rampCaptchaGate cfg s nowMs req =
     (if truthy (ramp_extractUserId req) then pass_on s
      else
        (let token = nullish (header_string (req_headers req ''x-captcha-token'')) (req_captcha_body req)
         in if \<not> truthy token
            then \<lparr>ro_store = s,
                  ro_res = send_json 403
                    (JObj [(''error'', JStr ''CAPTCHA token required for unauthenticated ramp access'')]) fresh_response,
                  ro_flags = [''missing_captcha_token''], ro_breaches = []\<rparr>
            else if \<not> verifyCaptchaToken cfg (the token)
            then \<lparr>ro_store = s,
                  ro_res = send_json 403 (JObj [(''error'', JStr ''Invalid or expired CAPTCHA token'')]) fresh_response,
                  ro_flags = [''invalid_captcha_token''], ro_breaches = []\<rparr>
            else pass_on s))"

definition rampProtection ::
  "captcha_config \<Rightarrow> bool \<Rightarrow> (velocity_store \<Rightarrow> millis \<Rightarrow> request \<Rightarrow> ramp_outcome) list" where
  "rampProtection cfg velocityCheck =
     [rampIpRateLimiter, rampCaptchaGate cfg] @ (if velocityCheck then [rampUserVelocityLimiter] else [])"

text \<open>Express runs the middlewares of a route in order and stops at the first that does not call
  \<open>next()\<close>.\<close>

fun run_chain ::
  "(velocity_store \<Rightarrow> millis \<Rightarrow> request \<Rightarrow> ramp_outcome) list \<Rightarrow> velocity_store \<Rightarrow> millis \<Rightarrow> request \<Rightarrow> ramp_outcome" where
  "run_chain [] s now req = pass_on s"
| "run_chain (m # ms) s now req =
     (let o1 = m s now req
      in if res_next (ro_res o1)
         then (let o2 = run_chain ms (ro_store o1) now req
               in o2\<lparr>ro_flags := ro_flags o1 @ ro_flags o2, ro_breaches := ro_breaches o1 @ ro_breaches o2\<rparr>)
         else o1)"

primrec ramp_serve ::
  "(velocity_store \<Rightarrow> millis \<Rightarrow> request \<Rightarrow> ramp_outcome) \<Rightarrow> velocity_store \<Rightarrow> (request \<times> millis) list \<Rightarrow> ramp_outcome list" where
  "ramp_serve m s [] = []"
| "ramp_serve m s (q # qs) = (let r = m s (snd q) (fst q) in r # ramp_serve m (ro_store r) qs)"

section \<open>The store implements the interface\<close>

definition velocity_hits :: "velocity_store \<Rightarrow> string \<Rightarrow> millis list" where
  "velocity_hits s k = or_default (s k) []"

lemma velocity_record_store:
  "snd (velocity_record s k w now) = s(k \<mapsto> filter (\<lambda>ts. now - w < ts) (velocity_hits s k) @ [now])"
  by (simp add: velocity_record_def velocity_hits_def Let_def)

lemma velocity_record_count:
  "fst (velocity_record s k w now) = int (length (filter (\<lambda>ts. now - w < ts) (velocity_hits s k))) + 1"
  by (simp add: velocity_record_def velocity_hits_def Let_def)

lemma velocity_count_hits:
  "velocity_count s k w now = int (length (filter (\<lambda>ts. now - w < ts) (velocity_hits s k)))"
  by (simp add: velocity_count_def velocity_hits_def split: option.split)

interpretation vs: counting_store velocity_hits
  "\<lambda>s k now. snd (velocity_record s k w now)" "\<lambda>_ _ _. True" "\<lambda>_. w" for w
  by unfold_locales (simp_all add: velocity_record_store velocity_hits_def)

lemma velocity_hits_record:
  "velocity_hits (snd (velocity_record s j w now)) k =
     (if j = k then filter (\<lambda>ts. now - w < ts) (velocity_hits s k) @ [now] else velocity_hits s k)"
  using vs.hits_step [where w = w] by simp

section \<open>The address limiter along a run\<close>

definition colon_free_prefix :: "string \<Rightarrow> bool" where
  "colon_free_prefix ip \<longleftrightarrow> take 5 ip \<noteq> ''hour:''"

lemma key15_key60: "colon_free_prefix ip \<Longrightarrow> key15 ip \<noteq> key60 ip'"
  by (auto simp: colon_free_prefix_def key15_def key60_def)

lemma key_inject [simp]: "key15 ip = key15 ip' \<longleftrightarrow> ip = ip'" "key60 ip = key60 ip' \<longleftrightarrow> ip = ip'"
  by (simp_all add: key15_def key60_def)

lemma ramp_ip_next:
  "res_next (ro_res (rampIpRateLimiter s now req)) \<longleftrightarrow>
     int (length (filter (\<lambda>ts. now - RAMP_WINDOW_15_MIN < ts) (velocity_hits s (key15 (ramp_extractIp req))))) + 1
       \<le> IP_MAX_PER_15_MIN"
  using velocity_record_count [of s "key15 (ramp_extractIp req)" RAMP_WINDOW_15_MIN now]
  by (auto simp: rampIpRateLimiter_def sendRateLimitResponse_def Let_def split: prod.split)

lemma ramp_ip_refused:
  "\<not> res_next (ro_res (rampIpRateLimiter s now req)) \<Longrightarrow> res_status (ro_res (rampIpRateLimiter s now req)) = Some 429"
  by (auto simp: rampIpRateLimiter_def sendRateLimitResponse_def Let_def split: prod.split if_splits)

lemma captcha_gate_cases:
  "let token = nullish (header_string (req_headers req ''x-captcha-token'')) (req_captcha_body req);
       ok = truthy (ramp_extractUserId req) \<or> (truthy token \<and> verifyCaptchaToken cfg (the token));
       r = rampCaptchaGate cfg s now req
   in ro_store r = s \<and> (res_next (ro_res r) \<longleftrightarrow> ok) \<and> (\<not> ok \<longrightarrow> res_status (ro_res r) = Some 403)"
  by (simp add: rampCaptchaGate_def pass_on_def Let_def)

lemma velocity_limiter_cases:
  "let uid = ramp_extractUserId req;
       ok = (\<not> truthy uid \<or>
         int (length (filter (\<lambda>ts. now - RAMP_WINDOW_1_HOUR < ts) (velocity_hits s (''ramp:user:deposit:'' @ the uid))))
           < USER_MAX_DEPOSITS_PER_HOUR);
       r = rampUserVelocityLimiter s now req
   in (res_next (ro_res r) \<longleftrightarrow> ok) \<and> (\<not> ok \<longrightarrow> res_status (ro_res r) = Some 429)"
  using velocity_record_count [of s "''ramp:user:deposit:'' @ the (ramp_extractUserId req)" RAMP_WINDOW_1_HOUR now]
  by (auto simp: rampUserVelocityLimiter_def pass_on_def sendRateLimitResponse_def Let_def split: prod.split)

lemma ramp_ip_store:
  "ro_store (rampIpRateLimiter s now req) =
     (let s1 = snd (velocity_record s (key15 (ramp_extractIp req)) RAMP_WINDOW_15_MIN now)
      in if res_next (ro_res (rampIpRateLimiter s now req))
         then snd (velocity_record s1 (key60 (ramp_extractIp req)) RAMP_WINDOW_1_HOUR now) else s1)"
  by (auto simp: rampIpRateLimiter_def sendRateLimitResponse_def Let_def split: prod.split)

lemma ramp_ip_flags:
  assumes "colon_free_prefix (ramp_extractIp req)"
  shows "ro_flags (rampIpRateLimiter s now req) =
     (if int (length (filter (\<lambda>ts. now - RAMP_WINDOW_1_HOUR < ts) (velocity_hits s (key60 (ramp_extractIp req)))))
         > IP_ANOMALY_THRESHOLD_PER_HOUR then [''high_ip_volume''] else [])"
  using velocity_hits_record [of s "key15 (ramp_extractIp req)" RAMP_WINDOW_15_MIN now "key60 (ramp_extractIp req)"]
    key15_key60 [OF assms, of "ramp_extractIp req"]
  by (auto simp: rampIpRateLimiter_def velocity_count_hits Let_def split: prod.split)

text \<open>How the two buckets of an address relate to the log \<open>A\<close> of all its requests and the log \<open>L\<close> of
  those that were passed on, at a moment not before \<open>T\<close>.\<close>

definition ramp_inv :: "string \<Rightarrow> millis \<Rightarrow> velocity_store \<Rightarrow> millis list \<Rightarrow> millis list \<Rightarrow> bool" where
  "ramp_inv ip T s A L \<longleftrightarrow>
     (\<forall>x\<ge>T. filter (\<lambda>ts. x - RAMP_WINDOW_15_MIN < ts) A =
            filter (\<lambda>ts. x - RAMP_WINDOW_15_MIN < ts) (velocity_hits s (key15 ip))) \<and>
     (\<forall>x\<ge>T. filter (\<lambda>ts. x - RAMP_WINDOW_1_HOUR < ts) L =
            filter (\<lambda>ts. x - RAMP_WINDOW_1_HOUR < ts) (velocity_hits s (key60 ip))) \<and>
     (\<forall>P. length (filter P L) \<le> length (filter P A)) \<and>
     (\<forall>x. int (length (filter (in_window RAMP_WINDOW_15_MIN x) L)) \<le> IP_MAX_PER_15_MIN) \<and>
     (\<forall>t\<in>set A. t \<le> T)"

lemma ramp_invD:
  assumes "ramp_inv ip T s A L" and "T \<le> x"
  shows "filter (\<lambda>ts. x - RAMP_WINDOW_15_MIN < ts) A = filter (\<lambda>ts. x - RAMP_WINDOW_15_MIN < ts) (velocity_hits s (key15 ip))"
    and "filter (\<lambda>ts. x - RAMP_WINDOW_1_HOUR < ts) L = filter (\<lambda>ts. x - RAMP_WINDOW_1_HOUR < ts) (velocity_hits s (key60 ip))"
    and "length (filter P L) \<le> length (filter P A)"
    and "int (length (filter (in_window RAMP_WINDOW_15_MIN y) L)) \<le> IP_MAX_PER_15_MIN"
    and "\<And>t. t \<in> set A \<Longrightarrow> t \<le> x"
  using assms unfolding ramp_inv_def by (blast, blast, blast, blast, fastforce)

lemma ramp_inv_init: "ramp_inv ip T (\<lambda>_. None) [] []"
  by (simp add: ramp_inv_def velocity_hits_def IP_MAX_PER_15_MIN_def)

lemma ramp_inv_other:
  assumes "ramp_inv ip T s A L" and "T \<le> now" and "ramp_extractIp req \<noteq> ip"
    and "colon_free_prefix ip" and "colon_free_prefix (ramp_extractIp req)"
  shows "ramp_inv ip now (ro_store (rampIpRateLimiter s now req)) A L"
proof -
  have k: "key15 (ramp_extractIp req) \<noteq> key60 ip" "key60 (ramp_extractIp req) \<noteq> key15 ip"
    using key15_key60 [OF assms(5)] key15_key60 [OF assms(4)] by metis+
  then have "velocity_hits (ro_store (rampIpRateLimiter s now req)) (key15 ip) = velocity_hits s (key15 ip)"
    "velocity_hits (ro_store (rampIpRateLimiter s now req)) (key60 ip) = velocity_hits s (key60 ip)"
    using assms(3) unfolding ramp_ip_store by (simp_all add: velocity_hits_record Let_def)
  then show ?thesis using assms(1,2) unfolding ramp_inv_def by auto
qed

lemma ramp_inv_same:
  assumes inv: "ramp_inv ip T s A L" and "T \<le> now" and ip: "ramp_extractIp req = ip" and "colon_free_prefix ip"
  shows "ramp_inv ip now (ro_store (rampIpRateLimiter s now req)) (A @ [now])
     (L @ (if res_next (ro_res (rampIpRateLimiter s now req)) then [now] else []))"
proof -
  let ?pass = "res_next (ro_res (rampIpRateLimiter s now req))"
  let ?s = "ro_store (rampIpRateLimiter s now req)"
  have k: "key15 ip \<noteq> key60 ip" by (rule key15_key60) fact
  have h15: "velocity_hits ?s (key15 ip) = filter (\<lambda>ts. now - RAMP_WINDOW_15_MIN < ts) (velocity_hits s (key15 ip)) @ [now]"
    using k unfolding ramp_ip_store by (simp add: velocity_hits_record Let_def ip)
  have h60: "velocity_hits ?s (key60 ip) = (if ?pass
      then filter (\<lambda>ts. now - RAMP_WINDOW_1_HOUR < ts) (velocity_hits s (key60 ip)) @ [now] else velocity_hits s (key60 ip))"
    using k unfolding ramp_ip_store by (simp add: velocity_hits_record Let_def ip)
  note D = ramp_invD [OF inv]
  have cap: "int (length (filter (in_window RAMP_WINDOW_15_MIN x) (L @ (if ?pass then [now] else [])))) \<le> IP_MAX_PER_15_MIN" for x
  proof (cases "?pass \<and> in_window RAMP_WINDOW_15_MIN x now")
    case False
    then show ?thesis using D(4) [OF \<open>T \<le> now\<close>, of x] by auto
  next
    case True
    have "length (filter (in_window RAMP_WINDOW_15_MIN x) L) \<le> length (filter (in_window RAMP_WINDOW_15_MIN x) A)"
      by (rule D(3) [OF \<open>T \<le> now\<close>])
    also have "\<dots> \<le> length (filter (\<lambda>ts. now - RAMP_WINDOW_15_MIN < ts) A)"
      by (rule length_filter_le_imp) (use True in \<open>auto simp: in_window_def\<close>)
    finally show ?thesis
      using True D(1) [OF \<open>T \<le> now\<close>] ramp_ip_next [of s now req] ip by simp
  qed
  have "filter (\<lambda>ts. x - RAMP_WINDOW_15_MIN < ts) (A @ [now]) =
      filter (\<lambda>ts. x - RAMP_WINDOW_15_MIN < ts) (velocity_hits ?s (key15 ip))" if "now \<le> x" for x
    using D(1) [of x] that \<open>T \<le> now\<close> by (simp add: h15 filter_window_shift)
  moreover have "filter (\<lambda>ts. x - RAMP_WINDOW_1_HOUR < ts) (L @ (if ?pass then [now] else [])) =
      filter (\<lambda>ts. x - RAMP_WINDOW_1_HOUR < ts) (velocity_hits ?s (key60 ip))" if "now \<le> x" for x
    using D(2) [of x] that \<open>T \<le> now\<close> by (simp add: h60 filter_window_shift)
  moreover have "length (filter P (L @ (if ?pass then [now] else []))) \<le> length (filter P (A @ [now]))" for P
    using D(3) [OF \<open>T \<le> now\<close>, of P] by simp
  ultimately show ?thesis
    using cap D(5) [OF \<open>T \<le> now\<close>] unfolding ramp_inv_def by auto
qed

text \<open>Five passes in every quarter of an hour are at most twenty in an hour.\<close>

lemma length_filter_or:
  "length (filter (\<lambda>x. p x \<or> q x) xs) \<le> length (filter p xs) + length (filter q xs)"
  by (induction xs) auto

lemma hour_is_four_quarters:
  assumes "ramp_inv ip T s A L" and "T \<le> now"
  shows "int (length (filter (\<lambda>ts. now - RAMP_WINDOW_1_HOUR < ts) L)) \<le> IP_ANOMALY_THRESHOLD_PER_HOUR"
proof -
  let ?q = "\<lambda>i ts. in_window RAMP_WINDOW_15_MIN (now - i * RAMP_WINDOW_15_MIN) ts"
  have le: "t \<le> now" if "t \<in> set L" for t
  proof -
    have "length (filter (\<lambda>u. u = t) L) \<noteq> 0" using that by (simp add: filter_empty_conv)
    then have "length (filter (\<lambda>u. u = t) A) \<noteq> 0"
      using ramp_invD(3) [OF assms, of "\<lambda>u. u = t"] by linarith
    then have "t \<in> set A" by (auto simp: filter_empty_conv)
    then show ?thesis by (rule ramp_invD(5) [OF assms])
  qed
  have "length (filter (\<lambda>ts. now - RAMP_WINDOW_1_HOUR < ts) L)
      \<le> length (filter (\<lambda>ts. (?q 0 ts \<or> ?q 1 ts) \<or> (?q 2 ts \<or> ?q 3 ts)) L)"
    by (rule length_filter_le_imp)
      (use le in \<open>auto simp: in_window_def RAMP_WINDOW_15_MIN_def RAMP_WINDOW_1_HOUR_def\<close>)
  also have "\<dots> \<le> (length (filter (?q 0) L) + length (filter (?q 1) L)) + (length (filter (?q 2) L) + length (filter (?q 3) L))"
    by (rule order_trans [OF length_filter_or add_mono [OF length_filter_or length_filter_or]])
  finally show ?thesis
    using ramp_invD(4) [OF assms, of "now - 0 * RAMP_WINDOW_15_MIN"] ramp_invD(4) [OF assms, of "now - 1 * RAMP_WINDOW_15_MIN"]
      ramp_invD(4) [OF assms, of "now - 2 * RAMP_WINDOW_15_MIN"] ramp_invD(4) [OF assms, of "now - 3 * RAMP_WINDOW_15_MIN"]
    by (simp add: IP_MAX_PER_15_MIN_def IP_ANOMALY_THRESHOLD_PER_HOUR_def)
qed

definition ramp_passed ::
  "velocity_store \<Rightarrow> string \<Rightarrow> (request \<times> millis) list \<Rightarrow> millis list" where
  "ramp_passed s ip qs =
     map (\<lambda>x. snd (fst x)) (filter (\<lambda>x. ramp_extractIp (fst (fst x)) = ip \<and> res_next (ro_res (snd x)))
       (zip qs (ramp_serve rampIpRateLimiter s qs)))"

abbreviation plain_addresses :: "(request \<times> millis) list \<Rightarrow> bool" where
  "plain_addresses qs \<equiv> list_all (\<lambda>q. colon_free_prefix (ramp_extractIp (fst q))) qs"

lemma ramp_inv_step:
  assumes "ramp_inv ip T s A L" and "T \<le> now" and "colon_free_prefix ip" and "colon_free_prefix (ramp_extractIp req)"
  shows "\<exists>A'. ramp_inv ip now (ro_store (rampIpRateLimiter s now req)) A'
     (L @ (if ramp_extractIp req = ip \<and> res_next (ro_res (rampIpRateLimiter s now req)) then [now] else []))"
proof (cases "ramp_extractIp req = ip")
  case True
  from ramp_inv_same [OF assms(1,2) True assms(3)] True show ?thesis by auto
next
  case False
  from ramp_inv_other [OF assms(1,2) False assms(3,4)] False show ?thesis by auto
qed

lemma ramp_passed_Cons:
  "ramp_passed s ip ((req, now) # qs) =
     (if ramp_extractIp req = ip \<and> res_next (ro_res (rampIpRateLimiter s now req)) then [now] else []) @
     ramp_passed (ro_store (rampIpRateLimiter s now req)) ip qs"
  by (simp add: ramp_passed_def Let_def)

lemma ramp_run_flags:
  assumes "ramp_inv ip T s A L" and "sorted (T # map snd qs)" and "plain_addresses qs" and "colon_free_prefix ip"
    and "(q, r) \<in> set (zip qs (ramp_serve rampIpRateLimiter s qs))" and "ramp_extractIp (fst q) = ip"
  shows "ro_flags r = []"
  using assms
proof (induction qs arbitrary: T s A L)
  case (Cons a qs)
  obtain req now where a: "a = (req, now)" by (cases a)
  let ?r = "rampIpRateLimiter s now req"
  obtain A' where step: "ramp_inv ip now (ro_store ?r) A'
     (L @ (if ramp_extractIp req = ip \<and> res_next (ro_res ?r) then [now] else []))"
    using ramp_inv_step [of ip T s A L now req] Cons.prems by (auto simp: a)
  consider "r = ?r" "ramp_extractIp req = ip"
    | "(q, r) \<in> set (zip qs (ramp_serve rampIpRateLimiter (ro_store ?r) qs))"
    using Cons.prems(5,6) by (auto simp: a Let_def)
  then show ?case
  proof cases
    case 1
    have "T \<le> now" using Cons.prems(2) by (simp add: a)
    from hour_is_four_quarters [OF Cons.prems(1) this] ramp_invD(2) [OF Cons.prems(1) this]
    show ?thesis using ramp_ip_flags [of req s now] Cons.prems(4) 1 by simp
  next
    case 2
    from Cons.IH [OF step _ _ _ 2] Cons.prems show ?thesis by (simp add: a)
  qed
qed simp

section \<open>Properties\<close>

text \<open>An address is what the client sends, and may be chosen so that its bucket is the hourly bucket of another address. That
  only adds stamps to the bucket: within the window of the limit, every stamp of a request passed on stays in it.\<close>

definition cap_inv :: "string \<Rightarrow> millis \<Rightarrow> velocity_store \<Rightarrow> millis list \<Rightarrow> bool" where
  "cap_inv ip T s L \<longleftrightarrow>
     (\<forall>x\<ge>T. length (filter (\<lambda>ts. x - RAMP_WINDOW_15_MIN < ts) L)
              \<le> length (filter (\<lambda>ts. x - RAMP_WINDOW_15_MIN < ts) (velocity_hits s (key15 ip)))) \<and>
     (\<forall>x. int (length (filter (in_window RAMP_WINDOW_15_MIN x) L)) \<le> IP_MAX_PER_15_MIN)"

lemma record_keeps_recent:
  assumes "RAMP_WINDOW_15_MIN \<le> w" and "now \<le> x"
  shows "length (filter (\<lambda>ts. x - RAMP_WINDOW_15_MIN < ts) (velocity_hits s k))
    \<le> length (filter (\<lambda>ts. x - RAMP_WINDOW_15_MIN < ts) (velocity_hits (snd (velocity_record s j w now)) k))"
proof -
  have "filter (\<lambda>ts. x - RAMP_WINDOW_15_MIN < ts) (filter (\<lambda>ts. now - w < ts) (velocity_hits s k)) =
      filter (\<lambda>ts. x - RAMP_WINDOW_15_MIN < ts) (velocity_hits s k)"
    using assms by (auto simp: filter_filter intro!: filter_cong)
  then show ?thesis by (simp add: velocity_hits_record)
qed

lemma own_record_counts:
  assumes "now \<le> x"
  shows "length (filter (\<lambda>ts. x - RAMP_WINDOW_15_MIN < ts) (velocity_hits s k)) + (if x - RAMP_WINDOW_15_MIN < now then 1 else 0)
    \<le> length (filter (\<lambda>ts. x - RAMP_WINDOW_15_MIN < ts) (velocity_hits (snd (velocity_record s k RAMP_WINDOW_15_MIN now)) k))"
proof -
  have "filter (\<lambda>ts. x - RAMP_WINDOW_15_MIN < ts) (filter (\<lambda>ts. now - RAMP_WINDOW_15_MIN < ts) (velocity_hits s k)) =
      filter (\<lambda>ts. x - RAMP_WINDOW_15_MIN < ts) (velocity_hits s k)"
    using assms by (auto simp: filter_filter intro!: filter_cong)
  then show ?thesis by (simp add: velocity_hits_record)
qed

lemma hour_is_longer: "RAMP_WINDOW_15_MIN \<le> RAMP_WINDOW_1_HOUR"
  by (simp add: RAMP_WINDOW_15_MIN_def RAMP_WINDOW_1_HOUR_def)

lemma limiter_keeps_recent:
  assumes "now \<le> x"
  shows "length (filter (\<lambda>ts. x - RAMP_WINDOW_15_MIN < ts) (velocity_hits s k))
      + (if k = key15 (ramp_extractIp req) \<and> x - RAMP_WINDOW_15_MIN < now then 1 else 0)
    \<le> length (filter (\<lambda>ts. x - RAMP_WINDOW_15_MIN < ts) (velocity_hits (ro_store (rampIpRateLimiter s now req)) k))"
proof -
  let ?s1 = "snd (velocity_record s (key15 (ramp_extractIp req)) RAMP_WINDOW_15_MIN now)"
  have "length (filter (\<lambda>ts. x - RAMP_WINDOW_15_MIN < ts) (velocity_hits s k))
      + (if k = key15 (ramp_extractIp req) \<and> x - RAMP_WINDOW_15_MIN < now then 1 else 0)
    \<le> length (filter (\<lambda>ts. x - RAMP_WINDOW_15_MIN < ts) (velocity_hits ?s1 k))"
    using own_record_counts [OF assms, of s k] record_keeps_recent [OF order_refl assms, of s k "key15 (ramp_extractIp req)"]
    by (cases "k = key15 (ramp_extractIp req)") auto
  also have "\<dots> \<le> length (filter (\<lambda>ts. x - RAMP_WINDOW_15_MIN < ts) (velocity_hits (ro_store (rampIpRateLimiter s now req)) k))"
    using record_keeps_recent [OF hour_is_longer assms, of ?s1 k] by (simp add: ramp_ip_store Let_def)
  finally show ?thesis .
qed

lemma cap_inv_step:
  assumes "cap_inv ip T s L" and "T \<le> now"
  shows "cap_inv ip now (ro_store (rampIpRateLimiter s now req))
    (L @ (if ramp_extractIp req = ip \<and> res_next (ro_res (rampIpRateLimiter s now req)) then [now] else []))"
proof -
  let ?pass = "ramp_extractIp req = ip \<and> res_next (ro_res (rampIpRateLimiter s now req))"
  let ?new = "if ?pass then [now] else []"
  have cap: "int (length (filter (in_window RAMP_WINDOW_15_MIN x) L)) \<le> IP_MAX_PER_15_MIN" for x
    using assms(1) by (simp add: cap_inv_def)
  have "length (filter (\<lambda>ts. x - RAMP_WINDOW_15_MIN < ts) (L @ ?new))
      \<le> length (filter (\<lambda>ts. x - RAMP_WINDOW_15_MIN < ts) (velocity_hits (ro_store (rampIpRateLimiter s now req)) (key15 ip)))"
    if "now \<le> x" for x
  proof -
    have "length (filter (\<lambda>ts. x - RAMP_WINDOW_15_MIN < ts) L)
        \<le> length (filter (\<lambda>ts. x - RAMP_WINDOW_15_MIN < ts) (velocity_hits s (key15 ip)))"
      using assms that by (simp add: cap_inv_def)
    with limiter_keeps_recent [OF that, of s "key15 ip" req] show ?thesis by (auto split: if_splits)
  qed
  moreover have "int (length (filter (in_window RAMP_WINDOW_15_MIN x) (L @ ?new))) \<le> IP_MAX_PER_15_MIN" for x
  proof (cases "?pass \<and> in_window RAMP_WINDOW_15_MIN x now")
    case True
    have "length (filter (in_window RAMP_WINDOW_15_MIN x) L) \<le> length (filter (\<lambda>ts. now - RAMP_WINDOW_15_MIN < ts) L)"
      by (rule length_filter_le_imp) (use True in \<open>auto simp: in_window_def\<close>)
    also have "\<dots> \<le> length (filter (\<lambda>ts. now - RAMP_WINDOW_15_MIN < ts) (velocity_hits s (key15 ip)))"
      using assms by (simp add: cap_inv_def)
    finally show ?thesis using True ramp_ip_next [of s now req] by auto
  qed (use cap in auto)
  ultimately show ?thesis by (simp add: cap_inv_def)
qed

lemma ramp_run_cap:
  assumes "cap_inv ip T s L" and "sorted (T # map snd qs)"
  shows "int (length (filter (in_window RAMP_WINDOW_15_MIN x) (L @ ramp_passed s ip qs))) \<le> IP_MAX_PER_15_MIN"
  using assms
proof (induction qs arbitrary: T s L)
  case Nil
  then show ?case by (simp add: cap_inv_def ramp_passed_def)
next
  case (Cons a qs)
  obtain req now where a: "a = (req, now)" by (cases a)
  have "cap_inv ip now (ro_store (rampIpRateLimiter s now req))
     (L @ (if ramp_extractIp req = ip \<and> res_next (ro_res (rampIpRateLimiter s now req)) then [now] else []))"
    using cap_inv_step [of ip T s L now req] Cons.prems by (simp add: a)
  from Cons.IH [OF this] Cons.prems show ?case by (simp add: a ramp_passed_Cons)
qed

text \<open>C14. In every quarter of an hour at most five requests of one address get past the ramp limiter, whatever the traffic
  and whatever addresses the clients claim, on a clock that does not go back.\<close>

theorem ramp_ip_limit_holds:
  assumes "sorted (map snd qs)"
  shows "int (length (filter (in_window RAMP_WINDOW_15_MIN x) (ramp_passed (\<lambda>_. None) ip qs))) \<le> IP_MAX_PER_15_MIN"
proof (cases qs)
  case Nil
  then show ?thesis by (simp add: ramp_passed_def IP_MAX_PER_15_MIN_def)
next
  case (Cons q qs')
  have "cap_inv ip (snd q) (\<lambda>_. None) []" by (simp add: cap_inv_def velocity_hits_def IP_MAX_PER_15_MIN_def)
  from ramp_run_cap [OF this, of qs x] show ?thesis using assms Cons by simp
qed

theorem ramp_ip_limit_holds_witness:
  "int (length (filter (in_window RAMP_WINDOW_15_MIN 9)
     (ramp_passed (\<lambda>_. None) ''unknown'' [(empty_request, 1), (empty_request, 9)]))) \<le> IP_MAX_PER_15_MIN"
  by (rule ramp_ip_limit_holds) simp

text \<open>The hourly anomaly check can never fire: only requests that pass the limiter enter the
  hourly bucket, so it holds at most twenty stamps and \<open>hourCount > 20\<close> is unreachable.\<close>

theorem ramp_anomaly_flag_unreachable:
  assumes "sorted (map snd qs)" and "plain_addresses qs"
    and "r \<in> set (ramp_serve rampIpRateLimiter (\<lambda>_. None) qs)"
  shows "ro_flags r = []"
proof -
  have len: "length (ramp_serve rampIpRateLimiter s qs) = length qs" for s
    by (induction qs arbitrary: s) (simp_all add: Let_def)
  then obtain q where q: "(q, r) \<in> set (zip qs (ramp_serve rampIpRateLimiter (\<lambda>_. None) qs))"
    using assms(3) by (metis in_set_conv_nth in_set_zip prod.sel)
  then obtain q0 qs' where qs: "qs = q0 # qs'" by (cases qs) auto
  have "q \<in> set qs" using q by (rule set_zip_leftD)
  then have "colon_free_prefix (ramp_extractIp (fst q))" using assms(2) by (auto simp: list_all_iff)
  then show ?thesis
    using ramp_run_flags [OF ramp_inv_init _ assms(2) _ q refl, of "snd q0"] assms(1) by (simp add: qs)
qed

theorem ramp_anomaly_flag_unreachable_witness:
  "ro_flags (rampIpRateLimiter (\<lambda>_. None) 7 empty_request) = []"
  by (rule ramp_anomaly_flag_unreachable [of "[(empty_request, 7)]"])
    (simp_all add: colon_free_prefix_def ramp_extractIp_def empty_request_def Let_def)

text \<open>What reaches the handler behind \<open>rampProtection\<close>: a request passes the whole chain exactly
  when its address is within the limit, it carries a user id or a CAPTCHA token that verifies, and,
  for the deposit routes, the user has made fewer than three requests in the past hour; any other
  request is answered with 429 or 403 and the handler is not called.\<close>

theorem ramp_protection_gate:
  "let uid = ramp_extractUserId req;
       token = nullish (header_string (req_headers req ''x-captcha-token'')) (req_captcha_body req);
       ip_ok = int (length (filter (\<lambda>ts. now - RAMP_WINDOW_15_MIN < ts) (velocity_hits s (key15 (ramp_extractIp req)))))
                 < IP_MAX_PER_15_MIN;
       s1 = ro_store (rampIpRateLimiter s now req);
       captcha_ok = truthy uid \<or> (truthy token \<and> verifyCaptchaToken cfg (the token));
       user_ok = (if velocity \<and> truthy uid then
         int (length (filter (\<lambda>ts. now - RAMP_WINDOW_1_HOUR < ts) (velocity_hits s1 (''ramp:user:deposit:'' @ the uid))))
           < USER_MAX_DEPOSITS_PER_HOUR else True);
       r = ro_res (run_chain (rampProtection cfg velocity) s now req)
   in (res_next r \<longleftrightarrow> ip_ok \<and> captcha_ok \<and> user_ok) \<and>
      res_status r = (if res_next r then None else Some (if ip_ok \<and> \<not> captcha_ok then 403 else 429))"
  using ramp_ip_next [of s now req] ramp_ip_refused [of s now req]
    captcha_gate_cases [where cfg = cfg and s = "ro_store (rampIpRateLimiter s now req)" and now = now and req = req]
    velocity_limiter_cases [where s = "ro_store (rampIpRateLimiter s now req)" and now = now and req = req]
  by (auto simp: rampProtection_def pass_on_def Let_def)

end
