(* ===== verification/Errors.thy ===== *)
theory Errors
  imports Http
begin

text \<open>
  The application error hierarchy, \<open>backend/src/lib/errors.ts\<close>, and the error half of
  \<open>backend/src/lib/errorMiddleware.ts\<close>. A thrown value is an \<open>AppError\<close> with its code, message,
  status and details, a plain \<open>Error\<close> with a message, or a value that is no \<open>Error\<close>. The constructors
  of the subclasses are the functions below; the class itself is kept in the name.
\<close>

datatype thrown =
    AppError (err_name: string) (err_code: string) (err_message: string) (err_status: int) (err_details: "json option")
  | PlainError (err_message: string)
  | ThrownValue string

definition NotFoundError :: "string \<Rightarrow> json option \<Rightarrow> thrown" where
  "NotFoundError m d = AppError ''NotFoundError'' ''NOT_FOUND'' m 404 d"

definition ValidationError :: "string \<Rightarrow> json option \<Rightarrow> thrown" where
  "ValidationError m d = AppError ''ValidationError'' ''VALIDATION_ERROR'' m 400 d"

definition UnauthorizedError :: "string \<Rightarrow> json option \<Rightarrow> thrown" where
  "UnauthorizedError m d = AppError ''UnauthorizedError'' ''UNAUTHORIZED'' m 401 d"

definition ForbiddenError :: "string \<Rightarrow> json option \<Rightarrow> thrown" where
  "ForbiddenError m d = AppError ''ForbiddenError'' ''FORBIDDEN'' m 403 d"

definition ConflictError :: "string \<Rightarrow> json option \<Rightarrow> thrown" where
  "ConflictError m d = AppError ''ConflictError'' ''CONFLICT'' m 409 d"

definition CircuitBreakerOpenError :: "string \<Rightarrow> thrown" where
  "CircuitBreakerOpenError m = AppError ''CircuitBreakerOpenError'' ''CIRCUIT_OPEN'' m 503 None"

definition ImageValidationError :: "string \<Rightarrow> thrown" where
  "ImageValidationError m = AppError ''ImageValidationError'' ''IMAGE_VALIDATION_ERROR'' m 400 None"

fun statusCodeOf :: "thrown \<Rightarrow> int" where
  "statusCodeOf (AppError _ _ _ st _) = st"
| "statusCodeOf _ = 500"

record ErrorEnvelope =
  env_code :: string
  env_message :: string
  env_details :: "json option"
  env_correlationId :: string
  env_timestamp :: string

fun toEnvelope :: "thrown \<Rightarrow> string \<Rightarrow> string \<Rightarrow> ErrorEnvelope" where
  "toEnvelope (AppError _ c m _ d) cid ts =
     \<lparr>env_code = c, env_message = m, env_details = d, env_correlationId = cid, env_timestamp = ts\<rparr>"
| "toEnvelope (PlainError m) cid ts =
     \<lparr>env_code = ''INTERNAL_ERROR'', env_message = m, env_details = None, env_correlationId = cid, env_timestamp = ts\<rparr>"
| "toEnvelope (ThrownValue _) cid ts =
     \<lparr>env_code = ''INTERNAL_ERROR'', env_message = ''An unexpected error occurred'', env_details = None,
      env_correlationId = cid, env_timestamp = ts\<rparr>"

text \<open>\<open>err instanceof Error ? err : new Error(String(err))\<close>\<close>

fun as_error :: "thrown \<Rightarrow> thrown" where
  "as_error (ThrownValue v) = PlainError v"
| "as_error e = e"

definition isCircuitOpenError :: "thrown \<Rightarrow> bool" where
  "isCircuitOpenError e =
     (case e of AppError nm c _ _ _ \<Rightarrow> nm = ''CircuitBreakerOpenError'' \<or> c = ''CIRCUIT_OPEN'' | _ \<Rightarrow> False)"

lemma open_error_is_open [simp]: "isCircuitOpenError (CircuitBreakerOpenError m)"
  by (simp add: isCircuitOpenError_def CircuitBreakerOpenError_def)

end
