(* ===== verification/Circuit_Breaker.thy ===== *)
theory Circuit_Breaker
  imports Errors
begin

text \<open>
  The generic circuit breaker, \<open>backend/src/lib/circuit_breaker.ts\<close>. The mutable fields of the class
  are the record \<open>breaker\<close>; \<open>cb_events\<close> collects the calls of the \<open>onStateChange\<close> hook. One \<open>fire\<close> is
  asynchronous: the state is read when it starts, and the counters change when the guarded call has
  settled or timed out, with other calls in between. So \<open>fire\<close> is given in two halves, \<open>fire_enter\<close>
  and \<open>fire_settle\<close>, and as the uninterrupted composition of both; the machine \<open>breaker_step\<close>
  interleaves the halves of any number of calls.
\<close>

section \<open>State and options\<close>

datatype CircuitState = CLOSED | OPEN | HALF_OPEN

record CircuitBreakerOptions =
  cb_timeout :: int
  errorThresholdPercentage :: rat
  resetTimeout :: int
  volumeThreshold :: nat
  cb_name :: string

definition default_breaker_options :: CircuitBreakerOptions where
  "default_breaker_options = \<lparr>cb_timeout = 5000, errorThresholdPercentage = 50, resetTimeout = 10000,
     volumeThreshold = 3, cb_name = ''circuit''\<rparr>"

record breaker =
  cb_state :: CircuitState
  failureCount :: nat
  successCount :: nat
  totalCount :: nat
  nextAttempt :: millis
  cb_events :: "(CircuitState \<times> CircuitState) list"

definition new_breaker :: breaker where
  "new_breaker = \<lparr>cb_state = CLOSED, failureCount = 0, successCount = 0, totalCount = 0,
     nextAttempt = 0, cb_events = []\<rparr>"

section \<open>Operations\<close>

definition transition :: "CircuitState \<Rightarrow> breaker \<Rightarrow> breaker" where
  "transition next b =
     (if cb_state b = next then b
      else b\<lparr>cb_state := next, cb_events := cb_events b @ [(cb_state b, next)]\<rparr>)"

definition getState :: "millis \<Rightarrow> breaker \<Rightarrow> breaker \<times> CircuitState" where
  "getState now b =
     (let b' = (if cb_state b = OPEN \<and> now \<ge> nextAttempt b then transition HALF_OPEN b else b)
      in (b', cb_state b'))"

record CircuitBreakerStats =
  st_name :: string
  st_state :: CircuitState
  st_failureCount :: nat
  st_successCount :: nat
  st_totalCount :: nat

definition getStats :: "CircuitBreakerOptions \<Rightarrow> millis \<Rightarrow> breaker \<Rightarrow> breaker \<times> CircuitBreakerStats" where
  "getStats opts now b =
     (let (b', st) = getState now b
      in (b', \<lparr>st_name = cb_name opts, st_state = st, st_failureCount = failureCount b',
               st_successCount = successCount b', st_totalCount = totalCount b'\<rparr>))"

definition trip :: "CircuitBreakerOptions \<Rightarrow> millis \<Rightarrow> breaker \<Rightarrow> breaker" where
  "trip opts now b = (transition OPEN b)\<lparr>nextAttempt := now + resetTimeout opts\<rparr>"

definition reset :: "breaker \<Rightarrow> breaker" where
  "reset b = (transition CLOSED b)\<lparr>failureCount := 0, successCount := 0, totalCount := 0, nextAttempt := 0\<rparr>"

definition onSuccess :: "breaker \<Rightarrow> breaker" where
  "onSuccess b =
     (if cb_state b = HALF_OPEN then reset b
      else b\<lparr>successCount := successCount b + 1, totalCount := totalCount b + 1\<rparr>)"

definition count_failure :: "breaker \<Rightarrow> breaker" where
  "count_failure b = b\<lparr>failureCount := failureCount b + 1, totalCount := totalCount b + 1\<rparr>"

definition onFailure :: "CircuitBreakerOptions \<Rightarrow> millis \<Rightarrow> breaker \<Rightarrow> breaker" where
  "onFailure opts now b0 =
     (let b = count_failure b0
      in if cb_state b = HALF_OPEN then trip opts now b
         else if totalCount b \<ge> volumeThreshold opts
         then (let errorRate = (of_nat (failureCount b) / of_nat (totalCount b)) * 100
               in if errorRate \<ge> errorThresholdPercentage opts then trip opts now b else b)
         else b)"

text \<open>The guarded call: how long it takes to settle (\<open>None\<close>: it never does) and with what. The race
  against the timer is lost when the call has not settled before \<open>timeout\<close> milliseconds.\<close>

record 'r attempt =
  at_duration :: "int option"
  at_outcome :: "thrown + 'r"

definition race :: "CircuitBreakerOptions \<Rightarrow> 'r attempt \<Rightarrow> thrown + 'r" where
  "race opts a =
     (case at_duration a of
        Some d \<Rightarrow> if d < cb_timeout opts then at_outcome a
                  else Inl (PlainError (''Operation timed out after '' @ string_of_int (cb_timeout opts) @ ''ms''))
      | None \<Rightarrow> Inl (PlainError (''Operation timed out after '' @ string_of_int (cb_timeout opts) @ ''ms'')))"

text \<open>\<open>None\<close>: the circuit is open and the call is not attempted.\<close>

definition open_error :: thrown where
  "open_error = CircuitBreakerOpenError ''Circuit breaker is OPEN - anchor request blocked''"

definition fire_enter :: "millis \<Rightarrow> breaker \<Rightarrow> breaker \<times> bool" where
  "fire_enter now b = (let (b', st) = getState now b in (b', st \<noteq> OPEN))"

definition fire_settle :: "CircuitBreakerOptions \<Rightarrow> millis \<Rightarrow> thrown + 'r \<Rightarrow> breaker \<Rightarrow> breaker" where
  "fire_settle opts now outcome b =
     (case outcome of Inr _ \<Rightarrow> onSuccess b | Inl _ \<Rightarrow> onFailure opts now b)"

definition with_fallback :: "(thrown \<Rightarrow> thrown + 'r) option \<Rightarrow> thrown \<Rightarrow> thrown + 'r" where
  "with_fallback fb e = (case fb of Some f \<Rightarrow> f e | None \<Rightarrow> Inl e)"

definition fire ::
  "CircuitBreakerOptions \<Rightarrow> (thrown \<Rightarrow> thrown + 'r) option \<Rightarrow> millis \<Rightarrow> millis \<Rightarrow> 'r attempt \<Rightarrow> breaker \<Rightarrow> breaker \<times> (thrown + 'r)" where
  "fire opts fb now later a b =
     (let (b', go) = fire_enter now b
      in if \<not> go then (b', with_fallback fb open_error)
         else (let outcome = race opts a; b'' = fire_settle opts later outcome b'
               in case outcome of
                    Inr r \<Rightarrow> (b'', Inr r)
                  | Inl e \<Rightarrow> (b'', with_fallback fb (as_error e))))"

section \<open>The machine\<close>

text \<open>Any interleaving of calls: entering, settling (well or badly), reading the state, and the public
  \<open>reset\<close>. Each event carries the time at which it happens.\<close>

datatype breaker_event = Enter millis | SettleOk millis | SettleErr millis | ReadState millis | Reset millis

primrec event_time :: "breaker_event \<Rightarrow> millis" where
  "event_time (Enter t) = t"
| "event_time (SettleOk t) = t"
| "event_time (SettleErr t) = t"
| "event_time (ReadState t) = t"
| "event_time (Reset t) = t"

primrec breaker_do :: "CircuitBreakerOptions \<Rightarrow> breaker_event \<Rightarrow> breaker \<Rightarrow> breaker" where
  "breaker_do opts (Enter t) b = fst (fire_enter t b)"
| "breaker_do opts (SettleOk t) b = onSuccess b"
| "breaker_do opts (SettleErr t) b = onFailure opts t b"
| "breaker_do opts (ReadState t) b = fst (getState t b)"
| "breaker_do opts (Reset t) b = reset b"

text \<open>Calls that enter one after the other with none settling in between, and whether each is let through.\<close>

primrec enter_all :: "millis list \<Rightarrow> breaker \<Rightarrow> bool list" where
  "enter_all [] b = []"
| "enter_all (t # ts) b = snd (fire_enter t b) # enter_all ts (fst (fire_enter t b))"

inductive breaker_reach :: "CircuitBreakerOptions \<Rightarrow> breaker \<Rightarrow> bool" for opts where
  breaker_init: "breaker_reach opts new_breaker"
| breaker_step: "breaker_reach opts b \<Longrightarrow> breaker_reach opts (breaker_do opts e b)"

inductive_cases breaker_reachE: "breaker_reach opts b"

definition breaker_edge :: "CircuitState \<times> CircuitState \<Rightarrow> bool" where
  "breaker_edge e \<longleftrightarrow> e \<in> {(CLOSED, OPEN), (OPEN, HALF_OPEN), (HALF_OPEN, OPEN), (HALF_OPEN, CLOSED), (OPEN, CLOSED)}"

text \<open>The hook calls form one path from \<open>CLOSED\<close> to the current state.\<close>

fun path_from :: "CircuitState \<Rightarrow> (CircuitState \<times> CircuitState) list \<Rightarrow> CircuitState \<Rightarrow> bool" where
  "path_from a [] b \<longleftrightarrow> a = b"
| "path_from a ((x, y) # es) b \<longleftrightarrow> x = a \<and> x \<noteq> y \<and> path_from y es b"

definition breaker_inv :: "breaker \<Rightarrow> bool" where
  "breaker_inv b \<longleftrightarrow>
     totalCount b = failureCount b + successCount b \<and>
     (cb_state b \<noteq> CLOSED \<longrightarrow> 0 < failureCount b) \<and>
     path_from CLOSED (cb_events b) (cb_state b) \<and>
     (\<forall>e \<in> set (cb_events b). breaker_edge e)"

section \<open>Lemmas\<close>

lemma path_from_append:
  "path_from a (es @ es') c \<longleftrightarrow> (\<exists>b. path_from a es b \<and> path_from b es' c)"
  by (induction es arbitrary: a) auto

lemma path_from_snoc: "path_from a (es @ [(x, y)]) c \<longleftrightarrow> path_from a es x \<and> x \<noteq> y \<and> y = c"
  by (auto simp: path_from_append)

lemmas breaker_ops =
  transition_def getState_def trip_def reset_def onSuccess_def count_failure_def onFailure_def fire_enter_def Let_def

lemma transition_inv:
  "breaker_inv b \<Longrightarrow> cb_state b = next \<or> breaker_edge (cb_state b, next) \<Longrightarrow>
     next \<noteq> CLOSED \<longrightarrow> 0 < failureCount b \<Longrightarrow> breaker_inv (transition next b)"
  by (auto simp: breaker_inv_def transition_def path_from_snoc)

lemma getState_inv [inv_intros]: "breaker_inv b \<Longrightarrow> breaker_inv (fst (getState now b))"
proof -
  assume inv: "breaker_inv b"
  show ?thesis
  proof (cases "cb_state b = OPEN \<and> nextAttempt b \<le> now")
    case True
    have "breaker_inv (transition HALF_OPEN b)"
      by (rule transition_inv [OF inv]) (use inv True in \<open>auto simp: breaker_edge_def breaker_inv_def\<close>)
    with True show ?thesis by (simp add: getState_def Let_def)
  qed (use inv in \<open>auto simp: getState_def Let_def\<close>)
qed

lemma trip_inv [inv_intros]: "breaker_inv b \<Longrightarrow> 0 < failureCount b \<Longrightarrow> breaker_inv (trip opts now b)"
proof -
  assume "breaker_inv b" "0 < failureCount b"
  then have "breaker_inv (transition OPEN b)"
    by (cases "cb_state b") (auto intro!: transition_inv simp: breaker_edge_def)
  then show ?thesis by (simp add: trip_def breaker_inv_def)
qed

lemma reset_inv [inv_intros]: "breaker_inv b \<Longrightarrow> breaker_inv (reset b)"
proof -
  assume "breaker_inv b"
  then have "breaker_inv (transition CLOSED b)"
    by (cases "cb_state b") (auto intro!: transition_inv simp: breaker_edge_def)
  then show ?thesis by (simp add: reset_def breaker_inv_def transition_def)
qed

lemma onSuccess_inv [inv_intros]: "breaker_inv b \<Longrightarrow> breaker_inv (onSuccess b)"
proof (cases "cb_state b = HALF_OPEN")
  case False
  then show "breaker_inv b \<Longrightarrow> ?thesis" by (simp add: onSuccess_def breaker_inv_def)
qed (simp add: onSuccess_def reset_inv)

lemma onFailure_inv [inv_intros]: "breaker_inv b \<Longrightarrow> breaker_inv (onFailure opts now b)"
proof -
  assume "breaker_inv b"
  then have "breaker_inv (count_failure b)" "0 < failureCount (count_failure b)"
    by (simp_all add: count_failure_def breaker_inv_def)
  then show ?thesis
    by (simp add: onFailure_def Let_def trip_inv)
qed

lemma breaker_do_inv [inv_intros]: "breaker_inv b \<Longrightarrow> breaker_inv (breaker_do opts e b)"
  by (cases e) (simp_all add: fire_enter_def case_prod_beta inv_intros)

lemma breaker_reach_inv: "breaker_reach opts b \<Longrightarrow> breaker_inv b"
proof (induction rule: breaker_reach.induct)
  case breaker_init
  show ?case by (simp add: breaker_inv_def new_breaker_def)
next
  case (breaker_step b e)
  then show ?case by (blast intro: breaker_do_inv)
qed

text \<open>While the circuit is open and the reset time has not come, only the public \<open>reset\<close> leaves it.\<close>

definition held_open :: "millis \<Rightarrow> breaker \<Rightarrow> bool" where
  "held_open t b \<longleftrightarrow> cb_state b = OPEN \<and> t < nextAttempt b"

lemma getState_held_open: "held_open t b \<Longrightarrow> getState t b = (b, OPEN)"
  by (simp add: held_open_def getState_def Let_def)

lemma onFailure_open:
  "cb_state b = OPEN \<Longrightarrow>
     onFailure opts t b = count_failure b \<or> onFailure opts t b = (count_failure b)\<lparr>nextAttempt := t + resetTimeout opts\<rparr>"
  by (auto simp: onFailure_def Let_def trip_def transition_def count_failure_def)

lemma held_open_step:
  assumes "held_open u b" and "event_time e \<le> u" and "\<And>t. e \<noteq> Reset t" and "0 \<le> resetTimeout opts"
    and "\<And>t. e = SettleErr t \<Longrightarrow> u < t + resetTimeout opts"
  shows "held_open u (breaker_do opts e b)"
proof (cases e)
  case (SettleErr t)
  have "cb_state b = OPEN" using assms(1) by (simp add: held_open_def)
  then show ?thesis
    using onFailure_open [of b opts t] assms(1,5) SettleErr by (auto simp: held_open_def count_failure_def)
next
  case (Enter t)
  then have "held_open t b" using assms(1,2) by (simp add: held_open_def)
  then show ?thesis using assms(1) Enter by (simp add: fire_enter_def getState_held_open)
next
  case (ReadState t)
  then have "held_open t b" using assms(1,2) by (simp add: held_open_def)
  then show ?thesis using assms(1) ReadState by (simp add: getState_held_open)
qed (use assms in \<open>auto simp: held_open_def onSuccess_def\<close>)

lemma held_open_run:
  assumes "held_open u b" and "0 \<le> resetTimeout opts"
    and "\<And>e. e \<in> set es \<Longrightarrow> event_time e \<le> u \<and> u < event_time e + resetTimeout opts \<and> (\<forall>t. e \<noteq> Reset t)"
  shows "held_open u (fold (breaker_do opts) es b)"
  using assms
proof (induction es arbitrary: b)
  case (Cons e es)
  have "held_open u (breaker_do opts e b)"
    by (rule held_open_step) (use Cons.prems(1,2) Cons.prems(3) [of e] in auto)
  with Cons show ?case by simp
qed simp

section \<open>Properties\<close>

text \<open>C17. In every reachable state, for any interleaving of calls, the total is the sum of failures
  and successes, a circuit that is not closed has seen a failure, and the state-change hook has
  reported exactly one path of legal transitions from \<open>CLOSED\<close> to the current state.\<close>

theorem breaker_invariant:
  assumes "breaker_reach opts b"
  shows "totalCount b = failureCount b + successCount b \<and>
    (cb_state b \<noteq> CLOSED \<longrightarrow> 0 < failureCount b) \<and>
    path_from CLOSED (cb_events b) (cb_state b) \<and>
    (\<forall>e \<in> set (cb_events b). breaker_edge e)"
  using breaker_reach_inv [OF assms] by (simp add: breaker_inv_def)

theorem breaker_invariant_witness:
  "totalCount (breaker_do default_breaker_options (SettleErr 5) new_breaker) = 1"
proof -
  have "breaker_reach default_breaker_options (breaker_do default_breaker_options (SettleErr 5) new_breaker)"
    by (intro breaker_reach.intros)
  from breaker_invariant [OF this] show ?thesis
    by (simp add: onFailure_def Let_def count_failure_def default_breaker_options_def new_breaker_def)
qed

text \<open>C4. A circuit that trips at time \<open>t\<close> rejects every call until \<open>t + resetTimeout\<close>, whatever calls
  enter or settle meanwhile: each \<open>fire\<close> in that interval leaves the breaker open, does not look at
  the guarded call, and answers with the \<open>CIRCUIT_OPEN\<close> error (through the fallback if there is one).\<close>

theorem tripped_circuit_rejects:
  assumes "t \<le> u" and "u < t + resetTimeout opts"
    and "list_all (\<lambda>e. t \<le> event_time e \<and> event_time e \<le> u \<and> (\<forall>v. e \<noteq> Reset v)) es"
  shows "snd (fire opts fb u later a (fold (breaker_do opts) es (trip opts t b))) = with_fallback fb open_error \<and>
    cb_state (fst (fire opts fb u later a (fold (breaker_do opts) es (trip opts t b)))) = OPEN"
proof -
  have "held_open u (trip opts t b)"
    using assms(2) by (simp add: held_open_def trip_def transition_def)
  then have "held_open u (fold (breaker_do opts) es (trip opts t b))"
    by (rule held_open_run) (use assms in \<open>auto simp: list_all_iff\<close>)
  then have "getState u (fold (breaker_do opts) es (trip opts t b)) = (fold (breaker_do opts) es (trip opts t b), OPEN)"
    and "cb_state (fold (breaker_do opts) es (trip opts t b)) = OPEN"
    by (simp_all add: getState_held_open held_open_def)
  then show ?thesis by (simp add: fire_def fire_enter_def)
qed

theorem tripped_circuit_rejects_witness:
  "snd (fire default_breaker_options (None :: (thrown \<Rightarrow> thrown + nat) option) 107 108 \<lparr>at_duration = Some 1, at_outcome = Inr 3\<rparr>
     (fold (breaker_do default_breaker_options) [SettleErr 105, Enter 106] (trip default_breaker_options 100 new_breaker)))
   = with_fallback None open_error"
  by (rule tripped_circuit_rejects [THEN conjunct1]) (simp_all add: default_breaker_options_def)

text \<open>C18. Recovery: once the reset time has come, the next call is attempted, and if it settles well in
  time the circuit is closed with all counters at zero; if it fails, the circuit is open again for
  another \<open>resetTimeout\<close>.\<close>

theorem open_circuit_recovers:
  assumes "cb_state b = OPEN" and "nextAttempt b \<le> u"
  shows "case race opts a of
           Inr r \<Rightarrow> fire opts fb u later a b =
             (b\<lparr>cb_state := CLOSED, failureCount := 0, successCount := 0, totalCount := 0, nextAttempt := 0,
                cb_events := cb_events b @ [(OPEN, HALF_OPEN), (HALF_OPEN, CLOSED)]\<rparr>, Inr r)
         | Inl e \<Rightarrow>
             cb_state (fst (fire opts fb u later a b)) = OPEN \<and>
             nextAttempt (fst (fire opts fb u later a b)) = later + resetTimeout opts \<and>
             snd (fire opts fb u later a b) = with_fallback fb (as_error e)"
  using assms by (simp add: fire_def fire_settle_def breaker_ops split: sum.split)

theorem open_circuit_recovers_witness:
  "snd (fire default_breaker_options None 10100 10101 \<lparr>at_duration = Some 1, at_outcome = Inr (3::nat)\<rparr>
     (trip default_breaker_options 100 new_breaker)) = Inr 3"
  using open_circuit_recovers [where b = "trip default_breaker_options 100 new_breaker" and u = 10100
      and opts = default_breaker_options and a = "\<lparr>at_duration = Some 1, at_outcome = Inr (3::nat)\<rparr>"
      and fb = None and later = 10101]
  by (simp add: default_breaker_options_def trip_def transition_def new_breaker_def race_def)

text \<open>When a failure trips the circuit: at once when it is half open, and otherwise exactly when,
  with this failure counted, at least \<open>volumeThreshold\<close> calls have settled and the failed share of
  all calls since the last reset has reached the threshold. Counters are never aged, so a breaker
  that has seen \<open>s\<close> successes needs at least \<open>s\<close> failures to reach the default threshold of 50 percent.\<close>

theorem failure_trips_iff:
  assumes "cb_state b = CLOSED" and "totalCount b = failureCount b + successCount b"
  shows "(cb_state (onFailure opts now b) = OPEN \<longleftrightarrow>
           volumeThreshold opts \<le> failureCount b + successCount b + 1 \<and>
           errorThresholdPercentage opts * of_nat (failureCount b + successCount b + 1) \<le> 100 * of_nat (failureCount b + 1)) \<and>
         (errorThresholdPercentage opts = 50 \<and> cb_state (onFailure opts now b) = OPEN \<longrightarrow>
           successCount b \<le> failureCount b + 1)"
proof -
  have iff: "cb_state (onFailure opts now b) = OPEN \<longleftrightarrow>
           volumeThreshold opts \<le> failureCount b + successCount b + 1 \<and>
           errorThresholdPercentage opts * of_nat (failureCount b + successCount b + 1) \<le> 100 * of_nat (failureCount b + 1)"
    using assms by (simp add: breaker_ops le_divide_eq ac_simps)
  have "successCount b \<le> failureCount b + 1"
    if "errorThresholdPercentage opts = 50" "cb_state (onFailure opts now b) = OPEN"
  proof -
    have "rat_of_nat (50 * (failureCount b + successCount b + 1)) \<le> rat_of_nat (100 * (failureCount b + 1))"
      using that iff by simp
    then have "50 * (failureCount b + successCount b + 1) \<le> 100 * (failureCount b + 1)"
      by (simp only: of_nat_le_iff)
    then show ?thesis by simp
  qed
  with iff show ?thesis by blast
qed

theorem failure_trips_iff_witness:
  "\<not> (cb_state (onFailure default_breaker_options 9 (new_breaker\<lparr>successCount := 4, totalCount := 4\<rparr>)) = OPEN)"
  using failure_trips_iff [of "new_breaker\<lparr>successCount := 4, totalCount := 4\<rparr>" default_breaker_options 9]
  by (simp add: new_breaker_def default_breaker_options_def)

text \<open>In the half-open state every call is let through, not one trial call: any number of calls
  may enter before the first of them settles.\<close>

theorem half_open_admits_all:
  assumes "cb_state b = OPEN" and "list_all (\<lambda>t. nextAttempt b \<le> t) ts"
  shows "enter_all ts b = replicate (length ts) True"
proof -
  have half: "enter_all us c = replicate (length us) True" if "cb_state c = HALF_OPEN" for us c
    using that by (induction us) (simp_all add: fire_enter_def getState_def Let_def)
  show ?thesis
  proof (cases ts)
    case (Cons t us)
    then have "snd (fire_enter t b)" "cb_state (fst (fire_enter t b)) = HALF_OPEN"
      using assms by (simp_all add: breaker_ops)
    then show ?thesis by (simp add: Cons half)
  qed simp
qed

theorem half_open_admits_all_witness:
  "enter_all [10100, 10100] (trip default_breaker_options 100 new_breaker) = [True, True]"
  using half_open_admits_all [of "trip default_breaker_options 100 new_breaker" "[10100, 10100]"]
  by (simp add: trip_def transition_def default_breaker_options_def new_breaker_def)

end
