(* ===== verification/Rpc_Guard.thy ===== *)
theory Rpc_Guard
  imports Circuit_Breaker
begin

text \<open>
  The two guarded RPC dependencies, \<open>backend/src/lib/rpc_circuit_breaker.ts\<close>: the metrics hook, the
  pair of breakers for Soroban RPC and Horizon, and \<open>withRpcFallback\<close>, which degrades to a cached
  read. What \<open>withRpcFallback\<close> needs of a breaker is the locale \<open>guarded_call\<close>; the circuit breaker
  of \<open>Circuit_Breaker\<close>, without a fallback handler of its own, is its instance.
\<close>

section \<open>Metrics hook\<close>

record rpc_metrics =
  circuitBreakerState :: "string \<Rightarrow> int option"
  circuitBreakerTripsTotal :: "string \<Rightarrow> nat"

primrec STATE_VALUE :: "CircuitState \<Rightarrow> int" where
  "STATE_VALUE CLOSED = 0"
| "STATE_VALUE HALF_OPEN = 1"
| "STATE_VALUE OPEN = 2"

definition onStateChange :: "string \<Rightarrow> CircuitState \<times> CircuitState \<Rightarrow> rpc_metrics \<Rightarrow> rpc_metrics" where
  "onStateChange name e m =
     (let m' = m\<lparr>circuitBreakerState := (circuitBreakerState m)(name \<mapsto> STATE_VALUE (snd e))\<rparr>
      in if snd e = OPEN
         then m'\<lparr>circuitBreakerTripsTotal := (circuitBreakerTripsTotal m')(name := circuitBreakerTripsTotal m' name + 1)\<rparr>
         else m')"

text \<open>\<open>makeRpcBreaker\<close> publishes the initial state; every later hook call is one element of \<open>cb_events\<close>.\<close>

definition makeRpcBreaker_metrics :: "string \<Rightarrow> rpc_metrics \<Rightarrow> rpc_metrics" where
  "makeRpcBreaker_metrics name m =
     m\<lparr>circuitBreakerState := (circuitBreakerState m)(name \<mapsto> STATE_VALUE CLOSED)\<rparr>"

definition published :: "string \<Rightarrow> breaker \<Rightarrow> rpc_metrics \<Rightarrow> rpc_metrics" where
  "published name b m = fold (onStateChange name) (cb_events b) (makeRpcBreaker_metrics name m)"

section \<open>Breakers and the cached fallback\<close>

datatype RpcBreakerName = soroban_rpc | horizon

primrec rpc_name :: "RpcBreakerName \<Rightarrow> string" where
  "rpc_name soroban_rpc = ''soroban_rpc''"
| "rpc_name horizon = ''horizon''"

type_synonym 'b rpc_breakers = "RpcBreakerName \<Rightarrow> 'b"

text \<open>\<open>opts.loadFromCache().catch(() => null)\<close>\<close>

definition cache_or_null :: "thrown + 'r option \<Rightarrow> 'r option" where
  "cache_or_null loaded = (case loaded of Inr c \<Rightarrow> c | Inl _ \<Rightarrow> None)"

definition withRpcFallback ::
  "('b \<Rightarrow> 'i \<Rightarrow> 'c \<Rightarrow> 'b \<times> (thrown + 'r)) \<Rightarrow> RpcBreakerName \<Rightarrow> 'i \<Rightarrow> 'c \<Rightarrow> thrown + 'r option \<Rightarrow>
     'b rpc_breakers \<Rightarrow> 'b rpc_breakers \<times> 'r option \<times> string option" where
  "withRpcFallback fire_fn breaker i call loadFromCache bs =
     (let (b', res) = fire_fn (bs breaker) i call; bs' = bs(breaker := b')
      in case res of
           Inr v \<Rightarrow> (bs', Some v, None)
         | Inl err \<Rightarrow>
             (let reason = (if isCircuitOpenError err then ''circuit_open'' else ''call_failed'');
                  cached = cache_or_null loadFromCache
              in (bs', cached, Some (reason @ (if cached = None then ''_miss'' else ''_hit'')))))"

definition rpc_fire ::
  "CircuitBreakerOptions \<Rightarrow> breaker \<Rightarrow> millis \<times> millis \<Rightarrow> 'r attempt \<Rightarrow> breaker \<times> (thrown + 'r)" where
  "rpc_fire opts b i a = fire opts None (fst i) (snd i) a b"

definition rpc_rejects :: "breaker \<Rightarrow> millis \<times> millis \<Rightarrow> bool" where
  "rpc_rejects b i = (snd (getState (fst i) b) = OPEN)"

definition resetRpcCircuitBreakers :: "breaker rpc_breakers \<Rightarrow> breaker rpc_breakers" where
  "resetRpcCircuitBreakers bs = (\<lambda>n. reset (bs n))"

section \<open>What the fallback relies on\<close>

locale guarded_call =
  fixes fire_fn :: "'b \<Rightarrow> 'i \<Rightarrow> 'c \<Rightarrow> 'b \<times> (thrown + 'r)"
    and rejects :: "'b \<Rightarrow> 'i \<Rightarrow> bool"
    and settled :: "'c \<Rightarrow> thrown + 'r"
  assumes fire_rejected: "rejects b i \<Longrightarrow> \<exists>e. snd (fire_fn b i c) = Inl e \<and> isCircuitOpenError e"
    and fire_attempted: "\<not> rejects b i \<Longrightarrow> snd (fire_fn b i c) = settled c"
begin

lemma fallback_value:
  "fst (snd (withRpcFallback fire_fn n i c cache bs)) =
     (case settled c of
        Inr v \<Rightarrow> if rejects (bs n) i then cache_or_null cache else Some v
      | Inl _ \<Rightarrow> cache_or_null cache)"
proof (cases "rejects (bs n) i")
  case True
  then obtain e where "snd (fire_fn (bs n) i c) = Inl e" using fire_rejected by blast
  with True show ?thesis by (auto simp: withRpcFallback_def Let_def split: prod.split sum.split)
next
  case False
  then show ?thesis using fire_attempted [OF False, of c]
    by (cases "settled c") (auto simp: withRpcFallback_def Let_def split: prod.split)
qed

lemma fallback_label:
  assumes "rejects (bs n) i"
  shows "snd (snd (withRpcFallback fire_fn n i c cache bs)) \<in> {Some ''circuit_open_hit'', Some ''circuit_open_miss''}"
proof -
  obtain e where "snd (fire_fn (bs n) i c) = Inl e" "isCircuitOpenError e" using fire_rejected [OF assms] by blast
  then show ?thesis by (cases "cache_or_null cache") (auto simp: withRpcFallback_def Let_def split: prod.split)
qed

lemma fallback_other_breaker:
  "m \<noteq> n \<Longrightarrow> fst (withRpcFallback fire_fn n i c cache bs) m = bs m"
  by (auto simp: withRpcFallback_def Let_def split: prod.split sum.split)

end

definition settled_as_error :: "CircuitBreakerOptions \<Rightarrow> 'r attempt \<Rightarrow> thrown + 'r" where
  "settled_as_error opts a = map_sum as_error id (race opts a)"

interpretation rpc: guarded_call "rpc_fire opts" rpc_rejects "settled_as_error opts" for opts
proof unfold_locales
  fix b :: breaker and i :: "millis \<times> millis" and c :: "'a attempt"
  show "\<exists>e. snd (rpc_fire opts b i c) = Inl e \<and> isCircuitOpenError e" if "rpc_rejects b i"
    using that by (auto simp: rpc_fire_def rpc_rejects_def fire_def fire_enter_def with_fallback_def open_error_def
        split: prod.split)
  show "snd (rpc_fire opts b i c) = settled_as_error opts c" if "\<not> rpc_rejects b i"
    using that by (auto simp: rpc_fire_def rpc_rejects_def fire_def fire_enter_def with_fallback_def
        settled_as_error_def Let_def split: prod.split sum.split)
qed

section \<open>Lemmas on the metrics\<close>

lemma gauge_follows_path:
  assumes "path_from a es b" and "circuitBreakerState m name = Some (STATE_VALUE a)"
  shows "circuitBreakerState (fold (onStateChange name) es m) name = Some (STATE_VALUE b)"
  using assms
proof (induction es arbitrary: a m)
  case (Cons e es)
  obtain x y where e: "e = (x, y)" by (cases e)
  have "circuitBreakerState (onStateChange name e m) name = Some (STATE_VALUE y)"
    by (simp add: onStateChange_def Let_def e)
  with Cons.IH [of y] Cons.prems(1) e show ?case by simp
qed simp

lemma trips_counted:
  "circuitBreakerTripsTotal (fold (onStateChange name) es m) name =
     circuitBreakerTripsTotal m name + length (filter (\<lambda>e. snd e = OPEN) es)"
  by (induction es arbitrary: m) (simp_all add: onStateChange_def Let_def)

section \<open>Properties\<close>

text \<open>\<open>withRpcFallback\<close> never throws: it returns the value of the call when the circuit lets the
  call through and it succeeds in time, and otherwise what the cache yields, with a failed cache read
  counted as a miss; a rejected call is labelled \<open>circuit_open\<close> and the other breaker is untouched.\<close>

theorem rpc_fallback_result:
  "let out = withRpcFallback (rpc_fire opts) n i call cache bs
   in fst (snd out) =
        (case race opts call of
           Inr v \<Rightarrow> if rpc_rejects (bs n) i then cache_or_null cache else Some v
         | Inl _ \<Rightarrow> cache_or_null cache) \<and>
      (rpc_rejects (bs n) i \<longrightarrow> snd (snd out) \<in> {Some ''circuit_open_hit'', Some ''circuit_open_miss''}) \<and>
      (m \<noteq> n \<longrightarrow> fst out m = bs m)"
  using rpc.fallback_value [where opts = opts and n = n and i = i and c = call and cache = cache and bs = bs]
    rpc.fallback_label [where opts = opts and n = n and i = i and c = call and cache = cache and bs = bs]
    rpc.fallback_other_breaker [where opts = opts and n = n and i = i and c = call and cache = cache and bs = bs and m = m]
  by (cases "race opts call") (simp_all add: Let_def settled_as_error_def)

theorem rpc_fallback_result_witness:
  "fst (snd (withRpcFallback (rpc_fire default_breaker_options) horizon (5, 6)
     \<lparr>at_duration = None, at_outcome = Inr (1::nat)\<rparr> (Inr (Some 7)) (\<lambda>_. new_breaker))) = Some 7"
  using rpc_fallback_result [where opts = default_breaker_options and n = horizon and i = "(5, 6)"
      and call = "\<lparr>at_duration = None, at_outcome = Inr (1::nat)\<rparr>" and cache = "Inr (Some 7)"
      and bs = "\<lambda>_. new_breaker" and m = soroban_rpc]
  by (simp add: race_def cache_or_null_def Let_def)

text \<open>In every reachable state of a breaker the exported gauge equals the value of its current
  state, and the trip counter has been increased once per transition into \<open>OPEN\<close>.\<close>

theorem breaker_gauge_accurate:
  assumes "breaker_reach opts b"
  shows "circuitBreakerState (published name b m) name = Some (STATE_VALUE (cb_state b)) \<and>
         circuitBreakerTripsTotal (published name b m) name =
           circuitBreakerTripsTotal m name + length (filter (\<lambda>e. snd e = OPEN) (cb_events b))"
proof -
  have "path_from CLOSED (cb_events b) (cb_state b)"
    using breaker_reach_inv [OF assms] by (simp add: breaker_inv_def)
  then show ?thesis
    by (simp add: published_def trips_counted gauge_follows_path makeRpcBreaker_metrics_def)
qed

theorem breaker_gauge_accurate_witness:
  "circuitBreakerState (published ''horizon'' new_breaker
     \<lparr>circuitBreakerState = (\<lambda>_. None), circuitBreakerTripsTotal = (\<lambda>_. 0)\<rparr>) ''horizon'' = Some 0"
  using breaker_gauge_accurate [OF breaker_init, of "''horizon''" "\<lparr>circuitBreakerState = (\<lambda>_. None), circuitBreakerTripsTotal = (\<lambda>_. 0)\<rparr>"]
  by (simp add: new_breaker_def)

end
