(* ===== verification/Webhook_Retry.thy ===== *)
theory Webhook_Retry
  imports Prelude
begin

text \<open>
  The webhook retry queue, \<open>backend/src/lib/webhook_retry.ts\<close>: jobs, the truncated exponential
  backoff and the queue with its dead-letter list. \<open>tick\<close> awaits the delivery callback once per due
  job, so other code may enqueue while it runs, and its promise may reject, which nothing catches: the
  callback is a function over an environment of its own that yields the outcome and the jobs that were
  enqueued on the same queue meanwhile.
\<close>

section \<open>Jobs\<close>

definition MAX_ATTEMPTS :: nat where "MAX_ATTEMPTS = 5"
definition BASE_DELAY_SECS :: int where "BASE_DELAY_SECS = 1"
definition MAX_DELAY_SECS :: int where "MAX_DELAY_SECS = 300"

record WebhookJob =
  wj_id :: string
  wj_url :: string
  wj_payload :: string
  wj_attempts :: nat
  wj_nextAttemptAt :: int
  wj_idempotencyKey :: string

datatype DeliveryResult = Success | Failure

definition createWebhookJob :: "string \<Rightarrow> string \<Rightarrow> string \<Rightarrow> string option \<Rightarrow> millis \<Rightarrow> WebhookJob" where
  "createWebhookJob i url payload key nowMs =
     \<lparr>wj_id = i, wj_url = url, wj_payload = payload, wj_attempts = 0, wj_nextAttemptAt = nowMs div 1000,
      wj_idempotencyKey = the (js_or key (Some (''whk_'' @ i)))\<rparr>"

definition computeBackoffDelaySecs :: "nat \<Rightarrow> int" where
  "computeBackoffDelaySecs attempts = min (BASE_DELAY_SECS * 2 ^ min attempts 30) MAX_DELAY_SECS"

definition recordJobFailure :: "WebhookJob \<Rightarrow> int \<Rightarrow> WebhookJob" where
  "recordJobFailure job nowSecs =
     (let n = wj_attempts job + 1
      in job\<lparr>wj_attempts := n, wj_nextAttemptAt := nowSecs + computeBackoffDelaySecs n\<rparr>)"

definition isJobExhausted :: "WebhookJob \<Rightarrow> bool" where
  "isJobExhausted job = (wj_attempts job \<ge> MAX_ATTEMPTS)"

definition isJobDue :: "WebhookJob \<Rightarrow> int \<Rightarrow> bool" where
  "isJobDue job nowSecs = (nowSecs \<ge> wj_nextAttemptAt job)"

section \<open>The queue\<close>

record WebhookQueue =
  pending :: "WebhookJob list"
  deadLetter :: "WebhookJob list"

text \<open>The callback takes an environment of its own to a new one, with its outcome, \<open>None\<close> when its promise rejects, and the jobs
  that were enqueued meanwhile. A rejection ends the tick where it is: \<open>pending\<close>, which was emptied at the start, is not
  assigned again.\<close>

type_synonym 'e deliver = "'e \<Rightarrow> WebhookJob \<Rightarrow> 'e \<times> DeliveryResult option \<times> WebhookJob list"

definition enqueue :: "WebhookJob \<Rightarrow> WebhookQueue \<Rightarrow> WebhookQueue" where
  "enqueue job q = q\<lparr>pending := pending q @ [job]\<rparr>"

fun tick_loop ::
  "'e deliver \<Rightarrow> int \<Rightarrow> WebhookJob list \<Rightarrow> 'e \<Rightarrow> WebhookJob list \<Rightarrow> WebhookQueue \<Rightarrow> 'e \<times> WebhookJob list option \<times> WebhookQueue" where
  "tick_loop deliver now [] env remaining q = (env, Some remaining, q)"
| "tick_loop deliver now (job # jobs) env remaining q =
     (if \<not> isJobDue job now then tick_loop deliver now jobs env (remaining @ [job]) q
      else
        (case deliver env job of (env', outcome, arrived) \<Rightarrow>
           (let q' = fold enqueue arrived q
            in case outcome of
                 None \<Rightarrow> (env', None, q')
               | Some Success \<Rightarrow> tick_loop deliver now jobs env' remaining q'
               | Some Failure \<Rightarrow>
                   (let job' = recordJobFailure job now
                    in if isJobExhausted job'
                       then tick_loop deliver now jobs env' remaining (q'\<lparr>deadLetter := deadLetter q' @ [job']\<rparr>)
                       else tick_loop deliver now jobs env' (remaining @ [job']) q'))))"

text \<open>The flag tells whether the tick completes; otherwise it rejects.\<close>

definition tick :: "'e deliver \<Rightarrow> int \<Rightarrow> 'e \<Rightarrow> WebhookQueue \<Rightarrow> 'e \<times> bool \<times> WebhookQueue" where
  "tick deliver now env q =
     (case tick_loop deliver now (pending q) env [] (q\<lparr>pending := []\<rparr>) of
        (env', Some remaining, q') \<Rightarrow> (env', True, q'\<lparr>pending := remaining\<rparr>)
      | (env', None, q') \<Rightarrow> (env', False, q'))"

definition drainDlq :: "WebhookQueue \<Rightarrow> WebhookJob list \<times> WebhookQueue" where
  "drainDlq q = (deadLetter q, q\<lparr>deadLetter := []\<rparr>)"

section \<open>Invariant and helper definitions\<close>

text \<open>A pending job has been tried fewer than five times, a dead-lettered one exactly five times.\<close>

definition queue_inv :: "WebhookQueue \<Rightarrow> bool" where
  "queue_inv q \<longleftrightarrow> list_all (\<lambda>j. wj_attempts j < MAX_ATTEMPTS) (pending q) \<and>
     list_all (\<lambda>j. wj_attempts j = MAX_ATTEMPTS) (deadLetter q)"

text \<open>The callback without what arrives meanwhile; one that also logs what it delivers; one whose promises never reject; and one
  that only depends on the job.\<close>

definition quiet :: "'e deliver \<Rightarrow> 'e deliver" where
  "quiet d = (\<lambda>env job. let (env', r, _) = d env job in (env', r, []))"

definition logged :: "'e deliver \<Rightarrow> ('e \<times> WebhookJob list) deliver" where
  "logged d = (\<lambda>(env, sent) job. let (env', r, js) = d env job in ((env', if r = Some Success then sent @ [job] else sent), r, js))"

definition never_rejects :: "('e \<Rightarrow> WebhookJob \<Rightarrow> 'e \<times> DeliveryResult \<times> WebhookJob list) \<Rightarrow> 'e deliver" where
  "never_rejects d = (\<lambda>env job. let (env', r, js) = d env job in (env', Some r, js))"

definition answering :: "(WebhookJob \<Rightarrow> DeliveryResult) \<Rightarrow> unit deliver" where
  "answering f = (\<lambda>_ job. ((), Some (f job), []))"

section \<open>Lemmas\<close>

lemma backoff_bounds: "0 < computeBackoffDelaySecs n \<and> computeBackoffDelaySecs n \<le> MAX_DELAY_SECS"
  by (simp add: computeBackoffDelaySecs_def BASE_DELAY_SECS_def MAX_DELAY_SECS_def)

lemma backoff_mono: "m \<le> n \<Longrightarrow> computeBackoffDelaySecs m \<le> computeBackoffDelaySecs n"
proof -
  assume "m \<le> n"
  then have "(2::int) ^ min m 30 \<le> 2 ^ min n 30" by (intro power_increasing) auto
  then show ?thesis unfolding computeBackoffDelaySecs_def BASE_DELAY_SECS_def
    by (intro min.mono) simp_all
qed

lemma fold_enqueue:
  "fold enqueue js q = q\<lparr>pending := pending q @ js\<rparr>"
  by (induction js arbitrary: q) (simp_all add: enqueue_def)

lemma recordJobFailure_simps [simp]:
  "wj_attempts (recordJobFailure j now) = wj_attempts j + 1"
  "wj_id (recordJobFailure j now) = wj_id j"
  by (simp_all add: recordJobFailure_def Let_def)

text \<open>What arrives during the loop only touches the list that the end of the tick overwrites.\<close>

lemma tick_loop_quiet:
  assumes "deadLetter q = deadLetter q'"
  shows "fst (tick_loop d now jobs env rem q) = fst (tick_loop (quiet d) now jobs env rem q') \<and>
    fst (snd (tick_loop d now jobs env rem q)) = fst (snd (tick_loop (quiet d) now jobs env rem q')) \<and>
    deadLetter (snd (snd (tick_loop d now jobs env rem q))) = deadLetter (snd (snd (tick_loop (quiet d) now jobs env rem q')))"
  using assms
proof (induction jobs arbitrary: env rem q q')
  case (Cons job jobs)
  obtain env' r js where d: "d env job = (env', r, js)" by (cases "d env job") auto
  have qd: "quiet d env job = (env', r, [])" by (simp add: quiet_def d)
  let ?job = "recordJobFailure job now" and ?dl = "\<lambda>q. q\<lparr>deadLetter := deadLetter q @ [recordJobFailure job now]\<rparr>"
  have "r = None \<or> r = Some Success \<or> r = Some Failure" using DeliveryResult.exhaust by (metis not_Some_eq)
  then consider "\<not> isJobDue job now" | "isJobDue job now" "r = None" | "isJobDue job now" "r = Some Success"
    | "isJobDue job now" "r = Some Failure" by blast
  then show ?case
  proof cases
    case 1
    with Cons.IH [OF Cons.prems, of env "rem @ [job]"] show ?thesis by simp
  next
    case 2
    then show ?thesis using Cons.prems by (simp add: d qd fold_enqueue)
  next
    case 3
    with Cons.IH [of "fold enqueue js q" q' env' rem] Cons.prems show ?thesis by (simp add: d qd fold_enqueue)
  next
    case 4
    with Cons.IH [of "?dl (fold enqueue js q)" "?dl q'" env' rem] Cons.IH [of "fold enqueue js q" q' env' "rem @ [?job]"]
      Cons.prems show ?thesis by (simp add: d qd fold_enqueue Let_def)
  qed
qed simp

lemma tick_loop_inv:
  assumes "queue_inv q" and "list_all (\<lambda>j. wj_attempts j < MAX_ATTEMPTS) jobs"
    and "list_all (\<lambda>j. wj_attempts j < MAX_ATTEMPTS) rem"
  shows "list_all (\<lambda>j. wj_attempts j < MAX_ATTEMPTS) (or_default (fst (snd (tick_loop (quiet d) now jobs env rem q))) []) \<and>
     list_all (\<lambda>j. wj_attempts j = MAX_ATTEMPTS) (deadLetter (snd (snd (tick_loop (quiet d) now jobs env rem q))))"
  using assms
proof (induction jobs arbitrary: env rem q)
  case Nil
  then show ?case by (simp add: queue_inv_def)
next
  case (Cons job jobs)
  obtain env' r js where d: "d env job = (env', r, js)" by (cases "d env job") auto
  have "wj_attempts (recordJobFailure job now) = MAX_ATTEMPTS" if "isJobExhausted (recordJobFailure job now)"
    using Cons.prems(2) that by (auto simp: isJobExhausted_def)
  with Cons show ?case
    by (auto simp: d quiet_def Let_def queue_inv_def isJobExhausted_def not_le split: option.splits DeliveryResult.splits)
qed

lemma tick_quiet:
  "fst (snd (tick d now env q)) = fst (snd (tick (quiet d) now env q))"
  "deadLetter (snd (snd (tick d now env q))) = deadLetter (snd (snd (tick (quiet d) now env q)))"
  "fst (snd (tick d now env q)) \<Longrightarrow> pending (snd (snd (tick d now env q))) = pending (snd (snd (tick (quiet d) now env q)))"
  using tick_loop_quiet [OF refl, of d now "pending q" env "[]" "q\<lparr>pending := []\<rparr>"]
  by (auto simp: tick_def split: prod.splits option.splits)

text \<open>Conservation, with the deliveries logged, for any callback.\<close>

lemma tick_loop_mset:
  "case tick_loop (logged d) now jobs (env, sent) rem q of ((env', sent'), rest, q') \<Rightarrow>
     (case rest of
        Some rem' \<Rightarrow> mset (map wj_id sent') + mset (map wj_id rem') + mset (map wj_id (deadLetter q')) =
          mset (map wj_id jobs) + mset (map wj_id sent) + mset (map wj_id rem) + mset (map wj_id (deadLetter q))
      | None \<Rightarrow> mset (map wj_id sent') + mset (map wj_id (deadLetter q')) \<subset>#
          mset (map wj_id jobs) + mset (map wj_id sent) + mset (map wj_id rem) + mset (map wj_id (deadLetter q)))"
proof (induction jobs arbitrary: env sent rem q)
  case (Cons job jobs)
  obtain env' r js where d: "d env job = (env', r, js)" by (cases "d env job") auto
  let ?job = "recordJobFailure job now" and ?q = "fold enqueue js q"
  have "r = None \<or> r = Some Success \<or> r = Some Failure" using DeliveryResult.exhaust by (metis not_Some_eq)
  then consider "\<not> isJobDue job now" | "isJobDue job now" "r = None" | "isJobDue job now" "r = Some Success"
    | "isJobDue job now" "r = Some Failure" "isJobExhausted ?job"
    | "isJobDue job now" "r = Some Failure" "\<not> isJobExhausted ?job" by blast
  then show ?case
  proof cases
    case 1
    with Cons.IH [where env = env and sent = sent and rem = "rem @ [job]" and q = q] show ?thesis by (auto split: prod.splits option.splits)
  next
    case 2
    have "mset (map wj_id sent) + mset (map wj_id (deadLetter q)) \<subset>#
        mset (map wj_id (job # jobs)) + mset (map wj_id sent) + mset (map wj_id rem) + mset (map wj_id (deadLetter q))"
      by (simp add: subset_mset.less_le_not_le ac_simps)
    with 2 show ?thesis by (simp add: logged_def d fold_enqueue)
  next
    case 3
    with Cons.IH [where env = env' and sent = "sent @ [job]" and rem = rem and q = ?q] show ?thesis
      by (auto simp: logged_def d fold_enqueue Let_def split: prod.splits option.splits)
  next
    case 4
    with Cons.IH [where env = env' and sent = sent and rem = rem and q = "?q\<lparr>deadLetter := deadLetter ?q @ [?job]\<rparr>"]
    show ?thesis by (auto simp: logged_def d fold_enqueue Let_def split: prod.splits option.splits)
  next
    case 5
    with Cons.IH [where env = env' and sent = sent and rem = "rem @ [?job]" and q = ?q] show ?thesis
      by (auto simp: logged_def d fold_enqueue Let_def split: prod.splits option.splits)
  qed
qed simp

lemma never_rejects_completes: "fst (snd (tick_loop (never_rejects d) now jobs env rem q)) \<noteq> None"
  by (induction jobs arbitrary: env rem q)
    (auto simp: never_rejects_def Let_def split: prod.splits DeliveryResult.splits)

text \<open>One job that always fails, tried whenever it is due.\<close>

primrec failing_after :: "nat \<Rightarrow> WebhookJob \<Rightarrow> WebhookQueue" where
  "failing_after 0 job = \<lparr>pending = [job], deadLetter = []\<rparr>"
| "failing_after (Suc n) job =
     (let q = failing_after n job
      in snd (snd (tick (answering (\<lambda>_. Failure)) (case pending q of [] \<Rightarrow> 0 | j # _ \<Rightarrow> wj_nextAttemptAt j) () q)))"

lemma tick_failing_job:
  "tick (answering (\<lambda>_. Failure)) (wj_nextAttemptAt j) () \<lparr>pending = [j], deadLetter = dl\<rparr> =
     ((), True, if MAX_ATTEMPTS \<le> wj_attempts j + 1
          then \<lparr>pending = [], deadLetter = dl @ [recordJobFailure j (wj_nextAttemptAt j)]\<rparr>
          else \<lparr>pending = [recordJobFailure j (wj_nextAttemptAt j)], deadLetter = dl\<rparr>)"
  by (simp add: tick_def answering_def isJobDue_def isJobExhausted_def Let_def)

primrec failed :: "nat \<Rightarrow> WebhookJob \<Rightarrow> WebhookJob" where
  "failed 0 j = j"
| "failed (Suc n) j = recordJobFailure (failed n j) (wj_nextAttemptAt (failed n j))"

lemma failed_simps [simp]: "wj_attempts (failed n j) = wj_attempts j + n" "wj_id (failed n j) = wj_id j"
  by (induction n) simp_all

lemma failed_next:
  "wj_nextAttemptAt (failed n j) = wj_nextAttemptAt j + (\<Sum>m<n. computeBackoffDelaySecs (wj_attempts j + m + 1))"
  by (induction n) (simp_all add: recordJobFailure_def Let_def)

lemma failing_after_eq:
  "wj_attempts j + n < MAX_ATTEMPTS \<Longrightarrow> failing_after n j = \<lparr>pending = [failed n j], deadLetter = []\<rparr>"
  by (induction n) (simp_all add: tick_failing_job Let_def)

lemma failing_after_last:
  "wj_attempts j + Suc n = MAX_ATTEMPTS \<Longrightarrow> failing_after (Suc n) j = \<lparr>pending = [], deadLetter = [failed (Suc n) j]\<rparr>"
  by (simp add: failing_after_eq tick_failing_job Let_def)

section \<open>Properties\<close>

text \<open>C19. A tick accounts for every job it found, for any callback, whatever that enqueues meanwhile. If no delivery rejects, the
  jobs that were pending or dead-lettered are, by identifier and multiplicity, exactly those that were delivered, are still
  pending, or are in the dead-letter list afterwards. If the promise of a delivery rejects, the tick ends there, and those
  delivered or dead-lettered are strictly fewer than those there were.\<close>

theorem tick_conserves_jobs:
  "case tick (logged deliver) now (env, []) q of ((env', delivered), completed, q') \<Rightarrow>
     if completed
     then mset (map wj_id (pending q)) + mset (map wj_id (deadLetter q)) =
          mset (map wj_id delivered) + mset (map wj_id (pending q')) + mset (map wj_id (deadLetter q'))
     else mset (map wj_id delivered) + mset (map wj_id (deadLetter q')) \<subset>#
          mset (map wj_id (pending q)) + mset (map wj_id (deadLetter q))"
  using tick_loop_mset [where d = deliver and now = now and jobs = "pending q" and env = env and sent = "[]" and rem = "[]"
      and q = "q\<lparr>pending := []\<rparr>"]
  by (auto simp: tick_def ac_simps split: prod.splits option.splits)

text \<open>With a callback that enqueues nothing, a rejection leaves nothing pending at all, also the jobs that were not due.\<close>

theorem rejection_empties_queue:
  assumes "\<not> fst (snd (tick deliver now env q))" and "\<And>e j. snd (snd (deliver e j)) = []"
  shows "pending (snd (snd (tick deliver now env q))) = []"
proof -
  have "pending (snd (snd (tick_loop deliver now jobs env rem q))) = pending q" for jobs env rem and q :: WebhookQueue
  proof (induction jobs arbitrary: env rem q)
    case (Cons job jobs)
    obtain env' r where "deliver env job = (env', r, [])" using assms(2) by (metis prod.collapse)
    with Cons show ?case by (auto simp: Let_def split: option.splits DeliveryResult.splits)
  qed simp
  from this [of "pending q" env "[]" "q\<lparr>pending := []\<rparr>"] show ?thesis
    using assms(1) by (auto simp: tick_def split: prod.splits option.splits)
qed

theorem rejection_empties_queue_witness:
  "pending (snd (snd (tick (\<lambda>_ _. ((), None, [])) 5 ()
     \<lparr>pending = [createWebhookJob ''a'' ''u'' ''p'' None 3000, createWebhookJob ''b'' ''u'' ''p'' None 9000], deadLetter = []\<rparr>))) = []"
  by (rule rejection_empties_queue) (simp_all add: tick_def createWebhookJob_def isJobDue_def)

text \<open>C20. A job that other code enqueues while a tick awaits a delivery is dropped when the tick completes: the pending and
  the dead-letter list after the tick are those of the same tick with nothing enqueued meanwhile. A tick whose
  deliveries all settle completes.\<close>

theorem tick_drops_concurrent_jobs:
  "fst (snd (tick (never_rejects deliver) now env q)) \<and>
   snd (tick (never_rejects deliver) now env q) = snd (tick (quiet (never_rejects deliver)) now env q) \<and>
   (\<forall>env job. snd (snd (quiet (never_rejects deliver) env job)) = [])"
proof (intro conjI)
  show c: "fst (snd (tick (never_rejects deliver) now env q))"
    using never_rejects_completes [of deliver now "pending q" env "[]" "q\<lparr>pending := []\<rparr>"]
    by (auto simp: tick_def split: prod.splits option.splits)
  have "snd (snd (tick (never_rejects deliver) now env q)) = snd (snd (tick (quiet (never_rejects deliver)) now env q))"
    by (rule WebhookQueue.equality) (simp_all add: tick_quiet(2) [of "never_rejects deliver"] tick_quiet(3) [OF c])
  then show "snd (tick (never_rejects deliver) now env q) = snd (tick (quiet (never_rejects deliver)) now env q)"
    using tick_quiet(1) [of "never_rejects deliver" now env q] by (simp add: prod_eq_iff)
  show "\<forall>env job. snd (snd (quiet (never_rejects deliver) env job)) = []"
    by (simp add: quiet_def Let_def case_prod_beta)
qed

text \<open>Attempts are bounded: a tick that completes keeps every pending job below \<open>MAX_ATTEMPTS\<close> failures and
  dead-letters a job exactly when it has failed \<open>MAX_ATTEMPTS\<close> times, for every delivery callback.\<close>

theorem tick_preserves_attempt_bound:
  assumes "queue_inv q" and "fst (snd (tick deliver now env q))"
  shows "queue_inv (snd (snd (tick deliver now env q)))"
proof -
  have "fst (snd (tick (quiet deliver) now env q))" using assms(2) tick_quiet(1) by metis
  then have "queue_inv (snd (snd (tick (quiet deliver) now env q)))"
    using tick_loop_inv [of "q\<lparr>pending := []\<rparr>" "pending q" "[]" deliver now env] assms(1)
    by (auto simp: tick_def queue_inv_def split: prod.splits option.splits)
  then show ?thesis using assms(2) by (simp add: queue_inv_def tick_quiet(2) [of deliver] tick_quiet(3) [of deliver])
qed

theorem tick_preserves_attempt_bound_witness:
  "queue_inv (snd (snd (tick (answering (\<lambda>_. Failure)) 50 ()
     \<lparr>pending = [createWebhookJob ''e'' ''u'' ''p'' None 3000], deadLetter = []\<rparr>)))"
  by (rule tick_preserves_attempt_bound)
    (simp_all add: queue_inv_def createWebhookJob_def MAX_ATTEMPTS_def tick_def answering_def Let_def)

text \<open>The retry schedule of ADR-005: a new job whose delivery keeps failing, tried as soon as it is
  due, is retried 2, 4, 8 and 16 seconds after its first four attempts and is dead-lettered by the
  fifth, 30 seconds after it was created; the 300 second cap is never reached.\<close>

theorem failing_job_schedule:
  assumes "job = createWebhookJob i url payload key nowMs" and "t = nowMs div 1000"
  shows "map (\<lambda>n. map wj_nextAttemptAt (pending (failing_after n job))) [0..<6] = [[t], [t + 2], [t + 6], [t + 14], [t + 30], []] \<and>
         map wj_id (deadLetter (failing_after 5 job)) = [i] \<and>
         computeBackoffDelaySecs MAX_ATTEMPTS < MAX_DELAY_SECS"
proof -
  have j: "wj_attempts job = 0" "wj_nextAttemptAt job = t" "wj_id job = i"
    using assms by (simp_all add: createWebhookJob_def)
  have five: "failing_after 5 job = \<lparr>pending = [], deadLetter = [failed 5 job]\<rparr>"
    using failing_after_last [of job 4] j by (simp add: MAX_ATTEMPTS_def)
  have sched: "failing_after n job = \<lparr>pending = [failed n job], deadLetter = []\<rparr>" if "n < 5" for n
    using that j by (intro failing_after_eq) (simp add: MAX_ATTEMPTS_def)
  have "[0..<6] = [0, 1, 2, 3, 4, 5 :: nat]" by (simp add: upt_rec)
  moreover have "{..<Suc 0} = {0 :: nat}" "{..<2} = {0, 1 :: nat}" "{..<3} = {0, 1, 2 :: nat}" "{..<4} = {0, 1, 2, 3 :: nat}" by auto
  ultimately show ?thesis
    by (simp add: five sched failed_next j computeBackoffDelaySecs_def BASE_DELAY_SECS_def MAX_DELAY_SECS_def MAX_ATTEMPTS_def
        del: failing_after.simps failed.simps)
qed

theorem failing_job_schedule_witness:
  "map wj_id (deadLetter (failing_after 5 (createWebhookJob ''evt'' ''https://x'' ''{}'' None 7000))) = [''evt'']"
  using failing_job_schedule [OF refl refl, of "''evt''" "''https://x''" "''{}''" None 7000] by blast

end
