(* ===== verification/Soroban_Pool.thy ===== *)
theory Soroban_Pool
  imports Rpc_Guard
begin

text \<open>
  The pool of Soroban RPC clients, \<open>backend/src/lib/soroban.ts\<close>. A client is an object with an
  identity, so two clients of the same address differ. \<open>acquire\<close> either hands out a client or queues
  a waiter with a timer; \<open>release\<close> hands the client to the first waiter or puts it back. The step
  relation \<open>pool_step\<close> interleaves acquisitions, releases and expiring timers in any order and keeps,
  as ghost state, which clients are out; \<open>withClient\<close> is the whole guarded call with its fallback
  endpoints.
\<close>

section \<open>State and operations\<close>

datatype server = Server (sv_id: nat) (sv_url: string) (sv_allowHttp: bool)

record SorobanPoolConfig =
  rpcUrl :: string
  fallbackRpcUrls :: "string list option"
  poolSize :: "int option"
  cfg_acquireTimeoutMs :: "int option"

record PoolMetrics =
  pm_total :: int
  pm_available :: int
  pm_inUse :: int
  pm_acquireTimeouts :: nat
  pm_utilizationPct :: int

record SorobanClientPool =
  pool_clients :: "server list"
  pool_waiters :: "nat list"
  pool_inUse :: int
  pool_acquireTimeouts :: nat
  pool_total :: int
  pool_acquireTimeoutMs :: int
  pool_fallbackClients :: "server list"

definition new_server :: "nat \<Rightarrow> string \<Rightarrow> server" where
  "new_server i url = Server i url (startsWith url ''http://'')"

definition new_pool :: "SorobanPoolConfig \<Rightarrow> SorobanClientPool" where
  "new_pool cfg =
     (let n = or_default (poolSize cfg) 5
      in \<lparr>pool_clients = map (\<lambda>i. new_server i (rpcUrl cfg)) [0..<nat n],
          pool_waiters = [], pool_inUse = 0, pool_acquireTimeouts = 0, pool_total = n,
          pool_acquireTimeoutMs = or_default (cfg_acquireTimeoutMs cfg) 5000,
          pool_fallbackClients =
            map (\<lambda>(i, url). new_server (nat n + i) url) (enumerate 0 (or_default (fallbackRpcUrls cfg) []))\<rparr>)"

text \<open>The promise of \<open>acquire\<close>: resolved at once, or pending with the timer that identifies its waiter.\<close>

datatype acquired = Granted server | Pending nat

definition acquire :: "nat \<Rightarrow> SorobanClientPool \<Rightarrow> SorobanClientPool \<times> acquired" where
  "acquire timer p =
     (if pool_clients p \<noteq> []
      then (p\<lparr>pool_clients := butlast (pool_clients p), pool_inUse := pool_inUse p + 1\<rparr>,
            Granted (last (pool_clients p)))
      else (p\<lparr>pool_waiters := pool_waiters p @ [timer]\<rparr>, Pending timer))"

definition timeout_error :: "SorobanClientPool \<Rightarrow> thrown" where
  "timeout_error p =
     PlainError (''SorobanClientPool: acquire timed out after '' @ string_of_int (pool_acquireTimeoutMs p) @ ''ms'')"

definition acquire_timeout :: "nat \<Rightarrow> SorobanClientPool \<Rightarrow> SorobanClientPool \<times> thrown" where
  "acquire_timeout timer p =
     (p\<lparr>pool_waiters := remove1 timer (pool_waiters p), pool_acquireTimeouts := pool_acquireTimeouts p + 1\<rparr>,
      timeout_error p)"

text \<open>The second component is the waiter that was resolved, whose timer is cleared.\<close>

definition release :: "server \<Rightarrow> SorobanClientPool \<Rightarrow> SorobanClientPool \<times> nat option" where
  "release client p =
     (case pool_waiters p of
        w # ws \<Rightarrow> (p\<lparr>pool_waiters := ws\<rparr>, Some w)
      | [] \<Rightarrow> (p\<lparr>pool_inUse := pool_inUse p - 1, pool_clients := pool_clients p @ [client]\<rparr>, None))"

definition metrics :: "SorobanClientPool \<Rightarrow> PoolMetrics" where
  "metrics p =
     \<lparr>pm_total = pool_total p, pm_available = int (length (pool_clients p)), pm_inUse = pool_inUse p,
      pm_acquireTimeouts = pool_acquireTimeouts p,
      pm_utilizationPct =
        (if pool_total p > 0 then math_round (of_int (pool_inUse p) / of_int (pool_total p) * 100) else 0)\<rparr>"

text \<open>The lazily created singleton.\<close>

definition getSorobanPool ::
  "SorobanPoolConfig \<Rightarrow> SorobanClientPool option \<Rightarrow> SorobanClientPool option \<times> SorobanClientPool" where
  "getSorobanPool cfg p = (let q = or_default p (new_pool cfg) in (Some q, q))"

definition resetSorobanPool :: "SorobanClientPool option" where
  "resetSorobanPool = None"

section \<open>The guarded call\<close>

text \<open>The endpoints after the first one are tried in order; the error is that of the first endpoint.\<close>

fun first_fallback :: "(server \<Rightarrow> thrown + 'r) \<Rightarrow> thrown \<Rightarrow> server list \<Rightarrow> thrown + 'r" where
  "first_fallback fn primaryError [] = Inl primaryError"
| "first_fallback fn primaryError (c # cs) =
     (case fn c of Inr r \<Rightarrow> Inr r | Inl _ \<Rightarrow> first_fallback fn primaryError cs)"

definition call_endpoints :: "(server \<Rightarrow> thrown + 'r) \<Rightarrow> server \<Rightarrow> server list \<Rightarrow> thrown + 'r" where
  "call_endpoints fn client fallbacks =
     (case fn client of Inr r \<Rightarrow> Inr r | Inl primaryError \<Rightarrow> first_fallback fn primaryError fallbacks)"

text \<open>\<open>wait\<close> is what the other users of the pool and the timer do while the call is queued, and
  \<open>meanwhile\<close> what they do while it runs.\<close>

definition withClient ::
  "('b \<Rightarrow> 'i \<Rightarrow> 'r attempt \<Rightarrow> 'b \<times> (thrown + 'r)) \<Rightarrow>
   (nat \<Rightarrow> SorobanClientPool \<Rightarrow> SorobanClientPool \<times> (thrown + server)) \<Rightarrow>
   (SorobanClientPool \<Rightarrow> SorobanClientPool) \<Rightarrow>
   (server \<Rightarrow> thrown + 'r) \<Rightarrow> int option \<Rightarrow> 'i \<Rightarrow> nat \<Rightarrow> SorobanClientPool \<Rightarrow> 'b \<Rightarrow>
   SorobanClientPool \<times> 'b \<times> (thrown + 'r)" where
  "withClient fire_fn wait meanwhile fn duration i timer p b =
     (let (p1, a) = acquire timer p;
          (p2, got) = (case a of Granted c \<Rightarrow> (p1, Inr c) | Pending t \<Rightarrow> wait t p1)
      in case got of
           Inl e \<Rightarrow> (p2, b, Inl e)
         | Inr client \<Rightarrow>
             (let (b', res) = fire_fn b i \<lparr>at_duration = duration,
                                at_outcome = call_endpoints fn client (pool_fallbackClients p2)\<rparr>
              in (fst (release client (meanwhile p2)), b', res)))"

section \<open>Interleaving\<close>

record pool_sys =
  sys_pool :: SorobanClientPool
  sys_held :: "server list"
  sys_timers :: "nat list"
  sys_next :: nat

definition sys_init :: "SorobanPoolConfig \<Rightarrow> pool_sys" where
  "sys_init cfg = \<lparr>sys_pool = new_pool cfg, sys_held = [], sys_timers = [], sys_next = 0\<rparr>"

definition sys_acquire :: "pool_sys \<Rightarrow> pool_sys" where
  "sys_acquire s =
     (let (p, a) = acquire (sys_next s) (sys_pool s)
      in case a of
           Granted c \<Rightarrow> s\<lparr>sys_pool := p, sys_held := c # sys_held s\<rparr>
         | Pending t \<Rightarrow> s\<lparr>sys_pool := p, sys_timers := sys_timers s @ [t], sys_next := Suc (sys_next s)\<rparr>)"

definition sys_release :: "server \<Rightarrow> pool_sys \<Rightarrow> pool_sys" where
  "sys_release c s =
     (let (p, w) = release c (sys_pool s)
      in case w of
           Some t \<Rightarrow> s\<lparr>sys_pool := p, sys_timers := remove1 t (sys_timers s)\<rparr>
         | None \<Rightarrow> s\<lparr>sys_pool := p, sys_held := remove1 c (sys_held s)\<rparr>)"

definition sys_timeout :: "nat \<Rightarrow> pool_sys \<Rightarrow> pool_sys" where
  "sys_timeout t s = s\<lparr>sys_pool := fst (acquire_timeout t (sys_pool s)), sys_timers := remove1 t (sys_timers s)\<rparr>"

text \<open>A client is released by one of its holders, and only armed timers fire.\<close>

inductive pool_step :: "pool_sys \<Rightarrow> pool_sys \<Rightarrow> bool" where
  step_acquire: "pool_step s (sys_acquire s)"
| step_release: "c \<in> set (sys_held s) \<Longrightarrow> pool_step s (sys_release c s)"
| step_timeout: "t \<in> set (sys_timers s) \<Longrightarrow> pool_step s (sys_timeout t s)"

inductive_cases pool_stepE: "pool_step s s'"

inductive pool_reach :: "SorobanPoolConfig \<Rightarrow> pool_sys \<Rightarrow> bool" for cfg where
  reach_init: "pool_reach cfg (sys_init cfg)"
| reach_step: "pool_reach cfg s \<Longrightarrow> pool_step s s' \<Longrightarrow> pool_reach cfg s'"

definition pool_inv :: "SorobanPoolConfig \<Rightarrow> pool_sys \<Rightarrow> bool" where
  "pool_inv cfg s \<longleftrightarrow>
     mset (pool_clients (sys_pool s)) + mset (sys_held s) = mset (pool_clients (new_pool cfg)) \<and>
     pool_inUse (sys_pool s) = int (length (sys_held s)) \<and>
     (pool_waiters (sys_pool s) = [] \<or> pool_clients (sys_pool s) = []) \<and>
     sys_timers s = pool_waiters (sys_pool s) \<and> distinct (sys_timers s) \<and>
     (\<forall>t \<in> set (sys_timers s). t < sys_next s) \<and>
     pool_total (sys_pool s) = or_default (poolSize cfg) 5"

text \<open>The waiters resolved by releasing clients one after the other.\<close>

primrec release_all :: "server list \<Rightarrow> SorobanClientPool \<Rightarrow> SorobanClientPool \<times> (nat \<times> server) list" where
  "release_all [] p = (p, [])"
| "release_all (c # cs) p =
     (let (p1, w) = release c p; (p2, served) = release_all cs p1
      in (p2, (case w of Some t \<Rightarrow> (t, c) # served | None \<Rightarrow> served)))"

section \<open>Lemmas\<close>

lemma mset_butlast_last: "xs \<noteq> [] \<Longrightarrow> add_mset (last xs) (mset (butlast xs) + M) = mset xs + M"
proof (induction xs rule: rev_induct)
  case (snoc x xs)
  show ?case by simp
qed simp

lemma pool_inv_init: "pool_inv cfg (sys_init cfg)"
  by (simp add: pool_inv_def sys_init_def new_pool_def Let_def)

lemma pool_inv_acquire [inv_intros]:
  assumes "pool_inv cfg s"
  shows "pool_inv cfg (sys_acquire s)"
proof (cases "pool_clients (sys_pool s) = []")
  case True
  with assms show ?thesis
    by (auto simp: pool_inv_def sys_acquire_def acquire_def less_Suc_eq)
next
  case False
  then show ?thesis
    using assms mset_butlast_last [OF False, of "mset (sys_held s)"]
    by (auto simp: pool_inv_def sys_acquire_def acquire_def)
qed

lemma pool_inv_release [inv_intros]:
  assumes "pool_inv cfg s" "c \<in> set (sys_held s)"
  shows "pool_inv cfg (sys_release c s)"
proof (cases "pool_waiters (sys_pool s)")
  case Nil
  moreover have "length (sys_held s) = Suc (length (remove1 c (sys_held s)))"
    using assms(2) length_pos_if_in_set [OF assms(2)] by (simp add: length_remove1)
  moreover have "mset (sys_held s) = add_mset c (mset (remove1 c (sys_held s)))" using assms(2) by simp
  ultimately show ?thesis
    using assms by (simp add: pool_inv_def sys_release_def release_def del: mset_remove1)
next
  case (Cons w ws)
  with assms show ?thesis by (auto simp: pool_inv_def sys_release_def release_def)
qed

lemma pool_inv_timeout [inv_intros]:
  assumes "pool_inv cfg s"
  shows "pool_inv cfg (sys_timeout t s)"
  using assms by (auto simp: pool_inv_def sys_timeout_def acquire_timeout_def dest: notin_set_remove1)

lemma pool_reach_inv: "pool_reach cfg s \<Longrightarrow> pool_inv cfg s"
proof (induction rule: pool_reach.induct)
  case reach_init
  show ?case by (rule pool_inv_init)
next
  case (reach_step s s')
  from reach_step.hyps(2) reach_step.IH show ?case by (cases rule: pool_step.cases) (auto intro: inv_intros)
qed

lemma pool_inv_count:
  assumes "pool_inv cfg s" "0 \<le> or_default (poolSize cfg) 5"
  shows "int (length (pool_clients (sys_pool s))) + pool_inUse (sys_pool s) = pool_total (sys_pool s)"
proof -
  have "size (mset (pool_clients (sys_pool s)) + mset (sys_held s)) = size (mset (pool_clients (new_pool cfg)))"
    using assms(1) by (simp add: pool_inv_def)
  then have "length (pool_clients (sys_pool s)) + length (sys_held s) = nat (or_default (poolSize cfg) 5)"
    by (simp add: new_pool_def Let_def)
  with assms show ?thesis by (auto simp: pool_inv_def)
qed

lemma utilization_bounds:
  assumes "0 \<le> pool_inUse p" "pool_inUse p \<le> pool_total p"
  shows "0 \<le> pm_utilizationPct (metrics p) \<and> pm_utilizationPct (metrics p) \<le> 100"
proof (cases "pool_total p > 0")
  case True
  have "(of_int (pool_inUse p) :: rat) / of_int (pool_total p) \<le> 1"
    using True assms by simp
  moreover have "(0::rat) \<le> of_int (pool_inUse p) / of_int (pool_total p)" using True assms by simp
  ultimately show ?thesis
    using True math_round_bounds [of 0 "of_int (pool_inUse p) / of_int (pool_total p) * 100" 100]
    by (simp add: metrics_def field_simps)
next
  case False
  then show ?thesis by (simp add: metrics_def)
qed

lemma first_fallback_cases:
  "first_fallback fn e cs =
     (case find (\<lambda>c. \<exists>r. fn c = Inr r) cs of Some c \<Rightarrow> fn c | None \<Rightarrow> Inl e)"
  by (induction cs) (auto split: sum.split)

lemma find_success: "find (\<lambda>c. \<exists>r. fn c = Inr r) cs = Some c \<Longrightarrow> \<exists>r. fn c = Inr r"
  by (induction cs) (auto split: if_splits)

lemma call_endpoints_as_error:
  "map_sum as_error id (call_endpoints fn c cs) =
     (case fn c of
        Inr r \<Rightarrow> Inr r
      | Inl e \<Rightarrow> (case find (\<lambda>c. \<exists>r. fn c = Inr r) cs of Some c' \<Rightarrow> fn c' | None \<Rightarrow> Inl (as_error e)))"
  by (auto simp: call_endpoints_def first_fallback_cases dest: find_success split: sum.split option.split)

lemma release_keeps_config [simp]:
  "pool_fallbackClients (fst (release c p)) = pool_fallbackClients p"
  by (simp add: release_def split: list.split)

lemma release_all_waiters:
  "length cs \<le> length (pool_waiters p) \<Longrightarrow>
     release_all cs p = (p\<lparr>pool_waiters := drop (length cs) (pool_waiters p)\<rparr>, zip (pool_waiters p) cs)"
proof (induction cs arbitrary: p)
  case (Cons c cs)
  then obtain w ws where ws: "pool_waiters p = w # ws" by (cases "pool_waiters p") auto
  with Cons show ?case by (simp add: release_def)
qed simp

text \<open>What \<open>withClient\<close> asks of the breaker: the contract of a guarded call, for timed attempts.\<close>

locale guarded_attempt = guarded_call fire_fn rejects settled
  for fire_fn :: "'b \<Rightarrow> 'i \<Rightarrow> 'r attempt \<Rightarrow> 'b \<times> (thrown + 'r)"
    and rejects :: "'b \<Rightarrow> 'i \<Rightarrow> bool" and settled :: "'r attempt \<Rightarrow> thrown + 'r"
begin

lemma withClient_settled:
  assumes "acquire timer p = (p1, Granted c)" "\<not> rejects b i"
  shows "snd (snd (withClient fire_fn wait meanwhile fn d i timer p b)) =
           settled \<lparr>at_duration = d, at_outcome = call_endpoints fn c (pool_fallbackClients p1)\<rparr>"
  using assms(1) fire_attempted [OF assms(2)] by (simp add: withClient_def case_prod_beta Let_def)

lemma withClient_rejected:
  assumes "acquire timer p = (p1, Granted c)" "rejects b i"
  shows "\<exists>e. snd (snd (withClient fire_fn wait meanwhile fn d i timer p b)) = Inl e \<and> isCircuitOpenError e"
  using assms(1) fire_rejected [OF assms(2)] by (simp add: withClient_def case_prod_beta Let_def)

end

interpretation rpc_attempt: guarded_attempt "rpc_fire opts" rpc_rejects "settled_as_error opts" for opts
  by (rule guarded_attempt.intro) (rule rpc.guarded_call_axioms)

lemma withClient_returns_client:
  "fst (withClient fire_fn wait meanwhile fn d i timer p b) =
     (let (p1, a) = acquire timer p;
          (p2, got) = (case a of Granted c \<Rightarrow> (p1, Inr c) | Pending t \<Rightarrow> wait t p1)
      in case got of Inl e \<Rightarrow> p2 | Inr c \<Rightarrow> fst (release c (meanwhile p2)))"
  by (simp add: withClient_def case_prod_beta Let_def split: sum.split)

section \<open>Properties\<close>

text \<open>C3. Clients are conserved. In every state that acquisitions, releases and time-outs can reach in
  any order, the clients in the pool together with those handed out are exactly the clients the pool was
  created with, the counter \<open>inUse\<close> is the number handed out, idle clients and waiting callers never
  coexist, the armed timers are those of the waiting callers, and the reported utilisation is a
  percentage.\<close>

theorem pool_conserves_clients:
  assumes "pool_reach cfg s" "0 \<le> or_default (poolSize cfg) 5"
  shows "mset (pool_clients (sys_pool s)) + mset (sys_held s) = mset (pool_clients (new_pool cfg)) \<and>
         pool_inUse (sys_pool s) = int (length (sys_held s)) \<and>
         int (length (pool_clients (sys_pool s))) + pool_inUse (sys_pool s) = pool_total (sys_pool s) \<and>
         (pool_waiters (sys_pool s) = [] \<or> pool_clients (sys_pool s) = []) \<and>
         sys_timers s = pool_waiters (sys_pool s) \<and>
         pm_utilizationPct (metrics (sys_pool s)) \<in> {0..100}"
proof -
  have inv: "pool_inv cfg s" using assms(1) by (rule pool_reach_inv)
  have cnt: "int (length (pool_clients (sys_pool s))) + pool_inUse (sys_pool s) = pool_total (sys_pool s)"
    using inv assms(2) by (rule pool_inv_count)
  have "0 \<le> pool_inUse (sys_pool s)" "pool_inUse (sys_pool s) \<le> pool_total (sys_pool s)"
    using inv cnt by (simp_all add: pool_inv_def)
  then have "0 \<le> pm_utilizationPct (metrics (sys_pool s)) \<and> pm_utilizationPct (metrics (sys_pool s)) \<le> 100"
    by (rule utilization_bounds)
  with inv cnt show ?thesis by (simp add: pool_inv_def)
qed

definition example_pool :: SorobanPoolConfig where
  "example_pool = \<lparr>rpcUrl = ''https://rpc'', fallbackRpcUrls = Some [''http://spare''], poolSize = Some 1,
                   cfg_acquireTimeoutMs = None\<rparr>"

theorem pool_conserves_clients_witness:
  "mset (pool_clients (sys_pool (sys_acquire (sys_acquire (sys_init example_pool))))) +
     mset (sys_held (sys_acquire (sys_acquire (sys_init example_pool)))) =
     mset (pool_clients (new_pool example_pool)) \<and>
   pool_waiters (sys_pool (sys_acquire (sys_acquire (sys_init example_pool)))) = [0]"
proof -
  have "pool_reach example_pool (sys_acquire (sys_acquire (sys_init example_pool)))"
    by (rule reach_step [OF reach_step [OF reach_init step_acquire] step_acquire])
  then have "mset (pool_clients (sys_pool (sys_acquire (sys_acquire (sys_init example_pool))))) +
     mset (sys_held (sys_acquire (sys_acquire (sys_init example_pool)))) =
     mset (pool_clients (new_pool example_pool))"
    using pool_conserves_clients [of example_pool] by (simp add: example_pool_def)
  then show ?thesis
    by (simp add: sys_init_def new_pool_def example_pool_def sys_acquire_def acquire_def)
qed

text \<open>Waiting callers are served first come, first served. When no timer fires, releasing as many
  clients as callers wait hands each released client to the waiters in the order in which they queued,
  leaves no waiter behind and puts none of the clients back into the pool.\<close>

theorem waiters_served_in_order:
  assumes "length cs = length (pool_waiters p)"
  shows "release_all cs p = (p\<lparr>pool_waiters := []\<rparr>, zip (pool_waiters p) cs)"
  using assms release_all_waiters [of cs p] by simp

theorem waiters_served_in_order_witness:
  "release_all [new_server 0 ''https://rpc'', new_server 1 ''https://rpc'']
     ((new_pool example_pool)\<lparr>pool_clients := [], pool_waiters := [7, 9]\<rparr>) =
   ((new_pool example_pool)\<lparr>pool_clients := [], pool_waiters := []\<rparr>,
    [(7, new_server 0 ''https://rpc''), (9, new_server 1 ''https://rpc'')])"
  using waiters_served_in_order
    [of "[new_server 0 ''https://rpc'', new_server 1 ''https://rpc'']"
        "(new_pool example_pool)\<lparr>pool_clients := [], pool_waiters := [7, 9]\<rparr>"] by simp

lemma settled_call_endpoints:
  "settled_as_error opts \<lparr>at_duration = d, at_outcome = call_endpoints fn c cs\<rparr> =
     (if (case d of Some n \<Rightarrow> n < cb_timeout opts | None \<Rightarrow> False)
      then (case fn c of
              Inr r \<Rightarrow> Inr r
            | Inl e \<Rightarrow> (case find (\<lambda>c. \<exists>r. fn c = Inr r) cs of Some c' \<Rightarrow> fn c' | None \<Rightarrow> Inl (as_error e)))
      else Inl (as_error (PlainError (''Operation timed out after '' @ string_of_int (cb_timeout opts) @ ''ms''))))"
  using call_endpoints_as_error [of fn c cs] by (simp add: settled_as_error_def race_def split: option.split)

text \<open>C22. The outcome of a pooled call. It takes the last idle client of the pool, or queues and goes by what its wait ends with; when the
  wait fails, its error is the outcome and the breaker is not touched. With a client, and an open circuit, the outcome is
  the error of the open circuit. Otherwise, if the attempts settle within the time-out of the breaker, it is the result of the
  client, else that of the first fallback endpoint that succeeds, and only if all fail the error of the client; if they do
  not settle in time, it is the time-out error. In each of these cases the client goes back: to the first waiting caller,
  or else to the idle ones. Other callers may change the pool while the call waits or runs.\<close>

theorem withClient_outcome:
  "let out = withClient (rpc_fire opts) wait meanwhile fn d i timer p b;
       (q, got) = (if pool_clients p \<noteq> []
                   then (p\<lparr>pool_clients := butlast (pool_clients p), pool_inUse := pool_inUse p + 1\<rparr>, Inr (last (pool_clients p)))
                   else wait timer (p\<lparr>pool_waiters := pool_waiters p @ [timer]\<rparr>));
       after = meanwhile q
   in case got of
        Inl e \<Rightarrow> out = (q, b, Inl e)
      | Inr c \<Rightarrow>
          fst out = (case pool_waiters after of
                       w # ws \<Rightarrow> after\<lparr>pool_waiters := ws\<rparr>
                     | [] \<Rightarrow> after\<lparr>pool_inUse := pool_inUse after - 1, pool_clients := pool_clients after @ [c]\<rparr>) \<and>
          (if snd (getState (fst i) b) = OPEN then \<exists>e. snd (snd out) = Inl e \<and> isCircuitOpenError e
           else snd (snd out) =
             (if (case d of Some n \<Rightarrow> n < cb_timeout opts | None \<Rightarrow> False)
              then (case fn c of
                      Inr r \<Rightarrow> Inr r
                    | Inl e \<Rightarrow> (case find (\<lambda>c. \<exists>r. fn c = Inr r) (pool_fallbackClients q) of
                                  Some c' \<Rightarrow> fn c'
                                | None \<Rightarrow> Inl (as_error e)))
              else Inl (as_error (PlainError (''Operation timed out after '' @ string_of_int (cb_timeout opts) @ ''ms'')))))"
proof -
  let ?out = "withClient (rpc_fire opts) wait meanwhile fn d i timer p b"
  obtain q got where g: "(if pool_clients p \<noteq> []
      then (p\<lparr>pool_clients := butlast (pool_clients p), pool_inUse := pool_inUse p + 1\<rparr>, Inr (last (pool_clients p)))
      else wait timer (p\<lparr>pool_waiters := pool_waiters p @ [timer]\<rparr>)) = (q, got)" by force
  have out: "?out = (case got of
      Inl e \<Rightarrow> (q, b, Inl e)
    | Inr c \<Rightarrow> (let (b', res) = rpc_fire opts b i \<lparr>at_duration = d, at_outcome = call_endpoints fn c (pool_fallbackClients q)\<rparr>
               in (fst (release c (meanwhile q)), b', res)))"
    using g by (auto simp: withClient_def acquire_def Let_def split: if_splits sum.split)
  show ?thesis
  proof (cases got)
    case (Inl e)
    then show ?thesis unfolding g Let_def out by simp
  next
    case (Inr c)
    let ?a = "\<lparr>at_duration = d, at_outcome = call_endpoints fn c (pool_fallbackClients q)\<rparr>"
    have res: "snd (snd ?out) = snd (rpc_fire opts b i ?a)" "fst ?out = fst (release c (meanwhile q))"
      by (simp_all add: out Inr case_prod_beta Let_def)
    have "if rpc_rejects b i then \<exists>e. snd (snd ?out) = Inl e \<and> isCircuitOpenError e else snd (snd ?out) = settled_as_error opts ?a"
      unfolding res(1) using rpc.fire_rejected [of b i opts ?a] rpc.fire_attempted [of b i opts ?a] by simp
    then show ?thesis
      unfolding g Let_def using res(2) by (simp add: Inr rpc_rejects_def settled_call_endpoints release_def split: list.split)
  qed
qed

definition only_spare :: "server \<Rightarrow> thrown + nat" where
  "only_spare s = (if sv_url s = ''http://spare'' then Inr 42 else Inl (PlainError ''down''))"

theorem withClient_outcome_witness:
  "snd (snd (withClient (rpc_fire default_breaker_options) (\<lambda>t q. (q, Inl (timeout_error q))) (\<lambda>q. q)
      only_spare (Some 10) (0, 10) 0 (new_pool example_pool) new_breaker)) = Inr 42"
  using withClient_outcome [of default_breaker_options "\<lambda>t q. (q, Inl (timeout_error q))" "\<lambda>q. q" only_spare "Some 10" "(0, 10)" 0
      "new_pool example_pool" new_breaker]
  by (simp add: new_pool_def example_pool_def new_breaker_def default_breaker_options_def only_spare_def getState_def
      new_server_def startsWith_def Let_def)

end
