(* ===== verification/Pagination.thy ===== *)
theory Pagination
  imports Http
begin

text \<open>
  The shared pagination utility, \<open>backend/src/lib/pagination.ts\<close>: parsing and clamping of the query
  parameters, the two response envelopes and the helpers for array-backed endpoints. A client that
  follows the pages is the function \<open>walk_offsets\<close> or \<open>walk_cursors\<close>; it runs on fuel and yields
  \<open>None\<close> when the fuel is used up.
\<close>

section \<open>Query parameters\<close>

text \<open>A query value as Express parses it: a string, an array or a nested object.\<close>

datatype qvalue = QStr string | QArr "qvalue list" | QObj

fun js_string :: "qvalue \<Rightarrow> string" where
  "js_string (QStr s) = s"
| "js_string (QArr vs) = join '','' (map js_string vs)"
| "js_string QObj = ''[object Object]''"

type_synonym query = "string \<Rightarrow> qvalue option"

record OffsetParams =
  op_limit :: int
  op_offset :: int

record CursorParams =
  cp_cursor :: string
  cp_limit :: int

record 'a PaginatedResult =
  pr_data :: "'a list"
  pr_limit :: int
  pr_offset :: int
  pr_total :: int
  pr_hasMore :: bool

record 'a CursorPaginatedResult =
  cr_data :: "'a list"
  cr_limit :: int
  cr_cursor :: string
  cr_nextCursor :: "string option"
  cr_hasMore :: bool

definition DEFAULT_PAGE_SIZE :: rat where "DEFAULT_PAGE_SIZE = 20"
definition MAX_PAGE_SIZE :: int where "MAX_PAGE_SIZE = 100"
definition MIN_OFFSET :: int where "MIN_OFFSET = 0"

definition clampLimit :: "rat \<Rightarrow> int" where
  "clampLimit value = min MAX_PAGE_SIZE (max 1 \<lfloor>value\<rfloor>)"

definition clampOffset :: "rat \<Rightarrow> int" where
  "clampOffset value = max MIN_OFFSET \<lfloor>value\<rfloor>"

text \<open>\<open>parseInt(String(query[k] ?? ''), 10)\<close> with its fallback for \<open>NaN\<close>.\<close>

definition query_number :: "query \<Rightarrow> string \<Rightarrow> rat \<Rightarrow> rat" where
  "query_number q k fallback =
     (case parseInt (case q k of Some v \<Rightarrow> js_string v | None \<Rightarrow> []) of
        Some n \<Rightarrow> of_int n
      | None \<Rightarrow> fallback)"

definition parseOffsetParams :: "query \<Rightarrow> rat option \<Rightarrow> rat option \<Rightarrow> OffsetParams" where
  "parseOffsetParams q dlimit doffset =
     \<lparr>op_limit = clampLimit (query_number q ''limit'' (or_default dlimit DEFAULT_PAGE_SIZE)),
      op_offset = clampOffset (query_number q ''offset'' (or_default doffset (of_int MIN_OFFSET)))\<rparr>"

definition parseCursorParams :: "query \<Rightarrow> rat option \<Rightarrow> string option \<Rightarrow> CursorParams" where
  "parseCursorParams q dlimit dcursor =
     \<lparr>cp_cursor = (case q ''cursor'' of
                     Some (QStr s) \<Rightarrow> if s \<noteq> [] then s else or_default dcursor ''0''
                   | _ \<Rightarrow> or_default dcursor ''0''),
      cp_limit = clampLimit (query_number q ''limit'' (or_default dlimit DEFAULT_PAGE_SIZE))\<rparr>"

section \<open>Envelopes\<close>

definition paginate :: "'a list \<Rightarrow> int \<Rightarrow> OffsetParams \<Rightarrow> 'a PaginatedResult" where
  "paginate data total_n params =
     (let safeTotal = max 0 total_n
      in \<lparr>pr_data = data, pr_limit = op_limit params, pr_offset = op_offset params, pr_total = safeTotal,
          pr_hasMore = (op_offset params + int (length data) < safeTotal)\<rparr>)"

definition computeHasMore :: "'a list \<Rightarrow> int \<Rightarrow> int option \<Rightarrow> bool" where
  "computeHasMore data limit total_n =
     (case total_n of
        Some _ \<Rightarrow> int (length data) > 0 \<and> int (length data) \<ge> limit
      | None \<Rightarrow> int (length data) \<ge> limit)"

text \<open>The outer option of \<open>nextCursor\<close> is \<open>undefined\<close>, the inner one \<open>null\<close>.\<close>

definition paginateCursor ::
  "'a list \<Rightarrow> CursorParams \<Rightarrow> int option \<Rightarrow> string option option \<Rightarrow> 'a CursorPaginatedResult" where
  "paginateCursor data params total_n nextCursor =
     (let hasMore = computeHasMore data (cp_limit params) total_n;
          resolved = (case nextCursor of
                        Some c \<Rightarrow> c
                      | None \<Rightarrow> if hasMore
                                then (case parseInt (cp_cursor params) of
                                        Some i \<Rightarrow> Some (string_of_int (i + cp_limit params))
                                      | None \<Rightarrow> None)
                                else None)
      in \<lparr>cr_data = data, cr_limit = cp_limit params, cr_cursor = cp_cursor params,
          cr_nextCursor = resolved, cr_hasMore = hasMore\<rparr>)"

definition paginateArray :: "'a list \<Rightarrow> OffsetParams \<Rightarrow> 'a PaginatedResult" where
  "paginateArray items params =
     (let total_n = int (length items);
          safeOffset = min (op_offset params) total_n;
          data = js_slice safeOffset (safeOffset + op_limit params) items
      in paginate data total_n \<lparr>op_limit = op_limit params, op_offset = safeOffset\<rparr>)"

definition paginateCursorArray :: "'a list \<Rightarrow> CursorParams \<Rightarrow> 'a CursorPaginatedResult" where
  "paginateCursorArray items params =
     (let startIndex = max 0 (or_default (parseInt (cp_cursor params)) 0);
          total_n = int (length items);
          safeStart = min startIndex total_n;
          data = js_slice safeStart (safeStart + cp_limit params) items;
          hasMore = (safeStart + int (length data) < total_n);
          nextCursor = (if hasMore then Some (string_of_int (safeStart + cp_limit params)) else None)
      in paginateCursor data \<lparr>cp_cursor = string_of_int safeStart, cp_limit = cp_limit params\<rparr>
           (Some total_n) (Some nextCursor))"

section \<open>Clients that follow the pages\<close>

fun walk_offsets :: "nat \<Rightarrow> 'a list \<Rightarrow> OffsetParams \<Rightarrow> 'a list option" where
  "walk_offsets 0 items params = None"
| "walk_offsets (Suc fuel) items params =
     (let page = paginateArray items params
      in if pr_hasMore page
         then map_option (append (pr_data page))
                (walk_offsets fuel items (params\<lparr>op_offset := pr_offset page + op_limit params\<rparr>))
         else Some (pr_data page))"

fun walk_cursors :: "nat \<Rightarrow> 'a list \<Rightarrow> CursorParams \<Rightarrow> 'a list option" where
  "walk_cursors 0 items params = None"
| "walk_cursors (Suc fuel) items params =
     (let page = paginateCursorArray items params
      in case cr_nextCursor page of
           Some c \<Rightarrow> map_option (append (cr_data page)) (walk_cursors fuel items (params\<lparr>cp_cursor := c\<rparr>))
         | None \<Rightarrow> Some (cr_data page))"

section \<open>Lemmas\<close>

lemma clampLimit_bounds: "1 \<le> clampLimit v" "clampLimit v \<le> 100"
  by (simp_all add: clampLimit_def MAX_PAGE_SIZE_def)

lemma clampLimit_id: "1 \<le> n \<Longrightarrow> n \<le> 100 \<Longrightarrow> clampLimit (of_int n) = n"
  by (simp add: clampLimit_def MAX_PAGE_SIZE_def)

lemma clampOffset_nonneg: "0 \<le> clampOffset v"
  by (simp add: clampOffset_def MIN_OFFSET_def)

lemma clampOffset_id: "0 \<le> n \<Longrightarrow> clampOffset (of_int n) = n"
  by (simp add: clampOffset_def MIN_OFFSET_def)

lemma query_number_int: "q k = Some (QStr (string_of_int n)) \<Longrightarrow> query_number q k d = of_int n"
  by (simp add: query_number_def parseInt_string_of_int)

lemma page_slice:
  assumes "0 \<le> limit"
  shows "js_slice (min (int o1) (int (length items))) (min (int o1) (int (length items)) + limit) items =
           slice o1 (o1 + nat limit) items"
proof (cases "o1 \<le> length items")
  case True
  with assms show ?thesis by (simp add: js_slice_nonneg nat_add_distrib)
next
  case False
  with assms show ?thesis by (simp add: js_slice_nonneg slice_def)
qed

lemma paginateArray_page:
  assumes "0 \<le> limit"
  shows "paginateArray items \<lparr>op_limit = limit, op_offset = int o1\<rparr> =
           \<lparr>pr_data = slice o1 (o1 + nat limit) items, pr_limit = limit,
            pr_offset = int (min o1 (length items)), pr_total = int (length items),
            pr_hasMore = (o1 + nat limit < length items)\<rparr>"
proof -
  have more: "(min (int o1) (int (length items)) + int (length (slice o1 (o1 + nat limit) items)) < int (length items)) =
      (o1 + nat limit < length items)"
    by (auto simp: length_slice min_def)
  show ?thesis
    by (simp add: paginateArray_def paginate_def Let_def page_slice [OF assms] more del: of_nat_min)
qed

lemma paginateCursorArray_page:
  assumes "1 \<le> limit"
  shows "paginateCursorArray items \<lparr>cp_cursor = string_of_int (int o1), cp_limit = limit\<rparr> =
           \<lparr>cr_data = slice o1 (o1 + nat limit) items, cr_limit = limit,
            cr_cursor = string_of_int (int (min o1 (length items))),
            cr_nextCursor = (if o1 + nat limit < length items then Some (string_of_int (int (o1 + nat limit))) else None),
            cr_hasMore = (o1 + nat limit \<le> length items)\<rparr>"
proof -
  have pos: "0 \<le> limit" using assms by simp
  have more: "(min (int o1) (int (length items)) + int (length (slice o1 (o1 + nat limit) items)) < int (length items)) =
      (o1 + nat limit < length items)"
    by (auto simp: length_slice min_def)
  have full: "(0 < int (length (slice o1 (o1 + nat limit) items)) \<and>
       limit \<le> int (length (slice o1 (o1 + nat limit) items))) = (o1 + nat limit \<le> length items)"
    using assms by (auto simp: length_slice min_def)
  have "o1 + nat limit < length items \<Longrightarrow> min (int o1) (int (length items)) + limit = int (o1 + nat limit)"
    using pos by simp
  then show ?thesis
    using full by (simp add: paginateCursorArray_def paginateCursor_def computeHasMore_def Let_def
        page_slice [OF pos] more parseInt_string_of_int of_nat_min del: length_greater_0_conv)
qed

lemma slice_rest: "slice i j xs @ drop j xs = drop i xs" if "i \<le> j"
  using that by (metis append_take_drop_id drop_drop le_add_diff_inverse2 slice_def)

lemma walk_cursors_from:
  assumes "1 \<le> limit" "length items - o1 < fuel"
  shows "walk_cursors fuel items \<lparr>cp_cursor = string_of_int (int o1), cp_limit = limit\<rparr> = Some (drop o1 items)"
  using assms(2)
proof (induction fuel arbitrary: o1)
  case (Suc fuel)
  show ?case
  proof (cases "o1 + nat limit < length items")
    case True
    then have "length items - (o1 + nat limit) < fuel" using Suc.prems assms(1) by linarith
    from Suc.IH [OF this] True assms(1) show ?thesis
      by (simp add: paginateCursorArray_page slice_rest)
  next
    case False
    then show ?thesis using assms(1) by (simp add: paginateCursorArray_page slice_def)
  qed
qed simp

lemma walk_offsets_from:
  assumes "1 \<le> limit" "length items - o1 < fuel"
  shows "walk_offsets fuel items \<lparr>op_limit = limit, op_offset = int o1\<rparr> = Some (drop o1 items)"
  using assms(2)
proof (induction fuel arbitrary: o1)
  case (Suc fuel)
  show ?case
  proof (cases "o1 + nat limit < length items")
    case True
    then have "length items - (o1 + nat limit) < fuel" using Suc.prems assms(1) by linarith
    moreover have "int (min o1 (length items)) + limit = int (o1 + nat limit)" using True assms(1) by simp
    ultimately show ?thesis
      using Suc.IH [of "o1 + nat limit"] True assms(1) by (simp add: paginateArray_page slice_rest)
  next
    case False
    then show ?thesis using assms(1) by (simp add: paginateArray_page slice_def)
  qed
qed simp

section \<open>Properties\<close>

text \<open>Whatever a client sends, the parsed parameters are usable: the limit is between 1 and 100 and the
  offset is not negative; and a number in range is taken as it is sent.\<close>

theorem parsed_params_in_range:
  "1 \<le> op_limit (parseOffsetParams q dl d) \<and> op_limit (parseOffsetParams q dl d) \<le> 100 \<and>
   0 \<le> op_offset (parseOffsetParams q dl d) \<and>
   1 \<le> cp_limit (parseCursorParams q dl dc) \<and> cp_limit (parseCursorParams q dl dc) \<le> 100 \<and>
   parseOffsetParams (q(''limit'' \<mapsto> QStr (string_of_int (int l mod 100 + 1)), ''offset'' \<mapsto> QStr (string_of_int (int k)))) dl d =
     \<lparr>op_limit = int l mod 100 + 1, op_offset = int k\<rparr>"
proof -
  have "1 \<le> int l mod 100 + 1" "int l mod 100 + 1 \<le> 100" by simp_all
  then have "clampLimit (of_int (int l mod 100 + 1)) = int l mod 100 + 1" by (rule clampLimit_id)
  moreover have "clampOffset (of_int (int k)) = int k" by (rule clampOffset_id) simp
  ultimately have "parseOffsetParams (q(''limit'' \<mapsto> QStr (string_of_int (int l mod 100 + 1)),
        ''offset'' \<mapsto> QStr (string_of_int (int k)))) dl d = \<lparr>op_limit = int l mod 100 + 1, op_offset = int k\<rparr>"
    using query_number_int [where n = "int l mod 100 + 1" and k = "''limit''"]
      query_number_int [where n = "int k" and k = "''offset''"]
    by (simp add: parseOffsetParams_def)
  then show ?thesis
    by (simp add: parseOffsetParams_def parseCursorParams_def clampLimit_bounds clampOffset_nonneg)
qed

text \<open>C23. Following the cursors enumerates the array. From the first cursor, a client that asks for the next
  page until \<open>nextCursor\<close> is null gets every item exactly once and in order, for every page size; the
  same holds for a client that advances the offset while \<open>hasMore\<close>. Both stop within one request more
  than there are items.\<close>

theorem pages_enumerate_array:
  assumes "1 \<le> limit"
  shows "walk_cursors (Suc (length items)) items \<lparr>cp_cursor = ''0'', cp_limit = limit\<rparr> = Some items \<and>
         walk_offsets (Suc (length items)) items \<lparr>op_limit = limit, op_offset = 0\<rparr> = Some items"
proof -
  have "string_of_int (int 0) = ''0''" by code_simp
  then show ?thesis
    using assms walk_cursors_from [of limit items 0 "Suc (length items)"]
      walk_offsets_from [of limit items 0 "Suc (length items)"] by simp
qed

theorem pages_enumerate_array_witness:
  "walk_cursors 6 [10, 20, 30, 40, 50 :: int] \<lparr>cp_cursor = ''0'', cp_limit = 2\<rparr> = Some [10, 20, 30, 40, 50] \<and>
   walk_offsets 6 [10, 20, 30, 40, 50 :: int] \<lparr>op_limit = 2, op_offset = 0\<rparr> = Some [10, 20, 30, 40, 50]"
  using pages_enumerate_array [of 2 "[10, 20, 30, 40, 50 :: int]"] by (simp add: eval_nat_numeral)

text \<open>The cursor envelope contradicts itself exactly when a page ends at the end of the array: there
  \<open>hasMore\<close> is true and \<open>nextCursor\<close> is null. On every other page the two agree.\<close>

theorem cursor_page_consistency:
  assumes "1 \<le> limit"
  shows "(cr_hasMore (paginateCursorArray items \<lparr>cp_cursor = string_of_int (int start), cp_limit = limit\<rparr>) \<noteq>
          (cr_nextCursor (paginateCursorArray items \<lparr>cp_cursor = string_of_int (int start), cp_limit = limit\<rparr>) \<noteq> None)) =
         (start + nat limit = length items)"
  using assms by (auto simp: paginateCursorArray_page)

theorem cursor_page_consistency_witness:
  "cr_hasMore (paginateCursorArray ''abcd'' \<lparr>cp_cursor = string_of_int (int 2), cp_limit = 2\<rparr>) \<noteq>
   (cr_nextCursor (paginateCursorArray ''abcd'' \<lparr>cp_cursor = string_of_int (int 2), cp_limit = 2\<rparr>) \<noteq> None)"
  using cursor_page_consistency [of 2 "''abcd''" 2] by simp

end
