(* ===== verification/Redis.thy ===== *)
theory Redis
  imports Prelude "HOL-Library.AList"
begin

text \<open>
  The Redis server that the tiered limiter and the pinning queue call. Redis is not part of the
  repository, so its commands are arguments of the models: the record \<open>redis_ops\<close> has one field per
  command the sources use, over an arbitrary type of server states. What Redis documents about these
  commands is the locale \<open>redis_server\<close>, stated through the contents of the sorted sets (member to
  score), hashes (field to value) and sets. Running a \<open>multi\<close> block is running its commands in order,
  and the time to live of a key set with \<open>PEXPIRE\<close> is not part of the view: the only key the
  development expires holds nothing but members that have left the window by then. The in-memory server
  at the end implements all laws and is the instance the witnesses evaluate.
\<close>

section \<open>Commands\<close>

record 'db redis_ops =
  zadd :: "'db \<Rightarrow> string \<Rightarrow> int \<Rightarrow> string \<Rightarrow> 'db"
  zremrangebyscore :: "'db \<Rightarrow> string \<Rightarrow> int \<Rightarrow> int \<Rightarrow> 'db"
  zcard :: "'db \<Rightarrow> string \<Rightarrow> nat"
  zrange_first :: "'db \<Rightarrow> string \<Rightarrow> (string \<times> int) option"
  zpopmin :: "'db \<Rightarrow> string \<Rightarrow> 'db \<times> (string \<times> int) option"
  pexpire :: "'db \<Rightarrow> string \<Rightarrow> int \<Rightarrow> 'db"
  hset :: "'db \<Rightarrow> string \<Rightarrow> (string \<times> string) list \<Rightarrow> 'db"
  hgetall :: "'db \<Rightarrow> string \<Rightarrow> (string \<times> string) list"
  sadd :: "'db \<Rightarrow> string \<Rightarrow> string \<Rightarrow> 'db"
  srem :: "'db \<Rightarrow> string \<Rightarrow> string \<Rightarrow> 'db"
  scard :: "'db \<Rightarrow> string \<Rightarrow> nat"
  hash_keys :: "'db \<Rightarrow> string \<Rightarrow> string list"
  rset :: "'db \<Rightarrow> string \<Rightarrow> string \<Rightarrow> 'db"
  rget :: "'db \<Rightarrow> string \<Rightarrow> string option"
  rdel :: "'db \<Rightarrow> string \<Rightarrow> 'db"
  rexpire :: "'db \<Rightarrow> string \<Rightarrow> int \<Rightarrow> 'db"
  str_keys :: "'db \<Rightarrow> string \<Rightarrow> string list"
  rincr :: "'db \<Rightarrow> string \<Rightarrow> 'db"

record 'db redis_view =
  zset_of :: "'db \<Rightarrow> string \<Rightarrow> string \<Rightarrow> int option"
  hash_of :: "'db \<Rightarrow> string \<Rightarrow> string \<Rightarrow> string option"
  set_of :: "'db \<Rightarrow> string \<Rightarrow> string set"
  str_of :: "'db \<Rightarrow> string \<Rightarrow> string option"

text \<open>Least member of a sorted set: by score, then in the order of the server, which is left open.\<close>

definition least_member :: "(string \<Rightarrow> int option) \<Rightarrow> string \<times> int \<Rightarrow> bool" where
  "least_member z e \<longleftrightarrow> z (fst e) = Some (snd e) \<and> (\<forall>m s. z m = Some s \<longrightarrow> snd e \<le> s)"

text \<open>\<open>INCR\<close> on an integer value; a missing key counts from 0.\<close>

definition incremented :: "string option \<Rightarrow> string" where
  "incremented v = string_of_int (or_default (Option.bind v parseInt) 0 + 1)"

section \<open>What Redis documents\<close>

locale redis_server =
  fixes ops :: "'db redis_ops" and view :: "'db redis_view"
  assumes zset_zadd: "zset_of view (zadd ops db k s m) = (zset_of view db)(k := (zset_of view db k)(m \<mapsto> s))"
    and zset_zrem: "zset_of view (zremrangebyscore ops db k lo hi) =
          (zset_of view db)(k := (\<lambda>m. case zset_of view db k m of
             Some s \<Rightarrow> if lo \<le> s \<and> s \<le> hi then None else Some s | None \<Rightarrow> None))"
    and zset_finite: "finite (dom (zset_of view db k))"
    and zcard_card: "zcard ops db k = card (dom (zset_of view db k))"
    and zrange_first_None: "zrange_first ops db k = None \<longleftrightarrow> zset_of view db k = Map.empty"
    and zrange_first_Some: "zrange_first ops db k = Some e \<Longrightarrow> least_member (zset_of view db k) e"
    and zset_pexpire: "zset_of view (pexpire ops db k ms) = zset_of view db"
    and zpopmin_first: "snd (zpopmin ops db k) = zrange_first ops db k"
    and zset_zpopmin: "zset_of view (fst (zpopmin ops db k)) =
          (zset_of view db)(k := (case zrange_first ops db k of
             Some e \<Rightarrow> (zset_of view db k)(fst e := None) | None \<Rightarrow> zset_of view db k))"
    and zset_frame: "zset_of view (hset ops db k fs) = zset_of view db"
          "zset_of view (sadd ops db k m) = zset_of view db" "zset_of view (srem ops db k m) = zset_of view db"
          "zset_of view (rset ops db k v) = zset_of view db" "zset_of view (rexpire ops db k i) = zset_of view db"
          "zset_of view (rdel ops db k) = (zset_of view db)(k := Map.empty)"
    and hash_hset: "hash_of view (hset ops db k fs) = (hash_of view db)(k := hash_of view db k ++ map_of fs)"
    and hash_hgetall: "map_of (hgetall ops db k) = hash_of view db k"
    and hash_frame: "hash_of view (zadd ops db k s m) = hash_of view db"
          "hash_of view (fst (zpopmin ops db k)) = hash_of view db"
          "hash_of view (sadd ops db k m) = hash_of view db" "hash_of view (srem ops db k m) = hash_of view db"
          "hash_of view (rset ops db k v) = hash_of view db" "hash_of view (rexpire ops db k i) = hash_of view db"
          "hash_of view (rdel ops db k) = (hash_of view db)(k := Map.empty)"
    and set_sadd: "set_of view (sadd ops db k m) = (set_of view db)(k := insert m (set_of view db k))"
    and set_srem: "set_of view (srem ops db k m) = (set_of view db)(k := set_of view db k - {m})"
    and set_scard: "scard ops db k = card (set_of view db k)"
    and set_frame: "set_of view (hset ops db k fs) = set_of view db"
          "set_of view (zadd ops db k s m) = set_of view db"
          "set_of view (fst (zpopmin ops db k)) = set_of view db"
          "set_of view (rset ops db k v) = set_of view db" "set_of view (rexpire ops db k i) = set_of view db"
          "set_of view (rdel ops db k) = (set_of view db)(k := {})"
    and str_rset: "str_of view (rset ops db k v) = (str_of view db)(k \<mapsto> v)"
    and str_rincr: "str_of view (rincr ops db k) = (str_of view db)(k \<mapsto> incremented (str_of view db k))"
    and str_rget: "rget ops db k = str_of view db k"
    and str_frame: "str_of view (rdel ops db k) = (str_of view db)(k := None)"
          "str_of view (hset ops db k fs) = str_of view db" "str_of view (zadd ops db k s m) = str_of view db"
          "str_of view (sadd ops db k m) = str_of view db" "str_of view (srem ops db k m) = str_of view db"
          "str_of view (fst (zpopmin ops db k)) = str_of view db" "str_of view (rexpire ops db k i) = str_of view db"
    and str_keys_set: "set (str_keys ops db p) = {k. startsWith k p \<and> str_of view db k \<noteq> None}"
    and str_keys_distinct: "distinct (str_keys ops db p)"
    and hash_keys_set: "set (hash_keys ops db p) = {k. startsWith k p \<and> hash_of view db k \<noteq> Map.empty}"
    and hash_keys_distinct: "distinct (hash_keys ops db p)"
begin

lemmas redis_laws = zset_zadd zset_zrem zset_pexpire zset_frame hash_hset hash_hgetall hash_frame
  set_sadd set_srem set_frame str_rset str_rincr str_rget str_frame

lemma hgetall_empty: "hgetall ops db k = [] \<longleftrightarrow> hash_of view db k = Map.empty"
  by (metis hash_hgetall map_of_eq_empty_iff)

end

section \<open>An in-memory server\<close>

record mem_db =
  mem_z :: "string \<Rightarrow> (string \<times> int) list"
  mem_h :: "(string \<times> (string \<times> string) list) list"
  mem_s :: "string \<Rightarrow> string list"
  mem_str :: "(string \<times> string) list"

definition z_entries :: "mem_db \<Rightarrow> string \<Rightarrow> (string \<times> int) list" where
  "z_entries db k = AList.clearjunk (mem_z db k)"

fun z_least :: "(string \<times> int) list \<Rightarrow> (string \<times> int) option" where
  "z_least [] = None"
| "z_least (e # z) = (case z_least z of None \<Rightarrow> Some e | Some e' \<Rightarrow> if snd e \<le> snd e' then Some e else Some e')"

definition h_fields :: "mem_db \<Rightarrow> string \<Rightarrow> (string \<times> string) list" where
  "h_fields db k = or_default (map_of (mem_h db) k) []"

definition mem_ops :: "mem_db redis_ops" where
  "mem_ops =
     \<lparr>zadd = (\<lambda>db k s m. db\<lparr>mem_z := (mem_z db)(k := (m, s) # mem_z db k)\<rparr>),
      zremrangebyscore = (\<lambda>db k lo hi.
        db\<lparr>mem_z := (mem_z db)(k := filter (\<lambda>e. \<not> (lo \<le> snd e \<and> snd e \<le> hi)) (z_entries db k))\<rparr>),
      zcard = (\<lambda>db k. length (z_entries db k)),
      zrange_first = (\<lambda>db k. z_least (z_entries db k)),
      zpopmin = (\<lambda>db k. case z_least (z_entries db k) of
                   Some e \<Rightarrow> (db\<lparr>mem_z := (mem_z db)(k := AList.delete (fst e) (mem_z db k))\<rparr>, Some e)
                 | None \<Rightarrow> (db, None)),
      pexpire = (\<lambda>db k ms. db),
      hset = (\<lambda>db k fs. db\<lparr>mem_h := (k, fs @ h_fields db k) # mem_h db\<rparr>),
      hgetall = h_fields,
      sadd = (\<lambda>db k m. db\<lparr>mem_s := (mem_s db)(k := m # mem_s db k)\<rparr>),
      srem = (\<lambda>db k m. db\<lparr>mem_s := (mem_s db)(k := filter (\<lambda>x. x \<noteq> m) (mem_s db k))\<rparr>),
      scard = (\<lambda>db k. card (set (mem_s db k))),
      hash_keys = (\<lambda>db p. filter (\<lambda>k. startsWith k p \<and> h_fields db k \<noteq> []) (remdups (map fst (mem_h db)))),
      rset = (\<lambda>db k v. db\<lparr>mem_str := (k, v) # mem_str db\<rparr>),
      rget = (\<lambda>db k. map_of (mem_str db) k),
      rdel = (\<lambda>db k. db\<lparr>mem_z := (mem_z db)(k := []), mem_h := AList.delete k (mem_h db),
                         mem_s := (mem_s db)(k := []), mem_str := AList.delete k (mem_str db)\<rparr>),
      rexpire = (\<lambda>db k i. db),
      str_keys = (\<lambda>db p. filter (\<lambda>k. startsWith k p) (remdups (map fst (mem_str db)))),
      rincr = (\<lambda>db k. db\<lparr>mem_str := (k, incremented (map_of (mem_str db) k)) # mem_str db\<rparr>)\<rparr>"

definition mem_view :: "mem_db redis_view" where
  "mem_view = \<lparr>zset_of = (\<lambda>db k. map_of (mem_z db k)), hash_of = (\<lambda>db k. map_of (h_fields db k)),
               set_of = (\<lambda>db k. set (mem_s db k)), str_of = (\<lambda>db. map_of (mem_str db))\<rparr>"

definition empty_db :: mem_db where
  "empty_db = \<lparr>mem_z = (\<lambda>_. []), mem_h = [], mem_s = (\<lambda>_. []), mem_str = []\<rparr>"

lemma map_of_z_entries [simp]: "map_of (z_entries db k) = map_of (mem_z db k)"
  by (simp add: z_entries_def map_of_clearjunk)

lemma distinct_z_entries [simp]: "distinct (map fst (z_entries db k))"
  by (simp add: z_entries_def)

lemma z_least_None: "z_least z = None \<longleftrightarrow> z = []"
  by (cases z) (auto split: option.split)

lemma z_least_Some: "z_least z = Some e \<Longrightarrow> e \<in> set z \<and> (\<forall>e' \<in> set z. snd e \<le> snd e')"
proof (induction z arbitrary: e)
  case (Cons a z)
  then show ?case by (cases "z_least z") (fastforce simp: z_least_None split: if_splits)+
qed simp

lemma z_least_least_member:
  assumes "z_least (z_entries db k) = Some e"
  shows "least_member (map_of (mem_z db k)) e"
proof -
  have e: "e \<in> set (z_entries db k)" "\<And>e'. e' \<in> set (z_entries db k) \<Longrightarrow> snd e \<le> snd e'"
    using z_least_Some [OF assms] by auto
  have "map_of (z_entries db k) (fst e) = Some (snd e)" using e(1) by (simp del: map_of_z_entries)
  moreover have "snd e \<le> s" if "map_of (z_entries db k) m = Some s" for m s
    using e(2) [of "(m, s)"] map_of_SomeD [OF that] by simp
  ultimately show ?thesis by (simp add: least_member_def)
qed

lemma map_of_filter_score:
  "distinct (map fst z) \<Longrightarrow>
     map_of (filter (\<lambda>e. \<not> p (snd e)) z) m = (case map_of z m of Some s \<Rightarrow> if p s then None else Some s | None \<Rightarrow> None)"
  by (induction z) (auto simp: map_of_eq_None_iff split: option.split)

lemma h_fields_keys: "h_fields db k \<noteq> [] \<Longrightarrow> k \<in> fst ` set (mem_h db)"
  by (metis h_fields_def map_of_eq_None_iff or_default.simps(1))

interpretation mem: redis_server mem_ops mem_view
proof unfold_locales
  fix db :: mem_db and k m p :: string and s lo hi ms :: int and fs :: "(string \<times> string) list" and e
  have dom_len: "card (dom (map_of z)) = length z" if "distinct (map fst z)" for z :: "(string \<times> int) list"
    using that distinct_card [of "map fst z"] by (simp add: dom_map_of_conv_image_fst)
  show "zset_of mem_view (zremrangebyscore mem_ops db k lo hi) =
      (zset_of mem_view db)(k := (\<lambda>m. case zset_of mem_view db k m of
             Some s \<Rightarrow> if lo \<le> s \<and> s \<le> hi then None else Some s | None \<Rightarrow> None))"
    using map_of_filter_score [of "z_entries db k" "\<lambda>s. lo \<le> s \<and> s \<le> hi"]
    by (auto simp: mem_view_def mem_ops_def fun_eq_iff)
  show "zcard mem_ops db k = card (dom (zset_of mem_view db k))"
    using dom_len [of "z_entries db k"] by (simp add: mem_view_def mem_ops_def)
  show "zrange_first mem_ops db k = None \<longleftrightarrow> zset_of mem_view db k = Map.empty"
    by (simp add: mem_view_def mem_ops_def z_least_None flip: map_of_z_entries)
  show "least_member (zset_of mem_view db k) e" if "zrange_first mem_ops db k = Some e"
    using that z_least_least_member [of db k e] by (simp add: mem_view_def mem_ops_def)
  show "set (hash_keys mem_ops db p) = {k. startsWith k p \<and> hash_of mem_view db k \<noteq> Map.empty}"
    using h_fields_keys by (auto simp: mem_view_def mem_ops_def)
  show "set (str_keys mem_ops db p) = {k. startsWith k p \<and> str_of mem_view db k \<noteq> None}"
    by (auto simp: mem_view_def mem_ops_def map_of_eq_None_iff)
qed (auto simp: mem_view_def mem_ops_def finite_dom_map_of delete_conv' h_fields_def fun_eq_iff map_add_def
       split: option.split)

end
