(* ===== verification/Tiered_Limiter.thy ===== *)
theory Tiered_Limiter
  imports Http Redis Sliding_Window
begin

text \<open>
  The tiered request limiter, \<open>backend/src/redis_rate_limiter.ts\<close>: the tier and endpoint-cost tables,
  the Lua script that keeps one sorted set of visits per key, \<open>checkWindow\<close>, the readers of the request,
  the middleware that \<open>createTieredRateLimiter\<close> returns and \<open>getQuotaUsage\<close>. Redis commands come from
  \<open>redis_ops\<close>; Lua runs atomically, so the script is one function of the server state. The random part
  of a member name and \<open>EVALSHA\<close> are arguments. A usage ratio is an exact rational; \<open>NaN\<close>, which a
  window of limit 0 gives, is \<open>None\<close> and compares false.
\<close>

section \<open>Configuration\<close>

record RateLimitWindow =
  win_windowMs :: int
  win_max :: int
  win_label :: string

record EndpointCost =
  ec_cost :: nat
  ec_category :: string

record WindowResult =
  wr_allowed :: bool
  wr_limit :: int
  wr_remaining :: int
  wr_resetAt :: int
  wr_retryAfter :: int
  wr_windowMs :: int

record QuotaUsage =
  qu_window :: string
  qu_windowMs :: int
  qu_limit :: int
  qu_used :: int
  qu_remaining :: int
  qu_resetAt :: int

type_synonym tier_table = "(string \<times> RateLimitWindow list) list"
type_synonym cost_table = "(string \<times> EndpointCost) list"

definition minute_and_hour :: "int \<Rightarrow> int \<Rightarrow> RateLimitWindow list" where
  "minute_and_hour per_minute per_hour =
     [\<lparr>win_windowMs = 60000, win_max = per_minute, win_label = ''1m''\<rparr>,
      \<lparr>win_windowMs = 3600000, win_max = per_hour, win_label = ''1h''\<rparr>]"

definition TIERS :: tier_table where
  "TIERS = [(''free'', minute_and_hour 30 500), (''pro'', minute_and_hour 300 10000),
            (''enterprise'', minute_and_hour 3000 100000), (''admin'', [])]"

definition DEFAULT_COST :: EndpointCost where
  "DEFAULT_COST = \<lparr>ec_cost = 1, ec_category = ''read''\<rparr>"

definition setEndpointCost :: "string \<Rightarrow> nat \<Rightarrow> string \<Rightarrow> cost_table \<Rightarrow> cost_table" where
  "setEndpointCost path cost category costs = AList.update path \<lparr>ec_cost = cost, ec_category = category\<rparr> costs"

definition configureTier :: "string \<Rightarrow> RateLimitWindow list \<Rightarrow> tier_table \<Rightarrow> tier_table" where
  "configureTier tier windows tiers = AList.update tier windows tiers"

definition getTierConfig :: "tier_table \<Rightarrow> string \<Rightarrow> RateLimitWindow list option" where
  "getTierConfig tiers tier = map_of tiers tier"

definition getConfiguredTiers :: "tier_table \<Rightarrow> string list" where
  "getConfiguredTiers tiers = map fst tiers"

section \<open>The Lua script\<close>

definition member_name :: "string \<Rightarrow> nat \<Rightarrow> string" where
  "member_name member i = member @ '':'' @ string_of_nat i"

primrec zadd_members :: "'db redis_ops \<Rightarrow> string \<Rightarrow> millis \<Rightarrow> string \<Rightarrow> nat \<Rightarrow> 'db \<Rightarrow> 'db" where
  "zadd_members ops key now member 0 db = db"
| "zadd_members ops key now member (Suc i) db =
     zadd ops (zadd_members ops key now member i db) key now (member_name member (Suc i))"

definition SCRIPT ::
  "'db redis_ops \<Rightarrow> string \<Rightarrow> millis \<Rightarrow> int \<Rightarrow> int \<Rightarrow> nat \<Rightarrow> string \<Rightarrow> 'db \<Rightarrow> 'db \<times> int \<times> int \<times> int" where
  "SCRIPT ops key now window_ms max_n cost member db =
     (let db1 = zremrangebyscore ops db key 0 (now - window_ms);
          count = int (zcard ops db1 key);
          remaining = max_n - count - int cost
      in if remaining \<ge> 0
         then (pexpire ops (zadd_members ops key now member cost db1) key window_ms, 1, remaining, now + window_ms)
         else (db1, 0, max 0 (max_n - count),
               (case zrange_first ops db1 key of Some e \<Rightarrow> snd e + window_ms | None \<Rightarrow> now + window_ms)))"

text \<open>The server state together with the cached hash of the script, the module variable \<open>scriptSha\<close>.\<close>

type_synonym 'db limiter_state = "string option \<times> 'db"

definition evalScript ::
  "'db redis_ops \<Rightarrow> (string \<Rightarrow> 'db \<Rightarrow> ('db \<times> int \<times> int \<times> int) option) \<Rightarrow> string \<Rightarrow> millis \<Rightarrow> int \<Rightarrow> int \<Rightarrow> nat \<Rightarrow>
   string \<Rightarrow> 'db limiter_state \<Rightarrow> 'db limiter_state \<times> int \<times> int \<times> int" where
  "evalScript ops evalsha key now window_ms max_n cost member st =
     (let fresh = (let (db', r) = SCRIPT ops key now window_ms max_n cost member (snd st) in ((None, db'), r))
      in case fst st of
           Some sha \<Rightarrow> (case evalsha sha (snd st) of Some (db', r) \<Rightarrow> ((Some sha, db'), r) | None \<Rightarrow> fresh)
         | None \<Rightarrow> fresh)"

definition checkWindow ::
  "'db redis_ops \<Rightarrow> (string \<Rightarrow> 'db \<Rightarrow> ('db \<times> int \<times> int \<times> int) option) \<Rightarrow> string \<Rightarrow> millis \<Rightarrow> int \<Rightarrow> int \<Rightarrow> nat \<Rightarrow>
   string \<Rightarrow> 'db limiter_state \<Rightarrow> 'db limiter_state \<times> WindowResult" where
  "checkWindow ops evalsha key now window_ms max_n cost memberId st =
     (let (st', allowed, remaining, resetAt) = evalScript ops evalsha key now window_ms max_n cost memberId st
      in (st', \<lparr>wr_allowed = (allowed = 1), wr_limit = max_n, wr_remaining = remaining, wr_resetAt = resetAt,
                wr_retryAfter = max 0 (ceil_div (resetAt - now) 1000), wr_windowMs = window_ms\<rparr>))"

section \<open>Reading the request\<close>

definition known_tier :: "tier_table \<Rightarrow> string option \<Rightarrow> bool" where
  "known_tier tiers t \<longleftrightarrow> truthy t \<and> map_of tiers (the t) \<noteq> None"

definition header_present :: "header option \<Rightarrow> bool" where
  "header_present h = (case h of Some (HStr s) \<Rightarrow> s \<noteq> [] | Some (HArr _) \<Rightarrow> True | None \<Rightarrow> False)"

definition extractTier :: "tier_table \<Rightarrow> request \<Rightarrow> string" where
  "extractTier tiers req =
     (if truthy (req_adminId req) then ''admin''
      else if known_tier tiers (req_apiKey_tier req) then the (req_apiKey_tier req)
      else if known_tier tiers (req_user_tier req) then the (req_user_tier req)
      else if header_present (req_headers req ''authorization'') then ''pro''
      else ''free'')"

definition tier_userId :: "request \<Rightarrow> string option" where
  "tier_userId req =
     js_or (req_userId req) (js_or (req_adminId req) (js_or (req_user_id req) (js_or (req_apiKey_userId req) None)))"

definition tier_ip :: "request \<Rightarrow> string" where
  "tier_ip req =
     (case req_headers req ''x-forwarded-for'' of
        Some (HStr f) \<Rightarrow> if trim f \<noteq> [] then trim (hd (split_on CHR '','' f))
                        else or_default (js_or (req_ip req) (js_or (req_socket_addr req) (Some ''unknown''))) ''unknown''
      | _ \<Rightarrow> or_default (js_or (req_ip req) (js_or (req_socket_addr req) (Some ''unknown''))) ''unknown'')"

definition part_matches :: "string \<Rightarrow> string \<Rightarrow> bool" where
  "part_matches pat part \<longleftrightarrow> startsWith pat '':'' \<or> pat = part"

definition pattern_matches :: "string \<Rightarrow> string \<Rightarrow> bool" where
  "pattern_matches pattern path \<longleftrightarrow>
     CHR '':'' \<in> set pattern \<and>
     length (split_on CHR ''/'' pattern) = length (split_on CHR ''/'' path) \<and>
     list_all2 part_matches (split_on CHR ''/'' pattern) (split_on CHR ''/'' path)"

definition matchEndpointCost :: "cost_table \<Rightarrow> string \<Rightarrow> EndpointCost" where
  "matchEndpointCost costs path =
     (case map_of costs path of
        Some c \<Rightarrow> c
      | None \<Rightarrow> (case find (\<lambda>e. pattern_matches (fst e) path) costs of Some e \<Rightarrow> snd e | None \<Rightarrow> DEFAULT_COST))"

section \<open>The middleware\<close>

definition usage :: "WindowResult \<Rightarrow> rat option" where
  "usage r = (if wr_limit r = 0 then None else Some (1 - of_int (wr_remaining r) / of_int (wr_limit r)))"

definition nan_less :: "rat option \<Rightarrow> rat option \<Rightarrow> bool" where
  "nan_less a b = (case (a, b) of (Some x, Some y) \<Rightarrow> x < y | _ \<Rightarrow> False)"

definition strictest_of :: "WindowResult list \<Rightarrow> WindowResult" where
  "strictest_of results =
     fold (\<lambda>r strictest. if nan_less (usage strictest) (usage r) then r else strictest) results (hd results)"

fun nan_max :: "rat option list \<Rightarrow> rat option" where
  "nan_max [] = None"
| "nan_max [u] = u"
| "nan_max (u # us) = (case (u, nan_max us) of (Some x, Some y) \<Rightarrow> Some (max x y) | _ \<Rightarrow> None)"

definition warning_level :: "rat option \<Rightarrow> string option" where
  "warning_level maxUsage =
     (case maxUsage of
        None \<Rightarrow> None
      | Some u \<Rightarrow> if u \<ge> 95 / 100 then Some ''critical'' else if u \<ge> 9 / 10 then Some ''severe''
                  else if u \<ge> 8 / 10 then Some ''warning'' else None)"

definition window_key :: "string \<Rightarrow> string \<Rightarrow> string \<Rightarrow> RateLimitWindow \<Rightarrow> string" where
  "window_key scope identifier tier w =
     ''ratelimit:'' @ scope @ '':'' @ identifier @ '':'' @ tier @ '':'' @ string_of_int (win_windowMs w)"

definition limit_key :: "tier_table \<Rightarrow> request \<Rightarrow> RateLimitWindow \<Rightarrow> string" where
  "limit_key tiers req =
     (let userId = tier_userId req; ip = tier_ip req;
          identifier = or_default (js_or userId (Some ip)) ip;
          scope = (if truthy userId then ''user'' else ''ip'')
      in window_key scope identifier (extractTier tiers req))"

definition request_member :: "millis \<Rightarrow> string \<Rightarrow> request \<Rightarrow> string" where
  "request_member now rnd req = string_of_int now @ '':'' @ rnd @ '':'' @ tier_ip req"

primrec check_windows ::
  "'db redis_ops \<Rightarrow> (string \<Rightarrow> 'db \<Rightarrow> ('db \<times> int \<times> int \<times> int) option) \<Rightarrow> (RateLimitWindow \<Rightarrow> string) \<Rightarrow> millis \<Rightarrow>
   nat \<Rightarrow> string \<Rightarrow> RateLimitWindow list \<Rightarrow> 'db limiter_state \<Rightarrow> 'db limiter_state \<times> WindowResult list" where
  "check_windows ops evalsha key_of now cost memberId [] st = (st, [])"
| "check_windows ops evalsha key_of now cost memberId (w # ws) st =
     (let (st1, r) = checkWindow ops evalsha (key_of w) now (win_windowMs w) (win_max w) cost memberId st;
          (st2, rs) = check_windows ops evalsha key_of now cost memberId ws st1
      in (st2, r # rs))"

definition window_headers :: "(WindowResult \<times> RateLimitWindow) list \<Rightarrow> response \<Rightarrow> response" where
  "window_headers results res =
     fold (\<lambda>(r, w) res.
             set_header (''X-RateLimit-Reset-'' @ win_label w) (string_of_int (ceil_div (wr_resetAt r) 1000))
               (set_header (''X-RateLimit-Remaining-'' @ win_label w) (string_of_int (wr_remaining r))
                 (set_header (''X-RateLimit-Limit-'' @ win_label w) (string_of_int (wr_limit r)) res)))
       results res"

definition summary_headers :: "WindowResult \<Rightarrow> string \<Rightarrow> nat \<Rightarrow> response \<Rightarrow> response" where
  "summary_headers strictest tier cost res =
     set_header ''X-RateLimit-Cost'' (string_of_nat cost)
       (set_header ''X-RateLimit-Tier'' tier
         (set_header ''X-RateLimit-Reset'' (string_of_int (ceil_div (wr_resetAt strictest) 1000))
           (set_header ''X-RateLimit-Remaining'' (string_of_int (wr_remaining strictest))
             (set_header ''X-RateLimit-Limit'' (string_of_int (wr_limit strictest)) res))))"

definition result_for :: "(WindowResult \<times> RateLimitWindow) list \<Rightarrow> RateLimitWindow \<Rightarrow> WindowResult" where
  "result_for results w = fst (the (find (\<lambda>x. win_label (snd x) = win_label w) results))"

definition refusal_body :: "WindowResult \<Rightarrow> string \<Rightarrow> (WindowResult \<times> RateLimitWindow) list \<Rightarrow> RateLimitWindow list \<Rightarrow> json" where
  "refusal_body strictest tier results windows =
     JObj [(''error'', JStr ''Too many requests''),
           (''message'', JStr (''Rate limit exceeded. Retry after '' @ string_of_int (wr_retryAfter strictest) @ '' seconds.'')),
           (''retryAfter'', JNum (wr_retryAfter strictest)),
           (''tier'', JStr tier),
           (''limits'', JArr (map (\<lambda>w. JObj [(''window'', JStr (win_label w)), (''limit'', JNum (win_max w)),
                                             (''remaining'', JNum (wr_remaining (result_for results w))),
                                             (''resetAt'', JNum (ceil_div (wr_resetAt (result_for results w)) 1000))]) windows))]"

definition tieredRateLimiter ::
  "'db redis_ops \<Rightarrow> (string \<Rightarrow> 'db \<Rightarrow> ('db \<times> int \<times> int \<times> int) option) \<Rightarrow> tier_table \<Rightarrow> cost_table \<Rightarrow> string \<Rightarrow> millis \<Rightarrow>
   request \<Rightarrow> 'db limiter_state \<Rightarrow> 'db limiter_state \<times> response" where
  "tieredRateLimiter ops evalsha tiers costs rnd now req st =
     (let tier = extractTier tiers req
      in case map_of tiers tier of
           None \<Rightarrow> (st, call_next fresh_response)
         | Some windows \<Rightarrow>
             if windows = [] then (st, call_next fresh_response)
             else
               (let cost = ec_cost (matchEndpointCost costs (req_path req));
                    memberId = request_member now rnd req;
                    (st', rs) = check_windows ops evalsha (limit_key tiers req) now cost memberId windows st;
                    results = zip rs windows;
                    strictest = strictest_of rs;
                    res1 = summary_headers strictest tier cost (window_headers results fresh_response);
                    res2 = (case warning_level (nan_max (map usage rs)) of
                              Some level \<Rightarrow> set_header ''X-RateLimit-Warning'' level res1 | None \<Rightarrow> res1)
                in if \<not> wr_allowed strictest
                   then (st', send_json 429 (refusal_body strictest tier results windows)
                           (set_header ''Retry-After'' (string_of_int (wr_retryAfter strictest)) res2))
                   else (st', call_next res2)))"

primrec quota_loop :: "'db redis_ops \<Rightarrow> string \<Rightarrow> string \<Rightarrow> millis \<Rightarrow> RateLimitWindow list \<Rightarrow> 'db \<Rightarrow> 'db \<times> QuotaUsage list" where
  "quota_loop ops userId tier now [] db = (db, [])"
| "quota_loop ops userId tier now (w # ws) db =
     (let key = window_key ''user'' userId tier w;
          db1 = zremrangebyscore ops db key 0 (now - win_windowMs w);
          count = int (zcard ops db1 key);
          (db2, us) = quota_loop ops userId tier now ws db1
      in (db2, \<lparr>qu_window = win_label w, qu_windowMs = win_windowMs w, qu_limit = win_max w, qu_used = count,
                qu_remaining = max 0 (win_max w - count), qu_resetAt = now + win_windowMs w\<rparr> # us))"

definition getQuotaUsage ::
  "'db redis_ops \<Rightarrow> tier_table \<Rightarrow> string \<Rightarrow> string \<Rightarrow> millis \<Rightarrow> 'db \<Rightarrow> 'db \<times> QuotaUsage list" where
  "getQuotaUsage ops tiers userId tier now db =
     (case map_of tiers tier of None \<Rightarrow> (db, []) | Some windows \<Rightarrow> quota_loop ops userId tier now windows db)"

section \<open>Runs of the script on one key\<close>

text \<open>A visit is its time, its cost and its member name; the log holds the admitted ones.\<close>

type_synonym script_visit = "millis \<times> nat \<times> string"

definition visit_script ::
  "'db redis_ops \<Rightarrow> string \<Rightarrow> int \<Rightarrow> int \<Rightarrow> script_visit \<Rightarrow> 'db \<Rightarrow> 'db \<times> int \<times> int \<times> int" where
  "visit_script ops key w max_n v = SCRIPT ops key (fst v) w max_n (fst (snd v)) (snd (snd v))"

primrec script_run :: "'db redis_ops \<Rightarrow> string \<Rightarrow> int \<Rightarrow> int \<Rightarrow> script_visit list \<Rightarrow> 'db \<Rightarrow> 'db" where
  "script_run ops key w max_n [] db = db"
| "script_run ops key w max_n (v # vs) db = script_run ops key w max_n vs (fst (visit_script ops key w max_n v db))"

primrec script_log :: "'db redis_ops \<Rightarrow> string \<Rightarrow> int \<Rightarrow> int \<Rightarrow> script_visit list \<Rightarrow> 'db \<Rightarrow> (millis \<times> nat) list" where
  "script_log ops key w max_n [] db = []"
| "script_log ops key w max_n (v # vs) db =
     (if fst (snd (visit_script ops key w max_n v db)) = 1 then [(fst v, fst (snd v))] else []) @
     script_log ops key w max_n vs (fst (visit_script ops key w max_n v db))"

definition cost_in :: "(millis \<Rightarrow> bool) \<Rightarrow> (millis \<times> nat) list \<Rightarrow> nat" where
  "cost_in p vs = sum_list (map snd (filter (\<lambda>e. p (fst e)) vs))"

text \<open>The members of a sorted set whose score is after a cutoff.\<close>

definition live_members :: "(string \<Rightarrow> int option) \<Rightarrow> int \<Rightarrow> string set" where
  "live_members z cutoff = {m. \<exists>s. z m = Some s \<and> cutoff < s}"

definition nonneg_scores :: "(string \<Rightarrow> int option) \<Rightarrow> bool" where
  "nonneg_scores z \<longleftrightarrow> (\<forall>m s. z m = Some s \<longrightarrow> 0 \<le> s)"

section \<open>Lemmas on the script\<close>

lemma script_run_append: "script_run ops k w n (vs @ vs') db = script_run ops k w n vs' (script_run ops k w n vs db)"
  by (induction vs arbitrary: db) simp_all

lemma script_log_append:
  "script_log ops k w n (vs @ vs') db = script_log ops k w n vs db @ script_log ops k w n vs' (script_run ops k w n vs db)"
  by (induction vs arbitrary: db) simp_all

lemma cost_in_append [simp]: "cost_in p (vs @ vs') = cost_in p vs + cost_in p vs'"
  by (simp add: cost_in_def)

lemma cost_in_Nil [simp]: "cost_in p [] = 0"
  by (simp add: cost_in_def)

lemma cost_in_single [simp]: "cost_in p [e] = (if p (fst e) then snd e else 0)"
  by (simp add: cost_in_def)

lemma cost_in_mono: "(\<And>t. t \<in> fst ` set vs \<Longrightarrow> p t \<Longrightarrow> q t) \<Longrightarrow> cost_in p vs \<le> cost_in q vs"
proof (induction vs)
  case (Cons e vs)
  then have "cost_in p vs \<le> cost_in q vs" "p (fst e) \<Longrightarrow> q (fst e)" by simp_all
  then show ?case by (simp add: cost_in_def)
qed simp

lemma script_log_times: "fst ` set (script_log ops k w n vs db) \<subseteq> fst ` set vs"
  by (induction vs arbitrary: db) auto

lemma member_name_inject [simp]: "member_name a i = member_name b j \<longleftrightarrow> a = b \<and> i = j"
proof
  assume eq: "member_name a i = member_name b j"
  have digits: "\<forall>c \<in> set (string_of_nat n). c \<noteq> CHR '':''" for n
    using string_of_nat_digits by (fastforce simp: is_digit_def)
  have tw: "takeWhile (\<lambda>c. c \<noteq> CHR '':'') (rev (member_name m n)) = rev (string_of_nat n)" for m n
    using digits [of n] by (simp add: member_name_def takeWhile_tail)
  have "rev (string_of_nat i) = rev (string_of_nat j)" using tw [of a i] tw [of b j] eq by simp
  then have "i = j" by simp
  with eq show "a = b \<and> i = j" by (simp add: member_name_def)
qed simp

definition new_members :: "string \<Rightarrow> nat \<Rightarrow> string set" where
  "new_members member n = member_name member ` {1..n}"

lemma card_new_members [simp]: "card (new_members member n) = n"
  by (simp add: new_members_def card_image inj_on_def)

lemma finite_new_members [simp]: "finite (new_members member n)"
  by (simp add: new_members_def)

lemma new_members_Suc: "new_members member (Suc n) = insert (member_name member (Suc n)) (new_members member n)"
  by (auto simp: new_members_def atLeastAtMostSuc_conv)

lemma new_members_disjoint: "a \<noteq> b \<Longrightarrow> new_members a n \<inter> new_members b m = {}"
  by (auto simp: new_members_def)

lemma live_override:
  fixes x now w :: int
  assumes "N \<inter> dom z = {}" "now \<le> x"
  shows "live_members (\<lambda>m. if a \<and> m \<in> N then Some now else if m \<in> live_members z (now - w) then z m else None) (x - w) =
           live_members z (x - w) \<union> (if a \<and> x - w < now then N else {})"
proof (rule set_eqI)
  fix m
  show "m \<in> live_members (\<lambda>m. if a \<and> m \<in> N then Some now else if m \<in> live_members z (now - w) then z m else None) (x - w) \<longleftrightarrow>
      m \<in> live_members z (x - w) \<union> (if a \<and> x - w < now then N else {})"
    using assms by (cases "m \<in> N"; cases "z m") (auto simp: live_members_def)
qed

context redis_server
begin

lemma zset_zadd_members:
  "zset_of view (zadd_members ops k now member n db) =
     (zset_of view db)(k := (\<lambda>m. if m \<in> new_members member n then Some now else zset_of view db k m))"
proof (induction n)
  case (Suc n)
  then show ?case by (auto simp: zset_zadd new_members_Suc fun_eq_iff)
qed (simp add: new_members_def)

lemma pruned_zset:
  assumes "nonneg_scores (zset_of view db k)"
  shows "zset_of view (zremrangebyscore ops db k 0 c) k =
           (\<lambda>m. if m \<in> live_members (zset_of view db k) c then zset_of view db k m else None)"
  using assms by (auto simp: zset_zrem live_members_def nonneg_scores_def fun_eq_iff split: option.split)

lemma pruned_card:
  assumes "nonneg_scores (zset_of view db k)"
  shows "zcard ops (zremrangebyscore ops db k 0 c) k = card (live_members (zset_of view db k) c)"
proof -
  have "dom (zset_of view (zremrangebyscore ops db k 0 c) k) = live_members (zset_of view db k) c"
    unfolding pruned_zset [OF assms] by (auto simp: live_members_def dom_def)
  then show ?thesis by (simp add: zcard_card)
qed

lemma finite_live: "finite (live_members (zset_of view db k) c)"
  using zset_finite [of db k] by (rule finite_subset [rotated]) (auto simp: live_members_def)

lemma SCRIPT_answer:
  assumes "nonneg_scores (zset_of view db k)"
  shows "fst (snd (SCRIPT ops k now w n cost member db)) =
           (if int (card (live_members (zset_of view db k) (now - w))) + int cost \<le> n then 1 else 0)"
    and "fst (snd (snd (SCRIPT ops k now w n cost member db))) =
           (if int (card (live_members (zset_of view db k) (now - w))) + int cost \<le> n
            then n - int (card (live_members (zset_of view db k) (now - w))) - int cost
            else max 0 (n - int (card (live_members (zset_of view db k) (now - w)))))"
  using assms by (auto simp: SCRIPT_def Let_def pruned_card)

lemma SCRIPT_zset:
  assumes "nonneg_scores (zset_of view db k)"
  shows "zset_of view (fst (SCRIPT ops k now w n cost member db)) k =
           (\<lambda>m. if int (card (live_members (zset_of view db k) (now - w))) + int cost \<le> n \<and> m \<in> new_members member cost
                then Some now
                else if m \<in> live_members (zset_of view db k) (now - w) then zset_of view db k m else None)"
  using assms by (auto simp: SCRIPT_def Let_def pruned_card pruned_zset zset_pexpire zset_zadd_members fun_eq_iff)

lemma SCRIPT_other:
  "k' \<noteq> k \<Longrightarrow> zset_of view (fst (SCRIPT ops k now w n cost member db)) k' = zset_of view db k'"
  by (simp add: SCRIPT_def Let_def zset_pexpire zset_zadd_members zset_zrem)

lemma live_after_script:
  assumes "nonneg_scores (zset_of view db k)" "new_members member cost \<inter> dom (zset_of view db k) = {}" "now \<le> x"
  shows "card (live_members (zset_of view (fst (SCRIPT ops k now w n cost member db)) k) (x - w)) =
           card (live_members (zset_of view db k) (x - w)) +
           (if int (card (live_members (zset_of view db k) (now - w))) + int cost \<le> n \<and> x - w < now then cost else 0)"
proof -
  let ?z = "zset_of view db k" and ?z' = "zset_of view (fst (SCRIPT ops k now w n cost member db)) k"
  let ?new = "if int (card (live_members ?z (now - w))) + int cost \<le> n \<and> x - w < now then new_members member cost else {}"
  have "live_members ?z' (x - w) = live_members ?z (x - w) \<union> ?new"
    using live_override [OF assms(2,3)] unfolding SCRIPT_zset [OF assms(1)] by simp
  moreover have "live_members ?z (x - w) \<inter> ?new = {}"
    using assms(2) by (auto simp: live_members_def dom_def)
  ultimately show ?thesis by (simp add: card_Un_disjoint finite_live)
qed

text \<open>What holds of the sorted set after a run that started on an empty one.\<close>

lemma script_run_inv:
  assumes "zset_of view db k = Map.empty" "sorted (map fst vs)" "\<forall>v \<in> set vs. 0 \<le> fst v" "distinct (map (\<lambda>v. snd (snd v)) vs)"
  shows "nonneg_scores (zset_of view (script_run ops k w n vs db) k)" (is "?A vs")
    and "dom (zset_of view (script_run ops k w n vs db) k) \<subseteq> (\<Union>v \<in> set vs. new_members (snd (snd v)) (fst (snd v)))" (is "?B vs")
    and "\<forall>v \<in> set vs. fst v \<le> x \<Longrightarrow>
           card (live_members (zset_of view (script_run ops k w n vs db) k) (x - w)) =
           cost_in (\<lambda>t. x - w < t) (script_log ops k w n vs db)" (is "_ \<Longrightarrow> ?C vs")
proof -
  have "?A vs \<and> ?B vs \<and> ((\<forall>v \<in> set vs. fst v \<le> x) \<longrightarrow> ?C vs)"
    using assms(2-)
  proof (induction vs rule: rev_induct)
    case Nil
    with assms(1) show ?case by (simp add: nonneg_scores_def live_members_def)
  next
    case (snoc v vs)
    obtain now cost member where v: "v = (now, cost, member)" by (cases v)
    let ?db = "script_run ops k w n vs db"
    have IH: "?A vs" "?B vs" "(\<forall>v \<in> set vs. fst v \<le> x) \<longrightarrow> ?C vs"
      using snoc.IH snoc.prems by (auto simp: sorted_append)
    have "new_members member cost \<inter> new_members (snd (snd u)) (fst (snd u)) = {}" if "u \<in> set vs" for u
      using snoc.prems(3) v that by (intro new_members_disjoint) auto
    then have fresh: "new_members member cost \<inter> dom (zset_of view ?db k) = {}"
      using IH(2) by blast
    have "?A (vs @ [v])"
      using IH(1) snoc.prems(2) v unfolding script_run_append
      by (auto simp: nonneg_scores_def visit_script_def SCRIPT_zset [OF IH(1)] split: if_splits)
    moreover have "?B (vs @ [v])"
      using IH(2) v unfolding script_run_append
      by (auto simp: visit_script_def SCRIPT_zset [OF IH(1)] dom_def split: if_splits)
    moreover have "?C (vs @ [v])" if "\<forall>u \<in> set (vs @ [v]). fst u \<le> x"
      using IH(3) that v live_after_script [OF IH(1) fresh, of now x w n] SCRIPT_answer(1) [OF IH(1), of now w n cost member]
      by (auto simp: script_run_append script_log_append visit_script_def)
    ultimately show ?case by blast
  qed
  then show "?A vs" "?B vs" "\<forall>v \<in> set vs. fst v \<le> x \<Longrightarrow> ?C vs" by blast+
qed

lemma script_window_cost:
  assumes "zset_of view db k = Map.empty" "sorted (map fst vs)" "\<forall>v \<in> set vs. 0 \<le> fst v"
    and "distinct (map (\<lambda>v. snd (snd v)) vs)" "0 \<le> n"
  shows "int (cost_in (in_window w x) (script_log ops k w n vs db)) \<le> n"
  using assms(2-4)
proof (induction vs rule: rev_induct)
  case Nil
  with assms(5) show ?case by simp
next
  case (snoc v vs)
  obtain now cost member where v: "v = (now, cost, member)" by (cases v)
  let ?db = "script_run ops k w n vs db" and ?log = "script_log ops k w n vs db"
  have hyps: "sorted (map fst vs)" "\<forall>v \<in> set vs. 0 \<le> fst v" "distinct (map (\<lambda>v. snd (snd v)) vs)"
    and le: "\<forall>u \<in> set vs. fst u \<le> now"
    using snoc.prems v by (auto simp: sorted_append)
  have IH: "int (cost_in (in_window w x) ?log) \<le> n" using snoc.IH hyps by blast
  have nonneg: "nonneg_scores (zset_of view ?db k)" by (rule script_run_inv(1) [OF assms(1) hyps])
  have count: "card (live_members (zset_of view ?db k) (now - w)) = cost_in (\<lambda>t. now - w < t) ?log"
    by (rule script_run_inv(3) [OF assms(1) hyps le])
  show ?case
  proof (cases "int (cost_in (\<lambda>t. now - w < t) ?log) + int cost \<le> n \<and> in_window w x now")
    case True
    have "cost_in (in_window w x) ?log \<le> cost_in (\<lambda>t. now - w < t) ?log"
      using True by (intro cost_in_mono) (auto simp: in_window_def)
    with True show ?thesis
      by (simp add: v script_log_append visit_script_def SCRIPT_answer(1) [OF nonneg] count)
  next
    case False
    with IH show ?thesis
      by (auto simp: v script_log_append visit_script_def SCRIPT_answer(1) [OF nonneg] count)
  qed
qed

lemma evalScript_cold:
  "evalScript ops evalsha k now w n cost member (None, db) =
     ((None, fst (SCRIPT ops k now w n cost member db)), snd (SCRIPT ops k now w n cost member db))"
  by (simp add: evalScript_def case_prod_beta Let_def)

text \<open>The window decides by the number of members that are still inside it.\<close>

lemma checkWindow_cold:
  fixes now w n :: int
  assumes "nonneg_scores (zset_of view db k)"
  defines "c \<equiv> int (card (live_members (zset_of view db k) (now - w)))"
  shows "fst (checkWindow ops evalsha k now w n cost member (None, db)) = (None, fst (SCRIPT ops k now w n cost member db))"
    and "wr_allowed (snd (checkWindow ops evalsha k now w n cost member (None, db))) = (c + int cost \<le> n)"
    and "wr_remaining (snd (checkWindow ops evalsha k now w n cost member (None, db))) =
           (if c + int cost \<le> n then n - c - int cost else max 0 (n - c))"
    and "wr_limit (snd (checkWindow ops evalsha k now w n cost member (None, db))) = n"
  using SCRIPT_answer [OF assms(1), of now w n cost member]
  by (simp_all add: checkWindow_def evalScript_cold case_prod_beta c_def)

end

section \<open>Lemmas on the middleware\<close>

lemma limit_key_inject: "limit_key tiers req w1 = limit_key tiers req w2 \<longleftrightarrow> win_windowMs w1 = win_windowMs w2"
  by (simp add: limit_key_def window_key_def Let_def)

lemma strictest_two: "strictest_of [r1, r2] = (if nan_less (usage r1) (usage r2) then r2 else r1)"
  by (simp add: strictest_of_def nan_less_def split: option.split)

lemma summary_headers_next [simp]:
  "res_next (summary_headers s tier c r) = res_next r" "res_status (summary_headers s tier c r) = res_status r"
  by (simp_all add: summary_headers_def)

lemma window_headers_next [simp]:
  "res_next (window_headers rs r) = res_next r" "res_status (window_headers rs r) = res_status r"
proof -
  have "res_next (window_headers rs r) = res_next r \<and> res_status (window_headers rs r) = res_status r"
    unfolding window_headers_def by (induction rs arbitrary: r) (simp_all add: case_prod_beta)
  then show "res_next (window_headers rs r) = res_next r" "res_status (window_headers rs r) = res_status r" by simp_all
qed

lemma tieredRateLimiter_decides:
  assumes "map_of tiers (extractTier tiers req) = Some windows" "windows \<noteq> []"
    and "snd (check_windows ops evalsha (limit_key tiers req) now (ec_cost (matchEndpointCost costs (req_path req)))
               (request_member now rnd req) windows st) = rs"
  shows "res_next (snd (tieredRateLimiter ops evalsha tiers costs rnd now req st)) = wr_allowed (strictest_of rs)"
    and "res_status (snd (tieredRateLimiter ops evalsha tiers costs rnd now req st)) =
           (if wr_allowed (strictest_of rs) then None else Some 429)"
  using assms by (auto simp: tieredRateLimiter_def Let_def case_prod_beta split: option.split)

text \<open>Two windows with limits \<open>m1\<close>, \<open>m2\<close>, of which \<open>c1\<close>, \<open>c2\<close> are used, and a request of cost 1.\<close>

lemma strictest_two_decision:
  assumes "0 < m1" "0 < m2" "0 \<le> c1" "0 \<le> c2"
    and "wr_allowed r1 = (c1 + 1 \<le> m1)" "wr_remaining r1 = (if c1 + 1 \<le> m1 then m1 - c1 - 1 else max 0 (m1 - c1))"
    and "wr_allowed r2 = (c2 + 1 \<le> m2)" "wr_remaining r2 = (if c2 + 1 \<le> m2 then m2 - c2 - 1 else max 0 (m2 - c2))"
    and "wr_limit r1 = m1" "wr_limit r2 = m2"
  shows "wr_allowed (strictest_of [r1, r2]) = ((c1 < m1 \<and> c2 < m2) \<or> (c1 = m1 - 1 \<and> m2 \<le> c2))"
proof -
  have less: "nan_less (usage r1) (usage r2) =
      ((of_int (wr_remaining r2) :: rat) / of_int m2 < of_int (wr_remaining r1) / of_int m1)"
    using assms by (simp add: nan_less_def usage_def)
  consider "c1 < m1" "c2 < m2" | "m1 \<le> c1" | "c1 < m1" "m2 \<le> c2" by linarith
  then show ?thesis
  proof cases
    case 2
    then have "wr_remaining r1 = 0" "0 \<le> wr_remaining r2" using assms by auto
    then have "\<not> nan_less (usage r1) (usage r2)"
      using less assms(2) by (simp add: not_less)
    with 2 assms show ?thesis by (simp add: strictest_two)
  next
    case 3
    then have "wr_remaining r2 = 0" "wr_remaining r1 = m1 - c1 - 1" using assms by auto
    then have "nan_less (usage r1) (usage r2) = (c1 + 1 < m1)" using less assms(1) 3 by (auto simp: zero_less_divide_iff)
    with 3 assms show ?thesis by (auto simp: strictest_two)
  qed (use assms in \<open>auto simp: strictest_two\<close>)
qed

context redis_server
begin

lemma two_windows_decision:
  fixes now :: int
  assumes "map_of tiers (extractTier tiers req) = Some [w1, w2]"
    and "win_windowMs w1 \<noteq> win_windowMs w2" "0 < win_max w1" "0 < win_max w2"
    and "ec_cost (matchEndpointCost costs (req_path req)) = 1"
    and "nonneg_scores (zset_of view db (limit_key tiers req w1))" "nonneg_scores (zset_of view db (limit_key tiers req w2))"
  defines "c1 \<equiv> int (card (live_members (zset_of view db (limit_key tiers req w1)) (now - win_windowMs w1)))"
    and "c2 \<equiv> int (card (live_members (zset_of view db (limit_key tiers req w2)) (now - win_windowMs w2)))"
  shows "res_next (snd (tieredRateLimiter ops evalsha tiers costs rnd now req (None, db))) =
           ((c1 < win_max w1 \<and> c2 < win_max w2) \<or> (c1 = win_max w1 - 1 \<and> win_max w2 \<le> c2))"
    and "res_status (snd (tieredRateLimiter ops evalsha tiers costs rnd now req (None, db))) =
           (if (c1 < win_max w1 \<and> c2 < win_max w2) \<or> (c1 = win_max w1 - 1 \<and> win_max w2 \<le> c2) then None else Some 429)"
proof -
  let ?m = "request_member now rnd req"
  define db1 where "db1 = fst (SCRIPT ops (limit_key tiers req w1) now (win_windowMs w1) (win_max w1) 1 ?m db)"
  let ?r1 = "checkWindow ops evalsha (limit_key tiers req w1) now (win_windowMs w1) (win_max w1) 1 ?m (None, db)"
  let ?r2 = "checkWindow ops evalsha (limit_key tiers req w2) now (win_windowMs w2) (win_max w2) 1 ?m (None, db1)"
  have keys: "limit_key tiers req w2 \<noteq> limit_key tiers req w1" using assms(2) by (simp add: limit_key_inject)
  have z2: "zset_of view db1 (limit_key tiers req w2) = zset_of view db (limit_key tiers req w2)"
    unfolding db1_def by (rule SCRIPT_other [OF keys])
  have rs: "snd (check_windows ops evalsha (limit_key tiers req) now (ec_cost (matchEndpointCost costs (req_path req)))
      ?m [w1, w2] (None, db)) = [snd ?r1, snd ?r2]"
    using assms(5) checkWindow_cold(1) [OF assms(6)] by (simp add: case_prod_beta Let_def db1_def)
  have nn2: "nonneg_scores (zset_of view db1 (limit_key tiers req w2))" using assms(7) z2 by simp
  have "wr_allowed (strictest_of [snd ?r1, snd ?r2]) =
      ((c1 < win_max w1 \<and> c2 < win_max w2) \<or> (c1 = win_max w1 - 1 \<and> win_max w2 \<le> c2))"
    using assms(3,4) by (intro strictest_two_decision)
      (simp_all add: checkWindow_cold(2-4) [OF assms(6)] checkWindow_cold(2-4) [OF nn2] c1_def c2_def z2)
  then show "res_next (snd (tieredRateLimiter ops evalsha tiers costs rnd now req (None, db))) =
           ((c1 < win_max w1 \<and> c2 < win_max w2) \<or> (c1 = win_max w1 - 1 \<and> win_max w2 \<le> c2))"
    "res_status (snd (tieredRateLimiter ops evalsha tiers costs rnd now req (None, db))) =
           (if (c1 < win_max w1 \<and> c2 < win_max w2) \<or> (c1 = win_max w1 - 1 \<and> win_max w2 \<le> c2) then None else Some 429)"
    using tieredRateLimiter_decides [OF assms(1) _ rs] by simp_all
qed

end

section \<open>Properties\<close>

text \<open>C24. One window never admits more than its limit. For every sequence of visits to a key with a clock that
  does not go back and distinct member names, on a server that behaves as Redis documents, the costs of
  the visits the script admits in any interval of the window length add up to at most the limit.\<close>

theorem script_respects_limit:
  assumes "redis_server ops view" "zset_of view db key = Map.empty" "sorted (map fst vs)"
    and "\<forall>v \<in> set vs. 0 \<le> fst v" "distinct (map (\<lambda>v. snd (snd v)) vs)" "0 \<le> limit"
  shows "int (cost_in (in_window w x) (script_log ops key w limit vs db)) \<le> limit"
  using assms by (rule redis_server.script_window_cost)

theorem script_respects_limit_witness:
  "int (cost_in (in_window 60000 50) (script_log mem_ops ''k'' 60000 5
      [(0, 3, ''a''), (10, 3, ''b''), (20, 2, ''c''), (30, 1, ''d'')] empty_db)) \<le> 5 \<and>
   script_log mem_ops ''k'' 60000 5
      [(0, 3, ''a''), (10, 3, ''b''), (20, 2, ''c''), (30, 1, ''d'')] empty_db = [(0, 3), (20, 2)]"
proof -
  have "int (cost_in (in_window 60000 50) (script_log mem_ops ''k'' 60000 5
      [(0, 3, ''a''), (10, 3, ''b''), (20, 2, ''c''), (30, 1, ''d'')] empty_db)) \<le> 5"
    by (rule script_respects_limit [OF mem.redis_server_axioms]) (simp_all add: mem_view_def empty_db_def)
  moreover have "script_log mem_ops ''k'' 60000 5
      [(0, 3, ''a''), (10, 3, ''b''), (20, 2, ''c''), (30, 1, ''d'')] empty_db = [(0, 3), (20, 2)]"
    by code_simp
  ultimately show ?thesis by blast
qed

text \<open>What the middleware decides for a tier with two windows and a request of cost 1. With \<open>c1\<close> and \<open>c2\<close>
  visits already inside the windows, the request passes if both windows have room, and also when the
  second window is exhausted but the request takes exactly the last place of the first: the window of
  highest usage is the first one then, and it allows. In every other case the answer is 429. So an
  exhausted hourly quota still lets through the request that fills each minute.\<close>

theorem two_window_tier_decision:
  fixes now :: int
  assumes "redis_server ops view" "map_of tiers (extractTier tiers req) = Some [w1, w2]"
    and "win_windowMs w1 \<noteq> win_windowMs w2" "0 < win_max w1" "0 < win_max w2"
    and "ec_cost (matchEndpointCost costs (req_path req)) = 1"
    and "nonneg_scores (zset_of view db (limit_key tiers req w1))" "nonneg_scores (zset_of view db (limit_key tiers req w2))"
    and "int (card (live_members (zset_of view db (limit_key tiers req w1)) (now - win_windowMs w1))) = c1"
    and "int (card (live_members (zset_of view db (limit_key tiers req w2)) (now - win_windowMs w2))) = c2"
  shows "res_next (snd (tieredRateLimiter ops evalsha tiers costs rnd now req (None, db))) =
           ((c1 < win_max w1 \<and> c2 < win_max w2) \<or> (c1 = win_max w1 - 1 \<and> win_max w2 \<le> c2)) \<and>
         res_status (snd (tieredRateLimiter ops evalsha tiers costs rnd now req (None, db))) =
           (if (c1 < win_max w1 \<and> c2 < win_max w2) \<or> (c1 = win_max w1 - 1 \<and> win_max w2 \<le> c2) then None else Some 429)"
  using redis_server.two_windows_decision [OF assms(1-8), where now = now and evalsha = evalsha and rnd = rnd] assms(9,10) by simp

definition tight_tiers :: tier_table where
  "tight_tiers = [(''free'', [\<lparr>win_windowMs = 1000, win_max = 1, win_label = ''1s''\<rparr>,
                              \<lparr>win_windowMs = 2000, win_max = 1, win_label = ''2s''\<rparr>])]"

definition exhausted_db :: mem_db where
  "exhausted_db = empty_db\<lparr>mem_z := (\<lambda>k. if k = ''ratelimit:ip:unknown:free:2000'' then [(''m:1'', 9000)] else [])\<rparr>"

theorem two_window_tier_decision_witness:
  "res_next (snd (tieredRateLimiter mem_ops (\<lambda>_ _. None) tight_tiers [] ''r'' 10000 empty_request (None, exhausted_db)))"
proof -
  let ?w1 = "\<lparr>win_windowMs = 1000, win_max = 1, win_label = ''1s''\<rparr>"
  let ?w2 = "\<lparr>win_windowMs = 2000, win_max = 1, win_label = ''2s''\<rparr>"
  have k1: "limit_key tight_tiers empty_request ?w1 = ''ratelimit:ip:unknown:free:1000''" by code_simp
  have k2: "limit_key tight_tiers empty_request ?w2 = ''ratelimit:ip:unknown:free:2000''" by code_simp
  have t: "map_of tight_tiers (extractTier tight_tiers empty_request) = Some [?w1, ?w2]" by code_simp
  have z1: "zset_of mem_view exhausted_db ''ratelimit:ip:unknown:free:1000'' = Map.empty"
    by (simp add: mem_view_def exhausted_db_def)
  have z2: "zset_of mem_view exhausted_db ''ratelimit:ip:unknown:free:2000'' = [''m:1'' \<mapsto> 9000]"
    by (simp add: mem_view_def exhausted_db_def)
  have l2: "live_members [''m:1'' \<mapsto> 9000] 8000 = {''m:1''}" by (auto simp: live_members_def)
  have "res_next (snd (tieredRateLimiter mem_ops (\<lambda>_ _. None) tight_tiers [] ''r'' 10000 empty_request (None, exhausted_db))) =
      ((0 < win_max ?w1 \<and> 1 < win_max ?w2) \<or> (0 = win_max ?w1 - 1 \<and> win_max ?w2 \<le> 1))"
    by (rule conjunct1 [OF two_window_tier_decision [OF mem.redis_server_axioms t]])
      (simp_all add: k1 k2 z1 z2 l2 matchEndpointCost_def DEFAULT_COST_def nonneg_scores_def live_members_def)
  then show ?thesis by simp
qed

end
