(* ===== verification/Pinning_Queue.thy ===== *)
theory Pinning_Queue
  imports Redis
begin

text \<open>
  The IPFS pinning queue, \<open>backend/src/ipfs/pinning_queue.ts\<close>. A job is kept as a Redis hash, a sorted
  set holds the ids that wait, ordered by priority, and a set the ids being processed. Numbers that
  \<open>parseInt\<close> cannot read are \<open>NaN\<close>, here \<open>None\<close>; a number is an integer otherwise, since a fractional priority,
  which the type of the source admits, would be cut to its integer part when the job is loaded; the hash of a
  job is always written as a whole, and a field that were missing reads as the empty string. Each operation is one
  step, although it awaits several commands. Statuses and actions are strings, as the casts of
  the source leave them unchecked.
\<close>

section \<open>Jobs\<close>

record PinningJob =
  pj_id :: string
  pj_cid :: string
  pj_groupId :: string
  pj_contractId :: string
  pj_action :: string
  pj_status :: string
  pj_priority :: "int option"
  pj_retries :: "int option"
  pj_maxRetries :: "int option"
  pj_error :: "string option"
  pj_createdAt :: "int option"
  pj_updatedAt :: "int option"
  pj_pinnedAt :: "int option option"

definition QUEUE_KEY :: string where "QUEUE_KEY = ''ipfs:pinning:queue''"
definition JOB_KEY_PREFIX :: string where "JOB_KEY_PREFIX = ''ipfs:pinning:job''"
definition PROCESSING_KEY :: string where "PROCESSING_KEY = ''ipfs:pinning:processing''"

definition job_prefix :: string where "job_prefix = JOB_KEY_PREFIX @ '':''"

definition job_key :: "string \<Rightarrow> string" where
  "job_key jobId = job_prefix @ jobId"

text \<open>\<open>String(n)\<close> where \<open>n\<close> may be \<open>NaN\<close>.\<close>

definition num_string :: "int option \<Rightarrow> string" where
  "num_string n = (case n of Some i \<Rightarrow> string_of_int i | None \<Rightarrow> ''NaN'')"

definition jobToMap :: "PinningJob \<Rightarrow> (string \<times> string) list" where
  "jobToMap job =
     [(''id'', pj_id job), (''cid'', pj_cid job), (''groupId'', pj_groupId job), (''contractId'', pj_contractId job),
      (''action'', pj_action job), (''status'', pj_status job),
      (''priority'', num_string (pj_priority job)), (''retries'', num_string (pj_retries job)),
      (''maxRetries'', num_string (pj_maxRetries job)), (''error'', or_default (pj_error job) ''''),
      (''createdAt'', num_string (pj_createdAt job)), (''updatedAt'', num_string (pj_updatedAt job)),
      (''pinnedAt'', (case pj_pinnedAt job of
                        Some (Some n) \<Rightarrow> if n \<noteq> 0 then string_of_int n else ''''
                      | _ \<Rightarrow> ''''))]"

definition field :: "(string \<times> string) list \<Rightarrow> string \<Rightarrow> string" where
  "field data f = or_default (map_of data f) ''''"

definition num_field :: "(string \<times> string) list \<Rightarrow> string \<Rightarrow> string \<Rightarrow> int option" where
  "num_field data f d = parseInt (or_default (map_of data f) d)"

definition mapToJob :: "(string \<times> string) list \<Rightarrow> PinningJob" where
  "mapToJob data =
     \<lparr>pj_id = field data ''id'', pj_cid = field data ''cid'', pj_groupId = field data ''groupId'',
      pj_contractId = field data ''contractId'', pj_action = field data ''action'', pj_status = field data ''status'',
      pj_priority = num_field data ''priority'' ''0'', pj_retries = num_field data ''retries'' ''0'',
      pj_maxRetries = num_field data ''maxRetries'' ''3'',
      pj_error = (if field data ''error'' \<noteq> '''' then Some (field data ''error'') else None),
      pj_createdAt = num_field data ''createdAt'' ''0'', pj_updatedAt = num_field data ''updatedAt'' ''0'',
      pj_pinnedAt = (if field data ''pinnedAt'' \<noteq> '''' then Some (parseInt (field data ''pinnedAt'')) else None)\<rparr>"

section \<open>Operations\<close>

definition new_job :: "int \<Rightarrow> millis \<Rightarrow> string \<Rightarrow> string \<Rightarrow> string \<Rightarrow> string \<Rightarrow> string \<Rightarrow> int \<Rightarrow> PinningJob" where
  "new_job pinRetryCount now jobId cid groupId contractId action priority =
     \<lparr>pj_id = jobId, pj_cid = cid, pj_groupId = groupId, pj_contractId = contractId, pj_action = action,
      pj_status = ''queued'', pj_priority = Some priority, pj_retries = Some 0, pj_maxRetries = Some pinRetryCount,
      pj_error = None, pj_createdAt = Some now, pj_updatedAt = Some now, pj_pinnedAt = None\<rparr>"

definition pin_enqueue ::
  "'db redis_ops \<Rightarrow> int \<Rightarrow> millis \<Rightarrow> string \<Rightarrow> string \<Rightarrow> string \<Rightarrow> string \<Rightarrow> string \<Rightarrow> int \<Rightarrow> 'db \<Rightarrow> 'db \<times> PinningJob" where
  "pin_enqueue ops pinRetryCount now jobId cid groupId contractId action priority db =
     (let job = new_job pinRetryCount now jobId cid groupId contractId action priority
      in (zadd ops (hset ops db (job_key jobId) (jobToMap job)) QUEUE_KEY priority jobId, job))"

definition pin_dequeue :: "'db redis_ops \<Rightarrow> millis \<Rightarrow> 'db \<Rightarrow> 'db \<times> PinningJob option" where
  "pin_dequeue ops now db =
     (case zpopmin ops db QUEUE_KEY of
        (db1, None) \<Rightarrow> (db1, None)
      | (db1, Some (jobId, _)) \<Rightarrow>
          (let jobData = hgetall ops db1 (job_key jobId)
           in if jobData = [] then (db1, None)
              else (let job = (mapToJob jobData)\<lparr>pj_status := ''pinning'', pj_updatedAt := Some now\<rparr>
                    in (sadd ops (hset ops db1 (job_key jobId) (jobToMap job)) PROCESSING_KEY jobId, Some job))))"

definition updated_job :: "millis \<Rightarrow> string \<Rightarrow> string option \<Rightarrow> PinningJob \<Rightarrow> PinningJob" where
  "updated_job now status err job0 =
     (let job1 = job0\<lparr>pj_status := status, pj_updatedAt := Some now\<rparr>;
          job2 = (if truthy err then job1\<lparr>pj_error := err\<rparr> else job1);
          job3 = (if status = ''pinned'' then job2\<lparr>pj_pinnedAt := Some (Some now)\<rparr> else job2)
      in if status = ''failed'' then job3\<lparr>pj_retries := map_option (\<lambda>r. r + 1) (pj_retries job3)\<rparr> else job3)"

definition updateStatus :: "'db redis_ops \<Rightarrow> millis \<Rightarrow> string \<Rightarrow> string \<Rightarrow> string option \<Rightarrow> 'db \<Rightarrow> 'db" where
  "updateStatus ops now jobId status err db =
     (let jobData = hgetall ops db (job_key jobId)
      in if jobData = [] then db
         else (let db1 = hset ops db (job_key jobId) (jobToMap (updated_job now status err (mapToJob jobData)))
               in if status \<in> {''pinned'', ''unpinned'', ''failed''} then srem ops db1 PROCESSING_KEY jobId else db1))"

definition getJob :: "'db redis_ops \<Rightarrow> string \<Rightarrow> 'db \<Rightarrow> PinningJob option" where
  "getJob ops jobId db =
     (let data = hgetall ops db (job_key jobId) in if data = [] then None else Some (mapToJob data))"

text \<open>The sort is by creation time, newest first; \<open>NaN\<close> never occurs in hashes written by \<open>jobToMap\<close> from a new job.\<close>

definition getJobsByGroup :: "'db redis_ops \<Rightarrow> string \<Rightarrow> 'db \<Rightarrow> PinningJob list" where
  "getJobsByGroup ops groupId db =
     sort_key (\<lambda>j. - or_default (pj_createdAt j) 0)
       (map (\<lambda>k. mapToJob (hgetall ops db k))
         (filter (\<lambda>k. map_of (hgetall ops db k) ''groupId'' = Some groupId) (hash_keys ops db job_prefix)))"

record queue_stats =
  qs_queued :: nat
  qs_processing :: nat
  qs_pinned :: nat
  qs_failed :: nat

definition count_status :: "'db redis_ops \<Rightarrow> string \<Rightarrow> 'db \<Rightarrow> nat" where
  "count_status ops status db =
     length (filter (\<lambda>k. map_of (hgetall ops db k) ''status'' = Some status) (hash_keys ops db job_prefix))"

definition getQueueStats :: "'db redis_ops \<Rightarrow> 'db \<Rightarrow> queue_stats" where
  "getQueueStats ops db =
     \<lparr>qs_queued = zcard ops db QUEUE_KEY, qs_processing = scard ops db PROCESSING_KEY,
      qs_pinned = count_status ops ''pinned'' db, qs_failed = count_status ops ''failed'' db\<rparr>"

definition retried_data :: "millis \<Rightarrow> (string \<times> string) list \<Rightarrow> (string \<times> string) list" where
  "retried_data now data =
     AList.update ''updatedAt'' (string_of_int now)
       (AList.update ''error'' '''' (AList.update ''retries'' ''0'' (AList.update ''status'' ''queued'' data)))"

definition is_failed_pin :: "string \<Rightarrow> (string \<times> string) list \<Rightarrow> bool" where
  "is_failed_pin cid data \<longleftrightarrow> map_of data ''cid'' = Some cid \<and> map_of data ''status'' = Some ''failed''"

text \<open>A score that is not a number makes \<open>ZADD\<close> fail; the other command of the block still runs.\<close>

definition requeue :: "'db redis_ops \<Rightarrow> string \<Rightarrow> (string \<times> string) list \<Rightarrow> 'db \<Rightarrow> 'db" where
  "requeue ops key data db =
     (case parseInt (or_default (map_of data ''priority'') ''0'') of
        Some p \<Rightarrow> zadd ops (hset ops db key data) QUEUE_KEY p (field data ''id'')
      | None \<Rightarrow> hset ops db key data)"

definition retryFailed :: "'db redis_ops \<Rightarrow> millis \<Rightarrow> string \<Rightarrow> 'db \<Rightarrow> 'db \<times> PinningJob option" where
  "retryFailed ops now cid db =
     (case find (\<lambda>k. is_failed_pin cid (hgetall ops db k)) (hash_keys ops db job_prefix) of
        None \<Rightarrow> (db, None)
      | Some k \<Rightarrow> (let data = retried_data now (hgetall ops db k)
                   in (requeue ops k data db, Some (mapToJob data))))"

section \<open>The life of a job\<close>

text \<open>Any order of calls of the public operations; a new id is not in use.\<close>

inductive pin_step :: "'db redis_ops \<Rightarrow> 'db \<Rightarrow> 'db \<Rightarrow> bool" for ops where
  step_enqueue: "getJob ops jobId db = None \<Longrightarrow>
     pin_step ops db (fst (pin_enqueue ops n now jobId cid groupId contractId action priority db))"
| step_dequeue: "pin_step ops db (fst (pin_dequeue ops now db))"
| step_update: "pin_step ops db (updateStatus ops now jobId status err db)"
| step_retry: "pin_step ops db (fst (retryFailed ops now cid db))"

inductive pin_reach :: "'db redis_ops \<Rightarrow> 'db \<Rightarrow> 'db \<Rightarrow> bool" for ops db0 where
  pin_init: "pin_reach ops db0 db0"
| pin_next: "pin_reach ops db0 db \<Longrightarrow> pin_step ops db db' \<Longrightarrow> pin_reach ops db0 db'"

definition queued_ids :: "'db redis_view \<Rightarrow> 'db \<Rightarrow> string set" where
  "queued_ids view db = dom (zset_of view db QUEUE_KEY)"

definition processing_ids :: "'db redis_view \<Rightarrow> 'db \<Rightarrow> string set" where
  "processing_ids view db = set_of view db PROCESSING_KEY"

definition pin_inv :: "'db redis_ops \<Rightarrow> 'db redis_view \<Rightarrow> 'db \<Rightarrow> bool" where
  "pin_inv ops view db \<longleftrightarrow>
     queued_ids view db \<inter> processing_ids view db = {} \<and>
     (\<forall>jobId \<in> queued_ids view db \<union> processing_ids view db. getJob ops jobId db \<noteq> None) \<and>
     (\<forall>jobId j. getJob ops jobId db = Some j \<longrightarrow>
        pj_id j = jobId \<and> (pj_status j = ''failed'' \<longrightarrow> jobId \<notin> processing_ids view db))"

section \<open>Lemmas on stored jobs\<close>

text \<open>What \<open>mapToJob\<close> makes of a hash, as a function of its contents only.\<close>

definition job_of :: "(string \<Rightarrow> string option) \<Rightarrow> PinningJob" where
  "job_of h =
     (let f = (\<lambda>k. or_default (h k) ''''); n = (\<lambda>k d. parseInt (or_default (h k) d))
      in \<lparr>pj_id = f ''id'', pj_cid = f ''cid'', pj_groupId = f ''groupId'', pj_contractId = f ''contractId'',
          pj_action = f ''action'', pj_status = f ''status'', pj_priority = n ''priority'' ''0'',
          pj_retries = n ''retries'' ''0'', pj_maxRetries = n ''maxRetries'' ''3'',
          pj_error = (if f ''error'' \<noteq> '''' then Some (f ''error'') else None),
          pj_createdAt = n ''createdAt'' ''0'', pj_updatedAt = n ''updatedAt'' ''0'',
          pj_pinnedAt = (if f ''pinnedAt'' \<noteq> '''' then Some (parseInt (f ''pinnedAt'')) else None)\<rparr>)"

definition normal_job :: "PinningJob \<Rightarrow> PinningJob" where
  "normal_job j =
     j\<lparr>pj_error := (if truthy (pj_error j) then pj_error j else None),
       pj_pinnedAt := (case pj_pinnedAt j of Some (Some n) \<Rightarrow> if n \<noteq> 0 then Some (Some n) else None | _ \<Rightarrow> None)\<rparr>"

lemma mapToJob_job_of: "mapToJob data = job_of (map_of data)"
  by (simp add: mapToJob_def job_of_def field_def num_field_def Let_def)

lemma parseInt_num_string [simp]: "parseInt (num_string n) = n"
proof (cases n)
  case None
  have "parseInt ''NaN'' = None" by code_simp
  with None show ?thesis by (simp add: num_string_def)
qed (simp add: num_string_def parseInt_string_of_int)

lemma string_of_int_nonempty [simp]: "string_of_int i \<noteq> []"
  by (simp add: string_of_int_def)

lemma job_of_jobToMap: "job_of (h ++ map_of (jobToMap j)) = normal_job j"
  by (cases "pj_error j")
    (auto simp: job_of_def jobToMap_def normal_job_def Let_def parseInt_string_of_int split: option.split)

lemma jobToMap_nonempty: "h ++ map_of (jobToMap j) \<noteq> Map.empty"
proof
  assume "h ++ map_of (jobToMap j) = Map.empty"
  then have "(h ++ map_of (jobToMap j)) ''id'' = None" by simp
  then show False by (simp add: jobToMap_def)
qed

lemma normal_job_simps [simp]:
  "pj_id (normal_job j) = pj_id j" "pj_status (normal_job j) = pj_status j" "pj_cid (normal_job j) = pj_cid j"
  "pj_retries (normal_job j) = pj_retries j" "pj_maxRetries (normal_job j) = pj_maxRetries j"
  "pj_priority (normal_job j) = pj_priority j" "pj_action (normal_job j) = pj_action j"
  by (simp_all add: normal_job_def)

lemma updated_job_simps [simp]:
  "pj_id (updated_job now st err j) = pj_id j" "pj_status (updated_job now st err j) = st"
  "pj_cid (updated_job now st err j) = pj_cid j" "pj_action (updated_job now st err j) = pj_action j"
  "pj_maxRetries (updated_job now st err j) = pj_maxRetries j" "pj_priority (updated_job now st err j) = pj_priority j"
  by (simp_all add: updated_job_def Let_def)

lemma job_key_inject [simp]: "job_key a = job_key b \<longleftrightarrow> a = b"
  by (simp add: job_key_def)

lemma startsWith_job_prefix: "startsWith k job_prefix \<Longrightarrow> \<exists>jobId. k = job_key jobId"
  by (metis append_take_drop_id job_key_def startsWith_def)

lemma startsWith_job_key [simp]: "startsWith (job_key i) job_prefix"
  by (simp add: startsWith_def job_key_def)

lemma map_of_retried:
  "map_of (retried_data now data) = (map_of data)(''status'' \<mapsto> ''queued'', ''retries'' \<mapsto> ''0'', ''error'' \<mapsto> '''',
      ''updatedAt'' \<mapsto> string_of_int now)"
  by (simp add: retried_data_def update_conv')

lemma job_of_retried:
  "job_of (map_of (retried_data now data)) =
     (job_of (map_of data))\<lparr>pj_status := ''queued'', pj_retries := Some 0, pj_error := None, pj_updatedAt := Some now\<rparr>"
proof -
  have z: "parseInt ''0'' = Some 0" by code_simp
  show ?thesis by (simp add: map_of_retried job_of_def Let_def z parseInt_string_of_int)
qed

context redis_server
begin

lemma getJob_view:
  "getJob ops i db = (let h = hash_of view db (job_key i) in if h = Map.empty then None else Some (job_of h))"
  by (simp add: getJob_def Let_def hgetall_empty mapToJob_job_of hash_hgetall)

lemma getJob_cong: "hash_of view db' = hash_of view db \<Longrightarrow> getJob ops i db' = getJob ops i db"
  by (simp add: getJob_view)

lemma getJob_hset:
  "getJob ops i (hset ops db (job_key i') (jobToMap j)) = (if i = i' then Some (normal_job j) else getJob ops i db)"
  using jobToMap_nonempty by (simp add: getJob_view hash_hset job_of_jobToMap)

lemma getJob_retried:
  assumes "getJob ops i' db = Some j"
  shows "getJob ops i (hset ops db (job_key i') (retried_data now (hgetall ops db (job_key i')))) =
           (if i = i' then Some (j\<lparr>pj_status := ''queued'', pj_retries := Some 0, pj_error := None, pj_updatedAt := Some now\<rparr>)
            else getJob ops i db)"
proof -
  let ?data = "hgetall ops db (job_key i')" and ?h = "hash_of view db (job_key i')"
  have sub: "?h ++ map_of (retried_data now ?data) = map_of (retried_data now ?data)"
    by (auto simp: map_of_retried hash_hgetall map_add_def fun_eq_iff split: option.split)
  have "map_of (retried_data now ?data) ''status'' \<noteq> None" by (simp add: map_of_retried)
  then have "map_of (retried_data now ?data) \<noteq> Map.empty" by metis
  moreover have "j = job_of ?h" using assms by (simp add: getJob_view Let_def split: if_splits)
  moreover have "job_of (map_of (retried_data now ?data)) =
      (job_of ?h)\<lparr>pj_status := ''queued'', pj_retries := Some 0, pj_error := None, pj_updatedAt := Some now\<rparr>"
    using job_of_retried [of now ?data] by (simp only: hash_hgetall)
  moreover have "hash_of view (hset ops db (job_key i') (retried_data now ?data)) (job_key i) =
      (if i = i' then map_of (retried_data now ?data) else hash_of view db (job_key i))"
    by (simp only: hash_hset sub fun_upd_apply job_key_inject)
  ultimately show ?thesis
    by (cases "i = i'") (simp_all only: getJob_view Let_def if_True if_False simp_thms)
qed

lemmas id_set_simps = queued_ids_def processing_ids_def zset_zadd zset_frame set_sadd set_srem set_frame

lemma queued_ids_simps [simp]:
  "queued_ids view (zadd ops db QUEUE_KEY s i) = insert i (queued_ids view db)"
  "queued_ids view (hset ops db k fs) = queued_ids view db"
  "queued_ids view (sadd ops db k m) = queued_ids view db" "queued_ids view (srem ops db k m) = queued_ids view db"
  by (auto simp: id_set_simps)

lemma processing_ids_simps [simp]:
  "processing_ids view (sadd ops db PROCESSING_KEY i) = insert i (processing_ids view db)"
  "processing_ids view (srem ops db PROCESSING_KEY i) = processing_ids view db - {i}"
  "processing_ids view (hset ops db k fs) = processing_ids view db"
  "processing_ids view (zadd ops db k s i) = processing_ids view db"
  "processing_ids view (fst (zpopmin ops db k)) = processing_ids view db"
  by (auto simp: id_set_simps)

lemma getJob_frame [simp]:
  "getJob ops i (zadd ops db k s m) = getJob ops i db" "getJob ops i (fst (zpopmin ops db k)) = getJob ops i db"
  "getJob ops i (sadd ops db k m) = getJob ops i db" "getJob ops i (srem ops db k m) = getJob ops i db"
  by (rule getJob_cong, simp add: hash_frame)+

lemma getJob_hgetall: "getJob ops i db = (if hgetall ops db (job_key i) = [] then None else Some (mapToJob (hgetall ops db (job_key i))))"
  by (simp add: getJob_def Let_def)

text \<open>The operations, case by case.\<close>

lemma pin_dequeue_None:
  assumes "zrange_first ops db QUEUE_KEY = None"
  shows "pin_dequeue ops now db = (fst (zpopmin ops db QUEUE_KEY), None)" "queued_ids view db = {}"
proof -
  have "snd (zpopmin ops db QUEUE_KEY) = None" using assms by (simp add: zpopmin_first)
  then show "pin_dequeue ops now db = (fst (zpopmin ops db QUEUE_KEY), None)"
    by (cases "zpopmin ops db QUEUE_KEY") (simp add: pin_dequeue_def)
  show "queued_ids view db = {}" using assms by (simp add: queued_ids_def zrange_first_None)
qed

lemma pin_dequeue_Some:
  assumes "zrange_first ops db QUEUE_KEY = Some (i, s)" "getJob ops i db = Some j"
  shows "pin_dequeue ops now db =
    (sadd ops (hset ops (fst (zpopmin ops db QUEUE_KEY)) (job_key i)
        (jobToMap (j\<lparr>pj_status := ''pinning'', pj_updatedAt := Some now\<rparr>))) PROCESSING_KEY i,
     Some (j\<lparr>pj_status := ''pinning'', pj_updatedAt := Some now\<rparr>))"
proof -
  obtain db1 where pop: "zpopmin ops db QUEUE_KEY = (db1, Some (i, s))"
    using assms(1) zpopmin_first [of db QUEUE_KEY] by (metis prod.collapse)
  have "getJob ops i (fst (zpopmin ops db QUEUE_KEY)) = Some j" using assms(2) by simp
  then have "hgetall ops db1 (job_key i) \<noteq> []" "mapToJob (hgetall ops db1 (job_key i)) = j"
    by (auto simp: getJob_hgetall pop split: if_splits)
  then show ?thesis by (simp add: pin_dequeue_def pop Let_def)
qed

lemma queued_after_pop:
  "zrange_first ops db QUEUE_KEY = Some (i, s) \<Longrightarrow>
     i \<in> queued_ids view db \<and> queued_ids view (fst (zpopmin ops db QUEUE_KEY)) = queued_ids view db - {i}"
  using zrange_first_Some [of db QUEUE_KEY "(i, s)"]
  by (auto simp: queued_ids_def zset_zpopmin least_member_def split: if_splits)

lemma retryFailed_cases:
  obtains "retryFailed ops now cid db = (db, None)"
      "\<And>i j. getJob ops i db = Some j \<Longrightarrow> pj_status j = ''failed'' \<Longrightarrow> pj_cid j = cid \<Longrightarrow> cid = []"
  | i j where "getJob ops i db = Some j" "pj_status j = ''failed''" "pj_cid j = cid"
      "fst (retryFailed ops now cid db) = requeue ops (job_key i) (retried_data now (hgetall ops db (job_key i))) db"
proof (cases "find (\<lambda>k. is_failed_pin cid (hgetall ops db k)) (hash_keys ops db job_prefix)")
  case None
  have "cid = []" if j: "getJob ops i db = Some j" "pj_status j = ''failed''" "pj_cid j = cid" for i j
  proof -
    have data: "hgetall ops db (job_key i) \<noteq> []" "mapToJob (hgetall ops db (job_key i)) = j"
      using j(1) by (auto simp: getJob_hgetall split: if_splits)
    then have "job_key i \<in> set (hash_keys ops db job_prefix)" by (simp add: hash_keys_set flip: hgetall_empty)
    then have "\<not> is_failed_pin cid (hgetall ops db (job_key i))" using None by (auto simp: find_None_iff)
    moreover have "or_default (map_of (hgetall ops db (job_key i)) ''status'') [] = ''failed''"
      "or_default (map_of (hgetall ops db (job_key i)) ''cid'') [] = cid"
      using j(2,3) data(2) by (auto simp: mapToJob_def field_def)
    ultimately show "cid = []"
      by (cases "map_of (hgetall ops db (job_key i)) ''status''"; cases "map_of (hgetall ops db (job_key i)) ''cid''")
        (auto simp: is_failed_pin_def)
  qed
  then show ?thesis using that(1) None by (simp add: retryFailed_def)
next
  case (Some k)
  then have k: "k \<in> set (hash_keys ops db job_prefix)" "is_failed_pin cid (hgetall ops db k)"
    by (auto simp: find_Some_iff)
  then obtain i where i: "k = job_key i" using startsWith_job_prefix by (auto simp: hash_keys_set)
  have "getJob ops i db = Some (mapToJob (hgetall ops db k))"
    using k i by (auto simp: getJob_hgetall is_failed_pin_def)
  moreover have "pj_status (mapToJob (hgetall ops db k)) = ''failed''" "pj_cid (mapToJob (hgetall ops db k)) = cid"
    using k(2) by (simp_all add: mapToJob_def field_def is_failed_pin_def)
  ultimately show ?thesis using that(2) Some i by (simp add: retryFailed_def Let_def)
qed

end

context redis_server
begin

lemma pin_inv_enqueue [inv_intros]:
  assumes "pin_inv ops view db" "getJob ops i db = None"
  shows "pin_inv ops view (fst (pin_enqueue ops n now i cid g c a p db))"
proof -
  have "i \<notin> processing_ids view db" using assms by (metis UnCI pin_inv_def)
  with assms show ?thesis by (auto simp: pin_inv_def pin_enqueue_def Let_def getJob_hset new_job_def)
qed

lemma pin_inv_dequeue [inv_intros]:
  assumes "pin_inv ops view db"
  shows "pin_inv ops view (fst (pin_dequeue ops now db))"
proof (cases "zrange_first ops db QUEUE_KEY")
  case None
  have "queued_ids view (fst (zpopmin ops db QUEUE_KEY)) = queued_ids view db"
    using None by (simp add: queued_ids_def zset_zpopmin)
  with assms pin_dequeue_None(1) [OF None, of now] show ?thesis by (simp add: pin_inv_def)
next
  case (Some e)
  obtain i s where e: "e = (i, s)" by (cases e)
  note pop = queued_after_pop [OF Some [unfolded e]]
  then obtain j where j: "getJob ops i db = Some j" using assms unfolding pin_inv_def by blast
  then have "pj_id j = i" using assms by (simp add: pin_inv_def)
  with assms pop pin_dequeue_Some [OF Some [unfolded e] j, of now] show ?thesis
    by (auto simp: pin_inv_def getJob_hset)
qed

lemma pin_inv_update [inv_intros]:
  assumes "pin_inv ops view db"
  shows "pin_inv ops view (updateStatus ops now i st err db)"
proof (cases "getJob ops i db")
  case None
  with assms show ?thesis by (simp add: updateStatus_def getJob_hgetall split: if_splits)
next
  case (Some j)
  then have data: "hgetall ops db (job_key i) \<noteq> []" "mapToJob (hgetall ops db (job_key i)) = j"
    by (auto simp: getJob_hgetall split: if_splits)
  have "pj_id j = i" using assms Some by (simp add: pin_inv_def)
  with assms data Some show ?thesis
    by (auto simp: pin_inv_def updateStatus_def Let_def getJob_hset)
qed

lemma pin_inv_requeue:
  assumes "pin_inv ops view db" "getJob ops i db = Some j" "pj_status j = ''failed''"
  shows "pin_inv ops view (requeue ops (job_key i) (retried_data now (hgetall ops db (job_key i))) db)"
proof -
  have "pj_id j = i" "i \<notin> processing_ids view db" using assms by (auto simp: pin_inv_def)
  moreover have "field (retried_data now (hgetall ops db (job_key i))) ''id'' = pj_id j"
    using assms(2) by (auto simp: field_def map_of_retried getJob_hgetall mapToJob_def split: if_splits)
  ultimately show ?thesis
    using assms(1) getJob_retried [OF assms(2), of _ now] by (auto simp: pin_inv_def requeue_def split: option.split)
qed

lemma pin_inv_retry [inv_intros]:
  assumes "pin_inv ops view db"
  shows "pin_inv ops view (fst (retryFailed ops now cid db))"
  by (rule retryFailed_cases [of now cid db]) (use assms pin_inv_requeue in auto)

lemma pin_step_inv: "pin_step ops db db' \<Longrightarrow> pin_inv ops view db \<Longrightarrow> pin_inv ops view db'"
  by (induction rule: pin_step.induct) (auto intro: inv_intros)

lemma pin_reach_inv: "pin_reach ops db0 db \<Longrightarrow> pin_inv ops view db0 \<Longrightarrow> pin_inv ops view db"
  by (induction rule: pin_reach.induct) (auto intro: pin_step_inv)

end

section \<open>Properties\<close>

text \<open>C26. Writing a job to its hash and reading it back gives the job again, except that an empty error and a
  pin time of zero or \<open>NaN\<close> come back as undefined.\<close>

theorem pinning_job_roundtrip:
  "mapToJob (jobToMap job) =
     job\<lparr>pj_error := (if truthy (pj_error job) then pj_error job else None),
         pj_pinnedAt := (case pj_pinnedAt job of Some (Some n) \<Rightarrow> if n \<noteq> 0 then Some (Some n) else None | _ \<Rightarrow> None)\<rparr>"
  using job_of_jobToMap [of Map.empty job] by (simp add: mapToJob_job_of normal_job_def)

text \<open>C27. Whatever order the queue's operations are called in, starting from an empty queue, no job is both
  waiting and being processed, every id in either set has a stored job that carries the id, and a failed
  job is not being processed.\<close>

theorem pinning_queue_consistent:
  assumes "redis_server ops view" "pin_reach ops db0 db"
    and "queued_ids view db0 = {}" "processing_ids view db0 = {}" "\<And>i. getJob ops i db0 = None"
  shows "queued_ids view db \<inter> processing_ids view db = {} \<and>
         (\<forall>i \<in> queued_ids view db \<union> processing_ids view db. \<exists>j. getJob ops i db = Some j \<and> pj_id j = i) \<and>
         (\<forall>i j. getJob ops i db = Some j \<and> pj_status j = ''failed'' \<longrightarrow> i \<notin> processing_ids view db)"
proof -
  have "pin_inv ops view db0" using assms(3-5) by (simp add: pin_inv_def)
  then have "pin_inv ops view db" using redis_server.pin_reach_inv [OF assms(1,2)] by blast
  then show ?thesis unfolding pin_inv_def by (metis not_None_eq)
qed

lemma empty_db_pins:
  "queued_ids mem_view empty_db = {}" "processing_ids mem_view empty_db = {}" "getJob mem_ops i empty_db = None"
  by (simp_all add: queued_ids_def processing_ids_def mem_view_def empty_db_def getJob_def mem_ops_def h_fields_def)

definition pinned_once :: mem_db where
  "pinned_once = fst (pin_dequeue mem_ops 20 (fst (pin_enqueue mem_ops 3 10 ''j'' ''cid'' ''g'' ''c'' ''pin'' 0 empty_db)))"

theorem pinning_queue_consistent_witness:
  "queued_ids mem_view pinned_once \<inter> processing_ids mem_view pinned_once = {} \<and>
   processing_ids mem_view pinned_once = {''j''}"
proof -
  have "pin_reach mem_ops empty_db pinned_once"
    unfolding pinned_once_def
    by (rule pin_next [OF pin_next [OF pin_init step_enqueue] step_dequeue]) (rule empty_db_pins)
  from pinning_queue_consistent [OF mem.redis_server_axioms this empty_db_pins]
  have "queued_ids mem_view pinned_once \<inter> processing_ids mem_view pinned_once = {}" by blast
  moreover have "mem_s pinned_once PROCESSING_KEY = [''j'']" by code_simp
  ultimately show ?thesis by (simp add: processing_ids_def mem_view_def)
qed

text \<open>Dequeuing takes a waiting job of least priority number, marks it as being processed and moves its id
  from the waiting to the processed ones; it returns nothing only when nothing waits.\<close>

theorem dequeue_takes_least:
  assumes "redis_server ops view" "pin_inv ops view db"
  shows "case snd (pin_dequeue ops now db) of
           None \<Rightarrow> queued_ids view db = {}
         | Some j \<Rightarrow> least_member (zset_of view db QUEUE_KEY) (pj_id j, the (zset_of view db QUEUE_KEY (pj_id j))) \<and>
                     pj_status j = ''pinning'' \<and>
                     queued_ids view (fst (pin_dequeue ops now db)) = queued_ids view db - {pj_id j} \<and>
                     processing_ids view (fst (pin_dequeue ops now db)) = insert (pj_id j) (processing_ids view db)"
proof (cases "zrange_first ops db QUEUE_KEY")
  case None
  then show ?thesis using redis_server.pin_dequeue_None [OF assms(1) None] by simp
next
  case (Some e)
  obtain i s where e: "e = (i, s)" by (cases e)
  note first = Some [unfolded e]
  have i: "i \<in> queued_ids view db" using redis_server.queued_after_pop [OF assms(1) first] by simp
  then obtain j where j: "getJob ops i db = Some j" using assms(2) unfolding pin_inv_def by blast
  then have "pj_id j = i" using assms(2) by (simp add: pin_inv_def)
  moreover have "least_member (zset_of view db QUEUE_KEY) (i, s)" "zset_of view db QUEUE_KEY i = Some s"
    using redis_server.zrange_first_Some [OF assms(1) first] by (simp_all add: least_member_def)
  ultimately show ?thesis
    using redis_server.pin_dequeue_Some [OF assms(1) first j, of now] redis_server.queued_after_pop [OF assms(1) first]
      redis_server.queued_ids_simps [OF assms(1)] redis_server.processing_ids_simps [OF assms(1)]
    by simp
qed

theorem dequeue_takes_least_witness: "queued_ids mem_view empty_db = {} \<and> snd (pin_dequeue mem_ops 5 empty_db) = None"
proof -
  have inv: "pin_inv mem_ops mem_view empty_db"
    by (simp add: pin_inv_def empty_db_pins)
  have "snd (pin_dequeue mem_ops 5 empty_db) = None" by code_simp
  with dequeue_takes_least [OF mem.redis_server_axioms inv, of 5] show ?thesis by simp
qed

end
