(* ===== verification/Pinning_Service.thy ===== *)
theory Pinning_Service
  imports Pinning_Queue
begin

text \<open>
  The pinning worker and its bookkeeping, \<open>backend/src/ipfs/pinning_service.ts\<close>. One round of the worker
  is \<open>processQueue\<close>, which returns the delay after which a failed job is looked at again; the timer
  callback is \<open>retry_callback\<close>. The answers of the IPFS node are arguments: the health check, \<open>pinAdd\<close>,
  \<open>pinRm\<close> and \<open>pinLs\<close>, each with an error message or a result. Redis itself is taken not to fail.
\<close>

section \<open>Keys\<close>

definition ACCESS_COUNTER_PREFIX :: string where "ACCESS_COUNTER_PREFIX = ''ipfs:access:count''"
definition PINNED_CID_PREFIX :: string where "PINNED_CID_PREFIX = ''ipfs:pinned:cid''"
definition HOT_CID_PREFIX :: string where "HOT_CID_PREFIX = ''ipfs:hot:cid''"

definition pinned_key :: "string \<Rightarrow> string" where "pinned_key cid = PINNED_CID_PREFIX @ '':'' @ cid"
definition hot_key :: "string \<Rightarrow> string" where "hot_key cid = HOT_CID_PREFIX @ '':'' @ cid"
definition access_key :: "string \<Rightarrow> string" where "access_key cid = ACCESS_COUNTER_PREFIX @ '':'' @ cid"

section \<open>The worker\<close>

text \<open>The interval timer, by an identifier.\<close>

type_synonym processor = "nat option"

definition start :: "nat \<Rightarrow> processor \<Rightarrow> processor" where
  "start timer p = (case p of Some t \<Rightarrow> Some t | None \<Rightarrow> Some timer)"

definition stop :: "processor \<Rightarrow> processor" where
  "stop p = None"

definition run_job ::
  "'db redis_ops \<Rightarrow> (string \<Rightarrow> string + bool) \<Rightarrow> (string \<Rightarrow> string + unit) \<Rightarrow> millis \<Rightarrow> PinningJob \<Rightarrow> 'db \<Rightarrow> string + 'db" where
  "run_job ops pinAdd pinRm now job db =
     (if pj_action job = ''pin''
      then (case pinAdd (pj_cid job) of
              Inl e \<Rightarrow> Inl e
            | Inr pinned \<Rightarrow>
                if pinned
                then Inr (rset ops (updateStatus ops now (pj_id job) ''pinned'' None db) (pinned_key (pj_cid job)) ''true'')
                else Inl (''Pin add returned unexpected result for '' @ pj_cid job))
      else if pj_action job = ''unpin''
      then (case pinRm (pj_cid job) of
              Inl e \<Rightarrow> Inl e
            | Inr _ \<Rightarrow> Inr (rdel ops (rdel ops (updateStatus ops now (pj_id job) ''unpinned'' None db)
                                (pinned_key (pj_cid job))) (hot_key (pj_cid job))))
      else Inr db)"

definition backoffMs :: "int \<Rightarrow> rat" where
  "backoffMs retries = min (1000 * power_int 2 retries) 60000"

text \<open>\<open>job.retries < job.maxRetries\<close>; a comparison with \<open>NaN\<close> is false.\<close>

definition scheduled_retry :: "PinningJob \<Rightarrow> rat option" where
  "scheduled_retry job =
     (case (pj_retries job, pj_maxRetries job) of
        (Some r, Some m) \<Rightarrow> if r < m then Some (backoffMs r) else None
      | _ \<Rightarrow> None)"

definition processQueue ::
  "'db redis_ops \<Rightarrow> bool \<Rightarrow> (string \<Rightarrow> string + bool) \<Rightarrow> (string \<Rightarrow> string + unit) \<Rightarrow> millis \<Rightarrow> 'db \<Rightarrow>
   'db \<times> (PinningJob \<times> rat) option" where
  "processQueue ops ipfsReady pinAdd pinRm now db =
     (if \<not> ipfsReady then (db, None)
      else case pin_dequeue ops now db of
             (db1, None) \<Rightarrow> (db1, None)
           | (db1, Some job) \<Rightarrow>
               (case run_job ops pinAdd pinRm now job db1 of
                  Inr db2 \<Rightarrow> (db2, None)
                | Inl errorMsg \<Rightarrow>
                    (updateStatus ops now (pj_id job) ''failed'' (Some errorMsg) db1,
                     map_option (Pair job) (scheduled_retry job))))"

definition retry_callback :: "'db redis_ops \<Rightarrow> millis \<Rightarrow> PinningJob \<Rightarrow> 'db \<Rightarrow> 'db" where
  "retry_callback ops now job db =
     (case getJob ops (pj_id job) db of
        Some retryJob \<Rightarrow> if pj_status retryJob = ''failed'' then fst (retryFailed ops now (pj_cid job) db) else db
      | None \<Rightarrow> db)"

section \<open>Requests\<close>

definition pinContent ::
  "'db redis_ops \<Rightarrow> int \<Rightarrow> millis \<Rightarrow> string \<Rightarrow> string \<Rightarrow> string \<Rightarrow> string \<Rightarrow> int \<Rightarrow> 'db \<Rightarrow> 'db \<times> PinningJob option" where
  "pinContent ops pinRetryCount now jobId cid groupId contractId priority db =
     (if rget ops db (pinned_key cid) = Some ''true''
      then (db, find (\<lambda>j. pj_cid j = cid \<and> pj_status j = ''pinned'') (getJobsByGroup ops groupId db))
      else (let (db', job) = pin_enqueue ops pinRetryCount now jobId cid groupId contractId ''pin'' priority db
            in (db', Some job)))"

definition unpinContent ::
  "'db redis_ops \<Rightarrow> int \<Rightarrow> millis \<Rightarrow> string \<Rightarrow> string \<Rightarrow> string \<Rightarrow> string \<Rightarrow> 'db \<Rightarrow> 'db \<times> PinningJob" where
  "unpinContent ops pinRetryCount now jobId cid groupId contractId db =
     pin_enqueue ops pinRetryCount now jobId cid groupId contractId ''unpin'' 0 db"

definition recordAccess :: "'db redis_ops \<Rightarrow> string \<Rightarrow> 'db \<Rightarrow> 'db" where
  "recordAccess ops cid db = rexpire ops (rincr ops db (access_key cid)) (access_key cid) 86400"

definition getAccessCount :: "'db redis_ops \<Rightarrow> string \<Rightarrow> 'db \<Rightarrow> int option" where
  "getAccessCount ops cid db =
     (let count = rget ops db (access_key cid) in if truthy count then parseInt (the count) else Some 0)"

definition markHot :: "'db redis_ops \<Rightarrow> string \<Rightarrow> 'db \<Rightarrow> 'db" where
  "markHot ops cid db = rexpire ops (rset ops db (hot_key cid) ''true'') (hot_key cid) 86400"

definition isHot :: "'db redis_ops \<Rightarrow> string \<Rightarrow> 'db \<Rightarrow> bool" where
  "isHot ops cid db \<longleftrightarrow> rget ops db (hot_key cid) = Some ''true''"

text \<open>\<open>Inl\<close>: the node's error propagates.\<close>

definition isPinned :: "'db redis_ops \<Rightarrow> (string \<Rightarrow> string + string list) \<Rightarrow> string \<Rightarrow> 'db \<Rightarrow> string + bool" where
  "isPinned ops pinLs cid db =
     (if rget ops db (pinned_key cid) = Some ''true'' then Inr True
      else case pinLs cid of Inl e \<Rightarrow> Inl e | Inr pins \<Rightarrow> Inr (pins \<noteq> []))"

definition refreshPin ::
  "'db redis_ops \<Rightarrow> (string \<Rightarrow> string + string list) \<Rightarrow> int \<Rightarrow> millis \<Rightarrow> string \<Rightarrow> string \<Rightarrow> string \<Rightarrow> string \<Rightarrow> 'db \<Rightarrow> string + 'db" where
  "refreshPin ops pinLs pinRetryCount now jobId cid groupId contractId db =
     (case isPinned ops pinLs cid db of
        Inl e \<Rightarrow> Inl e
      | Inr pinned \<Rightarrow> Inr (if pinned then db
                            else fst (pinContent ops pinRetryCount now jobId cid groupId contractId 1 db)))"

record pin_report =
  rep_total :: nat
  rep_pinned :: nat
  rep_missing :: nat
  rep_failed :: nat

definition pinned_cid_of :: "string \<Rightarrow> string" where
  "pinned_cid_of key = drop (length PINNED_CID_PREFIX + 1) key"

primrec verify_loop ::
  "'db redis_ops \<Rightarrow> (string \<Rightarrow> string + string list) \<Rightarrow> string list \<Rightarrow> nat \<Rightarrow> nat \<Rightarrow> 'db \<Rightarrow> 'db \<times> nat \<times> nat" where
  "verify_loop ops pinLs [] pinned missing db = (db, pinned, missing)"
| "verify_loop ops pinLs (key # keys) pinned missing db =
     (case pinLs (pinned_cid_of key) of
        Inl _ \<Rightarrow> verify_loop ops pinLs keys pinned (missing + 1) db
      | Inr pins \<Rightarrow> if pins \<noteq> [] then verify_loop ops pinLs keys (pinned + 1) missing db
                    else verify_loop ops pinLs keys pinned (missing + 1) (rdel ops db key))"

definition verifyAllPins :: "'db redis_ops \<Rightarrow> (string \<Rightarrow> string + string list) \<Rightarrow> 'db \<Rightarrow> 'db \<times> pin_report" where
  "verifyAllPins ops pinLs db =
     (let keys = str_keys ops db (PINNED_CID_PREFIX @ '':'');
          (db', pinned, missing) = verify_loop ops pinLs keys 0 0 db
      in (db', \<lparr>rep_total = length keys, rep_pinned = pinned, rep_missing = missing, rep_failed = 0\<rparr>))"

section \<open>Rounds of a job that keeps failing\<close>

text \<open>The worker runs at the first time of each pair with a node that refuses the pin, and the callback, if
  one was scheduled, at the second. The list holds the scheduled delays.\<close>

definition failing_round ::
  "'db redis_ops \<Rightarrow> string \<Rightarrow> millis \<times> millis \<Rightarrow> 'db \<Rightarrow> 'db \<times> rat option" where
  "failing_round ops err t db =
     (case processQueue ops True (\<lambda>_. Inl err) (\<lambda>_. Inl err) (fst t) db of
        (db1, None) \<Rightarrow> (db1, None)
      | (db1, Some (job, delay)) \<Rightarrow> (retry_callback ops (snd t) job db1, Some delay))"

primrec failing_rounds ::
  "'db redis_ops \<Rightarrow> string \<Rightarrow> (millis \<times> millis) list \<Rightarrow> 'db \<Rightarrow> 'db \<times> rat option list" where
  "failing_rounds ops err [] db = (db, [])"
| "failing_rounds ops err (t # ts) db =
     (let (db1, d) = failing_round ops err t db; (db2, ds) = failing_rounds ops err ts db1 in (db2, d # ds))"

text \<open>A job that waits alone, has not failed since it was last queued, and is the only job for its content.\<close>

definition waits_alone :: "'db redis_ops \<Rightarrow> 'db redis_view \<Rightarrow> string \<Rightarrow> string \<Rightarrow> int \<Rightarrow> int \<Rightarrow> 'db \<Rightarrow> bool" where
  "waits_alone ops view i cid p m db \<longleftrightarrow>
     zset_of view db QUEUE_KEY = [i \<mapsto> p] \<and>
     (\<exists>j. getJob ops i db = Some j \<and> pj_id j = i \<and> pj_cid j = cid \<and> pj_action j = ''pin'' \<and> pj_status j = ''queued'' \<and>
          pj_retries j = Some 0 \<and> pj_maxRetries j = Some m \<and> pj_priority j = Some p) \<and>
     (\<forall>i' j'. getJob ops i' db = Some j' \<and> pj_cid j' = cid \<longrightarrow> i' = i)"

context redis_server
begin

lemma updateStatus_getJob:
  assumes "getJob ops i db = Some j"
  shows "getJob ops i' (updateStatus ops now i st err db) =
           (if i' = i then Some (normal_job (updated_job now st err j)) else getJob ops i' db)"
    and "zset_of view (updateStatus ops now i st err db) = zset_of view db"
proof -
  have data: "hgetall ops db (job_key i) \<noteq> []" "mapToJob (hgetall ops db (job_key i)) = j"
    using assms by (auto simp: getJob_hgetall split: if_splits)
  then show "getJob ops i' (updateStatus ops now i st err db) =
           (if i' = i then Some (normal_job (updated_job now st err j)) else getJob ops i' db)"
    "zset_of view (updateStatus ops now i st err db) = zset_of view db"
    by (simp_all add: updateStatus_def Let_def getJob_hset zset_frame)
qed

text \<open>The only job for a content is found again by \<open>retryFailed\<close>, and its counter is set back.\<close>

lemma retryFailed_only:
  assumes "getJob ops i db = Some j" "pj_id j = i" "pj_status j = ''failed''" "pj_priority j = Some p"
    and "pj_cid j = cid" "cid \<noteq> []" "\<And>i' j'. getJob ops i' db = Some j' \<Longrightarrow> pj_cid j' = cid \<Longrightarrow> i' = i"
  shows "zset_of view (fst (retryFailed ops now cid db)) QUEUE_KEY = (zset_of view db QUEUE_KEY)(i \<mapsto> p)"
    and "getJob ops i' (fst (retryFailed ops now cid db)) =
           (if i' = i then Some (j\<lparr>pj_status := ''queued'', pj_retries := Some 0, pj_error := None, pj_updatedAt := Some now\<rparr>)
            else getJob ops i' db)"
proof -
  let ?data = "hgetall ops db (job_key i)"
  have found: "fst (retryFailed ops now cid db) = requeue ops (job_key i) (retried_data now ?data) db"
  proof (rule retryFailed_cases [of now cid db])
    assume "\<And>i j. getJob ops i db = Some j \<Longrightarrow> pj_status j = ''failed'' \<Longrightarrow> pj_cid j = cid \<Longrightarrow> cid = []"
    then have "cid = []" using assms(1,3,5) by blast
    with assms(6) show ?thesis by blast
  next
    fix i' j'
    assume "getJob ops i' db = Some j'" "pj_cid j' = cid"
    then have "i' = i" by (rule assms(7))
    moreover assume "fst (retryFailed ops now cid db) = requeue ops (job_key i') (retried_data now (hgetall ops db (job_key i'))) db"
    ultimately show ?thesis by simp
  qed
  have j: "mapToJob ?data = j" using assms(1) by (auto simp: getJob_hgetall split: if_splits)
  have "pj_id (mapToJob ?data) = or_default (map_of ?data ''id'') []"
    "pj_priority (mapToJob ?data) = parseInt (or_default (map_of ?data ''priority'') ''0'')"
    by (simp_all add: mapToJob_def field_def num_field_def)
  then have "field (retried_data now ?data) ''id'' = i"
    "parseInt (or_default (map_of (retried_data now ?data) ''priority'') ''0'') = Some p"
    using assms(2,4) by (simp_all add: field_def map_of_retried j)
  then have rq: "requeue ops (job_key i) (retried_data now ?data) db =
      zadd ops (hset ops db (job_key i) (retried_data now ?data)) QUEUE_KEY p i"
    by (simp add: requeue_def)
  show "zset_of view (fst (retryFailed ops now cid db)) QUEUE_KEY = (zset_of view db QUEUE_KEY)(i \<mapsto> p)"
    by (simp add: found rq zset_zadd zset_frame)
  show "getJob ops i' (fst (retryFailed ops now cid db)) =
      (if i' = i then Some (j\<lparr>pj_status := ''queued'', pj_retries := Some 0, pj_error := None, pj_updatedAt := Some now\<rparr>)
       else getJob ops i' db)"
    by (simp only: found rq getJob_frame getJob_retried [OF assms(1)])
qed

lemma dequeue_waiting:
  assumes "waits_alone ops view i cid p m db"
  obtains j db1 where "pin_dequeue ops now db = (db1, Some j)" "zset_of view db1 QUEUE_KEY = Map.empty"
    and "getJob ops i db1 = Some (normal_job j)" "\<And>i'. i' \<noteq> i \<Longrightarrow> getJob ops i' db1 = getJob ops i' db"
    and "pj_id j = i" "pj_cid j = cid" "pj_action j = ''pin''" "pj_retries j = Some 0" "pj_maxRetries j = Some m"
        "pj_priority j = Some p"
proof -
  obtain j where j: "getJob ops i db = Some j" "pj_id j = i" "pj_cid j = cid" "pj_action j = ''pin''"
      "pj_retries j = Some 0" "pj_maxRetries j = Some m" "pj_priority j = Some p"
    using assms by (auto simp: waits_alone_def)
  have z: "zset_of view db QUEUE_KEY = [i \<mapsto> p]" using assms by (simp add: waits_alone_def)
  then have "zrange_first ops db QUEUE_KEY \<noteq> None" by (simp add: zrange_first_None)
  then obtain e where e: "zrange_first ops db QUEUE_KEY = Some e" by blast
  then have "least_member [i \<mapsto> p] e" using zrange_first_Some z by metis
  then have "e = (i, p)" by (cases e) (auto simp: least_member_def split: if_splits)
  note first = e [unfolded this]
  show ?thesis
    by (rule that [OF pin_dequeue_Some [OF first j(1)]])
      (simp_all add: j(2-) zset_frame zset_zpopmin first z getJob_hset)
qed

lemma failing_round_waits:
  assumes "waits_alone ops view i cid p m db" "0 < m" "cid \<noteq> []"
  shows "snd (failing_round ops err t db) = Some 1000 \<and> waits_alone ops view i cid p m (fst (failing_round ops err t db))"
proof -
  obtain j db1 where d: "pin_dequeue ops (fst t) db = (db1, Some j)" "zset_of view db1 QUEUE_KEY = Map.empty"
    and g1: "getJob ops i db1 = Some (normal_job j)" and others: "\<And>i'. i' \<noteq> i \<Longrightarrow> getJob ops i' db1 = getJob ops i' db"
    and j: "pj_id j = i" "pj_cid j = cid" "pj_action j = ''pin''" "pj_retries j = Some 0" "pj_maxRetries j = Some m"
        "pj_priority j = Some p"
    using dequeue_waiting [OF assms(1), of "fst t"] by metis
  let ?j2 = "normal_job (updated_job (fst t) ''failed'' (Some err) (normal_job j))"
  let ?db2 = "updateStatus ops (fst t) i ''failed'' (Some err) db1"
  have pq: "processQueue ops True (\<lambda>_. Inl err) (\<lambda>_. Inl err) (fst t) db = (?db2, Some (j, 1000))"
    using d(1) j assms(2) by (simp add: processQueue_def run_job_def scheduled_retry_def backoffMs_def)
  have g2: "getJob ops i' ?db2 = (if i' = i then Some ?j2 else getJob ops i' db1)" for i'
    by (rule updateStatus_getJob(1) [OF g1])
  have z2: "zset_of view ?db2 QUEUE_KEY = Map.empty" using d(2) updateStatus_getJob(2) [OF g1] by simp
  have only: "i' = i" if "getJob ops i' ?db2 = Some j'" "pj_cid j' = cid" for i' j'
    using that g2 others assms(1) by (metis waits_alone_def)
  have fr: "failing_round ops err t db = (fst (retryFailed ops (snd t) cid ?db2), Some 1000)"
    by (simp add: failing_round_def pq retry_callback_def g2 j)
  have j2: "getJob ops i ?db2 = Some ?j2" "pj_id ?j2 = i" "pj_status ?j2 = ''failed''" "pj_priority ?j2 = Some p" "pj_cid ?j2 = cid"
    by (simp_all add: g2 j)
  note r = retryFailed_only [OF j2 assms(3) only, where now = "snd t"]
  have "waits_alone ops view i cid p m (fst (retryFailed ops (snd t) cid ?db2))"
    unfolding waits_alone_def using r g2 others assms(1) by (auto simp: j z2 waits_alone_def split: if_splits)
  with fr show ?thesis by simp
qed

lemma failing_rounds_wait:
  assumes "waits_alone ops view i cid p m db" "0 < m" "cid \<noteq> []"
  shows "snd (failing_rounds ops err ts db) = replicate (length ts) (Some 1000) \<and>
         waits_alone ops view i cid p m (fst (failing_rounds ops err ts db))"
  using assms(1)
proof (induction ts arbitrary: db)
  case (Cons t ts)
  then show ?case using failing_round_waits [OF Cons.prems assms(2,3), of err t] by (simp add: case_prod_beta Let_def)
qed simp

end

section \<open>Lemmas on the verification of pins\<close>

lemma verify_loop_counts:
  "fst (snd (verify_loop ops pinLs keys a b db)) + snd (snd (verify_loop ops pinLs keys a b db)) = a + b + length keys"
  by (induction keys arbitrary: a b db) (auto split: sum.split)

lemma pinned_cid_of_key [simp]: "pinned_cid_of (pinned_key cid) = cid"
  by (simp add: pinned_cid_of_def pinned_key_def)

lemma startsWith_pinned_key [simp]: "startsWith (pinned_key cid) (PINNED_CID_PREFIX @ '':'')"
  by (simp add: startsWith_def pinned_key_def)

context redis_server
begin

lemma verify_loop_strings:
  "str_of view (fst (verify_loop ops pinLs keys a b db)) k =
     (if k \<in> set keys \<and> pinLs (pinned_cid_of k) = Inr [] then None else str_of view db k)"
  by (induction keys arbitrary: a b db) (auto simp: str_frame split: sum.split)

lemma verifyAllPins_strings:
  "str_of view (fst (verifyAllPins ops pinLs db)) (pinned_key cid) =
     (if pinLs cid = Inr [] then None else str_of view db (pinned_key cid))"
  by (simp add: verifyAllPins_def Let_def case_prod_beta verify_loop_strings str_keys_set)

lemma access_count_increments:
  assumes "getAccessCount ops cid db = Some n"
  shows "getAccessCount ops cid (recordAccess ops cid db) = Some (n + 1)"
proof -
  have "or_default (Option.bind (str_of view db (access_key cid)) parseInt) 0 = n"
    using assms by (cases "str_of view db (access_key cid)") (auto simp: getAccessCount_def str_rget parseInt_def parse_sign_def split: if_splits)
  then show ?thesis
    by (simp add: getAccessCount_def recordAccess_def str_rget str_rincr str_frame incremented_def parseInt_string_of_int)
qed

end

section \<open>Properties\<close>

text \<open>A pin that always fails is retried forever, one second after each failure. \<open>retryFailed\<close> sets the
  retry counter of the job back to zero, so the comparison with \<open>maxRetries\<close> always succeeds and the
  delay never grows: after any number of rounds every round has scheduled a retry after 1000 ms and the
  job is waiting again with a retry counter of 0.\<close>

theorem failing_pin_retried_forever:
  assumes "redis_server ops view" "waits_alone ops view i cid p m db" "0 < m" "cid \<noteq> []"
  shows "snd (failing_rounds ops err ts db) = replicate (length ts) (Some 1000) \<and>
         waits_alone ops view i cid p m (fst (failing_rounds ops err ts db))"
  using assms by (rule redis_server.failing_rounds_wait)

theorem failing_pin_retried_forever_witness:
  "snd (failing_rounds mem_ops ''node down'' [(1, 2), (3, 4), (5, 6), (7, 8), (9, 10)]
      (fst (pin_enqueue mem_ops 3 0 ''j'' ''cid'' ''g'' ''c'' ''pin'' 0 empty_db))) = replicate 5 (Some 1000)"
proof -
  let ?db = "fst (pin_enqueue mem_ops 3 0 ''j'' ''cid'' ''g'' ''c'' ''pin'' 0 empty_db)"
  have "getJob mem_ops i' ?db = (if i' = ''j'' then Some (normal_job (new_job 3 0 ''j'' ''cid'' ''g'' ''c'' ''pin'' 0)) else None)" for i'
    by (simp only: pin_enqueue_def Let_def fst_conv mem.getJob_frame mem.getJob_hset empty_db_pins)
  moreover have "zset_of mem_view ?db QUEUE_KEY = [''j'' \<mapsto> 0]"
    by (simp add: pin_enqueue_def Let_def mem.redis_laws) (simp add: mem_view_def empty_db_def)
  ultimately have "waits_alone mem_ops mem_view ''j'' ''cid'' 0 3 ?db"
    by (simp add: waits_alone_def new_job_def)
  from failing_pin_retried_forever [OF mem.redis_server_axioms this,
      of "''node down''" "[(1, 2), (3, 4), (5, 6), (7, 8), (9, 10)]"]
  show ?thesis by (simp del: failing_rounds.simps add: numeral_eq_Suc)
qed

text \<open>Verifying the pins forgets exactly the contents the node reports as not pinned: the mark of a content
  is removed if the node lists no pin for it and kept if it lists one or does not answer, and the report
  accounts for every mark.\<close>

theorem verify_forgets_missing_pins:
  assumes "redis_server ops view"
  shows "rget ops (fst (verifyAllPins ops pinLs db)) (pinned_key cid) =
           (if pinLs cid = Inr [] then None else rget ops db (pinned_key cid)) \<and>
         rep_total (snd (verifyAllPins ops pinLs db)) =
           rep_pinned (snd (verifyAllPins ops pinLs db)) + rep_missing (snd (verifyAllPins ops pinLs db))"
proof -
  have "rep_total (snd (verifyAllPins ops pinLs db)) =
      rep_pinned (snd (verifyAllPins ops pinLs db)) + rep_missing (snd (verifyAllPins ops pinLs db))"
    using verify_loop_counts [of ops pinLs "str_keys ops db (PINNED_CID_PREFIX @ '':'')" 0 0 db]
    by (simp add: verifyAllPins_def Let_def case_prod_beta)
  then show ?thesis
    using redis_server.verifyAllPins_strings [OF assms] by (simp add: redis_server.str_rget [OF assms])
qed

theorem verify_forgets_missing_pins_witness:
  "rget mem_ops (fst (verifyAllPins mem_ops (\<lambda>c. if c = ''gone'' then Inr [] else Inr [c])
      (rset mem_ops (rset mem_ops empty_db (pinned_key ''gone'') ''true'') (pinned_key ''kept'') ''true''))) (pinned_key ''gone'') = None"
  using verify_forgets_missing_pins [OF mem.redis_server_axioms, of "\<lambda>c. if c = ''gone'' then Inr [] else Inr [c]" _ "''gone''"]
  by simp

end
