(* ===== verification/Js_Values.thy ===== *)
theory Js_Values
  imports Http "HOL-Library.AList"
begin

text \<open>
  Two further parts of the language's library: \<open>Date.prototype.toISOString\<close> with its inverse reading, and
  \<open>JSON.stringify\<close>. A date is its number of milliseconds since the epoch; the calendar is the proleptic
  Gregorian one, computed by eras of 400 years. How a non-integral number is printed is left open: the
  printer \<open>fmt\<close> is an argument.
\<close>

section \<open>Dates\<close>

definition MS_PER_DAY :: int where "MS_PER_DAY = 86400000"

text \<open>Year, month and day of a day number; the year begins in March inside the computation.\<close>

definition civil_from_days :: "int \<Rightarrow> int \<times> int \<times> int" where
  "civil_from_days z0 =
     (let z = z0 + 719468; era = z div 146097; doe = z - era * 146097;
          yoe = (doe - doe div 1460 + doe div 36524 - doe div 146096) div 365;
          doy = doe - (365 * yoe + yoe div 4 - yoe div 100);
          mp = (5 * doy + 2) div 153;
          d = doy - (153 * mp + 2) div 5 + 1;
          m = (if mp < 10 then mp + 3 else mp - 9)
      in (yoe + era * 400 + (if m \<le> 2 then 1 else 0), m, d))"

definition days_from_civil :: "int \<Rightarrow> int \<Rightarrow> int \<Rightarrow> int" where
  "days_from_civil y0 m d =
     (let y = (if m \<le> 2 then y0 - 1 else y0); era = y div 400; yoe = y - era * 400;
          doy = (153 * (if m > 2 then m - 3 else m + 9) + 2) div 5 + d - 1;
          doe = yoe * 365 + yoe div 4 - yoe div 100 + doy
      in era * 146097 + doe - 719468)"

definition pad :: "nat \<Rightarrow> int \<Rightarrow> string" where
  "pad n i = (let s = string_of_int i in replicate (n - length s) CHR ''0'' @ s)"

definition year_string :: "int \<Rightarrow> string" where
  "year_string y = (if 0 \<le> y \<and> y \<le> 9999 then pad 4 y
                    else (if y < 0 then ''-'' else ''+'') @ pad 6 (abs y))"

definition toISOString :: "millis \<Rightarrow> string" where
  "toISOString t =
     (let (y, m, d) = civil_from_days (t div MS_PER_DAY); r = t mod MS_PER_DAY
      in year_string y @ ''-'' @ pad 2 m @ ''-'' @ pad 2 d @ ''T'' @ pad 2 (r div 3600000) @ '':'' @
         pad 2 (r div 60000 mod 60) @ '':'' @ pad 2 (r div 1000 mod 60) @ ''.'' @ pad 3 (r mod 1000) @ ''Z'')"

text \<open>\<open>new Date(s).getTime()\<close> for a string of the form \<open>YYYY-MM-DDTHH:mm:ss.sssZ\<close>; anything else is \<open>NaN\<close>.\<close>

definition digits_at :: "nat \<Rightarrow> nat \<Rightarrow> string \<Rightarrow> int" where
  "digits_at i n s = int (digits_value 0 (take n (drop i s)))"

definition iso_shape :: "string \<Rightarrow> bool" where
  "iso_shape s \<longleftrightarrow> length s = 24 \<and>
     list_all (\<lambda>i. if i \<in> {4, 7} then s ! i = CHR ''-'' else if i = 10 then s ! i = CHR ''T''
                   else if i \<in> {13, 16} then s ! i = CHR '':'' else if i = 19 then s ! i = CHR ''.''
                   else if i = 23 then s ! i = CHR ''Z'' else is_digit (s ! i)) [0..<24]"

definition date_parse :: "string \<Rightarrow> millis option" where
  "date_parse s =
     (if iso_shape s
      then Some (days_from_civil (digits_at 0 4 s) (digits_at 5 2 s) (digits_at 8 2 s) * MS_PER_DAY +
                 digits_at 11 2 s * 3600000 + digits_at 14 2 s * 60000 + digits_at 17 2 s * 1000 + digits_at 20 3 s)
      else None)"

section \<open>JSON text\<close>

definition hex_digit :: "nat \<Rightarrow> char" where
  "hex_digit d = (if d < 10 then digit_char d else char_of (87 + d))"

definition escape_char :: "char \<Rightarrow> string" where
  "escape_char c =
     (let n = (of_char c :: nat)
      in if n = 34 then [char_of (92::nat), c] else if n = 92 then [c, c]
         else if n = 8 then [char_of (92::nat), CHR ''b''] else if n = 9 then [char_of (92::nat), CHR ''t'']
         else if n = 10 then [char_of (92::nat), CHR ''n''] else if n = 12 then [char_of (92::nat), CHR ''f'']
         else if n = 13 then [char_of (92::nat), CHR ''r'']
         else if n < 32 then [char_of (92::nat), CHR ''u'', CHR ''0'', CHR ''0'', hex_digit (n div 16), hex_digit (n mod 16)]
         else [c])"

definition quote :: "string \<Rightarrow> string" where
  "quote s = char_of (34::nat) # concat (map escape_char s) @ [char_of (34::nat)]"

fun stringify :: "(rat \<Rightarrow> string) \<Rightarrow> json \<Rightarrow> string" where
  "stringify fmt JNull = ''null''"
| "stringify fmt (JBool b) = (if b then ''true'' else ''false'')"
| "stringify fmt (JNum n) = string_of_int n"
| "stringify fmt (JRat r) = fmt r"
| "stringify fmt (JStr s) = quote s"
| "stringify fmt (JArr vs) = ''['' @ join '','' (map (stringify fmt) vs) @ '']''"
| "stringify fmt (JObj fs) = ''{'' @ join '','' (map (\<lambda>f. quote (fst f) @ '':'' @ stringify fmt (snd f)) fs) @ ''}''"

section \<open>Numbers from strings\<close>

text \<open>\<open>Number(s)\<close> for decimal integers with an optional sign and surrounding space; \<open>NaN\<close> is \<open>None\<close>.\<close>

definition to_number :: "string \<Rightarrow> int option" where
  "to_number s =
     (let w = trim s; (sgn, ds) = parse_sign w
      in if w = [] then Some 0 else if ds \<noteq> [] \<and> list_all is_digit ds then Some (sgn * int (digits_value 0 ds)) else None)"

section \<open>Properties, strings and truth of values\<close>

text \<open>\<open>v[f]\<close>, \<open>undefined\<close> for a value that is no object.\<close>

definition json_field :: "json \<Rightarrow> string \<Rightarrow> json option" where
  "json_field v f = (case v of JObj fs \<Rightarrow> map_of fs f | _ \<Rightarrow> None)"

text \<open>The first of some fields that is neither missing nor \<open>null\<close>: the chain \<open>v?.a ?? v?.b\<close>.\<close>

definition first_field :: "json \<Rightarrow> string list \<Rightarrow> json option" where
  "first_field data ks =
     fold (\<lambda>k acc. case acc of Some v \<Rightarrow> acc | None \<Rightarrow> (case json_field data k of Some JNull \<Rightarrow> None | r \<Rightarrow> r)) ks None"

text \<open>\<open>String(v)\<close>; in an array \<open>null\<close> is the empty string.\<close>

fun js_String :: "(rat \<Rightarrow> string) \<Rightarrow> json \<Rightarrow> string" where
  "js_String fmt JNull = ''null''"
| "js_String fmt (JBool b) = (if b then ''true'' else ''false'')"
| "js_String fmt (JNum i) = string_of_int i"
| "js_String fmt (JRat q) = fmt q"
| "js_String fmt (JStr s) = s"
| "js_String fmt (JArr vs) = join '','' (map (\<lambda>v. if v = JNull then [] else js_String fmt v) vs)"
| "js_String fmt (JObj fs) = ''[object Object]''"

text \<open>Truthiness: \<open>null\<close>, \<open>false\<close>, zero and the empty string are falsy.\<close>

fun json_truthy :: "json \<Rightarrow> bool" where
  "json_truthy JNull = False"
| "json_truthy (JBool b) = b"
| "json_truthy (JNum i) = (i \<noteq> 0)"
| "json_truthy (JRat q) = (q \<noteq> 0)"
| "json_truthy (JStr s) = (s \<noteq> [])"
| "json_truthy _ = True"

text \<open>\<open>Number(v)\<close>; an array or an object is \<open>NaN\<close>.\<close>

fun json_number :: "json \<Rightarrow> rat option" where
  "json_number JNull = Some 0"
| "json_number (JBool b) = Some (if b then 1 else 0)"
| "json_number (JNum i) = Some (of_int i)"
| "json_number (JRat q) = Some q"
| "json_number (JStr s) = map_option of_int (to_number s)"
| "json_number _ = None"

text \<open>\<open>{...data, [f]: v}\<close>: spreading a value that is no object adds no fields.\<close>

definition with_field :: "json \<Rightarrow> string \<Rightarrow> json \<Rightarrow> json" where
  "with_field data f v = JObj (AList.update f v (case data of JObj fs \<Rightarrow> fs | _ \<Rightarrow> []))"

lemma json_field_with_field [simp]:
  "json_field (with_field d f v) k = (if k = f then Some v else json_field d k)"
  by (auto simp: json_field_def with_field_def update_conv' split: json.split)

lemma set_update_subset: "set (AList.update k v fs) \<subseteq> insert (k, v) (set fs)"
  by (induction fs) auto

end
