(* ===== verification/Hash_Chain.thy ===== *)
theory Hash_Chain
  imports Js_Values
begin

text \<open>
  The interface of the two tamper-evident logs, \<open>audit_event_log.ts\<close> and \<open>regulatory_audit_trail.ts\<close>. An
  entry carries its own hash and that of its predecessor; the hash is the digest of the hashed fields,
  joined by bars. The locale states what a log promises: an appended entry continues the chain, and
  verification accepts exactly the intact chains. The digest is a parameter; where a lemma needs that
  it separates two payloads, that is a hypothesis about these two payloads only.
\<close>

text \<open>An intact chain from a given hash.\<close>

fun chain_ok :: "('h \<Rightarrow> 'e \<Rightarrow> 'h) \<Rightarrow> ('e \<Rightarrow> 'h) \<Rightarrow> ('e \<Rightarrow> 'h) \<Rightarrow> 'h \<Rightarrow> 'e list \<Rightarrow> bool" where
  "chain_ok link hash prev h [] = True"
| "chain_ok link hash prev h (e # es) = (prev e = h \<and> hash e = link h e \<and> chain_ok link hash prev (hash e) es)"

lemma chain_ok_append:
  "chain_ok link hash prev h (es @ es') \<longleftrightarrow>
     chain_ok link hash prev h es \<and> chain_ok link hash prev (if es = [] then h else hash (last es)) es'"
  by (induction es arbitrary: h) auto

lemma chain_ok_nth_prev:
  "chain_ok link hash prev h es \<Longrightarrow> Suc i < length es \<Longrightarrow> prev (es ! Suc i) = hash (es ! i)"
proof (induction es arbitrary: h i)
  case (Cons e es)
  then show ?case by (cases i; cases es) auto
qed simp

lemma chain_ok_nth_link:
  "chain_ok link hash prev h es \<Longrightarrow> i < length es \<Longrightarrow> hash (es ! i) = link (prev (es ! i)) (es ! i)"
proof (induction es arbitrary: h i)
  case (Cons e es)
  then show ?case by (cases i) auto
qed simp

locale hash_chain =
  fixes sha :: "string \<Rightarrow> string"
    and fields :: "string \<Rightarrow> 'e \<Rightarrow> string list"
    and hash :: "'e \<Rightarrow> string"
    and prev :: "'e \<Rightarrow> string"
    and genesis :: string
    and verified :: "'e list \<Rightarrow> bool"
    and appended :: "'e list \<Rightarrow> 'e \<Rightarrow> bool"
  assumes verified_iff: "verified es \<longleftrightarrow> chain_ok (\<lambda>h e. sha (join ''|'' (fields h e))) hash prev genesis es"
    and appended_prev: "appended es e \<Longrightarrow> prev e = (if es = [] then genesis else hash (last es))"
    and appended_hash: "appended es e \<Longrightarrow> hash e = sha (join ''|'' (fields (prev e) e))"
    and fields_nonempty: "fields h e \<noteq> []"
begin

lemma verified_append: "verified es \<Longrightarrow> appended es e \<Longrightarrow> verified (es @ [e])"
  using appended_prev [of es e] appended_hash [of es e] by (simp add: verified_iff chain_ok_append)

lemma verified_Nil: "verified []"
  by (simp add: verified_iff)

text \<open>An entry with a successor cannot be changed in any hashed field, unless the digest collides.\<close>

lemma tamper_evident:
  assumes "verified es" "verified (es[i := e'])" "Suc i < length es"
    and "\<And>f. f \<in> set (fields (prev (es ! i)) (es ! i)) \<union> set (fields (prev e') e') \<Longrightarrow> CHR ''|'' \<notin> set f"
    and "sha (join ''|'' (fields (prev e') e')) = sha (join ''|'' (fields (prev (es ! i)) (es ! i))) \<Longrightarrow>
         join ''|'' (fields (prev e') e') = join ''|'' (fields (prev (es ! i)) (es ! i))"
  shows "fields (prev e') e' = fields (prev (es ! i)) (es ! i)"
proof -
  have i: "i < length es" using assms(3) by simp
  have "hash e' = prev (es[i := e'] ! Suc i)"
    using chain_ok_nth_prev [OF assms(2) [unfolded verified_iff], of i] assms(3) i by simp
  also have "\<dots> = hash (es ! i)"
    using chain_ok_nth_prev [OF assms(1) [unfolded verified_iff], of i] assms(3) by simp
  finally have same: "hash e' = hash (es ! i)" .
  have "hash e' = sha (join ''|'' (fields (prev e') e'))"
    using chain_ok_nth_link [OF assms(2) [unfolded verified_iff], of i] i by simp
  moreover have "hash (es ! i) = sha (join ''|'' (fields (prev (es ! i)) (es ! i)))"
    using chain_ok_nth_link [OF assms(1) [unfolded verified_iff] i] .
  ultimately have "join ''|'' (fields (prev e') e') = join ''|'' (fields (prev (es ! i)) (es ! i))"
    using same assms(5) by simp
  then show ?thesis using assms(4) fields_nonempty by (intro join_inject [of _ _ "CHR ''|''"]) auto
qed

end

end
