(* ===== verification/Regulatory_Trail.thy ===== *)
theory Regulatory_Trail
  imports Hash_Chain
begin

text \<open>
  The regulatory audit trail, \<open>backend/src/regulatory_audit_trail.ts\<close>: an in-memory log of financial
  events with a hash chain, its verification, the period report and the archive query. The SHA-256 digest
  is the argument \<open>sha\<close>, the random suffix of an id is an argument.
\<close>

section \<open>Events\<close>

datatype FinancialEventType =
  group_created | member_joined | contribution_received | payout_executed | group_paused | group_unpaused | group_completed

primrec event_name :: "FinancialEventType \<Rightarrow> string" where
  "event_name group_created = ''group.created''"
| "event_name member_joined = ''member.joined''"
| "event_name contribution_received = ''contribution.received''"
| "event_name payout_executed = ''payout.executed''"
| "event_name group_paused = ''group.paused''"
| "event_name group_unpaused = ''group.unpaused''"
| "event_name group_completed = ''group.completed''"

text \<open>The caller's part of an event; \<open>amount\<close> is a decimal string.\<close>

record event_params =
  fe_eventType :: FinancialEventType
  fe_actorAddress :: string
  fe_groupId :: int
  fe_amount :: "string option"
  fe_recipient :: "string option"
  fe_txHash :: "string option"
  fe_metadata :: json

record FinancialAuditEvent = event_params +
  fe_id :: string
  fe_timestamp :: string
  fe_hash :: string
  fe_prevHash :: string

record RetentionPolicy =
  retainDays :: int
  archiveAfterDays :: int

definition DEFAULT_RETENTION :: RetentionPolicy where
  "DEFAULT_RETENTION = \<lparr>retainDays = 2555, archiveAfterDays = 365\<rparr>"

definition zero_hash :: string where
  "zero_hash = replicate 64 CHR ''0''"

text \<open>The module's state: the array and \<open>lastHash\<close>.\<close>

record trail =
  auditLog :: "FinancialAuditEvent list"
  lastHash :: string

definition empty_trail :: trail where
  "empty_trail = \<lparr>auditLog = [], lastHash = zero_hash\<rparr>"

definition payload_fields :: "string \<Rightarrow> string \<Rightarrow> string \<Rightarrow> FinancialEventType \<Rightarrow> int \<Rightarrow> string \<Rightarrow> string list" where
  "payload_fields prev eid actor etype groupId timestamp =
     [prev, eid, actor, event_name etype, string_of_int groupId, timestamp]"

definition recordFinancialEvent ::
  "(string \<Rightarrow> string) \<Rightarrow> millis \<Rightarrow> string \<Rightarrow> event_params \<Rightarrow> trail \<Rightarrow> trail \<times> FinancialAuditEvent" where
  "recordFinancialEvent sha now rnd params s =
     (let eid = string_of_int now @ ''-'' @ rnd;
          timestamp = toISOString now;
          hash = sha (join ''|'' (payload_fields (lastHash s) eid (fe_actorAddress params) (fe_eventType params)
                                    (fe_groupId params) timestamp));
          event = event_params.extend params
                    (FinancialAuditEvent.fields eid timestamp hash (lastHash s))
      in (\<lparr>auditLog = auditLog s @ [event], lastHash = hash\<rparr>, event))"

section \<open>Verification and reports\<close>

definition event_fields :: "string \<Rightarrow> FinancialAuditEvent \<Rightarrow> string list" where
  "event_fields prev e =
     payload_fields prev (fe_id e) (fe_actorAddress e) (fe_eventType e) (fe_groupId e) (fe_timestamp e)"

fun verify_from :: "(string \<Rightarrow> string) \<Rightarrow> nat \<Rightarrow> string \<Rightarrow> FinancialAuditEvent list \<Rightarrow> bool \<times> nat option" where
  "verify_from sha i prev [] = (True, None)"
| "verify_from sha i prev (e # es) =
     (let expected = sha (join ''|'' (event_fields prev e))
      in if fe_hash e \<noteq> expected \<or> fe_prevHash e \<noteq> prev then (False, Some i)
         else verify_from sha (Suc i) (fe_hash e) es)"

definition verifyAuditChain :: "(string \<Rightarrow> string) \<Rightarrow> FinancialAuditEvent list \<Rightarrow> bool \<times> nat option" where
  "verifyAuditChain sha log_entries = verify_from sha 0 zero_hash log_entries"

record AuditReport =
  ar_generatedAt :: string
  ar_periodStart :: string
  ar_periodEnd :: string
  ar_totalEvents :: nat
  ar_totalContributions :: nat
  ar_totalPayouts :: nat
  ar_contributionVolume :: int
  ar_payoutVolume :: int
  ar_events :: "FinancialAuditEvent list"

definition in_period :: "millis \<Rightarrow> millis \<Rightarrow> FinancialAuditEvent \<Rightarrow> bool" where
  "in_period a b e = (case date_parse (fe_timestamp e) of Some t \<Rightarrow> a \<le> t \<and> t \<le> b | None \<Rightarrow> False)"

text \<open>\<open>BigInt(s)\<close> of a decimal string with an optional sign; \<open>None\<close>: it throws.\<close>

definition bigint :: "string \<Rightarrow> int option" where
  "bigint s = (let (sgn, ds) = parse_sign (trim s)
               in if trim s = [] then Some 0
                  else if ds \<noteq> [] \<and> list_all is_digit ds then Some (sgn * int (digits_value 0 ds)) else None)"

fun volume_of :: "FinancialEventType \<Rightarrow> FinancialAuditEvent list \<Rightarrow> int option" where
  "volume_of ty [] = Some 0"
| "volume_of ty (e # es) =
     (if fe_eventType e = ty \<and> truthy (fe_amount e)
      then (case (bigint (the (fe_amount e)), volume_of ty es) of (Some a, Some v) \<Rightarrow> Some (a + v) | _ \<Rightarrow> None)
      else volume_of ty es)"

text \<open>\<open>None\<close>: some amount is not a number and the report throws.\<close>

definition generateRegulatoryReport ::
  "millis \<Rightarrow> millis \<Rightarrow> millis \<Rightarrow> FinancialAuditEvent list \<Rightarrow> AuditReport option" where
  "generateRegulatoryReport now periodStart periodEnd log_entries =
     (let filtered = filter (in_period periodStart periodEnd) log_entries
      in case (volume_of contribution_received filtered, volume_of payout_executed filtered) of
           (Some c, Some p) \<Rightarrow>
             Some \<lparr>ar_generatedAt = toISOString now, ar_periodStart = toISOString periodStart,
                   ar_periodEnd = toISOString periodEnd, ar_totalEvents = length filtered,
                   ar_totalContributions = length (filter (\<lambda>e. fe_eventType e = contribution_received) filtered),
                   ar_totalPayouts = length (filter (\<lambda>e. fe_eventType e = payout_executed) filtered),
                   ar_contributionVolume = c, ar_payoutVolume = p, ar_events = filtered\<rparr>
         | _ \<Rightarrow> None)"

definition getEventsEligibleForArchive :: "millis \<Rightarrow> RetentionPolicy \<Rightarrow> FinancialAuditEvent list \<Rightarrow> FinancialAuditEvent list" where
  "getEventsEligibleForArchive now policy log_entries =
     (let archiveCutoff = now - archiveAfterDays policy * 86400000
      in filter (\<lambda>e. case date_parse (fe_timestamp e) of Some t \<Rightarrow> t < archiveCutoff | None \<Rightarrow> False) log_entries)"

primrec record_all :: "(string \<Rightarrow> string) \<Rightarrow> (millis \<times> string \<times> event_params) list \<Rightarrow> trail \<Rightarrow> trail" where
  "record_all sha [] s = s"
| "record_all sha (c # cs) s = record_all sha cs (fst (recordFinancialEvent sha (fst c) (fst (snd c)) (snd (snd c)) s))"

section \<open>Lemmas\<close>

definition trail_appended :: "(string \<Rightarrow> string) \<Rightarrow> FinancialAuditEvent list \<Rightarrow> FinancialAuditEvent \<Rightarrow> bool" where
  "trail_appended sha es e \<longleftrightarrow>
     (\<exists>now rnd params s. auditLog s = es \<and> lastHash s = (if es = [] then zero_hash else fe_hash (last es)) \<and>
        e = snd (recordFinancialEvent sha now rnd params s))"

lemma verify_from_iff:
  "fst (verify_from sha i h es) \<longleftrightarrow> chain_ok (\<lambda>h e. sha (join ''|'' (event_fields h e))) fe_hash fe_prevHash h es"
  by (induction es arbitrary: i h) (auto simp: Let_def)

lemma recorded_event:
  "fe_prevHash (snd (recordFinancialEvent sha now rnd params s)) = lastHash s"
  "fe_hash (snd (recordFinancialEvent sha now rnd params s)) =
     sha (join ''|'' (event_fields (lastHash s) (snd (recordFinancialEvent sha now rnd params s))))"
  "auditLog (fst (recordFinancialEvent sha now rnd params s)) = auditLog s @ [snd (recordFinancialEvent sha now rnd params s)]"
  "lastHash (fst (recordFinancialEvent sha now rnd params s)) = fe_hash (snd (recordFinancialEvent sha now rnd params s))"
  by (simp_all add: recordFinancialEvent_def Let_def event_fields_def event_params.extend_def FinancialAuditEvent.fields_def)

interpretation trail: hash_chain sha event_fields fe_hash fe_prevHash zero_hash
  "\<lambda>es. fst (verifyAuditChain sha es)" "trail_appended sha" for sha
proof unfold_locales
  fix es :: "FinancialAuditEvent list" and e
  show "fst (verifyAuditChain sha es) \<longleftrightarrow>
      chain_ok (\<lambda>h e. sha (join ''|'' (event_fields h e))) fe_hash fe_prevHash zero_hash es"
    by (simp add: verifyAuditChain_def verify_from_iff)
  show "fe_prevHash e = (if es = [] then zero_hash else fe_hash (last es))" if "trail_appended sha es e"
    using that by (auto simp: trail_appended_def recorded_event)
  show "fe_hash e = sha (join ''|'' (event_fields (fe_prevHash e) e))" if "trail_appended sha es e"
    using that recorded_event(1,2) by (force simp: trail_appended_def)
  show "event_fields h e \<noteq> []" for h by (simp add: event_fields_def payload_fields_def)
qed

definition trail_inv :: "(string \<Rightarrow> string) \<Rightarrow> trail \<Rightarrow> bool" where
  "trail_inv sha s \<longleftrightarrow> fst (verifyAuditChain sha (auditLog s)) \<and>
     lastHash s = (if auditLog s = [] then zero_hash else fe_hash (last (auditLog s)))"

lemma trail_inv_record: "trail_inv sha s \<Longrightarrow> trail_inv sha (fst (recordFinancialEvent sha now rnd params s))"
proof -
  assume inv: "trail_inv sha s"
  let ?e = "snd (recordFinancialEvent sha now rnd params s)"
  have "trail_appended sha (auditLog s) ?e" using inv unfolding trail_appended_def trail_inv_def by blast
  then have "fst (verifyAuditChain sha (auditLog s @ [?e]))"
    using inv by (intro trail.verified_append) (simp_all add: trail_inv_def)
  then show ?thesis by (simp add: trail_inv_def recorded_event(3,4))
qed

lemma record_all_inv: "trail_inv sha s \<Longrightarrow> trail_inv sha (record_all sha cs s)"
  by (induction cs arbitrary: s) (auto intro: trail_inv_record)

lemma verify_from_None: "fst (verify_from sha i h es) \<Longrightarrow> snd (verify_from sha i h es) = None"
  by (induction es arbitrary: i h) (auto simp: Let_def split: if_splits)

lemma verify_from_unhashed:
  assumes "\<And>e. event_fields h e = event_fields h (g e) \<and> fe_hash (g e) = fe_hash e \<and> fe_prevHash (g e) = fe_prevHash e"
    and "\<And>h e. event_fields h (g e) = event_fields h e"
  shows "verify_from sha i h (map g es) = verify_from sha i h es"
  using assms by (induction es arbitrary: i h) simp_all

section \<open>Properties\<close>

text \<open>C29. A trail that was only ever written by \<open>recordFinancialEvent\<close> verifies, whatever events were
  recorded, at whatever times and whatever the digest.\<close>

theorem recorded_trail_verifies:
  "verifyAuditChain sha (auditLog (record_all sha cs empty_trail)) = (True, None)"
proof -
  have "trail_inv sha empty_trail" by (simp add: trail_inv_def empty_trail_def verifyAuditChain_def)
  then have "fst (verifyAuditChain sha (auditLog (record_all sha cs empty_trail)))"
    using record_all_inv by (simp add: trail_inv_def)
  then show ?thesis
    using verify_from_None unfolding verifyAuditChain_def by (metis prod.collapse)
qed

text \<open>The hashed fields are tamper-evident: if an event that is not the last is replaced and the trail still
  verifies, then the replacement has the same predecessor, id, actor, type, group and time stamp, provided
  these fields hold no bar and the digest does not collide on the two payloads.\<close>

theorem trail_tamper_evident:
  assumes "fst (verifyAuditChain sha es)" "fst (verifyAuditChain sha (es[i := e']))" "Suc i < length es"
    and "\<And>f. f \<in> set (event_fields (fe_prevHash (es ! i)) (es ! i)) \<union> set (event_fields (fe_prevHash e') e') \<Longrightarrow>
              CHR ''|'' \<notin> set f"
    and "sha (join ''|'' (event_fields (fe_prevHash e') e')) = sha (join ''|'' (event_fields (fe_prevHash (es ! i)) (es ! i))) \<Longrightarrow>
         join ''|'' (event_fields (fe_prevHash e') e') = join ''|'' (event_fields (fe_prevHash (es ! i)) (es ! i))"
  shows "fe_prevHash e' = fe_prevHash (es ! i) \<and> fe_id e' = fe_id (es ! i) \<and>
         fe_actorAddress e' = fe_actorAddress (es ! i) \<and> event_name (fe_eventType e') = event_name (fe_eventType (es ! i)) \<and>
         fe_groupId e' = fe_groupId (es ! i) \<and> fe_timestamp e' = fe_timestamp (es ! i)"
proof -
  have "event_fields (fe_prevHash e') e' = event_fields (fe_prevHash (es ! i)) (es ! i)"
    using assms by (rule trail.tamper_evident)
  then show ?thesis by (simp add: event_fields_def payload_fields_def)
qed

text \<open>Two events under a constant digest.\<close>

definition sample_event :: "string \<Rightarrow> string \<Rightarrow> FinancialAuditEvent" where
  "sample_event prev eid =
     \<lparr>fe_eventType = contribution_received, fe_actorAddress = ''GA'', fe_groupId = 7, fe_amount = Some ''100'',
      fe_recipient = None, fe_txHash = None, fe_metadata = JNull, fe_id = eid, fe_timestamp = ''t'', fe_hash = ''h'',
      fe_prevHash = prev\<rparr>"

theorem trail_tamper_evident_witness:
  "fe_id ((sample_event zero_hash ''a'')\<lparr>fe_amount := Some ''999''\<rparr>) = ''a''"
proof -
  let ?sha = "\<lambda>s :: string. ''h''" and ?es = "[sample_event zero_hash ''a'', sample_event ''h'' ''b'']"
  let ?e = "(sample_event zero_hash ''a'')\<lparr>fe_amount := Some ''999''\<rparr>"
  have 1: "fst (verifyAuditChain ?sha ?es)" by (simp add: verifyAuditChain_def sample_event_def)
  have 2: "fst (verifyAuditChain ?sha (?es[0 := ?e]))" by (simp add: verifyAuditChain_def sample_event_def)
  have same: "event_fields (fe_prevHash ?e) ?e = event_fields (fe_prevHash (?es ! 0)) (?es ! 0)"
    by (simp add: event_fields_def)
  have "CHR ''|'' \<notin> set (string_of_int 7)"
    using string_of_nat_digits [of "CHR ''|''" 7] by (auto simp: string_of_int_def is_digit_def)
  then have bars: "\<forall>f \<in> set (event_fields (fe_prevHash (?es ! 0)) (?es ! 0)). CHR ''|'' \<notin> set f"
    by (simp add: event_fields_def payload_fields_def sample_event_def zero_hash_def)
  have "fe_id ?e = fe_id (?es ! 0)"
    using trail_tamper_evident [OF 1 2, unfolded same] bars by simp
  then show ?thesis by (simp add: sample_event_def)
qed

text \<open>The amounts are not protected. Changing the amount, recipient, transaction hash and metadata of any
  events leaves the result of the verification unchanged, since none of these fields is hashed.\<close>

theorem trail_amounts_unprotected:
  "verifyAuditChain sha (map (\<lambda>e. e\<lparr>fe_amount := amount e, fe_recipient := recipient e, fe_txHash := tx e,
                                    fe_metadata := meta e\<rparr>) es) = verifyAuditChain sha es"
  unfolding verifyAuditChain_def by (rule verify_from_unhashed) (simp_all add: event_fields_def)

end
