(* ===== verification/Audit_Log.thy ===== *)
theory Audit_Log
  imports Hash_Chain
begin

text \<open>
  The tamper-evident audit log, \<open>backend/src/audit_event_log.ts\<close>: \<open>record\<close>, \<open>verify\<close>, the middleware that
  records state-changing requests, its helpers, and the query parameters of the admin router. The table
  is the list of its rows in the order of insertion. What the database does is an argument of the model:
  \<open>first_desc\<close> is \<open>findFirst\<close> ordered by descending creation time, \<open>order_asc\<close> the ascending order, and
  \<open>store\<close> what a JSON column gives back for a value, for which nothing is assumed: PostgreSQL documents that a \<open>jsonb\<close>
  column does not keep the order of keys. Their documented behaviour is the locale \<open>audit_db\<close>.
  The digest, the random id and the clock are arguments. Runs of \<open>record\<close> are serialised, as the
  transaction asks for the serialisable isolation level.
\<close>

section \<open>Entries and the hash\<close>

record AuditRecordInput =
  ri_actor :: string
  ri_action :: string
  ri_resourceType :: string
  ri_resourceId :: "string option"
  ri_before :: "json option"
  ri_after :: "json option"
  ri_metadata :: "json option"

record AuditEntry =
  ae_id :: string
  ae_actor :: string
  ae_action :: string
  ae_resourceType :: string
  ae_resourceId :: "string option"
  ae_before :: "json option"
  ae_after :: "json option"
  ae_metadata :: "json option"
  ae_prevHash :: string
  ae_hash :: string
  ae_createdAt :: millis

definition GENESIS_HASH :: string where
  "GENESIS_HASH = replicate 64 CHR ''0''"

text \<open>The nine arguments are the list of the payload's fields, in the order of the parameters.\<close>

definition computeHash :: "(string \<Rightarrow> string) \<Rightarrow> string list \<Rightarrow> string" where
  "computeHash sha payload = sha (join ''|'' payload)"

text \<open>\<open>v ?? null\<close>, where \<open>null\<close> itself is no value.\<close>

definition json_or_null :: "json option \<Rightarrow> json" where
  "json_or_null v = or_default v JNull"

definition json_column :: "(json \<Rightarrow> json) \<Rightarrow> json option \<Rightarrow> json option" where
  "json_column store v = (case v of None \<Rightarrow> None | Some j \<Rightarrow> if j = JNull then None else Some (store j))"

definition audit_record ::
  "(string \<Rightarrow> string) \<Rightarrow> (rat \<Rightarrow> string) \<Rightarrow> (AuditEntry list \<Rightarrow> AuditEntry option) \<Rightarrow> (json \<Rightarrow> json) \<Rightarrow>
   millis \<Rightarrow> string \<Rightarrow> AuditRecordInput \<Rightarrow> AuditEntry list \<Rightarrow> AuditEntry list \<times> AuditEntry" where
  "audit_record sha fmt first_desc store now uuid input db =
     (let prevHash = (case first_desc db of Some e \<Rightarrow> ae_hash e | None \<Rightarrow> GENESIS_HASH);
          resourceId = or_default (ri_resourceId input) [];
          hash = computeHash sha [uuid, prevHash, ri_actor input, ri_action input, ri_resourceType input, resourceId,
                   stringify fmt (json_or_null (ri_before input)), stringify fmt (json_or_null (ri_after input)),
                   toISOString now];
          entry = \<lparr>ae_id = uuid, ae_actor = ri_actor input, ae_action = ri_action input,
                   ae_resourceType = ri_resourceType input,
                   ae_resourceId = (if resourceId \<noteq> [] then Some resourceId else None),
                   ae_before = json_column store (ri_before input), ae_after = json_column store (ri_after input),
                   ae_metadata = json_column store (ri_metadata input),
                   ae_prevHash = prevHash, ae_hash = hash, ae_createdAt = now\<rparr>
      in (db @ [entry], entry))"

section \<open>Verification\<close>

record violation =
  vi_id :: string
  vi_expected :: string
  vi_actual :: string
  vi_position :: nat

record VerificationResult =
  vr_ok :: bool
  vr_totalChecked :: nat
  vr_violations :: "violation list"
  vr_checkedAt :: millis

definition recomputed :: "(string \<Rightarrow> string) \<Rightarrow> (rat \<Rightarrow> string) \<Rightarrow> AuditEntry \<Rightarrow> string" where
  "recomputed sha fmt e =
     computeHash sha [ae_id e, ae_prevHash e, ae_actor e, ae_action e, ae_resourceType e,
       or_default (ae_resourceId e) [], stringify fmt (json_or_null (ae_before e)),
       stringify fmt (json_or_null (ae_after e)), toISOString (ae_createdAt e)]"

fun chain_violations :: "(string \<Rightarrow> string) \<Rightarrow> (rat \<Rightarrow> string) \<Rightarrow> nat \<Rightarrow> string \<Rightarrow> AuditEntry list \<Rightarrow> violation list" where
  "chain_violations sha fmt i expectedPrev [] = []"
| "chain_violations sha fmt i expectedPrev (e # es) =
     (if ae_prevHash e \<noteq> expectedPrev
      then [\<lparr>vi_id = ae_id e, vi_expected = expectedPrev, vi_actual = ae_prevHash e, vi_position = i\<rparr>] else []) @
     (if recomputed sha fmt e \<noteq> ae_hash e
      then [\<lparr>vi_id = ae_id e, vi_expected = recomputed sha fmt e, vi_actual = ae_hash e, vi_position = i\<rparr>] else []) @
     chain_violations sha fmt (Suc i) (ae_hash e) es"

definition audit_verify ::
  "(string \<Rightarrow> string) \<Rightarrow> (rat \<Rightarrow> string) \<Rightarrow> (AuditEntry list \<Rightarrow> AuditEntry list) \<Rightarrow> nat \<Rightarrow> millis \<Rightarrow> AuditEntry list \<Rightarrow> VerificationResult" where
  "audit_verify sha fmt order_asc limit now db =
     (let entries = take limit (order_asc db); violations = chain_violations sha fmt 0 GENESIS_HASH entries
      in \<lparr>vr_ok = (violations = []), vr_totalChecked = length entries, vr_violations = violations, vr_checkedAt = now\<rparr>)"

section \<open>The middleware\<close>

definition MUTATING_METHODS :: "string set" where
  "MUTATING_METHODS = {''POST'', ''PUT'', ''PATCH'', ''DELETE''}"

definition REDACTED :: "string set" where
  "REDACTED = {''password'', ''secret'', ''token'', ''signature'', ''privateKey'', ''mnemonic''}"

text \<open>\<open>typeof v === 'object'\<close>, which holds of \<open>null\<close> too.\<close>

fun typeof_object :: "json \<Rightarrow> bool" where
  "typeof_object (JObj _) = True"
| "typeof_object (JArr _) = True"
| "typeof_object JNull = True"
| "typeof_object _ = False"

fun json_entries :: "json \<Rightarrow> (string \<times> json) list" where
  "json_entries (JObj fs) = fs"
| "json_entries (JArr vs) = zip (map string_of_nat [0..<length vs]) vs"
| "json_entries _ = []"

definition summariseBody :: "json option \<Rightarrow> (string \<times> json) list" where
  "summariseBody body =
     (case body of
        None \<Rightarrow> []
      | Some b \<Rightarrow> map (\<lambda>(k, v). (k, if typeof_object v then JStr ''[object]'' else v))
                    (take 20 (filter (\<lambda>(k, v). k \<notin> REDACTED) (json_entries b))))"

text \<open>A global replacement of \<open>/\<close>, a fixed prefix and a run of at least \<open>n\<close> characters.\<close>

function replace_runs :: "string \<Rightarrow> (char \<Rightarrow> bool) \<Rightarrow> nat \<Rightarrow> string \<Rightarrow> string \<Rightarrow> string" where
  "replace_runs pre p n rep [] = []"
| "replace_runs pre p n rep (c # cs) =
     (if c = CHR ''/'' \<and> startsWith cs pre \<and> n \<le> length (takeWhile p (drop (length pre) cs))
      then rep @ replace_runs pre p n rep (dropWhile p (drop (length pre) cs))
      else c # replace_runs pre p n rep cs)"
  by pat_completeness auto
termination
proof (relation "measure (\<lambda>(pre, p, n, rep, s). length s)")
  fix pre :: string and p :: "char \<Rightarrow> bool" and n :: nat and rep cs :: string and c :: char
  have "length (dropWhile p (drop (length pre) cs)) \<le> length cs"
    using length_dropWhile_le [of p "drop (length pre) cs"] by simp
  then show "((pre, p, n, rep, dropWhile p (drop (length pre) cs)), (pre, p, n, rep, c # cs))
      \<in> measure (\<lambda>(pre, p, n, rep, s). length s)" by simp
qed simp_all

definition char_between :: "nat \<Rightarrow> nat \<Rightarrow> char \<Rightarrow> bool" where
  "char_between a b c \<longleftrightarrow> a \<le> of_char c \<and> of_char c \<le> b"

definition is_hex_or_dash :: "char \<Rightarrow> bool" where
  "is_hex_or_dash c \<longleftrightarrow> is_digit c \<or> char_between 97 102 c \<or> char_between 65 70 c \<or> c = CHR ''-''"

definition is_upper_or_digit :: "char \<Rightarrow> bool" where
  "is_upper_or_digit c \<longleftrightarrow> char_between 65 90 c \<or> is_digit c"

definition normalisePath :: "string \<Rightarrow> string" where
  "normalisePath p =
     replace_runs [] is_digit 1 ''/:id''
       (replace_runs ''G'' is_upper_or_digit 54 ''/:wallet'' (replace_runs [] is_hex_or_dash 8 ''/:id'' p))"

definition inferResourceType :: "string \<Rightarrow> string" where
  "inferResourceType path =
     (case filter (\<lambda>s. s \<notin> {''api'', ''v1'', ''v2''}) (filter (\<lambda>s. s \<noteq> []) (split_on CHR ''/'' path)) of
        s # _ \<Rightarrow> s
      | [] \<Rightarrow> ''unknown'')"

definition inferResourceId :: "(string \<Rightarrow> string option) \<Rightarrow> string option" where
  "inferResourceId params =
     nullish (params ''id'') (nullish (params ''groupId'') (nullish (params ''walletAddress'')
       (nullish (params ''userId'') (params ''keyId''))))"

text \<open>The request as the middleware sees it, and the entry it asks \<open>record\<close> to write when the response
  has finished with the given status; \<open>None\<close>: nothing is recorded.\<close>

record audited_request =
  aq_method :: string
  aq_path :: string
  aq_params :: "string \<Rightarrow> string option"
  aq_body :: "json option"
  aq_walletAddress :: "string option"
  aq_adminId :: "string option"
  aq_ip :: "string option"
  aq_userAgent :: "string option"

definition json_string :: "string option \<Rightarrow> (string \<times> json) list \<Rightarrow> string \<Rightarrow> (string \<times> json) list" where
  "json_string v rest k = (case v of Some s \<Rightarrow> (k, JStr s) # rest | None \<Rightarrow> rest)"

definition auditMiddleware :: "audited_request \<Rightarrow> int \<Rightarrow> AuditRecordInput option" where
  "auditMiddleware req statusCode =
     (if aq_method req \<notin> MUTATING_METHODS then None
      else if statusCode < 200 \<or> statusCode \<ge> 400 then None
      else Some \<lparr>ri_actor = or_default (nullish (aq_walletAddress req) (nullish (aq_adminId req) (aq_ip req))) ''anonymous'',
                 ri_action = aq_method req @ '' '' @ normalisePath (aq_path req),
                 ri_resourceType = inferResourceType (aq_path req),
                 ri_resourceId = inferResourceId (aq_params req),
                 ri_before = None,
                 ri_after = Some (JObj [(''status'', JNum statusCode), (''requestBody'', JObj (summariseBody (aq_body req)))]),
                 ri_metadata = Some (JObj ([(''method'', JStr (aq_method req)), (''path'', JStr (aq_path req))] @
                                 json_string (aq_ip req) (json_string (aq_userAgent req) [] ''userAgent'') ''ip''))\<rparr>)"

section \<open>The admin queries\<close>

record audit_where =
  wh_actor :: "string option"
  wh_action_contains :: "string option"
  wh_resourceType :: "string option"
  wh_resourceId :: "string option"
  wh_from :: "string option"
  wh_to :: "string option"

definition truthy_param :: "(string \<Rightarrow> string option) \<Rightarrow> string \<Rightarrow> string option" where
  "truthy_param q k = (if truthy (q k) then q k else None)"

text \<open>\<open>parseInt(s ?? d, 10) || d\<close>\<close>

definition int_param :: "(string \<Rightarrow> string option) \<Rightarrow> string \<Rightarrow> int \<Rightarrow> int" where
  "int_param q k d =
     (case parseInt (or_default (q k) (string_of_int d)) of Some n \<Rightarrow> if n \<noteq> 0 then n else d | None \<Rightarrow> d)"

definition audit_query :: "(string \<Rightarrow> string option) \<Rightarrow> int \<times> int \<times> audit_where" where
  "audit_query q =
     (min (int_param q ''limit'' 50) 200, int_param q ''offset'' 0,
      \<lparr>wh_actor = truthy_param q ''actor'', wh_action_contains = truthy_param q ''action'',
       wh_resourceType = truthy_param q ''resourceType'', wh_resourceId = truthy_param q ''resourceId'',
       wh_from = truthy_param q ''from'', wh_to = truthy_param q ''to''\<rparr>)"

definition audit_router_verify :: "VerificationResult \<Rightarrow> int" where
  "audit_router_verify r = (if vr_ok r then 200 else 409)"

definition audit_router_get :: "string \<Rightarrow> AuditEntry list \<Rightarrow> int \<times> AuditEntry option" where
  "audit_router_get i db = (case find (\<lambda>e. ae_id e = i) db of Some e \<Rightarrow> (200, Some e) | None \<Rightarrow> (404, None))"

section \<open>What the database documents\<close>

locale audit_db =
  fixes first_desc :: "AuditEntry list \<Rightarrow> AuditEntry option" and order_asc :: "AuditEntry list \<Rightarrow> AuditEntry list"
  assumes first_desc_None: "first_desc es = None \<longleftrightarrow> es = []"
    and first_desc_Some: "first_desc es = Some e \<Longrightarrow> e \<in> set es \<and> (\<forall>e' \<in> set es. ae_createdAt e' \<le> ae_createdAt e)"
    and order_asc_mset: "mset (order_asc es) = mset es"
    and order_asc_sorted: "sorted (map ae_createdAt (order_asc es))"
begin

text \<open>With creation times that strictly increase, the order of the rows is the order of insertion.\<close>

lemma first_desc_last:
  assumes "sorted_wrt (<) (map ae_createdAt es)" "es \<noteq> []"
  shows "first_desc es = Some (last es)"
proof -
  obtain e where e: "first_desc es = Some e" using assms(2) first_desc_None by blast
  obtain xs l where es: "es = xs @ [l]" using assms(2) by (cases es rule: rev_cases) auto
  have "e \<in> set es" "ae_createdAt l \<le> ae_createdAt e" using first_desc_Some [OF e] es by auto
  then have "e = l" using assms(1) es by (auto simp: sorted_wrt_append)
  with e es show ?thesis by simp
qed

lemma order_asc_id:
  assumes "sorted_wrt (<) (map ae_createdAt es)"
  shows "order_asc es = es"
proof -
  have "distinct (map ae_createdAt es)" using assms by (simp add: strict_sorted_iff)
  then have "inj_on ae_createdAt (set es)" by (simp add: distinct_map)
  moreover have "set (order_asc es) = set es" using order_asc_mset by (metis mset_eq_setD)
  ultimately have inj: "inj_on ae_createdAt (set (order_asc es) \<union> set es)" by simp
  have "mset (map ae_createdAt (order_asc es)) = mset (map ae_createdAt es)" using order_asc_mset by simp
  moreover have "sorted (map ae_createdAt es)" using assms by (simp add: strict_sorted_iff)
  ultimately have "map ae_createdAt (order_asc es) = map ae_createdAt es"
    using order_asc_sorted [of es] properties_for_sort sorted_sort_id by metis
  then show ?thesis using inj by (rule map_inj_on)
qed

end

definition newest_first :: "AuditEntry list \<Rightarrow> AuditEntry option" where
  "newest_first es = (case rev (sort_key ae_createdAt es) of [] \<Rightarrow> None | e # _ \<Rightarrow> Some e)"

interpretation rows: audit_db newest_first "sort_key ae_createdAt"
proof unfold_locales
  fix es :: "AuditEntry list" and e
  have empty: "sort_key ae_createdAt es = [] \<longleftrightarrow> es = []" by (metis length_0_conv length_sort)
  then show "newest_first es = None \<longleftrightarrow> es = []" by (auto simp: newest_first_def split: list.split)
  show "e \<in> set es \<and> (\<forall>e' \<in> set es. ae_createdAt e' \<le> ae_createdAt e)" if newest: "newest_first es = Some e"
  proof -
    obtain xs where xs: "sort_key ae_createdAt es = xs @ [e]"
      using newest by (cases "sort_key ae_createdAt es" rule: rev_cases) (auto simp: newest_first_def)
    have "sorted (map ae_createdAt (xs @ [e]))" using sorted_sort_key [of ae_createdAt es] xs by simp
    moreover have "set es = set (xs @ [e])" using xs by (metis set_sort)
    ultimately show ?thesis by (auto simp: sorted_append)
  qed
qed simp_all

section \<open>The log as a hash chain\<close>

definition entry_fields :: "(rat \<Rightarrow> string) \<Rightarrow> string \<Rightarrow> AuditEntry \<Rightarrow> string list" where
  "entry_fields fmt h e =
     [ae_id e, h, ae_actor e, ae_action e, ae_resourceType e, or_default (ae_resourceId e) [],
      stringify fmt (json_or_null (ae_before e)), stringify fmt (json_or_null (ae_after e)), toISOString (ae_createdAt e)]"

definition log_appended :: "(string \<Rightarrow> string) \<Rightarrow> (rat \<Rightarrow> string) \<Rightarrow> AuditEntry list \<Rightarrow> AuditEntry \<Rightarrow> bool" where
  "log_appended sha fmt es e \<longleftrightarrow>
     ae_prevHash e = (if es = [] then GENESIS_HASH else ae_hash (last es)) \<and> ae_hash e = recomputed sha fmt e"

lemma chain_violations_iff:
  "chain_violations sha fmt i h es = [] \<longleftrightarrow>
     chain_ok (\<lambda>h e. sha (join ''|'' (entry_fields fmt h e))) ae_hash ae_prevHash h es"
  by (induction es arbitrary: i h) (auto simp: recomputed_def computeHash_def entry_fields_def)

interpretation audit: hash_chain sha "entry_fields fmt" ae_hash ae_prevHash GENESIS_HASH
  "\<lambda>es. chain_violations sha fmt 0 GENESIS_HASH es = []" "log_appended sha fmt" for sha fmt
  by unfold_locales
    (auto simp: chain_violations_iff log_appended_def recomputed_def computeHash_def entry_fields_def)

text \<open>The payload that \<open>record\<close> hashes for a call, and the one that \<open>verify\<close> builds from what the JSON columns give back.\<close>

definition payload_with :: "(json option \<Rightarrow> json option) \<Rightarrow> (rat \<Rightarrow> string) \<Rightarrow> string \<Rightarrow> millis \<times> string \<times> AuditRecordInput \<Rightarrow> string list" where
  "payload_with column fmt prev c =
     (let input = snd (snd c)
      in [fst (snd c), prev, ri_actor input, ri_action input, ri_resourceType input, or_default (ri_resourceId input) [],
          stringify fmt (json_or_null (column (ri_before input))), stringify fmt (json_or_null (column (ri_after input))),
          toISOString (fst c)])"

definition hashed_payload :: "(rat \<Rightarrow> string) \<Rightarrow> string \<Rightarrow> millis \<times> string \<times> AuditRecordInput \<Rightarrow> string" where
  "hashed_payload fmt prev c = join ''|'' (payload_with (\<lambda>v. v) fmt prev c)"

definition stored_payload :: "(rat \<Rightarrow> string) \<Rightarrow> (json \<Rightarrow> json) \<Rightarrow> string \<Rightarrow> millis \<times> string \<times> AuditRecordInput \<Rightarrow> string" where
  "stored_payload fmt store prev c = join ''|'' (payload_with (json_column store) fmt prev c)"

text \<open>The snapshots of a call come back with the text that was hashed.\<close>

definition text_kept :: "(rat \<Rightarrow> string) \<Rightarrow> (json \<Rightarrow> json) \<Rightarrow> AuditRecordInput \<Rightarrow> bool" where
  "text_kept fmt store input \<longleftrightarrow>
     stringify fmt (json_or_null (json_column store (ri_before input))) @ ''|'' @ stringify fmt (json_or_null (json_column store (ri_after input))) =
     stringify fmt (json_or_null (ri_before input)) @ ''|'' @ stringify fmt (json_or_null (ri_after input))"

lemma payload_kept: "stored_payload fmt store prev c = hashed_payload fmt prev c \<longleftrightarrow> text_kept fmt store (snd (snd c))"
proof -
  let ?i = "snd (snd c)"
  let ?pre = "join ''|'' [fst (snd c), prev, ri_actor ?i, ri_action ?i, ri_resourceType ?i, or_default (ri_resourceId ?i) []] @ ''|''"
  let ?texts = "\<lambda>column. stringify fmt (json_or_null (column (ri_before ?i))) @ ''|'' @ stringify fmt (json_or_null (column (ri_after ?i)))"
  have payload: "join ''|'' (payload_with column fmt prev c) = ?pre @ ?texts column @ ''|'' @ toISOString (fst c)" for column
    by (simp add: payload_with_def Let_def)
  have middle: "(p @ x @ s = p @ y @ s) = (x = y)" for p x y s :: string by simp
  show ?thesis unfolding stored_payload_def hashed_payload_def text_kept_def payload middle ..
qed

primrec record_inputs ::
  "(string \<Rightarrow> string) \<Rightarrow> (rat \<Rightarrow> string) \<Rightarrow> (AuditEntry list \<Rightarrow> AuditEntry option) \<Rightarrow> (json \<Rightarrow> json) \<Rightarrow>
   (millis \<times> string \<times> AuditRecordInput) list \<Rightarrow> AuditEntry list \<Rightarrow> AuditEntry list" where
  "record_inputs sha fmt first_desc store [] db = db"
| "record_inputs sha fmt first_desc store (c # cs) db =
     record_inputs sha fmt first_desc store cs
       (fst (audit_record sha fmt first_desc store (fst c) (fst (snd c)) (snd (snd c)) db))"

lemma record_inputs_snoc:
  "record_inputs sha fmt first_desc store (cs @ [c]) db =
     (let log = record_inputs sha fmt first_desc store cs db
      in log @ [snd (audit_record sha fmt first_desc store (fst c) (fst (snd c)) (snd (snd c)) log)])"
  by (induction cs arbitrary: db) (simp_all add: audit_record_def Let_def)

lemma record_inputs_times: "map ae_createdAt (record_inputs sha fmt first_desc store cs db) = map ae_createdAt db @ map fst cs"
  by (induction cs arbitrary: db) (simp_all add: audit_record_def Let_def)

lemma record_inputs_take:
  "take n (record_inputs sha fmt first_desc store cs []) = record_inputs sha fmt first_desc store (take n cs) []"
proof (induction cs arbitrary: n rule: rev_induct)
  case (snoc c cs)
  have "length (record_inputs sha fmt first_desc store cs []) = length cs"
    using arg_cong [OF record_inputs_times, of length sha fmt first_desc store cs "[]"] by simp
  then show ?case using snoc by (cases "n \<le> length cs") (simp_all add: record_inputs_snoc Let_def)
qed simp

lemma chain_violations_snoc:
  "chain_violations sha fmt 0 GENESIS_HASH (es @ [e]) = [] \<longleftrightarrow> chain_violations sha fmt 0 GENESIS_HASH es = [] \<and> log_appended sha fmt es e"
  by (auto simp: chain_violations_iff chain_ok_append log_appended_def recomputed_def computeHash_def entry_fields_def)

context audit_db
begin

text \<open>A recorded entry continues the chain exactly when its digest is that of the payload read back.\<close>

lemma audit_record_appended:
  assumes "sorted_wrt (<) (map ae_createdAt db)"
  shows "\<exists>prev. prev \<in> insert GENESIS_HASH (set (map ae_hash db)) \<and>
    log_appended sha fmt db (snd (audit_record sha fmt first_desc store now uuid input db)) =
      (sha (stored_payload fmt store prev (now, uuid, input)) = sha (hashed_payload fmt prev (now, uuid, input)))"
proof -
  let ?prev = "if db = [] then GENESIS_HASH else ae_hash (last db)"
  have prev: "(case first_desc db of Some e \<Rightarrow> ae_hash e | None \<Rightarrow> GENESIS_HASH) = ?prev"
    using first_desc_last [OF assms(1)] first_desc_None [of db] by auto
  have rid: "or_default (if or_default (ri_resourceId input) [] \<noteq> [] then Some (or_default (ri_resourceId input) []) else None) [] =
      or_default (ri_resourceId input) []" by simp
  have "log_appended sha fmt db (snd (audit_record sha fmt first_desc store now uuid input db)) =
      (sha (stored_payload fmt store ?prev (now, uuid, input)) = sha (hashed_payload fmt ?prev (now, uuid, input)))"
    unfolding log_appended_def audit_record_def Let_def prev recomputed_def computeHash_def stored_payload_def hashed_payload_def payload_with_def
    by (auto simp del: join.simps)
  moreover have "?prev \<in> insert GENESIS_HASH (set (map ae_hash db))" by simp
  ultimately show ?thesis by blast
qed

lemma record_inputs_verdict:
  assumes "sorted_wrt (<) (map fst cs)"
    and "\<And>c prev. c \<in> set cs \<Longrightarrow> prev \<in> insert GENESIS_HASH (set (map ae_hash (record_inputs sha fmt first_desc store cs []))) \<Longrightarrow>
      sha (stored_payload fmt store prev c) = sha (hashed_payload fmt prev c) \<Longrightarrow> stored_payload fmt store prev c = hashed_payload fmt prev c"
  shows "chain_violations sha fmt 0 GENESIS_HASH (record_inputs sha fmt first_desc store cs []) = [] \<longleftrightarrow>
    list_all (\<lambda>c. text_kept fmt store (snd (snd c))) cs"
  using assms
proof (induction cs rule: rev_induct)
  case (snoc c cs)
  let ?log = "record_inputs sha fmt first_desc store cs []"
  have sorted: "sorted_wrt (<) (map fst cs)" using snoc.prems(1) by (simp add: sorted_wrt_append)
  then have "sorted_wrt (<) (map ae_createdAt ?log)" by (simp add: record_inputs_times)
  then obtain prev where p: "prev \<in> insert GENESIS_HASH (set (map ae_hash ?log))"
    and a: "log_appended sha fmt ?log (snd (audit_record sha fmt first_desc store (fst c) (fst (snd c)) (snd (snd c)) ?log)) =
      (sha (stored_payload fmt store prev c) = sha (hashed_payload fmt prev c))"
    using audit_record_appended [of ?log sha fmt store "fst c" "fst (snd c)" "snd (snd c)"] by auto
  have "(sha (stored_payload fmt store prev c) = sha (hashed_payload fmt prev c)) = text_kept fmt store (snd (snd c))"
    using snoc.prems(2) [of c prev] p payload_kept [of fmt store prev c] by (auto simp: record_inputs_snoc Let_def)
  moreover have "chain_violations sha fmt 0 GENESIS_HASH ?log = [] \<longleftrightarrow> list_all (\<lambda>c. text_kept fmt store (snd (snd c))) cs"
    by (rule snoc.IH [OF sorted]) (rule snoc.prems(2), auto simp: record_inputs_snoc Let_def)
  ultimately show ?case using a by (simp add: record_inputs_snoc Let_def chain_violations_snoc)
qed simp

end

lemma join_bar_shift: "join ''|'' (xs @ [a @ ''|'' @ b, c] @ ys) = join ''|'' (xs @ [a, b @ ''|'' @ c] @ ys)"
  by (induction xs; cases ys) (auto simp: join_Cons_nonempty)

section \<open>Properties\<close>

text \<open>C31. The verdict on an untouched log. If the creation times of the recorded entries strictly increase and the database orders rows by
  creation time, the verification of a log that only \<open>record\<close> has written reports no violation exactly when the JSON columns
  give the snapshots of every entry checked back with the text that was hashed; the digest must not collide on the payload
  hashed and the payload read back of one entry. The chain of the previous hashes is never the cause of a violation.\<close>

theorem untouched_log_verifies:
  assumes "audit_db first_desc order_asc" "sorted_wrt (<) (map fst cs)"
    and "\<And>c prev. c \<in> set cs \<Longrightarrow> prev \<in> insert GENESIS_HASH (set (map ae_hash (record_inputs sha fmt first_desc store cs []))) \<Longrightarrow>
      sha (stored_payload fmt store prev c) = sha (hashed_payload fmt prev c) \<Longrightarrow> stored_payload fmt store prev c = hashed_payload fmt prev c"
  shows "vr_ok (audit_verify sha fmt order_asc limit now (record_inputs sha fmt first_desc store cs [])) \<longleftrightarrow>
    list_all (\<lambda>c. text_kept fmt store (snd (snd c))) (take limit cs)"
proof -
  have "order_asc (record_inputs sha fmt first_desc store cs []) = record_inputs sha fmt first_desc store cs []"
    using assms(2) by (intro audit_db.order_asc_id [OF assms(1)]) (simp add: record_inputs_times)
  moreover have "chain_violations sha fmt 0 GENESIS_HASH (record_inputs sha fmt first_desc store (take limit cs) []) = [] \<longleftrightarrow>
      list_all (\<lambda>c. text_kept fmt store (snd (snd c))) (take limit cs)"
  proof (rule audit_db.record_inputs_verdict [OF assms(1)])
    show "sorted_wrt (<) (map fst (take limit cs))" using assms(2) by (simp add: take_map [symmetric] sorted_wrt_take)
    show "stored_payload fmt store prev c = hashed_payload fmt prev c"
      if "c \<in> set (take limit cs)" "prev \<in> insert GENESIS_HASH (set (map ae_hash (record_inputs sha fmt first_desc store (take limit cs) [])))"
        "sha (stored_payload fmt store prev c) = sha (hashed_payload fmt prev c)" for c prev
      using that by (intro assms(3)) (auto simp: record_inputs_take [symmetric] dest: in_set_takeD)
  qed
  ultimately show ?thesis by (simp add: audit_verify_def Let_def record_inputs_take)
qed

text \<open>A column that keeps objects with their keys in order of length, as PostgreSQL does for \<open>jsonb\<close>, and two snapshots of the same
  object that differ in the order of its keys.\<close>

fun short_keys_first :: "json \<Rightarrow> json" where
  "short_keys_first (JObj fs) = JObj (sort_key (\<lambda>f. length (fst f)) fs)"
| "short_keys_first v = v"

definition sample_input :: "(string \<times> json) list \<Rightarrow> AuditRecordInput" where
  "sample_input fs = \<lparr>ri_actor = ''GA'', ri_action = ''group.create'', ri_resourceType = ''Group'', ri_resourceId = Some ''7'',
     ri_before = None, ri_after = Some (JObj fs), ri_metadata = None\<rparr>"

abbreviation in_order :: AuditRecordInput where
  "in_order \<equiv> sample_input [(''id'', JStr ''7''), (''name'', JStr ''x'')]"

abbreviation out_of_order :: AuditRecordInput where
  "out_of_order \<equiv> sample_input [(''name'', JStr ''x''), (''id'', JStr ''7'')]"

lemma sample_texts:
  "text_kept (\<lambda>_. []) short_keys_first in_order" "\<not> text_kept (\<lambda>_. []) short_keys_first out_of_order"
  by (simp_all add: text_kept_def sample_input_def json_column_def json_or_null_def quote_def escape_char_def)

theorem untouched_log_verifies_witness:
  "vr_ok (audit_verify (\<lambda>s. s) (\<lambda>_. []) (sort_key ae_createdAt) 1 0
     (record_inputs (\<lambda>s. s) (\<lambda>_. []) newest_first short_keys_first [(0, ''a'', in_order), (5, ''b'', out_of_order)] [])) \<and>
   \<not> vr_ok (audit_verify (\<lambda>s. s) (\<lambda>_. []) (sort_key ae_createdAt) 2 0
     (record_inputs (\<lambda>s. s) (\<lambda>_. []) newest_first short_keys_first [(0, ''a'', in_order), (5, ''b'', out_of_order)] []))"
proof -
  let ?cs = "[(0 :: millis, ''a'', in_order), (5, ''b'', out_of_order)]"
  have "vr_ok (audit_verify (\<lambda>s. s) (\<lambda>_. []) (sort_key ae_createdAt) limit 0
      (record_inputs (\<lambda>s. s) (\<lambda>_. []) newest_first short_keys_first ?cs [])) \<longleftrightarrow>
      list_all (\<lambda>c. text_kept (\<lambda>_. []) short_keys_first (snd (snd c))) (take limit ?cs)" for limit
    by (rule untouched_log_verifies [OF rows.audit_db_axioms]) simp_all
  from this [of 1] this [of 2] show ?thesis by (simp add: sample_texts)
qed

text \<open>An entry whose snapshot has its keys in an order that the column does not keep is reported as tampered with, although nobody
  touched the log.\<close>

theorem untouched_log_reported:
  "length (vr_violations (audit_verify (\<lambda>s. s) (\<lambda>_. []) (sort_key ae_createdAt) 100000 0
     (fst (audit_record (\<lambda>s. s) (\<lambda>_. []) newest_first short_keys_first 0 ''a'' out_of_order [])))) = 1"
  by (simp add: audit_verify_def audit_record_def Let_def newest_first_def recomputed_def computeHash_def sample_input_def json_column_def
      json_or_null_def quote_def escape_char_def)

text \<open>C32. The log is tamper-evident up to the separator. If an entry that is not the last is replaced and the
  chain still verifies, every hashed field is unchanged, provided no hashed field contains a bar and the
  digest does not collide on the two payloads.\<close>

theorem audit_tamper_evident:
  assumes "chain_violations sha fmt 0 GENESIS_HASH es = []" "chain_violations sha fmt 0 GENESIS_HASH (es[i := e']) = []"
    and "Suc i < length es"
    and "\<And>f. f \<in> set (entry_fields fmt (ae_prevHash (es ! i)) (es ! i)) \<union> set (entry_fields fmt (ae_prevHash e') e') \<Longrightarrow>
              CHR ''|'' \<notin> set f"
    and "sha (join ''|'' (entry_fields fmt (ae_prevHash e') e')) =
           sha (join ''|'' (entry_fields fmt (ae_prevHash (es ! i)) (es ! i))) \<Longrightarrow>
         join ''|'' (entry_fields fmt (ae_prevHash e') e') = join ''|'' (entry_fields fmt (ae_prevHash (es ! i)) (es ! i))"
  shows "ae_id e' = ae_id (es ! i) \<and> ae_prevHash e' = ae_prevHash (es ! i) \<and> ae_actor e' = ae_actor (es ! i) \<and>
         ae_action e' = ae_action (es ! i) \<and> ae_resourceType e' = ae_resourceType (es ! i) \<and>
         or_default (ae_resourceId e') [] = or_default (ae_resourceId (es ! i)) [] \<and>
         stringify fmt (json_or_null (ae_before e')) = stringify fmt (json_or_null (ae_before (es ! i))) \<and>
         stringify fmt (json_or_null (ae_after e')) = stringify fmt (json_or_null (ae_after (es ! i))) \<and>
         toISOString (ae_createdAt e') = toISOString (ae_createdAt (es ! i))"
proof -
  have "entry_fields fmt (ae_prevHash e') e' = entry_fields fmt (ae_prevHash (es ! i)) (es ! i)"
    using assms by (rule audit.tamper_evident)
  then show ?thesis by (simp add: entry_fields_def)
qed

text \<open>Two entries under the identity as the digest, and the first one rewritten to another actor with a fresh hash of its own.\<close>

definition sample_entry :: "string \<Rightarrow> string \<Rightarrow> string \<Rightarrow> AuditEntry" where
  "sample_entry prev eid actor =
     (let e = \<lparr>ae_id = eid, ae_actor = actor, ae_action = ''group.create'', ae_resourceType = ''Group'', ae_resourceId = None,
        ae_before = None, ae_after = None, ae_metadata = None, ae_prevHash = prev, ae_hash = [], ae_createdAt = 0\<rparr>
      in e\<lparr>ae_hash := recomputed (\<lambda>s. s) (\<lambda>_. []) e\<rparr>)"

lemma sample_entry_fields [simp]:
  "ae_prevHash (sample_entry prev eid actor) = prev" "ae_actor (sample_entry prev eid actor) = actor"
  "recomputed (\<lambda>s. s) (\<lambda>_. []) (sample_entry prev eid actor) = ae_hash (sample_entry prev eid actor)"
  by (simp_all add: sample_entry_def Let_def recomputed_def)

theorem audit_tamper_evident_witness:
  "let first = sample_entry GENESIS_HASH ''a'' ''GA''; es = [first, sample_entry (ae_hash first) ''b'' ''GA'']
   in chain_violations (\<lambda>s. s) (\<lambda>_. []) 0 GENESIS_HASH es = [] \<and>
      chain_violations (\<lambda>s. s) (\<lambda>_. []) 0 GENESIS_HASH (es[0 := sample_entry GENESIS_HASH ''a'' ''GB'']) \<noteq> []"
proof -
  let ?sha = "\<lambda>s :: string. s" and ?fmt = "\<lambda>_ :: rat. [] :: string"
  let ?first = "sample_entry GENESIS_HASH ''a'' ''GA''" and ?e = "sample_entry GENESIS_HASH ''a'' ''GB''"
  let ?es = "[?first, sample_entry (ae_hash ?first) ''b'' ''GA'']"
  have 1: "chain_violations ?sha ?fmt 0 GENESIS_HASH ?es = []" by simp
  have iso: "toISOString 0 = ''1970-01-01T00:00:00.000Z''" by code_simp
  have bars: "CHR ''|'' \<notin> set f" if "f \<in> set (entry_fields ?fmt (ae_prevHash (?es ! 0)) (?es ! 0)) \<union> set (entry_fields ?fmt (ae_prevHash ?e) ?e)" for f
    using that iso by (auto simp: entry_fields_def sample_entry_def Let_def GENESIS_HASH_def json_or_null_def)
  have "chain_violations ?sha ?fmt 0 GENESIS_HASH (?es[0 := ?e]) \<noteq> []"
  proof
    assume 2: "chain_violations ?sha ?fmt 0 GENESIS_HASH (?es[0 := ?e]) = []"
    have "ae_actor ?e = ae_actor (?es ! 0)" using audit_tamper_evident [OF 1 2 _ bars] by simp
    then show False by simp
  qed
  with 1 show ?thesis by (simp add: Let_def)
qed

text \<open>The bar is not escaped. An entry whose actor is \<open>a|b\<close> and whose action is \<open>c\<close> can be rewritten into one
  by actor \<open>a\<close> with action \<open>b|c\<close>: the verification gives the same verdict on both logs.\<close>

theorem audit_separator_ambiguity:
  "(chain_violations sha fmt 0 GENESIS_HASH (es @ [e\<lparr>ae_actor := a @ ''|'' @ b, ae_action := c\<rparr>] @ es') = []) =
   (chain_violations sha fmt 0 GENESIS_HASH (es @ [e\<lparr>ae_actor := a, ae_action := b @ ''|'' @ c\<rparr>] @ es') = [])"
proof -
  have "join ''|'' (entry_fields fmt h (e\<lparr>ae_actor := a @ ''|'' @ b, ae_action := c\<rparr>)) =
      join ''|'' (entry_fields fmt h (e\<lparr>ae_actor := a, ae_action := b @ ''|'' @ c\<rparr>))" for h
    using join_bar_shift [of "[ae_id e, h]" a b c] by (simp add: entry_fields_def)
  then show ?thesis by (simp add: chain_violations_iff chain_ok_append)
qed

text \<open>What the middleware writes of a request body: at most twenty fields, none of them one of the
  sensitive names, and no nested value.\<close>

theorem body_summary_is_safe:
  "length (summariseBody body) \<le> 20 \<and>
   list_all (\<lambda>(k, v). k \<notin> REDACTED \<and> \<not> typeof_object v) (summariseBody body)"
proof (cases body)
  case (Some b)
  have "set (take 20 (filter (\<lambda>(k, v). k \<notin> REDACTED) (json_entries b))) \<subseteq> set (filter (\<lambda>(k, v). k \<notin> REDACTED) (json_entries b))"
    by (rule set_take_subset)
  then show ?thesis using Some by (auto simp: summariseBody_def list_all_iff split: if_splits)
qed (simp add: summariseBody_def)

end
