(* ===== verification/Key_Rotation.thy ===== *)
theory Key_Rotation
  imports Audit_Log
begin

text \<open>
  Rotation of the signing keys, \<open>backend/src/key_rotation_service.ts\<close>: the registry with its policies,
  rotation and pruning, signing with the active key and validation against all keys that are not retired,
  the scheduler and the status summary. The HMAC is the argument \<open>hmac\<close>; fresh key ids and key material,
  and the clock, are arguments. Key objects are shared by reference, so setting a field of the active key
  is an update of the first active record of the list.
\<close>

section \<open>The registry\<close>

datatype KeyType = jwt | hmac_type | api
datatype KeyStatus = active | retiring | retired

record KeyRecord =
  keyId :: string
  keyType :: KeyType
  material :: string
  key_status :: KeyStatus
  createdAt :: millis
  expiresAt :: millis
  rotatedAt :: "millis option"

record RotationPolicy =
  rp_keyType :: KeyType
  rotationIntervalMs :: int
  transitionWindowMs :: int
  keyLengthBytes :: int

definition THIRTY_DAYS_MS :: int where "THIRTY_DAYS_MS = 30 * 24 * 60 * 60 * 1000"
definition TWENTY_FOUR_H_MS :: int where "TWENTY_FOUR_H_MS = 24 * 60 * 60 * 1000"

primrec DEFAULT_POLICIES :: "KeyType \<Rightarrow> RotationPolicy" where
  "DEFAULT_POLICIES jwt = \<lparr>rp_keyType = jwt, rotationIntervalMs = THIRTY_DAYS_MS,
     transitionWindowMs = TWENTY_FOUR_H_MS, keyLengthBytes = 64\<rparr>"
| "DEFAULT_POLICIES hmac_type = \<lparr>rp_keyType = hmac_type, rotationIntervalMs = THIRTY_DAYS_MS,
     transitionWindowMs = TWENTY_FOUR_H_MS, keyLengthBytes = 32\<rparr>"
| "DEFAULT_POLICIES api = \<lparr>rp_keyType = api, rotationIntervalMs = 90 * 24 * 60 * 60 * 1000,
     transitionWindowMs = 7 * 24 * 60 * 60 * 1000, keyLengthBytes = 32\<rparr>"

definition key_types :: "KeyType list" where
  "key_types = [jwt, hmac_type, api]"

record KeyRegistry =
  keys :: "KeyType \<Rightarrow> KeyRecord list"
  policies :: "KeyType \<Rightarrow> RotationPolicy"

definition new_registry :: KeyRegistry where
  "new_registry = \<lparr>keys = (\<lambda>_. []), policies = DEFAULT_POLICIES\<rparr>"

text \<open>A fresh key: its id and its material.\<close>

type_synonym fresh_key = "string \<times> string"

definition is_active :: "KeyRecord \<Rightarrow> bool" where
  "is_active k \<longleftrightarrow> key_status k = active"

definition getActive :: "KeyType \<Rightarrow> KeyRegistry \<Rightarrow> KeyRecord option" where
  "getActive ty r = find is_active (keys r ty)"

definition getValidating :: "KeyType \<Rightarrow> KeyRegistry \<Rightarrow> KeyRecord list" where
  "getValidating ty r = filter (\<lambda>k. key_status k = active \<or> key_status k = retiring) (keys r ty)"

definition getAll :: "KeyType \<Rightarrow> KeyRegistry \<Rightarrow> KeyRecord list" where
  "getAll ty r = keys r ty"

definition getById :: "string \<Rightarrow> KeyRegistry \<Rightarrow> KeyRecord option" where
  "getById i r = find (\<lambda>k. keyId k = i) (concat (map (keys r) key_types))"


definition getPolicy :: "KeyType \<Rightarrow> KeyRegistry \<Rightarrow> RotationPolicy" where
  "getPolicy ty r = policies r ty"

definition createKey :: "fresh_key \<Rightarrow> millis \<Rightarrow> KeyType \<Rightarrow> KeyRegistry \<Rightarrow> KeyRegistry \<times> KeyRecord" where
  "createKey fresh now ty r =
     (let rec1 = \<lparr>keyId = fst fresh, keyType = ty, material = snd fresh, key_status = active, createdAt = now,
                  expiresAt = now + rotationIntervalMs (getPolicy ty r), rotatedAt = None\<rparr>
      in (r\<lparr>keys := (keys r)(ty := rec1 # keys r ty)\<rparr>, rec1))"

definition seedInitial :: "fresh_key \<Rightarrow> millis \<Rightarrow> KeyType \<Rightarrow> KeyRegistry \<Rightarrow> KeyRegistry \<times> KeyRecord" where
  "seedInitial fresh now ty r =
     (case getActive ty r of Some existing \<Rightarrow> (r, existing) | None \<Rightarrow> createKey fresh now ty r)"

definition retire_active :: "millis \<Rightarrow> KeyRecord list \<Rightarrow> KeyRecord list" where
  "retire_active now ks = update_first is_active (\<lambda>k. k\<lparr>key_status := retiring, rotatedAt := Some now\<rparr>) ks"

definition rotate_key :: "fresh_key \<Rightarrow> millis \<Rightarrow> KeyType \<Rightarrow> KeyRegistry \<Rightarrow> KeyRegistry \<times> KeyRecord \<times> KeyRecord" where
  "rotate_key fresh now ty r =
     (case getActive ty r of
        None \<Rightarrow> (let (r', current) = createKey fresh now ty r in (r', current, current))
      | Some previous \<Rightarrow>
          (let r1 = r\<lparr>keys := (keys r)(ty := retire_active now (keys r ty))\<rparr>;
               (r', current) = createKey fresh now ty r1
           in (r', previous\<lparr>key_status := retiring, rotatedAt := Some now\<rparr>, current)))"

definition window_elapsed :: "RotationPolicy \<Rightarrow> millis \<Rightarrow> KeyRecord \<Rightarrow> bool" where
  "window_elapsed policy now k \<longleftrightarrow>
     key_status k = retiring \<and>
     (case rotatedAt k of Some t \<Rightarrow> now - t > transitionWindowMs policy | None \<Rightarrow> False)"

definition pruneRetiring :: "KeyType \<Rightarrow> millis \<Rightarrow> KeyRegistry \<Rightarrow> KeyRegistry \<times> nat" where
  "pruneRetiring ty now r =
     (let elapsed = window_elapsed (getPolicy ty r) now
      in (r\<lparr>keys := (keys r)(ty := map (\<lambda>k. if elapsed k then k\<lparr>key_status := retired\<rparr> else k) (keys r ty))\<rparr>,
          length (filter elapsed (keys r ty))))"

section \<open>Rotation, signing and the scheduler\<close>

definition bootstrapKeys :: "(KeyType \<Rightarrow> fresh_key) \<Rightarrow> millis \<Rightarrow> KeyRegistry \<Rightarrow> KeyRegistry" where
  "bootstrapKeys fresh now r = fold (\<lambda>ty r. fst (seedInitial (fresh ty) now ty r)) key_types r"

record RotationResult =
  rr_previousKeyId :: string
  rr_newKeyId :: string
  rr_keyType :: KeyType
  rr_rotatedAt :: millis

definition rotation_audit :: "KeyRecord \<Rightarrow> KeyRecord \<Rightarrow> AuditRecordInput" where
  "rotation_audit previous current =
     \<lparr>ri_actor = ''system'', ri_action = ''key_rotation'', ri_resourceType = ''signing_key'',
      ri_resourceId = Some (keyId current),
      ri_before = Some (JObj [(''keyId'', JStr (keyId previous)), (''status'', JStr ''active'')]),
      ri_after = Some (JObj [(''keyId'', JStr (keyId current)), (''status'', JStr ''active''),
                             (''previousKeyId'', JStr (keyId previous)), (''previousStatus'', JStr ''retiring'')]),
      ri_metadata = None\<rparr>"

definition rotate_type ::
  "(KeyType \<Rightarrow> fresh_key) \<Rightarrow> millis \<Rightarrow> KeyType \<Rightarrow> KeyRegistry \<times> (RotationResult \<times> AuditRecordInput) list \<Rightarrow>
   KeyRegistry \<times> (RotationResult \<times> AuditRecordInput) list" where
  "rotate_type fresh now ty s =
     (let (r1, previous, current) = rotate_key (fresh ty) now ty (fst s);
          (r2, _) = pruneRetiring ty now r1
      in (r2, snd s @ [(\<lparr>rr_previousKeyId = keyId previous, rr_newKeyId = keyId current, rr_keyType = ty,
                         rr_rotatedAt = createdAt current\<rparr>, rotation_audit previous current)]))"

definition rotateKeys ::
  "(KeyType \<Rightarrow> fresh_key) \<Rightarrow> millis \<Rightarrow> KeyType option \<Rightarrow> KeyRegistry \<Rightarrow> KeyRegistry \<times> (RotationResult \<times> AuditRecordInput) list" where
  "rotateKeys fresh now ty r =
     fold (rotate_type fresh now) (case ty of Some t \<Rightarrow> [t] | None \<Rightarrow> key_types) (r, [])"

text \<open>\<open>Buffer.from(s, 'hex')\<close>: pairs of hexadecimal digits up to the first thing that is none.\<close>

definition hex_val :: "char \<Rightarrow> nat option" where
  "hex_val c = (if is_digit c then Some (digit_val c)
                else if char_between 97 102 c then Some (of_char c - 87)
                else if char_between 65 70 c then Some (of_char c - 55) else None)"

fun hex_bytes :: "string \<Rightarrow> nat list" where
  "hex_bytes (a # b # s) =
     (case (hex_val a, hex_val b) of (Some x, Some y) \<Rightarrow> (16 * x + y) # hex_bytes s | _ \<Rightarrow> [])"
| "hex_bytes _ = []"

text \<open>\<open>None\<close>: no active key, the call throws.\<close>

definition signWithActiveKey ::
  "(nat list \<Rightarrow> string \<Rightarrow> string) \<Rightarrow> KeyType \<Rightarrow> string \<Rightarrow> KeyRegistry \<Rightarrow> (string \<times> string) option" where
  "signWithActiveKey hmac ty data r =
     (case getActive ty r of
        None \<Rightarrow> None
      | Some k \<Rightarrow> Some (keyId k, hmac (hex_bytes (material k)) data))"

definition verifyWithDualValidation ::
  "(nat list \<Rightarrow> string \<Rightarrow> string) \<Rightarrow> KeyType \<Rightarrow> string \<Rightarrow> string \<Rightarrow> KeyRegistry \<Rightarrow> (string \<times> KeyStatus) option" where
  "verifyWithDualValidation hmac ty data signature r =
     (case find (\<lambda>k. hex_bytes (hmac (hex_bytes (material k)) data) = hex_bytes signature) (getValidating ty r) of
        Some k \<Rightarrow> Some (keyId k, key_status k)
      | None \<Rightarrow> None)"

definition tick_type :: "(KeyType \<Rightarrow> fresh_key) \<Rightarrow> millis \<Rightarrow> KeyType \<Rightarrow> KeyRegistry \<Rightarrow> KeyRegistry" where
  "tick_type fresh now ty r =
     (case getActive ty r of
        None \<Rightarrow> r
      | Some k \<Rightarrow> if now - createdAt k \<ge> rotationIntervalMs (getPolicy ty r)
                  then fst (rotateKeys fresh now (Some ty) r) else r)"

definition scheduler_tick :: "(KeyType \<Rightarrow> fresh_key) \<Rightarrow> millis \<Rightarrow> KeyRegistry \<Rightarrow> KeyRegistry" where
  "scheduler_tick fresh now r = fold (tick_type fresh now) key_types r"

definition startRotationScheduler :: "nat \<Rightarrow> nat option \<Rightarrow> nat option" where
  "startRotationScheduler handle h = (case h of Some t \<Rightarrow> Some t | None \<Rightarrow> Some handle)"

definition stopRotationScheduler :: "nat option \<Rightarrow> nat option" where
  "stopRotationScheduler h = None"

record KeyStatusSummary =
  ks_key :: KeyRecord
  ks_ageMs :: int
  ks_daysUntilExpiry :: rat

definition getKeyStatusSummary :: "millis \<Rightarrow> KeyRegistry \<Rightarrow> KeyStatusSummary list" where
  "getKeyStatusSummary now r =
     map (\<lambda>k. \<lparr>ks_key = k, ks_ageMs = now - createdAt k,
               ks_daysUntilExpiry = of_int (expiresAt k - now) / of_int (24 * 60 * 60 * 1000)\<rparr>)
       (concat (map (keys r) key_types))"

section \<open>Histories\<close>

datatype key_op =
    Seed millis "KeyType \<Rightarrow> fresh_key"
  | Rotate millis "KeyType \<Rightarrow> fresh_key" "KeyType option"
  | Prune millis KeyType
  | Tick millis "KeyType \<Rightarrow> fresh_key"

primrec op_time :: "key_op \<Rightarrow> millis" where
  "op_time (Seed t f) = t"
| "op_time (Rotate t f ty) = t"
| "op_time (Prune t ty) = t"
| "op_time (Tick t f) = t"

primrec key_do :: "key_op \<Rightarrow> KeyRegistry \<Rightarrow> KeyRegistry" where
  "key_do (Seed t f) r = bootstrapKeys f t r"
| "key_do (Rotate t f ty) r = fst (rotateKeys f t ty r)"
| "key_do (Prune t ty) r = fst (pruneRetiring ty t r)"
| "key_do (Tick t f) r = scheduler_tick f t r"

text \<open>The steps every operation is made of.\<close>

inductive key_step :: "millis \<Rightarrow> KeyRegistry \<Rightarrow> KeyRegistry \<Rightarrow> bool" for now where
  key_seed: "key_step now r (fst (seedInitial f now ty r))"
| key_rotate: "key_step now r (fst (rotate_key f now ty r))"
| key_prune: "key_step now r (fst (pruneRetiring ty now r))"

inductive key_steps :: "millis \<Rightarrow> KeyRegistry \<Rightarrow> KeyRegistry \<Rightarrow> bool" for now where
  steps_refl: "key_steps now r r"
| steps_next: "key_steps now r r' \<Longrightarrow> key_step now r' r'' \<Longrightarrow> key_steps now r r''"

definition one_active :: "KeyRecord list \<Rightarrow> bool" where
  "one_active ks \<longleftrightarrow> ks = [] \<or> (is_active (hd ks) \<and> list_all (\<lambda>k. \<not> is_active k) (tl ks))"

definition reg_inv :: "KeyRegistry \<Rightarrow> bool" where
  "reg_inv r \<longleftrightarrow> (\<forall>ty. one_active (keys r ty) \<and> list_all (\<lambda>k. is_active k \<or> rotatedAt k \<noteq> None) (keys r ty))"

section \<open>Lemmas\<close>

lemma steps_trans: "key_steps now r r' \<Longrightarrow> key_steps now r' r'' \<Longrightarrow> key_steps now r r''"
  by (rotate_tac, induction rule: key_steps.induct) (auto intro: steps_next)

lemma fold_steps:
  "(\<And>x r. x \<in> set xs \<Longrightarrow> key_steps now r (g x r)) \<Longrightarrow> key_steps now r (fold g xs r)"
proof (induction xs arbitrary: r)
  case (Cons x xs)
  have "key_steps now r (g x r)" by (rule Cons.prems) simp
  moreover have "key_steps now (g x r) (fold g xs (g x r))" by (rule Cons.IH) (auto intro: Cons.prems)
  ultimately show ?case by (auto intro: steps_trans)
qed (simp add: steps_refl)

lemma rotate_type_steps: "key_steps now (fst s) (fst (rotate_type f now ty s))"
  using steps_next [OF steps_next [OF steps_refl key_rotate] key_prune]
  by (simp add: rotate_type_def Let_def case_prod_beta)

lemma rotate_types_steps: "key_steps now (fst s) (fst (fold (rotate_type f now) tys s))"
proof (induction tys arbitrary: s)
  case (Cons ty tys)
  show ?case using steps_trans [OF rotate_type_steps Cons.IH] by simp
qed (simp add: steps_refl)

lemma rotateKeys_steps: "key_steps now r (fst (rotateKeys f now ty r))"
  using rotate_types_steps [of now "(r, [])"] by (simp add: rotateKeys_def)

lemma tick_type_steps: "key_steps now r (tick_type f now ty r)"
  by (simp add: tick_type_def rotateKeys_steps steps_refl split: option.split)

text \<open>Every operation decomposes into steps at its own time.\<close>

lemma key_do_steps: "key_steps (op_time p) r (key_do p r)"
proof (cases p)
  case (Seed t f)
  have "key_steps t r (fst (seedInitial (f ty) t ty r))" for ty r by (rule steps_next [OF steps_refl key_seed])
  with Seed show ?thesis by (auto simp: bootstrapKeys_def intro: fold_steps)
next
  case (Prune t ty)
  then show ?thesis by (auto intro: steps_next [OF steps_refl key_prune])
next
  case (Tick t f)
  then show ?thesis by (auto simp: scheduler_tick_def intro: fold_steps tick_type_steps)
qed (simp add: rotateKeys_steps)

lemma find_active_Nil: "one_active ks \<Longrightarrow> find is_active ks = None \<longleftrightarrow> ks = []"
  by (cases ks) (auto simp: one_active_def)


lemma retire_active_one:
  "one_active ks \<Longrightarrow> list_all (\<lambda>k. is_active k \<or> rotatedAt k \<noteq> None) ks \<Longrightarrow>
     list_all (\<lambda>k. \<not> is_active k \<and> rotatedAt k \<noteq> None) (retire_active now ks)"
  by (cases ks) (auto simp: one_active_def retire_active_def is_active_def list_all_iff)

lemma createKey_keys:
  "keys (fst (createKey f now ty r)) = (keys r)(ty := snd (createKey f now ty r) # keys r ty)"
  "key_status (snd (createKey f now ty r)) = active" "rotatedAt (snd (createKey f now ty r)) = None"
  "createdAt (snd (createKey f now ty r)) = now" "policies (fst (createKey f now ty r)) = policies r"
  by (simp_all add: createKey_def Let_def)

lemma createKey_inv:
  assumes "reg_inv r" "list_all (\<lambda>k. \<not> is_active k) (keys r ty)"
  shows "reg_inv (fst (createKey f now ty r))"
  using assms unfolding reg_inv_def createKey_keys
  by (auto simp: createKey_keys one_active_def is_active_def list_all_iff) blast

lemma rotate_key_cases:
  "fst (rotate_key f now ty r) =
     fst (createKey f now ty (r\<lparr>keys := (keys r)(ty := retire_active now (keys r ty))\<rparr>))"
proof (cases "getActive ty r")
  case None
  then have "retire_active now (keys r ty) = keys r ty"
    by (auto simp: getActive_def retire_active_def find_None_iff intro: update_first_none)
  with None show ?thesis by (simp add: rotate_key_def case_prod_beta Let_def)
qed (simp add: rotate_key_def case_prod_beta Let_def)

lemma key_step_inv: "key_step now r r' \<Longrightarrow> reg_inv r \<Longrightarrow> reg_inv r'"
proof (induction rule: key_step.induct)
  case (key_seed r f ty)
  show ?case
  proof (cases "getActive ty r")
    case None
    then have "keys r ty = []" using key_seed by (simp add: getActive_def find_active_Nil reg_inv_def)
    with None key_seed show ?thesis by (simp add: seedInitial_def createKey_inv)
  qed (use key_seed in \<open>simp add: seedInitial_def\<close>)
next
  case (key_rotate r f ty)
  let ?r = "r\<lparr>keys := (keys r)(ty := retire_active now (keys r ty))\<rparr>"
  have "list_all (\<lambda>k. \<not> is_active k \<and> rotatedAt k \<noteq> None) (retire_active now (keys r ty))"
    using key_rotate by (intro retire_active_one) (simp_all add: reg_inv_def)
  with key_rotate show ?case
    by (auto simp: rotate_key_cases reg_inv_def createKey_keys one_active_def is_active_def list_all_iff)
next
  case (key_prune r ty)
  have "one_active (map (\<lambda>k. if window_elapsed p now k then k\<lparr>key_status := retired\<rparr> else k) ks) = one_active ks" for p ks
    by (cases ks) (auto simp: one_active_def list_all_iff is_active_def window_elapsed_def)
  with key_prune show ?case
    by (auto simp: reg_inv_def pruneRetiring_def Let_def list_all_iff is_active_def window_elapsed_def)
qed

lemma key_steps_inv: "key_steps now r r' \<Longrightarrow> reg_inv r \<Longrightarrow> reg_inv r'"
  by (induction rule: key_steps.induct) (auto intro: key_step_inv)

lemma fold_key_do_inv: "reg_inv r \<Longrightarrow> reg_inv (fold key_do ps r)"
  by (induction ps arbitrary: r) (auto intro: key_steps_inv key_do_steps)

text \<open>A key that signs, or has stopped signing no earlier than \<open>t\<close>, still validates.\<close>

definition still_validates :: "millis \<Rightarrow> KeyRecord \<Rightarrow> KeyRecord \<Rightarrow> bool" where
  "still_validates t k k' \<longleftrightarrow> keyId k' = keyId k \<and> material k' = material k \<and>
     (key_status k' = active \<or> (key_status k' = retiring \<and> (\<exists>t'. rotatedAt k' = Some t' \<and> t \<le> t')))"

definition holds_key :: "millis \<Rightarrow> KeyType \<Rightarrow> KeyRecord \<Rightarrow> KeyRegistry \<Rightarrow> bool" where
  "holds_key t ty k r \<longleftrightarrow> (\<exists>k' \<in> set (keys r ty). still_validates t k k')"

lemma in_set_update_first:
  "x \<in> set xs \<Longrightarrow> x \<in> set (update_first p f xs) \<or> (p x \<and> f x \<in> set (update_first p f xs))"
  by (induction xs) auto

lemma retire_active_holds:
  assumes "t \<le> now" "\<exists>k' \<in> set ks. still_validates t k k'"
  shows "\<exists>k' \<in> set (retire_active now ks). still_validates t k k'"
proof -
  obtain k' where k': "k' \<in> set ks" "still_validates t k k'" using assms(2) by blast
  have "still_validates t k (k'\<lparr>key_status := retiring, rotatedAt := Some now\<rparr>)"
    using k'(2) assms(1) by (simp add: still_validates_def)
  with k' in_set_update_first [OF k'(1), of is_active "\<lambda>k. k\<lparr>key_status := retiring, rotatedAt := Some now\<rparr>"]
  show ?thesis unfolding retire_active_def by blast
qed

lemma key_step_policies: "key_step now r r' \<Longrightarrow> policies r' = policies r"
  by (induction rule: key_step.induct)
    (auto simp: seedInitial_def rotate_key_cases createKey_keys pruneRetiring_def Let_def split: option.split)

lemma key_step_holds:
  assumes "key_step now r r'" "holds_key t ty k r" "t \<le> now" "now - t \<le> transitionWindowMs (policies r ty)"
  shows "holds_key t ty k r'"
  using assms
proof (induction rule: key_step.induct)
  case (key_seed r f ty')
  then show ?case by (auto simp: holds_key_def seedInitial_def createKey_keys split: option.split)
next
  case (key_rotate r f ty')
  then show ?case
    using retire_active_holds [of t now "keys r ty" k]
    by (cases "ty' = ty") (auto simp: holds_key_def rotate_key_cases createKey_keys)
next
  case (key_prune r ty')
  obtain k' where k': "k' \<in> set (keys r ty)" "still_validates t k k'" using key_prune.prems by (auto simp: holds_key_def)
  then have "\<not> window_elapsed (policies r ty) now k'"
    using key_prune.prems by (auto simp: still_validates_def window_elapsed_def)
  with k' show ?case by (force simp: holds_key_def pruneRetiring_def Let_def getPolicy_def)
qed

lemma key_steps_holds:
  assumes "key_steps now r r'" "holds_key t ty k r" "t \<le> now" "now - t \<le> transitionWindowMs (policies r ty)"
  shows "holds_key t ty k r' \<and> policies r' = policies r"
  using assms by (induction rule: key_steps.induct) (auto simp: key_step_policies dest: key_step_holds)

lemma fold_key_do_holds:
  assumes "holds_key t ty k r" "\<forall>p \<in> set ps. t \<le> op_time p \<and> op_time p - t \<le> transitionWindowMs (policies r ty)"
  shows "holds_key t ty k (fold key_do ps r)"
  using assms
proof (induction ps arbitrary: r)
  case (Cons p ps)
  then have "holds_key t ty k (key_do p r) \<and> policies (key_do p r) = policies r"
    by (intro key_steps_holds [OF key_do_steps]) simp_all
  with Cons show ?case by simp
qed simp

lemma holds_key_verifies:
  assumes "holds_key t ty k r"
  shows "verifyWithDualValidation hmac ty data (hmac (hex_bytes (material k)) data) r \<noteq> None"
proof -
  obtain k' where k': "k' \<in> set (getValidating ty r)" "material k' = material k"
    using assms by (auto simp: holds_key_def still_validates_def getValidating_def)
  then have "find (\<lambda>k'. hex_bytes (hmac (hex_bytes (material k')) data) = hex_bytes (hmac (hex_bytes (material k)) data))
      (getValidating ty r) \<noteq> None"
    by (auto simp: find_None_iff)
  then show ?thesis by (auto simp: verifyWithDualValidation_def split: option.split)
qed

lemma active_holds: "getActive ty r = Some k \<Longrightarrow> holds_key t ty k r"
  by (auto simp: getActive_def holds_key_def still_validates_def find_Some_iff is_active_def intro!: bexI [of _ k])

lemma tick_type_early:
  assumes "\<And>k. getActive ty r = Some k \<Longrightarrow> now - createdAt k < rotationIntervalMs (policies r ty)"
  shows "tick_type f now ty r = r"
  using assms by (auto simp: tick_type_def getPolicy_def split: option.split)

lemma rotate_one:
  "fst (rotateKeys f now (Some ty) r) = fst (pruneRetiring ty now (fst (rotate_key (f ty) now ty r)))"
  by (simp add: rotateKeys_def rotate_type_def case_prod_beta Let_def)

lemma rotate_key_keys:
  "keys (fst (rotate_key f now ty r)) ty' =
     (if ty' = ty then snd (createKey f now ty (r\<lparr>keys := (keys r)(ty := retire_active now (keys r ty))\<rparr>)) # retire_active now (keys r ty)
      else keys r ty')"
  "policies (fst (rotate_key f now ty r)) = policies r"
  by (simp_all add: rotate_key_cases createKey_keys)

lemma prune_keys:
  "keys (fst (pruneRetiring ty now r)) ty' =
     (if ty' = ty then map (\<lambda>k. if window_elapsed (policies r ty) now k then k\<lparr>key_status := retired\<rparr> else k) (keys r ty)
      else keys r ty')"
  "policies (fst (pruneRetiring ty now r)) = policies r"
  by (simp_all add: pruneRetiring_def Let_def getPolicy_def)

lemma rotateKeys_active:
  "getActive ty (fst (rotateKeys f now (Some ty) r)) \<noteq> None \<and>
   (\<forall>k. getActive ty (fst (rotateKeys f now (Some ty) r)) = Some k \<longrightarrow> createdAt k = now)"
  by (simp add: rotate_one getActive_def prune_keys rotate_key_keys createKey_keys is_active_def window_elapsed_def)

lemma tick_type_other: "ty' \<noteq> ty \<Longrightarrow> keys (tick_type f now ty' r) ty = keys r ty"
  "policies (tick_type f now ty' r) = policies r"
  by (auto simp: tick_type_def rotate_one prune_keys rotate_key_keys split: option.split)

lemma tick_type_keeps:
  assumes "\<And>k. getActive ty r = Some k \<Longrightarrow> now - createdAt k < rotationIntervalMs (policies r ty)"
  shows "keys (tick_type f now ty' r) ty = keys r ty"
  using tick_type_early [OF assms] tick_type_other(1) [of ty' ty] by (cases "ty' = ty") auto

lemma scheduler_tick_keeps:
  assumes "\<And>k. getActive ty r = Some k \<Longrightarrow> now - createdAt k < rotationIntervalMs (policies r ty)"
  shows "keys (scheduler_tick f now r) ty = keys r ty \<and> policies (scheduler_tick f now r) = policies r"
proof -
  have "keys (fold (tick_type f now) tys r) ty = keys r ty \<and> policies (fold (tick_type f now) tys r) = policies r" for tys
    using assms
  proof (induction tys arbitrary: r)
    case (Cons ty' tys)
    have k: "keys (tick_type f now ty' r) ty = keys r ty" "policies (tick_type f now ty' r) = policies r"
      using tick_type_keeps [OF Cons.prems] tick_type_other(2) by auto
    then have "\<And>k. getActive ty (tick_type f now ty' r) = Some k \<Longrightarrow>
        now - createdAt k < rotationIntervalMs (policies (tick_type f now ty' r) ty)"
      using Cons.prems by (simp add: getActive_def)
    from Cons.IH [OF this] k show ?case by simp
  qed simp
  then show ?thesis by (simp add: scheduler_tick_def)
qed

lemma scheduler_ticks_keep:
  assumes "\<And>k. getActive ty r = Some k \<Longrightarrow> \<forall>c \<in> set cs. fst c - createdAt k < rotationIntervalMs (policies r ty)"
  shows "keys (fold (\<lambda>c. scheduler_tick (snd c) (fst c)) cs r) ty = keys r ty"
  using assms
proof (induction cs arbitrary: r)
  case (Cons c cs)
  have k: "keys (scheduler_tick (snd c) (fst c) r) ty = keys r ty" "policies (scheduler_tick (snd c) (fst c) r) = policies r"
    using scheduler_tick_keeps [of ty r "fst c" "snd c"] Cons.prems by auto
  have "keys (fold (\<lambda>c. scheduler_tick (snd c) (fst c)) cs (scheduler_tick (snd c) (fst c) r)) ty =
      keys (scheduler_tick (snd c) (fst c) r) ty"
    by (rule Cons.IH) (use Cons.prems k in \<open>simp add: getActive_def\<close>)
  with k show ?case by simp
qed simp

section \<open>Properties\<close>











text \<open>C33. Sessions survive rotation. What was signed with the active key verifies after any sequence of
  rotations, prunings, bootstraps and scheduler runs, as long as they all happen between the time of
  signing and the end of the transition window counted from there.\<close>

theorem signature_survives_rotation:
  assumes "signWithActiveKey hmac ty data r = Some (kid, sig)"
    and "\<forall>p \<in> set ps. t \<le> op_time p \<and> op_time p - t \<le> transitionWindowMs (policies r ty)"
  shows "verifyWithDualValidation hmac ty data sig (fold key_do ps r) \<noteq> None"
proof -
  obtain k where k: "getActive ty r = Some k" "sig = hmac (hex_bytes (material k)) data"
    using assms(1) by (auto simp: signWithActiveKey_def split: option.splits)
  then have "holds_key t ty k (fold key_do ps r)" using assms(2) by (intro fold_key_do_holds active_holds)
  with k show ?thesis using holds_key_verifies by simp
qed

definition example_fresh :: "KeyType \<Rightarrow> fresh_key" where
  "example_fresh ty = (''k'', ''ab'')"

definition example_hmac :: "nat list \<Rightarrow> string \<Rightarrow> string" where
  "example_hmac k data = string_of_nat (sum_list k)"

definition example_registry :: KeyRegistry where
  "example_registry = fst (createKey (''k'', ''ab'') 0 jwt new_registry)"

definition example_key :: KeyRecord where
  "example_key = snd (createKey (''k'', ''ab'') 0 jwt new_registry)"

lemma example_registry_active:
  "getActive jwt example_registry = Some example_key" "policies example_registry = DEFAULT_POLICIES"
  "material example_key = ''ab''" "keyId example_key = ''k''"
  by (simp_all add: example_registry_def example_key_def getActive_def createKey_keys is_active_def)
    (simp_all add: createKey_def Let_def new_registry_def)

theorem signature_survives_rotation_witness:
  "verifyWithDualValidation example_hmac jwt ''d'' (example_hmac (hex_bytes ''ab'') ''d'')
     (fold key_do [Rotate 10 example_fresh None, Prune 20 jwt] example_registry) \<noteq> None"
proof -
  have "signWithActiveKey example_hmac jwt ''d'' example_registry = Some (''k'', example_hmac (hex_bytes ''ab'') ''d'')"
    by (simp add: signWithActiveKey_def example_registry_active)
  then show ?thesis
    by (rule signature_survives_rotation [where t = 0]) (simp add: example_registry_active TWENTY_FOUR_H_MS_def)
qed

text \<open>A rotated-out key stays valid until the next rotation of its type. Pruning happens only when a key of
  the type is rotated again, so every scheduler run before the rotation interval has passed leaves the keys of
  the type as they are, and signatures of the old key verify however long the transition window is over.\<close>

theorem retiring_key_outlives_window:
  assumes "getActive ty r = Some k" "0 \<le> transitionWindowMs (policies r ty)"
    and "\<forall>c \<in> set cs. fst c < now + rotationIntervalMs (policies r ty)"
  shows "keys (fold (\<lambda>c. scheduler_tick (snd c) (fst c)) cs (fst (rotateKeys f now (Some ty) r))) ty =
           keys (fst (rotateKeys f now (Some ty) r)) ty \<and>
         verifyWithDualValidation hmac ty data (hmac (hex_bytes (material k)) data)
           (fold (\<lambda>c. scheduler_tick (snd c) (fst c)) cs (fst (rotateKeys f now (Some ty) r))) \<noteq> None"
proof -
  let ?r = "fst (rotateKeys f now (Some ty) r)"
  have pol: "policies ?r = policies r" by (simp add: rotate_one prune_keys rotate_key_keys)
  have same: "keys (fold (\<lambda>c. scheduler_tick (snd c) (fst c)) cs ?r) ty = keys ?r ty"
  proof (rule scheduler_ticks_keep)
    fix k' assume "getActive ty ?r = Some k'"
    then have "createdAt k' = now" using rotateKeys_active by blast
    with assms(3) pol show "\<forall>c \<in> set cs. fst c - createdAt k' < rotationIntervalMs (policies ?r ty)" by auto
  qed
  have "holds_key now ty k ?r"
    using key_steps_holds [OF rotateKeys_steps active_holds [OF assms(1), of now]] assms(2) by simp
  then have "holds_key now ty k (fold (\<lambda>c. scheduler_tick (snd c) (fst c)) cs ?r)" using same by (simp add: holds_key_def)
  with same holds_key_verifies show ?thesis by blast
qed

theorem retiring_key_outlives_window_witness:
  "verifyWithDualValidation example_hmac jwt ''d'' (example_hmac (hex_bytes ''ab'') ''d'')
     (fold (\<lambda>c. scheduler_tick (snd c) (fst c)) [(29 * TWENTY_FOUR_H_MS, example_fresh)]
       (fst (rotateKeys (\<lambda>_. (''l'', ''cd'')) 0 (Some jwt) example_registry))) \<noteq> None"
proof -
  have "29 * TWENTY_FOUR_H_MS < 0 + rotationIntervalMs (policies example_registry jwt)"
    by (simp add: example_registry_active TWENTY_FOUR_H_MS_def THIRTY_DAYS_MS_def)
  then show ?thesis
    using retiring_key_outlives_window [OF example_registry_active(1),
        of "[(29 * TWENTY_FOUR_H_MS, example_fresh)]" 0 "\<lambda>_. (''l'', ''cd'')" example_hmac "''d''"]
    by (simp add: example_registry_active TWENTY_FOUR_H_MS_def)
qed

end
