(* ===== verification/Aml.thy ===== *)
theory Aml
  imports Sliding_Window Js_Values Errors
begin

text \<open>
  Screening of transactions, \<open>backend/src/aml_service.ts\<close>. The module keeps two variables: the time
  stamps of recent transactions per address and the list of compliance flags. A flag's random id and
  the clock are arguments; an amount is an exact rational, or \<open>None\<close> for \<open>NaN\<close>. Throwing is the left injection
  of a sum. The two routes of \<open>backend/src/routes/compliance.ts\<close> that change the state are modelled too, after
  their authentication; the address, the hash, the decision and the notes of a body are strings if they are present,
  which the source does not check.
\<close>

section \<open>Data\<close>

datatype RiskLevel = LOW | MEDIUM | HIGH | CRITICAL

datatype FlagReason = sanctioned_address | high_value | rapid_succession | blacklist_match

datatype decision = approved | rejected

record ComplianceFlag =
  cf_id :: string
  cf_address :: address
  cf_txHash :: string
  cf_riskLevel :: RiskLevel
  cf_reasons :: "FlagReason list"
  cf_timestamp :: string
  cf_reviewed :: bool
  cf_reviewedBy :: "string option"
  cf_decision :: "decision option"
  cf_notes :: "string option"

record AmlCheckResult =
  ac_flagged :: bool
  ac_riskLevel :: RiskLevel
  ac_reasons :: "FlagReason list"

record aml_state =
  recentTxTimestamps :: "address \<rightharpoonup> millis list"
  flagStore :: "ComplianceFlag list"

definition aml_start :: aml_state where
  "aml_start = \<lparr>recentTxTimestamps = (\<lambda>_. None), flagStore = []\<rparr>"

definition MOCK_SANCTIONED_ADDRESSES :: "address set" where
  "MOCK_SANCTIONED_ADDRESSES =
     {''GBADsanctioned1'' @ replicate 47 CHR ''X'', ''GBADsanctioned2'' @ replicate 47 CHR ''X'',
      ''GBADBLACKLIST3'' @ replicate 47 CHR ''X''}"

definition HIGH_VALUE_THRESHOLD :: rat where
  "HIGH_VALUE_THRESHOLD = 10000"

definition RAPID_SUCCESSION_WINDOW_MS :: millis where
  "RAPID_SUCCESSION_WINDOW_MS = 60000"

definition RAPID_SUCCESSION_COUNT :: nat where
  "RAPID_SUCCESSION_COUNT = 3"

section \<open>Screening\<close>

definition note_transaction :: "(address \<rightharpoonup> millis list) \<Rightarrow> address \<Rightarrow> millis \<Rightarrow> (address \<rightharpoonup> millis list)" where
  "note_transaction recent address now =
     (let timestamps = filter (\<lambda>t. now - t < RAPID_SUCCESSION_WINDOW_MS) (or_default (recent address) [])
      in recent(address \<mapsto> timestamps @ [now]))"

definition risk_of :: "FlagReason list \<Rightarrow> RiskLevel" where
  "risk_of reasons =
     (if sanctioned_address \<in> set reasons then CRITICAL
      else if rapid_succession \<in> set reasons \<and> high_value \<in> set reasons then HIGH
      else if high_value \<in> set reasons \<or> rapid_succession \<in> set reasons then MEDIUM
      else LOW)"

definition high_amount :: "rat option \<Rightarrow> bool" where
  "high_amount amount = (case amount of None \<Rightarrow> False | Some a \<Rightarrow> a > HIGH_VALUE_THRESHOLD)"

definition screenTransaction ::
  "aml_state \<Rightarrow> millis \<Rightarrow> address \<Rightarrow> string \<Rightarrow> rat option \<Rightarrow> aml_state \<times> AmlCheckResult" where
  "screenTransaction st now address txHash amount =
     (let recent = note_transaction (recentTxTimestamps st) address now;
          reasons =
            (if address \<in> MOCK_SANCTIONED_ADDRESSES then [sanctioned_address] else []) @
            (if high_amount amount then [high_value] else []) @
            (if length (or_default (recent address) []) \<ge> RAPID_SUCCESSION_COUNT then [rapid_succession] else [])
      in (st\<lparr>recentTxTimestamps := recent\<rparr>,
          \<lparr>ac_flagged = (reasons \<noteq> []), ac_riskLevel = risk_of reasons, ac_reasons = reasons\<rparr>))"

section \<open>Flags\<close>

definition flagTransaction ::
  "aml_state \<Rightarrow> millis \<Rightarrow> string \<Rightarrow> address \<Rightarrow> string \<Rightarrow> AmlCheckResult \<Rightarrow> aml_state \<times> ComplianceFlag" where
  "flagTransaction st now uuid address txHash result =
     (let flag = \<lparr>cf_id = uuid, cf_address = address, cf_txHash = txHash, cf_riskLevel = ac_riskLevel result,
                  cf_reasons = ac_reasons result, cf_timestamp = toISOString now, cf_reviewed = False,
                  cf_reviewedBy = None, cf_decision = None, cf_notes = None\<rparr>
      in (st\<lparr>flagStore := flagStore st @ [flag]\<rparr>, flag))"

definition getFlaggedTransactions :: "aml_state \<Rightarrow> ComplianceFlag list" where
  "getFlaggedTransactions st = filter (\<lambda>f. \<not> cf_reviewed f) (flagStore st)"

definition reviewFlag ::
  "aml_state \<Rightarrow> string \<Rightarrow> string \<Rightarrow> decision \<Rightarrow> string option \<Rightarrow> string + aml_state" where
  "reviewFlag st uuid reviewedBy d notes =
     (case List.find (\<lambda>f. cf_id f = uuid) (flagStore st) of
        None \<Rightarrow> Inl (''Flag '' @ uuid @ '' not found'')
      | Some _ \<Rightarrow> Inr (st\<lparr>flagStore :=
          update_first (\<lambda>f. cf_id f = uuid)
            (\<lambda>f. f\<lparr>cf_reviewed := True, cf_reviewedBy := Some reviewedBy, cf_decision := Some d, cf_notes := notes\<rparr>)
            (flagStore st)\<rparr>))"

definition aml_getAuditLog :: "aml_state \<Rightarrow> ComplianceFlag list" where
  "aml_getAuditLog st = flagStore st"

section \<open>Risk levels are ordered\<close>

primrec risk_rank :: "RiskLevel \<Rightarrow> nat" where
  "risk_rank LOW = 0"
| "risk_rank MEDIUM = 1"
| "risk_rank HIGH = 2"
| "risk_rank CRITICAL = 3"

instantiation RiskLevel :: linorder
begin

definition less_eq_RiskLevel :: "RiskLevel \<Rightarrow> RiskLevel \<Rightarrow> bool" where
  "less_eq_RiskLevel a b \<longleftrightarrow> risk_rank a \<le> risk_rank b"

definition less_RiskLevel :: "RiskLevel \<Rightarrow> RiskLevel \<Rightarrow> bool" where
  "less_RiskLevel a b \<longleftrightarrow> risk_rank a < risk_rank b"

instance
proof
  fix a b :: RiskLevel
  show "a \<le> b \<Longrightarrow> b \<le> a \<Longrightarrow> a = b"
    by (cases a; cases b) (simp_all add: less_eq_RiskLevel_def)
qed (auto simp: less_eq_RiskLevel_def less_RiskLevel_def)

end

lemma risk_of_mono:
  assumes "set rs \<subseteq> set rs'"
  shows "risk_of rs \<le> risk_of rs'"
  using assms by (auto simp: risk_of_def less_eq_RiskLevel_def)

section \<open>The store of recent transactions is a counting store\<close>

definition recent_hits :: "aml_state \<Rightarrow> address \<Rightarrow> millis list" where
  "recent_hits st a = or_default (recentTxTimestamps st a) []"

interpretation rapid: counting_store recent_hits
  "\<lambda>st a now. fst (screenTransaction st now a h amt)" "\<lambda>_ _ _. True" "\<lambda>_. RAPID_SUCCESSION_WINDOW_MS"
  for h amt
proof unfold_locales
  have "now - t < w \<longleftrightarrow> now - w < t" for now t w :: int by auto
  then show "recent_hits (fst (screenTransaction st now k h amt)) k =
      filter (\<lambda>ts. now - RAPID_SUCCESSION_WINDOW_MS < ts) (recent_hits st k) @ (if True then [now] else [])"
    for st k now
    by (simp add: recent_hits_def screenTransaction_def note_transaction_def Let_def)
qed (simp_all add: recent_hits_def screenTransaction_def note_transaction_def Let_def)

text \<open>A sequence of screenings: address, time, transaction hash and amount of each.\<close>

type_synonym screening = "address \<times> millis \<times> string \<times> rat option"

fun screen_all :: "aml_state \<Rightarrow> screening list \<Rightarrow> aml_state" where
  "screen_all st [] = st"
| "screen_all st ((a, now, h, amt) # rs) = screen_all (fst (screenTransaction st now a h amt)) rs"

lemma screenTransaction_state:
  "fst (screenTransaction st now a h amt) = fst (screenTransaction st now a h' amt')"
  by (simp add: screenTransaction_def Let_def)

lemma screenTransaction_flagStore [simp]: "flagStore (fst (screenTransaction st now a h amt)) = flagStore st"
  by (simp add: screenTransaction_def Let_def)

lemma rapid_reason_iff:
  "rapid_succession \<in> set (ac_reasons (snd (screenTransaction st now a h amt))) \<longleftrightarrow>
     RAPID_SUCCESSION_COUNT \<le> length (recent_hits (fst (screenTransaction st now a h amt)) a)"
  by (simp add: screenTransaction_def recent_hits_def Let_def)

lemma screen_all_visits:
  "screen_all st rs =
     visits (\<lambda>st a now. fst (screenTransaction st now a h amt)) st (map (\<lambda>(a, now, _, _). (a, now)) rs)"
proof (induction rs arbitrary: st)
  case (Cons r rs)
  obtain a now h' amt' where "r = (a, now, h', amt')" by (cases r)
  with Cons show ?case by (simp add: screenTransaction_state [of st now a h' amt' h amt])
qed simp

section \<open>Properties of screening\<close>

text \<open>C34. Rapid succession is detected exactly. After any sequence of screenings on a clock that does not
  go back, the check of address \<open>a\<close> reports \<open>rapid_succession\<close> if and only if that check is at least the
  third one of \<open>a\<close> within the last minute.\<close>

theorem rapid_succession_exact:
  fixes rs :: "screening list" and a :: address and now :: millis and h :: string and amt :: "rat option"
  defines "all \<equiv> rs @ [(a, now, h, amt)]"
  assumes "sorted (map (\<lambda>(_, t, _, _). t) all)"
  shows "rapid_succession \<in> set (ac_reasons (snd (screenTransaction (screen_all aml_start rs) now a h amt))) \<longleftrightarrow>
         3 \<le> length (filter (\<lambda>(b, t, _, _). b = a \<and> now - 60000 < t) all)"
proof -
  let ?vis = "map (\<lambda>(a, now, _, _). (a, now)) rs"
  have st: "fst (screenTransaction (screen_all aml_start rs) now a h amt) =
      visits (\<lambda>st a now. fst (screenTransaction st now a h amt)) aml_start (?vis @ [(a, now)])"
    by (simp add: visits_append screen_all_visits [of _ _ h amt])
  have times: "map snd (?vis @ [(a, now)]) = map (\<lambda>(_, t, _, _). t) all" and "all = rs @ [(a, now, h, amt)]"
    by (simp_all add: all_def case_prod_beta o_def)
  have le: "t \<le> now" if "(b, t, h', amt') \<in> set all" for b t h' amt'
    using assms(2) that by (auto simp: all_def sorted_append)
  have "length (recent_hits (fst (screenTransaction (screen_all aml_start rs) now a h amt)) a) =
      length (filter (\<lambda>r. fst r = a \<and> in_window RAPID_SUCCESSION_WINDOW_MS now (snd r)) (?vis @ [(a, now)]))"
    unfolding st
    by (subst rapid.hits_after_visit) (use assms(2) times in \<open>simp_all add: recent_hits_def aml_start_def RAPID_SUCCESSION_WINDOW_MS_def\<close>)
  also have "?vis @ [(a, now)] = map (\<lambda>(a, now, _, _). (a, now)) all" by (simp add: all_def)
  also have "length (filter (\<lambda>r. fst r = a \<and> in_window RAPID_SUCCESSION_WINDOW_MS now (snd r)) \<dots>) =
      length (filter (\<lambda>(b, t, _, _). b = a \<and> now - 60000 < t) all)"
    using le by (auto simp: filter_map o_def in_window_def RAPID_SUCCESSION_WINDOW_MS_def
        intro!: arg_cong [of _ _ length] filter_cong)
  finally show ?thesis by (simp add: rapid_reason_iff RAPID_SUCCESSION_COUNT_def)
qed

theorem rapid_succession_exact_witness:
  "rapid_succession \<in> set (ac_reasons (snd (screenTransaction
     (screen_all aml_start [(''GA'', 0, [], Some 5), (''GB'', 10, [], Some 7), (''GA'', 30000, [], Some 20000)]) 59999 ''GA'' [] (Some 1)))) \<and>
   rapid_succession \<notin> set (ac_reasons (snd (screenTransaction
     (screen_all aml_start [(''GA'', 0, [], Some 5), (''GB'', 10, [], Some 7), (''GA'', 30000, [], Some 20000)]) 60000 ''GA'' [] (Some 1))))"
  using rapid_succession_exact [of "[(''GA'', 0, [], Some 5), (''GB'', 10, [], Some 7), (''GA'', 30000, [], Some 20000)]" "''GA''" 59999 "[]" "Some 1"]
    rapid_succession_exact [of "[(''GA'', 0, [], Some 5), (''GB'', 10, [], Some 7), (''GA'', 30000, [], Some 20000)]" "''GA''" 60000 "[]" "Some 1"]
  by simp

text \<open>A transaction is flagged exactly when its risk is above \<open>LOW\<close>, a sanctioned address is always
  \<open>CRITICAL\<close>, and the level is \<open>HIGH\<close> only for an amount above the threshold.\<close>

theorem screening_levels:
  "let r = snd (screenTransaction st now a h amt) in
     (ac_flagged r \<longleftrightarrow> LOW < ac_riskLevel r) \<and>
     (ac_riskLevel r = CRITICAL \<longleftrightarrow> a \<in> MOCK_SANCTIONED_ADDRESSES) \<and>
     (ac_riskLevel r = HIGH \<longleftrightarrow>
        a \<notin> MOCK_SANCTIONED_ADDRESSES \<and> high_amount amt \<and> rapid_succession \<in> set (ac_reasons r))"
  by (auto simp: screenTransaction_def risk_of_def less_RiskLevel_def Let_def)

section \<open>Properties of the flags\<close>

definition flag_ids :: "aml_state \<Rightarrow> string list" where
  "flag_ids st = map cf_id (flagStore st)"

lemma reviewFlag_Inr:
  assumes "reviewFlag st uuid by d notes = Inr st'"
  shows "uuid \<in> set (flag_ids st)" and "flag_ids st' = flag_ids st"
    and "recentTxTimestamps st' = recentTxTimestamps st"
  using assms
  by (auto simp: reviewFlag_def flag_ids_def map_update_first find_Some_iff split: option.splits)

lemma filter_update_first_removed:
  assumes "distinct (map k xs)" and "\<And>x. k (f x) = k x" and "\<And>x. \<not> q (f x)"
  shows "filter q (update_first (\<lambda>x. k x = u) f xs) = filter (\<lambda>x. q x \<and> k x \<noteq> u) xs"
  using assms(1)
proof (induction xs)
  case (Cons x xs)
  have "filter q xs = filter (\<lambda>y. q y \<and> k y \<noteq> u) xs" if "k x = u"
    using Cons.prems that by (intro filter_cong) (auto simp: image_iff)
  with Cons assms show ?case by simp
qed simp

text \<open>C35. Reviewing a flag. With distinct ids, \<open>reviewFlag\<close> throws, with the id in its message, exactly for an
  id no flag has; otherwise the flags still to be reviewed are the former ones without it, in order, and the
  audit log keeps every flag.\<close>

theorem reviewFlag_spec:
  assumes "distinct (flag_ids st)"
  shows "case reviewFlag st uuid by d notes of
           Inl e \<Rightarrow> uuid \<notin> set (flag_ids st) \<and> e = ''Flag '' @ uuid @ '' not found''
         | Inr st' \<Rightarrow> uuid \<in> set (flag_ids st) \<and>
             getFlaggedTransactions st' = filter (\<lambda>f. cf_id f \<noteq> uuid) (getFlaggedTransactions st) \<and>
             map cf_id (aml_getAuditLog st') = map cf_id (aml_getAuditLog st)"
proof (cases "List.find (\<lambda>f. cf_id f = uuid) (flagStore st)")
  case None
  then have "uuid \<notin> set (flag_ids st)" by (auto simp: find_None_iff flag_ids_def)
  with None show ?thesis by (simp add: reviewFlag_def)
next
  case (Some f)
  then obtain st' where r: "reviewFlag st uuid by d notes = Inr st'" by (simp add: reviewFlag_def)
  have "getFlaggedTransactions st' = filter (\<lambda>f. \<not> cf_reviewed f \<and> cf_id f \<noteq> uuid) (flagStore st)"
    using r Some assms
    by (auto simp: reviewFlag_def getFlaggedTransactions_def flag_ids_def intro!: filter_update_first_removed)
  with r reviewFlag_Inr [OF r] show ?thesis
    by (simp add: getFlaggedTransactions_def aml_getAuditLog_def flag_ids_def conj_commute)
qed

theorem reviewFlag_spec_witness:
  "\<exists>st. flag_ids st = [''f1'', ''f2''] \<and>
     (case reviewFlag st ''f1'' ''ops'' rejected None of
        Inl e \<Rightarrow> False | Inr st' \<Rightarrow> map cf_id (getFlaggedTransactions st') = [''f2'']) \<and>
     reviewFlag st ''f3'' ''ops'' rejected None = Inl ''Flag f3 not found''"
proof -
  let ?r = "\<lparr>ac_flagged = True, ac_riskLevel = MEDIUM, ac_reasons = [high_value]\<rparr>"
  define st where "st = fst (flagTransaction (fst (flagTransaction aml_start 0 ''f1'' ''GA'' ''h1'' ?r)) 5 ''f2'' ''GB'' ''h2'' ?r)"
  have ids: "flag_ids st = [''f1'', ''f2'']"
    by (simp add: st_def flag_ids_def flagTransaction_def aml_start_def Let_def)
  have pend: "map cf_id (getFlaggedTransactions st) = [''f1'', ''f2'']"
    by (simp add: st_def flagTransaction_def aml_start_def getFlaggedTransactions_def Let_def)
  have pend': "map cf_id (filter (\<lambda>f. cf_id f \<noteq> ''f1'') (getFlaggedTransactions st)) = [''f2'']"
    using arg_cong [OF pend, of "filter (\<lambda>i. i \<noteq> ''f1'')"] by (simp add: filter_map o_def)
  have "case reviewFlag st ''f1'' ''ops'' rejected None of
      Inl e \<Rightarrow> False | Inr st' \<Rightarrow> map cf_id (getFlaggedTransactions st') = [''f2'']"
    using reviewFlag_spec [of st "''f1''" "''ops''" rejected None] ids pend'
    by (cases "reviewFlag st ''f1'' ''ops'' rejected None") simp_all
  moreover have "reviewFlag st ''f3'' ''ops'' rejected None = Inl ''Flag f3 not found''"
    using reviewFlag_spec [of st "''f3''" "''ops''" rejected None] ids
    by (cases "reviewFlag st ''f3'' ''ops'' rejected None") simp_all
  ultimately show ?thesis using ids by blast
qed

section \<open>Well-formedness of the flag store\<close>

text \<open>A flag is reviewed exactly when it has a reviewer and a decision, its risk level is that of its reasons, and it
  has at least one reason.\<close>

definition flag_wf :: "ComplianceFlag \<Rightarrow> bool" where
  "flag_wf f \<longleftrightarrow> (cf_reviewed f \<longleftrightarrow> cf_reviewedBy f \<noteq> None) \<and> (cf_reviewed f \<longleftrightarrow> cf_decision f \<noteq> None) \<and>
     cf_riskLevel f = risk_of (cf_reasons f) \<and> cf_reasons f \<noteq> [] \<and> distinct (cf_reasons f) \<and>
     blacklist_match \<notin> set (cf_reasons f)"

text \<open>The two requests that change the state: their bodies after authentication, with the time and the random id.\<close>

datatype aml_request =
    Screen millis string "string option" "string option" "json option"
  | Review string "string option" "string option" "string option"

definition screen_route ::
  "aml_state \<Rightarrow> millis \<Rightarrow> string \<Rightarrow> string option \<Rightarrow> string option \<Rightarrow> json option \<Rightarrow> aml_state \<times> (thrown + AmlCheckResult)" where
  "screen_route st now uuid addr txHash amount =
     (case amount of
        None \<Rightarrow> (st, Inl (AppError ''AppError'' ''MISSING_FIELDS'' ''address, txHash, and amount are required'' 400 None))
      | Some v \<Rightarrow>
          if \<not> truthy addr \<or> \<not> truthy txHash \<or> v = JNull
          then (st, Inl (AppError ''AppError'' ''MISSING_FIELDS'' ''address, txHash, and amount are required'' 400 None))
          else (let a = or_default addr []; h = or_default txHash [];
                    (st1, r) = screenTransaction st now a h (json_number v)
                in (if ac_flagged r then fst (flagTransaction st1 now uuid a h r) else st1, Inr r)))"

definition parse_decision :: "string option \<Rightarrow> decision option" where
  "parse_decision d = (if d = Some ''approved'' then Some approved else if d = Some ''rejected'' then Some rejected else None)"

definition review_route ::
  "aml_state \<Rightarrow> string \<Rightarrow> string option \<Rightarrow> string option \<Rightarrow> string option \<Rightarrow> aml_state \<times> (thrown + unit)" where
  "review_route st uuid adminId d nts =
     (case parse_decision d of
        None \<Rightarrow> (st, Inl (AppError ''AppError'' ''INVALID_DECISION'' ''decision must be \"approved\" or \"rejected\"'' 400 None))
      | Some dec \<Rightarrow>
          (case reviewFlag st uuid (or_default adminId ''admin'') dec nts of
             Inl m \<Rightarrow> (st, Inl (AppError ''AppError'' ''FLAG_REVIEW_FAILED'' m 404 None))
           | Inr st' \<Rightarrow> (st', Inr ())))"

fun aml_handle :: "aml_request \<Rightarrow> aml_state \<Rightarrow> aml_state" where
  "aml_handle (Screen now uuid addr txHash amount) st = fst (screen_route st now uuid addr txHash amount)"
| "aml_handle (Review uuid adminId d nts) st = fst (review_route st uuid adminId d nts)"

lemma screened_result_wf:
  assumes "screenTransaction st now a h amt = (st', r)"
  shows "ac_flagged r \<longleftrightarrow> ac_reasons r \<noteq> []" and "ac_riskLevel r = risk_of (ac_reasons r)"
    and "distinct (ac_reasons r)" and "blacklist_match \<notin> set (ac_reasons r)"
  using assms by (auto simp: screenTransaction_def Let_def)

lemma flag_screened_wf:
  assumes "\<forall>f \<in> set (flagStore st). flag_wf f" and s: "screenTransaction st now a h amt = (st1, r)"
  shows "\<forall>f \<in> set (flagStore (if ac_flagged r then fst (flagTransaction st1 now uuid a h r) else st1)). flag_wf f"
proof -
  have "flagStore st1 = flagStore st" using screenTransaction_flagStore [of st now a h amt] s by simp
  then show ?thesis using assms(1) screened_result_wf [OF s] by (auto simp: flagTransaction_def flag_wf_def Let_def)
qed

lemma reviewFlag_wf:
  assumes "\<forall>f \<in> set (flagStore st). flag_wf f" and "reviewFlag st uuid reviewer d nts = Inr st'"
  shows "\<forall>f \<in> set (flagStore st'). flag_wf f"
proof -
  let ?f = "\<lambda>f. f\<lparr>cf_reviewed := True, cf_reviewedBy := Some reviewer, cf_decision := Some d, cf_notes := nts\<rparr>"
  have "flag_wf f" if "f \<in> set (update_first (\<lambda>f. cf_id f = uuid) ?f (flagStore st))" for f
    using set_update_first [of "\<lambda>f. cf_id f = uuid" ?f "flagStore st"] that assms(1) by (fastforce simp: flag_wf_def)
  then show ?thesis using assms(2) by (auto simp: reviewFlag_def split: option.splits)
qed

lemma aml_handle_wf:
  assumes "\<forall>f \<in> set (flagStore st). flag_wf f"
  shows "\<forall>f \<in> set (flagStore (aml_handle req st)). flag_wf f"
proof (cases req)
  case (Screen now uuid addr txHash amount)
  then show ?thesis
    using assms flag_screened_wf [OF assms]
    by (simp add: screen_route_def Let_def split: option.split prod.split)
next
  case (Review uuid adminId d nts)
  then show ?thesis
    using assms reviewFlag_wf [OF assms] by (simp add: review_route_def split: option.split sum.split)
qed

text \<open>C36. Every flag the service stores is well formed, after any sequence of requests: the review fields are set
  together, and the level always agrees with the reasons. The reason \<open>blacklist_match\<close> of the type is never given.\<close>

theorem aml_flags_well_formed:
  "list_all flag_wf (flagStore (fold aml_handle reqs aml_start))"
proof -
  have "\<forall>f \<in> set (flagStore (fold aml_handle reqs st)). flag_wf f" if "\<forall>f \<in> set (flagStore st). flag_wf f" for st
    using that
  proof (induction reqs arbitrary: st)
    case (Cons req reqs)
    show ?case using Cons.IH [OF aml_handle_wf [OF Cons.prems]] by simp
  qed simp
  from this [of aml_start] show ?thesis by (simp add: list_all_iff aml_start_def)
qed

end
