(* ===== verification/Reputation.thy ===== *)
theory Reputation
  imports Js_Values
begin

text \<open>
  Reputation of members: \<open>backend/src/modules/reputation/reputation.repository.ts\<close> and its client
  \<open>backend/src/reputation_service.ts\<close>. The Prisma delegate the repository is given is a record of operations
  on a state of the table, each of which may fail with an error; the locale \<open>reputation_table\<close> states what
  the repository relies on, and \<open>table_delegate\<close> is a delegate over a plain map that keeps it.
\<close>

section \<open>The repository\<close>

record MemberReputationRow =
  rr_address :: address
  rr_score :: rat
  rr_totalContributions :: nat
  rr_onTimeContributions :: nat
  rr_updatedAt :: millis

record MemberReputationTotals =
  rt_totalContributions :: nat
  rt_onTimeContributions :: nat
  rt_score :: rat

record 's MemberReputationDelegate =
  findUnique :: "'s \<Rightarrow> address \<Rightarrow> string + MemberReputationRow option"
  upsert :: "'s \<Rightarrow> address \<Rightarrow> MemberReputationTotals \<Rightarrow> string + 's \<times> MemberReputationRow"
  deleteMany :: "'s \<Rightarrow> address \<Rightarrow> string + 's \<times> nat"
  findMany :: "'s \<Rightarrow> nat \<Rightarrow> string + MemberReputationRow list"

definition findByAddress :: "'s MemberReputationDelegate \<Rightarrow> 's \<Rightarrow> address \<Rightarrow> string + MemberReputationRow option" where
  "findByAddress db s address = findUnique db s address"

definition upsertTotals ::
  "'s MemberReputationDelegate \<Rightarrow> 's \<Rightarrow> address \<Rightarrow> MemberReputationTotals \<Rightarrow> string + 's \<times> MemberReputationRow" where
  "upsertTotals db s address totals = upsert db s address totals"

definition deleteByAddress :: "'s MemberReputationDelegate \<Rightarrow> 's \<Rightarrow> address \<Rightarrow> string + 's \<times> nat" where
  "deleteByAddress db s address = deleteMany db s address"

definition topByScore :: "'s MemberReputationDelegate \<Rightarrow> 's \<Rightarrow> nat option \<Rightarrow> string + MemberReputationRow list" where
  "topByScore db s limit = findMany db s (or_default limit 20)"

section \<open>The service\<close>

record ReputationRecord =
  rep_address :: address
  rep_score :: rat
  rep_totalContributions :: nat
  rep_onTimeContributions :: nat
  rep_updatedAt :: string

definition emptyRecord :: "address \<Rightarrow> millis \<Rightarrow> ReputationRecord" where
  "emptyRecord address now = \<lparr>rep_address = address, rep_score = 0, rep_totalContributions = 0,
     rep_onTimeContributions = 0, rep_updatedAt = toISOString now\<rparr>"

definition getMemberReputation ::
  "'s MemberReputationDelegate \<Rightarrow> 's \<Rightarrow> millis \<Rightarrow> address \<Rightarrow> ReputationRecord" where
  "getMemberReputation db s now address =
     (case findByAddress db s address of
        Inl _ \<Rightarrow> emptyRecord address now
      | Inr None \<Rightarrow> emptyRecord address now
      | Inr (Some r) \<Rightarrow>
          \<lparr>rep_address = rr_address r, rep_score = rr_score r, rep_totalContributions = rr_totalContributions r,
           rep_onTimeContributions = rr_onTimeContributions r, rep_updatedAt = toISOString (rr_updatedAt r)\<rparr>)"

definition next_totals :: "MemberReputationRow option \<Rightarrow> bool \<Rightarrow> MemberReputationTotals" where
  "next_totals existing onTime =
     (let tot = or_default (map_option rr_totalContributions existing) 0 + 1;
          ok = or_default (map_option rr_onTimeContributions existing) 0 + (if onTime then 1 else 0)
      in \<lparr>rt_totalContributions = tot, rt_onTimeContributions = ok,
          rt_score = (if tot > 0 then rat_of_nat ok / rat_of_nat tot else 0)\<rparr>)"

definition recordContribution ::
  "'s MemberReputationDelegate \<Rightarrow> 's \<Rightarrow> address \<Rightarrow> bool \<Rightarrow> string + 's" where
  "recordContribution db s address onTime =
     (case findByAddress db s address of
        Inl e \<Rightarrow> Inl e
      | Inr existing \<Rightarrow>
          (case upsertTotals db s address (next_totals existing onTime) of
             Inl e \<Rightarrow> Inl e
           | Inr (s', _) \<Rightarrow> Inr s'))"

definition calculateScore :: "nat \<Rightarrow> nat \<Rightarrow> rat" where
  "calculateScore tot ok = (if tot = 0 then 0 else clamp01 (rat_of_nat ok / rat_of_nat tot))"

section \<open>What the table promises\<close>

text \<open>\<open>view\<close> is the content of the table: a lookup that answers gives the row of the address, an upsert that
  answers stores the given columns under the address and nothing else, and a delete removes the row.\<close>

locale reputation_table =
  fixes db :: "'s MemberReputationDelegate"
    and view :: "'s \<Rightarrow> address \<Rightarrow> MemberReputationRow option"
  assumes find_view: "findUnique db s a = Inr r \<Longrightarrow> r = view s a"
    and upsert_view: "upsert db s a t = Inr (s', row) \<Longrightarrow> view s' = (view s)(a \<mapsto> row)"
    and upsert_row: "upsert db s a t = Inr (s', row) \<Longrightarrow>
      rr_address row = a \<and> rr_totalContributions row = rt_totalContributions t \<and>
      rr_onTimeContributions row = rt_onTimeContributions t \<and> rr_score row = rt_score t"
    and delete_view: "deleteMany db s a = Inr (s', n) \<Longrightarrow> view s' = (view s)(a := None)"
begin

lemma recordContribution_view:
  assumes "recordContribution db s a onTime = Inr s'"
  obtains r where "view s' = (view s)(a \<mapsto> r)" and "rr_address r = a"
    and "rr_totalContributions r = rt_totalContributions (next_totals (view s a) onTime)"
    and "rr_onTimeContributions r = rt_onTimeContributions (next_totals (view s a) onTime)"
    and "rr_score r = rt_score (next_totals (view s a) onTime)"
proof -
  obtain e where e: "findUnique db s a = Inr e"
    using assms by (auto simp: recordContribution_def findByAddress_def split: sum.splits)
  then obtain r where r: "upsert db s a (next_totals (view s a) onTime) = Inr (s', r)"
    using assms find_view [OF e]
    by (auto simp: recordContribution_def findByAddress_def upsertTotals_def split: sum.splits)
  show thesis using that upsert_view [OF r] upsert_row [OF r] by simp
qed

end

text \<open>A delegate over a map from addresses to rows; the database sets \<open>updatedAt\<close> from its clock, the first
  component of the state.\<close>

type_synonym reputation_map = "millis \<times> (address \<rightharpoonup> MemberReputationRow)"

definition table_row :: "millis \<Rightarrow> address \<Rightarrow> MemberReputationTotals \<Rightarrow> MemberReputationRow" where
  "table_row now a t = \<lparr>rr_address = a, rr_score = rt_score t, rr_totalContributions = rt_totalContributions t,
     rr_onTimeContributions = rt_onTimeContributions t, rr_updatedAt = now\<rparr>"

definition table_delegate :: "reputation_map MemberReputationDelegate" where
  "table_delegate =
     \<lparr>findUnique = (\<lambda>(now, m) a. Inr (m a)),
      upsert = (\<lambda>(now, m) a t. Inr ((now + 1, m(a \<mapsto> table_row now a t)), table_row now a t)),
      deleteMany = (\<lambda>(now, m) a. Inr ((now, m(a := None)), if m a = None then 0 else 1)),
      findMany = (\<lambda>_ _. Inl ''not supported'')\<rparr>"

interpretation table: reputation_table table_delegate snd
  by unfold_locales (auto simp: table_delegate_def table_row_def split: prod.splits)

section \<open>Incremental scoring\<close>

text \<open>A history of contribution events, the address and whether the contribution was on time; a failing
  store ends the run.\<close>

fun record_contributions :: "'s MemberReputationDelegate \<Rightarrow> 's \<Rightarrow> (address \<times> bool) list \<Rightarrow> string + 's" where
  "record_contributions db s [] = Inr s"
| "record_contributions db s ((a, onTime) # evs) =
     (case recordContribution db s a onTime of Inl e \<Rightarrow> Inl e | Inr s' \<Rightarrow> record_contributions db s' evs)"

lemma record_contributions_append:
  "record_contributions db s (evs @ evs') = (case record_contributions db s evs of Inl e \<Rightarrow> Inl e | Inr s' \<Rightarrow> record_contributions db s' evs')"
  by (induction evs arbitrary: s) (auto split: sum.split)

definition events_of :: "address \<Rightarrow> (address \<times> bool) list \<Rightarrow> bool list" where
  "events_of a evs = map snd (filter (\<lambda>ev. fst ev = a) evs)"

definition on_time :: "bool list \<Rightarrow> nat" where
  "on_time bs = length (filter (\<lambda>b. b) bs)"

lemma on_time_le: "on_time bs \<le> length bs"
  by (simp add: on_time_def)

lemma calculateScore_ratio: "ok \<le> tot \<Longrightarrow> 0 < tot \<Longrightarrow> calculateScore tot ok = rat_of_nat ok / rat_of_nat tot"
  by (simp add: calculateScore_def clamp01_def)

text \<open>After a history, the row of an address holds the totals of its events and the score computed from them.\<close>

definition row_matches :: "MemberReputationRow option \<Rightarrow> bool list \<Rightarrow> bool" where
  "row_matches r bs \<longleftrightarrow>
     (case r of None \<Rightarrow> bs = []
      | Some row \<Rightarrow> bs \<noteq> [] \<and> rr_totalContributions row = length bs \<and> rr_onTimeContributions row = on_time bs \<and>
                    rr_score row = calculateScore (length bs) (on_time bs))"

context reputation_table begin

lemma row_matches_step:
  assumes "row_matches (view s a) bs" and "recordContribution db s a b = Inr s'"
  shows "row_matches (view s' a) (bs @ [b])"
proof -
  have len: "or_default (map_option rr_totalContributions (view s a)) 0 = length bs"
    and ok: "or_default (map_option rr_onTimeContributions (view s a)) 0 = on_time bs"
    using assms(1) by (auto simp: row_matches_def on_time_def split: option.splits)
  have snoc: "on_time (bs @ [b]) = on_time bs + (if b then 1 else 0)" by (simp add: on_time_def)
  obtain r where r: "view s' = (view s)(a \<mapsto> r)"
    and tot: "rr_totalContributions r = length (bs @ [b])" and rok: "rr_onTimeContributions r = on_time (bs @ [b])"
    and sc: "rr_score r = rat_of_nat (on_time (bs @ [b])) / rat_of_nat (length (bs @ [b]))"
    by (rule recordContribution_view [OF assms(2)]) (simp add: next_totals_def Let_def len ok snoc)
  have "rr_score r = calculateScore (length (bs @ [b])) (on_time (bs @ [b]))"
    unfolding sc by (rule calculateScore_ratio [symmetric]) (simp_all only: on_time_le, simp)
  with r tot rok show ?thesis by (simp add: row_matches_def)
qed

lemma record_contributions_matches:
  assumes "view s0 = (\<lambda>_. None)" and "record_contributions db s0 evs = Inr s"
  shows "row_matches (view s a) (events_of a evs)"
  using assms(2)
proof (induction evs arbitrary: s rule: rev_induct)
  case Nil
  then show ?case using assms(1) by (simp add: events_of_def row_matches_def)
next
  case (snoc ev evs)
  obtain b onTime where ev: "ev = (b, onTime)" by (cases ev)
  obtain s1 where s1: "record_contributions db s0 evs = Inr s1" "recordContribution db s1 b onTime = Inr s"
    using snoc.prems by (auto simp: record_contributions_append ev split: sum.splits)
  note IH = snoc.IH [OF s1(1)]
  show ?case
  proof (cases "b = a")
    case True
    then show ?thesis using row_matches_step [OF IH] s1(2) by (simp add: ev events_of_def)
  next
    case False
    obtain r where "view s = (view s1)(b \<mapsto> r)" using recordContribution_view [OF s1(2)] by metis
    with False IH show ?thesis by (simp add: ev events_of_def)
  qed
qed

end

section \<open>Properties\<close>

text \<open>C8. The score kept incrementally is the score computed from scratch. Over any table that keeps its
  laws, after any history of contribution events from the empty table, the reputation of a member whose row
  is returned is \<open>calculateScore\<close> of the number of all its events and of those on time, and lies between 0 and 1.\<close>

theorem reputation_incremental_eq_batch:
  assumes "reputation_table db view" and "view s0 = (\<lambda>_. None)"
    and "record_contributions db s0 evs = Inr s" and "findByAddress db s a = Inr r"
  defines "bs \<equiv> events_of a evs"
  shows "rep_score (getMemberReputation db s now a) = calculateScore (length bs) (on_time bs) \<and>
         rep_totalContributions (getMemberReputation db s now a) = length bs \<and>
         rep_onTimeContributions (getMemberReputation db s now a) = on_time bs \<and>
         0 \<le> rep_score (getMemberReputation db s now a) \<and> rep_score (getMemberReputation db s now a) \<le> 1"
proof -
  have m: "row_matches (view s a) bs"
    using reputation_table.record_contributions_matches [OF assms(1-3)] by (simp add: bs_def)
  have r: "r = view s a"
    using reputation_table.find_view [OF assms(1)] assms(4) by (simp add: findByAddress_def)
  show ?thesis
    using m assms(4) unfolding r row_matches_def
    by (cases "view s a") (auto simp: getMemberReputation_def emptyRecord_def calculateScore_def on_time_def clamp01_bounds)
qed

theorem reputation_incremental_eq_batch_witness:
  "\<exists>s. record_contributions table_delegate (0, \<lambda>_. None) [(''GA'', True), (''GB'', False), (''GA'', True), (''GA'', False)] = Inr s \<and>
     rep_score (getMemberReputation table_delegate s 9 ''GA'') = 2 / 3"
proof -
  let ?evs = "[(''GA'', True), (''GB'', False), (''GA'', True), (''GA'', False)]"
  obtain s where s: "record_contributions table_delegate (0, \<lambda>_. None) ?evs = Inr s"
    by (simp add: recordContribution_def findByAddress_def upsertTotals_def table_delegate_def split: prod.splits)
  have "findByAddress table_delegate s ''GA'' = Inr (snd s ''GA'')"
    by (cases s) (simp add: findByAddress_def table_delegate_def)
  then have "rep_score (getMemberReputation table_delegate s 9 ''GA'') = calculateScore 3 2"
    using reputation_incremental_eq_batch [OF table.reputation_table_axioms _ s, of "''GA''" "snd s ''GA''" 9]
    by (simp add: events_of_def on_time_def numeral_3_eq_3 numeral_2_eq_2)
  with s show ?thesis by (auto simp: calculateScore_def clamp01_def)
qed

text \<open>Erasure: once the row of an address has been deleted, its reputation is the neutral record, and so
  it is whenever the store does not answer.\<close>

theorem erased_member_is_neutral:
  assumes "reputation_table db view" and "deleteByAddress db s a = Inr (s', n)"
  shows "getMemberReputation db s' now a = emptyRecord a now"
proof -
  have none: "view s' a = None"
    using reputation_table.delete_view [OF assms(1)] assms(2) by (simp add: deleteByAddress_def)
  show ?thesis
  proof (cases "findUnique db s' a")
    case (Inl e)
    then show ?thesis by (simp add: getMemberReputation_def findByAddress_def)
  next
    case (Inr r)
    then have "r = None" using reputation_table.find_view [OF assms(1) Inr] none by simp
    with Inr show ?thesis by (simp add: getMemberReputation_def findByAddress_def)
  qed
qed

end
