(* ===== verification/Recommendation.thy ===== *)
theory Recommendation
  imports Prelude "HOL-Library.AList"
begin

text \<open>
  Group recommendations, \<open>backend/src/recommendation.ts\<close>: the content-based score and user-based collaborative
  filtering. A JavaScript \<open>Set\<close> is the list of its elements and a \<open>Map\<close> the association list of its entries,
  both in the order of first insertion; sorting is stable; scores are exact rationals.
\<close>

section \<open>Data and state\<close>

record UserPreference =
  up_userId :: string
  up_minContribution :: "rat option"
  up_maxContribution :: "rat option"
  up_preferredDuration :: "rat option"
  up_tags :: "string list"

record Group =
  g_id :: string
  g_name :: string
  g_contributionAmount :: rat
  g_cycleDuration :: rat
  g_maxMembers :: nat
  g_currentMembers :: nat
  g_status :: string
  g_tags :: "string list"
  g_flagged :: "bool option"

datatype interactionType = view | join_group | contribute

record UserInteraction =
  ui_userId :: string
  ui_groupId :: string
  ui_interactionType :: interactionType
  ui_timestamp :: millis

record Recommendation =
  r_groupId :: string
  r_score :: rat
  r_algorithm :: string

record RecommendationEngine =
  groups :: "Group list"
  interactions :: "UserInteraction list"
  preferences :: "string \<rightharpoonup> UserPreference"

definition new_engine :: "Group list \<Rightarrow> UserInteraction list \<Rightarrow> RecommendationEngine" where
  "new_engine gs is = \<lparr>groups = gs, interactions = is, preferences = (\<lambda>_. None)\<rparr>"

definition setPreference :: "RecommendationEngine \<Rightarrow> UserPreference \<Rightarrow> RecommendationEngine" where
  "setPreference e p = e\<lparr>preferences := (preferences e)(up_userId p \<mapsto> p)\<rparr>"

section \<open>Sets, maps and sorting\<close>

text \<open>\<open>x && test(x)\<close> for an optional number: zero is falsy.\<close>

definition if_number :: "rat option \<Rightarrow> (rat \<Rightarrow> bool) \<Rightarrow> bool" where
  "if_number v p = (case v of None \<Rightarrow> False | Some x \<Rightarrow> x \<noteq> 0 \<and> p x)"

definition by_score_desc :: "Recommendation list \<Rightarrow> Recommendation list" where
  "by_score_desc rs = sort_key (\<lambda>r. - r_score r) rs"

section \<open>Content-based recommendations\<close>

definition content_score :: "UserPreference \<Rightarrow> Group \<Rightarrow> rat" where
  "content_score pref grp =
     (if if_number (up_minContribution pref) (\<lambda>m. g_contributionAmount grp \<ge> m) then 1 else 0) +
     (if if_number (up_maxContribution pref) (\<lambda>m. g_contributionAmount grp \<le> m) then 1 else 0) +
     (if if_number (up_preferredDuration pref) (\<lambda>d. \<bar>g_cycleDuration grp - d\<bar> < 86400 * 7) then 2 else 0) +
     rat_of_nat (length (filter (\<lambda>tag. tag \<in> set (up_tags pref)) (g_tags grp))) * (1 / 2)"

definition getContentBasedRecommendations :: "RecommendationEngine \<Rightarrow> string \<Rightarrow> Recommendation list" where
  "getContentBasedRecommendations e userId =
     (case preferences e userId of
        None \<Rightarrow> []
      | Some pref \<Rightarrow>
          by_score_desc (filter (\<lambda>r. r_score r > 0)
            (map (\<lambda>g. \<lparr>r_groupId = g_id g, r_score = content_score pref g, r_algorithm = ''content''\<rparr>) (groups e))))"

section \<open>Collaborative recommendations\<close>

definition joined_groups :: "RecommendationEngine \<Rightarrow> string \<Rightarrow> string list" where
  "joined_groups e userId =
     js_set (map ui_groupId (filter (\<lambda>i. ui_userId i = userId \<and> ui_interactionType i = join_group) (interactions e)))"

definition other_users :: "RecommendationEngine \<Rightarrow> string \<Rightarrow> string list" where
  "other_users e userId = filter (\<lambda>u. u \<noteq> userId) (js_set (map ui_userId (interactions e)))"

definition similarity :: "string list \<Rightarrow> string list \<Rightarrow> rat" where
  "similarity userGroups otherGroups =
     (let inter = js_set (filter (\<lambda>g. g \<in> set otherGroups) userGroups);
          union = js_set (userGroups @ otherGroups)
      in if length union = 0 then 0 else rat_of_nat (length inter) / rat_of_nat (length union))"

definition add_score :: "string list \<Rightarrow> rat \<Rightarrow> string \<Rightarrow> (string \<times> rat) list \<Rightarrow> (string \<times> rat) list" where
  "add_score userGroups sim groupId recs =
     (if groupId \<notin> set userGroups
      then AList.update groupId (or_default (map_of recs groupId) 0 + sim) recs
      else recs)"

definition add_user :: "RecommendationEngine \<Rightarrow> string list \<Rightarrow> string \<Rightarrow> (string \<times> rat) list \<Rightarrow> (string \<times> rat) list" where
  "add_user e userGroups otherId recs =
     (let otherGroups = joined_groups e otherId; sim = similarity userGroups otherGroups
      in if sim > 0 then fold (add_score userGroups sim) otherGroups recs else recs)"

definition getCollaborativeRecommendations :: "RecommendationEngine \<Rightarrow> string \<Rightarrow> Recommendation list" where
  "getCollaborativeRecommendations e userId =
     (let userGroups = joined_groups e userId;
          recommendations = fold (add_user e userGroups) (other_users e userId) []
      in by_score_desc
           (map (\<lambda>(g, s). \<lparr>r_groupId = g, r_score = s, r_algorithm = ''collaborative''\<rparr>) recommendations))"

datatype algorithm = content | collaborative

definition getRecommendations :: "RecommendationEngine \<Rightarrow> string \<Rightarrow> algorithm \<Rightarrow> Recommendation list" where
  "getRecommendations e userId alg =
     (case alg of content \<Rightarrow> getContentBasedRecommendations e userId
      | collaborative \<Rightarrow> getCollaborativeRecommendations e userId)"

section \<open>Lemmas on sets, maps and sorting\<close>

lemma by_score_desc_simps [simp]:
  "set (by_score_desc rs) = set rs" "distinct (map f (by_score_desc rs)) = distinct (map f rs)"
proof -
  have m: "mset (by_score_desc rs) = mset rs" by (simp add: by_score_desc_def)
  then show "set (by_score_desc rs) = set rs" by (metis set_mset_mset)
  show "distinct (map f (by_score_desc rs)) = distinct (map f rs)"
    using m by (metis mset_eq_imp_distinct_iff mset_map)
qed

lemma by_score_desc_sorted: "sorted (map (\<lambda>r. - r_score r) (by_score_desc rs))"
  by (simp add: by_score_desc_def)

section \<open>The reference score\<close>

text \<open>The groups a user has joined as a set, the Jaccard index of two users, and the collaborative score of a
  group: the sum of the indices with the other users that joined it.\<close>

definition joined :: "RecommendationEngine \<Rightarrow> string \<Rightarrow> string set" where
  "joined e u = {ui_groupId i | i. i \<in> set (interactions e) \<and> ui_userId i = u \<and> ui_interactionType i = join_group}"

definition jaccard :: "'a set \<Rightarrow> 'a set \<Rightarrow> rat" where
  "jaccard A B = rat_of_nat (card (A \<inter> B)) / rat_of_nat (card (A \<union> B))"

definition reference_score :: "RecommendationEngine \<Rightarrow> string \<Rightarrow> string \<Rightarrow> rat" where
  "reference_score e u g =
     (\<Sum>v \<in> {v \<in> ui_userId ` set (interactions e). v \<noteq> u \<and> g \<in> joined e v}. jaccard (joined e u) (joined e v))"

lemma set_joined_groups: "set (joined_groups e u) = joined e u"
  by (auto simp: joined_groups_def joined_def)

lemma distinct_joined_groups: "distinct (joined_groups e u)"
  by (simp add: joined_groups_def)

lemma similarity_jaccard: "similarity xs ys = jaccard (set xs) (set ys)"
proof -
  have "set (filter (\<lambda>g. g \<in> set ys) xs) = set xs \<inter> set ys" by auto
  then show ?thesis by (simp add: similarity_def jaccard_def length_js_set Let_def)
qed

lemma jaccard_nonneg: "0 \<le> jaccard A B"
  by (simp add: jaccard_def)

section \<open>What the accumulation computes\<close>

text \<open>The map of scores as a function, with 0 for a group that is not in it.\<close>

definition score_at :: "(string \<times> rat) list \<Rightarrow> string \<Rightarrow> rat" where
  "score_at recs g = or_default (map_of recs g) 0"

definition scores_ok :: "string set \<Rightarrow> (string \<times> rat) list \<Rightarrow> bool" where
  "scores_ok U recs \<longleftrightarrow> distinct (map fst recs) \<and> (\<forall>g s. map_of recs g = Some s \<longrightarrow> g \<notin> U \<and> 0 < s)"

lemma score_at_nonneg: "scores_ok U recs \<Longrightarrow> 0 \<le> score_at recs g"
  by (cases "map_of recs g") (auto simp: score_at_def scores_ok_def less_imp_le simp del: map_of_eq_Some_iff)

lemma add_score_ok:
  assumes "scores_ok (set U) recs" and "0 < sim"
  shows "scores_ok (set U) (add_score U sim g recs)"
    and "score_at (add_score U sim g recs) h = score_at recs h + (if h = g \<and> g \<notin> set U then sim else 0)"
  using assms score_at_nonneg [OF assms(1), of g]
  by (auto simp: scores_ok_def add_score_def score_at_def distinct_update update_conv' add_nonneg_pos
      simp del: map_of_eq_Some_iff split: if_splits)

lemma add_scores_ok:
  assumes "scores_ok (set U) recs" and "0 < sim" and "distinct gs"
  shows "scores_ok (set U) (fold (add_score U sim) gs recs) \<and>
         score_at (fold (add_score U sim) gs recs) h = score_at recs h + (if h \<in> set gs - set U then sim else 0)"
  using assms(1,3)
proof (induction gs arbitrary: recs)
  case (Cons g gs)
  then show ?case using add_score_ok [OF Cons.prems(1) assms(2)] by auto
qed simp

lemma add_user_ok:
  assumes "scores_ok (set U) recs"
  shows "scores_ok (set U) (add_user e U v recs)"
    and "score_at (add_user e U v recs) h =
         score_at recs h + (if h \<in> joined e v - set U then jaccard (set U) (joined e v) else 0)"
proof -
  have "jaccard (set U) (joined e v) = 0" if "\<not> 0 < jaccard (set U) (joined e v)"
    using that jaccard_nonneg [of "set U" "joined e v"] by simp
  then show "scores_ok (set U) (add_user e U v recs)"
    and "score_at (add_user e U v recs) h =
         score_at recs h + (if h \<in> joined e v - set U then jaccard (set U) (joined e v) else 0)"
    using add_scores_ok [OF assms _ distinct_joined_groups, of "similarity U (joined_groups e v)" e v] assms
    by (auto simp: add_user_def similarity_jaccard set_joined_groups Let_def)
qed

lemma add_users_ok:
  assumes "scores_ok (set U) recs"
  shows "scores_ok (set U) (fold (add_user e U) vs recs) \<and>
         score_at (fold (add_user e U) vs recs) h =
         score_at recs h + (\<Sum>v \<leftarrow> vs. if h \<in> joined e v - set U then jaccard (set U) (joined e v) else 0)"
  using assms
  by (induction vs arbitrary: recs) (auto simp: add_user_ok)

lemma final_scores:
  defines "recs \<equiv> \<lambda>e u. fold (add_user e (joined_groups e u)) (other_users e u) []"
  shows "scores_ok (joined e u) (recs e u)"
    and "score_at (recs e u) g = (if g \<in> joined e u then 0 else reference_score e u g)"
proof -
  have init: "scores_ok (set (joined_groups e u)) []" by (simp add: scores_ok_def)
  note * = add_users_ok [OF init, of e "other_users e u", unfolded set_joined_groups]
  show "scores_ok (joined e u) (recs e u)" using * by (simp add: recs_def)
  have "distinct (other_users e u)" by (simp add: other_users_def)
  moreover have "set (other_users e u) = {v \<in> ui_userId ` set (interactions e). v \<noteq> u}"
    by (auto simp: other_users_def)
  ultimately have "(\<Sum>v \<leftarrow> other_users e u. if g \<in> joined e v - joined e u then jaccard (joined e u) (joined e v) else 0)
      = (\<Sum>v \<in> {v \<in> ui_userId ` set (interactions e). v \<noteq> u}.
           if g \<in> joined e v - joined e u then jaccard (joined e u) (joined e v) else 0)"
    by (simp add: sum_list_distinct_conv_sum_set)
  also have "\<dots> = (if g \<in> joined e u then 0 else reference_score e u g)"
    by (auto simp: reference_score_def sum.inter_filter [symmetric] Collect_conj_eq intro!: sum.cong)
  finally show "score_at (recs e u) g = (if g \<in> joined e u then 0 else reference_score e u g)"
    using * by (simp add: recs_def score_at_def)
qed

section \<open>Properties\<close>

text \<open>C9. Collaborative filtering agrees with its mathematical definition. The recommended groups are exactly the
  ones the user has not joined and whose sum of Jaccard indices with the other members is positive, each appears
  once with that sum as its score, and the list is in descending order of score.\<close>

theorem collaborative_recommendations_correct:
  "r \<in> set (getRecommendations e u collaborative) \<longleftrightarrow>
     r_groupId r \<notin> joined e u \<and> 0 < r_score r \<and> r_score r = reference_score e u (r_groupId r) \<and>
     r_algorithm r = ''collaborative''"
proof -
  let ?recs = "fold (add_user e (joined_groups e u)) (other_users e u) []"
  have ok: "scores_ok (joined e u) ?recs" by (rule final_scores)
  have "(g, s) \<in> set ?recs \<longleftrightarrow> g \<notin> joined e u \<and> 0 < s \<and> s = reference_score e u g" for g s
  proof -
    have "(g, s) \<in> set ?recs \<longleftrightarrow> map_of ?recs g = Some s" using ok by (simp add: scores_ok_def)
    also have "\<dots> \<longleftrightarrow> g \<notin> joined e u \<and> 0 < s \<and> s = reference_score e u g"
      using ok final_scores(2) [of e u g]
      by (cases "map_of ?recs g") (auto simp: scores_ok_def score_at_def simp del: map_of_eq_Some_iff split: if_splits)
    finally show ?thesis .
  qed
  then show ?thesis
    by (cases r) (force simp: getRecommendations_def getCollaborativeRecommendations_def Let_def image_iff)
qed

theorem recommendations_ranked:
  "sorted (map (\<lambda>r. - r_score r) (getRecommendations e u alg)) \<and>
   distinct (map r_groupId (getRecommendations e u collaborative))"
proof
  show "sorted (map (\<lambda>r. - r_score r) (getRecommendations e u alg))"
    by (simp add: getRecommendations_def getCollaborativeRecommendations_def getContentBasedRecommendations_def
        by_score_desc_sorted Let_def split: algorithm.split option.split)
  show "distinct (map r_groupId (getRecommendations e u collaborative))"
    using final_scores(1) [of e u]
    by (simp add: getRecommendations_def getCollaborativeRecommendations_def Let_def scores_ok_def case_prod_beta o_def)
qed

text \<open>Content-based recommendations. They are the groups with a positive score, a preference that was not set
  recommends nothing, and no score exceeds 4 plus half the number of the group's tags.\<close>

theorem content_recommendations_correct:
  "set (getRecommendations (setPreference e p) (up_userId p) content) =
     {\<lparr>r_groupId = g_id g, r_score = content_score p g, r_algorithm = ''content''\<rparr> | g. g \<in> set (groups e) \<and> 0 < content_score p g}"
  by (auto simp: getRecommendations_def getContentBasedRecommendations_def setPreference_def)

lemma content_score_bounds:
  "0 \<le> content_score p g" "content_score p g \<le> 4 + rat_of_nat (length (g_tags g)) / 2"
proof -
  have "rat_of_nat (length (filter q (g_tags g))) \<le> rat_of_nat (length (g_tags g))" for q by simp
  then show "0 \<le> content_score p g" "content_score p g \<le> 4 + rat_of_nat (length (g_tags g)) / 2"
    by (simp_all add: content_score_def add_mono divide_right_mono)
qed

end
