(* ===== verification/Group_Cache.thy ===== *)
theory Group_Cache
  imports Errors "HOL-Library.Sublist"
begin

text \<open>
  The group state cache, \<open>backend/src/lib/cache.ts\<close>, over the Redis helpers of \<open>backend/src/redis.ts\<close>. The
  Redis client is an argument: a record of the four commands used, each of which may fail, on a state of the
  server and a clock. The locale \<open>expiring_store\<close> states what Redis documents of them; \<open>mem_store\<close> is a
  server over a plain map that keeps it. A cached value is the JSON value itself, as \<open>JSON.parse\<close> undoes
  \<open>JSON.stringify\<close> on such values. The last section is the single-flight map of \<open>getOrLoad\<close> under
  interleaving: every await of the source ends one step.
\<close>

section \<open>The Redis helpers\<close>

record 'db kv_ops =
  kv_get :: "'db \<Rightarrow> millis \<Rightarrow> string \<Rightarrow> thrown + json option"
  kv_setex :: "'db \<Rightarrow> millis \<Rightarrow> string \<Rightarrow> json \<Rightarrow> int \<Rightarrow> thrown + 'db"
  kv_del :: "'db \<Rightarrow> string list \<Rightarrow> thrown + 'db"
  kv_keys :: "'db \<Rightarrow> millis \<Rightarrow> string \<Rightarrow> thrown + string list"

record 'db cache_state =
  cs_db :: 'db
  cs_hits :: nat
  cs_misses :: nat
  cacheHitsTotal :: nat
  cacheMissesTotal :: nat
  cacheInvalidationsTotal :: "string list"

definition recordHit :: "'db cache_state \<Rightarrow> 'db cache_state" where
  "recordHit st = st\<lparr>cs_hits := cs_hits st + 1\<rparr>"

definition recordMiss :: "'db cache_state \<Rightarrow> 'db cache_state" where
  "recordMiss st = st\<lparr>cs_misses := cs_misses st + 1\<rparr>"

definition hitRate :: "'db cache_state \<Rightarrow> rat" where
  "hitRate st = (if cs_hits st + cs_misses st > 0
     then rat_of_nat (cs_hits st) / rat_of_nat (cs_hits st + cs_misses st) * 100 else 0)"

text \<open>A stored \<open>null\<close> parses to \<open>null\<close>: a hit for these counters, no value for the caller.\<close>

definition redis_get :: "'db kv_ops \<Rightarrow> millis \<Rightarrow> string \<Rightarrow> 'db cache_state \<Rightarrow> 'db cache_state \<times> (thrown + json option)" where
  "redis_get ops now key st =
     (case kv_get ops (cs_db st) now key of
        Inl e \<Rightarrow> (st, Inl e)
      | Inr None \<Rightarrow> (recordMiss st, Inr None)
      | Inr (Some v) \<Rightarrow> (recordHit st, Inr (if v = JNull then None else Some v)))"

definition redis_set ::
  "'db kv_ops \<Rightarrow> millis \<Rightarrow> string \<Rightarrow> json \<Rightarrow> int \<Rightarrow> 'db cache_state \<Rightarrow> 'db cache_state \<times> (thrown + unit)" where
  "redis_set ops now key v ttlSeconds st =
     (case kv_setex ops (cs_db st) now key v ttlSeconds of
        Inl e \<Rightarrow> (st, Inl e) | Inr db \<Rightarrow> (st\<lparr>cs_db := db\<rparr>, Inr ()))"

definition redis_del :: "'db kv_ops \<Rightarrow> string list \<Rightarrow> 'db cache_state \<Rightarrow> 'db cache_state \<times> (thrown + unit)" where
  "redis_del ops ks st =
     (case kv_del ops (cs_db st) ks of Inl e \<Rightarrow> (st, Inl e) | Inr db \<Rightarrow> (st\<lparr>cs_db := db\<rparr>, Inr ()))"

definition delPattern :: "'db kv_ops \<Rightarrow> millis \<Rightarrow> string \<Rightarrow> 'db cache_state \<Rightarrow> 'db cache_state \<times> (thrown + unit)" where
  "delPattern ops now pattern st =
     (case kv_keys ops (cs_db st) now pattern of
        Inl e \<Rightarrow> (st, Inl e)
      | Inr ks \<Rightarrow> if ks \<noteq> [] then redis_del ops ks st else (st, Inr ()))"

section \<open>The cache\<close>

definition TTL_SECONDS :: int where "TTL_SECONDS = 10"

definition KEY_PREFIX :: string where "KEY_PREFIX = ''group_state''"

definition cacheKey :: "string \<Rightarrow> string \<Rightarrow> string" where
  "cacheKey contractId groupId = KEY_PREFIX @ '':'' @ contractId @ '':'' @ groupId"

definition cache_get ::
  "'db kv_ops \<Rightarrow> millis \<Rightarrow> string \<Rightarrow> string \<Rightarrow> 'db cache_state \<Rightarrow> 'db cache_state \<times> (thrown + json option)" where
  "cache_get ops now contractId groupId st =
     (case redis_get ops now (cacheKey contractId groupId) st of
        (st, Inl e) \<Rightarrow> (st, Inl e)
      | (st, Inr (Some v)) \<Rightarrow> (st\<lparr>cacheHitsTotal := cacheHitsTotal st + 1\<rparr>, Inr (Some v))
      | (st, Inr None) \<Rightarrow> (st\<lparr>cacheMissesTotal := cacheMissesTotal st + 1\<rparr>, Inr None))"

definition cache_set ::
  "'db kv_ops \<Rightarrow> millis \<Rightarrow> string \<Rightarrow> string \<Rightarrow> json \<Rightarrow> 'db cache_state \<Rightarrow> 'db cache_state \<times> (thrown + unit)" where
  "cache_set ops now contractId groupId state st = redis_set ops now (cacheKey contractId groupId) state TTL_SECONDS st"

definition count_invalidation :: "string option \<Rightarrow> 'db cache_state \<times> (thrown + unit) \<Rightarrow> 'db cache_state \<times> (thrown + unit)" where
  "count_invalidation eventType r =
     (case r of
        (st, Inl e) \<Rightarrow> (st, Inl e)
      | (st, Inr _) \<Rightarrow> (st\<lparr>cacheInvalidationsTotal :=
          cacheInvalidationsTotal st @ [or_default eventType ''unknown'']\<rparr>, Inr ()))"

definition cache_invalidate ::
  "'db kv_ops \<Rightarrow> string \<Rightarrow> string \<Rightarrow> string option \<Rightarrow> 'db cache_state \<Rightarrow> 'db cache_state \<times> (thrown + unit)" where
  "cache_invalidate ops contractId groupId eventType st =
     count_invalidation eventType (redis_del ops [cacheKey contractId groupId] st)"

definition invalidateContract ::
  "'db kv_ops \<Rightarrow> millis \<Rightarrow> string \<Rightarrow> string option \<Rightarrow> 'db cache_state \<Rightarrow> 'db cache_state \<times> (thrown + unit)" where
  "invalidateContract ops now contractId eventType st =
     count_invalidation eventType (delPattern ops now (KEY_PREFIX @ '':'' @ contractId @ '':*'') st)"

definition STATE_MUTATING_EVENTS :: "string set" where
  "STATE_MUTATING_EVENTS =
     {''contribution'', ''contribution_made'', ''contribute'', ''payout'', ''payout_received'', ''payoutreceived'',
      ''payout_processed'', ''member_joined'', ''memberjoined'', ''group_created'', ''groupcreated'',
      ''group_paused'', ''group_unpaused'', ''group_completed'', ''groupcompleted'', ''missed_contribution'',
      ''missedcontribution''}"

text \<open>\<open>toLowerCase\<close> on the letters of ASCII, then every hyphen becomes an underscore.\<close>

definition to_lower :: "char \<Rightarrow> char" where
  "to_lower c = (let n = (of_char c :: nat) in if 65 \<le> n \<and> n \<le> 90 then char_of (n + 32) else c)"

definition isStateMutatingEvent :: "string \<Rightarrow> bool" where
  "isStateMutatingEvent eventType =
     (map (\<lambda>c. if c = CHR ''-'' then CHR ''_'' else c) (map to_lower eventType) \<in> STATE_MUTATING_EVENTS)"

section \<open>What Redis documents\<close>

definition glob_free :: "string \<Rightarrow> bool" where
  "glob_free s \<longleftrightarrow> set s \<inter> {CHR ''*'', CHR ''?'', CHR ''['', CHR '']'', CHR 0x5C, CHR ''^''} = {}"

locale expiring_store =
  fixes ops :: "'db kv_ops" and view :: "'db \<Rightarrow> string \<Rightarrow> (json \<times> millis) option"
  assumes get_view: "kv_get ops db now k = Inr r \<Longrightarrow>
      r = (case view db k of None \<Rightarrow> None | Some (v, t) \<Rightarrow> if now < t then Some v else None)"
    and set_view: "kv_setex ops db now k v ttl = Inr db' \<Longrightarrow> view db' = (view db)(k \<mapsto> (v, now + 1000 * ttl))"
    and del_view: "kv_del ops db ks = Inr db' \<Longrightarrow> view db' = (view db) |` (- set ks)"
    and keys_view: "glob_free p \<Longrightarrow> kv_keys ops db now (p @ ''*'') = Inr ks \<Longrightarrow>
      set ks = {k. prefix p k \<and> (\<exists>v t. view db k = Some (v, t) \<and> now < t)}"
begin

text \<open>The value a read of the key returns at a time.\<close>

definition live :: "'db \<Rightarrow> millis \<Rightarrow> string \<Rightarrow> json option" where
  "live db now k = (case view db k of None \<Rightarrow> None
     | Some (v, t) \<Rightarrow> if now < t \<and> v \<noteq> JNull then Some v else None)"

lemma cache_get_live:
  "snd (cache_get ops now c g st) = Inr r \<Longrightarrow> r = live (cs_db st) now (cacheKey c g)"
  by (auto simp: cache_get_def redis_get_def live_def recordHit_def recordMiss_def
      dest!: get_view split: sum.splits option.splits if_splits prod.splits)

lemma cache_set_live:
  assumes "cache_set ops now c g v st = (st', Inr ())"
  shows "live (cs_db st') t k =
    (if k = cacheKey c g then if t < now + 10000 \<and> v \<noteq> JNull then Some v else None else live (cs_db st) t k)"
  using assms set_view
  by (auto simp: cache_set_def redis_set_def live_def TTL_SECONDS_def split: sum.splits)

lemma cache_invalidate_live:
  assumes "cache_invalidate ops c g ev st = (st', Inr ())"
  shows "live (cs_db st') t k = (if k = cacheKey c g then None else live (cs_db st) t k)"
  using assms del_view
  by (auto simp: cache_invalidate_def count_invalidation_def redis_del_def live_def restrict_map_def split: sum.splits)

end

definition contract_prefix :: "string \<Rightarrow> string" where
  "contract_prefix c = KEY_PREFIX @ '':'' @ c @ '':''"

lemma cacheKey_prefix: "cacheKey c g = contract_prefix c @ g"
  by (simp add: cacheKey_def contract_prefix_def)

lemma glob_free_contract_prefix: "glob_free c \<Longrightarrow> glob_free (contract_prefix c)"
  by (auto simp: glob_free_def contract_prefix_def KEY_PREFIX_def)

lemma contract_prefix_inj:
  assumes "CHR '':'' \<notin> set c" "CHR '':'' \<notin> set c'"
  shows "prefix (contract_prefix c) (cacheKey c' g) \<longleftrightarrow> c' = c"
proof
  assume "prefix (contract_prefix c) (cacheKey c' g)"
  then obtain r where "c @ CHR '':'' # r = c' @ CHR '':'' # g"
    by (auto simp: prefix_def contract_prefix_def cacheKey_def)
  then have "split_on CHR '':'' (c @ CHR '':'' # r) = split_on CHR '':'' (c' @ CHR '':'' # g)" by simp
  then show "c' = c" using assms by (simp add: split_on_word_append)
qed (simp add: cacheKey_prefix)

lemma cacheKey_inject:
  assumes "CHR '':'' \<notin> set c" "CHR '':'' \<notin> set c'"
  shows "cacheKey c g = cacheKey c' g' \<longleftrightarrow> c = c' \<and> g = g'"
proof
  assume eq: "cacheKey c g = cacheKey c' g'"
  then have "prefix (contract_prefix c) (cacheKey c' g')" by (metis cacheKey_prefix prefixI)
  then have "c' = c" using contract_prefix_inj [OF assms] by simp
  with eq show "c = c' \<and> g = g'" by (simp add: cacheKey_prefix)
qed simp

context expiring_store begin

lemma invalidateContract_live:
  assumes "invalidateContract ops now c ev st = (st', Inr ())" and "glob_free c" and "now \<le> t"
  shows "live (cs_db st') t k = (if prefix (contract_prefix c) k then None else live (cs_db st) t k)"
proof -
  obtain st1 where st1: "delPattern ops now (contract_prefix c @ ''*'') st = (st1, Inr ())" "cs_db st' = cs_db st1"
    using assms(1)
    by (auto simp: invalidateContract_def count_invalidation_def contract_prefix_def split: prod.splits sum.splits)
  obtain ks where ks: "kv_keys ops (cs_db st) now (contract_prefix c @ ''*'') = Inr ks"
    using st1(1) by (auto simp: delPattern_def split: sum.splits)
  have set_ks: "set ks = {k. prefix (contract_prefix c) k \<and> (\<exists>v t. view (cs_db st) k = Some (v, t) \<and> now < t)}"
    using keys_view [OF glob_free_contract_prefix ks] assms(2) by simp
  have "view (cs_db st1) = view (cs_db st) |` (- set ks)"
    using st1(1) del_view by (auto simp: delPattern_def ks redis_del_def restrict_map_def split: if_splits sum.splits)
  with st1(2) set_ks assms(3) show ?thesis
    by (auto simp: live_def restrict_map_def split: option.split)
qed

text \<open>What a read that answers returns after a write or an invalidation.\<close>

lemma read_after:
  assumes "snd (cache_get ops t c g st') = Inr r"
  shows "cache_set ops now c g v st = (st', Inr ()) \<Longrightarrow> r = (if t < now + 10000 \<and> v \<noteq> JNull then Some v else None)"
    and "cache_invalidate ops c g ev st = (st', Inr ()) \<Longrightarrow> r = None"
    and "invalidateContract ops now c ev st = (st', Inr ()) \<Longrightarrow> glob_free c \<Longrightarrow> now \<le> t \<Longrightarrow> r = None"
  using cache_get_live [OF assms]
  by (simp_all add: cache_set_live cache_invalidate_live invalidateContract_live cacheKey_prefix)

end

section \<open>A server in memory\<close>

type_synonym mem_kv = "(string \<times> json \<times> millis) list"

text \<open>The entries, the newest first; a pattern that ends in a star is read as a prefix.\<close>

definition mem_store :: "mem_kv kv_ops" where
  "mem_store =
     \<lparr>kv_get = (\<lambda>m now k. Inr (case map_of m k of None \<Rightarrow> None | Some (v, t) \<Rightarrow> if now < t then Some v else None)),
      kv_setex = (\<lambda>m now k v ttl. Inr ((k, v, now + 1000 * ttl) # m)),
      kv_del = (\<lambda>m dead. Inr (filter (\<lambda>(k, _). k \<notin> set dead) m)),
      kv_keys = (\<lambda>m now pat. Inr (filter (\<lambda>k. prefix (butlast pat) k \<and>
        (case map_of m k of None \<Rightarrow> False | Some (v, t) \<Rightarrow> now < t)) (map fst m)))\<rparr>"

lemma map_of_filter_key: "map_of (filter (\<lambda>(k, _). p k) m) k = (if p k then map_of m k else None)"
  by (induction m) auto

interpretation memkv: expiring_store mem_store map_of
proof unfold_locales
  show "map_of db' = map_of db |` (- set ks)" if "kv_del mem_store db ks = Inr db'" for db ks db'
    using that by (auto simp: mem_store_def restrict_map_def map_of_filter_key fun_eq_iff)
  show "set ks = {k. prefix p k \<and> (\<exists>v t. map_of db k = Some (v, t) \<and> now < t)}"
    if "kv_keys mem_store db now (p @ ''*'') = Inr ks" for p db now ks
    using that by (auto simp: mem_store_def image_iff split: option.splits) (metis fst_conv map_of_SomeD)
qed (auto simp: mem_store_def)

lemma memkv_get_answers: "\<exists>r. snd (cache_get mem_store t c g st) = Inr r"
  by (auto simp: cache_get_def redis_get_def mem_store_def split: sum.splits option.splits prod.splits)

section \<open>Properties of the cache\<close>

text \<open>Read after write. Over any store that keeps the documented laws, the value written for a group is what
  the next read that answers returns for exactly ten seconds, after which there is none.\<close>

theorem cached_state_lives_ttl:
  assumes "expiring_store ops view" and "cache_set ops now c g v st = (st', Inr ())" and "v \<noteq> JNull"
    and "snd (cache_get ops t c g st') = Inr r"
  shows "r = (if t < now + 10000 then Some v else None)"
  using expiring_store.read_after(1) [OF assms(1,4,2)] assms(3) by simp

theorem cached_state_lives_ttl_witness:
  "snd (cache_get mem_store 9999 ''C1'' ''g'' (fst (cache_set mem_store 0 ''C1'' ''g'' (JNum 7)
     \<lparr>cs_db = [], cs_hits = 0, cs_misses = 0, cacheHitsTotal = 0, cacheMissesTotal = 0, cacheInvalidationsTotal = []\<rparr>)))
   = Inr (Some (JNum 7))"
proof -
  let ?st = "\<lparr>cs_db = [], cs_hits = 0, cs_misses = 0, cacheHitsTotal = 0, cacheMissesTotal = 0, cacheInvalidationsTotal = []\<rparr>"
  let ?r = "cache_set mem_store 0 ''C1'' ''g'' (JNum 7) ?st"
  have s: "?r = (fst ?r, Inr ())" by (simp add: cache_set_def redis_set_def mem_store_def)
  obtain r where "snd (cache_get mem_store 9999 ''C1'' ''g'' (fst ?r)) = Inr r"
    using memkv_get_answers by metis
  with cached_state_lives_ttl [OF memkv.expiring_store_axioms s _ this] show ?thesis by simp
qed

text \<open>The abstract cache: what each group's state is at a time, a partial map from contract and group ids.\<close>

definition cache_abs :: "('db \<Rightarrow> string \<Rightarrow> (json \<times> millis) option) \<Rightarrow> 'db cache_state \<Rightarrow> millis \<Rightarrow> string \<times> string \<Rightarrow> json option" where
  "cache_abs view st t = (\<lambda>(c, g). case view (cs_db st) (cacheKey c g) of None \<Rightarrow> None
     | Some (v, e) \<Rightarrow> if t < e \<and> v \<noteq> JNull \<and> CHR '':'' \<notin> set c then Some v else None)"

lemma cache_abs_live:
  assumes "expiring_store ops view"
  shows "cache_abs view st t (c, g) = (if CHR '':'' \<in> set c then None else expiring_store.live view (cs_db st) t (cacheKey c g))"
  by (auto simp: cache_abs_def expiring_store.live_def [OF assms] split: option.split)

text \<open>C6. The cache implements a partial map. Over any store that keeps the documented laws, a read of a contract id
  without colons returns the value of the abstract map; a write updates the map at its key, for ten seconds; an
  invalidation removes the key, and that of a contract all keys of the contract and no other.\<close>

theorem group_cache_refines_map:
  assumes "expiring_store ops view" and "CHR '':'' \<notin> set c" and "glob_free c"
  shows "(snd (cache_get ops t c g st) = Inr r \<longrightarrow> r = cache_abs view st t (c, g)) \<and>
         (cache_set ops now c g v st = (st', Inr ()) \<and> v \<noteq> JNull \<longrightarrow>
            cache_abs view st' t = (cache_abs view st t)((c, g) := if t < now + 10000 then Some v else None)) \<and>
         (cache_invalidate ops c g ev st = (st', Inr ()) \<longrightarrow>
            cache_abs view st' t = (cache_abs view st t)((c, g) := None)) \<and>
         (invalidateContract ops now c ev st = (st', Inr ()) \<and> now \<le> t \<longrightarrow>
            cache_abs view st' t = cache_abs view st t |` {k. fst k \<noteq> c})"
proof (intro conjI impI)
  note abs = cache_abs_live [OF assms(1)]
  show "r = cache_abs view st t (c, g)" if "snd (cache_get ops t c g st) = Inr r"
    using expiring_store.cache_get_live [OF assms(1) that] assms(2) by (simp add: abs)
  show "cache_abs view st' t = (cache_abs view st t)((c, g) := if t < now + 10000 then Some v else None)"
    if "cache_set ops now c g v st = (st', Inr ()) \<and> v \<noteq> JNull"
    using expiring_store.cache_set_live [OF assms(1) conjunct1 [OF that]] that assms(2) cacheKey_inject [OF _ assms(2)]
    by (intro ext) (auto simp: abs split: prod.split if_splits)
  show "cache_abs view st' t = (cache_abs view st t)((c, g) := None)" if "cache_invalidate ops c g ev st = (st', Inr ())"
    using expiring_store.cache_invalidate_live [OF assms(1) that] assms(2) cacheKey_inject [OF _ assms(2)]
    by (intro ext) (auto simp: abs split: prod.split if_splits)
  show "cache_abs view st' t = cache_abs view st t |` {k. fst k \<noteq> c}"
    if "invalidateContract ops now c ev st = (st', Inr ()) \<and> now \<le> t"
    using expiring_store.invalidateContract_live [OF assms(1) conjunct1 [OF that] assms(3) conjunct2 [OF that]]
      contract_prefix_inj [OF assms(2)] assms(2)
    by (intro ext) (auto simp: abs restrict_map_def split: prod.split if_splits)
qed

theorem group_cache_refines_map_witness:
  "\<exists>st st'. cache_invalidate mem_store ''C1'' ''g'' None st = (st', Inr ()) \<and>
     cache_abs map_of st 5 (''C1'', ''g'') = Some (JNum 7) \<and>
     cache_abs map_of st' 5 = (cache_abs map_of st 5)((''C1'', ''g'') := None)"
proof -
  let ?st = "\<lparr>cs_db = [(cacheKey ''C1'' ''g'', JNum 7, 100), (cacheKey ''C1'' ''h'', JNum 8, 100)], cs_hits = 0,
    cs_misses = 0, cacheHitsTotal = 0, cacheMissesTotal = 0, cacheInvalidationsTotal = []\<rparr>"
  obtain st' where st': "cache_invalidate mem_store ''C1'' ''g'' None ?st = (st', Inr ())"
    by (simp add: cache_invalidate_def count_invalidation_def redis_del_def mem_store_def)
  have "cache_abs map_of ?st 5 (''C1'', ''g'') = Some (JNum 7)" by (simp add: cache_abs_def)
  moreover have "cache_abs map_of st' 5 = (cache_abs map_of ?st 5)((''C1'', ''g'') := None)"
    using group_cache_refines_map [OF memkv.expiring_store_axioms, of "''C1''" 5 "''g''" ?st _ _ _ st' None] st'
    by (simp add: glob_free_def)
  ultimately show ?thesis using st' by blast
qed

text \<open>Two of the event types the indexer handles, as the canonical schema names them, are not recognised as
  state-mutating, so their events do not invalidate the cache.\<close>

theorem canonical_events_not_recognised:
  "\<not> isStateMutatingEvent ''payout_executed'' \<and> \<not> isStateMutatingEvent ''contribution_missed'' \<and>
   isStateMutatingEvent ''Payout-Processed''"
  by code_simp

section \<open>Single flight\<close>

text \<open>\<open>getOrLoad\<close> after its cache miss. A load is a promise: it runs the loader, then waits for the cache
  write, then is settled; its callbacks delete the key from the map \<open>inFlight\<close> in the step that settles it.
  The key of a promise is the key \<open>getOrLoad\<close> was called with.\<close>

datatype load_phase = Loading | Storing json | Settled "thrown + json"

record flights =
  inFlight :: "string \<rightharpoonup> nat"
  promises :: "nat \<rightharpoonup> (string \<times> load_phase)"
  next_promise :: nat

definition no_flights :: flights where
  "no_flights = \<lparr>inFlight = (\<lambda>_. None), promises = (\<lambda>_. None), next_promise = 0\<rparr>"

definition join_or_load :: "string \<Rightarrow> flights \<Rightarrow> flights \<times> nat" where
  "join_or_load key fl =
     (case inFlight fl key of
        Some p \<Rightarrow> (fl, p)
      | None \<Rightarrow> (let p = next_promise fl
                in (fl\<lparr>promises := (promises fl)(p \<mapsto> (key, Loading)), next_promise := p + 1,
                       inFlight := (inFlight fl)(key \<mapsto> p)\<rparr>, p)))"

definition settle :: "nat \<Rightarrow> string \<Rightarrow> thrown + json \<Rightarrow> flights \<Rightarrow> flights" where
  "settle p key r fl =
     fl\<lparr>promises := (promises fl)(p \<mapsto> (key, Settled r)), inFlight := (inFlight fl)(key := None)\<rparr>"

definition loader_done :: "nat \<Rightarrow> thrown + json \<Rightarrow> flights \<Rightarrow> flights" where
  "loader_done p r fl =
     (case promises fl p of
        Some (key, Loading) \<Rightarrow>
          (case r of Inr v \<Rightarrow> fl\<lparr>promises := (promises fl)(p \<mapsto> (key, Storing v))\<rparr> | Inl e \<Rightarrow> settle p key (Inl e) fl)
      | _ \<Rightarrow> fl)"

definition store_done :: "nat \<Rightarrow> thrown + unit \<Rightarrow> flights \<Rightarrow> flights" where
  "store_done p r fl =
     (case promises fl p of
        Some (key, Storing v) \<Rightarrow> settle p key (case r of Inr _ \<Rightarrow> Inr v | Inl e \<Rightarrow> Inl e) fl
      | _ \<Rightarrow> fl)"

text \<open>The whole of \<open>getOrLoad\<close> up to its return: the answer of Redis, the counters, and on a miss the load to wait
  for. The result is an error, a cached value or a promise.\<close>

datatype load_outcome = Failed thrown | Cached json | Awaits nat

definition getOrLoad ::
  "'db kv_ops \<Rightarrow> millis \<Rightarrow> string \<Rightarrow> string \<Rightarrow> 'db cache_state \<Rightarrow> flights \<Rightarrow> 'db cache_state \<times> flights \<times> load_outcome" where
  "getOrLoad ops now contractId groupId st fl =
     (let key = cacheKey contractId groupId
      in case redis_get ops now key st of
           (st, Inl e) \<Rightarrow> (st, fl, Failed e)
         | (st, Inr (Some v)) \<Rightarrow> (st\<lparr>cacheHitsTotal := cacheHitsTotal st + 1\<rparr>, fl, Cached v)
         | (st, Inr None) \<Rightarrow>
             (let (fl', p) = join_or_load key fl
              in (st\<lparr>cacheMissesTotal := cacheMissesTotal st + 1\<rparr>, fl', Awaits p)))"

inductive flight_step :: "flights \<Rightarrow> flights \<Rightarrow> bool" where
  call: "flight_step fl (fst (join_or_load key fl))"
| loaded: "flight_step fl (loader_done p r fl)"
| stored: "flight_step fl (store_done p w fl)"

inductive flight_reach :: "flights \<Rightarrow> bool" where
  start: "flight_reach no_flights"
| step: "flight_reach fl \<Longrightarrow> flight_step fl fl' \<Longrightarrow> flight_reach fl'"

inductive_cases flight_stepE: "flight_step fl fl'"

fun pending_phase :: "load_phase \<Rightarrow> bool" where
  "pending_phase (Settled _) = False"
| "pending_phase _ = True"

text \<open>The map holds, for each key, exactly the load of the key that is not settled.\<close>

definition flights_inv :: "flights \<Rightarrow> bool" where
  "flights_inv fl \<longleftrightarrow>
     (\<forall>key p. inFlight fl key = Some p \<longleftrightarrow> (\<exists>ph. promises fl p = Some (key, ph) \<and> pending_phase ph)) \<and>
     (\<forall>p. promises fl p \<noteq> None \<longrightarrow> p < next_promise fl)"

lemma getOrLoad_step: "flight_step fl (fst (snd (getOrLoad ops now c g st fl))) \<or> fst (snd (getOrLoad ops now c g st fl)) = fl"
  using flight_step.call [of fl "cacheKey c g"]
  by (auto simp: getOrLoad_def Let_def split: prod.splits sum.splits option.splits)

lemma flights_invD:
  assumes "flights_inv fl"
  shows "inFlight fl key = Some p \<Longrightarrow> \<exists>ph. promises fl p = Some (key, ph) \<and> pending_phase ph"
    and "promises fl p = Some (key, ph) \<Longrightarrow> pending_phase ph \<Longrightarrow> inFlight fl key = Some p"
    and "promises fl p = Some x \<Longrightarrow> p < next_promise fl"
  using assms unfolding flights_inv_def by blast+

lemma flights_inv_fresh: "flights_inv fl \<Longrightarrow> promises fl (next_promise fl) = None"
  by (metis flights_invD(3) nat_less_le not_None_eq)

lemma join_or_load_inv:
  assumes "flights_inv fl"
  shows "flights_inv (fst (join_or_load key fl))"
proof (cases "inFlight fl key")
  case None
  have "promises fl p = Some (key, ph) \<Longrightarrow> \<not> pending_phase ph" for p ph
    using flights_invD(2) [OF assms] None by fastforce
  with assms flights_inv_fresh [OF assms] None show ?thesis
    by (auto simp: flights_inv_def join_or_load_def Let_def less_SucI)
qed (simp add: join_or_load_def assms)

lemma settle_inv:
  assumes "flights_inv fl" and "promises fl p = Some (key, ph)" and "pending_phase ph"
  shows "flights_inv (settle p key r fl)"
proof -
  have "q = p" if "promises fl q = Some (key, ph')" "pending_phase ph'" for q ph'
    using flights_invD(2) [OF assms(1) that] flights_invD(2) [OF assms] by simp
  then have one: "promises fl q = Some (key, ph') \<Longrightarrow> pending_phase ph' \<Longrightarrow> q = p" for q ph' .
  have iff: "inFlight fl k = Some q \<longleftrightarrow> (\<exists>ph. promises fl q = Some (k, ph) \<and> pending_phase ph)" for k q
    using assms(1) by (simp add: flights_inv_def)
  have "inFlight (settle p key r fl) k = Some q \<longleftrightarrow>
      (\<exists>ph. promises (settle p key r fl) q = Some (k, ph) \<and> pending_phase ph)" for k q
  proof (cases "k = key")
    case True
    then show ?thesis using one [of q] by (auto simp: settle_def)
  next
    case False
    then show ?thesis using iff [of k q] assms(2) by (auto simp: settle_def)
  qed
  moreover have "q < next_promise fl" if "promises (settle p key r fl) q \<noteq> None" for q
    using that flights_invD(3) [OF assms(1)] assms(2) by (auto simp: settle_def split: if_splits)
  ultimately show ?thesis by (auto simp: flights_inv_def settle_def)
qed

lemma loader_done_inv:
  assumes "flights_inv fl"
  shows "flights_inv (loader_done p r fl)"
proof (cases "\<exists>key. promises fl p = Some (key, Loading)")
  case True
  then obtain key where p: "promises fl p = Some (key, Loading)" by blast
  show ?thesis
  proof (cases r)
    case (Inr v)
    have "flights_inv (fl\<lparr>promises := (promises fl)(p \<mapsto> (key, Storing v))\<rparr>)"
      using assms p by (auto simp: flights_inv_def)
    with Inr p show ?thesis by (simp add: loader_done_def)
  qed (use settle_inv [OF assms p] p in \<open>simp add: loader_done_def\<close>)
next
  case False
  then have "loader_done p r fl = fl" by (auto simp: loader_done_def split: option.split load_phase.split)
  with assms show ?thesis by simp
qed

lemma store_done_inv:
  assumes "flights_inv fl"
  shows "flights_inv (store_done p w fl)"
  using assms settle_inv [OF assms]
  by (auto simp: store_done_def split: option.split load_phase.split sum.split)

lemma flight_reach_inv: "flight_reach fl \<Longrightarrow> flights_inv fl"
proof (induction rule: flight_reach.induct)
  case start
  then show ?case by (simp add: flights_inv_def no_flights_def)
next
  case (step fl fl')
  then show ?case by (auto elim!: flight_stepE simp: join_or_load_inv loader_done_inv store_done_inv)
qed

text \<open>C7. No stampede. In every interleaving of calls, loads and cache writes, two unsettled loads of one key are
  the same load, and a call that misses the cache is given an unsettled load of its own key: the one in flight
  when there is one, without starting another.\<close>

theorem single_flight:
  assumes "flight_reach fl"
  shows "(\<forall>key p q ph ph'. promises fl p = Some (key, ph) \<and> promises fl q = Some (key, ph') \<longrightarrow>
            pending_phase ph \<longrightarrow> pending_phase ph' \<longrightarrow> p = q) \<and>
         (\<forall>key. case join_or_load key fl of (fl', p) \<Rightarrow>
            (\<exists>ph. promises fl' p = Some (key, ph) \<and> pending_phase ph) \<and>
            ((\<exists>q ph. promises fl q = Some (key, ph) \<and> pending_phase ph) \<longrightarrow> fl' = fl))"
proof -
  note inv = flight_reach_inv [OF assms]
  note uniq = flights_invD(2) [OF inv] and held = flights_invD(1) [OF inv]
  have one: "p = q" if "promises fl p = Some (key, ph)" "promises fl q = Some (key, ph')"
      "pending_phase ph" "pending_phase ph'" for key p q ph ph'
    using uniq [OF that(1,3)] uniq [OF that(2,4)] by simp
  have "case join_or_load key fl of (fl', p) \<Rightarrow>
      (\<exists>ph. promises fl' p = Some (key, ph) \<and> pending_phase ph) \<and>
      ((\<exists>q ph. promises fl q = Some (key, ph) \<and> pending_phase ph) \<longrightarrow> fl' = fl)" for key
  proof (cases "inFlight fl key")
    case None
    then have "\<not> (\<exists>q ph. promises fl q = Some (key, ph) \<and> pending_phase ph)" using uniq by fastforce
    with None show ?thesis by (auto simp: join_or_load_def Let_def)
  next
    case (Some p)
    then show ?thesis using held [OF Some] by (simp add: join_or_load_def)
  qed
  with one show ?thesis by blast
qed

theorem single_flight_witness:
  "\<exists>fl. flight_reach fl \<and> promises fl 0 = Some (''k'', Loading) \<and> fst (join_or_load ''k'' fl) = fl"
proof -
  let ?fl = "fst (join_or_load ''k'' no_flights)"
  have r: "flight_reach ?fl" by (rule flight_reach.step [OF flight_reach.start flight_step.call])
  have p: "promises ?fl 0 = Some (''k'', Loading)" by (simp add: join_or_load_def no_flights_def)
  have "\<exists>q ph. promises ?fl q = Some (''k'', ph) \<and> pending_phase ph" using p by fastforce
  then have "fst (join_or_load ''k'' ?fl) = ?fl"
    using conjunct2 [OF single_flight [OF r], THEN spec, of "''k''"] by (simp add: case_prod_beta)
  with r p show ?thesis by blast
qed

end
