(* ===== verification/Reconciliation.thy ===== *)
theory Reconciliation
  imports Group_Cache Js_Values
begin

text \<open>
  The reconciliation job, \<open>backend/src/reconciliation_service.ts\<close>: sampling of group ids, the comparison of the
  stored event data with the state on chain, the degraded read from the group cache, healing, and a whole run
  with its metrics. Three things outside the module are arguments: the database delegate of the table of
  contract events (\<open>event_ops\<close>, with the locale \<open>event_table\<close> for what the job relies on), the Redis commands
  of the cache, and the outcome of the pooled call of \<open>get_group\<close> for each group, \<open>None\<close> for \<open>null\<close>. The clock is
  read once per run.
\<close>

section \<open>Configuration, records and state\<close>

record ReconciliationConfig =
  sampleSize :: int
  driftThreshold :: int
  intervalMs :: int
  contractId :: string

definition DEFAULT_CONFIG :: "string option \<Rightarrow> ReconciliationConfig" where
  "DEFAULT_CONFIG env = \<lparr>sampleSize = 50, driftThreshold = 3, intervalMs = 15 * 60 * 1000, contractId = or_default env []\<rparr>"

record DriftRecord =
  dr_groupId :: string
  dr_field :: string
  dr_onChainValue :: json
  dr_dbValue :: json
  dr_healed :: bool

record ReconciliationResult =
  rs_runAt :: millis
  rs_groupsChecked :: nat
  rs_drifted :: "DriftRecord list"
  rs_healed :: nat
  rs_alertRaised :: bool

record event_row =
  ev_id :: string
  ev_timestamp :: millis
  ev_data :: json

record 'e event_ops =
  ev_findMany :: "'e \<Rightarrow> nat \<Rightarrow> thrown + json list"
  ev_findFirst :: "'e \<Rightarrow> string \<Rightarrow> thrown + event_row option"
  ev_update :: "'e \<Rightarrow> string \<Rightarrow> json \<Rightarrow> thrown + 'e"

record ('e, 'db) recon =
  rc_events :: 'e
  rc_cache :: "'db cache_state"
  reconciliationDriftTotal :: nat
  reconciliationHealedTotal :: nat
  reconciliationRunsTotal :: "string list"
  reconciliationLastRunTs :: rat
  reconciliationAlertActive :: nat
  rc_fallbacks :: "string list"
  rc_staleReads :: nat

section \<open>Sampling\<close>

definition event_group :: "json \<Rightarrow> json option" where
  "event_group d =
     (let non_null = (\<lambda>v. if v = Some JNull then None else v)
      in nullish (non_null (json_field d ''groupId''))
           (nullish (non_null (json_field d ''group_id'')) (json_field d ''group'')))"

fun collect_ids :: "nat \<Rightarrow> string list \<Rightarrow> json list \<Rightarrow> string list" where
  "collect_ids n seen [] = seen"
| "collect_ids n seen (d # ds) =
     (case event_group d of
        Some (JStr gid) \<Rightarrow>
          if gid = [] then collect_ids n seen ds
          else let seen' = (if gid \<in> set seen then seen else seen @ [gid])
               in if length seen' \<ge> n then seen' else collect_ids n seen' ds
      | _ \<Rightarrow> collect_ids n seen ds)"

definition sample_take :: "ReconciliationConfig \<Rightarrow> nat" where
  "sample_take cfg = (if sampleSize cfg > 0 then nat (sampleSize cfg) else 10000)"

definition sampleGroupIds :: "'e event_ops \<Rightarrow> ReconciliationConfig \<Rightarrow> ('e, 'db) recon \<Rightarrow> thrown + string list" where
  "sampleGroupIds ev cfg st =
     (case ev_findMany ev (rc_events st) (sample_take cfg * 10) of
        Inl e \<Rightarrow> Inl e
      | Inr ds \<Rightarrow> Inr (collect_ids (sample_take cfg) [] ds))"

section \<open>Reading the chain\<close>

definition fetchOnChainGroupState ::
  "'db kv_ops \<Rightarrow> ReconciliationConfig \<Rightarrow> millis \<Rightarrow> (string \<Rightarrow> thrown + json option) \<Rightarrow> string \<Rightarrow>
   ('e, 'db) recon \<Rightarrow> ('e, 'db) recon \<times> json option" where
  "fetchOnChainGroupState kv cfg now get_group groupId st =
     (if contractId cfg = [] \<or> contractId cfg = ''CA...'' then (st, None)
      else case get_group groupId of
        Inr None \<Rightarrow> (st, None)
      | Inr (Some state) \<Rightarrow>
          (st\<lparr>rc_cache := fst (cache_set kv now (contractId cfg) groupId state (rc_cache st))\<rparr>, Some state)
      | Inl err \<Rightarrow>
          (let reason = (if isCircuitOpenError err then ''circuit_open'' else ''call_failed'');
               (cache, r) = cache_get kv now (contractId cfg) groupId (rc_cache st);
               cached = (case r of Inl _ \<Rightarrow> None | Inr c \<Rightarrow> c)
           in (st\<lparr>rc_cache := cache,
                  rc_fallbacks := rc_fallbacks st @ [reason @ (if cached = None then ''_miss'' else ''_hit'')],
                  rc_staleReads := rc_staleReads st + (if cached = None then 0 else 1)\<rparr>, cached)))"

section \<open>Comparing\<close>

definition COMPARABLE_FIELDS :: "string list" where
  "COMPARABLE_FIELDS = [''status'', ''memberCount'', ''totalContributions'', ''cycleIndex'']"

definition field_drift :: "(rat \<Rightarrow> string) \<Rightarrow> string \<Rightarrow> json \<Rightarrow> json \<Rightarrow> string \<Rightarrow> DriftRecord list" where
  "field_drift fmt groupId dbData onChain f =
     (case (json_field dbData f, json_field onChain f) of
        (Some dbVal, Some chainVal) \<Rightarrow>
          if js_String fmt dbVal \<noteq> js_String fmt chainVal
          then [\<lparr>dr_groupId = groupId, dr_field = f, dr_onChainValue = chainVal, dr_dbValue = dbVal, dr_healed = False\<rparr>]
          else []
      | _ \<Rightarrow> [])"

definition diffGroup ::
  "(rat \<Rightarrow> string) \<Rightarrow> 'e event_ops \<Rightarrow> 'db kv_ops \<Rightarrow> ReconciliationConfig \<Rightarrow> millis \<Rightarrow> (string \<Rightarrow> thrown + json option) \<Rightarrow>
   string \<Rightarrow> ('e, 'db) recon \<Rightarrow> ('e, 'db) recon \<times> (thrown + DriftRecord list)" where
  "diffGroup fmt ev kv cfg now get_group groupId st =
     (case ev_findFirst ev (rc_events st) groupId of
        Inl e \<Rightarrow> (st, Inl e)
      | Inr None \<Rightarrow> (st, Inr [])
      | Inr (Some dbEvent) \<Rightarrow>
          (case fetchOnChainGroupState kv cfg now get_group groupId st of
             (st', None) \<Rightarrow> (st', Inr [])
           | (st', Some onChain) \<Rightarrow>
               (st', Inr (concat (map (field_drift fmt groupId (ev_data dbEvent) onChain) COMPARABLE_FIELDS)))))"

fun diff_all ::
  "(rat \<Rightarrow> string) \<Rightarrow> 'e event_ops \<Rightarrow> 'db kv_ops \<Rightarrow> ReconciliationConfig \<Rightarrow> millis \<Rightarrow> (string \<Rightarrow> thrown + json option) \<Rightarrow>
   string list \<Rightarrow> ('e, 'db) recon \<Rightarrow> ('e, 'db) recon \<times> (thrown + DriftRecord list)" where
  "diff_all fmt ev kv cfg now get_group [] st = (st, Inr [])"
| "diff_all fmt ev kv cfg now get_group (g # gs) st =
     (case diffGroup fmt ev kv cfg now get_group g st of
        (st', Inl e) \<Rightarrow> (st', Inl e)
      | (st', Inr ds) \<Rightarrow>
          (case diff_all fmt ev kv cfg now get_group gs st' of
             (st'', Inl e) \<Rightarrow> (st'', Inl e)
           | (st'', Inr ds') \<Rightarrow> (st'', Inr (ds @ ds'))))"

section \<open>Healing\<close>

definition heal :: "'e event_ops \<Rightarrow> DriftRecord \<Rightarrow> ('e, 'db) recon \<Rightarrow> ('e, 'db) recon \<times> bool" where
  "heal ev rec st =
     (case ev_findFirst ev (rc_events st) (dr_groupId rec) of
        Inl _ \<Rightarrow> (st, False)
      | Inr None \<Rightarrow> (st, False)
      | Inr (Some latest) \<Rightarrow>
          (case ev_update ev (rc_events st) (ev_id latest) (with_field (ev_data latest) (dr_field rec) (dr_onChainValue rec)) of
             Inl _ \<Rightarrow> (st, False)
           | Inr db \<Rightarrow> (st\<lparr>rc_events := db\<rparr>, True)))"

fun heal_all :: "'e event_ops \<Rightarrow> DriftRecord list \<Rightarrow> ('e, 'db) recon \<Rightarrow> ('e, 'db) recon \<times> DriftRecord list" where
  "heal_all ev [] st = (st, [])"
| "heal_all ev (rec # recs) st =
     (case heal ev rec st of
        (st', ok) \<Rightarrow>
          (let st' = (if ok then st'\<lparr>reconciliationHealedTotal := reconciliationHealedTotal st' + 1\<rparr> else st')
           in case heal_all ev recs st' of (st'', recs') \<Rightarrow> (st'', (if ok then rec\<lparr>dr_healed := True\<rparr> else rec) # recs')))"

section \<open>A run\<close>

definition recon_run ::
  "(rat \<Rightarrow> string) \<Rightarrow> 'e event_ops \<Rightarrow> 'db kv_ops \<Rightarrow> ReconciliationConfig \<Rightarrow> millis \<Rightarrow> (string \<Rightarrow> thrown + json option) \<Rightarrow>
   ('e, 'db) recon \<Rightarrow> ('e, 'db) recon \<times> (thrown + ReconciliationResult)" where
  "recon_run fmt ev kv cfg now get_group st =
     (let failed = (\<lambda>st e. (st\<lparr>reconciliationRunsTotal := reconciliationRunsTotal st @ [''error'']\<rparr>, Inl e))
      in case sampleGroupIds ev cfg st of
        Inl e \<Rightarrow> failed st e
      | Inr groupIds \<Rightarrow>
          if groupIds = [] then
            (st\<lparr>reconciliationRunsTotal := reconciliationRunsTotal st @ [''ok''],
                reconciliationLastRunTs := of_int now / 1000, reconciliationDriftTotal := 0\<rparr>,
             Inr \<lparr>rs_runAt = now, rs_groupsChecked = 0, rs_drifted = [], rs_healed = 0, rs_alertRaised = False\<rparr>)
          else case diff_all fmt ev kv cfg now get_group groupIds st of
            (st1, Inl e) \<Rightarrow> failed st1 e
          | (st1, Inr found) \<Rightarrow>
              (let (st2, drifted) = heal_all ev found st1;
                   alertRaised = (int (length drifted) \<ge> driftThreshold cfg)
               in (st2\<lparr>reconciliationDriftTotal := length drifted, reconciliationLastRunTs := of_int now / 1000,
                       reconciliationRunsTotal := reconciliationRunsTotal st2 @ [''ok''],
                       reconciliationAlertActive := (if alertRaised then 1 else 0)\<rparr>,
                   Inr \<lparr>rs_runAt = now, rs_groupsChecked = length groupIds, rs_drifted = drifted,
                        rs_healed = length (filter dr_healed drifted), rs_alertRaised = alertRaised\<rparr>)))"

section \<open>The service\<close>

text \<open>The service holds a flag and a timer; \<open>start\<close> begins with a tick, and a tick runs the job whatever its
  outcome and sets the timer for the next one.\<close>

record recon_service =
  srv_running :: bool
  srv_timer :: "int option"

definition recon_start :: "recon_service \<Rightarrow> recon_service \<times> bool" where
  "recon_start s = (if srv_running s then (s, False) else (s\<lparr>srv_running := True\<rparr>, True))"

definition recon_stop :: "recon_service \<Rightarrow> recon_service" where
  "recon_stop s = s\<lparr>srv_running := False, srv_timer := None\<rparr>"

definition recon_tick ::
  "ReconciliationConfig \<Rightarrow> (('e, 'db) recon \<Rightarrow> ('e, 'db) recon \<times> (thrown + ReconciliationResult)) \<Rightarrow>
   recon_service \<times> ('e, 'db) recon \<Rightarrow> recon_service \<times> ('e, 'db) recon" where
  "recon_tick cfg job w =
     (case w of (s, st) \<Rightarrow>
        if \<not> srv_running s then (s, st) else (s\<lparr>srv_timer := Some (intervalMs cfg)\<rparr>, fst (job st)))"

section \<open>What the table of events promises\<close>

definition has_group :: "string \<Rightarrow> event_row \<Rightarrow> bool" where
  "has_group g r \<longleftrightarrow> json_field (ev_data r) ''groupId'' = Some (JStr g)"

definition latest_for :: "event_row list \<Rightarrow> string \<Rightarrow> event_row \<Rightarrow> bool" where
  "latest_for rows g r \<longleftrightarrow> r \<in> set rows \<and> has_group g r \<and>
     list_all (\<lambda>r'. has_group g r' \<longrightarrow> ev_timestamp r' \<le> ev_timestamp r) rows"

definition set_data :: "string \<Rightarrow> json \<Rightarrow> event_row list \<Rightarrow> event_row list" where
  "set_data i d rows = map (\<lambda>r. if ev_id r = i then r\<lparr>ev_data := d\<rparr> else r) rows"

text \<open>A lookup that answers gives a row of the group with the greatest time stamp, an update changes the data
  of the row with the id.\<close>

locale event_table =
  fixes ev :: "'e event_ops" and rows :: "'e \<Rightarrow> event_row list"
  assumes first_none: "ev_findFirst ev db g = Inr None \<Longrightarrow> r \<in> set (rows db) \<Longrightarrow> \<not> has_group g r"
    and first_some: "ev_findFirst ev db g = Inr (Some r) \<Longrightarrow> latest_for (rows db) g r"
    and update_rows: "ev_update ev db i d = Inr db' \<Longrightarrow> rows db' = set_data i d (rows db)"

text \<open>Ids are distinct, and no two events of a group have the same time stamp.\<close>

definition rows_ok :: "event_row list \<Rightarrow> bool" where
  "rows_ok rows \<longleftrightarrow> distinct (map ev_id rows) \<and>
     (\<forall>r \<in> set rows. \<forall>r' \<in> set rows. \<forall>g. has_group g r \<and> has_group g r' \<and> ev_timestamp r = ev_timestamp r' \<longrightarrow> r = r')"

lemma latest_for_unique:
  assumes "rows_ok rs" "latest_for rs g r" "latest_for rs g r'"
  shows "r = r'"
proof -
  have "ev_timestamp r = ev_timestamp r'" using assms(2,3) by (auto simp: latest_for_def list_all_iff intro: antisym)
  with assms show ?thesis unfolding rows_ok_def latest_for_def by blast
qed

text \<open>Writing a field other than the group id into the latest row of a group: the new rows are still in order,
  the latest row of the group is the changed one, and the latest rows of other groups are the former ones.\<close>

definition patched :: "event_row \<Rightarrow> string \<Rightarrow> json \<Rightarrow> event_row \<Rightarrow> event_row" where
  "patched r0 f v r = (if ev_id r = ev_id r0 then r\<lparr>ev_data := with_field (ev_data r0) f v\<rparr> else r)"

lemma patched_simps [simp]:
  "ev_id (patched r0 f v r) = ev_id r" "ev_timestamp (patched r0 f v r) = ev_timestamp r"
  by (simp_all add: patched_def)

lemma set_data_patched: "set_data (ev_id r0) (with_field (ev_data r0) f v) rs = map (patched r0 f v) rs"
  by (simp add: set_data_def patched_def)

lemma same_id:
  assumes "rows_ok rs" "r0 \<in> set rs" "r \<in> set rs" "ev_id r = ev_id r0"
  shows "r = r0"
  using assms by (auto simp: rows_ok_def distinct_map inj_on_def)

lemma has_group_patched:
  assumes "rows_ok rs" "r0 \<in> set rs" "f \<noteq> ''groupId''" "r \<in> set rs"
  shows "has_group h (patched r0 f v r) \<longleftrightarrow> has_group h r"
  using same_id [OF assms(1,2,4)] assms(3) by (auto simp: has_group_def patched_def)

lemma rows_ok_patched:
  assumes "rows_ok rs" "r0 \<in> set rs" "f \<noteq> ''groupId''"
  shows "rows_ok (map (patched r0 f v) rs)"
proof -
  have ids: "map ev_id (map (patched r0 f v) rs) = map ev_id rs" by simp
  have "patched r0 f v a = patched r0 f v b"
    if "a \<in> set rs" "b \<in> set rs" "has_group h (patched r0 f v a)" "has_group h (patched r0 f v b)"
      "ev_timestamp a = ev_timestamp b" for a b h
    using that assms(1) has_group_patched [OF assms] unfolding rows_ok_def by metis
  with ids assms(1) show ?thesis unfolding rows_ok_def by (auto simp: o_def)
qed

lemma latest_for_patched:
  assumes "rows_ok rs" "r0 \<in> set rs" "f \<noteq> ''groupId''" "latest_for rs h r"
  shows "latest_for (map (patched r0 f v) rs) h (patched r0 f v r)"
  using assms(4) has_group_patched [OF assms(1-3)] by (auto simp: latest_for_def list_all_iff)

text \<open>The stored value of a field: that of the latest row of the group.\<close>

definition stored_field :: "event_row list \<Rightarrow> string \<Rightarrow> string \<Rightarrow> json option" where
  "stored_field rs g f = (case List.find (latest_for rs g) rs of None \<Rightarrow> None | Some r \<Rightarrow> json_field (ev_data r) f)"

lemma find_latest: "rows_ok rs \<Longrightarrow> latest_for rs g r \<Longrightarrow> List.find (latest_for rs g) rs = Some r"
proof -
  assume ok: "rows_ok rs" and r: "latest_for rs g r"
  then obtain r' where "List.find (latest_for rs g) rs = Some r'"
    by (cases "List.find (latest_for rs g) rs") (auto simp: find_None_iff latest_for_def)
  moreover from this have "latest_for rs g r'" by (auto simp: find_Some_iff)
  ultimately show ?thesis using latest_for_unique [OF ok r] by simp
qed

lemma stored_field_latest: "rows_ok rs \<Longrightarrow> latest_for rs g r \<Longrightarrow> stored_field rs g f = json_field (ev_data r) f"
  by (simp add: stored_field_def find_latest)

lemma latest_exists:
  assumes "r \<in> set rs" "has_group h r"
  shows "\<exists>r. latest_for rs h r"
proof -
  let ?T = "ev_timestamp ` {r \<in> set rs. has_group h r}"
  have "Max ?T \<in> ?T" using assms by (intro Max_in) auto
  then obtain r' where "r' \<in> set rs" "has_group h r'" "ev_timestamp r' = Max ?T" by auto
  moreover have "ev_timestamp x \<le> Max ?T" if "x \<in> set rs" "has_group h x" for x
    using that by (intro Max_ge) auto
  ultimately show ?thesis by (auto simp: latest_for_def list_all_iff)
qed

lemma stored_field_patched:
  assumes "rows_ok rs" and r0: "latest_for rs g r0" and "f \<noteq> ''groupId''"
  shows "stored_field (map (patched r0 f v) rs) h k = (if h = g \<and> k = f then Some v else stored_field rs h k)"
proof (cases "\<exists>r. latest_for rs h r")
  case True
  then obtain r where r: "latest_for rs h r" by blast
  have in_rs: "r0 \<in> set rs" "r \<in> set rs" using r0 r by (auto simp: latest_for_def)
  have "stored_field (map (patched r0 f v) rs) h k = json_field (ev_data (patched r0 f v r)) k"
    by (rule stored_field_latest [OF rows_ok_patched latest_for_patched]) (use assms in_rs r in auto)
  moreover have "h = g" if "ev_id r = ev_id r0"
    using same_id [OF assms(1) in_rs that] r r0 by (auto simp: latest_for_def has_group_def)
  moreover have "r = r0" if "h = g" using latest_for_unique [OF assms(1)] r r0 that by blast
  ultimately show ?thesis
    using stored_field_latest [OF assms(1) r] same_id [OF assms(1) in_rs] by (auto simp: patched_def)
next
  case False
  have in_rs: "r0 \<in> set rs" using r0 by (simp add: latest_for_def)
  have "\<not> has_group h r" if "r \<in> set rs" for r using False latest_exists that by blast
  then have "\<not> latest_for (map (patched r0 f v) rs) h r" for r
    using has_group_patched [OF assms(1) in_rs assms(3)] by (auto simp: latest_for_def)
  then have "List.find (latest_for (map (patched r0 f v) rs) h) (map (patched r0 f v) rs) = None"
    by (auto simp: find_None_iff)
  moreover have "List.find (latest_for rs h) rs = None" using False by (auto simp: find_None_iff)
  ultimately show ?thesis using False r0 by (auto simp: stored_field_def)
qed

section \<open>What a comparison finds\<close>

text \<open>The drift of a group, in terms of the stored fields and of what the chain returns.\<close>

definition drifts :: "(rat \<Rightarrow> string) \<Rightarrow> (string \<Rightarrow> thrown + json option) \<Rightarrow> event_row list \<Rightarrow> string \<Rightarrow> DriftRecord \<Rightarrow> bool" where
  "drifts fmt get_group rs g rec \<longleftrightarrow>
     dr_groupId rec = g \<and> dr_field rec \<in> set COMPARABLE_FIELDS \<and> \<not> dr_healed rec \<and>
     stored_field rs g (dr_field rec) = Some (dr_dbValue rec) \<and>
     (case get_group g of Inr (Some oc) \<Rightarrow> json_field oc (dr_field rec) = Some (dr_onChainValue rec) | _ \<Rightarrow> False) \<and>
     js_String fmt (dr_dbValue rec) \<noteq> js_String fmt (dr_onChainValue rec)"

definition configured :: "ReconciliationConfig \<Rightarrow> bool" where
  "configured cfg \<longleftrightarrow> contractId cfg \<noteq> [] \<and> contractId cfg \<noteq> ''CA...''"

lemma field_drift_iff:
  "rec \<in> set (field_drift fmt g d oc f) \<longleftrightarrow>
     dr_groupId rec = g \<and> dr_field rec = f \<and> \<not> dr_healed rec \<and> json_field d f = Some (dr_dbValue rec) \<and>
     json_field oc f = Some (dr_onChainValue rec) \<and> js_String fmt (dr_dbValue rec) \<noteq> js_String fmt (dr_onChainValue rec)"
  by (cases rec) (auto simp: field_drift_def split: option.split)

lemma fetch_answers:
  assumes "configured cfg" and "get_group g = Inr r"
  shows "snd (fetchOnChainGroupState kv cfg now get_group g st) = r"
    and "rc_events (fst (fetchOnChainGroupState kv cfg now get_group g st)) = rc_events st"
  using assms by (auto simp: fetchOnChainGroupState_def configured_def split: option.split)

context event_table begin

lemma diffGroup_drifts:
  assumes "rows_ok (rows (rc_events st))" and "configured cfg" and "get_group g = Inr r"
    and "diffGroup fmt ev kv cfg now get_group g st = (st', Inr ds)"
  shows "rc_events st' = rc_events st" and "rec \<in> set ds \<longleftrightarrow> drifts fmt get_group (rows (rc_events st)) g rec"
proof -
  let ?fetch = "fetchOnChainGroupState kv cfg now get_group g st"
  obtain stf where fetch: "?fetch = (stf, r)" "rc_events stf = rc_events st"
    using fetch_answers [of cfg get_group g r kv now st] assms(2,3) by (metis prod.collapse)
  obtain x where x: "ev_findFirst ev (rc_events st) g = Inr x"
    using assms(4) by (auto simp: diffGroup_def split: sum.splits)
  have "rc_events st' = rc_events st \<and> (rec \<in> set ds \<longleftrightarrow> drifts fmt get_group (rows (rc_events st)) g rec)"
  proof (cases x)
    case None
    then have "\<not> has_group g r" if "r \<in> set (rows (rc_events st))" for r using first_none x that by simp
    then have "List.find (latest_for (rows (rc_events st)) g) (rows (rc_events st)) = None"
      by (auto simp: find_None_iff latest_for_def)
    then have "stored_field (rows (rc_events st)) g f = None" for f by (simp add: stored_field_def)
    with None x assms(4) show ?thesis by (auto simp: diffGroup_def drifts_def)
  next
    case (Some row)
    have sf: "stored_field (rows (rc_events st)) g f = json_field (ev_data row) f" for f
      using stored_field_latest [OF assms(1) first_some] x Some by simp
    show ?thesis
    proof (cases r)
      case None
      then show ?thesis using assms(3,4) fetch Some x by (auto simp: diffGroup_def drifts_def)
    next
      case (Some oc)
      then have "st' = stf" "ds = concat (map (field_drift fmt g (ev_data row) oc) COMPARABLE_FIELDS)"
        using assms(4) fetch(1) x \<open>x = Some row\<close> by (auto simp: diffGroup_def split: prod.splits)
      then show ?thesis using fetch(2) Some assms(3) by (auto simp: field_drift_iff drifts_def sf)
    qed
  qed
  then show "rc_events st' = rc_events st" "rec \<in> set ds \<longleftrightarrow> drifts fmt get_group (rows (rc_events st)) g rec"
    by blast+
qed

lemma diff_all_drifts:
  assumes "rows_ok (rows (rc_events st))" and "configured cfg" and "\<And>g. g \<in> set gs \<Longrightarrow> \<exists>r. get_group g = Inr r"
    and "diff_all fmt ev kv cfg now get_group gs st = (st', Inr ds)"
  shows "rc_events st' = rc_events st \<and> (\<forall>rec. rec \<in> set ds \<longleftrightarrow> (\<exists>g \<in> set gs. drifts fmt get_group (rows (rc_events st)) g rec))"
  using assms
proof (induction gs arbitrary: st st' ds)
  case (Cons g gs)
  obtain st1 ds1 st2 ds2 where 1: "diffGroup fmt ev kv cfg now get_group g st = (st1, Inr ds1)"
    and 2: "diff_all fmt ev kv cfg now get_group gs st1 = (st2, Inr ds2)" and 3: "st' = st2" "ds = ds1 @ ds2"
    using Cons.prems(4) by (auto split: prod.splits sum.splits)
  obtain r where r: "get_group g = Inr r" using Cons.prems(3) by auto
  note d = diffGroup_drifts [where get_group = get_group and g = g, OF Cons.prems(1,2) r 1]
  have "rc_events st2 = rc_events st1 \<and>
      (\<forall>rec. rec \<in> set ds2 \<longleftrightarrow> (\<exists>g \<in> set gs. drifts fmt get_group (rows (rc_events st1)) g rec))"
    by (rule Cons.IH [OF _ Cons.prems(2) _ 2]) (use Cons.prems d(1) in auto)
  then show ?case using d 3 by auto
qed simp

section \<open>What healing does\<close>

lemma heal_ok:
  assumes "rows_ok (rows (rc_events st))" and "dr_field rec \<noteq> ''groupId''" and "heal ev rec st = (st', True)"
  shows "rows_ok (rows (rc_events st'))"
    and "stored_field (rows (rc_events st')) h k =
         (if h = dr_groupId rec \<and> k = dr_field rec then Some (dr_onChainValue rec) else stored_field (rows (rc_events st)) h k)"
proof -
  obtain r0 db where r0: "ev_findFirst ev (rc_events st) (dr_groupId rec) = Inr (Some r0)"
    and db: "ev_update ev (rc_events st) (ev_id r0) (with_field (ev_data r0) (dr_field rec) (dr_onChainValue rec)) = Inr db"
    and st': "st' = st\<lparr>rc_events := db\<rparr>"
    using assms(3) by (auto simp: heal_def split: sum.splits option.splits)
  have l: "latest_for (rows (rc_events st)) (dr_groupId rec) r0" by (rule first_some [OF r0])
  then have "r0 \<in> set (rows (rc_events st))" by (simp add: latest_for_def)
  moreover have "rows (rc_events st') = map (patched r0 (dr_field rec) (dr_onChainValue rec)) (rows (rc_events st))"
    using update_rows [OF db] by (simp add: st' set_data_patched)
  ultimately show "rows_ok (rows (rc_events st'))"
    and "stored_field (rows (rc_events st')) h k =
         (if h = dr_groupId rec \<and> k = dr_field rec then Some (dr_onChainValue rec) else stored_field (rows (rc_events st)) h k)"
    using rows_ok_patched [OF assms(1)] stored_field_patched [OF assms(1) l assms(2)] assms(2) by auto
qed

lemma heal_all_ok:
  assumes "rows_ok (rows (rc_events st))" and "\<And>rec. rec \<in> set recs \<Longrightarrow> dr_field rec \<noteq> ''groupId'' \<and> \<not> dr_healed rec"
    and "heal_all ev recs st = (st', recs')" and "list_all dr_healed recs'"
  shows "rows_ok (rows (rc_events st')) \<and>
         (\<forall>h k. stored_field (rows (rc_events st')) h k =
           (case map_of (rev (map (\<lambda>rec. ((dr_groupId rec, dr_field rec), dr_onChainValue rec)) recs)) (h, k) of
              Some v \<Rightarrow> Some v | None \<Rightarrow> stored_field (rows (rc_events st)) h k))"
  using assms
proof (induction recs arbitrary: st recs')
  case (Cons rec recs)
  obtain st1 ok where h: "heal ev rec st = (st1, ok)" by (cases "heal ev rec st")
  have ok: ok using Cons.prems(2,3,4) h by (auto simp: Let_def split: prod.splits if_splits)
  let ?st1 = "st1\<lparr>reconciliationHealedTotal := reconciliationHealedTotal st1 + 1\<rparr>"
  obtain recs1 where ha: "heal_all ev recs ?st1 = (st', recs1)" "list_all dr_healed recs1"
    using Cons.prems(3,4) h ok by (auto simp: Let_def split: prod.splits)
  have f: "dr_field rec \<noteq> ''groupId''" using Cons.prems(2) by simp
  note heal = heal_ok [OF Cons.prems(1) f h [unfolded eqTrueI [OF ok]]]
  have "rows_ok (rows (rc_events ?st1))" using heal(1) by simp
  note IH = Cons.IH [OF this _ ha]
  show ?case using IH heal Cons.prems(2) by (auto simp: map_add_def split: option.splits)
qed simp

end

section \<open>A table in memory\<close>

definition list_events :: "event_row list event_ops" where
  "list_events =
     \<lparr>ev_findMany = (\<lambda>db n. Inr (take n (map ev_data (sort_key (\<lambda>r. - ev_timestamp r) db)))),
      ev_findFirst = (\<lambda>db g. Inr (List.find (has_group g) (sort_key (\<lambda>r. - ev_timestamp r) db))),
      ev_update = (\<lambda>db i d. Inr (set_data i d db))\<rparr>"

lemma find_first_sorted:
  assumes "sorted (map k xs)" and "List.find P xs = Some x" and "y \<in> set xs" and "P y"
  shows "k x \<le> (k y :: 'a::linorder)"
  using assms by (induction xs) (auto split: if_splits)

interpretation listed: event_table list_events "\<lambda>db. db"
proof unfold_locales
  show "\<not> has_group g r" if "ev_findFirst list_events db g = Inr None" "r \<in> set db" for db g r
    using that by (auto simp: list_events_def find_None_iff)
  show "latest_for db g r" if "ev_findFirst list_events db g = Inr (Some r)" for db g r
  proof -
    have find: "List.find (has_group g) (sort_key (\<lambda>r. - ev_timestamp r) db) = Some r"
      using that by (simp add: list_events_def)
    then have "r \<in> set (sort_key (\<lambda>r. - ev_timestamp r) db)" "has_group g r"
      using find_SomeD [OF find] by simp_all
    moreover have "- ev_timestamp r \<le> - ev_timestamp r'" if "r' \<in> set db" "has_group g r'" for r'
      by (rule find_first_sorted [OF _ find]) (use that in auto)
    ultimately show ?thesis by (auto simp: latest_for_def list_all_iff)
  qed
qed (simp add: list_events_def)

section \<open>Properties of the job\<close>

lemma recon_run_cases:
  assumes "recon_run fmt ev kv cfg now get_group st = (st', Inr res)"
  obtains (none) "sampleGroupIds ev cfg st = Inr []" "rc_events st' = rc_events st" "rs_drifted res = []"
    | (some) gs st1 found st2 where "sampleGroupIds ev cfg st = Inr gs" "gs \<noteq> []"
        "diff_all fmt ev kv cfg now get_group gs st = (st1, Inr found)" "heal_all ev found st1 = (st2, rs_drifted res)"
        "rc_events st' = rc_events st2"
  using assms by (auto simp: recon_run_def Let_def split: sum.splits if_splits prod.splits)

text \<open>Once the stored fields are overwritten by the records of all drifts, nothing drifts.\<close>

lemma overwritten_no_drift:
  assumes found: "\<And>rec. rec \<in> set found \<longleftrightarrow> (\<exists>g \<in> set gs. drifts fmt get_group R g rec)" and "g \<in> set gs"
    and sf: "\<And>k. stored_field R' g k =
         (case map_of (rev (map (\<lambda>rec. ((dr_groupId rec, dr_field rec), dr_onChainValue rec)) found)) (g, k) of
            Some v \<Rightarrow> Some v | None \<Rightarrow> stored_field R g k)"
  shows "\<not> drifts fmt get_group R' g rec"
proof
  assume d: "drifts fmt get_group R' g rec"
  let ?m = "map_of (rev (map (\<lambda>rec. ((dr_groupId rec, dr_field rec), dr_onChainValue rec)) found)) (g, dr_field rec)"
  show False
  proof (cases ?m)
    case None
    then have "drifts fmt get_group R g rec" using d sf [of "dr_field rec"] by (simp add: drifts_def)
    then have "rec \<in> set found" using found assms(2) by blast
    moreover have "dr_groupId rec = g" using d by (simp add: drifts_def)
    ultimately show False using None by (force simp: map_of_eq_None_iff)
  next
    case (Some v)
    then obtain rec' where rec': "rec' \<in> set found" "dr_groupId rec' = g" "dr_field rec' = dr_field rec" "v = dr_onChainValue rec'"
      by (auto dest!: map_of_SomeD)
    then have "drifts fmt get_group R g rec'" using found by (auto simp: drifts_def)
    then have "dr_onChainValue rec' = dr_onChainValue rec"
      using d rec'(3) by (auto simp: drifts_def split: sum.splits option.splits)
    then show False using d sf [of "dr_field rec"] Some rec'(4) by (auto simp: drifts_def)
  qed
qed

text \<open>C5. A run converges. Suppose ids of events are unique and no two events of one group have the same time stamp, and a run
  against a configured contract had all its chain reads answered and healed every record it reported. Then comparing any
  of its groups again with the same chain state finds no drift. Without distinct time stamps it could: which of two
  latest rows the query for the latest event returns is then not determined, so healing may write into the other one.\<close>

theorem reconciliation_converges:
  assumes "event_table ev rows" and "rows_ok (rows (rc_events st))" and "configured cfg"
    and "\<forall>g. \<exists>r. get_group g = Inr r" and "sampleGroupIds ev cfg st = Inr gs" and "g \<in> set gs"
    and "recon_run fmt ev kv cfg now get_group st = (st', Inr res)" and "list_all dr_healed (rs_drifted res)"
    and "diffGroup fmt ev kv cfg later get_group g st' = (st'', Inr ds)"
  shows "ds = []"
  using assms(7)
proof (cases rule: recon_run_cases)
  case none
  then show ?thesis using assms(5,6) by simp
next
  case (some gs' st1 found st2)
  have reads: "\<exists>r. get_group g = Inr r" for g using assms(4) by blast
  have gs: "gs' = gs" using some(1) assms(5) by simp
  let ?R = "\<lambda>st. rows (rc_events st)"
  have all: "rc_events st1 = rc_events st \<and>
      (\<forall>rec. rec \<in> set found \<longleftrightarrow> (\<exists>g \<in> set gs. drifts fmt get_group (?R st) g rec))"
    by (rule event_table.diff_all_drifts [OF assms(1,2,3) reads some(3) [unfolded gs]])
  have same: "rc_events st1 = rc_events st" using all by blast
  have fld: "dr_field rec \<noteq> ''groupId'' \<and> \<not> dr_healed rec" if "rec \<in> set found" for rec
    using that all by (auto simp: drifts_def COMPARABLE_FIELDS_def)
  have "rows_ok (?R st1)" using assms(2) all by simp
  note healed = event_table.heal_all_ok [OF assms(1) this fld some(4) assms(8)]
  obtain r where r: "get_group g = Inr r" using reads by blast
  have ok': "rows_ok (?R st')" using healed some(5) by simp
  have "\<not> drifts fmt get_group (?R st') g rec" for rec
    by (rule overwritten_no_drift [where R = "?R st" and gs = gs and found = found])
      (use all assms(6) healed some(5) in \<open>simp_all add: same split: option.split\<close>)
  then show ?thesis
    using event_table.diffGroup_drifts(2) [where get_group = get_group and g = g, OF assms(1) ok' assms(3) r assms(9)]
    by (cases ds) auto
qed

definition sample_row :: event_row where
  "sample_row = \<lparr>ev_id = ''e1'', ev_timestamp = 5, ev_data = JObj [(''groupId'', JStr ''g''), (''memberCount'', JNum 3)]\<rparr>"

definition sample_recon :: "(event_row list, mem_kv) recon" where
  "sample_recon = \<lparr>rc_events = [sample_row], rc_cache = \<lparr>cs_db = [], cs_hits = 0, cs_misses = 0, cacheHitsTotal = 0,
     cacheMissesTotal = 0, cacheInvalidationsTotal = []\<rparr>, reconciliationDriftTotal = 0, reconciliationHealedTotal = 0,
     reconciliationRunsTotal = [], reconciliationLastRunTs = 0, reconciliationAlertActive = 0, rc_fallbacks = [], rc_staleReads = 0\<rparr>"

definition sample_chain :: "string \<Rightarrow> thrown + json option" where
  "sample_chain g = Inr (Some (JObj [(''memberCount'', JNum 4)]))"

definition sample_config :: ReconciliationConfig where
  "sample_config = (DEFAULT_CONFIG (Some ''C1''))"

lemmas recon_eval = recon_run_def sampleGroupIds_def sample_recon_def sample_row_def sample_chain_def sample_config_def
  DEFAULT_CONFIG_def list_events_def event_group_def json_field_def sample_take_def diffGroup_def has_group_def
  fetchOnChainGroupState_def COMPARABLE_FIELDS_def field_drift_def heal_def set_data_def with_field_def Let_def

lemma diff_listed_answers: "\<exists>st' ds. diffGroup fmt list_events kv cfg now get_group g st = (st', Inr ds)"
  by (auto simp: diffGroup_def list_events_def split: option.split prod.split)

theorem reconciliation_converges_witness:
  "\<exists>st' res st''. recon_run (\<lambda>_. []) list_events mem_store sample_config 10 sample_chain sample_recon = (st', Inr res) \<and>
     length (rs_drifted res) = 1 \<and> diffGroup (\<lambda>_. []) list_events mem_store sample_config 20 sample_chain ''g'' st' = (st'', Inr [])"
proof -
  obtain st' res where run: "recon_run (\<lambda>_. []) list_events mem_store sample_config 10 sample_chain sample_recon = (st', Inr res)"
      "length (rs_drifted res) = 1" "list_all dr_healed (rs_drifted res)"
    by (simp add: recon_eval)
  moreover have "sampleGroupIds list_events sample_config sample_recon = Inr [''g'']" by (simp add: recon_eval)
  moreover obtain st'' ds where ds: "diffGroup (\<lambda>_. []) list_events mem_store sample_config 20 sample_chain ''g'' st' = (st'', Inr ds)"
    using diff_listed_answers by metis
  moreover have "rows_ok (rc_events sample_recon)" "configured sample_config" "\<forall>g. \<exists>r. sample_chain g = Inr r"
    by (simp_all add: rows_ok_def configured_def recon_eval)
  ultimately have "ds = []"
    using reconciliation_converges [OF listed.event_table_axioms, of sample_recon sample_config sample_chain "[''g'']" "''g''"
        "\<lambda>_. []" mem_store 10 st' res 20 st'' ds] by simp
  with run ds show ?thesis by blast
qed

lemma collect_ids_props:
  assumes "distinct seen" and "length seen < n"
  shows "distinct (collect_ids n seen ds) \<and> length (collect_ids n seen ds) \<le> n"
  using assms by (induction n seen ds rule: collect_ids.induct) (auto simp: Let_def split: option.split json.split)

text \<open>The sample holds each group at most once and no more groups than configured.\<close>

theorem sample_bounds:
  assumes "sampleGroupIds ev cfg st = Inr gs"
  shows "distinct gs \<and> length gs \<le> sample_take cfg"
proof -
  have "0 < sample_take cfg" by (simp add: sample_take_def)
  with assms collect_ids_props [of "[]" "sample_take cfg"] show ?thesis
    by (auto simp: sampleGroupIds_def split: sum.splits)
qed

lemma length_heal_all: "heal_all ev recs st = (st', recs') \<Longrightarrow> length recs' = length recs"
  by (induction recs arbitrary: st recs') (auto simp: Let_def split: prod.splits if_splits)

text \<open>The alert of a run is raised exactly when the number of drifted fields reaches the threshold, and the gauge
  follows it, unless there is no group to check: then the gauge keeps the value of the last run.\<close>

theorem alert_follows_drift:
  assumes "recon_run fmt ev kv cfg now get_group st = (st', Inr res)" and "0 < driftThreshold cfg"
  shows "(rs_alertRaised res \<longleftrightarrow> driftThreshold cfg \<le> int (length (rs_drifted res))) \<and>
         reconciliationDriftTotal st' = length (rs_drifted res) \<and>
         (rs_groupsChecked res \<noteq> 0 \<longrightarrow> reconciliationAlertActive st' = (if rs_alertRaised res then 1 else 0)) \<and>
         (rs_groupsChecked res = 0 \<longrightarrow> reconciliationAlertActive st' = reconciliationAlertActive st)"
  using assms by (auto simp: recon_run_def Let_def split: sum.splits if_splits prod.splits)

lemma stopped_service_idle: "recon_tick cfg job (recon_stop s, st) = (recon_stop s, st)"
  by (simp add: recon_tick_def recon_stop_def)

text \<open>A group known only under the key \<open>group_id\<close> or \<open>group\<close> is sampled and counted as checked, but its comparison
  looks for \<open>groupId\<close> and never finds drift.\<close>

theorem snake_case_groups_unchecked:
  assumes "event_table ev rows" and "\<forall>r \<in> set (rows (rc_events st)). \<not> has_group g r"
    and "diffGroup fmt ev kv cfg now get_group g st = (st', Inr ds)"
  shows "ds = []"
proof -
  have "ev_findFirst ev (rc_events st) g \<noteq> Inr (Some r)" for r
    using event_table.first_some [OF assms(1)] assms(2) by (auto simp: latest_for_def)
  with assms(3) show ?thesis by (auto simp: diffGroup_def split: sum.splits option.splits)
qed



end
