(* ===== verification/Reminders.thy ===== *)
theory Reminders
  imports Js_Values
begin

text \<open>
  Reminder scheduling, \<open>backend/src/services/reminder_scheduler.ts\<close>. The data base of time zones behind
  \<open>Intl.DateTimeFormat\<close> is the argument \<open>tz\<close>: the offset of a zone from UTC in minutes at an instant, or \<open>None\<close>
  for a name that makes \<open>Intl\<close> throw. An \<open>Invalid Date\<close> is \<open>None\<close>, as is \<open>NaN\<close>, and comparisons with it are
  false. \<open>Number\<close> reads decimal integers; the other numerals it accepts do not occur in the format \<open>HH:mm\<close> and
  count as \<open>NaN\<close>. Lead times are whole hours.
\<close>

section \<open>Numbers\<close>

definition nth_number :: "nat \<Rightarrow> string list \<Rightarrow> int option" where
  "nth_number i ws = (if i < length ws then to_number (ws ! i) else None)"

text \<open>\<open>h * 60 + m\<close> for the two parts of \<open>HH:mm\<close>.\<close>

definition minutes_of :: "string \<Rightarrow> int option" where
  "minutes_of s =
     (let ws = split_on CHR '':'' s
      in case (nth_number 0 ws, nth_number 1 ws) of (Some h, Some m) \<Rightarrow> Some (h * 60 + m) | _ \<Rightarrow> None)"

fun num_le :: "int option \<Rightarrow> int option \<Rightarrow> bool" where
  "num_le (Some a) (Some b) = (a \<le> b)"
| "num_le _ _ = False"

section \<open>The schedule\<close>

type_synonym time_zones = "string \<Rightarrow> millis \<Rightarrow> int option"

record ReminderPreferences =
  rp_emailNotifications :: "bool option"
  rp_contributionReminders :: "bool option"
  rp_muteAll :: "bool option"
  rp_quietHoursStart :: "string option"
  rp_quietHoursEnd :: "string option"
  rp_preferredTimeOfDay :: "string option"
  rp_timezone :: "string option"
  rp_leadHours :: "int list option"

datatype skip_reason = opted_out | quiet_hours | in_past

record ScheduledSlot =
  sl_window :: string
  sl_leadHours :: int
  sl_scheduledTime :: "millis option"
  sl_isMuted :: bool
  sl_skipReason :: "skip_reason option"

definition isTimeInQuietHours :: "string \<Rightarrow> string \<Rightarrow> string \<Rightarrow> bool" where
  "isTimeInQuietHours timeStr quietStart quietEnd =
     (let cur = minutes_of timeStr; s = minutes_of quietStart; e = minutes_of quietEnd
      in if num_le s e then num_le s cur \<and> num_le cur e else num_le s cur \<or> num_le cur e)"

definition hh_mm :: "millis \<Rightarrow> string" where
  "hh_mm t = pad 2 (t mod MS_PER_DAY div 3600000) @ '':'' @ pad 2 (t mod MS_PER_DAY div 60000 mod 60)"

definition formatLocalTime :: "time_zones \<Rightarrow> millis option \<Rightarrow> string \<Rightarrow> string" where
  "formatLocalTime tz date timezone =
     (case date of
        None \<Rightarrow> ''NaN:NaN''
      | Some t \<Rightarrow> (case tz timezone t of Some off \<Rightarrow> hh_mm (t + off * 60000) | None \<Rightarrow> hh_mm t))"

text \<open>The year, month and day of the local date, read back by \<open>Date.UTC\<close>, are midnight UTC of that calendar day;
  \<open>Date.UTC\<close> and \<open>setUTCHours\<close> carry minutes beyond the day over.\<close>

definition day_start :: "millis \<Rightarrow> millis" where
  "day_start t = t div MS_PER_DAY * MS_PER_DAY"

definition adjustTimeForTimezone :: "time_zones \<Rightarrow> millis option \<Rightarrow> string \<Rightarrow> string \<Rightarrow> millis option" where
  "adjustTimeForTimezone tz baseDate targetTime timezone =
     (case (baseDate, minutes_of targetTime) of
        (Some base, Some target) \<Rightarrow>
          (case tz timezone base of
             Some off \<Rightarrow>
               (let utcTestDate = day_start (base + off * 60000) + target * 60000
                in case tz timezone utcTestDate of
                     Some off' \<Rightarrow>
                       (let local = (utcTestDate + off' * 60000) mod MS_PER_DAY;
                            diffMinutes = local div 3600000 * 60 + local div 60000 mod 60 - target
                        in Some (utcTestDate - diffMinutes * 60 * 1000))
                   | None \<Rightarrow> Some (day_start base + target * 60000))
           | None \<Rightarrow> Some (day_start base + target * 60000))
      | _ \<Rightarrow> None)"

definition isOptedOut :: "ReminderPreferences option \<Rightarrow> bool" where
  "isOptedOut p =
     (case p of None \<Rightarrow> False
      | Some pr \<Rightarrow> rp_contributionReminders pr = Some False \<or> rp_emailNotifications pr = Some False \<or> rp_muteAll pr = Some True)"

definition in_quiet_hours :: "time_zones \<Rightarrow> ReminderPreferences option \<Rightarrow> string \<Rightarrow> millis option \<Rightarrow> bool" where
  "in_quiet_hours tz p timezone t =
     (case p of None \<Rightarrow> False
      | Some pr \<Rightarrow> truthy (rp_quietHoursStart pr) \<and> truthy (rp_quietHoursEnd pr) \<and>
          isTimeInQuietHours (formatLocalTime tz t timezone)
            (or_default (rp_quietHoursStart pr) []) (or_default (rp_quietHoursEnd pr) []))"

definition base_time :: "time_zones \<Rightarrow> ReminderPreferences option \<Rightarrow> string \<Rightarrow> millis \<Rightarrow> int \<Rightarrow> millis option" where
  "base_time tz p timezone deadline leadHours =
     (let t = Some (deadline - leadHours * 60 * 60 * 1000); pref = Option.bind p rp_preferredTimeOfDay
      in if truthy pref then adjustTimeForTimezone tz t (or_default pref []) timezone else t)"

definition schedule_slot ::
  "time_zones \<Rightarrow> ReminderPreferences option \<Rightarrow> millis \<Rightarrow> millis \<Rightarrow> int \<Rightarrow> ScheduledSlot" where
  "schedule_slot tz p now deadline leadHours =
     (let timezone = or_default (Option.bind p rp_timezone) ''UTC'';
          t = base_time tz p timezone deadline leadHours;
          (t', skip) =
            (if isOptedOut p then (t, Some opted_out)
             else if num_le t (Some now) then (t, Some in_past)
             else if in_quiet_hours tz p timezone t then
               (let shifted = adjustTimeForTimezone tz t (or_default (Option.bind p rp_quietHoursEnd) []) timezone
                in (shifted, if num_le shifted (Some now) then Some in_past else None))
             else (t, None))
      in \<lparr>sl_window = string_of_int leadHours @ ''h'', sl_leadHours = leadHours, sl_scheduledTime = t',
          sl_isMuted = (skip \<noteq> None), sl_skipReason = skip\<rparr>)"

definition calculateReminderSchedules ::
  "time_zones \<Rightarrow> ReminderPreferences option \<Rightarrow> millis \<Rightarrow> millis \<Rightarrow> ScheduledSlot list" where
  "calculateReminderSchedules tz p now deadline =
     map (schedule_slot tz p now deadline) (or_default (Option.bind p rp_leadHours) [48, 24])"

section \<open>Lemmas\<close>

lemma trim_digits: "list_all is_digit w \<Longrightarrow> trim w = w"
proof -
  assume d: "list_all is_digit w"
  have drop: "dropWhile is_space v = v" if "list_all is_digit v" for v
    using that by (cases v) (auto dest: digit_not_space)
  have "list_all is_digit (rev w)" using d by (simp add: list_all_iff)
  then show ?thesis using d by (simp add: trim_def drop)
qed

lemma to_number_digits:
  assumes "list_all is_digit w" and "w \<noteq> []"
  shows "to_number w = Some (int (digits_value 0 w))"
  using assms parse_sign_digits [of w] by (simp add: to_number_def trim_digits list_all_iff Let_def)

lemma pad_two:
  assumes "0 \<le> n" "n < 60"
  shows "pad 2 n = [digit_char (nat n div 10), digit_char (nat n mod 10)]"
proof (cases "n < 10")
  case True
  then have "string_of_int n = [digit_char (nat n)]" using assms by (simp add: string_of_int_def string_of_nat.simps)
  moreover have "digit_char 0 = CHR ''0''" by code_simp
  ultimately show ?thesis using True assms by (simp add: pad_def Let_def div_less mod_less)
next
  case False
  then have "\<not> nat n < 10" "nat n div 10 < 10" using assms by auto
  then have "string_of_int n = [digit_char (nat n div 10), digit_char (nat n mod 10)]"
    using assms by (simp add: string_of_int_def string_of_nat.simps [of "nat n"] string_of_nat.simps [of "nat n div 10"])
  then show ?thesis by (simp add: pad_def Let_def)
qed

lemma to_number_pad:
  assumes "0 \<le> n" "n < 60"
  shows "to_number (pad 2 n) = Some n" "CHR '':'' \<notin> set (pad 2 n)"
proof -
  have d: "nat n div 10 < 10" "nat n mod 10 < 10" using assms by auto
  then show "to_number (pad 2 n) = Some n"
    using assms by (subst to_number_digits) (simp_all add: pad_two)
  have "\<not> is_digit CHR '':''" by code_simp
  moreover have "list_all is_digit (pad 2 n)" using assms d by (simp add: pad_two)
  ultimately show "CHR '':'' \<notin> set (pad 2 n)" by (auto simp: list_all_iff)
qed

text \<open>The minute of the day of an instant, which \<open>HH:mm\<close> prints and \<open>minutes_of\<close> reads back.\<close>

definition minute_of_day :: "millis \<Rightarrow> int" where
  "minute_of_day t = t mod MS_PER_DAY div 60000"

lemma minute_of_day_bounds: "0 \<le> minute_of_day t" "minute_of_day t < 1440"
  by (simp_all add: minute_of_day_def MS_PER_DAY_def)

lemma hour_minute: "t mod MS_PER_DAY div 3600000 * 60 + t mod MS_PER_DAY div 60000 mod 60 = minute_of_day t"
proof -
  have "r div 3600000 = r div 60000 div 60" for r :: int by (simp add: zdiv_zmult2_eq [symmetric])
  then show ?thesis by (simp add: minute_of_day_def)
qed

lemma minutes_of_hh_mm: "minutes_of (hh_mm t) = Some (minute_of_day t)"
proof -
  define h m where "h = t mod MS_PER_DAY div 3600000" and "m = t mod MS_PER_DAY div 60000 mod 60"
  have b: "0 \<le> h" "h < 60" "0 \<le> m" "m < 60"
    by (simp_all add: h_def m_def MS_PER_DAY_def)
  have "split_on CHR '':'' (hh_mm t) = [pad 2 h, pad 2 m]"
    using to_number_pad(2) b by (simp add: hh_mm_def split_on_word_append split_on_no_sep flip: h_def m_def)
  then have "minutes_of (hh_mm t) = Some (h * 60 + m)"
    using to_number_pad(1) b by (simp add: minutes_of_def nth_number_def Let_def)
  then show ?thesis by (simp add: h_def m_def hour_minute)
qed

lemma minute_of_day_shift:
  assumes "0 \<le> m" "m < 1440"
  shows "minute_of_day (k * MS_PER_DAY + m * 60000) = m" "day_start (k * MS_PER_DAY + m * 60000) = k * MS_PER_DAY"
proof -
  have "0 \<le> m * 60000" "m * 60000 < MS_PER_DAY" using assms by (simp_all add: MS_PER_DAY_def)
  then show "minute_of_day (k * MS_PER_DAY + m * 60000) = m" "day_start (k * MS_PER_DAY + m * 60000) = k * MS_PER_DAY"
    by (simp_all add: minute_of_day_def day_start_def MS_PER_DAY_def)
qed

section \<open>Properties\<close>

text \<open>Quiet hours are an interval of the clock. For valid times the two cases of the code, an interval inside
  a day and one over midnight, together say that the time is no further after the start than the end is,
  counted around the clock; both ends belong to the interval.\<close>

theorem quiet_hours_circular:
  assumes "minutes_of timeStr = Some c" "minutes_of quietStart = Some s" "minutes_of quietEnd = Some e"
    and "0 \<le> c" "c < 1440" "0 \<le> s" "s < 1440" "0 \<le> e" "e < 1440"
  shows "isTimeInQuietHours timeStr quietStart quietEnd \<longleftrightarrow> (c - s) mod 1440 \<le> (e - s) mod 1440"
proof -
  have m: "(x - s) mod 1440 = (if s \<le> x then x - s else x - s + 1440)" if "0 \<le> x" "x < 1440" for x
    using that assms(6,7) mod_add_self2 [of "x - s" 1440] by (auto simp: mod_pos_pos_trivial simp del: mod_add_self2)
  show ?thesis using assms(4-9) by (auto simp: isTimeInQuietHours_def assms(1-3) m Let_def)
qed

theorem quiet_hours_circular_witness:
  "isTimeInQuietHours (hh_mm 84600000) (hh_mm 79200000) (hh_mm 25200000) \<and>
   \<not> isTimeInQuietHours (hh_mm 43200000) (hh_mm 79200000) (hh_mm 25200000)"
  using quiet_hours_circular [of "hh_mm 84600000" 1410 "hh_mm 79200000" 1320 "hh_mm 25200000" 420]
    quiet_hours_circular [of "hh_mm 43200000" 720 "hh_mm 79200000" 1320 "hh_mm 25200000" 420]
  by (simp add: minutes_of_hh_mm minute_of_day_def MS_PER_DAY_def)

lemma adjusted_local:
  assumes "\<forall>t. tz z t = Some off" and "minutes_of target = Some T" "0 \<le> T" "T < 1440"
  shows "\<exists>t. adjustTimeForTimezone tz (Some base) target z = Some t \<and>
           minute_of_day (t + off * 60000) = T \<and>
           day_start (t + off * 60000) = day_start (base + off * 60000) + (T + off) div 1440 * MS_PER_DAY"
proof -
  define d where "d = (base + off * 60000) div MS_PER_DAY"
  define q r where "q = (T + off) div 1440" and "r = (T + off) mod 1440"
  have qr: "T + off = q * 1440 + r" "0 \<le> r" "r < 1440" by (simp_all add: q_def r_def)
  have test: "day_start (base + off * 60000) + T * 60000 + off * 60000 = (d + q) * MS_PER_DAY + r * 60000"
    using qr(1) by (simp add: day_start_def d_def MS_PER_DAY_def algebra_simps)
  have "minute_of_day ((d + q) * MS_PER_DAY + r * 60000) = r" using qr by (intro minute_of_day_shift)
  then have adj: "adjustTimeForTimezone tz (Some base) target z = Some (d * MS_PER_DAY + T * 60000 - (r - T) * 60000)"
    using assms(1,2) hour_minute [of "(d + q) * MS_PER_DAY + r * 60000"]
    by (simp add: adjustTimeForTimezone_def Let_def test) (simp add: day_start_def d_def)
  have loc: "d * MS_PER_DAY + T * 60000 - (r - T) * 60000 + off * 60000 = (d + q) * MS_PER_DAY + T * 60000"
    using qr(1) by (simp add: MS_PER_DAY_def algebra_simps)
  have "minute_of_day ((d + q) * MS_PER_DAY + T * 60000) = T"
      "day_start ((d + q) * MS_PER_DAY + T * 60000) = (d + q) * MS_PER_DAY"
    using minute_of_day_shift [OF assms(3,4)] by blast+
  then have "minute_of_day (d * MS_PER_DAY + T * 60000 - (r - T) * 60000 + off * 60000) = T"
      "day_start (d * MS_PER_DAY + T * 60000 - (r - T) * 60000 + off * 60000) =
       day_start (base + off * 60000) + (T + off) div 1440 * MS_PER_DAY"
    unfolding loc by (simp_all only: day_start_def [of "base + off * 60000"] distrib_right flip: d_def q_def)
  with adj show ?thesis by blast
qed

text \<open>The adjusted time in a zone with a fixed offset of \<open>o\<close> minutes. It always shows the target time of day
  on the local clock, but it lies on the local day of the base date only when the target plus the offset stays
  within a day: otherwise it is as many days off as that sum is outside, a day late for \<open>22:00\<close> in a zone nine
  hours ahead of UTC, a day early for \<open>02:00\<close> in one five hours behind.\<close>

theorem adjusted_time_of_day:
  assumes "\<forall>t. tz z t = Some off" and "minutes_of target = Some T" "0 \<le> T" "T < 1440"
  shows "\<exists>t. adjustTimeForTimezone tz (Some base) target z = Some t \<and>
           minute_of_day (t + off * 60000) = T \<and>
           day_start (t + off * 60000) = day_start (base + off * 60000) + (T + off) div 1440 * MS_PER_DAY"
  using adjusted_local [of tz z off target T base] assms by simp

theorem adjusted_time_of_day_witness:
  "\<exists>t. adjustTimeForTimezone (\<lambda>_ _. Some 540) (Some 0) (hh_mm 79200000) ''Asia/Tokyo'' = Some t \<and>
     day_start (t + 540 * 60000) = day_start (0 + 540 * 60000) + MS_PER_DAY"
  using adjusted_time_of_day [of "\<lambda>_ _. Some 540" "''Asia/Tokyo''" 540 "hh_mm 79200000" 1320 0]
  by (simp add: minutes_of_hh_mm minute_of_day_def MS_PER_DAY_def) blast

lemma schedule_slot_simps:
  "sl_leadHours (schedule_slot tz p now deadline lh) = lh"
  "sl_isMuted (schedule_slot tz p now deadline lh) \<longleftrightarrow> sl_skipReason (schedule_slot tz p now deadline lh) \<noteq> None"
  "sl_skipReason (schedule_slot tz p now deadline lh) = Some opted_out \<longleftrightarrow> isOptedOut p"
  "sl_skipReason (schedule_slot tz p now deadline lh) = None \<Longrightarrow>
     \<not> num_le (sl_scheduledTime (schedule_slot tz p now deadline lh)) (Some now)"
  by (simp_all add: schedule_slot_def Let_def split: prod.split if_splits)

text \<open>The schedule. There is one slot per lead time, in order; a slot is muted exactly when it has a reason to be
  skipped, all are when the member opted out, and a slot that is sent has a time that is not in the past.\<close>

theorem schedule_slots:
  "map sl_leadHours (calculateReminderSchedules tz p now deadline) = or_default (Option.bind p rp_leadHours) [48, 24] \<and>
   list_all (\<lambda>sl. (sl_isMuted sl \<longleftrightarrow> sl_skipReason sl \<noteq> None) \<and> (isOptedOut p \<longleftrightarrow> sl_skipReason sl = Some opted_out) \<and>
                  (sl_isMuted sl \<or> \<not> num_le (sl_scheduledTime sl) (Some now)))
     (calculateReminderSchedules tz p now deadline)"
  by (auto simp: calculateReminderSchedules_def list_all_iff o_def schedule_slot_simps)

text \<open>The shift to the end of the quiet hours stays on the same day: for quiet hours over midnight, a reminder due
  before midnight is moved back to the morning before, not on to the next one.\<close>

theorem quiet_shift_goes_back:
  assumes "\<forall>t. tz z t = Some 0" and "minutes_of quietEnd = Some e" "0 \<le> e" and "e < minute_of_day t"
  shows "\<exists>t'. adjustTimeForTimezone tz (Some t) quietEnd z = Some t' \<and> minute_of_day t' = e \<and> day_start t' = day_start t \<and> t' < t"
proof -
  have e: "e < 1440" using assms(4) minute_of_day_bounds [of t] by simp
  then have "e div 1440 = 0" using assms(3) by simp
  then obtain t' where t': "adjustTimeForTimezone tz (Some t) quietEnd z = Some t'" "minute_of_day t' = e" "day_start t' = day_start t"
    using adjusted_local [of tz z 0 quietEnd e t] assms(1-3) e by auto
  have parts: "day_start x \<le> x" "minute_of_day x * 60000 \<le> x - day_start x" "x - day_start x < (minute_of_day x + 1) * 60000" for x
  proof -
    have r: "x - day_start x = x mod MS_PER_DAY" by (simp add: day_start_def minus_div_mult_eq_mod)
    then show "minute_of_day x * 60000 \<le> x - day_start x" "x - day_start x < (minute_of_day x + 1) * 60000"
      using div_mult_mod_eq [of "x mod MS_PER_DAY" 60000] pos_mod_sign [of 60000 "x mod MS_PER_DAY"]
        pos_mod_bound [of 60000 "x mod MS_PER_DAY"]
      unfolding r minute_of_day_def distrib_right by linarith+
    show "day_start x \<le> x" using r pos_mod_sign [of MS_PER_DAY x] by (simp add: MS_PER_DAY_def)
  qed
  have "t' < t" using parts [of t'] parts [of t] t'(2,3) assms(4) by auto
  with t' show ?thesis by blast
qed

end
