(* ===== verification/Fraud.thy ===== *)
theory Fraud
  imports Js_Values
begin

text \<open>
  Fraud detection, \<open>backend/src/fraud_detection_service.ts\<close>: the scores of accounts and groups, the scan, and the
  table of flags. What the event table answers to the queries of the service is the argument \<open>fraud_events\<close>, one
  field per query; the flag table is the list of its rows, and whether an upsert fails is an argument. A reason
  is the kind of pattern with the numbers its text shows; scores and averages are exact rationals.
\<close>

section \<open>Data\<close>

datatype entityType = account | group_entity

datatype reason = Sybil nat rat | RapidCycle rat | Outliers nat rat

record evidence =
  recentGroupCreations :: "nat option"
  lifespanHours :: "rat option"
  avgContribution :: "rat option"
  outlierCount :: "nat option"

record FraudScore =
  fs_entityType :: entityType
  fs_entityId :: string
  fs_riskScore :: rat
  fs_reasons :: "reason list"
  fs_evidence :: evidence

record fraud_config =
  sybilThreshold :: int
  rapidCycleHours :: rat
  outlierFactor :: rat

record fraud_events =
  fe_creations :: "string \<Rightarrow> rat \<Rightarrow> nat"
  fe_created :: "string \<Rightarrow> millis option"
  fe_closed :: "string \<Rightarrow> millis option"
  fe_contributions :: "string \<Rightarrow> json list"
  fe_recent :: "millis \<Rightarrow> json list"

definition HIGH_RISK_THRESHOLD :: rat where
  "HIGH_RISK_THRESHOLD = 7 / 10"

definition no_evidence :: evidence where
  "no_evidence = \<lparr>recentGroupCreations = None, lifespanHours = None, avgContribution = None, outlierCount = None\<rparr>"

section \<open>Scoring\<close>

definition scoreAccount :: "fraud_config \<Rightarrow> fraud_events \<Rightarrow> millis \<Rightarrow> string \<Rightarrow> FraudScore" where
  "scoreAccount cfg db now addr =
     (let since = of_int now - rapidCycleHours cfg * 60 * 60 * 1000;
          recentCreations = fe_creations db addr since;
          sybil = (int recentCreations > sybilThreshold cfg)
      in \<lparr>fs_entityType = account, fs_entityId = addr,
          fs_riskScore = (if sybil then min 1 (0 + 1 / 2 + of_int (int recentCreations - sybilThreshold cfg) * (1 / 10)) else 0),
          fs_reasons = (if sybil then [Sybil recentCreations (rapidCycleHours cfg)] else []),
          fs_evidence = no_evidence\<lparr>recentGroupCreations := Some recentCreations\<rparr>\<rparr>)"

definition lifespan :: "fraud_events \<Rightarrow> string \<Rightarrow> rat option" where
  "lifespan db g =
     (case (fe_created db g, fe_closed db g) of
        (Some c, Some d) \<Rightarrow> Some (of_int (d - c) / 3600000) | _ \<Rightarrow> None)"

definition amounts_of :: "json list \<Rightarrow> rat list" where
  "amounts_of ds = filter (\<lambda>a. a > 0)
     (List.map_filter (\<lambda>d. json_number (case json_field d ''amount'' of None \<Rightarrow> JNum 0 | Some v \<Rightarrow> if v = JNull then JNum 0 else v)) ds)"

definition average :: "rat list \<Rightarrow> rat option" where
  "average xs = (if xs = [] then None else Some (sum_list xs / rat_of_nat (length xs)))"

definition outliers :: "fraud_config \<Rightarrow> rat list \<Rightarrow> rat list" where
  "outliers cfg amounts = (case average amounts of None \<Rightarrow> [] | Some avg \<Rightarrow> filter (\<lambda>a. a > avg * outlierFactor cfg) amounts)"

definition scoreGroup :: "fraud_config \<Rightarrow> fraud_events \<Rightarrow> string \<Rightarrow> FraudScore" where
  "scoreGroup cfg db groupId =
     (let life = lifespan db groupId;
          rapid = (case life of None \<Rightarrow> False | Some h \<Rightarrow> h < rapidCycleHours cfg);
          score1 = (if rapid then min 1 (0 + 4 / 10) else (0::rat));
          reasons1 = (if rapid then [RapidCycle (or_default life 0)] else []);
          ev1 = no_evidence\<lparr>lifespanHours := life\<rparr>;
          contributions = fe_contributions db groupId
      in if length contributions > 1 then
           (let amounts = amounts_of contributions; outs = outliers cfg amounts
            in \<lparr>fs_entityType = group_entity, fs_entityId = groupId,
                fs_riskScore = (if outs \<noteq> [] then min 1 (score1 + 3 / 10) else score1),
                fs_reasons = reasons1 @ (if outs \<noteq> [] then [Outliers (length outs) (outlierFactor cfg)] else []),
                fs_evidence = ev1\<lparr>avgContribution := average amounts, outlierCount := Some (length outs)\<rparr>\<rparr>)
         else \<lparr>fs_entityType = group_entity, fs_entityId = groupId, fs_riskScore = score1, fs_reasons = reasons1,
               fs_evidence = ev1\<rparr>)"

section \<open>Flags\<close>

record FraudFlag =
  ff_id :: string
  ff_score :: FraudScore
  ff_status :: "string option"
  ff_reviewedBy :: "string option"

definition pending_id :: "FraudScore \<Rightarrow> string" where
  "pending_id s = (case fs_entityType s of account \<Rightarrow> ''account'' | group_entity \<Rightarrow> ''group'') @ '':'' @ fs_entityId s @ '':pending''"

text \<open>When the upsert fails, the flag is created under an id of the database.\<close>

definition persistFlag :: "(string \<Rightarrow> bool) \<Rightarrow> string \<Rightarrow> FraudScore \<Rightarrow> FraudFlag list \<Rightarrow> FraudFlag list" where
  "persistFlag fails fresh s flags =
     (let row = (\<lambda>i. \<lparr>ff_id = i, ff_score = s, ff_status = None, ff_reviewedBy = None\<rparr>)
      in if fails (pending_id s) then flags @ [row fresh]
         else if List.find (\<lambda>f. ff_id f = pending_id s) flags = None then flags @ [row (pending_id s)]
         else update_first (\<lambda>f. ff_id f = pending_id s) (\<lambda>f. f\<lparr>ff_score := s\<rparr>) flags)"

text \<open>Newest first; rows are in the order of their creation.\<close>

definition getFlags :: "string option \<Rightarrow> FraudFlag list \<Rightarrow> FraudFlag list" where
  "getFlags status flags = rev (if truthy status then filter (\<lambda>f. ff_status f = status) flags else flags)"

definition fraud_reviewFlag :: "string \<Rightarrow> string \<Rightarrow> string \<Rightarrow> FraudFlag list \<Rightarrow> FraudFlag list option" where
  "fraud_reviewFlag i status reviewer flags =
     (if List.find (\<lambda>f. ff_id f = i) flags = None then None
      else Some (update_first (\<lambda>f. ff_id f = i) (\<lambda>f. f\<lparr>ff_status := Some status, ff_reviewedBy := Some reviewer\<rparr>) flags))"

section \<open>The scan\<close>

definition scanned :: "(rat \<Rightarrow> string) \<Rightarrow> string \<Rightarrow> json list \<Rightarrow> string list" where
  "scanned fmt key events =
     js_set (List.map_filter (\<lambda>d. case json_field d key of
        Some v \<Rightarrow> if json_truthy v then Some (js_String fmt v) else None | None \<Rightarrow> None) events)"

fun flag_high :: "(string \<Rightarrow> bool) \<Rightarrow> (nat \<Rightarrow> string) \<Rightarrow> FraudScore list \<Rightarrow> FraudFlag list \<Rightarrow> FraudFlag list \<times> FraudScore list" where
  "flag_high fails fresh [] flags = (flags, [])"
| "flag_high fails fresh (s # ss) flags =
     (if fs_riskScore s \<ge> HIGH_RISK_THRESHOLD
      then (case flag_high fails fresh ss (persistFlag fails (fresh (length flags)) s flags) of
              (flags', out) \<Rightarrow> (flags', s # out))
      else flag_high fails fresh ss flags)"

definition runScan ::
  "(rat \<Rightarrow> string) \<Rightarrow> (string \<Rightarrow> bool) \<Rightarrow> (nat \<Rightarrow> string) \<Rightarrow> fraud_config \<Rightarrow> fraud_events \<Rightarrow> millis \<Rightarrow> FraudFlag list \<Rightarrow>
   FraudFlag list \<times> FraudScore list" where
  "runScan fmt fails fresh cfg db now flags =
     (let recentEvents = fe_recent db (now - 24 * 60 * 60 * 1000);
          accounts = scanned fmt ''creator'' recentEvents; gs = scanned fmt ''group_id'' recentEvents
      in flag_high fails fresh (map (scoreAccount cfg db now) accounts @ map (scoreGroup cfg db) gs) flags)"

section \<open>Lemmas\<close>

definition high_risk :: "FraudScore \<Rightarrow> bool" where
  "high_risk s \<longleftrightarrow> HIGH_RISK_THRESHOLD \<le> fs_riskScore s"

lemma flag_high_result: "snd (flag_high fails fresh ss flags) = filter high_risk ss"
  by (induction fails fresh ss flags rule: flag_high.induct) (auto simp: high_risk_def split: prod.splits)

lemma persistFlag_stores: "s \<in> ff_score ` set (persistFlag fails fresh s flags)"
proof -
  have "s \<in> ff_score ` set (update_first (\<lambda>f. ff_id f = i) (\<lambda>f. f\<lparr>ff_score := s\<rparr>) flags)"
    if "List.find (\<lambda>f. ff_id f = i) flags \<noteq> None" for i
    using that by (induction flags) (auto split: if_splits)
  then show ?thesis by (auto simp: persistFlag_def Let_def)
qed

lemma sum_list_ge_member: "x \<in> set xs \<Longrightarrow> (\<And>y. y \<in> set xs \<Longrightarrow> 0 \<le> y) \<Longrightarrow> x \<le> sum_list (xs :: rat list)"
proof (induction xs)
  case (Cons y ys)
  have "0 \<le> sum_list ys" using Cons.prems(2) by (intro sum_list_nonneg) auto
  with Cons show ?case by fastforce
qed simp

section \<open>Properties\<close>

text \<open>When an account is high risk. Its score lies in the unit interval, is positive exactly above the
  configured number of recent groups, and reaches the threshold of the scan exactly at two groups above it.\<close>

theorem account_high_risk_iff:
  defines "n \<equiv> \<lambda>cfg db now a. int (fe_creations db a (of_int now - rapidCycleHours cfg * 3600000))"
  shows "0 \<le> fs_riskScore (scoreAccount cfg db now a) \<and> fs_riskScore (scoreAccount cfg db now a) \<le> 1 \<and>
         (0 < fs_riskScore (scoreAccount cfg db now a) \<longleftrightarrow> sybilThreshold cfg < n cfg db now a) \<and>
         (high_risk (scoreAccount cfg db now a) \<longleftrightarrow> sybilThreshold cfg + 2 \<le> n cfg db now a)"
proof -
  have t: "rapidCycleHours cfg * 60 * 60 * 1000 = rapidCycleHours cfg * 3600000" by simp
  define k where "k = n cfg db now a - sybilThreshold cfg"
  have sc: "fs_riskScore (scoreAccount cfg db now a) = (if 0 < k then min 1 (1 / 2 + of_int k / 10) else 0)"
    unfolding scoreAccount_def Let_def t by (simp add: k_def n_def)
  have step: "7 / 10 \<le> 1 / 2 + (of_int k :: rat) / 10 \<longleftrightarrow> 2 \<le> k"
  proof -
    have "7 / 10 \<le> 1 / 2 + (of_int k :: rat) / 10 \<longleftrightarrow> 2 \<le> (of_int k :: rat)" by (simp add: field_simps)
    then show ?thesis by simp
  qed
  have pos: "0 < k \<Longrightarrow> 0 < 1 / 2 + (of_int k :: rat) / 10" by (simp add: add_pos_pos)
  have "high_risk (scoreAccount cfg db now a) \<longleftrightarrow> 2 \<le> k"
  proof (cases "0 < k")
    case True
    have "7 / 10 \<le> (1 :: rat)" by simp
    with True step show ?thesis by (simp only: high_risk_def HIGH_RISK_THRESHOLD_def sc if_True min.bounded_iff simp_thms)
  qed (simp add: high_risk_def HIGH_RISK_THRESHOLD_def sc)
  then have "high_risk (scoreAccount cfg db now a) \<longleftrightarrow> sybilThreshold cfg + 2 \<le> n cfg db now a" unfolding k_def by linarith
  moreover have "0 < fs_riskScore (scoreAccount cfg db now a) \<longleftrightarrow> 0 < k" using sc pos by simp
  moreover have "0 \<le> fs_riskScore (scoreAccount cfg db now a)" "fs_riskScore (scoreAccount cfg db now a) \<le> 1"
    using sc pos by (simp_all add: less_imp_le)
  ultimately show ?thesis by (simp add: k_def)
qed

text \<open>When a group is high risk. A single pattern never is: it takes a life span below the limit and a
  contribution above the outlier factor times the average, among at least two contributions.\<close>

theorem group_high_risk_iff:
  "0 \<le> fs_riskScore (scoreGroup cfg db g) \<and> fs_riskScore (scoreGroup cfg db g) \<le> 7 / 10 \<and>
   (high_risk (scoreGroup cfg db g) \<longleftrightarrow>
      (\<exists>h. lifespan db g = Some h \<and> h < rapidCycleHours cfg) \<and>
      1 < length (fe_contributions db g) \<and> outliers cfg (amounts_of (fe_contributions db g)) \<noteq> [])"
  by (auto simp: scoreGroup_def high_risk_def HIGH_RISK_THRESHOLD_def Let_def split: option.split)

text \<open>Outliers need numbers: with no more positive amounts than the outlier factor, no contribution is
  an outlier, however uneven they are.\<close>

theorem few_contributions_no_outliers:
  assumes "rat_of_nat (length (amounts_of ds)) \<le> outlierFactor cfg"
  shows "outliers cfg (amounts_of ds) = []"
proof (cases "amounts_of ds = []")
  case False
  let ?xs = "amounts_of ds"
  have pos: "0 < y" if "y \<in> set ?xs" for y using that by (simp add: amounts_of_def)
  have "a \<le> sum_list ?xs / rat_of_nat (length ?xs) * outlierFactor cfg" if "a \<in> set ?xs" for a
  proof -
    have s: "a \<le> sum_list ?xs" using sum_list_ge_member [OF that] pos less_imp_le by blast
    have "0 \<le> sum_list ?xs / rat_of_nat (length ?xs)" using s pos [OF that] by simp
    then have "sum_list ?xs / rat_of_nat (length ?xs) * rat_of_nat (length ?xs) \<le>
        sum_list ?xs / rat_of_nat (length ?xs) * outlierFactor cfg"
      using assms by (rule mult_left_mono [rotated])
    then show ?thesis using s False by simp
  qed
  then show ?thesis using False by (auto simp: outliers_def average_def filter_empty_conv not_less)
qed (simp add: outliers_def average_def)

text \<open>A scan reports exactly the high-risk entities among the accounts and groups of the recent events, each
  scanned once, accounts first.\<close>

theorem scan_reports_high_risk:
  "snd (runScan fmt fails fresh cfg db now flags) =
     filter high_risk (map (scoreAccount cfg db now) (scanned fmt ''creator'' (fe_recent db (now - 86400000)))) @
     filter high_risk (map (scoreGroup cfg db) (scanned fmt ''group_id'' (fe_recent db (now - 86400000)))) \<and>
   distinct (scanned fmt ''creator'' (fe_recent db (now - 86400000))) \<and>
   distinct (scanned fmt ''group_id'' (fe_recent db (now - 86400000)))"
  by (simp add: runScan_def flag_high_result Let_def scanned_def)

text \<open>Every score the loop reports is stored in a flag at the moment it is reported.\<close>

lemma reported_is_persisted:
  assumes "high_risk s"
  shows "\<exists>flags'. flag_high fails fresh (s # ss) flags =
           (fst (flag_high fails fresh ss flags'), s # snd (flag_high fails fresh ss flags')) \<and> s \<in> ff_score ` set flags'"
  using assms persistFlag_stores [of s fails "fresh (length flags)" flags]
  by (intro exI [of _ "persistFlag fails (fresh (length flags)) s flags"]) (simp add: high_risk_def case_prod_beta)

end
