(* ===== verification/Kyc.thy ===== *)
theory Kyc
  imports Js_Values
begin

text \<open>
  Identity checks, \<open>backend/src/services/kyc.ts\<close>: submission, the stored status, polling of the provider and the
  signature of its web hooks. The two tables are the state, records by user and the list of status events. What
  the provider answers is an argument (\<open>None\<close> for an answer that is not \<open>ok\<close>); so are the clock and the HMAC. A
  status is the string the provider or the table gives.
\<close>

section \<open>Data\<close>

record KycRecord =
  kr_userId :: string
  kr_walletAddress :: string
  kr_status :: string
  kr_kycProviderId :: "string option"
  kr_submittedAt :: millis
  kr_reviewedAt :: "millis option"

record kyc_db =
  kycRecord :: "string \<rightharpoonup> KycRecord"
  kycStatusEvent :: "(string \<times> string \<times> string) list"

record KycStatusResult =
  ks_userId :: string
  ks_status :: string
  ks_kycId :: "string option"
  ks_submittedAt :: "string option"
  ks_reviewedAt :: "string option"

definition kyc_empty :: kyc_db where
  "kyc_empty = \<lparr>kycRecord = (\<lambda>_. None), kycStatusEvent = []\<rparr>"

section \<open>Operations\<close>

text \<open>The answer of the provider is \<open>None\<close>, or the \<open>id\<close> of its body, which may be missing. An upsert keeps the
  columns it does not name: the time of the first submission and of the last review.\<close>

definition submitKyc ::
  "kyc_db \<Rightarrow> millis \<Rightarrow> string option option \<Rightarrow> string \<Rightarrow> string \<Rightarrow> kyc_db \<times> KycStatusResult" where
  "submitKyc db now answer userId walletAddress =
     (let kycProviderId = Option.bind answer (\<lambda>x. x);
          rec = (case kycRecord db userId of
                   None \<Rightarrow> \<lparr>kr_userId = userId, kr_walletAddress = walletAddress, kr_status = ''pending'',
                            kr_kycProviderId = kycProviderId, kr_submittedAt = now, kr_reviewedAt = None\<rparr>
                 | Some r \<Rightarrow> r\<lparr>kr_walletAddress := walletAddress, kr_status := ''pending'', kr_kycProviderId := kycProviderId\<rparr>)
      in (db\<lparr>kycRecord := (kycRecord db)(userId \<mapsto> rec)\<rparr>,
          \<lparr>ks_userId = kr_userId rec, ks_status = kr_status rec, ks_kycId = kr_kycProviderId rec,
           ks_submittedAt = Some (toISOString (kr_submittedAt rec)), ks_reviewedAt = None\<rparr>))"

definition getKycStatus :: "kyc_db \<Rightarrow> string \<Rightarrow> KycStatusResult" where
  "getKycStatus db userId =
     (case kycRecord db userId of
        None \<Rightarrow> \<lparr>ks_userId = userId, ks_status = ''pending'', ks_kycId = None, ks_submittedAt = None, ks_reviewedAt = None\<rparr>
      | Some r \<Rightarrow> \<lparr>ks_userId = kr_userId r, ks_status = kr_status r, ks_kycId = kr_kycProviderId r,
                   ks_submittedAt = Some (toISOString (kr_submittedAt r)),
                   ks_reviewedAt = map_option toISOString (kr_reviewedAt r)\<rparr>)"

definition emitKycStatusChange :: "string \<Rightarrow> string \<Rightarrow> string \<Rightarrow> kyc_db \<Rightarrow> kyc_db" where
  "emitKycStatusChange userId oldStatus newStatus db =
     db\<lparr>kycStatusEvent := kycStatusEvent db @ [(userId, oldStatus, newStatus)]\<rparr>"

definition pollAndUpdateStatus :: "kyc_db \<Rightarrow> millis \<Rightarrow> (string \<Rightarrow> string option option) \<Rightarrow> string \<Rightarrow> kyc_db \<times> KycStatusResult" where
  "pollAndUpdateStatus db now answer userId =
     (case kycRecord db userId of
        None \<Rightarrow> (db, getKycStatus db userId)
      | Some r \<Rightarrow>
          if \<not> truthy (kr_kycProviderId r) then (db, getKycStatus db userId)
          else case answer (or_default (kr_kycProviderId r) []) of
            None \<Rightarrow> (db, getKycStatus db userId)
          | Some st \<Rightarrow>
              (let newStatus = or_default st (kr_status r);
                   db' = (if newStatus \<noteq> kr_status r
                          then (let db1 = emitKycStatusChange userId (kr_status r) newStatus db
                                in db1\<lparr>kycRecord := (kycRecord db1)(userId \<mapsto> r\<lparr>kr_status := newStatus, kr_reviewedAt := Some now\<rparr>)\<rparr>)
                          else db)
               in (db', getKycStatus db' userId)))"

text \<open>\<open>timingSafeEqual\<close> throws for buffers of different lengths, and the code answers false.\<close>

definition verifyKycWebhookSignature :: "(string \<Rightarrow> string \<Rightarrow> string) \<Rightarrow> string \<Rightarrow> string \<Rightarrow> string \<Rightarrow> bool" where
  "verifyKycWebhookSignature hmac secret rawBody signature =
     (let expected = hmac secret rawBody
      in if length expected \<noteq> length signature then False else expected = signature)"

section \<open>Histories\<close>

datatype kyc_op = Submit millis "string option option" string string | Poll millis "string \<Rightarrow> string option option" string

fun kyc_apply :: "kyc_op \<Rightarrow> kyc_db \<Rightarrow> kyc_db" where
  "kyc_apply (Submit now answer u w) db = fst (submitKyc db now answer u w)"
| "kyc_apply (Poll now answer u) db = fst (pollAndUpdateStatus db now answer u)"

definition events_for :: "string \<Rightarrow> kyc_db \<Rightarrow> (string \<times> string) list" where
  "events_for u db = map snd (filter (\<lambda>e. fst e = u) (kycStatusEvent db))"

definition status_of :: "kyc_db \<Rightarrow> string \<Rightarrow> string" where
  "status_of db u = ks_status (getKycStatus db u)"

subsection \<open>Reference\<close>

text \<open>What a history says of one user: the submissions, and the statuses that the provider gave to polls made under the id of
  the last submission. Polls without an id, and answers that fail or name no status, say nothing.\<close>

datatype observation = Submitted | Answered string

fun observations :: "string \<Rightarrow> string option \<Rightarrow> kyc_op list \<Rightarrow> observation list" where
  "observations u pid [] = []"
| "observations u pid (Submit now answer v w # ops) =
     (if v = u then Submitted # observations u (Option.bind answer (\<lambda>x. x)) ops else observations u pid ops)"
| "observations u pid (Poll now answer v # ops) =
     (if v = u \<and> truthy pid
      then (case answer (the pid) of Some (Some st) \<Rightarrow> [Answered st] | _ \<Rightarrow> []) @ observations u pid ops
      else observations u pid ops)"

fun final_status :: "string \<Rightarrow> observation list \<Rightarrow> string" where
  "final_status s [] = s"
| "final_status s (Submitted # os) = final_status ''pending'' os"
| "final_status s (Answered st # os) = final_status st os"

text \<open>The changes among the answers; a submission sets the status back without an entry.\<close>

fun status_changes :: "string \<Rightarrow> observation list \<Rightarrow> (string \<times> string) list" where
  "status_changes s [] = []"
| "status_changes s (Submitted # os) = status_changes ''pending'' os"
| "status_changes s (Answered st # os) = (if st \<noteq> s then [(s, st)] else []) @ status_changes st os"

definition provider_id :: "kyc_db \<Rightarrow> string \<Rightarrow> string option" where
  "provider_id db u = Option.bind (kycRecord db u) kr_kycProviderId"

lemma submit_effect:
  "status_of (fst (submitKyc db now answer u w)) v = (if v = u then ''pending'' else status_of db v)"
  "kycStatusEvent (fst (submitKyc db now answer u w)) = kycStatusEvent db"
  "provider_id (fst (submitKyc db now answer u w)) v = (if v = u then Option.bind answer (\<lambda>x. x) else provider_id db v)"
  by (simp_all add: submitKyc_def status_of_def getKycStatus_def provider_id_def Let_def split: option.split)

lemma poll_other:
  assumes "v \<noteq> u"
  shows "status_of (fst (pollAndUpdateStatus db now answer v)) u = status_of db u"
    and "events_for u (fst (pollAndUpdateStatus db now answer v)) = events_for u db"
    and "provider_id (fst (pollAndUpdateStatus db now answer v)) u = provider_id db u"
  using assms by (auto simp: pollAndUpdateStatus_def emitKycStatusChange_def status_of_def getKycStatus_def events_for_def
      provider_id_def Let_def split: option.splits)

lemma poll_silent:
  assumes "\<not> truthy (provider_id db u) \<or> (\<forall>st. answer (the (provider_id db u)) \<noteq> Some (Some st))"
  shows "fst (pollAndUpdateStatus db now answer u) = db"
proof (cases "kycRecord db u")
  case (Some r)
  then show ?thesis using assms
    by (cases "kr_kycProviderId r"; cases "answer (the (kr_kycProviderId r))")
      (auto simp: pollAndUpdateStatus_def provider_id_def Let_def)
qed (simp add: pollAndUpdateStatus_def)

lemma poll_answered:
  assumes "truthy (provider_id db u)" and "answer (the (provider_id db u)) = Some (Some st)"
  shows "status_of (fst (pollAndUpdateStatus db now answer u)) u = st"
    and "events_for u (fst (pollAndUpdateStatus db now answer u)) =
      events_for u db @ (if st \<noteq> status_of db u then [(status_of db u, st)] else [])"
    and "provider_id (fst (pollAndUpdateStatus db now answer u)) u = provider_id db u"
proof -
  obtain r pid where r: "kycRecord db u = Some r" "kr_kycProviderId r = Some pid" "pid \<noteq> []"
    using assms(1) by (auto simp: provider_id_def bind_eq_Some_conv elim!: truthy.elims)
  show "status_of (fst (pollAndUpdateStatus db now answer u)) u = st"
    and "events_for u (fst (pollAndUpdateStatus db now answer u)) =
      events_for u db @ (if st \<noteq> status_of db u then [(status_of db u, st)] else [])"
    and "provider_id (fst (pollAndUpdateStatus db now answer u)) u = provider_id db u"
    using r assms(2)
    by (auto simp: pollAndUpdateStatus_def emitKycStatusChange_def status_of_def getKycStatus_def events_for_def provider_id_def Let_def)
qed

lemma history_from:
  "status_of (fold kyc_apply ops db) u = final_status (status_of db u) (observations u (provider_id db u) ops) \<and>
   events_for u (fold kyc_apply ops db) = events_for u db @ status_changes (status_of db u) (observations u (provider_id db u) ops)"
proof (induction ops arbitrary: db)
  case (Cons p ops)
  show ?case
  proof (cases p)
    case (Submit now answer v w)
    then show ?thesis using Cons.IH [of "fst (submitKyc db now answer v w)"]
      by (simp add: submit_effect events_for_def)
  next
    case (Poll now answer v)
    note IH = Cons.IH [of "fst (pollAndUpdateStatus db now answer v)"]
    consider "v \<noteq> u"
      | "v = u" "\<not> truthy (provider_id db u) \<or> (\<forall>st. answer (the (provider_id db u)) \<noteq> Some (Some st))"
      | st where "v = u" "truthy (provider_id db u)" "answer (the (provider_id db u)) = Some (Some st)" by blast
    then show ?thesis
    proof cases
      case 1
      then show ?thesis using IH Poll by (simp add: poll_other)
    next
      case 2
      then show ?thesis using IH Poll by (auto simp: poll_silent split: option.splits)
    next
      case 3
      then show ?thesis using IH Poll by (simp add: poll_answered)
    qed
  qed
qed simp

text \<open>C10. What is stored of a user is what the provider said. After any sequence of submissions and polls, whatever the
  provider answers, the reported status is the provider's answer to the last poll that got one since the user's last
  submission, or else \<open>pending\<close>; and the status events are exactly the changes among the answers, in order, each from the
  status before it, where a submission sets the status back to \<open>pending\<close> without an event.\<close>

theorem kyc_history_exact:
  "status_of (fold kyc_apply ops kyc_empty) u = final_status ''pending'' (observations u None ops) \<and>
   events_for u (fold kyc_apply ops kyc_empty) = status_changes ''pending'' (observations u None ops)"
proof -
  have "status_of kyc_empty u = ''pending''" "provider_id kyc_empty u = None" "events_for u kyc_empty = []"
    by (simp_all add: kyc_empty_def status_of_def getKycStatus_def provider_id_def events_for_def)
  with history_from [of ops kyc_empty u] show ?thesis by simp
qed

text \<open>Polling writes an event and the review time exactly when the status changes, and never touches the
  records or events of other users.\<close>

theorem poll_effect:
  "let db' = fst (pollAndUpdateStatus db now answer u) in
     (status_of db' u = status_of db u \<longrightarrow> db' = db) \<and>
     (status_of db' u \<noteq> status_of db u \<longrightarrow>
        kycStatusEvent db' = kycStatusEvent db @ [(u, status_of db u, status_of db' u)]) \<and>
     (\<forall>v. v \<noteq> u \<longrightarrow> kycRecord db' v = kycRecord db v) \<and>
     snd (pollAndUpdateStatus db now answer u) = getKycStatus db' u"
  by (auto simp: pollAndUpdateStatus_def emitKycStatusChange_def status_of_def getKycStatus_def Let_def
      split: option.splits if_splits)

text \<open>A new submission takes an approved user back to \<open>pending\<close>, without a status event.\<close>

theorem resubmission_resets_silently:
  "status_of (fst (submitKyc db now answer u w)) u = ''pending'' \<and>
   kycStatusEvent (fst (submitKyc db now answer u w)) = kycStatusEvent db"
  by (simp add: submit_effect)

lemma signature_accepts_only_hmac: "verifyKycWebhookSignature hmac s b sig \<longleftrightarrow> sig = hmac s b"
  by (auto simp: verifyKycWebhookSignature_def Let_def)

end
