(* ===== verification/Api_Keys.thy ===== *)
theory Api_Keys
  imports Js_Values Sliding_Window
begin

text \<open>
  API keys: \<open>backend/src/api_key_service.ts\<close> and the middleware of \<open>backend/src/api_key_rate_limiter.ts\<close>. The two
  tables are lists of rows; the columns \<open>id\<close> and \<open>keyHash\<close> are unique, so creating a key with a used hash fails.
  The digest, the random bytes, the id of a new row and the clock are arguments. The counters of the middleware
  are the map \<open>keyUsageCounts\<close>, whose entries the code updates in place.
\<close>

section \<open>The service\<close>

datatype tier = free | pro | enterprise

record ApiKeyInfo =
  ak_id :: string
  ak_keyHash :: string
  ak_keyPrefix :: string
  ak_userId :: string
  ak_name :: string
  ak_tier :: tier
  ak_rateLimit :: int
  ak_isActive :: bool
  ak_lastUsedAt :: "millis option"
  ak_expiresAt :: "millis option"
  ak_createdAt :: millis

record ApiKeyUsage =
  au_keyId :: string
  au_endpoint :: string
  au_method :: string
  au_statusCode :: int
  au_createdAt :: millis

record api_key_db =
  apiKey :: "ApiKeyInfo list"
  apiKeyUsage :: "ApiKeyUsage list"

definition API_KEY_PREFIX :: string where
  "API_KEY_PREFIX = ''ss_''"

fun rateLimits :: "tier \<Rightarrow> int" where
  "rateLimits free = 100"
| "rateLimits pro = 1000"
| "rateLimits enterprise = 10000"

definition generateKey ::
  "(string \<Rightarrow> string) \<Rightarrow> string \<Rightarrow> string \<Rightarrow> millis \<Rightarrow> string \<Rightarrow> string \<Rightarrow> tier \<Rightarrow> api_key_db \<Rightarrow>
   (string \<times> ApiKeyInfo \<times> api_key_db) option" where
  "generateKey sha bytes rowId now userId name t db =
     (let fullKey = API_KEY_PREFIX @ bytes; keyHash = sha fullKey; keyPrefix = take 15 fullKey @ ''...'';
          row = \<lparr>ak_id = rowId, ak_keyHash = keyHash, ak_keyPrefix = keyPrefix, ak_userId = userId, ak_name = name,
                 ak_tier = t, ak_rateLimit = rateLimits t, ak_isActive = True, ak_lastUsedAt = None,
                 ak_expiresAt = None, ak_createdAt = now\<rparr>
      in if \<exists>r \<in> set (apiKey db). ak_keyHash r = keyHash \<or> ak_id r = rowId then None
         else Some (fullKey, row, db\<lparr>apiKey := apiKey db @ [row]\<rparr>))"

record validation =
  va_keyId :: string
  va_userId :: string
  va_rateLimit :: int

definition expired :: "millis \<Rightarrow> ApiKeyInfo \<Rightarrow> bool" where
  "expired now r = (case ak_expiresAt r of None \<Rightarrow> False | Some t \<Rightarrow> t < now)"

definition validateKey :: "(string \<Rightarrow> string) \<Rightarrow> millis \<Rightarrow> string \<Rightarrow> api_key_db \<Rightarrow> api_key_db \<times> validation option" where
  "validateKey sha now key db =
     (case List.find (\<lambda>r. ak_keyHash r = sha key) (apiKey db) of
        None \<Rightarrow> (db, None)
      | Some r \<Rightarrow>
          if \<not> ak_isActive r then (db, None)
          else if expired now r then (db, None)
          else (db\<lparr>apiKey := update_first (\<lambda>x. ak_id x = ak_id r) (\<lambda>x. x\<lparr>ak_lastUsedAt := Some now\<rparr>) (apiKey db)\<rparr>,
                Some \<lparr>va_keyId = ak_id r, va_userId = ak_userId r, va_rateLimit = ak_rateLimit r\<rparr>))"

definition getKeysForUser :: "string \<Rightarrow> api_key_db \<Rightarrow> ApiKeyInfo list" where
  "getKeysForUser userId db = sort_key (\<lambda>r. - ak_createdAt r) (filter (\<lambda>r. ak_userId r = userId) (apiKey db))"

text \<open>Updating a row that does not exist throws.\<close>

definition revokeKey :: "string \<Rightarrow> api_key_db \<Rightarrow> api_key_db option" where
  "revokeKey keyId db =
     (if List.find (\<lambda>r. ak_id r = keyId) (apiKey db) = None then None
      else Some (db\<lparr>apiKey := update_first (\<lambda>r. ak_id r = keyId) (\<lambda>r. r\<lparr>ak_isActive := False\<rparr>) (apiKey db)\<rparr>))"

definition recordUsage :: "string \<Rightarrow> string \<Rightarrow> string \<Rightarrow> int \<Rightarrow> millis \<Rightarrow> api_key_db \<Rightarrow> api_key_db" where
  "recordUsage keyId endpoint meth statusCode now db =
     db\<lparr>apiKeyUsage := apiKeyUsage db @ [\<lparr>au_keyId = keyId, au_endpoint = endpoint, au_method = meth,
       au_statusCode = statusCode, au_createdAt = now\<rparr>]\<rparr>"

text \<open>\<open>groupBy\<close> method and status code, with the number of rows of each group.\<close>

definition usage_groups :: "ApiKeyUsage list \<Rightarrow> (string \<times> int \<times> nat) list" where
  "usage_groups us =
     map (\<lambda>(m, s). (m, s, length (filter (\<lambda>u. au_method u = m \<and> au_statusCode u = s) us)))
       (js_set (map (\<lambda>u. (au_method u, au_statusCode u)) us))"

fun by_method :: "(string \<times> int \<times> nat) list \<Rightarrow> (string \<Rightarrow> nat option) \<Rightarrow> string \<Rightarrow> nat option" where
  "by_method [] acc = acc"
| "by_method ((m, s, n) # gs) acc = by_method gs (acc(m \<mapsto> or_default (acc m) 0 + n))"

definition getUsageStats :: "millis \<Rightarrow> string \<Rightarrow> int \<Rightarrow> api_key_db \<Rightarrow> (string \<Rightarrow> nat option) \<times> nat" where
  "getUsageStats now keyId hoursBack db =
     (let since = now - hoursBack * 60 * 60 * 1000;
          gs = usage_groups (filter (\<lambda>u. au_keyId u = keyId \<and> au_createdAt u \<ge> since) (apiKeyUsage db))
      in (by_method gs (\<lambda>_. None), sum_list (map (\<lambda>(m, s, n). n) gs)))"

section \<open>The middleware\<close>

record usage_count =
  uc_count :: int
  uc_resetAt :: millis

type_synonym usage_counts = "string \<Rightarrow> usage_count option"

definition visit_usage :: "usage_count option \<Rightarrow> millis \<Rightarrow> usage_count" where
  "visit_usage u now =
     (let u0 = or_default u \<lparr>uc_count = 0, uc_resetAt = now + 60 * 1000\<rparr>;
          u1 = (if now > uc_resetAt u0 then \<lparr>uc_count = 0, uc_resetAt = now + 60 * 1000\<rparr> else u0)
      in u1\<lparr>uc_count := uc_count u1 + 1\<rparr>)"

text \<open>A refused visit changes the entry it found in the map, since that is the same object, but does not add one.\<close>

definition count_visit :: "usage_counts \<Rightarrow> string \<Rightarrow> int \<Rightarrow> millis \<Rightarrow> usage_counts \<times> bool" where
  "count_visit counts keyId rateLimit now =
     (let u = visit_usage (counts keyId) now
      in if uc_count u > rateLimit
         then (if counts keyId = None then counts else counts(keyId \<mapsto> u), False)
         else (counts(keyId \<mapsto> u), True))"

record api_key_world =
  kw_db :: api_key_db
  kw_counts :: usage_counts

definition apiKeyAuthMiddleware ::
  "(string \<Rightarrow> string) \<Rightarrow> millis \<Rightarrow> string option \<Rightarrow> api_key_world \<Rightarrow> api_key_world \<times> response \<times> (string \<times> string) option" where
  "apiKeyAuthMiddleware sha now key w =
     (if \<not> truthy key
      then (w, send_json 401 (JObj [(''error'', JStr ''x-api-key header is required'')]) fresh_response, None)
      else case validateKey sha now (or_default key []) (kw_db w) of
        (db, None) \<Rightarrow>
          (w\<lparr>kw_db := db\<rparr>, send_json 403 (JObj [(''error'', JStr ''Invalid or expired API key'')]) fresh_response, None)
      | (db, Some v) \<Rightarrow>
          (case count_visit (kw_counts w) (va_keyId v) (va_rateLimit v) now of
             (counts, False) \<Rightarrow>
               (w\<lparr>kw_db := db, kw_counts := counts\<rparr>,
                send_json 429 (JObj [(''error'', JStr ''Rate limit exceeded'')]) fresh_response, None)
           | (counts, True) \<Rightarrow>
               (w\<lparr>kw_db := db, kw_counts := counts\<rparr>, call_next fresh_response, Some (va_keyId v, va_userId v))))"

definition recordApiUsage :: "(string \<times> string) option \<Rightarrow> string \<Rightarrow> string \<Rightarrow> int \<Rightarrow> millis \<Rightarrow> api_key_db \<Rightarrow> api_key_db" where
  "recordApiUsage apiKeyCtx path meth statusCode now db =
     (case apiKeyCtx of
        None \<Rightarrow> db
      | Some (keyId, _) \<Rightarrow> recordUsage keyId path meth (if statusCode = 0 then 200 else statusCode) now db)"

section \<open>The life of a key\<close>

definition keys_ok :: "api_key_db \<Rightarrow> bool" where
  "keys_ok db \<longleftrightarrow> distinct (map ak_id (apiKey db)) \<and> distinct (map ak_keyHash (apiKey db))"

lemma keys_ok_update:
  assumes "keys_ok db" and "\<And>x. ak_id (f x) = ak_id x" "\<And>x. ak_keyHash (f x) = ak_keyHash x"
  shows "keys_ok (db\<lparr>apiKey := update_first p f (apiKey db)\<rparr>)"
  using assms by (simp add: keys_ok_def map_update_first)

lemma generateKey_ok:
  assumes "keys_ok db" and "generateKey sha bytes i now u n t db = Some (k, row, db')"
  shows "keys_ok db'"
proof -
  have "apiKey db' = apiKey db @ [row]" "ak_id row \<notin> ak_id ` set (apiKey db)" "ak_keyHash row \<notin> ak_keyHash ` set (apiKey db)"
    using assms(2) unfolding generateKey_def Let_def by (auto split: if_splits simp: image_iff)
  with assms(1) show ?thesis by (simp add: keys_ok_def)
qed

lemma validate_revoke_ok:
  assumes "keys_ok db"
  shows "keys_ok (fst (validateKey sha now key db))" and "revokeKey i db = Some db' \<Longrightarrow> keys_ok db'"
  using assms keys_ok_update [OF assms]
  by (auto simp: validateKey_def revokeKey_def split: if_splits option.split)

lemma find_snoc: "List.find p (xs @ [y]) = (case List.find p xs of Some x \<Rightarrow> Some x | None \<Rightarrow> if p y then Some y else None)"
  by (induction xs) auto

lemma update_first_snoc: "(\<And>x. x \<in> set xs \<Longrightarrow> \<not> p x) \<Longrightarrow> p y \<Longrightarrow> update_first p f (xs @ [y]) = xs @ [f y]"
  by (induction xs) auto

text \<open>The life of a key. A generated key validates at every time for its owner and with the limit of its tier;
  once revoked it never validates again; and neither generating nor revoking changes the answer for a key
  with another hash.\<close>

theorem api_key_life_cycle:
  assumes "generateKey sha bytes i now u n t db = Some (k, row, db')"
  shows "snd (validateKey sha later k db') = Some \<lparr>va_keyId = i, va_userId = u, va_rateLimit = rateLimits t\<rparr> \<and>
         (\<exists>db''. revokeKey i db' = Some db'' \<and> snd (validateKey sha later k db'') = None \<and>
            (\<forall>other. sha other \<noteq> sha k \<longrightarrow>
               snd (validateKey sha later other db') = snd (validateKey sha later other db) \<and>
               snd (validateKey sha later other db'') = snd (validateKey sha later other db)))"
proof -
  have row: "ak_id row = i" "ak_keyHash row = sha k" "ak_userId row = u" "ak_rateLimit row = rateLimits t" "ak_isActive row"
      "ak_expiresAt row = None" and db': "apiKey db' = apiKey db @ [row]"
    and new: "\<And>r. r \<in> set (apiKey db) \<Longrightarrow> ak_keyHash r \<noteq> sha k \<and> ak_id r \<noteq> i"
    using assms by (auto simp: generateKey_def Let_def split: if_splits)
  have none: "List.find (\<lambda>r. ak_keyHash r = sha k) (apiKey db) = None" "List.find (\<lambda>r. ak_id r = i) (apiKey db) = None"
    using new by (auto simp: find_None_iff)
  define db'' where "db'' = db'\<lparr>apiKey := apiKey db @ [row\<lparr>ak_isActive := False\<rparr>]\<rparr>"
  have upd: "update_first (\<lambda>r. ak_id r = i) f (apiKey db @ [row]) = apiKey db @ [f row]" for f
    using new row(1) by (intro update_first_snoc) auto
  have "revokeKey i db' = Some db''"
    using none(2) row(1) by (simp add: revokeKey_def db' find_snoc upd db''_def)
  moreover have "snd (validateKey sha later k db') = Some \<lparr>va_keyId = i, va_userId = u, va_rateLimit = rateLimits t\<rparr>"
    using none(1) row by (simp add: validateKey_def db' find_snoc expired_def)
  moreover have "snd (validateKey sha later k db'') = None"
    using none(1) row by (simp add: validateKey_def db''_def find_snoc)
  moreover have "snd (validateKey sha later other db') = snd (validateKey sha later other db) \<and>
      snd (validateKey sha later other db'') = snd (validateKey sha later other db)" if "sha other \<noteq> sha k" for other
    using that row(2) by (auto simp: validateKey_def db' db''_def find_snoc split: option.split)
  ultimately show ?thesis by blast
qed

theorem api_key_life_cycle_witness:
  "\<exists>k row db. generateKey (\<lambda>s. s) ''00ff'' ''id1'' 5 ''u1'' ''ci'' pro \<lparr>apiKey = [], apiKeyUsage = []\<rparr> = Some (k, row, db) \<and>
     snd (validateKey (\<lambda>s. s) 9 k db) = Some \<lparr>va_keyId = ''id1'', va_userId = ''u1'', va_rateLimit = 1000\<rparr>"
proof -
  obtain k row db where g: "generateKey (\<lambda>s. s) ''00ff'' ''id1'' 5 ''u1'' ''ci'' pro \<lparr>apiKey = [], apiKeyUsage = []\<rparr> = Some (k, row, db)"
    by (simp add: generateKey_def Let_def)
  with api_key_life_cycle [OF g, of 9] show ?thesis by auto
qed

section \<open>Usage statistics\<close>

lemma sum_group_lengths:
  assumes "distinct ps" and "\<And>u. u \<in> set us \<Longrightarrow> f u \<in> set ps"
  shows "sum_list (map (\<lambda>p. length (filter (\<lambda>u. f u = p) us)) ps) = length us"
  using assms(2)
proof (induction us)
  case (Cons u us)
  have "sum_list (map (\<lambda>p. if f u = p then 1 else 0 :: nat) ps) = 1"
    using assms(1) Cons.prems [of u] by (simp add: sum_list_distinct_conv_sum_set)
  moreover have "sum_list (map (\<lambda>p. length (filter (\<lambda>x. f x = p) (u # us))) ps) =
      sum_list (map (\<lambda>p. (if f u = p then 1 else 0) + length (filter (\<lambda>x. f x = p) us)) ps)"
    by (rule arg_cong [of _ _ sum_list], rule map_cong) auto
  ultimately show ?case using Cons by (simp add: sum_list_map_add)
qed simp

lemma by_method_sum:
  "or_default (by_method gs acc m) 0 = or_default (acc m) 0 + sum_list (map (\<lambda>(m', s, n). if m' = m then n else 0) gs)"
proof (induction gs arbitrary: acc)
  case (Cons g gs)
  obtain m' s n where "g = (m', s, n)" by (cases g)
  with Cons [of "acc(m' \<mapsto> or_default (acc m') 0 + n)"] show ?case by (simp add: fun_upd_def)
qed simp

text \<open>The statistics of a key count every recorded use in the period once: their total is the number of the
  rows of the key in the period, and the number given for a method is that of the rows with the method.\<close>

theorem usage_stats_count_rows:
  defines "rows \<equiv> \<lambda>now keyId h db. filter (\<lambda>u. au_keyId u = keyId \<and> au_createdAt u \<ge> now - h * 3600000) (apiKeyUsage db)"
  shows "snd (getUsageStats now keyId h db) = length (rows now keyId h db) \<and>
         or_default (fst (getUsageStats now keyId h db) m) 0 = length (filter (\<lambda>u. au_method u = m) (rows now keyId h db))"
proof -
  let ?us = "rows now keyId h db" and ?f = "\<lambda>u. (au_method u, au_statusCode u)"
  let ?ps = "js_set (map ?f ?us)"
  have gs: "usage_groups ?us = map (\<lambda>p. (fst p, snd p, length (filter (\<lambda>u. ?f u = p) ?us))) ?ps"
    by (simp add: usage_groups_def case_prod_beta prod_eq_iff)
  have stats: "getUsageStats now keyId h db = (by_method (usage_groups ?us) (\<lambda>_. None), sum_list (map (\<lambda>(m, s, n). n) (usage_groups ?us)))"
    by (simp add: getUsageStats_def rows_def Let_def mult.assoc)
  have "sum_list (map (\<lambda>(m', s, n). if m' = m then n else 0) (usage_groups ?us)) =
      sum_list (map (\<lambda>p. length (filter (\<lambda>u. ?f u = p) (filter (\<lambda>u. au_method u = m) ?us))) ?ps)"
    unfolding gs by (auto simp: o_def prod_eq_iff conj_commute intro!: arg_cong [of _ _ sum_list] arg_cong [of _ _ length] map_cong filter_cong)
  also have "\<dots> = length (filter (\<lambda>u. au_method u = m) ?us)" by (rule sum_group_lengths) auto
  finally have "or_default (by_method (usage_groups ?us) (\<lambda>_. None) m) 0 = length (filter (\<lambda>u. au_method u = m) ?us)"
    by (simp add: by_method_sum)
  moreover have "sum_list (map (\<lambda>(m, s, n). n) (usage_groups ?us)) = length ?us"
    unfolding gs using sum_group_lengths [of ?ps ?us ?f] by (simp add: o_def)
  ultimately show ?thesis by (simp add: stats)
qed

section \<open>The fixed window\<close>

text \<open>The admitted visits of one key, each with the start of the window it was counted in.\<close>

fun visit_log :: "usage_count option \<Rightarrow> int \<Rightarrow> millis list \<Rightarrow> (millis \<times> millis) list" where
  "visit_log u L [] = []"
| "visit_log u L (t # ts) =
     (let u' = visit_usage u t
      in if uc_count u' \<le> L then (uc_resetAt u' - 60000, t) # visit_log (Some u') L ts
         else visit_log (if u = None then None else Some u') L ts)"

definition log_ok :: "millis \<Rightarrow> int \<Rightarrow> int \<Rightarrow> (millis \<times> millis) list \<Rightarrow> bool" where
  "log_ok ws n L es \<longleftrightarrow>
     (\<forall>e \<in> set es. fst e \<le> snd e \<and> snd e \<le> fst e + 60000 \<and> (fst e = ws \<or> ws + 60000 < fst e)) \<and>
     (\<forall>e \<in> set es. \<forall>e' \<in> set es. fst e < fst e' \<longrightarrow> fst e + 60000 < fst e') \<and>
     (\<forall>w. int (length (filter (\<lambda>e. fst e = w) es)) \<le> (if w = ws then max 0 (L - n) else max 0 L))"

lemma log_ok_weaken: "log_ok ws (n + 1) L es \<Longrightarrow> log_ok ws n L es"
  unfolding log_ok_def by (fastforce split: if_splits)

lemma log_ok_cons:
  assumes "log_ok ws (n + 1) L es" and "n + 1 \<le> L" and "0 \<le> n" and "ws \<le> t" "t \<le> ws + 60000"
  shows "log_ok ws n L ((ws, t) # es)"
  using assms unfolding log_ok_def by (fastforce split: if_splits)

lemma log_ok_later:
  assumes "log_ok ws' 0 L es" and "ws + 60000 < ws'"
  shows "log_ok ws n L es"
proof -
  have "w \<noteq> ws" if "(w, t) \<in> set es" for w t using assms that by (fastforce simp: log_ok_def)
  then have "filter (\<lambda>e. fst e = ws) es = []" by (force simp: filter_empty_conv)
  with assms show ?thesis unfolding log_ok_def by (fastforce split: if_splits)
qed

lemma visit_log_ok:
  assumes "sorted ts" and "0 \<le> uc_count x" and "\<And>t. t \<in> set ts \<Longrightarrow> uc_resetAt x - 60000 \<le> t"
  shows "log_ok (uc_resetAt x - 60000) (uc_count x) L (visit_log (Some x) L ts)"
  using assms
proof (induction ts arbitrary: x)
  case Nil
  then show ?case by (simp add: log_ok_def)
next
  case (Cons t ts)
  show ?case
  proof (cases "t > uc_resetAt x")
    case True
    let ?x = "\<lparr>uc_count = 1, uc_resetAt = t + 60000\<rparr>"
    have v: "visit_usage (Some x) t = ?x" using True by (simp add: visit_usage_def Let_def)
    have IH: "log_ok t 1 L (visit_log (Some ?x) L ts)" using Cons.IH [of ?x] Cons.prems by simp
    have "log_ok t 0 L (visit_log (Some x) L (t # ts))"
      using log_ok_cons [of t 0 L] log_ok_weaken [of t 0 L] IH by (simp add: v Let_def)
    then show ?thesis by (rule log_ok_later) (use True in simp)
  next
    case False
    let ?x = "x\<lparr>uc_count := uc_count x + 1\<rparr>"
    have v: "visit_usage (Some x) t = ?x" using False by (simp add: visit_usage_def Let_def)
    have IH: "log_ok (uc_resetAt x - 60000) (uc_count x + 1) L (visit_log (Some ?x) L ts)"
      using Cons.IH [of ?x] Cons.prems by simp
    then show ?thesis
      using log_ok_cons [OF IH, of t] log_ok_weaken [OF IH] Cons.prems False by (simp add: v Let_def)
  qed
qed

lemma visit_log_start:
  assumes "sorted ts"
  shows "\<exists>ws. log_ok ws 0 L (visit_log None L ts)"
  using assms
proof (induction ts)
  case (Cons t ts)
  let ?x = "\<lparr>uc_count = 1, uc_resetAt = t + 60000\<rparr>"
  have v: "visit_usage None t = ?x" by (simp add: visit_usage_def Let_def)
  have "log_ok t 1 L (visit_log (Some ?x) L ts)" using visit_log_ok [of ts ?x L] Cons.prems by simp
  then have "log_ok t 0 L ((t, t) # visit_log (Some ?x) L ts)" if "1 \<le> L"
    using log_ok_cons [of t 0 L _ t] that by simp
  then show ?case using Cons by (auto simp: v Let_def)
qed (auto simp: log_ok_def)

lemma log_okD:
  assumes "log_ok ws n L es" and "e \<in> set es"
  shows "fst e \<le> snd e" "snd e \<le> fst e + 60000" "e' \<in> set es \<Longrightarrow> fst e < fst e' \<Longrightarrow> fst e + 60000 < fst e'"
  using assms unfolding log_ok_def by auto

text \<open>No interval of a minute meets three windows.\<close>

lemma two_windows:
  assumes "log_ok ws n L es"
  shows "\<exists>v w. \<forall>e \<in> set es. x \<le> snd e \<and> snd e \<le> x + 60000 \<longrightarrow> fst e = v \<or> fst e = w"
proof -
  let ?E = "{e \<in> set es. x \<le> snd e \<and> snd e \<le> x + 60000}"
  show ?thesis
  proof (cases "?E = {}")
    case False
    define v where "v = Min (fst ` ?E)"
    have "v \<in> fst ` ?E" unfolding v_def by (rule Min_in) (use False in auto)
    then obtain e0 where e0: "e0 \<in> ?E" "fst e0 = v" by auto
    have min: "v \<le> fst e" if "e \<in> ?E" for e unfolding v_def by (rule Min_le) (use that in auto)
    have same: "fst a = fst b" if "a \<in> ?E" "b \<in> ?E" "fst a \<noteq> v" "fst b \<noteq> v" for a b
    proof (rule ccontr)
      assume ne: "fst a \<noteq> fst b"
      have far: "v + 60000 < fst c" if "c \<in> ?E" "fst c \<noteq> v" for c
        using log_okD(3) [OF assms, of e0 c] e0 min [OF that(1)] that by simp
      have "fst a + 60000 < fst b \<or> fst b + 60000 < fst a"
        using log_okD(3) [OF assms, of a b] log_okD(3) [OF assms, of b a] ne that by (cases "fst a < fst b") simp_all
      moreover have "x \<le> v + 60000" using log_okD(2) [OF assms, of e0] e0 by auto
      moreover have "fst a \<le> x + 60000" "fst b \<le> x + 60000"
        using log_okD(1) [OF assms, of a] log_okD(1) [OF assms, of b] that by auto
      ultimately show False using far [OF that(1,3)] far [OF that(2,4)] by linarith
    qed
    show ?thesis
    proof (cases "\<exists>b \<in> ?E. fst b \<noteq> v")
      case True
      then obtain b where b: "b \<in> ?E" "fst b \<noteq> v" by blast
      have "fst e = v \<or> fst e = fst b" if "e \<in> ?E" for e using same [OF that b(1) _ b(2)] by blast
      then show ?thesis by (intro exI [of _ v] exI [of _ "fst b"]) simp
    qed blast
  qed blast
qed

lemma filter_two:
  assumes "\<And>e. e \<in> set es \<Longrightarrow> P e \<Longrightarrow> fst e = v \<or> fst e = w"
  shows "length (filter P es) \<le> length (filter (\<lambda>e. fst e = v) es) + length (filter (\<lambda>e. fst e = w) es)"
  using assms by (induction es) (auto simp: le_SucI)

lemma visit_log_bound:
  assumes "sorted ts" and "0 \<le> L"
  shows "int (length (filter (\<lambda>e. x \<le> snd e \<and> snd e \<le> x + 60000) (visit_log None L ts))) \<le> 2 * L"
proof -
  obtain ws where ok: "log_ok ws 0 L (visit_log None L ts)" using visit_log_start [OF assms(1)] by blast
  have each: "int (length (filter (\<lambda>e. fst e = w) (visit_log None L ts))) \<le> L" for w
    using ok assms(2) by (auto simp: log_ok_def split: if_splits)
  obtain v w where "\<forall>e \<in> set (visit_log None L ts). x \<le> snd e \<and> snd e \<le> x + 60000 \<longrightarrow> fst e = v \<or> fst e = w"
    using two_windows [OF ok] by blast
  then have "length (filter (\<lambda>e. x \<le> snd e \<and> snd e \<le> x + 60000) (visit_log None L ts)) \<le>
      length (filter (\<lambda>e. fst e = v) (visit_log None L ts)) + length (filter (\<lambda>e. fst e = w) (visit_log None L ts))"
    by (intro filter_two) blast
  with each [of v] each [of w] show ?thesis by linarith
qed

text \<open>The log of one key in a run over all keys; \<open>limit\<close> gives the limit of each key.\<close>

lemma admitted_visit_log:
  "admitted (\<lambda>s k now. fst (count_visit s k (limit k) now)) (\<lambda>s k now. snd (count_visit s k (limit k) now)) s rs k =
   map snd (visit_log (s k) (limit k) (map snd (filter (\<lambda>r. fst r = k) rs)))"
proof (induction rs arbitrary: s)
  case (Cons r rs)
  then show ?case by (cases "fst r = k") (auto simp: count_visit_def Let_def not_less)
qed simp

text \<open>C12. The limit of an API key. For any requests on a clock that does not go back, at most twice the limit pass
  within any minute. The bound is about what can happen: windows start with the first request after the end
  of the last one, so two of them may meet inside a minute, and with a limit of 2 three requests can pass within
  two milliseconds.\<close>

theorem api_key_minute_bound:
  assumes "sorted (map snd rs)" and "0 \<le> limit k"
  shows "int (length (filter (\<lambda>t. x \<le> t \<and> t \<le> x + 60000)
           (admitted (\<lambda>s k now. fst (count_visit s k (limit k) now)) (\<lambda>s k now. snd (count_visit s k (limit k) now))
              (\<lambda>_. None) rs k))) \<le> 2 * limit k"
proof -
  have "sorted (map snd (filter (\<lambda>r. fst r = k) rs))" using assms(1) by (induction rs) auto
  from visit_log_bound [OF this assms(2), of x] show ?thesis
    by (simp add: admitted_visit_log filter_map o_def)
qed

theorem api_key_minute_bound_witness:
  "length (filter (\<lambda>t. 60000 \<le> t \<and> t \<le> 60000 + 60000)
     (admitted (\<lambda>s k now. fst (count_visit s k 2 now)) (\<lambda>s k now. snd (count_visit s k 2 now))
        (\<lambda>_. None) [(''k'', 0), (''k'', 60000), (''k'', 60001), (''k'', 60002)] ''k'')) = 3 \<and> (3::int) \<le> 2 * 2"
proof -
  have "admitted (\<lambda>s k now. fst (count_visit s k 2 now)) (\<lambda>s k now. snd (count_visit s k 2 now))
      (\<lambda>_. None) [(''k'', 0), (''k'', 60000), (''k'', 60001), (''k'', 60002)] ''k'' = [0, 60000, 60001, 60002]"
    by (simp add: count_visit_def visit_usage_def Let_def)
  then show ?thesis
    using api_key_minute_bound [of "[(''k'', 0), (''k'', 60000), (''k'', 60001), (''k'', 60002)]" "\<lambda>_. 2" "''k''" 60000] by simp
qed

end
