(* ===== verification/Preferences.thy ===== *)
theory Preferences
  imports Prelude
begin

text \<open>
  Notification preferences: \<open>backend/src/modules/notifications/notification-preference.repository.ts\<close> and its
  client \<open>backend/src/user_preference_manager.ts\<close>. The table is the list of its rows, whose user ids and tokens
  are unique; updating a row that does not exist throws, which is \<open>None\<close>. Fresh ids and tokens are arguments.
  The percentages of the statistics are given before they are printed with two digits.
\<close>

section \<open>The repository\<close>

record NotificationPreferenceRow =
  np_id :: string
  np_userId :: string
  emailNotifications :: bool
  pushNotifications :: bool
  contributionReminders :: bool
  groupUpdates :: bool
  payoutNotifications :: bool
  emailFrequency :: string
  unsubscribeToken :: string

record NotificationPreferenceUpdate =
  set_emailNotifications :: "bool option"
  set_pushNotifications :: "bool option"
  set_contributionReminders :: "bool option"
  set_groupUpdates :: "bool option"
  set_payoutNotifications :: "bool option"
  set_emailFrequency :: "string option"
  set_unsubscribeToken :: "string option"

type_synonym preference_table = "NotificationPreferenceRow list"

definition no_update :: NotificationPreferenceUpdate where
  "no_update = \<lparr>set_emailNotifications = None, set_pushNotifications = None, set_contributionReminders = None,
     set_groupUpdates = None, set_payoutNotifications = None, set_emailFrequency = None, set_unsubscribeToken = None\<rparr>"

definition apply_update :: "NotificationPreferenceUpdate \<Rightarrow> NotificationPreferenceRow \<Rightarrow> NotificationPreferenceRow" where
  "apply_update u r = r\<lparr>
     emailNotifications := or_default (set_emailNotifications u) (emailNotifications r),
     pushNotifications := or_default (set_pushNotifications u) (pushNotifications r),
     contributionReminders := or_default (set_contributionReminders u) (contributionReminders r),
     groupUpdates := or_default (set_groupUpdates u) (groupUpdates r),
     payoutNotifications := or_default (set_payoutNotifications u) (payoutNotifications r),
     emailFrequency := or_default (set_emailFrequency u) (emailFrequency r),
     unsubscribeToken := or_default (set_unsubscribeToken u) (unsubscribeToken r)\<rparr>"

definition findByUserId :: "string \<Rightarrow> preference_table \<Rightarrow> NotificationPreferenceRow option" where
  "findByUserId userId tab = List.find (\<lambda>r. np_userId r = userId) tab"

definition findByUnsubscribeToken :: "string \<Rightarrow> preference_table \<Rightarrow> NotificationPreferenceRow option" where
  "findByUnsubscribeToken token tab = List.find (\<lambda>r. unsubscribeToken r = token) tab"

definition update_where ::
  "(NotificationPreferenceRow \<Rightarrow> bool) \<Rightarrow> NotificationPreferenceUpdate \<Rightarrow> preference_table \<Rightarrow> preference_table option" where
  "update_where p u tab = (if List.find p tab = None then None else Some (update_first p (apply_update u) tab))"

definition updateByUserId :: "string \<Rightarrow> NotificationPreferenceUpdate \<Rightarrow> preference_table \<Rightarrow> preference_table option" where
  "updateByUserId userId u tab = update_where (\<lambda>r. np_userId r = userId) u tab"

definition updateById :: "string \<Rightarrow> NotificationPreferenceUpdate \<Rightarrow> preference_table \<Rightarrow> preference_table option" where
  "updateById i u tab = update_where (\<lambda>r. np_id r = i) u tab"

definition updateManyByUserIds :: "string list \<Rightarrow> NotificationPreferenceUpdate \<Rightarrow> preference_table \<Rightarrow> preference_table \<times> nat" where
  "updateManyByUserIds userIds u tab =
     (map (\<lambda>r. if np_userId r \<in> set userIds then apply_update u r else r) tab,
      length (filter (\<lambda>r. np_userId r \<in> set userIds) tab))"

definition userIdsForDigest :: "string \<Rightarrow> preference_table \<Rightarrow> string list" where
  "userIdsForDigest frequency tab = map np_userId (filter (\<lambda>r. emailNotifications r \<and> emailFrequency r = frequency) tab)"

definition countByEmailFrequency :: "preference_table \<Rightarrow> (string \<times> nat) list" where
  "countByEmailFrequency tab =
     map (\<lambda>f. (f, length (filter (\<lambda>r. emailFrequency r = f) tab))) (js_set (map emailFrequency tab))"

section \<open>The manager\<close>

definition default_row :: "string \<Rightarrow> string \<Rightarrow> string \<Rightarrow> NotificationPreferenceRow" where
  "default_row i token userId = \<lparr>np_id = i, np_userId = userId, emailNotifications = True, pushNotifications = True,
     contributionReminders = True, groupUpdates = True, payoutNotifications = True, emailFrequency = ''immediate'',
     unsubscribeToken = token\<rparr>"

definition getOrCreatePreferences ::
  "string \<Rightarrow> string \<Rightarrow> string \<Rightarrow> preference_table \<Rightarrow> preference_table \<times> NotificationPreferenceRow" where
  "getOrCreatePreferences i token userId tab =
     (case findByUserId userId tab of
        Some r \<Rightarrow> (tab, r)
      | None \<Rightarrow> (tab @ [default_row i token userId], default_row i token userId))"

definition updatePreferences :: "string \<Rightarrow> NotificationPreferenceUpdate \<Rightarrow> preference_table \<Rightarrow> preference_table option" where
  "updatePreferences userId updates tab = updateByUserId userId updates tab"

definition unsubscribeUser :: "string \<Rightarrow> preference_table \<Rightarrow> string + preference_table option" where
  "unsubscribeUser token tab =
     (case findByUnsubscribeToken token tab of
        None \<Rightarrow> Inl ''Invalid unsubscribe token''
      | Some r \<Rightarrow> Inr (updateById (np_id r) (no_update\<lparr>set_emailNotifications := Some False,
          set_pushNotifications := Some False, set_emailFrequency := Some ''never''\<rparr>) tab))"

definition resubscribeUser :: "string \<Rightarrow> preference_table \<Rightarrow> preference_table option" where
  "resubscribeUser userId tab =
     updateByUserId userId (no_update\<lparr>set_emailNotifications := Some True, set_pushNotifications := Some True,
       set_emailFrequency := Some ''immediate''\<rparr>) tab"

definition js_includes :: "string \<Rightarrow> string \<Rightarrow> bool" where
  "js_includes s p = list_ex (\<lambda>i. startsWith (drop i s) p) [0..<Suc (length s)]"

datatype notificationType = email | push

definition allows :: "NotificationPreferenceRow \<Rightarrow> notificationType \<Rightarrow> string \<Rightarrow> bool" where
  "allows r nt eventType =
     (if nt = email \<and> \<not> emailNotifications r then False
      else if nt = push \<and> \<not> pushNotifications r then False
      else if nt = email \<and> emailFrequency r = ''never'' then False
      else if js_includes eventType ''contribution_reminder'' \<and> \<not> contributionReminders r then False
      else if js_includes eventType ''group_update'' \<and> \<not> groupUpdates r then False
      else if js_includes eventType ''payout'' \<and> \<not> payoutNotifications r then False
      else True)"

definition shouldSendNotification ::
  "string \<Rightarrow> string \<Rightarrow> string \<Rightarrow> notificationType \<Rightarrow> string \<Rightarrow> preference_table \<Rightarrow> preference_table \<times> bool" where
  "shouldSendNotification i token userId nt eventType tab =
     (case getOrCreatePreferences i token userId tab of (tab', r) \<Rightarrow> (tab', allows r nt eventType))"

definition regenerateUnsubscribeToken :: "string \<Rightarrow> string \<Rightarrow> preference_table \<Rightarrow> preference_table option" where
  "regenerateUnsubscribeToken token userId tab = updateByUserId userId (no_update\<lparr>set_unsubscribeToken := Some token\<rparr>) tab"

record preference_stats =
  ps_total :: nat
  ps_emailEnabled :: nat
  ps_pushEnabled :: nat
  ps_emailEnabledPercent :: rat
  ps_pushEnabledPercent :: rat
  ps_byFrequency :: "(string \<times> nat) list"

definition getPreferenceStats :: "preference_table \<Rightarrow> preference_stats" where
  "getPreferenceStats tab =
     (let n = length tab; e = length (filter emailNotifications tab); p = length (filter pushNotifications tab)
      in \<lparr>ps_total = n, ps_emailEnabled = e, ps_pushEnabled = p,
          ps_emailEnabledPercent = (if n > 0 then rat_of_nat e / rat_of_nat n * 100 else 0),
          ps_pushEnabledPercent = (if n > 0 then rat_of_nat p / rat_of_nat n * 100 else 0),
          ps_byFrequency = countByEmailFrequency tab\<rparr>)"

definition batchUpdatePreferences :: "string list \<Rightarrow> NotificationPreferenceUpdate \<Rightarrow> preference_table \<Rightarrow> preference_table \<times> nat" where
  "batchUpdatePreferences userIds updates tab = updateManyByUserIds userIds updates tab"

section \<open>Lemmas\<close>

definition table_ok :: "preference_table \<Rightarrow> bool" where
  "table_ok tab \<longleftrightarrow> distinct (map np_id tab) \<and> distinct (map np_userId tab)"

lemma apply_update_ids [simp]: "np_id (apply_update u r) = np_id r" "np_userId (apply_update u r) = np_userId r"
  by (simp_all add: apply_update_def)

lemma update_first_at:
  assumes "distinct (map k xs)" and "x \<in> set xs"
  shows "update_first (\<lambda>y. k y = k x) f xs = map (\<lambda>y. if y = x then f y else y) xs"
  using assms
proof (induction xs)
  case (Cons y ys)
  show ?case
  proof (cases "k y = k x")
    case True
    then have "y = x" using Cons.prems by (auto simp: image_iff)
    moreover have "map (\<lambda>z. if z = x then f z else z) ys = ys"
      using Cons.prems \<open>y = x\<close> by (intro map_idI) (auto simp: image_iff)
    ultimately show ?thesis by simp
  next
    case False
    then show ?thesis using Cons by auto
  qed
qed simp

lemma find_map_at:
  assumes "distinct (map np_userId tab)" and "x \<in> set tab" and "\<And>r. np_userId (f r) = np_userId r"
  shows "List.find (\<lambda>r. np_userId r = u) (map (\<lambda>y. if y = x then f y else y) tab) =
    (if u = np_userId x then Some (f x) else List.find (\<lambda>r. np_userId r = u) tab)"
  using assms
proof (induction tab)
  case (Cons y ys)
  show ?case
  proof (cases "x = y")
    case True
    have "map (\<lambda>z. if z = x then f z else z) ys = ys" using Cons.prems True by (intro map_idI) (auto simp: image_iff)
    then show ?thesis using True Cons.prems by auto
  next
    case False
    then have "x \<in> set ys" using Cons.prems by simp
    moreover have "np_userId y \<noteq> np_userId x" using Cons.prems False by (auto simp: image_iff)
    ultimately show ?thesis using Cons False by auto
  qed
qed simp

section \<open>Properties\<close>

lemma unsubscribeUser_result:
  fixes upd :: NotificationPreferenceUpdate
  assumes "table_ok tab" and "findByUnsubscribeToken token tab = Some r"
  defines "upd \<equiv> no_update\<lparr>set_emailNotifications := Some False, set_pushNotifications := Some False, set_emailFrequency := Some ''never''\<rparr>"
  defines "tab' \<equiv> map (\<lambda>y. if y = r then apply_update upd y else y) tab"
  shows "unsubscribeUser token tab = Inr (Some tab')"
    and "findByUserId u tab' = (if u = np_userId r then Some (apply_update upd r) else findByUserId u tab)"
proof -
  have r: "r \<in> set tab" using find_SomeD assms(2) by (fastforce simp: findByUnsubscribeToken_def)
  have d: "distinct (map np_id tab)" "distinct (map np_userId tab)" using assms(1) by (simp_all add: table_ok_def)
  have "List.find (\<lambda>x. np_id x = np_id r) tab \<noteq> None" using r by (auto simp: find_None_iff)
  then show "unsubscribeUser token tab = Inr (Some tab')"
    using assms(2) update_first_at [OF d(1) r] by (simp add: unsubscribeUser_def updateById_def update_where_def tab'_def upd_def)
  show "findByUserId u tab' = (if u = np_userId r then Some (apply_update upd r) else findByUserId u tab)"
    unfolding findByUserId_def tab'_def by (rule find_map_at [OF d(2) r]) simp
qed

text \<open>C11. One-click unsubscription, in a table with one row per user. An unknown token is an error. After a known one the
  preference service answers no for every e-mail and every push message to its owner, whatever the event, and lists the
  owner in no digest; the rows of all other users, the answers for them and their places in the digests stay the same.\<close>

theorem unsubscribe_withdraws_consent:
  assumes "table_ok tab"
  shows "case unsubscribeUser token tab of
           Inl e \<Rightarrow> e = ''Invalid unsubscribe token'' \<and> token \<notin> unsubscribeToken ` set tab
         | Inr res \<Rightarrow> \<exists>tab' r. res = Some tab' \<and> findByUnsubscribeToken token tab = Some r \<and>
             (\<forall>nt ev. \<not> snd (shouldSendNotification i t (np_userId r) nt ev tab')) \<and>
             (\<forall>f. userIdsForDigest f tab' = filter (\<lambda>u. u \<noteq> np_userId r) (userIdsForDigest f tab)) \<and>
             filter (\<lambda>x. np_userId x \<noteq> np_userId r) tab' = filter (\<lambda>x. np_userId x \<noteq> np_userId r) tab \<and>
             (\<forall>u nt ev. u \<noteq> np_userId r \<longrightarrow>
                snd (shouldSendNotification i t u nt ev tab') = snd (shouldSendNotification i t u nt ev tab))"
proof (cases "findByUnsubscribeToken token tab")
  case None
  then have "token \<notin> unsubscribeToken ` set tab" by (auto simp: findByUnsubscribeToken_def find_None_iff)
  with None show ?thesis by (simp add: unsubscribeUser_def)
next
  case (Some r)
  define upd where "upd = no_update\<lparr>set_emailNotifications := Some False, set_pushNotifications := Some False, set_emailFrequency := Some ''never''\<rparr>"
  define tab' where "tab' = map (\<lambda>y. if y = r then apply_update upd y else y) tab"
  have r: "r \<in> set tab" using find_SomeD Some by (fastforce simp: findByUnsubscribeToken_def)
  have d: "distinct (map np_userId tab)" using assms by (simp add: table_ok_def)
  have res: "unsubscribeUser token tab = Inr (Some tab')"
    using unsubscribeUser_result(1) [OF assms Some] by (simp add: tab'_def upd_def)
  have find': "findByUserId u tab' = (if u = np_userId r then Some (apply_update upd r) else findByUserId u tab)" for u
    using unsubscribeUser_result(2) [OF assms Some, of u] unfolding tab'_def upd_def .
  have off: "\<not> emailNotifications (apply_update upd r)" "\<not> pushNotifications (apply_update upd r)"
    by (simp_all add: apply_update_def upd_def)
  have "\<not> snd (shouldSendNotification i t (np_userId r) nt ev tab')" for nt ev
    using off by (cases nt) (simp_all add: shouldSendNotification_def getOrCreatePreferences_def find' allows_def)
  moreover have own: "y = r \<longleftrightarrow> np_userId y = np_userId r" if "y \<in> set tab" for y
    using d r that by (auto simp: distinct_map inj_on_def)
  have rows: "tab' = map (\<lambda>y. if np_userId y = np_userId r then apply_update upd r else y) tab"
    unfolding tab'_def using own by (intro map_cong) auto
  have digest: "userIdsForDigest f (map (\<lambda>y. if np_userId y = np_userId r then apply_update upd r else y) ys) =
      filter (\<lambda>u. u \<noteq> np_userId r) (userIdsForDigest f ys)" for f ys
    using off by (induction ys) (auto simp: userIdsForDigest_def)
  have others: "filter (\<lambda>x. np_userId x \<noteq> np_userId r) (map (\<lambda>y. if np_userId y = np_userId r then apply_update upd r else y) ys) =
      filter (\<lambda>x. np_userId x \<noteq> np_userId r) ys" for ys
    by (induction ys) auto
  have "userIdsForDigest f tab' = filter (\<lambda>u. u \<noteq> np_userId r) (userIdsForDigest f tab)" for f
    unfolding rows by (rule digest)
  moreover have "filter (\<lambda>x. np_userId x \<noteq> np_userId r) tab' = filter (\<lambda>x. np_userId x \<noteq> np_userId r) tab"
    unfolding rows by (rule others)
  moreover have "snd (shouldSendNotification i t u nt ev tab') = snd (shouldSendNotification i t u nt ev tab)"
    if "u \<noteq> np_userId r" for u nt ev
    using that by (simp add: shouldSendNotification_def getOrCreatePreferences_def find' split: option.split)
  ultimately show ?thesis using res Some by auto
qed

theorem unsubscribe_withdraws_consent_witness:
  "\<exists>tab'. unsubscribeUser ''tok'' [default_row ''1'' ''tok'' ''ann'', default_row ''2'' ''tik'' ''bob''] = Inr (Some tab') \<and>
     \<not> snd (shouldSendNotification ''3'' ''x'' ''ann'' email ''payout'' tab') \<and>
     snd (shouldSendNotification ''3'' ''x'' ''bob'' email ''payout'' tab')"
proof -
  let ?tab = "[default_row ''1'' ''tok'' ''ann'', default_row ''2'' ''tik'' ''bob'']"
  have ok: "table_ok ?tab" by (simp add: table_ok_def default_row_def)
  have f: "findByUnsubscribeToken ''tok'' ?tab = Some (default_row ''1'' ''tok'' ''ann'')"
    by (simp add: findByUnsubscribeToken_def default_row_def)
  then obtain res where res: "unsubscribeUser ''tok'' ?tab = Inr res" by (simp add: unsubscribeUser_def)
  have "snd (shouldSendNotification ''3'' ''x'' ''bob'' email ''payout'' ?tab)"
    by (simp add: shouldSendNotification_def getOrCreatePreferences_def findByUserId_def default_row_def allows_def)
  with unsubscribe_withdraws_consent [OF ok, of "''tok''" "''3''" "''x''"] res f show ?thesis
    by (auto simp: default_row_def)
qed

text \<open>A daily or weekly digest does not hold back immediate e-mails: every user who gets a digest and has the event
  enabled is also sent the e-mail at once.\<close>

theorem digest_users_mailed_at_once:
  assumes "findByUserId u tab = Some r" and "emailNotifications r" and "emailFrequency r \<in> {''daily'', ''weekly''}"
    and "contributionReminders r" "groupUpdates r" "payoutNotifications r"
  shows "snd (shouldSendNotification i t u email ev tab)"
  using assms by (auto simp: shouldSendNotification_def getOrCreatePreferences_def allows_def)

lemma resubscribed_users_mailed:
  assumes "table_ok tab" and "findByUserId u tab = Some r" and "resubscribeUser u tab = Some tab'"
  shows "findByUserId u tab' = Some (r\<lparr>emailNotifications := True, pushNotifications := True, emailFrequency := ''immediate''\<rparr>)"
proof -
  have r: "r \<in> set tab" "np_userId r = u" using find_SomeD assms(2) by (fastforce simp: findByUserId_def)+
  have d: "distinct (map np_userId tab)" using assms(1) by (simp add: table_ok_def)
  show ?thesis
    using assms(3) update_first_at [OF d r(1)] find_map_at [OF d r(1)] r(2)
    by (auto simp: resubscribeUser_def updateByUserId_def update_where_def findByUserId_def apply_update_def no_update_def
        split: if_splits)
qed

end
