(* ===== verification/Backup.thy ===== *)
theory Backup
  imports Errors Js_Values
begin

text \<open>
  Backups and their restoration: the class \<open>BackupService\<close> of \<open>backend/src/backup_service.ts\<close> and
  \<open>backend/src/recovery_service.ts\<close>. The object store behind the S3 client is an argument, with the locale
  \<open>object_store\<close> for what is relied on. A stored object is a JSON value, or a text that is none; its bytes are
  its text, on which checksums are taken. Creating a backup runs up to the awaited upload; the rest happens in
  \<open>upload_settled\<close>, so that uploads, prunings and restorations may interleave. Digest, ids and clock are arguments.
\<close>

section \<open>The object store\<close>

datatype s3_body = Json json | Raw string

fun body_text :: "(rat \<Rightarrow> string) \<Rightarrow> s3_body \<Rightarrow> string" where
  "body_text fmt (Json v) = stringify fmt v"
| "body_text fmt (Raw s) = s"

record 's s3_client =
  putObject :: "'s \<Rightarrow> string \<Rightarrow> s3_body \<Rightarrow> thrown + 's"
  getObject :: "'s \<Rightarrow> string \<Rightarrow> thrown + s3_body"
  listObjects :: "'s \<Rightarrow> string \<Rightarrow> thrown + string list"
  deleteObject :: "'s \<Rightarrow> string \<Rightarrow> thrown + 's"

section \<open>Jobs\<close>

datatype BackupType = full | incremental

datatype BackupStatus = bs_pending | bs_running | bs_completed | bs_failed

record BackupJob =
  bj_id :: string
  bj_type :: BackupType
  bj_status :: BackupStatus
  bj_createdAt :: millis
  bj_completedAt :: "millis option"
  bj_s3Key :: "string option"
  bj_sizeBytes :: "nat option"
  bj_checksum :: "string option"
  bj_baseBackupId :: "string option"
  bj_error :: "string option"

text \<open>The map of jobs is the list of its values in the order of insertion.\<close>

type_synonym jobs = "BackupJob list"

fun type_name :: "BackupType \<Rightarrow> string" where
  "type_name full = ''full''"
| "type_name incremental = ''incremental''"

fun status_name :: "BackupStatus \<Rightarrow> string" where
  "status_name bs_pending = ''pending''"
| "status_name bs_running = ''running''"
| "status_name bs_completed = ''completed''"
| "status_name bs_failed = ''failed''"

definition backup_getJob :: "string \<Rightarrow> jobs \<Rightarrow> BackupJob option" where
  "backup_getJob i js = List.find (\<lambda>j. bj_id j = i) js"

definition collectData :: "millis \<Rightarrow> BackupType \<Rightarrow> string option \<Rightarrow> json" where
  "collectData now ty base =
     JObj [(''type'', JStr (type_name ty)), (''baseBackupId'', case base of None \<Rightarrow> JNull | Some b \<Rightarrow> JStr b),
           (''timestamp'', JNum now),
           (''data'', JObj [(''groups'', JArr []), (''members'', JArr []), (''transactions'', JArr []), (''preferences'', JArr [])])]"

definition computeIncremental :: "json \<Rightarrow> json" where
  "computeIncremental current = with_field current ''type'' (JStr ''incremental'')"

definition backup_payload :: "millis \<Rightarrow> BackupJob \<Rightarrow> jobs \<Rightarrow> json" where
  "backup_payload now job js =
     (let payload = collectData now (bj_type job) (bj_baseBackupId job)
      in if bj_type job = incremental \<and> truthy (bj_baseBackupId job) \<and>
            truthy (Option.bind (backup_getJob (or_default (bj_baseBackupId job) []) js) bj_s3Key)
         then computeIncremental payload else payload)"

record upload =
  up_jobId :: string
  up_key :: string
  up_body :: s3_body
  up_size :: nat
  up_checksum :: string

definition s3_key :: "BackupType \<Rightarrow> string \<Rightarrow> string" where
  "s3_key ty i = ''backups/'' @ type_name ty @ ''/'' @ i @ ''.json''"

definition createBackup ::
  "(rat \<Rightarrow> string) \<Rightarrow> (string \<Rightarrow> string) \<Rightarrow> millis \<Rightarrow> string \<Rightarrow> BackupType \<Rightarrow> string option \<Rightarrow> jobs \<Rightarrow> jobs \<times> upload" where
  "createBackup fmt sha now uuid ty base js =
     (let job = \<lparr>bj_id = uuid, bj_type = ty, bj_status = bs_pending, bj_createdAt = now, bj_completedAt = None,
                 bj_s3Key = None, bj_sizeBytes = None, bj_checksum = None, bj_baseBackupId = base, bj_error = None\<rparr>;
          js' = js @ [job\<lparr>bj_status := bs_running\<rparr>];
          body = Json (backup_payload now job js');
          text = body_text fmt body
      in (js', \<lparr>up_jobId = uuid, up_key = s3_key ty uuid, up_body = body, up_size = length text, up_checksum = sha text\<rparr>))"

definition upload_settled :: "millis \<Rightarrow> upload \<Rightarrow> thrown + unit \<Rightarrow> jobs \<Rightarrow> jobs" where
  "upload_settled now u outcome js =
     update_first (\<lambda>j. bj_id j = up_jobId u)
       (\<lambda>j. case outcome of
          Inr _ \<Rightarrow> j\<lparr>bj_status := bs_completed, bj_completedAt := Some now, bj_s3Key := Some (up_key u),
                      bj_sizeBytes := Some (up_size u), bj_checksum := Some (up_checksum u)\<rparr>
        | Inl e \<Rightarrow> j\<lparr>bj_status := bs_failed, bj_error := Some (case e of ThrownValue v \<Rightarrow> v | _ \<Rightarrow> err_message e)\<rparr>) js"

definition listJobs :: "jobs \<Rightarrow> jobs" where
  "listJobs js = sort_key (\<lambda>j. - bj_createdAt j) js"

definition getLatestCompleted :: "BackupType option \<Rightarrow> jobs \<Rightarrow> BackupJob option" where
  "getLatestCompleted ty js =
     List.find (\<lambda>j. bj_status j = bs_completed \<and> (ty = None \<or> ty = Some (bj_type j))) (listJobs js)"

section \<open>Pruning\<close>

text \<open>\<open>s.replace('.json', '')\<close> removes the first occurrence.\<close>

fun drop_json :: "string \<Rightarrow> string" where
  "drop_json [] = []"
| "drop_json (c # cs) = (if startsWith (c # cs) ''.json'' then drop 5 (c # cs) else c # drop_json cs)"

definition job_of_key :: "string \<Rightarrow> string" where
  "job_of_key key = drop_json (last (split_on CHR ''/'' key))"

fun prune_listed :: "'s s3_client \<Rightarrow> millis \<Rightarrow> string list \<Rightarrow> 's \<Rightarrow> jobs \<Rightarrow> 's \<times> jobs \<times> (thrown + nat)" where
  "prune_listed s3 cutoff [] s js = (s, js, Inr 0)"
| "prune_listed s3 cutoff (key # ks) s js =
     (let jobId = job_of_key key; job = (if jobId = [] then None else backup_getJob jobId js)
      in case job of
           None \<Rightarrow> prune_listed s3 cutoff ks s js
         | Some j \<Rightarrow>
             if bj_createdAt j < cutoff then
               (case deleteObject s3 s key of
                  Inl e \<Rightarrow> (s, js, Inl e)
                | Inr s' \<Rightarrow>
                    (case prune_listed s3 cutoff ks s' (filter (\<lambda>x. bj_id x \<noteq> bj_id j) js) of
                       (s'', js', Inr n) \<Rightarrow> (s'', js', Inr (n + 1))
                     | (s'', js', Inl e) \<Rightarrow> (s'', js', Inl e)))
             else prune_listed s3 cutoff ks s js)"

definition pruneOldBackups :: "'s s3_client \<Rightarrow> int \<Rightarrow> millis \<Rightarrow> 's \<Rightarrow> jobs \<Rightarrow> 's \<times> jobs \<times> (thrown + nat)" where
  "pruneOldBackups s3 retentionDays now s js =
     (let cutoff = now - retentionDays * 86400000
      in case listObjects s3 s ''backups/'' of
           Inl e \<Rightarrow> (s, js, Inl e)
         | Inr ks \<Rightarrow> prune_listed s3 cutoff ks s js)"

section \<open>Recovery\<close>

record RecoveryResult =
  rv_jobId :: string
  rv_restoredAt :: millis
  rv_recordCount :: nat
  rv_checksum :: string
  rv_restoreDurationMs :: millis

datatype applied = ApplyFull json | ApplyIncremental string json

fun array_length :: "json \<Rightarrow> nat" where
  "array_length (JArr vs) = length vs"
| "array_length _ = 0"

definition countRecords :: "json \<Rightarrow> nat" where
  "countRecords payload =
     (case json_field payload ''data'' of
        Some (JObj fs) \<Rightarrow> sum_list (map (\<lambda>(k, v). array_length v) fs)
      | Some (JArr vs) \<Rightarrow> sum_list (map array_length vs)
      | _ \<Rightarrow> 0)"

text \<open>A restore target takes a payload and may refuse it. The one that does nothing, and the one of the restore
  drill, which keeps the last payload.\<close>

type_synonym 't restore_target = "applied \<Rightarrow> 't \<Rightarrow> thrown + 't"

definition noop_target :: "unit restore_target" where
  "noop_target a t = Inr t"

fun ephemeral_target :: "json option restore_target" where
  "ephemeral_target (ApplyFull payload) t = Inr (Some payload)"
| "ephemeral_target (ApplyIncremental base delta) t = Inr (Some delta)"

text \<open>Reading a field of \<open>null\<close> throws; this is the payload that an object holding \<open>null\<close> gives.\<close>

definition restore ::
  "(rat \<Rightarrow> string) \<Rightarrow> (string \<Rightarrow> string) \<Rightarrow> 's s3_client \<Rightarrow> 't restore_target \<Rightarrow> millis \<Rightarrow> millis \<Rightarrow> 's \<Rightarrow> jobs \<Rightarrow>
    string \<Rightarrow> 't \<Rightarrow> 't \<times> (thrown + RecoveryResult)" where
  "restore fmt sha s3 apply_to startedAt now s js jobId t =
     (case backup_getJob jobId js of
        None \<Rightarrow> (t, Inl (PlainError (''Backup job not found: '' @ jobId)))
      | Some job \<Rightarrow>
          if bj_status job \<noteq> bs_completed then
            (t, Inl (PlainError (''Backup job '' @ jobId @ '' is not completed (status: '' @ status_name (bj_status job) @ '')'')))
          else if \<not> truthy (bj_s3Key job) then (t, Inl (PlainError (''Backup job '' @ jobId @ '' has no S3 key'')))
          else case getObject s3 s (or_default (bj_s3Key job) []) of
            Inl e \<Rightarrow> (t, Inl e)
          | Inr body \<Rightarrow>
              (let actual = sha (body_text fmt body)
               in if truthy (bj_checksum job) \<and> Some actual \<noteq> bj_checksum job
                  then (t, Inl (PlainError (''Checksum mismatch for backup '' @ jobId @ '': expected '' @
                    or_default (bj_checksum job) [] @ '', got '' @ actual)))
                  else case body of
                    Raw _ \<Rightarrow> (t, Inl (PlainError ''SyntaxError''))
                  | Json payload \<Rightarrow>
                      (case apply_to (if bj_type job = incremental \<and> truthy (bj_baseBackupId job)
                                      then ApplyIncremental (or_default (bj_baseBackupId job) []) payload
                                      else ApplyFull payload) t of
                         Inl e \<Rightarrow> (t, Inl e)
                       | Inr t' \<Rightarrow>
                           (t', if payload = JNull then Inl (PlainError ''Cannot read properties of null (reading 'data')'')
                                else Inr \<lparr>rv_jobId = jobId, rv_restoredAt = now, rv_recordCount = countRecords payload,
                                          rv_checksum = actual, rv_restoreDurationMs = now - startedAt\<rparr>))))"

definition restoreLatest ::
  "(rat \<Rightarrow> string) \<Rightarrow> (string \<Rightarrow> string) \<Rightarrow> 's s3_client \<Rightarrow> 't restore_target \<Rightarrow> millis \<Rightarrow> millis \<Rightarrow> 's \<Rightarrow> jobs \<Rightarrow>
    BackupType option \<Rightarrow> 't \<Rightarrow> 't \<times> (thrown + RecoveryResult)" where
  "restoreLatest fmt sha s3 apply_to startedAt now s js ty t =
     (case getLatestCompleted ty js of
        None \<Rightarrow> (t, Inl (PlainError (''No completed '' @ or_default (map_option type_name ty) [] @ '' backup found'')))
      | Some j \<Rightarrow> restore fmt sha s3 apply_to startedAt now s js (bj_id j) t)"

definition listRestorePoints :: "jobs \<Rightarrow> jobs" where
  "listRestorePoints js = filter (\<lambda>j. bj_status j = bs_completed) (listJobs js)"

section \<open>What the store promises\<close>

text \<open>A listing has keys of stored objects under the prefix, not always all of them: S3 answers with one page, and the client reads
  only that page.\<close>

locale object_store =
  fixes s3 :: "'s s3_client" and objects :: "'s \<Rightarrow> string \<Rightarrow> s3_body option"
  assumes put_objects: "putObject s3 s k b = Inr s' \<Longrightarrow> objects s' = (objects s)(k \<mapsto> b)"
    and get_objects: "getObject s3 s k = Inr b \<Longrightarrow> objects s k = Some b"
    and delete_objects: "deleteObject s3 s k = Inr s' \<Longrightarrow> objects s' = (objects s)(k := None)"
    and list_objects: "listObjects s3 s p = Inr ks \<Longrightarrow> set ks \<subseteq> {k. startsWith k p \<and> objects s k \<noteq> None}"

definition mem_s3 :: "(string \<times> s3_body) list s3_client" where
  "mem_s3 =
     \<lparr>putObject = (\<lambda>s k b. Inr (AList.update k b s)),
      getObject = (\<lambda>s k. case map_of s k of None \<Rightarrow> Inl (PlainError ''S3 getObject failed: 404'') | Some b \<Rightarrow> Inr b),
      listObjects = (\<lambda>s p. Inr (filter (\<lambda>k. startsWith k p) (map fst s))),
      deleteObject = (\<lambda>s k. Inr (AList.delete k s))\<rparr>"

interpretation mems3: object_store mem_s3 map_of
proof unfold_locales
  show "set ks \<subseteq> {k. startsWith k p \<and> map_of s k \<noteq> None}" if "listObjects mem_s3 s p = Inr ks" for s p ks
    using that by (force simp: mem_s3_def map_of_eq_None_iff)
qed (auto simp: mem_s3_def update_conv' delete_conv' split: option.splits)

section \<open>Properties\<close>

lemma getJob_update_first:
  assumes "\<And>j. bj_id (f j) = bj_id j"
  shows "backup_getJob i (update_first (\<lambda>j. bj_id j = i) f js) = map_option f (backup_getJob i js)"
  using assms by (induction js) (auto simp: backup_getJob_def)

lemma backup_payload_not_null: "backup_payload now j js \<noteq> JNull"
  by (simp add: backup_payload_def collectData_def computeIncremental_def with_field_def Let_def)

lemma created_job:
  assumes "createBackup fmt sha now uuid ty base js = (js', u)" and "backup_getJob uuid js = None"
  obtains j where "backup_getJob uuid js' = Some j" "bj_type j = ty" "bj_baseBackupId j = base" "bj_status j = bs_running"
proof -
  have "backup_getJob i (js @ [j]) = (case backup_getJob i js of Some x \<Rightarrow> Some x | None \<Rightarrow> if bj_id j = i then Some j else None)" for i j
    by (induction js) (auto simp: backup_getJob_def)
  with assms that show thesis by (auto simp: createBackup_def Let_def)
qed

text \<open>A backup can be restored. When the upload of a backup with a fresh id has succeeded and the object is still the
  one uploaded, restoring the job hands the target exactly the payload collected at the time of the backup, on top
  of its base for an incremental one, and succeeds with the recorded checksum if the target accepts it.\<close>

theorem backup_restores:
  assumes "object_store s3 objects" and "createBackup fmt sha now uuid ty base js = (js', u)" and "backup_getJob uuid js = None"
    and "putObject s3 s (up_key u) (up_body u) = Inr s'" and "objects s'' (up_key u) = objects s' (up_key u)"
    and "getObject s3 s'' (up_key u) = Inr b"
  shows "\<exists>payload. up_body u = Json payload \<and>
           restore fmt sha s3 apply_to t0 t1 s'' (upload_settled later u (Inr ()) js') uuid t =
             (case apply_to (if ty = incremental \<and> truthy base then ApplyIncremental (or_default base []) payload
                             else ApplyFull payload) t of
                Inl e \<Rightarrow> (t, Inl e)
              | Inr t' \<Rightarrow> (t', Inr \<lparr>rv_jobId = uuid, rv_restoredAt = t1, rv_recordCount = countRecords payload,
                                     rv_checksum = up_checksum u, rv_restoreDurationMs = t1 - t0\<rparr>))"
proof -
  obtain j where j: "backup_getJob uuid js' = Some j" "bj_type j = ty" "bj_baseBackupId j = base"
    using created_job [OF assms(2,3)] by metis
  obtain payload where u: "up_jobId u = uuid" "up_body u = Json payload" "up_checksum u = sha (body_text fmt (Json payload))"
      "up_key u = s3_key ty uuid" and nn: "payload \<noteq> JNull"
    using assms(2) backup_payload_not_null by (auto simp: createBackup_def Let_def)
  have key: "s3_key ty uuid \<noteq> []" by (simp add: s3_key_def)
  have "b = Json payload"
    using object_store.put_objects [OF assms(1,4)] object_store.get_objects [OF assms(1,6)] assms(5) u(2) by simp
  moreover have "backup_getJob uuid (upload_settled later u (Inr ()) js') =
      Some (j\<lparr>bj_status := bs_completed, bj_completedAt := Some later, bj_s3Key := Some (up_key u),
              bj_sizeBytes := Some (up_size u), bj_checksum := Some (up_checksum u)\<rparr>)"
    using j(1) by (simp add: upload_settled_def u(1) getJob_update_first)
  ultimately show ?thesis
    using j(2,3) assms(6) u key nn by (auto simp: restore_def Let_def split: sum.split)
qed

theorem backup_restores_witness:
  "\<exists>js u. createBackup (\<lambda>_. []) (\<lambda>s. s) 5 ''b1'' full None [] = (js, u) \<and>
     (\<exists>r payload. up_body u = Json payload \<and>
        restore (\<lambda>_. []) (\<lambda>s. s) mem_s3 ephemeral_target 6 8 [(up_key u, up_body u)] (upload_settled 9 u (Inr ()) js) ''b1'' None =
          (Some payload, Inr r))"
proof -
  obtain js u where c: "createBackup (\<lambda>_. []) (\<lambda>s. s) 5 ''b1'' full None [] = (js, u)" by fastforce
  have p: "putObject mem_s3 [] (up_key u) (up_body u) = Inr [(up_key u, up_body u)]" by (simp add: mem_s3_def)
  have "getObject mem_s3 [(up_key u, up_body u)] (up_key u) = Inr (up_body u)" by (simp add: mem_s3_def)
  with backup_restores [OF mems3.object_store_axioms c _ p refl this, of ephemeral_target 6 8 9 None] c
  show ?thesis by (auto simp: backup_getJob_def)
qed

text \<open>Nothing unverified is restored: whenever a restoration succeeds, the job was completed, the target accepted one
  payload and, if the job has a checksum, the digest of that payload is the checksum.\<close>

theorem restore_is_verified:
  assumes "restore fmt sha s3 apply_to t0 t1 s js jobId t = (t', Inr res)"
  shows "\<exists>job payload act. backup_getJob jobId js = Some job \<and> bj_status job = bs_completed \<and> apply_to act t = Inr t' \<and>
           (act = ApplyFull payload \<or> act = ApplyIncremental (or_default (bj_baseBackupId job) []) payload) \<and>
           rv_checksum res = sha (stringify fmt payload) \<and>
           (truthy (bj_checksum job) \<longrightarrow> bj_checksum job = Some (sha (stringify fmt payload)))"
  using assms
  by (force simp: restore_def Let_def split: option.splits if_splits sum.splits s3_body.splits)

lemma getJob_SomeD: "backup_getJob i js = Some j \<Longrightarrow> j \<in> set js \<and> bj_id j = i"
  unfolding backup_getJob_def by (rule find_SomeD)

text \<open>Pruning keeps every job that is not past its retention, whatever the store does, in their order; with
  distinct ids, only jobs past their retention are removed.\<close>

theorem prune_keeps_recent:
  assumes "distinct (map bj_id js)" and "prune_listed s3 cutoff ks s js = (s', js', r)"
  shows "filter (\<lambda>j. cutoff \<le> bj_createdAt j) js' = filter (\<lambda>j. cutoff \<le> bj_createdAt j) js \<and> set js' \<subseteq> set js"
  using assms
proof (induction s3 cutoff ks s js arbitrary: s' js' r rule: prune_listed.induct)
  case (2 s3 cutoff key ks s js)
  define job where "job = (if job_of_key key = [] then None else backup_getJob (job_of_key key) js)"
  show ?case
  proof (cases job)
    case None
    then show ?thesis using 2 by (simp add: job_def Let_def)
  next
    case (Some j)
    have j: "j \<in> set js" "bj_id j = job_of_key key" using Some getJob_SomeD by (auto simp: job_def split: if_splits)
    show ?thesis
    proof (cases "bj_createdAt j < cutoff")
      case False
      then show ?thesis using 2 Some by (simp add: job_def Let_def)
    next
      case old: True
      show ?thesis
      proof (cases "deleteObject s3 s key")
        case (Inl e)
        then show ?thesis using 2 Some old by (simp add: job_def Let_def)
      next
        case (Inr s1)
        let ?js = "filter (\<lambda>x. bj_id x \<noteq> bj_id j) js"
        obtain r1 where "prune_listed s3 cutoff ks s1 ?js = (s', js', r1)"
          using "2.prems"(2) Some old Inr by (auto simp: job_def Let_def split: prod.splits sum.splits)
        moreover have "distinct (map bj_id ?js)" using "2.prems"(1) by (rule distinct_map_filter)
        ultimately have IH: "filter (\<lambda>j. cutoff \<le> bj_createdAt j) js' = filter (\<lambda>j. cutoff \<le> bj_createdAt j) ?js \<and> set js' \<subseteq> set ?js"
          using "2.IH"(2) [OF refl refl] Some old Inr by (simp add: job_def)
        have "bj_id x \<noteq> bj_id j" if "x \<in> set js" "cutoff \<le> bj_createdAt x" for x
          using "2.prems"(1) that j(1) old by (auto simp: distinct_map inj_on_def)
        then have "filter (\<lambda>j. cutoff \<le> bj_createdAt j) ?js = filter (\<lambda>j. cutoff \<le> bj_createdAt j) js"
          by (auto intro!: filter_cong)
        with IH show ?thesis by auto
      qed
    qed
  qed
qed simp

text \<open>Pruning does not look at \<open>baseBackupId\<close>: a full backup past its retention is removed although an incremental
  one that is kept builds on it.\<close>

definition old_full :: BackupJob where
  "old_full = \<lparr>bj_id = ''f1'', bj_type = full, bj_status = bs_completed, bj_createdAt = 0, bj_completedAt = Some 1,
     bj_s3Key = Some (s3_key full ''f1''), bj_sizeBytes = None, bj_checksum = None, bj_baseBackupId = None, bj_error = None\<rparr>"

definition new_incremental :: BackupJob where
  "new_incremental = old_full\<lparr>bj_id := ''i1'', bj_type := incremental, bj_createdAt := 100,
     bj_s3Key := Some (s3_key incremental ''i1''), bj_baseBackupId := Some ''f1''\<rparr>"

theorem prune_orphans_incremental:
  "fst (snd (prune_listed mem_s3 50 [s3_key full ''f1'', s3_key incremental ''i1'']
     [(s3_key full ''f1'', Json JNull), (s3_key incremental ''i1'', Json JNull)] [old_full, new_incremental])) =
   [new_incremental] \<and> bj_baseBackupId new_incremental = Some ''f1''"
proof -
  have "job_of_key (s3_key full ''f1'') = ''f1''" "job_of_key (s3_key incremental ''i1'') = ''i1''" by code_simp+
  then show ?thesis
    by (simp add: old_full_def new_incremental_def backup_getJob_def mem_s3_def Let_def)
qed

end
