(* ===== verification/Backup_Monitor.thy ===== *)
theory Backup_Monitor
  imports Backup
begin

text \<open>
  When backups are made, watched and tried out: \<open>backend/src/backup_scheduler.ts\<close>,
  \<open>backend/src/backup_monitor.ts\<close> and \<open>backend/src/backup_restore_drill.ts\<close>. Random ids are drawn from the
  argument \<open>fresh\<close>, one per alert; alerts are posted to a webhook whose failure is only logged, so posting is the
  list of alerts sent. Counters and log lines are dropped.
\<close>

section \<open>Scheduler\<close>

record SchedulerConfig =
  fullBackupIntervalMs :: millis
  incrementalIntervalMs :: millis

definition default_scheduler_config :: SchedulerConfig where
  "default_scheduler_config = \<lparr>fullBackupIntervalMs = 24 * 60 * 60 * 1000, incrementalIntervalMs = 6 * 60 * 60 * 1000\<rparr>"

record backup_scheduler =
  lastFullBackupTime :: millis
  lastIncrementalBackupTime :: millis

definition new_scheduler :: backup_scheduler where
  "new_scheduler = \<lparr>lastFullBackupTime = 0, lastIncrementalBackupTime = 0\<rparr>"

definition shouldRunFullBackup :: "SchedulerConfig \<Rightarrow> millis \<Rightarrow> backup_scheduler \<Rightarrow> bool" where
  "shouldRunFullBackup cfg now sch = (now - lastFullBackupTime sch \<ge> fullBackupIntervalMs cfg)"

definition shouldRunIncrementalBackup :: "SchedulerConfig \<Rightarrow> millis \<Rightarrow> backup_scheduler \<Rightarrow> bool" where
  "shouldRunIncrementalBackup cfg now sch = (now - lastIncrementalBackupTime sch \<ge> incrementalIntervalMs cfg)"

definition getNextFullBackupTime :: "SchedulerConfig \<Rightarrow> millis \<Rightarrow> backup_scheduler \<Rightarrow> millis" where
  "getNextFullBackupTime cfg now sch = max 0 (fullBackupIntervalMs cfg - (now - lastFullBackupTime sch))"

definition getNextIncrementalBackupTime :: "SchedulerConfig \<Rightarrow> millis \<Rightarrow> backup_scheduler \<Rightarrow> millis" where
  "getNextIncrementalBackupTime cfg now sch = max 0 (incrementalIntervalMs cfg - (now - lastIncrementalBackupTime sch))"

definition runFull ::
  "(rat \<Rightarrow> string) \<Rightarrow> (string \<Rightarrow> string) \<Rightarrow> millis \<Rightarrow> string \<Rightarrow> backup_scheduler \<Rightarrow> jobs \<Rightarrow> backup_scheduler \<times> jobs \<times> upload" where
  "runFull fmt sha now uuid sch js = (sch\<lparr>lastFullBackupTime := now\<rparr>, createBackup fmt sha now uuid full None js)"

definition runIncremental ::
  "(rat \<Rightarrow> string) \<Rightarrow> (string \<Rightarrow> string) \<Rightarrow> millis \<Rightarrow> string \<Rightarrow> backup_scheduler \<Rightarrow> jobs \<Rightarrow> backup_scheduler \<times> jobs \<times> upload" where
  "runIncremental fmt sha now uuid sch js =
     (let baseId = map_option bj_id (getLatestCompleted (Some full) js)
      in (sch\<lparr>lastIncrementalBackupTime := now\<rparr>, createBackup fmt sha now uuid incremental baseId js))"

definition triggerManual ::
  "(rat \<Rightarrow> string) \<Rightarrow> (string \<Rightarrow> string) \<Rightarrow> millis \<Rightarrow> string \<Rightarrow> BackupType \<Rightarrow> backup_scheduler \<Rightarrow> jobs \<Rightarrow>
    backup_scheduler \<times> jobs \<times> upload" where
  "triggerManual fmt sha now uuid ty sch js =
     (if ty = full then runFull fmt sha now uuid sch js else runIncremental fmt sha now uuid sch js)"

section \<open>Monitor\<close>

datatype alert_level = al_warning | al_error

record BackupAlert =
  bal_id :: string
  bal_backupJobId :: string
  bal_level :: alert_level
  bal_message :: string
  bal_timestamp :: millis
  bal_acknowledged :: bool

record MonitorConfig =
  maxBackupAgeMs :: millis
  monitor_webhookUrl :: "string option"

definition monitor_createAlert :: "string \<Rightarrow> millis \<Rightarrow> string \<Rightarrow> alert_level \<Rightarrow> string \<Rightarrow> BackupAlert" where
  "monitor_createAlert uuid now jobId level msg =
     \<lparr>bal_id = uuid, bal_backupJobId = jobId, bal_level = level, bal_message = msg, bal_timestamp = now, bal_acknowledged = False\<rparr>"

definition error_alerted :: "BackupAlert list \<Rightarrow> string \<Rightarrow> bool" where
  "error_alerted as jobId = list_ex (\<lambda>a. bal_backupJobId a = jobId \<and> bal_level a = al_error) as"

definition checkFailedJobs :: "(nat \<Rightarrow> string) \<Rightarrow> millis \<Rightarrow> BackupAlert list \<Rightarrow> jobs \<Rightarrow> BackupAlert list" where
  "checkFailedJobs fresh now as js =
     map (\<lambda>(i, j). monitor_createAlert (fresh i) now (bj_id j) al_error
            (''Backup job '' @ bj_id j @ '' failed: '' @ or_default (bj_error j) ''unknown error''))
       (enumerate 0 (filter (\<lambda>j. \<not> error_alerted as (bj_id j)) (filter (\<lambda>j. bj_status j = bs_failed) (listJobs js))))"

text \<open>How the quotient of two integers is printed.\<close>

definition quotient_text :: "(rat \<Rightarrow> string) \<Rightarrow> int \<Rightarrow> int \<Rightarrow> string" where
  "quotient_text fmt a b = (if b dvd a then string_of_int (a div b) else fmt (of_int a / of_int b))"

definition checkStaleBackups ::
  "(rat \<Rightarrow> string) \<Rightarrow> string \<Rightarrow> MonitorConfig \<Rightarrow> millis \<Rightarrow> jobs \<Rightarrow> BackupAlert list" where
  "checkStaleBackups fmt uuid cfg now js =
     (case getLatestCompleted (Some full) js of
        None \<Rightarrow> [monitor_createAlert uuid now ''none'' al_warning ''No completed full backup found'']
      | Some latest \<Rightarrow>
          if now - bj_createdAt latest > maxBackupAgeMs cfg
          then [monitor_createAlert uuid now (bj_id latest) al_warning
                  (''Latest full backup is '' @ string_of_int (math_round (of_int (now - bj_createdAt latest) / 3600000)) @
                   ''h old (threshold: '' @ quotient_text fmt (maxBackupAgeMs cfg) 3600000 @ ''h)'')]
          else [])"

text \<open>The checks append the new alerts to the list and return them.\<close>

definition runChecks ::
  "(rat \<Rightarrow> string) \<Rightarrow> (nat \<Rightarrow> string) \<Rightarrow> MonitorConfig \<Rightarrow> millis \<Rightarrow> jobs \<Rightarrow> BackupAlert list \<Rightarrow> BackupAlert list \<times> BackupAlert list" where
  "runChecks fmt fresh cfg now js as =
     (let errors = checkFailedJobs fresh now as js;
          newAlerts = errors @ checkStaleBackups fmt (fresh (length errors)) cfg now js
      in (as @ newAlerts, newAlerts))"

definition monitor_posts :: "MonitorConfig \<Rightarrow> BackupAlert list \<Rightarrow> BackupAlert list" where
  "monitor_posts cfg newAlerts = (if truthy (monitor_webhookUrl cfg) then newAlerts else [])"

definition getAlerts :: "bool \<Rightarrow> BackupAlert list \<Rightarrow> BackupAlert list" where
  "getAlerts unacknowledgedOnly as = (if unacknowledgedOnly then filter (\<lambda>a. \<not> bal_acknowledged a) as else as)"

definition monitor_acknowledge :: "string \<Rightarrow> BackupAlert list \<Rightarrow> BackupAlert list \<times> bool" where
  "monitor_acknowledge alertId as =
     (update_first (\<lambda>a. bal_id a = alertId) (\<lambda>a. a\<lparr>bal_acknowledged := True\<rparr>) as, list_ex (\<lambda>a. bal_id a = alertId) as)"

section \<open>Restore drill\<close>

record RestoreDrillConfig =
  maxRestoreDurationMs :: millis
  drill_webhookUrl :: "string option"

datatype drill_status = dr_running | dr_passed | dr_failed

record RestoreDrillRun =
  dr_id :: string
  dr_backupJobId :: "string option"
  dr_startedAt :: millis
  dr_completedAt :: "millis option"
  dr_durationMs :: "millis option"
  dr_status :: drill_status
  dr_recordCount :: "nat option"
  dr_checksum :: "string option"
  dr_restoreDurationMs :: "millis option"
  dr_integrityChecks :: "string list"
  dr_error :: "string option"

record RestoreDrillAlert =
  da_id :: string
  da_level :: alert_level
  da_message :: string
  da_timestamp :: millis
  da_backupJobId :: "string option"
  da_restoredAt :: "millis option"
  da_durationMs :: "millis option"
  da_acknowledged :: bool

definition drill_createAlert ::
  "string \<Rightarrow> millis \<Rightarrow> alert_level \<Rightarrow> string \<Rightarrow> string option \<Rightarrow> RestoreDrillRun option \<Rightarrow> RestoreDrillAlert" where
  "drill_createAlert uuid now level msg jobId run =
     \<lparr>da_id = uuid, da_level = level, da_message = msg, da_timestamp = now, da_backupJobId = jobId,
      da_restoredAt = Option.bind run dr_completedAt, da_durationMs = Option.bind run dr_durationMs, da_acknowledged = False\<rparr>"

record drill =
  dl_snapshot :: "json option"
  dl_runs :: "RestoreDrillRun list"
  dl_alerts :: "RestoreDrillAlert list"

definition new_drill :: drill where
  "new_drill = \<lparr>dl_snapshot = None, dl_runs = [], dl_alerts = []\<rparr>"

definition listRuns :: "drill \<Rightarrow> RestoreDrillRun list" where
  "listRuns d = sort_key (\<lambda>r. - dr_startedAt r) (dl_runs d)"

definition listAlerts :: "bool \<Rightarrow> drill \<Rightarrow> RestoreDrillAlert list" where
  "listAlerts unacknowledgedOnly d = (if unacknowledgedOnly then filter (\<lambda>a. \<not> da_acknowledged a) (dl_alerts d) else dl_alerts d)"

definition drill_acknowledge :: "string \<Rightarrow> drill \<Rightarrow> drill \<times> bool" where
  "drill_acknowledge alertId d =
     (d\<lparr>dl_alerts := update_first (\<lambda>a. da_id a = alertId) (\<lambda>a. a\<lparr>da_acknowledged := True\<rparr>) (dl_alerts d)\<rparr>,
      list_ex (\<lambda>a. da_id a = alertId) (dl_alerts d))"

text \<open>A run that fails, with its alert; posting the alert is not awaited.\<close>

definition drill_failed :: "string \<Rightarrow> millis \<Rightarrow> string \<Rightarrow> RestoreDrillRun \<Rightarrow> drill \<Rightarrow> drill \<times> RestoreDrillRun" where
  "drill_failed alertId now message run d =
     (let run' = run\<lparr>dr_status := dr_failed, dr_error := Some message, dr_completedAt := Some now,
                     dr_durationMs := Some (now - dr_startedAt run)\<rparr>
      in (d\<lparr>dl_runs := run' # dl_runs d,
            dl_alerts := drill_createAlert alertId now al_error message (dr_backupJobId run') (Some run') # dl_alerts d\<rparr>, run'))"

definition integrity_issues :: "RestoreDrillConfig \<Rightarrow> BackupJob \<Rightarrow> RecoveryResult \<Rightarrow> string list" where
  "integrity_issues cfg latest restored =
     (if truthy (bj_checksum latest) \<and> Some (rv_checksum restored) \<noteq> bj_checksum latest then [''checksum mismatch''] else []) @
     (if int (rv_recordCount restored) < 0 then [''invalid record count''] else []) @
     (if rv_restoreDurationMs restored > maxRestoreDurationMs cfg
      then [''restore exceeded RTO threshold ('' @ string_of_int (rv_restoreDurationMs restored) @ ''ms > '' @
            string_of_int (maxRestoreDurationMs cfg) @ ''ms)''] else [])"

text \<open>A drill starts at \<open>t0\<close>, which is also when it begins to restore, has restored at \<open>t1\<close> and ends at \<open>t2\<close>.\<close>

definition runDrill ::
  "(rat \<Rightarrow> string) \<Rightarrow> (string \<Rightarrow> string) \<Rightarrow> 's s3_client \<Rightarrow> RestoreDrillConfig \<Rightarrow> string \<Rightarrow> string \<Rightarrow> millis \<Rightarrow> millis \<Rightarrow> millis \<Rightarrow>
    's \<Rightarrow> jobs \<Rightarrow> drill \<Rightarrow> drill \<times> RestoreDrillRun" where
  "runDrill fmt sha s3 cfg runId alertId t0 t1 t2 s js d =
     (let run = \<lparr>dr_id = runId, dr_backupJobId = None, dr_startedAt = t0, dr_completedAt = None, dr_durationMs = None,
                 dr_status = dr_running, dr_recordCount = None, dr_checksum = None, dr_restoreDurationMs = None,
                 dr_integrityChecks = [], dr_error = None\<rparr>
      in case getLatestCompleted (Some full) js of
           None \<Rightarrow> drill_failed alertId t2 ''No completed full backup available for restore drill'' run d
         | Some latest \<Rightarrow>
             (let run = run\<lparr>dr_backupJobId := Some (bj_id latest)\<rparr>;
                  (snapshot, outcome) = restore fmt sha s3 ephemeral_target t0 t1 s js (bj_id latest) (dl_snapshot d);
                  d = d\<lparr>dl_snapshot := snapshot\<rparr>
              in case outcome of
                   Inl e \<Rightarrow> drill_failed alertId t2 (case e of ThrownValue v \<Rightarrow> v | _ \<Rightarrow> err_message e) run d
                 | Inr restored \<Rightarrow>
                     (let run = run\<lparr>dr_recordCount := Some (rv_recordCount restored), dr_checksum := Some (rv_checksum restored),
                                    dr_restoreDurationMs := Some (rv_restoreDurationMs restored),
                                    dr_integrityChecks := [''checksum-verified'', ''payload-parsed'', ''record-count-available'']\<rparr>
                      in if \<not> (case snapshot of None \<Rightarrow> False | Some v \<Rightarrow> json_truthy v)
                         then drill_failed alertId t2
                                (''Restore drill did not materialise an ephemeral snapshot for backup '' @ bj_id latest) run d
                         else if integrity_issues cfg latest restored \<noteq> []
                         then drill_failed alertId t2 (''Restore drill integrity failure for backup '' @ bj_id latest @ '': '' @
                                join ''; '' (integrity_issues cfg latest restored)) run d
                         else let run = run\<lparr>dr_status := dr_passed, dr_completedAt := Some t2, dr_durationMs := Some (t2 - t0)\<rparr>
                              in (d\<lparr>dl_runs := run # dl_runs d\<rparr>, run))))"

definition drill_posts :: "RestoreDrillConfig \<Rightarrow> RestoreDrillAlert \<Rightarrow> RestoreDrillAlert list" where
  "drill_posts cfg a = (if truthy (drill_webhookUrl cfg) then [a] else [])"

section \<open>What the scheduler keeps\<close>

text \<open>The next time of a kind of backup is zero exactly when it is due.\<close>

lemma due_iff_next_zero:
  "shouldRunFullBackup cfg now sch \<longleftrightarrow> getNextFullBackupTime cfg now sch = 0"
  "shouldRunIncrementalBackup cfg now sch \<longleftrightarrow> getNextIncrementalBackupTime cfg now sch = 0"
  by (auto simp: shouldRunFullBackup_def getNextFullBackupTime_def shouldRunIncrementalBackup_def getNextIncrementalBackupTime_def)

lemma getLatestCompleted_SomeD:
  assumes "getLatestCompleted ty js = Some j"
  shows "j \<in> set js" "bj_status j = bs_completed" "\<And>k. ty = Some k \<Longrightarrow> bj_type j = k"
    and "\<And>x. x \<in> set js \<Longrightarrow> bj_status x = bs_completed \<Longrightarrow> ty = None \<or> ty = Some (bj_type x) \<Longrightarrow> bj_createdAt x \<le> bj_createdAt j"
proof -
  let ?P = "\<lambda>j. bj_status j = bs_completed \<and> (ty = None \<or> ty = Some (bj_type j))"
  obtain i where i: "i < length (listJobs js)" "?P (listJobs js ! i)" "j = listJobs js ! i" "\<forall>k<i. \<not> ?P (listJobs js ! k)"
    using assms by (auto simp: getLatestCompleted_def find_Some_iff)
  show "j \<in> set js" "bj_status j = bs_completed" "\<And>k. ty = Some k \<Longrightarrow> bj_type j = k"
    using i nth_mem [OF i(1)] by (auto simp: listJobs_def)
  fix x assume "x \<in> set js" and c: "bj_status x = bs_completed" "ty = None \<or> ty = Some (bj_type x)"
  then obtain k where k: "k < length (listJobs js)" "x = listJobs js ! k"
    unfolding listJobs_def by (metis in_set_conv_nth set_sort)
  have "?P (listJobs js ! k)" using c k(2) by simp
  then have "\<not> k < i" using i(4) by blast
  then have "i \<le> k" by simp
  have "sorted (map (\<lambda>j. - bj_createdAt j) (listJobs js))" by (simp add: listJobs_def)
  from sorted_nth_mono [OF this \<open>i \<le> k\<close>] show "bj_createdAt x \<le> bj_createdAt j"
    using i(1,3) k by simp
qed

lemma getLatestCompleted_None_iff:
  "getLatestCompleted ty js = None \<longleftrightarrow> \<not> (\<exists>j\<in>set js. bj_status j = bs_completed \<and> (ty = None \<or> ty = Some (bj_type j)))"
  by (auto simp: getLatestCompleted_def find_None_iff listJobs_def)

section \<open>What the monitor reports\<close>

lemma checkFailedJobs_jobs:
  "map bal_backupJobId (checkFailedJobs fresh now as js) =
     map bj_id (filter (\<lambda>j. bj_status j = bs_failed \<and> \<not> error_alerted as (bj_id j)) (listJobs js))"
proof -
  have "map bal_backupJobId (map (\<lambda>(i, j). monitor_createAlert (fresh i) now (bj_id j) al_error (msg j)) (enumerate n xs)) = map bj_id xs"
    for msg n xs
    by (induction xs arbitrary: n) (simp_all add: monitor_createAlert_def)
  then show ?thesis
    by (simp add: checkFailedJobs_def conj_commute)
qed

lemma checkFailedJobs_errors: "a \<in> set (checkFailedJobs fresh now as js) \<Longrightarrow> bal_level a = al_error"
  by (auto simp: checkFailedJobs_def monitor_createAlert_def)

lemma checkStaleBackups_warnings: "a \<in> set (checkStaleBackups fmt u cfg now js) \<Longrightarrow> bal_level a = al_warning"
  by (auto simp: checkStaleBackups_def monitor_createAlert_def split: option.splits if_splits)

abbreviation error_jobs :: "BackupAlert list \<Rightarrow> string list" where
  "error_jobs as \<equiv> map bal_backupJobId (filter (\<lambda>a. bal_level a = al_error) as)"

lemma error_alerted_iff: "error_alerted as i \<longleftrightarrow> i \<in> set (error_jobs as)"
  by (auto simp: error_alerted_def list_ex_iff)

lemma error_jobs_runChecks:
  "error_jobs (fst (runChecks fmt fresh cfg now js as)) =
     error_jobs as @ map bj_id (filter (\<lambda>j. bj_status j = bs_failed \<and> \<not> error_alerted as (bj_id j)) (listJobs js))"
proof -
  let ?e = "checkFailedJobs fresh now as js" and ?w = "checkStaleBackups fmt (fresh (length (checkFailedJobs fresh now as js))) cfg now js"
  have "filter (\<lambda>a. bal_level a = al_error) ?e = ?e" by (rule filter_True) (use checkFailedJobs_errors in blast)
  moreover have "filter (\<lambda>a. bal_level a = al_error) ?w = []"
    by (rule filter_False) (use checkStaleBackups_warnings in fastforce)
  ultimately show ?thesis
    by (simp add: runChecks_def Let_def checkFailedJobs_jobs)
qed

text \<open>The alerts of a monitor over time: checks of whatever jobs there are at the time, and acknowledgements.\<close>

inductive monitored :: "BackupAlert list \<Rightarrow> bool" where
  monitored_start: "monitored []"
| monitored_check: "monitored as \<Longrightarrow> distinct (map bj_id js) \<Longrightarrow> monitored (fst (runChecks fmt fresh cfg now js as))"
| monitored_ack: "monitored as \<Longrightarrow> monitored (fst (monitor_acknowledge i as))"

lemma error_jobs_acknowledge: "error_jobs (fst (monitor_acknowledge i as)) = error_jobs as"
  unfolding monitor_acknowledge_def by (induction as) auto

text \<open>A failed job is reported exactly once: in every history of checks and acknowledgements no job has two error
  alerts, and after each check every job that is failed at the time has one.\<close>

theorem failed_job_reported_once:
  assumes "monitored as"
  shows "distinct (error_jobs as)"
    and "\<And>j. j \<in> set js \<Longrightarrow> bj_status j = bs_failed \<Longrightarrow> error_alerted (fst (runChecks fmt fresh cfg now js as)) (bj_id j)"
proof -
  show "distinct (error_jobs as)"
    using assms
  proof induction
    case (monitored_check as js fmt fresh cfg now)
    have "distinct (map bj_id (listJobs js))"
      using monitored_check.hyps(2) distinct_sort by (auto simp: listJobs_def distinct_map)
    then have "distinct (map bj_id (filter (\<lambda>j. bj_status j = bs_failed \<and> \<not> error_alerted as (bj_id j)) (listJobs js)))"
      by (rule distinct_map_filter)
    moreover have "i \<notin> set (error_jobs as)"
      if "i \<in> set (map bj_id (filter (\<lambda>j. bj_status j = bs_failed \<and> \<not> error_alerted as (bj_id j)) (listJobs js)))" for i
      using that by (auto simp only: error_alerted_iff set_map set_filter)
    ultimately show ?case
      using monitored_check.IH unfolding error_jobs_runChecks distinct_append by blast
  qed (simp_all add: error_jobs_acknowledge)
  show "error_alerted (fst (runChecks fmt fresh cfg now js as)) (bj_id j)" if "j \<in> set js" "bj_status j = bs_failed" for j
  proof -
    have "bj_id j \<in> set (error_jobs (fst (runChecks fmt fresh cfg now js as)))"
      unfolding error_jobs_runChecks using that by (auto simp: error_alerted_iff listJobs_def)
    then show ?thesis by (simp only: error_alerted_iff)
  qed
qed

text \<open>A check is silent exactly when every failed job has been reported and some completed full backup is no older
  than the threshold. The warning about old backups is repeated by every check until then.\<close>

theorem silent_check_iff:
  "snd (runChecks fmt fresh cfg now js as) = [] \<longleftrightarrow>
     (\<forall>j\<in>set js. bj_status j = bs_failed \<longrightarrow> error_alerted as (bj_id j)) \<and>
     (\<exists>j\<in>set js. bj_status j = bs_completed \<and> bj_type j = full \<and> now - bj_createdAt j \<le> maxBackupAgeMs cfg)"
proof -
  have "checkFailedJobs fresh now as js = [] \<longleftrightarrow> (\<forall>j\<in>set js. bj_status j = bs_failed \<longrightarrow> error_alerted as (bj_id j))"
    using arg_cong [OF checkFailedJobs_jobs [of fresh now as js], of "\<lambda>xs. xs = []"]
    by (simp add: filter_empty_conv listJobs_def)
  moreover have "checkStaleBackups fmt u cfg now js = [] \<longleftrightarrow>
      (\<exists>j\<in>set js. bj_status j = bs_completed \<and> bj_type j = full \<and> now - bj_createdAt j \<le> maxBackupAgeMs cfg)" for u
  proof (cases "getLatestCompleted (Some full) js")
    case None
    then have "checkStaleBackups fmt u cfg now js \<noteq> []" by (simp add: checkStaleBackups_def)
    moreover from None have "\<not> (\<exists>j\<in>set js. bj_status j = bs_completed \<and> bj_type j = full)"
      by (auto simp: getLatestCompleted_None_iff)
    ultimately show ?thesis by blast
  next
    case (Some l)
    note l = getLatestCompleted_SomeD [OF Some]
    have "now - bj_createdAt l \<le> maxBackupAgeMs cfg"
      if "j \<in> set js" "bj_status j = bs_completed" "bj_type j = full" "now - bj_createdAt j \<le> maxBackupAgeMs cfg" for j
      using l(4) [OF that(1,2)] that(3,4) by simp
    moreover have "l \<in> set js" "bj_status l = bs_completed" "bj_type l = full" using l(1,2) l(3) [OF refl] .
    ultimately have "(\<exists>j\<in>set js. bj_status j = bs_completed \<and> bj_type j = full \<and> now - bj_createdAt j \<le> maxBackupAgeMs cfg) \<longleftrightarrow>
          now - bj_createdAt l \<le> maxBackupAgeMs cfg"
      by blast
    with Some show ?thesis by (simp add: checkStaleBackups_def not_less)
  qed
  ultimately show ?thesis by (simp add: runChecks_def Let_def)
qed

section \<open>What a drill shows\<close>

text \<open>A drill passes exactly when there is a completed full backup, the latest one can be restored to a value that is
  not falsy, and that took no longer than allowed: the two further integrity tests, of the checksum and of the
  number of records, can never fail after a restoration that succeeded.\<close>

lemma restore_facts:
  assumes "restore fmt sha s3 apply_to t0 t1 s js jobId t = (t', Inr res)"
  obtains job where "backup_getJob jobId js = Some job" "truthy (bj_checksum job) \<longrightarrow> bj_checksum job = Some (rv_checksum res)"
    "rv_restoreDurationMs res = t1 - t0"
  using assms by (fastforce simp: restore_def Let_def split: option.splits if_splits sum.splits s3_body.splits)

lemma backup_getJob_unique: "distinct (map bj_id js) \<Longrightarrow> j \<in> set js \<Longrightarrow> backup_getJob (bj_id j) js = Some j"
  by (induction js) (auto simp: backup_getJob_def)

theorem drill_passes_iff:
  assumes "distinct (map bj_id js)"
  shows "dr_status (snd (runDrill fmt sha s3 cfg runId alertId t0 t1 t2 s js d)) = dr_passed \<longleftrightarrow>
     (\<exists>latest v res. getLatestCompleted (Some full) js = Some latest \<and>
        restore fmt sha s3 ephemeral_target t0 t1 s js (bj_id latest) (dl_snapshot d) = (Some v, Inr res) \<and>
        json_truthy v \<and> t1 - t0 \<le> maxRestoreDurationMs cfg)"
proof (cases "getLatestCompleted (Some full) js")
  case None
  then show ?thesis by (simp add: runDrill_def drill_failed_def Let_def)
next
  case (Some l)
  obtain sn out where r: "restore fmt sha s3 ephemeral_target t0 t1 s js (bj_id l) (dl_snapshot d) = (sn, out)" by fastforce
  show ?thesis
  proof (cases out)
    case (Inl e)
    then show ?thesis using Some r by (simp add: runDrill_def drill_failed_def Let_def)
  next
    case (Inr res)
    have "backup_getJob (bj_id l) js = Some l"
      by (rule backup_getJob_unique [OF assms getLatestCompleted_SomeD(1) [OF Some]])
    with restore_facts [OF r [unfolded Inr]]
    have "truthy (bj_checksum l) \<longrightarrow> bj_checksum l = Some (rv_checksum res)" "rv_restoreDurationMs res = t1 - t0"
      by (metis option.inject)+
    then have "integrity_issues cfg l res = [] \<longleftrightarrow> t1 - t0 \<le> maxRestoreDurationMs cfg"
      by (auto simp: integrity_issues_def not_less)
    moreover have "dr_status (snd (runDrill fmt sha s3 cfg runId alertId t0 t1 t2 s js d)) = dr_passed \<longleftrightarrow>
        (\<exists>v. sn = Some v \<and> json_truthy v) \<and> integrity_issues cfg l res = []"
      using Some r Inr by (simp add: runDrill_def drill_failed_def Let_def split: option.split)
    ultimately show ?thesis using Some r Inr by auto
  qed
qed

theorem drill_passes_iff_witness:
  "distinct (map bj_id [old_full]) \<and>
   dr_status (snd (runDrill (\<lambda>_. []) (\<lambda>s. s) mem_s3 \<lparr>maxRestoreDurationMs = 10, drill_webhookUrl = None\<rparr> ''r'' ''a'' 0 5 6
     [(s3_key full ''f1'', Json (JObj []))] [old_full] new_drill)) = dr_passed"
proof -
  have key: "s3_key full ''f1'' \<noteq> []" by (simp add: s3_key_def)
  have "restore (\<lambda>_. []) (\<lambda>s. s) mem_s3 ephemeral_target 0 5 [(s3_key full ''f1'', Json (JObj []))] [old_full] ''f1'' None =
      (Some (JObj []), Inr \<lparr>rv_jobId = ''f1'', rv_restoredAt = 5, rv_recordCount = 0, rv_checksum = ''{}'', rv_restoreDurationMs = 5\<rparr>)"
    using key by (simp add: restore_def old_full_def backup_getJob_def mem_s3_def Let_def countRecords_def json_field_def)
  moreover have "getLatestCompleted (Some full) [old_full] = Some old_full"
    by (simp add: getLatestCompleted_def listJobs_def old_full_def)
  ultimately show ?thesis
    using drill_passes_iff [of "[old_full]" "\<lambda>_. []" "\<lambda>s. s" mem_s3 "\<lparr>maxRestoreDurationMs = 10, drill_webhookUrl = None\<rparr>"
      "''r''" "''a''" 0 5 6 "[(s3_key full ''f1'', Json (JObj []))]" new_drill]
    by (simp add: old_full_def new_drill_def)
qed

text \<open>Every drill leaves exactly one run behind, with its duration, and an alert exactly when it failed.\<close>

theorem drill_accounts:
  assumes "runDrill fmt sha s3 cfg runId alertId t0 t1 t2 s js d = (d', run)"
  shows "dl_runs d' = run # dl_runs d \<and> dr_status run \<noteq> dr_running \<and> dr_durationMs run = Some (t2 - t0) \<and>
         (dr_status run = dr_failed \<longleftrightarrow> dr_error run \<noteq> None) \<and>
         (\<exists>new. dl_alerts d' = new @ dl_alerts d \<and> length new = (if dr_status run = dr_failed then 1 else 0))"
  using assms
  by (auto simp: runDrill_def drill_failed_def Let_def split: option.splits prod.splits sum.splits if_splits)

end
