(* ===== verification/Backup_Orchestrator.thy ===== *)
theory Backup_Orchestrator
  imports Backup_Monitor
begin

text \<open>
  The coordination of backups, \<open>backend/src/lib/backup-orchestrator.ts\<close>: the four timers, starting and stopping
  as a step relation (starting awaits three times, and a stop may fall in between), and the activities the timers
  run, over one state with the jobs, the uploads in flight, the prunings under way and the object store. An upload and a
  pruning are taken apart at their awaits, so that anything may happen between two of their steps. Events go to listeners whose
  errors are caught, so they are the list of events emitted.
\<close>

section \<open>Activities\<close>

datatype activity = backup_started | backup_failed | check_completed | drill_completed | prune_completed | alert_generated

datatype activity_component = c_scheduler | c_service | c_monitor | c_drill | c_pruner

record BackupActivityEvent =
  ev_activity :: activity
  ev_time :: millis
  ev_component :: activity_component
  ev_details :: json

text \<open>A pruning under way: its cutoff, the keys it has still to look at, the job whose object it has just deleted and whose entry it
  removes next, and its count.\<close>

record prune_run =
  pr_cutoff :: millis
  pr_keys :: "string list"
  pr_deleting :: "string option"
  pr_pruned :: nat

text \<open>An upload is in flight until the store acts on it, and has an answer until the service reads the answer.\<close>

record 's backups =
  bk_store :: 's
  bk_jobs :: jobs
  bk_uploads :: "upload list"
  bk_answers :: "(upload \<times> (thrown + unit)) list"
  bk_prunes :: "prune_run list"
  bk_scheduler :: backup_scheduler
  bk_alerts :: "BackupAlert list"
  bk_drill :: drill
  bk_events :: "BackupActivityEvent list"

definition no_backups :: "'s \<Rightarrow> 's backups" where
  "no_backups s = \<lparr>bk_store = s, bk_jobs = [], bk_uploads = [], bk_answers = [], bk_prunes = [], bk_scheduler = new_scheduler, bk_alerts = [],
     bk_drill = new_drill, bk_events = []\<rparr>"

definition emit :: "activity \<Rightarrow> millis \<Rightarrow> activity_component \<Rightarrow> (string \<times> json) list \<Rightarrow> 's backups \<Rightarrow> 's backups" where
  "emit ty now part details st =
     st\<lparr>bk_events := bk_events st @ [\<lparr>ev_activity = ty, ev_time = now, ev_component = part, ev_details = JObj details\<rparr>]\<rparr>"

definition runSchedulerOnce ::
  "(rat \<Rightarrow> string) \<Rightarrow> (string \<Rightarrow> string) \<Rightarrow> millis \<Rightarrow> string \<Rightarrow> BackupType \<Rightarrow> 's backups \<Rightarrow> 's backups" where
  "runSchedulerOnce fmt sha now uuid ty st =
     (let (sch, js, u) = triggerManual fmt sha now uuid ty (bk_scheduler st) (bk_jobs st)
      in emit backup_started now c_scheduler [(''jobId'', JStr uuid), (''backupType'', JStr (type_name ty))]
           (st\<lparr>bk_scheduler := sch, bk_jobs := js, bk_uploads := u # bk_uploads st\<rparr>))"

text \<open>Nothing in the cycle throws, so its error branch is not taken.\<close>

definition runSchedulerCycle ::
  "(rat \<Rightarrow> string) \<Rightarrow> (string \<Rightarrow> string) \<Rightarrow> SchedulerConfig \<Rightarrow> millis \<Rightarrow> string \<Rightarrow> 's backups \<Rightarrow> 's backups" where
  "runSchedulerCycle fmt sha cfg now uuid st =
     (if shouldRunFullBackup cfg now (bk_scheduler st) then runSchedulerOnce fmt sha now uuid full st
      else if shouldRunIncrementalBackup cfg now (bk_scheduler st) then runSchedulerOnce fmt sha now uuid incremental st
      else st)"

definition runMonitorOnce ::
  "(rat \<Rightarrow> string) \<Rightarrow> (nat \<Rightarrow> string) \<Rightarrow> MonitorConfig \<Rightarrow> millis \<Rightarrow> 's backups \<Rightarrow> 's backups" where
  "runMonitorOnce fmt fresh cfg now st =
     (let (as, new) = runChecks fmt fresh cfg now (bk_jobs st) (bk_alerts st); st' = st\<lparr>bk_alerts := as\<rparr>
      in emit check_completed now c_monitor [(''alertsGenerated'', JNum (int (length new)))]
           (if length new > 0 then emit alert_generated now c_monitor [(''alertCount'', JNum (int (length new)))] st' else st'))"

fun drill_status_name :: "drill_status \<Rightarrow> string" where
  "drill_status_name dr_running = ''running''"
| "drill_status_name dr_passed = ''passed''"
| "drill_status_name dr_failed = ''failed''"

definition runDrillOnce ::
  "(rat \<Rightarrow> string) \<Rightarrow> (string \<Rightarrow> string) \<Rightarrow> 's s3_client \<Rightarrow> RestoreDrillConfig \<Rightarrow> string \<Rightarrow> string \<Rightarrow> millis \<Rightarrow> millis \<Rightarrow> millis \<Rightarrow>
    's backups \<Rightarrow> 's backups" where
  "runDrillOnce fmt sha s3 cfg runId alertId t0 t1 t2 st =
     (let (d, run) = runDrill fmt sha s3 cfg runId alertId t0 t1 t2 (bk_store st) (bk_jobs st) (bk_drill st)
      in emit drill_completed t2 c_drill
           [(''drillId'', JStr (dr_id run)), (''status'', JStr (drill_status_name (dr_status run))),
            (''durationMs'', case dr_durationMs run of None \<Rightarrow> JNull | Some n \<Rightarrow> JNum n)]
           (st\<lparr>bk_drill := d\<rparr>))"

definition runPruneOnce :: "'s s3_client \<Rightarrow> int \<Rightarrow> millis \<Rightarrow> 's backups \<Rightarrow> 's backups" where
  "runPruneOnce s3 retentionDays now st =
     (case pruneOldBackups s3 retentionDays now (bk_store st) (bk_jobs st) of
        (s, js, Inr pruned) \<Rightarrow>
          emit prune_completed now c_service [(''prunedCount'', JNum (int pruned))] (st\<lparr>bk_store := s, bk_jobs := js\<rparr>)
      | (s, js, Inl e) \<Rightarrow>
          emit backup_failed now c_service [(''error'', JStr (case e of ThrownValue v \<Rightarrow> v | _ \<Rightarrow> err_message e))]
            (st\<lparr>bk_store := s, bk_jobs := js\<rparr>))"

text \<open>The object store acts on an upload in flight, and later its answer settles the job.\<close>

definition upload_put :: "'s s3_client \<Rightarrow> upload \<Rightarrow> 's backups \<Rightarrow> 's backups" where
  "upload_put s3 u st =
     (case putObject s3 (bk_store st) (up_key u) (up_body u) of
        Inr s \<Rightarrow> st\<lparr>bk_store := s, bk_uploads := remove1 u (bk_uploads st), bk_answers := (u, Inr ()) # bk_answers st\<rparr>
      | Inl e \<Rightarrow> st\<lparr>bk_uploads := remove1 u (bk_uploads st), bk_answers := (u, Inl e) # bk_answers st\<rparr>)"

definition upload_answered :: "millis \<Rightarrow> upload \<times> (thrown + unit) \<Rightarrow> 's backups \<Rightarrow> 's backups" where
  "upload_answered now a st = st\<lparr>bk_jobs := upload_settled now (fst a) (snd a) (bk_jobs st), bk_answers := remove1 a (bk_answers st)\<rparr>"

text \<open>A pruning starts when the listing is answered. Each of its steps looks at one key, up to the deletion of its object if the
  job is past its retention, or removes the job whose object was deleted, or ends the pruning.\<close>

definition prune_failed :: "millis \<Rightarrow> thrown \<Rightarrow> 's backups \<Rightarrow> 's backups" where
  "prune_failed now e = emit backup_failed now c_service [(''error'', JStr (case e of ThrownValue v \<Rightarrow> v | _ \<Rightarrow> err_message e))]"

definition prune_begin :: "'s s3_client \<Rightarrow> int \<Rightarrow> millis \<Rightarrow> 's backups \<Rightarrow> 's backups" where
  "prune_begin s3 retentionDays now st =
     (case listObjects s3 (bk_store st) ''backups/'' of
        Inl e \<Rightarrow> prune_failed now e st
      | Inr ks \<Rightarrow> st\<lparr>bk_prunes := \<lparr>pr_cutoff = now - retentionDays * 86400000, pr_keys = ks, pr_deleting = None, pr_pruned = 0\<rparr> # bk_prunes st\<rparr>)"

definition prune_goes_on :: "prune_run \<Rightarrow> prune_run \<Rightarrow> 's backups \<Rightarrow> 's backups" where
  "prune_goes_on run run' st = st\<lparr>bk_prunes := run' # remove1 run (bk_prunes st)\<rparr>"

definition prune_ends :: "prune_run \<Rightarrow> 's backups \<Rightarrow> 's backups" where
  "prune_ends run st = st\<lparr>bk_prunes := remove1 run (bk_prunes st)\<rparr>"

definition prune_next :: "'s s3_client \<Rightarrow> millis \<Rightarrow> prune_run \<Rightarrow> 's backups \<Rightarrow> 's backups" where
  "prune_next s3 now run st =
     (case pr_deleting run of
        Some i \<Rightarrow> prune_goes_on run (run\<lparr>pr_deleting := None, pr_pruned := pr_pruned run + 1\<rparr>)
                   (st\<lparr>bk_jobs := filter (\<lambda>x. bj_id x \<noteq> i) (bk_jobs st)\<rparr>)
      | None \<Rightarrow>
          (case pr_keys run of
             [] \<Rightarrow> prune_ends run (emit prune_completed now c_service [(''prunedCount'', JNum (int (pr_pruned run)))] st)
           | key # ks \<Rightarrow>
               (case (if job_of_key key = [] then None else backup_getJob (job_of_key key) (bk_jobs st)) of
                  None \<Rightarrow> prune_goes_on run (run\<lparr>pr_keys := ks\<rparr>) st
                | Some j \<Rightarrow>
                    if bj_createdAt j < pr_cutoff run then
                      (case deleteObject s3 (bk_store st) key of
                         Inl e \<Rightarrow> prune_ends run (prune_failed now e st)
                       | Inr s \<Rightarrow> prune_goes_on run (run\<lparr>pr_keys := ks, pr_deleting := Some (bj_id j)\<rparr>) (st\<lparr>bk_store := s\<rparr>))
                    else prune_goes_on run (run\<lparr>pr_keys := ks\<rparr>) st)))"

text \<open>The jobs whose object a pruning has deleted and whose entry it is about to remove.\<close>

definition being_deleted :: "'s backups \<Rightarrow> string \<Rightarrow> bool" where
  "being_deleted st i \<longleftrightarrow> list_ex (\<lambda>run. pr_deleting run = Some i) (bk_prunes st)"

section \<open>Timers\<close>

datatype start_stage = AwaitScheduler | AwaitMonitor | AwaitDrill

record timers =
  schedulerTimer :: "nat option"
  monitorTimer :: "nat option"
  drillTimer :: "nat option"
  pruneTimer :: "nat option"
  orch_running :: bool
  starting :: "start_stage list"
  live :: "nat list"
  next_timer :: nat

definition stopped_timers :: timers where
  "stopped_timers = \<lparr>schedulerTimer = None, monitorTimer = None, drillTimer = None, pruneTimer = None,
     orch_running = False, starting = [], live = [], next_timer = 0\<rparr>"

text \<open>\<open>setInterval\<close> gives a new timer, \<open>clearInterval\<close> ends one; a running start is the stage it awaits.\<close>

definition setInterval :: "timers \<Rightarrow> timers \<times> nat" where
  "setInterval tm = (tm\<lparr>live := next_timer tm # live tm, next_timer := next_timer tm + 1\<rparr>, next_timer tm)"

fun clearInterval :: "nat option \<Rightarrow> timers \<Rightarrow> timers" where
  "clearInterval None tm = tm"
| "clearInterval (Some i) tm = tm\<lparr>live := remove1 i (live tm)\<rparr>"

definition orch_start :: "timers \<Rightarrow> timers" where
  "orch_start tm = (if orch_running tm then tm else tm\<lparr>orch_running := True, starting := AwaitScheduler # starting tm\<rparr>)"

fun start_resumed :: "start_stage \<Rightarrow> timers \<Rightarrow> timers" where
  "start_resumed AwaitScheduler tm =
     (let (tm', i) = setInterval tm in tm'\<lparr>schedulerTimer := Some i, starting := AwaitMonitor # remove1 AwaitScheduler (starting tm)\<rparr>)"
| "start_resumed AwaitMonitor tm =
     (let (tm', i) = setInterval tm in tm'\<lparr>monitorTimer := Some i, starting := AwaitDrill # remove1 AwaitMonitor (starting tm)\<rparr>)"
| "start_resumed AwaitDrill tm =
     (let (tm1, i) = setInterval tm; (tm2, j) = setInterval (tm1\<lparr>drillTimer := Some i\<rparr>)
      in tm2\<lparr>pruneTimer := Some j, starting := remove1 AwaitDrill (starting tm)\<rparr>)"

definition orch_stop :: "timers \<Rightarrow> timers" where
  "orch_stop tm =
     (if \<not> orch_running tm then tm
      else (clearInterval (pruneTimer tm) (clearInterval (drillTimer tm) (clearInterval (monitorTimer tm)
              (clearInterval (schedulerTimer tm) tm))))
           \<lparr>schedulerTimer := None, monitorTimer := None, drillTimer := None, pruneTimer := None, orch_running := False\<rparr>)"

section \<open>The timers\<close>

text \<open>Starts, resumptions of a start and stops, where no stop falls into a start.\<close>

inductive orderly :: "timers \<Rightarrow> bool" where
  orderly_new: "orderly stopped_timers"
| orderly_start: "orderly tm \<Longrightarrow> orderly (orch_start tm)"
| orderly_resume: "orderly tm \<Longrightarrow> stage \<in> set (starting tm) \<Longrightarrow> orderly (start_resumed stage tm)"
| orderly_stop: "orderly tm \<Longrightarrow> starting tm = [] \<Longrightarrow> orderly (orch_stop tm)"

definition held :: "timers \<Rightarrow> nat list" where
  "held tm = concat (map (\<lambda>t. case t of None \<Rightarrow> [] | Some i \<Rightarrow> [i]) [schedulerTimer tm, monitorTimer tm, drillTimer tm, pruneTimer tm])"

text \<open>How many timers a start has set when it awaits a stage.\<close>

fun stage_timers :: "start_stage list \<Rightarrow> timers \<Rightarrow> bool" where
  "stage_timers [] tm \<longleftrightarrow>
     (orch_running tm \<longleftrightarrow> schedulerTimer tm \<noteq> None \<and> monitorTimer tm \<noteq> None \<and> drillTimer tm \<noteq> None \<and> pruneTimer tm \<noteq> None)"
| "stage_timers [AwaitScheduler] tm \<longleftrightarrow> orch_running tm \<and> held tm = []"
| "stage_timers [AwaitMonitor] tm \<longleftrightarrow> orch_running tm \<and> schedulerTimer tm \<noteq> None \<and> monitorTimer tm = None \<and> drillTimer tm = None \<and> pruneTimer tm = None"
| "stage_timers [AwaitDrill] tm \<longleftrightarrow> orch_running tm \<and> schedulerTimer tm \<noteq> None \<and> monitorTimer tm \<noteq> None \<and> drillTimer tm = None \<and> pruneTimer tm = None"
| "stage_timers _ tm \<longleftrightarrow> False"

definition timers_ok :: "timers \<Rightarrow> bool" where
  "timers_ok tm \<longleftrightarrow> mset (live tm) = mset (held tm) \<and> (\<not> orch_running tm \<longrightarrow> held tm = []) \<and> stage_timers (starting tm) tm"

lemma held_Nil_iff: "held tm = [] \<longleftrightarrow> schedulerTimer tm = None \<and> monitorTimer tm = None \<and> drillTimer tm = None \<and> pruneTimer tm = None"
  by (auto simp: held_def split: option.splits)

lemma stage_cases: "stage_timers sts tm \<Longrightarrow> sts = [] \<or> (\<exists>st. sts = [st])"
  by (induction sts tm rule: stage_timers.induct) auto

lemma orderly_ok: "orderly tm \<Longrightarrow> timers_ok tm"
proof (induction rule: orderly.induct)
  case orderly_new
  then show ?case by (simp add: timers_ok_def stopped_timers_def held_def)
next
  case (orderly_start tm)
  then show ?case
    using stage_cases [of "starting tm" tm]
    by (cases "orch_running tm") (auto simp: timers_ok_def orch_start_def held_def split: start_stage.splits, (cases "hd (starting tm)"; auto)+)
next
  case (orderly_resume tm stage)
  then obtain st where "starting tm = [st]"
    using stage_cases [of "starting tm" tm] by (auto simp: timers_ok_def)
  then show ?case using orderly_resume
    by (cases st) (auto simp: timers_ok_def setInterval_def held_Nil_iff, auto simp: held_def)
next
  case (orderly_stop tm)
  then show ?case
    by (cases "orch_running tm") (auto simp: timers_ok_def orch_stop_def held_def, simp flip: mset_zero_iff)
qed

text \<open>When no stop falls into a start, the live timers are exactly the ones the orchestrator holds, four of them
  after a completed start; when it is not running none is live.\<close>

theorem timers_are_held:
  assumes "orderly tm"
  shows "mset (live tm) = mset (held tm) \<and> (\<not> orch_running tm \<longrightarrow> live tm = []) \<and>
         (orch_running tm \<and> starting tm = [] \<longrightarrow> length (live tm) = 4)"
proof -
  have ok: "timers_ok tm" by (rule orderly_ok [OF assms])
  then have "length (held tm) = 4" if "orch_running tm" "starting tm = []"
    using that by (auto simp: timers_ok_def held_def)
  with ok show ?thesis
    by (metis mset_zero_iff_right size_mset timers_ok_def)
qed

text \<open>A stop that falls into a start is undone: the start goes on, sets its timers, and no later stop clears them,
  since the orchestrator is not running.\<close>

theorem stop_during_start_leaks:
  "let tm = start_resumed AwaitDrill (start_resumed AwaitMonitor (start_resumed AwaitScheduler (orch_stop (orch_start stopped_timers))))
   in \<not> orch_running tm \<and> length (live tm) = 4 \<and> orch_stop tm = tm"
  by (simp add: orch_start_def orch_stop_def stopped_timers_def setInterval_def)

section \<open>How old the latest full backup can get\<close>

text \<open>Cycles at the given times, each with an id for the backup it may start.\<close>

definition run_cycles ::
  "(rat \<Rightarrow> string) \<Rightarrow> (string \<Rightarrow> string) \<Rightarrow> SchedulerConfig \<Rightarrow> (millis \<times> string) list \<Rightarrow> 's backups \<Rightarrow> 's backups" where
  "run_cycles fmt sha cfg cs st = fold (\<lambda>(now, uuid). runSchedulerCycle fmt sha cfg now uuid) cs st"

lemma emit_simps [simp]:
  "bk_store (emit a t c d st) = bk_store st" "bk_jobs (emit a t c d st) = bk_jobs st"
  "bk_uploads (emit a t c d st) = bk_uploads st" "bk_scheduler (emit a t c d st) = bk_scheduler st"
  "bk_answers (emit a t c d st) = bk_answers st" "bk_prunes (emit a t c d st) = bk_prunes st"
  "bk_alerts (emit a t c d st) = bk_alerts st" "bk_drill (emit a t c d st) = bk_drill st"
  by (simp_all add: emit_def)

lemma runSchedulerOnce_times:
  "lastFullBackupTime (bk_scheduler (runSchedulerOnce fmt sha now uuid ty st)) =
     (if ty = full then now else lastFullBackupTime (bk_scheduler st))"
  "lastIncrementalBackupTime (bk_scheduler (runSchedulerOnce fmt sha now uuid ty st)) =
     (if ty = incremental then now else lastIncrementalBackupTime (bk_scheduler st))"
  by (cases ty; simp add: runSchedulerOnce_def triggerManual_def runFull_def runIncremental_def Let_def split: prod.split)+

lemma cycle_full_recent:
  assumes "0 < fullBackupIntervalMs cfg"
  shows "now - lastFullBackupTime (bk_scheduler (runSchedulerCycle fmt sha cfg now uuid st)) < fullBackupIntervalMs cfg"
  using assms by (auto simp: runSchedulerCycle_def shouldRunFullBackup_def runSchedulerOnce_times)

text \<open>Full backups are started in time. When the scheduler cycles at least every \<open>period\<close> milliseconds, the last full
  backup was started less than the full interval plus one period ago at every moment up to the next cycle, whatever
  incremental backups come between.\<close>

theorem full_backup_age_bounded:
  assumes "cs \<noteq> []" and "0 < fullBackupIntervalMs cfg" and "t \<le> fst (last cs) + period"
  shows "t - lastFullBackupTime (bk_scheduler (run_cycles fmt sha cfg cs st)) < fullBackupIntervalMs cfg + period"
proof -
  obtain now uuid ds where cs: "cs = ds @ [(now, uuid)]" using assms(1) by (metis rev_exhaust surj_pair)
  have "now - lastFullBackupTime (bk_scheduler (run_cycles fmt sha cfg cs st)) < fullBackupIntervalMs cfg"
    using cycle_full_recent [OF assms(2)] by (simp add: run_cycles_def cs)
  with assms(3) cs show ?thesis by simp
qed

text \<open>Incremental backups starve when the scheduler cycles no more often than full backups are due: every cycle then
  starts a full backup and none an incremental one. With the timer period of the orchestrator, the smaller of the
  two intervals, this is the case whenever the full interval is the smaller.\<close>

theorem incremental_backups_starve:
  assumes "sorted_wrt (\<lambda>a b. fullBackupIntervalMs cfg \<le> fst b - fst a) cs"
    and "\<And>c. c \<in> set cs \<Longrightarrow> fullBackupIntervalMs cfg \<le> fst c - lastFullBackupTime (bk_scheduler st)"
  shows "lastIncrementalBackupTime (bk_scheduler (run_cycles fmt sha cfg cs st)) = lastIncrementalBackupTime (bk_scheduler st)"
  using assms
proof (induction cs arbitrary: st)
  case (Cons c cs)
  have due: "shouldRunFullBackup cfg (fst c) (bk_scheduler st)" using Cons.prems(2) by (simp add: shouldRunFullBackup_def)
  let ?st = "runSchedulerCycle fmt sha cfg (fst c) (snd c) st"
  have "lastIncrementalBackupTime (bk_scheduler (run_cycles fmt sha cfg cs ?st)) = lastIncrementalBackupTime (bk_scheduler ?st)"
    using Cons.prems(1) due by (intro Cons.IH) (auto simp: runSchedulerCycle_def runSchedulerOnce_times)
  then show ?case using due by (simp add: run_cycles_def case_prod_beta runSchedulerCycle_def runSchedulerOnce_times)
qed (simp add: run_cycles_def)

section \<open>Completed backups stay restorable\<close>

text \<open>A random UUID consists of hexadecimal digits and dashes, and is new.\<close>

definition plain_id :: "string \<Rightarrow> bool" where
  "plain_id i \<longleftrightarrow> CHR ''/'' \<notin> set i \<and> CHR ''.'' \<notin> set i"

definition new_id :: "string \<Rightarrow> 's backups \<Rightarrow> bool" where
  "new_id i st \<longleftrightarrow> plain_id i \<and> i \<notin> set (map bj_id (bk_jobs st) @ map up_jobId (bk_uploads st) @ map (up_jobId \<circ> fst) (bk_answers st))"

inductive backup_step :: "(rat \<Rightarrow> string) \<Rightarrow> (string \<Rightarrow> string) \<Rightarrow> 's s3_client \<Rightarrow> 's backups \<Rightarrow> 's backups \<Rightarrow> bool"
  for fmt sha s3 where
  step_backup: "new_id uuid st \<Longrightarrow> backup_step fmt sha s3 st (runSchedulerOnce fmt sha now uuid ty st)"
| step_put: "u \<in> set (bk_uploads st) \<Longrightarrow> backup_step fmt sha s3 st (upload_put s3 u st)"
| step_answer: "a \<in> set (bk_answers st) \<Longrightarrow> backup_step fmt sha s3 st (upload_answered now a st)"
| step_monitor: "backup_step fmt sha s3 st (runMonitorOnce fmt fresh cfg now st)"
| step_drill: "backup_step fmt sha s3 st (runDrillOnce fmt sha s3 dcfg runId alertId t0 t1 t2 st)"
| step_prune_begin: "backup_step fmt sha s3 st (prune_begin s3 retentionDays now st)"
| step_prune_next: "run \<in> set (bk_prunes st) \<Longrightarrow> backup_step fmt sha s3 st (prune_next s3 now run st)"

text \<open>A cycle of the scheduler is one of these steps, or none.\<close>

lemma cycle_is_step:
  assumes "new_id uuid st"
  shows "runSchedulerCycle fmt sha cfg now uuid st = st \<or> backup_step fmt sha s3 st (runSchedulerCycle fmt sha cfg now uuid st)"
  using step_backup [OF assms] by (auto simp: runSchedulerCycle_def)

text \<open>An upload belongs to a job that is running, if the job is still there. Once the store has acted on it, its object is there,
  unless its job was pruned or is being pruned. A completed job has its key and its checksum, and its object is there
  unless it is being pruned.\<close>

definition backup_data :: "BackupJob \<Rightarrow> json" where
  "backup_data j = collectData (bj_createdAt j) (bj_type j) (bj_baseBackupId j)"

definition upload_ok :: "(rat \<Rightarrow> string) \<Rightarrow> (string \<Rightarrow> string) \<Rightarrow> jobs \<Rightarrow> upload \<Rightarrow> bool" where
  "upload_ok fmt sha js u \<longleftrightarrow> plain_id (up_jobId u) \<and>
     (\<exists>ty payload. up_key u = s3_key ty (up_jobId u) \<and> up_body u = Json payload \<and> up_checksum u = sha (stringify fmt payload) \<and>
        (\<forall>j\<in>set js. bj_id j = up_jobId u \<longrightarrow> bj_type j = ty \<and> bj_status j = bs_running \<and> payload = backup_data j))"

definition answer_ok :: "(string \<Rightarrow> s3_body option) \<Rightarrow> (string \<Rightarrow> bool) \<Rightarrow> jobs \<Rightarrow> upload \<times> (thrown + unit) \<Rightarrow> bool" where
  "answer_ok objs deleted js a \<longleftrightarrow> snd a = Inr () \<longrightarrow> up_jobId (fst a) \<in> bj_id ` set js \<longrightarrow>
     deleted (up_jobId (fst a)) \<or> objs (up_key (fst a)) = Some (up_body (fst a))"

definition job_ok :: "(rat \<Rightarrow> string) \<Rightarrow> (string \<Rightarrow> string) \<Rightarrow> (string \<Rightarrow> s3_body option) \<Rightarrow> (string \<Rightarrow> bool) \<Rightarrow> BackupJob \<Rightarrow> bool" where
  "job_ok fmt sha objs deleted j \<longleftrightarrow> plain_id (bj_id j) \<and>
     (bj_status j = bs_completed \<longrightarrow> bj_s3Key j = Some (s3_key (bj_type j) (bj_id j)) \<and>
        bj_checksum j = Some (sha (stringify fmt (backup_data j))) \<and>
        (deleted (bj_id j) \<or> objs (s3_key (bj_type j) (bj_id j)) = Some (Json (backup_data j))))"

definition all_uploads :: "'s backups \<Rightarrow> upload list" where
  "all_uploads st = bk_uploads st @ map fst (bk_answers st)"

definition backups_ok :: "(rat \<Rightarrow> string) \<Rightarrow> (string \<Rightarrow> string) \<Rightarrow> ('s \<Rightarrow> string \<Rightarrow> s3_body option) \<Rightarrow> 's backups \<Rightarrow> bool" where
  "backups_ok fmt sha objects st \<longleftrightarrow> distinct (map bj_id (bk_jobs st)) \<and> distinct (map up_jobId (all_uploads st)) \<and>
     (\<forall>u\<in>set (all_uploads st). upload_ok fmt sha (bk_jobs st) u) \<and>
     (\<forall>a\<in>set (bk_answers st). answer_ok (objects (bk_store st)) (being_deleted st) (bk_jobs st) a) \<and>
     (\<forall>j\<in>set (bk_jobs st). job_ok fmt sha (objects (bk_store st)) (being_deleted st) j)"

lemma backups_okI:
  assumes "distinct (map bj_id (bk_jobs st))" "distinct (map up_jobId (all_uploads st))"
    and "\<And>u. u \<in> set (all_uploads st) \<Longrightarrow> upload_ok fmt sha (bk_jobs st) u"
    and "\<And>a. a \<in> set (bk_answers st) \<Longrightarrow> answer_ok (objects (bk_store st)) (being_deleted st) (bk_jobs st) a"
    and "\<And>j. j \<in> set (bk_jobs st) \<Longrightarrow> job_ok fmt sha (objects (bk_store st)) (being_deleted st) j"
  shows "backups_ok fmt sha objects st"
  using assms by (simp add: backups_ok_def)

lemma backups_okD:
  assumes "backups_ok fmt sha objects st"
  shows "distinct (map bj_id (bk_jobs st))" "distinct (map up_jobId (all_uploads st))"
    and "u \<in> set (all_uploads st) \<Longrightarrow> upload_ok fmt sha (bk_jobs st) u"
    and "a \<in> set (bk_answers st) \<Longrightarrow> answer_ok (objects (bk_store st)) (being_deleted st) (bk_jobs st) a"
    and "j \<in> set (bk_jobs st) \<Longrightarrow> job_ok fmt sha (objects (bk_store st)) (being_deleted st) j"
  using assms by (simp_all add: backups_ok_def)

text \<open>Only these parts of the state matter.\<close>

lemma backups_ok_cong:
  assumes "backups_ok fmt sha objects st" "bk_jobs st' = bk_jobs st" "bk_uploads st' = bk_uploads st" "bk_answers st' = bk_answers st"
    and "bk_prunes st' = bk_prunes st" "bk_store st' = bk_store st"
  shows "backups_ok fmt sha objects st'"
proof -
  have "being_deleted st' = being_deleted st" using assms(5) by (simp add: being_deleted_def fun_eq_iff)
  then show ?thesis using assms by (simp add: backups_ok_def all_uploads_def)
qed

lemma drop_json_plain: "CHR ''.'' \<notin> set i \<Longrightarrow> drop_json (i @ ''.json'') = i"
  by (induction i) (auto simp: startsWith_def)

lemma job_of_key_s3_key: "plain_id i \<Longrightarrow> job_of_key (s3_key ty i) = i"
proof -
  assume i: "plain_id i"
  then have "split_on CHR ''/'' (i @ ''.json'') = [i @ ''.json'']"
    by (intro split_on_no_sep) (simp add: plain_id_def)
  then have "split_on CHR ''/'' (s3_key ty i) = [''backups'', type_name ty, i @ ''.json'']"
    by (cases ty) (simp_all add: s3_key_def)
  then show ?thesis using i by (simp add: job_of_key_def drop_json_plain plain_id_def)
qed

lemma job_ok_keyed:
  assumes "job_ok fmt sha objs del j" and "del (bj_id j) \<Longrightarrow> del' (bj_id j)" and "del' (bj_id j) \<or> (\<forall>k. job_of_key k = bj_id j \<longrightarrow> objs' k = objs k)"
  shows "job_ok fmt sha objs' del' j"
  using assms job_of_key_s3_key by (fastforce simp: job_ok_def)

lemma answer_ok_keyed:
  assumes "answer_ok objs del js a" and "upload_ok fmt sha js0 (fst a)" and "\<And>i. i \<in> bj_id ` set js' \<Longrightarrow> i \<in> bj_id ` set js \<and> (del i \<longrightarrow> del' i)"
    and "del' (up_jobId (fst a)) \<or> (\<forall>k. job_of_key k = up_jobId (fst a) \<longrightarrow> objs' k = objs k)"
  shows "answer_ok objs' del' js' a"
proof -
  have "job_of_key (up_key (fst a)) = up_jobId (fst a)" using assms(2) job_of_key_s3_key by (auto simp: upload_ok_def)
  then show ?thesis using assms(1,3,4) by (auto simp: answer_ok_def)
qed

lemma upload_ok_mono:
  assumes "upload_ok fmt sha js v" and "\<And>j. j \<in> set js' \<Longrightarrow> bj_id j = up_jobId v \<Longrightarrow> j \<in> set js"
  shows "upload_ok fmt sha js' v"
  using assms unfolding upload_ok_def by meson

lemma backup_payload_data: "backup_payload now job js = collectData now (bj_type job) (bj_baseBackupId job)"
  by (simp add: backup_payload_def collectData_def computeIncremental_def with_field_def Let_def)

lemma backups_ok_new: "backups_ok fmt sha objects (no_backups s)"
  by (simp add: backups_ok_def no_backups_def all_uploads_def)

lemma backups_ok_backup:
  assumes "backups_ok fmt sha objects st" "new_id uuid st"
  shows "backups_ok fmt sha objects (runSchedulerOnce fmt sha now uuid ty st)" (is "backups_ok _ _ _ ?st'")
proof -
  note ok = backups_okD [OF assms(1)]
  obtain base where "snd (triggerManual fmt sha now uuid ty (bk_scheduler st) (bk_jobs st)) = createBackup fmt sha now uuid ty base (bk_jobs st)"
    by (cases ty) (simp_all add: triggerManual_def runFull_def runIncremental_def Let_def)
  moreover obtain js u where c: "createBackup fmt sha now uuid ty base (bk_jobs st) = (js, u)" by fastforce
  ultimately have eq: "bk_jobs ?st' = js" "bk_uploads ?st' = u # bk_uploads st" "bk_answers ?st' = bk_answers st"
      "bk_store ?st' = bk_store st" "being_deleted ?st' = being_deleted st"
    by (auto simp: runSchedulerOnce_def being_deleted_def fun_eq_iff split: prod.split)
  obtain j where js: "js = bk_jobs st @ [j]" and j: "bj_id j = uuid" "bj_type j = ty" "bj_status j = bs_running"
    and u: "up_jobId u = uuid" "up_key u = s3_key ty uuid" "up_body u = Json (backup_data j)" "up_checksum u = sha (stringify fmt (backup_data j))"
    using c by (auto simp: createBackup_def Let_def backup_payload_data backup_data_def)
  have fresh: "plain_id uuid" "uuid \<notin> bj_id ` set (bk_jobs st)" "uuid \<notin> up_jobId ` set (all_uploads st)"
    using assms(2) by (auto simp: new_id_def all_uploads_def)
  have all: "all_uploads ?st' = u # all_uploads st" by (simp add: all_uploads_def eq)
  show ?thesis
  proof (rule backups_okI, unfold eq all)
    show "distinct (map bj_id js)" "distinct (map up_jobId (u # all_uploads st))" using ok(1,2) fresh j(1) js u(1) by auto
    show "upload_ok fmt sha js v" if v: "v \<in> set (u # all_uploads st)" for v
    proof (cases "v = u")
      case True
      then show ?thesis using u fresh j js by (force simp: upload_ok_def)
    next
      case False
      then have old: "v \<in> set (all_uploads st)" using v by simp
      show ?thesis by (rule upload_ok_mono [OF ok(3) [OF old]]) (use old fresh(3) j(1) js in auto)
    qed
    show "answer_ok (objects (bk_store st)) (being_deleted st) js a" if a: "a \<in> set (bk_answers st)" for a
    proof -
      have "up_jobId (fst a) \<noteq> uuid" using a fresh(3) by (auto simp: all_uploads_def)
      then show ?thesis using ok(4) [OF a] j(1) js by (auto simp: answer_ok_def)
    qed
    show "job_ok fmt sha (objects (bk_store st)) (being_deleted st) i" if "i \<in> set js" for i
      using that ok(5) fresh(1) j js by (auto simp: job_ok_def)
  qed
qed

lemma update_first_unique:
  assumes "distinct (map g xs)" and "\<And>x. g (f x) = g x"
  shows "update_first (\<lambda>x. g x = k) f xs = map (\<lambda>x. if g x = k then f x else x) xs"
  using assms(1)
proof (induction xs)
  case (Cons x xs)
  have "map (\<lambda>x. if g x = k then f x else x) xs = xs" if "g x = k"
    using Cons.prems that by (intro map_idI) (metis distinct.simps(2) image_eqI list.simps(9) set_map)
  with Cons show ?case by simp
qed simp

lemma upload_settled_map:
  "distinct (map bj_id js) \<Longrightarrow> upload_settled now u out js = map (\<lambda>j. if bj_id j = up_jobId u then
     (case out of
        Inr _ \<Rightarrow> j\<lparr>bj_status := bs_completed, bj_completedAt := Some now, bj_s3Key := Some (up_key u),
                    bj_sizeBytes := Some (up_size u), bj_checksum := Some (up_checksum u)\<rparr>
      | Inl e \<Rightarrow> j\<lparr>bj_status := bs_failed, bj_error := Some (case e of ThrownValue v \<Rightarrow> v | _ \<Rightarrow> err_message e)\<rparr>) else j) js"
  unfolding upload_settled_def by (rule update_first_unique) (auto split: sum.split)

lemma upload_ok_settled:
  assumes "upload_ok fmt sha js v" and "up_jobId v \<noteq> up_jobId u" and "distinct (map bj_id js)"
  shows "upload_ok fmt sha (upload_settled now u out js) v"
  using assms(1)
proof (rule upload_ok_mono)
  show "j \<in> set js" if "j \<in> set (upload_settled now u out js)" "bj_id j = up_jobId v" for j
    using that assms(2) by (auto simp: upload_settled_map [OF assms(3)] split: sum.splits if_splits)
qed

lemma settled_ids [simp]: "map bj_id (upload_settled now u out js) = map bj_id js"
  by (auto simp: upload_settled_def intro!: map_update_first split: sum.split)

text \<open>The answer of the store settles the job: it has been there, running, and its object is there.\<close>

lemma backups_ok_answer:
  assumes "backups_ok fmt sha objects st" "a \<in> set (bk_answers st)"
  shows "backups_ok fmt sha objects (upload_answered now a st)"
proof -
  note ok = backups_okD [OF assms(1)]
  let ?u = "fst a" and ?js = "upload_settled now (fst a) (snd a) (bk_jobs st)"
  have ids: "bj_id ` set ?js = bj_id ` set (bk_jobs st)" using settled_ids [of now ?u "snd a" "bk_jobs st"] by (metis set_map)
  have sub: "set (remove1 a (bk_answers st)) \<subseteq> set (bk_answers st)" by (rule set_remove1_subset)
  have d: "distinct (map up_jobId (bk_uploads st @ map fst (remove1 a (bk_answers st))))"
    and other: "\<And>v. v \<in> set (bk_uploads st @ map fst (remove1 a (bk_answers st))) \<Longrightarrow> up_jobId v \<noteq> up_jobId ?u"
  proof -
    have "mset (bk_answers st) = add_mset a (mset (remove1 a (bk_answers st)))" using assms(2) by simp
    then have "mset (map fst (bk_answers st)) = add_mset ?u (mset (map fst (remove1 a (bk_answers st))))"
      unfolding mset_map by (metis image_mset_add_mset)
    then have "mset (all_uploads st) = mset (?u # (bk_uploads st @ map fst (remove1 a (bk_answers st))))" by (simp add: all_uploads_def)
    then have "mset (map up_jobId (all_uploads st)) = mset (map up_jobId (?u # (bk_uploads st @ map fst (remove1 a (bk_answers st)))))"
      by (metis mset_map)
    then have D: "distinct (up_jobId ?u # map up_jobId (bk_uploads st @ map fst (remove1 a (bk_answers st))))"
      using ok(2) by (metis list.simps(9) mset_eq_imp_distinct_iff)
    then show "distinct (map up_jobId (bk_uploads st @ map fst (remove1 a (bk_answers st))))" by (rule distinct.simps(2) [THEN iffD1, THEN conjunct2])
    show "up_jobId v \<noteq> up_jobId ?u" if "v \<in> set (bk_uploads st @ map fst (remove1 a (bk_answers st)))" for v
      using D that by (metis distinct.simps(2) image_eqI set_map)
  qed
  have eq: "being_deleted (upload_answered now a st) = being_deleted st" "bk_jobs (upload_answered now a st) = ?js"
    "all_uploads (upload_answered now a st) = bk_uploads st @ map fst (remove1 a (bk_answers st))" "bk_store (upload_answered now a st) = bk_store st"
    "bk_answers (upload_answered now a st) = remove1 a (bk_answers st)"
    by (simp_all add: upload_answered_def being_deleted_def fun_eq_iff all_uploads_def)
  show ?thesis
  proof (rule backups_okI, unfold eq)
    show "upload_ok fmt sha ?js v" if v: "v \<in> set (bk_uploads st @ map fst (remove1 a (bk_answers st)))" for v
    proof (rule upload_ok_settled [OF _ other [OF v] ok(1)])
      show "upload_ok fmt sha (bk_jobs st) v" using ok(3) v sub by (auto simp: all_uploads_def)
    qed
    show "answer_ok (objects (bk_store st)) (being_deleted st) ?js b" if "b \<in> set (remove1 a (bk_answers st))" for b
      using ok(4) [of b] that sub by (auto simp: answer_ok_def ids)
    show "job_ok fmt sha (objects (bk_store st)) (being_deleted st) j" if jm: "j \<in> set ?js" for j
    proof -
      obtain ty payload where u: "plain_id (up_jobId ?u)" "up_key ?u = s3_key ty (up_jobId ?u)" "up_body ?u = Json payload"
          "up_checksum ?u = sha (stringify fmt payload)"
          "\<And>i. i \<in> set (bk_jobs st) \<Longrightarrow> bj_id i = up_jobId ?u \<Longrightarrow> bj_type i = ty \<and> payload = backup_data i"
        using ok(3) [of ?u] assms(2) by (auto simp: upload_ok_def all_uploads_def)
      obtain i where i: "i \<in> set (bk_jobs st)" and j: "j = (if bj_id i = up_jobId ?u then
          (case snd a of Inr _ \<Rightarrow> i\<lparr>bj_status := bs_completed, bj_completedAt := Some now, bj_s3Key := Some (up_key ?u),
                           bj_sizeBytes := Some (up_size ?u), bj_checksum := Some (up_checksum ?u)\<rparr>
           | Inl e \<Rightarrow> i\<lparr>bj_status := bs_failed, bj_error := Some (case e of ThrownValue v \<Rightarrow> v | _ \<Rightarrow> err_message e)\<rparr>) else i)"
        using jm unfolding upload_settled_map [OF ok(1)] by auto
      have "being_deleted st (up_jobId ?u) \<or> objects (bk_store st) (up_key ?u) = Some (up_body ?u)"
        if "snd a = Inr ()" "bj_id i = up_jobId ?u"
      proof -
        have "up_jobId ?u \<in> bj_id ` set (bk_jobs st)" using i that(2) by (metis image_eqI)
        then show ?thesis using ok(4) [OF assms(2)] that(1) by (simp add: answer_ok_def)
      qed
      moreover have "backup_data j = backup_data i" using j by (auto simp: backup_data_def split: sum.split)
      ultimately show ?thesis using u j i ok(5) [OF i] by (cases "snd a") (auto simp: job_ok_def)
    qed
  qed (use ok(1) d in simp_all)
qed

context object_store
begin

lemma backups_ok_put:
  assumes "backups_ok fmt sha objects st" "u \<in> set (bk_uploads st)"
  shows "backups_ok fmt sha objects (upload_put s3 u st)"
proof -
  note ok = backups_okD [OF assms(1)]
  obtain out where out: "bk_answers (upload_put s3 u st) = (u, out) # bk_answers st"
    and objs: "objects (bk_store (upload_put s3 u st)) = (if out = Inr () then (objects (bk_store st))(up_key u \<mapsto> up_body u) else objects (bk_store st))"
    and eq: "bk_jobs (upload_put s3 u st) = bk_jobs st" "being_deleted (upload_put s3 u st) = being_deleted st"
      "bk_uploads (upload_put s3 u st) = remove1 u (bk_uploads st)"
    by (cases "putObject s3 (bk_store st) (up_key u) (up_body u)")
       (auto simp: upload_put_def being_deleted_def fun_eq_iff put_objects intro: that)
  have perm: "mset (all_uploads (upload_put s3 u st)) = mset (all_uploads st)"
    using assms(2) by (simp add: all_uploads_def eq out)
  have ups: "set (all_uploads (upload_put s3 u st)) = set (all_uploads st)" using perm by (rule mset_eq_setD)
  have d: "distinct (map up_jobId (all_uploads (upload_put s3 u st)))" using perm ok(2) by (metis mset_eq_imp_distinct_iff mset_map)
  have mem: "u \<in> set (all_uploads st)" using assms(2) by (simp add: all_uploads_def)
  have key: "job_of_key (up_key u) = up_jobId u" "\<And>j. j \<in> set (bk_jobs st) \<Longrightarrow> bj_id j = up_jobId u \<Longrightarrow> bj_status j = bs_running"
    using ok(3) [OF mem] job_of_key_s3_key by (auto simp: upload_ok_def)
  have same: "objects (bk_store (upload_put s3 u st)) k = objects (bk_store st) k" if "job_of_key k \<noteq> up_jobId u" for k
    using that key(1) objs by auto
  show ?thesis
  proof (rule backups_okI, unfold eq)
    show "distinct (map bj_id (bk_jobs st))" by (rule ok(1))
    show "distinct (map up_jobId (all_uploads (upload_put s3 u st)))" by (rule d)
    show "upload_ok fmt sha (bk_jobs st) v" if "v \<in> set (all_uploads (upload_put s3 u st))" for v using that ups ok(3) by blast
    show "answer_ok (objects (bk_store (upload_put s3 u st))) (being_deleted st) (bk_jobs st) a" if "a \<in> set (bk_answers (upload_put s3 u st))" for a
    proof (cases "a = (u, out)")
      case True
      then show ?thesis by (simp add: answer_ok_def objs)
    next
      case False
      then have a: "a \<in> set (bk_answers st)" using that out by simp
      then have "up_jobId (fst a) \<noteq> up_jobId u" using ok(2) assms(2) by (force simp: all_uploads_def)
      moreover have "upload_ok fmt sha (bk_jobs st) (fst a)" using ok(3) a by (simp add: all_uploads_def)
      ultimately show ?thesis by (intro answer_ok_keyed [OF ok(4) [OF a]]) (auto simp: same)
    qed
    show "job_ok fmt sha (objects (bk_store (upload_put s3 u st))) (being_deleted st) j" if j: "j \<in> set (bk_jobs st)" for j
    proof (cases "bj_id j = up_jobId u")
      case True
      then show ?thesis using key(2) [OF j] ok(5) [OF j] by (simp add: job_ok_def)
    next
      case False
      then show ?thesis by (intro job_ok_keyed [OF ok(5) [OF j]]) (auto simp: same)
    qed
  qed
qed

end

section \<open>Prunings\<close>

lemma set_remove1_insert: "x \<in> set xs \<Longrightarrow> set xs = insert x (set (remove1 x xs))"
  by (induction xs) auto

lemma being_deleted_run:
  assumes "run \<in> set (bk_prunes st)"
  shows "being_deleted st i \<longleftrightarrow> pr_deleting run = Some i \<or> list_ex (\<lambda>r. pr_deleting r = Some i) (remove1 run (bk_prunes st))"
  unfolding being_deleted_def list_ex_iff set_remove1_insert [OF assms] by simp

lemma being_deleted_goes_on:
  "being_deleted (prune_goes_on run run' st) i \<longleftrightarrow> pr_deleting run' = Some i \<or> list_ex (\<lambda>r. pr_deleting r = Some i) (remove1 run (bk_prunes st))"
  by (simp add: being_deleted_def prune_goes_on_def)

lemma being_deleted_ends:
  assumes "run \<in> set (bk_prunes st)" "pr_deleting run = None"
  shows "being_deleted (prune_ends run st) = being_deleted st"
proof
  show "being_deleted (prune_ends run st) i = being_deleted st i" for i
    using being_deleted_run [OF assms(1), of i] assms(2) by (simp add: being_deleted_def prune_ends_def)
qed

lemma backups_ok_same:
  assumes "backups_ok fmt sha objects st" "bk_jobs st' = bk_jobs st" "bk_uploads st' = bk_uploads st" "bk_answers st' = bk_answers st"
    and "being_deleted st' = being_deleted st" "bk_store st' = bk_store st"
  shows "backups_ok fmt sha objects st'"
  using assms by (simp add: backups_ok_def all_uploads_def)

lemma backups_ok_prune_ends:
  assumes "backups_ok fmt sha objects st" "run \<in> set (bk_prunes st)" "pr_deleting run = None"
  shows "backups_ok fmt sha objects (prune_ends run st)"
proof (rule backups_ok_same [OF assms(1)])
  show "being_deleted (prune_ends run st) = being_deleted st" using assms(2,3) by (rule being_deleted_ends)
qed (simp_all add: prune_ends_def)

lemma backups_ok_prune_skips:
  assumes "backups_ok fmt sha objects st" "run \<in> set (bk_prunes st)" "pr_deleting run' = pr_deleting run"
  shows "backups_ok fmt sha objects (prune_goes_on run run' st)"
proof (rule backups_ok_same [OF assms(1)])
  show "being_deleted (prune_goes_on run run' st) = being_deleted st"
    using being_deleted_run [OF assms(2)] assms(3) by (simp add: fun_eq_iff being_deleted_goes_on)
qed (simp_all add: prune_goes_on_def)

text \<open>The entry of a job whose object was deleted is removed.\<close>

lemma backups_ok_prune_removes:
  assumes "backups_ok fmt sha objects st" "run \<in> set (bk_prunes st)" "pr_deleting run = Some i" "pr_deleting run' = None"
  shows "backups_ok fmt sha objects (prune_goes_on run run' (st\<lparr>bk_jobs := filter (\<lambda>x. bj_id x \<noteq> i) (bk_jobs st)\<rparr>))"
    (is "backups_ok _ _ _ ?st'")
proof -
  note ok = backups_okD [OF assms(1)]
  let ?js = "filter (\<lambda>x. bj_id x \<noteq> i) (bk_jobs st)"
  have eq: "bk_jobs ?st' = ?js" "all_uploads ?st' = all_uploads st" "bk_answers ?st' = bk_answers st" "bk_store ?st' = bk_store st"
    by (simp_all add: prune_goes_on_def all_uploads_def)
  have del: "being_deleted ?st' k" if "being_deleted st k" "k \<noteq> i" for k
    using that being_deleted_run [OF assms(2), of k] assms(3) by (simp add: being_deleted_goes_on)
  show ?thesis
  proof (rule backups_okI, unfold eq)
    show "distinct (map bj_id ?js)" using ok(1) by (rule distinct_map_filter)
    show "upload_ok fmt sha ?js u" if "u \<in> set (all_uploads st)" for u by (rule upload_ok_mono [OF ok(3) [OF that]]) simp
    show "answer_ok (objects (bk_store st)) (being_deleted ?st') ?js a" if "a \<in> set (bk_answers st)" for a
      using that ok(3) by (intro answer_ok_keyed [OF ok(4) [OF that]]) (auto simp: all_uploads_def del)
    show "job_ok fmt sha (objects (bk_store st)) (being_deleted ?st') j" if "j \<in> set ?js" for j
      using that by (intro job_ok_keyed [OF ok(5) [of j]]) (auto simp: del)
  qed (rule ok(2))
qed

context object_store
begin

text \<open>The object of a job past its retention is deleted; the job is marked as being deleted.\<close>

lemma backups_ok_prune_deletes:
  assumes "backups_ok fmt sha objects st" "run \<in> set (bk_prunes st)" "pr_deleting run = None" "pr_deleting run' = Some (job_of_key key)"
    and "deleteObject s3 (bk_store st) key = Inr s"
  shows "backups_ok fmt sha objects (prune_goes_on run run' (st\<lparr>bk_store := s\<rparr>))" (is "backups_ok _ _ _ ?st'")
proof -
  note ok = backups_okD [OF assms(1)]
  have eq: "bk_jobs ?st' = bk_jobs st" "all_uploads ?st' = all_uploads st" "bk_answers ?st' = bk_answers st" "bk_store ?st' = s"
    by (simp_all add: prune_goes_on_def all_uploads_def)
  have del: "being_deleted ?st' k \<longleftrightarrow> being_deleted st k \<or> k = job_of_key key" for k
    using being_deleted_run [OF assms(2), of k] assms(3,4) by (auto simp: being_deleted_goes_on)
  have same: "objects s k = objects (bk_store st) k" if "job_of_key k \<noteq> job_of_key key" for k
    using that delete_objects [OF assms(5)] by auto
  show ?thesis
  proof (rule backups_okI, unfold eq)
    show "answer_ok (objects s) (being_deleted ?st') (bk_jobs st) a" if "a \<in> set (bk_answers st)" for a
      using that ok(3) by (intro answer_ok_keyed [OF ok(4) [OF that]]) (auto simp: all_uploads_def del same)
    show "job_ok fmt sha (objects s) (being_deleted ?st') j" if "j \<in> set (bk_jobs st)" for j
      using that by (intro job_ok_keyed [OF ok(5) [of j]]) (auto simp: del same)
  qed (use ok(1-3) in auto)
qed

lemma backups_ok_prune_next:
  assumes "backups_ok fmt sha objects st" "run \<in> set (bk_prunes st)"
  shows "backups_ok fmt sha objects (prune_next s3 now run st)"
proof -
  have emitted: "backups_ok fmt sha objects (emit act now part ds st)" for act now part ds
    using assms(1) by (rule backups_ok_cong) simp_all
  show ?thesis
  proof (cases "pr_deleting run")
    case (Some i)
    then show ?thesis using assms by (simp add: prune_next_def backups_ok_prune_removes)
  next
    case None
    show ?thesis
    proof (cases "pr_keys run")
      case Nil
      then show ?thesis using None emitted assms(2) by (simp add: prune_next_def backups_ok_prune_ends)
    next
      case (Cons key ks)
      have id: "bj_id j = job_of_key key" if "(if job_of_key key = [] then None else backup_getJob (job_of_key key) (bk_jobs st)) = Some j" for j
        using that getJob_SomeD by (auto split: if_splits)
      show ?thesis
      proof (cases "\<exists>j s. (if job_of_key key = [] then None else backup_getJob (job_of_key key) (bk_jobs st)) = Some j \<and>
          bj_createdAt j < pr_cutoff run \<and> deleteObject s3 (bk_store st) key = Inr s")
        case True
        then obtain j s where j: "(if job_of_key key = [] then None else backup_getJob (job_of_key key) (bk_jobs st)) = Some j"
          "bj_createdAt j < pr_cutoff run" "deleteObject s3 (bk_store st) key = Inr s" by blast
        show ?thesis
          unfolding prune_next_def None Cons
          using j id [OF j(1)] by (simp add: backups_ok_prune_deletes [OF assms None _ j(3)])
      next
        case False
        then show ?thesis
          unfolding prune_next_def None Cons prune_failed_def
          using None assms emitted by (auto intro!: backups_ok_prune_ends backups_ok_prune_skips split: option.split sum.split)
      qed
    qed
  qed
qed

lemma backups_ok_step:
  assumes "backup_step fmt sha s3 st st'" and "backups_ok fmt sha objects st"
  shows "backups_ok fmt sha objects st'"
  using assms
proof cases
  case step_monitor
  then show ?thesis by (auto simp: runMonitorOnce_def Let_def intro!: backups_ok_cong [OF assms(2)] split: prod.split)
next
  case step_drill
  then show ?thesis by (auto simp: runDrillOnce_def intro!: backups_ok_cong [OF assms(2)] split: prod.split)
next
  case (step_prune_begin retentionDays now)
  then show ?thesis
    by (auto simp: prune_begin_def prune_failed_def being_deleted_def fun_eq_iff intro!: backups_ok_same [OF assms(2)] split: sum.split)
qed (use backups_ok_backup backups_ok_put backups_ok_answer backups_ok_prune_next assms(2) in auto)

lemma reachable_backups_ok: "(backup_step fmt sha s3)\<^sup>*\<^sup>* (no_backups s) st \<Longrightarrow> backups_ok fmt sha objects st"
  by (induction rule: rtranclp_induct) (use backups_ok_new backups_ok_step in auto)

end

text \<open>A pruning that nothing interrupts is \<open>pruneOldBackups\<close>: its steps lead to the store, the jobs and the event of \<open>runPruneOnce\<close>.\<close>

lemma prune_listed_steps:
  assumes "prune_listed s3 (pr_cutoff run) (pr_keys run) (bk_store st) (bk_jobs st) = (s', js', r)" and "pr_deleting run = None"
    and "bk_prunes st = run # rest"
  shows "(backup_step fmt sha s3)\<^sup>*\<^sup>* st
    ((case r of Inr n \<Rightarrow> emit prune_completed now c_service [(''prunedCount'', JNum (int (pr_pruned run + n)))] | Inl e \<Rightarrow> prune_failed now e)
       (st\<lparr>bk_store := s', bk_jobs := js', bk_prunes := rest\<rparr>))"
  using assms
proof (induction "pr_keys run" arbitrary: run st s' js' r)
  case Nil
  have "backup_step fmt sha s3 st (prune_next s3 now run st)" using Nil by (intro step_prune_next) simp
  moreover have "prune_next s3 now run st = emit prune_completed now c_service [(''prunedCount'', JNum (int (pr_pruned run)))] (st\<lparr>bk_prunes := rest\<rparr>)"
    using Nil by (simp add: prune_next_def prune_ends_def emit_def)
  ultimately show ?case using Nil by (auto simp: emit_def)
next
  case (Cons key ks)
  define job where "job = (if job_of_key key = [] then None else backup_getJob (job_of_key key) (bk_jobs st))"
  have keys: "pr_keys run = key # ks" using Cons.hyps(2) by simp
  have first: "backup_step fmt sha s3 st (prune_next s3 now run st)" using Cons.prems by (intro step_prune_next) simp
  show ?case
  proof (cases "\<exists>j. job = Some j \<and> bj_createdAt j < pr_cutoff run")
    case False
    let ?run = "run\<lparr>pr_keys := ks\<rparr>"
    have "prune_next s3 now run st = st\<lparr>bk_prunes := ?run # rest\<rparr>"
      using False Cons.prems keys by (cases job) (auto simp: prune_next_def prune_goes_on_def job_def [symmetric])
    moreover have "prune_listed s3 (pr_cutoff run) ks (bk_store st) (bk_jobs st) = (s', js', r)"
      using Cons.prems(1) False unfolding keys by (auto simp: job_def [symmetric] Let_def split: option.splits)
    ultimately show ?thesis
      using Cons.hyps(1) [of ?run "st\<lparr>bk_prunes := ?run # rest\<rparr>" s' js' r] Cons.prems(2) first
      by (cases r) (auto intro: converse_rtranclp_into_rtranclp)
  next
    case True
    then obtain j where j: "job = Some j" "bj_createdAt j < pr_cutoff run" by blast
    show ?thesis
    proof (cases "deleteObject s3 (bk_store st) key")
      case (Inl e)
      then have "prune_next s3 now run st = prune_failed now e (st\<lparr>bk_prunes := rest\<rparr>)" "s' = bk_store st" "js' = bk_jobs st" "r = Inl e"
        using Cons.prems j keys by (simp_all add: prune_next_def prune_ends_def prune_failed_def emit_def job_def [symmetric] Let_def)
      then show ?thesis using first by (auto simp: prune_failed_def emit_def)
    next
      case (Inr s1)
      let ?js = "filter (\<lambda>x. bj_id x \<noteq> bj_id j) (bk_jobs st)"
      let ?del = "run\<lparr>pr_keys := ks, pr_deleting := Some (bj_id j)\<rparr>"
      let ?run = "run\<lparr>pr_keys := ks, pr_deleting := None, pr_pruned := pr_pruned run + 1\<rparr>"
      let ?st1 = "st\<lparr>bk_store := s1, bk_prunes := ?del # rest\<rparr>" and ?st2 = "st\<lparr>bk_store := s1, bk_jobs := ?js, bk_prunes := ?run # rest\<rparr>"
      have n1: "prune_next s3 now run st = ?st1"
        using Cons.prems j keys Inr by (simp add: prune_next_def prune_goes_on_def job_def [symmetric])
      have n2: "prune_next s3 now ?del ?st1 = ?st2" by (simp add: prune_next_def prune_goes_on_def)
      have second: "backup_step fmt sha s3 ?st1 ?st2" using step_prune_next [of ?del ?st1 fmt sha s3 now] n2 by simp
      obtain r1 where rec: "prune_listed s3 (pr_cutoff run) ks s1 ?js = (s', js', r1)" and r: "r = (case r1 of Inr n \<Rightarrow> Inr (n + 1) | Inl e \<Rightarrow> Inl e)"
        using Cons.prems(1) j Inr unfolding keys by (auto simp: job_def [symmetric] Let_def split: prod.splits sum.splits)
      have "(backup_step fmt sha s3)\<^sup>*\<^sup>* ?st2
          ((case r1 of Inr n \<Rightarrow> emit prune_completed now c_service [(''prunedCount'', JNum (int (pr_pruned run + 1 + n)))] | Inl e \<Rightarrow> prune_failed now e)
             (st\<lparr>bk_store := s', bk_jobs := js', bk_prunes := rest\<rparr>))"
        using Cons.hyps(1) [of ?run ?st2 s' js' r1] rec by (cases r1) simp_all
      then have "(backup_step fmt sha s3)\<^sup>*\<^sup>* ?st2
          ((case r of Inr n \<Rightarrow> emit prune_completed now c_service [(''prunedCount'', JNum (int (pr_pruned run + n)))] | Inl e \<Rightarrow> prune_failed now e)
             (st\<lparr>bk_store := s', bk_jobs := js', bk_prunes := rest\<rparr>))"
        using r by (cases r1) (simp_all add: add.assoc add.commute add.left_commute)
      then show ?thesis using first second n1 by (metis (no_types, lifting) converse_rtranclp_into_rtranclp)
    qed
  qed
qed

theorem uninterrupted_pruning:
  assumes "listObjects s3 (bk_store st) ''backups/'' = Inr ks"
  shows "(backup_step fmt sha s3)\<^sup>*\<^sup>* st (runPruneOnce s3 days now st)"
proof -
  let ?run = "\<lparr>pr_cutoff = now - days * 86400000, pr_keys = ks, pr_deleting = None, pr_pruned = 0\<rparr>"
  let ?st = "st\<lparr>bk_prunes := ?run # bk_prunes st\<rparr>"
  obtain s' js' r where p: "prune_listed s3 (now - days * 86400000) ks (bk_store st) (bk_jobs st) = (s', js', r)" by (metis prod_cases3)
  have "backup_step fmt sha s3 st ?st" using step_prune_begin [of fmt sha s3 st days now] assms by (simp add: prune_begin_def)
  moreover have "(backup_step fmt sha s3)\<^sup>*\<^sup>* ?st (runPruneOnce s3 days now st)"
    using prune_listed_steps [of s3 ?run ?st s' js' r "bk_prunes st" fmt sha now] p assms
    by (cases r) (simp_all add: runPruneOnce_def pruneOldBackups_def Let_def prune_failed_def)
  ultimately show ?thesis by (rule converse_rtranclp_into_rtranclp)
qed

section \<open>Restoring\<close>

text \<open>C39. Completed backups stay restorable. Whatever backups, uploads, checks, drills and prunings happen, in any order and with anything
  between two of their awaits, the object of every completed job is in the store, unless a pruning has just deleted it and
  removes the job in its next step. It is the data collected for the job, with the checksum recorded for it, and when the
  store answers, a restoration hands exactly that data to the target, on top of the named base for an incremental backup,
  and succeeds if the target accepts it.\<close>

theorem completed_backups_restorable:
  assumes "object_store s3 objects" and "(backup_step fmt sha s3)\<^sup>*\<^sup>* (no_backups s) st"
    and "j \<in> set (bk_jobs st)" and "bj_status j = bs_completed" and "\<not> being_deleted st (bj_id j)"
  shows "objects (bk_store st) (s3_key (bj_type j) (bj_id j)) = Some (Json (backup_data j)) \<and>
    bj_checksum j = Some (sha (stringify fmt (backup_data j))) \<and>
    (\<forall>b. getObject s3 (bk_store st) (s3_key (bj_type j) (bj_id j)) = Inr b \<longrightarrow>
       restore fmt sha s3 apply_to t0 t1 (bk_store st) (bk_jobs st) (bj_id j) t =
         (case apply_to (if bj_type j = incremental \<and> truthy (bj_baseBackupId j)
                         then ApplyIncremental (or_default (bj_baseBackupId j) []) (backup_data j) else ApplyFull (backup_data j)) t of
            Inl e \<Rightarrow> (t, Inl e)
          | Inr t' \<Rightarrow> (t', Inr \<lparr>rv_jobId = bj_id j, rv_restoredAt = t1, rv_recordCount = countRecords (backup_data j),
                                 rv_checksum = sha (stringify fmt (backup_data j)), rv_restoreDurationMs = t1 - t0\<rparr>)))"
proof -
  have ok: "backups_ok fmt sha objects st" by (rule object_store.reachable_backups_ok [OF assms(1,2)])
  have g: "backup_getJob (bj_id j) (bk_jobs st) = Some j"
    using backups_okD(1) [OF ok] assms(3) by (rule backup_getJob_unique)
  have p: "bj_s3Key j = Some (s3_key (bj_type j) (bj_id j))" "objects (bk_store st) (s3_key (bj_type j) (bj_id j)) = Some (Json (backup_data j))"
      "bj_checksum j = Some (sha (stringify fmt (backup_data j)))"
    using backups_okD(5) [OF ok assms(3)] assms(4,5) by (auto simp: job_ok_def)
  have nn: "backup_data j \<noteq> JNull" "s3_key (bj_type j) (bj_id j) \<noteq> []" by (simp_all add: backup_data_def collectData_def s3_key_def)
  have "restore fmt sha s3 apply_to t0 t1 (bk_store st) (bk_jobs st) (bj_id j) t =
         (case apply_to (if bj_type j = incremental \<and> truthy (bj_baseBackupId j)
                         then ApplyIncremental (or_default (bj_baseBackupId j) []) (backup_data j) else ApplyFull (backup_data j)) t of
            Inl e \<Rightarrow> (t, Inl e)
          | Inr t' \<Rightarrow> (t', Inr \<lparr>rv_jobId = bj_id j, rv_restoredAt = t1, rv_recordCount = countRecords (backup_data j),
                                 rv_checksum = sha (stringify fmt (backup_data j)), rv_restoreDurationMs = t1 - t0\<rparr>))"
    if b: "getObject s3 (bk_store st) (s3_key (bj_type j) (bj_id j)) = Inr b" for b
  proof -
    have "b = Json (backup_data j)" using object_store.get_objects [OF assms(1) b] p(2) by simp
    then show ?thesis using g p(1,3) nn assms(4) b by (simp add: restore_def Let_def split: sum.split)
  qed
  then show ?thesis using p(2,3) by blast
qed

definition backed_up :: "(string \<times> s3_body) list backups" where
  "backed_up = (let st = runSchedulerOnce (\<lambda>_. []) (\<lambda>s. s) 5 ''b1'' full (no_backups []); st' = upload_put mem_s3 (hd (bk_uploads st)) st
                in upload_answered 9 (hd (bk_answers st')) st')"

text \<open>A full backup is uploaded, and restoring it succeeds.\<close>

theorem completed_backups_restorable_witness:
  "\<exists>j res. bk_jobs backed_up = [j] \<and> map_of (bk_store backed_up) (s3_key full ''b1'') = Some (Json (backup_data j)) \<and>
     restore (\<lambda>_. []) (\<lambda>s. s) mem_s3 noop_target 0 1 (bk_store backed_up) (bk_jobs backed_up) ''b1'' () = ((), Inr res)"
proof -
  let ?st = "runSchedulerOnce (\<lambda>_. []) (\<lambda>s. s) 5 ''b1'' full (no_backups [] :: (string \<times> s3_body) list backups)"
  obtain u where u: "bk_uploads ?st = [u]" "up_jobId u = ''b1''" "up_key u = s3_key full ''b1''"
    by (simp add: runSchedulerOnce_def triggerManual_def runFull_def createBackup_def no_backups_def Let_def)
  let ?st' = "upload_put mem_s3 u ?st"
  have answers: "bk_answers ?st' = [(u, Inr ())]"
    by (simp add: upload_put_def mem_s3_def runSchedulerOnce_def no_backups_def split: prod.split)
  have up: "backed_up = upload_answered 9 (u, Inr ()) ?st'" by (simp add: backed_up_def u answers Let_def)
  have "backup_step (\<lambda>_. []) (\<lambda>s. s) mem_s3 (no_backups []) ?st"
    by (rule step_backup) (simp add: new_id_def plain_id_def no_backups_def)
  moreover have "backup_step (\<lambda>_. []) (\<lambda>s. s) mem_s3 ?st ?st'" by (rule step_put) (simp add: u)
  moreover have "backup_step (\<lambda>_. []) (\<lambda>s. s) mem_s3 ?st' backed_up" unfolding up by (rule step_answer) (simp add: answers)
  ultimately have reach: "(backup_step (\<lambda>_. []) (\<lambda>s. s) mem_s3)\<^sup>*\<^sup>* (no_backups []) backed_up" by (simp add: converse_rtranclp_into_rtranclp)
  obtain j0 where "bk_jobs ?st' = [j0]" "bj_id j0 = ''b1''" "bj_type j0 = full"
    by (simp add: upload_put_def mem_s3_def runSchedulerOnce_def triggerManual_def runFull_def createBackup_def no_backups_def Let_def)
  then obtain j where j: "bk_jobs backed_up = [j]" "bj_id j = ''b1''" "bj_type j = full" "bj_status j = bs_completed"
    using u by (simp add: up upload_answered_def upload_settled_def)
  have del: "\<not> being_deleted backed_up (bj_id j)"
    by (simp add: being_deleted_def up upload_answered_def upload_put_def mem_s3_def runSchedulerOnce_def no_backups_def split: prod.split)
  note all = completed_backups_restorable [OF mems3.object_store_axioms reach _ j(4) del, of noop_target 0 1 "()"]
  then have "getObject mem_s3 (bk_store backed_up) (s3_key full ''b1'') = Inr (Json (backup_data j))" using j by (simp add: mem_s3_def)
  then show ?thesis using all j by (auto simp: noop_target_def)
qed

text \<open>Between the deletion of the object and the removal of the job, a restoration of the job finds no object.\<close>

theorem deleted_object_still_listed:
  "let st = upload_put mem_s3 (hd (bk_uploads (runSchedulerOnce (\<lambda>_. []) (\<lambda>s. s) 5 ''b1'' full (no_backups []))))
              (runSchedulerOnce (\<lambda>_. []) (\<lambda>s. s) 5 ''b1'' full (no_backups []));
       st1 = prune_begin mem_s3 1 86400009 (upload_answered 9 (hd (bk_answers st)) st);
       st2 = prune_next mem_s3 86400010 (hd (bk_prunes st1)) st1
   in bk_store st2 = [] \<and> map bj_status (bk_jobs st2) = [bs_completed]"
proof -
  have "job_of_key (s3_key full ''b1'') = ''b1''" "startsWith (s3_key full ''b1'') ''backups/''" by code_simp+
  then show ?thesis
    by (simp add: Let_def runSchedulerOnce_def triggerManual_def runFull_def createBackup_def no_backups_def upload_put_def mem_s3_def
        upload_answered_def upload_settled_def prune_begin_def prune_next_def prune_goes_on_def backup_getJob_def emit_def)
qed

end
