(* ===== verification/Request_Context.thy ===== *)
theory Request_Context
  imports Errors Js_Values Group_Cache
begin

text \<open>
  What every request passes through: correlation ids (\<open>backend/src/lib/requestContext.ts\<close>,
  \<open>backend/src/middleware/requestId.ts\<close>), the error and not-found handlers
  (\<open>backend/src/lib/errorMiddleware.ts\<close>), the response envelope (\<open>backend/src/lib/response-envelope.ts\<close>) and the
  keys of the caches (\<open>backend/src/lib/cache-key-builder.ts\<close>, \<open>backend/src/lib/cache-config.ts\<close>). The context
  that async-local storage gives a piece of code is an argument; random ids and the clock are arguments.
\<close>

section \<open>Correlation ids\<close>

record RequestContext =
  rx_correlationId :: string
  rx_method :: string
  rx_path :: string

definition CORRELATION_HEADER :: string where "CORRELATION_HEADER = ''x-correlation-id''"

text \<open>A header that occurs twice is joined by Node.\<close>

fun header_text :: "header option \<Rightarrow> string option" where
  "header_text None = None"
| "header_text (Some (HStr s)) = Some s"
| "header_text (Some (HArr ss)) = Some (join '', '' ss)"

definition getCorrelationId :: "RequestContext option \<Rightarrow> string option" where
  "getCorrelationId ctx = map_option rx_correlationId ctx"

definition getRequestCorrelationId :: "RequestContext option \<Rightarrow> request \<Rightarrow> response \<Rightarrow> string option" where
  "getRequestCorrelationId ctx req res =
     js_or (header_text (req_headers req CORRELATION_HEADER)) (js_or (res_headers res CORRELATION_HEADER) (getCorrelationId ctx))"

definition attachCorrelationId :: "string \<Rightarrow> RequestContext option \<Rightarrow> request \<Rightarrow> response \<Rightarrow> response \<times> string" where
  "attachCorrelationId uuid ctx req res =
     (let correlationId = or_default (js_or (getRequestCorrelationId ctx req res) (Some uuid)) []
      in (set_header CORRELATION_HEADER correlationId res, correlationId))"

text \<open>The rest of the request runs in the context that is returned.\<close>

definition requestId :: "string \<Rightarrow> RequestContext option \<Rightarrow> request \<Rightarrow> response \<Rightarrow> response \<times> RequestContext" where
  "requestId uuid ctx req res =
     (let (res', correlationId) = attachCorrelationId uuid ctx req res
      in (call_next res', \<lparr>rx_correlationId = correlationId, rx_method = req_method req, rx_path = req_path req\<rparr>))"

section \<open>Error handlers\<close>

definition envelope_json :: "ErrorEnvelope \<Rightarrow> json" where
  "envelope_json e =
     JObj ([(''code'', JStr (env_code e)), (''message'', JStr (env_message e))] @
           (case env_details e of None \<Rightarrow> [] | Some d \<Rightarrow> [(''details'', d)]) @
           [(''correlationId'', JStr (env_correlationId e)), (''timestamp'', JStr (env_timestamp e))])"

definition errorMiddleware ::
  "string \<Rightarrow> string \<Rightarrow> millis \<Rightarrow> RequestContext option \<Rightarrow> thrown \<Rightarrow> request \<Rightarrow> response \<Rightarrow> response" where
  "errorMiddleware uuid uuid' now ctx err req res =
     (let (res1, attached) = attachCorrelationId uuid ctx req res;
          correlationId = (if attached = [] then uuid' else attached);
          res2 = set_header CORRELATION_HEADER correlationId res1
      in send_json (statusCodeOf err) (JObj [(''error'', envelope_json (toEnvelope err correlationId (toISOString now)))]) res2)"

definition notFoundMiddleware ::
  "string \<Rightarrow> string \<Rightarrow> millis \<Rightarrow> RequestContext option \<Rightarrow> request \<Rightarrow> response \<Rightarrow> response" where
  "notFoundMiddleware uuid uuid' now ctx req res =
     (let (res1, attached) = attachCorrelationId uuid ctx req res;
          correlationId = (if attached = [] then uuid' else attached)
      in send_json 404 (JObj [(''error'', JObj [(''code'', JStr ''NOT_FOUND''),
           (''message'', JStr (''Route '' @ req_method req @ '' '' @ req_path req @ '' not found'')),
           (''correlationId'', JStr correlationId), (''timestamp'', JStr (toISOString now))])]) res1)"

section \<open>Response envelope\<close>

definition meta_field :: "json option \<Rightarrow> (string \<times> json) list" where
  "meta_field meta = (case meta of None \<Rightarrow> [] | Some m \<Rightarrow> if json_truthy m then [(''meta'', m)] else [])"

definition createEnvelope :: "json \<Rightarrow> json option \<Rightarrow> json" where
  "createEnvelope data meta = JObj ((''data'', data) # meta_field meta)"

text \<open>\<open>{count, ...meta}\<close>: a count given in \<open>meta\<close> replaces the length.\<close>

definition spread_over :: "(string \<times> json) list \<Rightarrow> json option \<Rightarrow> json" where
  "spread_over base meta = JObj (fold (\<lambda>(k, v) fs. AList.update k v fs) (case meta of Some (JObj fs) \<Rightarrow> fs | _ \<Rightarrow> []) base)"

definition createEnvelopeWithPagination :: "json list \<Rightarrow> json option \<Rightarrow> json" where
  "createEnvelopeWithPagination items meta =
     createEnvelope (JArr items) (Some (spread_over [(''count'', JNum (int (length items)))] meta))"

definition api_error :: "string \<Rightarrow> string \<Rightarrow> json option \<Rightarrow> json" where
  "api_error code message details =
     JObj ([(''code'', JStr code), (''message'', JStr message)] @
           (case details of None \<Rightarrow> [] | Some d \<Rightarrow> if json_truthy d then [(''details'', d)] else []))"

definition errorEnvelope :: "string \<Rightarrow> string \<Rightarrow> json option \<Rightarrow> json" where
  "errorEnvelope code message details = JObj [(''data'', JNull), (''errors'', JArr [api_error code message details])]"

definition errorEnvelopeMulti :: "json list \<Rightarrow> json" where
  "errorEnvelopeMulti errs = JObj [(''data'', JNull), (''errors'', JArr errs)]"

definition createEmptyEnvelope :: "json option \<Rightarrow> json" where
  "createEmptyEnvelope meta = JObj ((''data'', JNull) # meta_field meta)"

definition is_envelope :: "json \<Rightarrow> bool" where
  "is_envelope v = (json_field v ''data'' \<noteq> None \<and> (json_field v ''meta'' \<noteq> None \<or> json_field v ''errors'' \<noteq> None))"

definition normalizeResponse :: "json \<Rightarrow> json" where
  "normalizeResponse response =
     (if is_envelope response then response
      else case response of JArr items \<Rightarrow> createEnvelopeWithPagination items None | _ \<Rightarrow> createEnvelope response None)"

section \<open>Cache keys\<close>

definition buildKey :: "string list \<Rightarrow> string" where
  "buildKey components = join '':'' components"

datatype cache_key =
    httpResponse string
  | analyticsPlatformStats string
  | analyticsUserStats string string
  | groupState string string
  | ipfsGroupCid string string
  | ipfsGroupMetadata string string
  | cacheWarming string

fun key_string :: "cache_key \<Rightarrow> string" where
  "key_string (httpResponse url) = buildKey [''http_cache'', url]"
| "key_string (analyticsPlatformStats date) = buildKey [''analytics'', ''platform_stats'', date]"
| "key_string (analyticsUserStats userId date) = buildKey [''analytics'', ''user_stats'', userId, date]"
| "key_string (groupState contractId groupId) = buildKey [''group_state'', contractId, groupId]"
| "key_string (ipfsGroupCid contractId groupId) = buildKey [''ipfs:group:cid'', contractId, groupId]"
| "key_string (ipfsGroupMetadata contractId groupId) = buildKey [''ipfs:group:cache'', contractId, groupId]"
| "key_string (cacheWarming endpoint) = buildKey [''cache'', endpoint]"

definition groupStatePattern :: "string \<Rightarrow> string" where
  "groupStatePattern contractId = buildKey [''group_state'', contractId] @ '':*''"

fun ttl_seconds :: "cache_key \<Rightarrow> int" where
  "ttl_seconds (groupState _ _) = 10"
| "ttl_seconds (ipfsGroupMetadata _ _) = 300"
| "ttl_seconds _ = 3600"

section \<open>Properties\<close>

lemma attached_id:
  "snd (attachCorrelationId uuid ctx req res) =
     (if truthy (header_text (req_headers req CORRELATION_HEADER)) then the (header_text (req_headers req CORRELATION_HEADER))
      else if truthy (res_headers res CORRELATION_HEADER) then the (res_headers res CORRELATION_HEADER)
      else if truthy (getCorrelationId ctx) then the (getCorrelationId ctx) else uuid)"
proof -
  have "or_default x [] = the x" if "truthy x" for x :: "string option" using that by (cases x) auto
  then show ?thesis
    by (simp add: attachCorrelationId_def getRequestCorrelationId_def js_or_def Let_def)
qed

lemma attach_header [simp]:
  "fst (attachCorrelationId uuid ctx req res) = set_header CORRELATION_HEADER (snd (attachCorrelationId uuid ctx req res)) res"
  by (simp add: attachCorrelationId_def Let_def)

text \<open>One request has one correlation id. Once \<open>requestId\<close> has run, an error handler that runs later for the same
  request, in whatever context, answers with the id \<open>requestId\<close> chose, in the header and in the body; that id is the
  one the client sent, if it sent one.\<close>

theorem correlation_id_kept:
  assumes "requestId uuid ctx req res = (res1, c)" and "uuid \<noteq> []" and "res_headers res2 CORRELATION_HEADER = res_headers res1 CORRELATION_HEADER"
  shows "let r = errorMiddleware u u' now ctx' err req res2
         in res_headers r CORRELATION_HEADER = Some (rx_correlationId c) \<and> res_status r = Some (statusCodeOf err) \<and>
            (\<exists>env. json_field (res_body r) ''error'' = Some env \<and> json_field env ''correlationId'' = Some (JStr (rx_correlationId c)))"
    and "truthy (header_text (req_headers req CORRELATION_HEADER)) \<Longrightarrow>
         header_text (req_headers req CORRELATION_HEADER) = Some (rx_correlationId c)"
proof -
  let ?h = "header_text (req_headers req CORRELATION_HEADER)"
  have c: "rx_correlationId c = snd (attachCorrelationId uuid ctx req res)"
    and res1: "res_headers res1 CORRELATION_HEADER = Some (snd (attachCorrelationId uuid ctx req res))"
    using assms(1) by (auto simp: requestId_def attachCorrelationId_def Let_def)
  have ne: "rx_correlationId c \<noteq> []"
  proof -
    have "the x \<noteq> []" if "truthy x" for x :: "string option" using that by (cases x) auto
    then show ?thesis using assms(2) unfolding c attached_id by simp
  qed
  show h: "?h = Some (rx_correlationId c)" if "truthy ?h"
    using that unfolding c attached_id by (cases ?h) auto
  have later: "snd (attachCorrelationId u ctx' req res2) = rx_correlationId c"
  proof (cases "truthy ?h")
    case True
    then show ?thesis using h by (simp add: attached_id)
  next
    case False
    then show ?thesis using assms(3) res1 ne c by (simp add: attached_id [of u])
  qed
  have "errorMiddleware u u' now ctx' err req res2 =
      send_json (statusCodeOf err) (JObj [(''error'', envelope_json (toEnvelope err (rx_correlationId c) (toISOString now)))])
        (set_header CORRELATION_HEADER (rx_correlationId c) (set_header CORRELATION_HEADER (rx_correlationId c) res2))"
    using ne later by (simp add: errorMiddleware_def case_prod_beta Let_def)
  moreover have "env_correlationId (toEnvelope err i t) = i" for i t by (cases err) simp_all
  then have "json_field (envelope_json (toEnvelope err i t)) ''correlationId'' = Some (JStr i)" for i t
    by (simp add: envelope_json_def json_field_def split: option.split)
  ultimately show "let r = errorMiddleware u u' now ctx' err req res2
         in res_headers r CORRELATION_HEADER = Some (rx_correlationId c) \<and> res_status r = Some (statusCodeOf err) \<and>
            (\<exists>env. json_field (res_body r) ''error'' = Some env \<and> json_field env ''correlationId'' = Some (JStr (rx_correlationId c)))"
    by (simp add: Let_def json_field_def)
qed

text \<open>Every normalised response has a \<open>data\<close> field, envelopes are left alone and arrays are counted. Other values are
  wrapped without \<open>meta\<close>, so that normalising them again wraps them again: so does every envelope that
  \<open>createEnvelope\<close> makes without \<open>meta\<close>.\<close>

theorem normalize_response:
  "json_field (normalizeResponse v) ''data'' \<noteq> None"
  "is_envelope v \<Longrightarrow> normalizeResponse v = v"
  "normalizeResponse (normalizeResponse (JArr vs)) = normalizeResponse (JArr vs)"
  "\<not> is_envelope v \<Longrightarrow> (\<And>vs. v \<noteq> JArr vs) \<Longrightarrow> normalizeResponse (normalizeResponse v) = JObj [(''data'', normalizeResponse v)]"
proof -
  have arr: "is_envelope (createEnvelopeWithPagination vs None)" for vs
    by (simp add: createEnvelopeWithPagination_def createEnvelope_def is_envelope_def json_field_def meta_field_def spread_over_def)
  show "json_field (normalizeResponse v) ''data'' \<noteq> None"
    by (cases v) (auto simp: normalizeResponse_def is_envelope_def createEnvelopeWithPagination_def createEnvelope_def json_field_def)
  show "is_envelope v \<Longrightarrow> normalizeResponse v = v" by (simp add: normalizeResponse_def)
  show "normalizeResponse (normalizeResponse (JArr vs)) = normalizeResponse (JArr vs)"
  proof -
    have "normalizeResponse (JArr vs) = createEnvelopeWithPagination vs None"
      by (simp add: normalizeResponse_def is_envelope_def json_field_def)
    then show ?thesis using arr by (simp add: normalizeResponse_def)
  qed
  show "normalizeResponse (normalizeResponse v) = JObj [(''data'', normalizeResponse v)]"
    if "\<not> is_envelope v" "\<And>vs. v \<noteq> JArr vs"
  proof -
    have "normalizeResponse v = JObj [(''data'', v)]"
      using that by (cases v) (auto simp: normalizeResponse_def createEnvelope_def meta_field_def)
    then show ?thesis by (simp add: normalizeResponse_def is_envelope_def json_field_def createEnvelope_def meta_field_def)
  qed
qed

fun key_ok :: "cache_key \<Rightarrow> bool" where
  "key_ok (analyticsUserStats userId date) \<longleftrightarrow> CHR '':'' \<notin> set userId"
| "key_ok (groupState c g) \<longleftrightarrow> CHR '':'' \<notin> set c"
| "key_ok (ipfsGroupCid c g) \<longleftrightarrow> CHR '':'' \<notin> set c"
| "key_ok (ipfsGroupMetadata c g) \<longleftrightarrow> CHR '':'' \<notin> set c"
| "key_ok _ \<longleftrightarrow> True"

lemma colon_split: "a @ '':'' @ b = c @ '':'' @ d \<Longrightarrow> CHR '':'' \<notin> set a \<Longrightarrow> CHR '':'' \<notin> set c \<Longrightarrow> a = c \<and> b = d"
  by (induction a arbitrary: c; case_tac c) auto

text \<open>No two cached things share a key: the keys of all families are pairwise different, provided that user and
  contract ids have no colon.\<close>

theorem cache_keys_injective: "inj_on key_string {k. key_ok k}"
proof (rule inj_onI)
  fix k l assume "k \<in> {k. key_ok k}" "l \<in> {k. key_ok k}" "key_string k = key_string l"
  then show "k = l"
    by (cases k; cases l) (auto simp: buildKey_def dest: colon_split [simplified])
qed

lemma groupState_is_cacheKey: "key_string (groupState c g) = cacheKey c g" "groupStatePattern c = KEY_PREFIX @ '':'' @ c @ '':*''"
  by (simp_all add: buildKey_def cacheKey_def KEY_PREFIX_def groupStatePattern_def)

end
