(* ===== verification/Anchor_Http.thy ===== *)
theory Anchor_Http
  imports Request_Context
begin

text \<open>
  Calls of anchors over HTTP: \<open>backend/src/lib/http.ts\<close> and the reader of \<open>stellar.toml\<close> that
  \<open>backend/src/services/sep24.ts\<close> and \<open>backend/src/services/sep31.ts\<close> share. The network is an argument, a
  function from a call to a reply or an error; an operation returns the calls it made, in order, with its result.
  URL encoding is the one of the language's library.
\<close>

section \<open>Calls and replies\<close>

record http_call =
  hc_method :: string
  hc_url :: string
  hc_headers :: "(string \<times> string) list"
  hc_body :: "string option"

record reply =
  rp_status :: int
  rp_text :: string
  rp_json :: "thrown + json"

definition rp_ok :: "reply \<Rightarrow> bool" where
  "rp_ok r \<longleftrightarrow> 200 \<le> rp_status r \<and> rp_status r \<le> 299"

type_synonym net = "http_call \<Rightarrow> thrown + reply"
type_synonym 'a io = "http_call list \<times> (thrown + 'a)"

definition io_return :: "'a \<Rightarrow> 'a io" where "io_return x = ([], Inr x)"
definition io_throw :: "thrown \<Rightarrow> 'a io" where "io_throw e = ([], Inl e)"

definition and_then :: "'a io \<Rightarrow> ('a \<Rightarrow> 'b io) \<Rightarrow> 'b io" where
  "and_then m k = (case snd m of Inl e \<Rightarrow> (fst m, Inl e) | Inr x \<Rightarrow> (fst m @ fst (k x), snd (k x)))"

definition withCorrelationHeaders :: "string option \<Rightarrow> (string \<times> string) list \<Rightarrow> (string \<times> string) list" where
  "withCorrelationHeaders correlationId hs =
     (if truthy correlationId \<and> \<not> list_ex (\<lambda>h. map to_lower (fst h) = ''x-correlation-id'') hs
      then hs @ [(''x-correlation-id'', or_default correlationId [])] else hs)"

definition plain_fetch :: "net \<Rightarrow> http_call \<Rightarrow> reply io" where
  "plain_fetch net call = ([call], net call)"

definition fetchWithCorrelationId :: "net \<Rightarrow> string option \<Rightarrow> http_call \<Rightarrow> reply io" where
  "fetchWithCorrelationId net correlationId call =
     plain_fetch net (call\<lparr>hc_headers := withCorrelationHeaders correlationId (hc_headers call)\<rparr>)"

definition http_get :: "string \<Rightarrow> http_call" where
  "http_get url = \<lparr>hc_method = ''GET'', hc_url = url, hc_headers = [], hc_body = None\<rparr>"

section \<open>URL encoding\<close>

definition is_alnum :: "char \<Rightarrow> bool" where
  "is_alnum c = (let n = (of_char c :: nat) in (48 \<le> n \<and> n \<le> 57) \<or> (65 \<le> n \<and> n \<le> 90) \<or> (97 \<le> n \<and> n \<le> 122))"

definition upper_hex :: "nat \<Rightarrow> char" where
  "upper_hex d = (if d < 10 then digit_char d else char_of (55 + d))"

definition percent_byte :: "nat \<Rightarrow> string" where
  "percent_byte n = [CHR ''%'', upper_hex (n div 16), upper_hex (n mod 16)]"

definition percent :: "char \<Rightarrow> string" where
  "percent c = (let n = of_char c in if n < 128 then percent_byte n else percent_byte (192 + n div 64) @ percent_byte (128 + n mod 64))"

definition encodeURIComponent :: "string \<Rightarrow> string" where
  "encodeURIComponent s =
     concat (map (\<lambda>c. if is_alnum c \<or> c \<in> set ''-_.!~*()'' \<or> of_char c = (39::nat) then [c] else percent c) s)"

text \<open>\<open>URLSearchParams.toString\<close>\<close>

definition form_encode :: "string \<Rightarrow> string" where
  "form_encode s =
     concat (map (\<lambda>c. if is_alnum c \<or> c \<in> set ''*-._'' then [c] else if c = CHR '' '' then ''+'' else percent c) s)"

definition form_string :: "(string \<times> string) list \<Rightarrow> string" where
  "form_string ps = join ''&'' (map (\<lambda>p. form_encode (fst p) @ ''='' @ form_encode (snd p)) ps)"

section \<open>stellar.toml\<close>

definition is_word :: "char \<Rightarrow> bool" where
  "is_word c \<longleftrightarrow> is_alnum c \<or> c = CHR ''_''"

text \<open>A match of \<open>^(\w+)\s*=\s*"([^"]+)"\<close>.\<close>

definition quote_char :: char where "quote_char = CHR 0x22"

definition toml_line :: "string \<Rightarrow> (string \<times> string) option" where
  "toml_line line =
     (let key = takeWhile is_word line; rest = dropWhile is_space (dropWhile is_word line)
      in if key = [] \<or> rest = [] \<or> hd rest \<noteq> CHR ''='' then None
         else (let after = dropWhile is_space (tl rest)
               in if after = [] \<or> hd after \<noteq> quote_char then None
                  else (let v = takeWhile (\<lambda>c. c \<noteq> quote_char) (tl after)
                        in if v = [] \<or> length v = length (tl after) then None else Some (key, v))))"

definition parse_toml :: "string \<Rightarrow> (string \<times> string) list" where
  "parse_toml text =
     fold (\<lambda>line result. case toml_line line of None \<Rightarrow> result | Some (k, v) \<Rightarrow> AList.update k v result)
       (split_on (CHR 0x0A) text) []"

definition fetchToml :: "net \<Rightarrow> string option \<Rightarrow> string \<Rightarrow> (string \<times> string) list io" where
  "fetchToml net cid anchorDomain =
     (let url = ''https://'' @ anchorDomain @ ''/.well-known/stellar.toml''
      in and_then (fetchWithCorrelationId net cid (http_get url)) (\<lambda>res.
           if \<not> rp_ok res then io_throw (PlainError (''Failed to fetch TOML from '' @ url @ '': '' @ string_of_int (rp_status res)))
           else io_return (parse_toml (rp_text res))))"

section \<open>Properties\<close>

lemma and_then_simps [simp]:
  "and_then (io_return x) k = k x" "and_then (io_throw e) k = io_throw e"
  by (simp_all add: and_then_def io_return_def io_throw_def prod_eq_iff)

lemma and_then_Inr_iff:
  "snd (and_then m k) = Inr y \<longleftrightarrow> (\<exists>x. snd m = Inr x \<and> snd (k x) = Inr y)"
  by (auto simp: and_then_def split: sum.split)

lemma and_thenE:
  assumes "snd (and_then m k) = Inr y"
  obtains x where "snd m = Inr x" "fst (and_then m k) = fst m @ fst (k x)" "snd (k x) = Inr y"
  using assms by (auto simp: and_then_def split: sum.splits)

lemma and_then_calls:
  assumes "list_all P (fst m)" and "\<And>x. snd m = Inr x \<Longrightarrow> list_all P (fst (k x))"
  shows "list_all P (fst (and_then m k))"
  using assms by (auto simp: and_then_def split: sum.split)

lemma io_base_simps [simp]:
  "fst (io_return x) = []" "snd (io_return x) = Inr x" "fst (io_throw e) = []" "snd (io_throw e) = Inl e"
  "fst (plain_fetch net c) = [c]" "snd (plain_fetch net c) = net c"
  by (simp_all add: io_return_def io_throw_def plain_fetch_def)

lemma fetchToml_calls:
  assumes "snd (fetchToml net cid d) = Inr toml"
  shows "map hc_method (fst (fetchToml net cid d)) = [''GET'']"
  using assms unfolding fetchToml_def Let_def
  by (elim and_thenE) (auto simp: fetchWithCorrelationId_def http_get_def split: if_splits)

definition print_entry :: "string \<times> string \<Rightarrow> string" where
  "print_entry e = fst e @ '' = '' @ [quote_char] @ snd e @ [quote_char]"

definition entry_ok :: "string \<times> string \<Rightarrow> bool" where
  "entry_ok e \<longleftrightarrow> fst e \<noteq> [] \<and> list_all is_word (fst e) \<and> snd e \<noteq> [] \<and> quote_char \<notin> set (snd e) \<and> CHR 0x0A \<notin> set (snd e)"

lemma toml_line_print_entry:
  assumes "entry_ok e"
  shows "toml_line (print_entry e) = Some e"
proof -
  have w: "\<And>c. c \<in> set (fst e) \<Longrightarrow> is_word c" using assms by (simp add: entry_ok_def list_all_iff)
  have sp: "is_space CHR '' ''" "\<not> is_word CHR '' ''" "\<not> is_space CHR ''=''" "\<not> is_space quote_char"
    by (simp_all add: is_space_def is_word_def is_alnum_def quote_char_def)
  have "takeWhile is_word (print_entry e) = fst e"
    using takeWhile_append2 [of "fst e" is_word "'' = '' @ [quote_char] @ snd e @ [quote_char]"] w sp
    by (simp add: print_entry_def)
  moreover have "dropWhile is_word (print_entry e) = '' = '' @ [quote_char] @ snd e @ [quote_char]"
    using dropWhile_append2 [of "fst e" is_word "'' = '' @ [quote_char] @ snd e @ [quote_char]"] w sp
    by (simp add: print_entry_def)
  moreover have "takeWhile (\<lambda>c. c \<noteq> quote_char) (snd e @ [quote_char]) = snd e"
    using assms by (subst takeWhile_append2) (auto simp: entry_ok_def)
  ultimately show ?thesis
    using assms sp by (simp add: toml_line_def entry_ok_def Let_def)
qed

lemma print_entry_one_line: "entry_ok e \<Longrightarrow> CHR 0x0A \<notin> set (print_entry e)"
proof
  assume e: "entry_ok e" and "CHR 0x0A \<in> set (print_entry e)"
  then have "CHR 0x0A \<in> set (fst e)" by (auto simp: entry_ok_def print_entry_def quote_char_def)
  with e have "is_word CHR 0x0A" by (auto simp: entry_ok_def list_all_iff)
  then show False by (simp add: is_word_def is_alnum_def)
qed

lemma fold_toml_update:
  "list_all entry_ok es \<Longrightarrow>
   map_of (fold (\<lambda>line result. case toml_line line of None \<Rightarrow> result | Some (k, v) \<Rightarrow> AList.update k v result) (map print_entry es) r) =
     map_of r ++ map_of (rev es)"
proof (induction es arbitrary: r)
  case (Cons e es)
  then show ?case
    by (cases e) (simp add: toml_line_print_entry update_conv' map_add_upd_left map_add_def fun_eq_iff split: option.split)
qed simp

text \<open>Reading inverts printing: a file with one well-formed entry per line is read back as the map of its entries, where
  the last entry of a key counts.\<close>

theorem toml_roundtrip:
  assumes "es \<noteq> []" and "list_all entry_ok es"
  shows "map_of (parse_toml (join [CHR 0x0A] (map print_entry es))) = map_of (rev es)"
proof -
  have "split_on (CHR 0x0A) (join [CHR 0x0A] (map print_entry es)) = map print_entry es"
    by (rule split_on_join) (use assms print_entry_one_line in \<open>auto simp: list_all_iff\<close>)
  then show ?thesis using fold_toml_update [OF assms(2), of "[]"] by (simp add: parse_toml_def)
qed

end
