(* ===== verification/Ramp_Transfers.thy ===== *)
theory Ramp_Transfers
  imports Anchor_Http Circuit_Breaker Kyc
begin

text \<open>
  Fiat deposits and withdrawals through an anchor: \<open>backend/src/services/sep24.ts\<close> and the handlers of
  \<open>backend/src/routes/ramp.ts\<close> behind their authentication and rate limits. The table \<open>rampTransaction\<close> is a list of
  rows; creating a row may fail, which is an argument, as are its id and the clock. All calls of one operation run
  inside the circuit breaker, which gives up on them after its time-out but does not stop them: how long the calls
  take is an argument, and rows are written however the race ends.
\<close>

section \<open>Data\<close>

datatype ramp_type = deposit | withdraw

fun ramp_type_name :: "ramp_type \<Rightarrow> string" where
  "ramp_type_name deposit = ''deposit''"
| "ramp_type_name withdraw = ''withdraw''"

record Sep24InitOpts =
  io_anchorDomain :: string
  io_stellarAccount :: string
  io_assetCode :: string
  io_assetIssuer :: "string option"
  io_amount :: "string option"
  io_userId :: string

record Sep24Result =
  sr_id :: string
  sr_anchorId :: "string option"
  sr_interactiveUrl :: "string option"
  sr_type :: ramp_type

record RampTransactionRecord =
  rt_id :: string
  rt_userId :: string
  rt_type :: ramp_type
  rt_anchorDomain :: string
  rt_stellarAccount :: string
  rt_assetCode :: string
  rt_assetIssuer :: "string option"
  rt_amount :: "string option"
  rt_anchorId :: "string option"
  rt_status :: string
  rt_interactiveUrl :: "string option"
  rt_moreInfoUrl :: "string option"
  rt_startedAt :: millis
  rt_updatedAt :: millis

type_synonym ramp_table = "RampTransactionRecord list"

definition fiatRampOptions :: CircuitBreakerOptions where
  "fiatRampOptions = \<lparr>cb_timeout = 5000, errorThresholdPercentage = 50, resetTimeout = 10000, volumeThreshold = 3, cb_name = ''circuit''\<rparr>"

section \<open>Talking to the anchor\<close>

text \<open>\<open>const {f} = body\<close>: \<open>null\<close> cannot be taken apart.\<close>

definition destructure :: "json \<Rightarrow> string \<Rightarrow> json option io" where
  "destructure body f =
     (if body = JNull then io_throw (PlainError (''Cannot destructure property '' @ f @ '' of null'')) else io_return (json_field body f))"

definition read_json :: "reply \<Rightarrow> json io" where
  "read_json res = ([], rp_json res)"

text \<open>A template literal with a value that may be missing.\<close>

definition template :: "(rat \<Rightarrow> string) \<Rightarrow> json option \<Rightarrow> string" where
  "template fmt v = (case v of None \<Rightarrow> ''undefined'' | Some j \<Rightarrow> js_String fmt j)"

definition authServer :: "(string \<times> string) list \<Rightarrow> string \<Rightarrow> string" where
  "authServer toml anchorDomain = or_default (map_of toml ''AUTH_SERVER'') (''https://'' @ anchorDomain @ ''/auth'')"

definition transferServer :: "(string \<times> string) list \<Rightarrow> string \<Rightarrow> string" where
  "transferServer toml anchorDomain =
     or_default (nullish (map_of toml ''TRANSFER_SERVER_SEP0024'') (map_of toml ''TRANSFER_SERVER'')) (''https://'' @ anchorDomain @ ''/sep24'')"

text \<open>What the service calls a token is the challenge itself.\<close>

definition challenge :: "net \<Rightarrow> string option \<Rightarrow> (string \<times> string) list \<Rightarrow> string \<Rightarrow> string \<Rightarrow> json option io" where
  "challenge net cid toml anchorDomain stellarAccount =
     and_then (fetchWithCorrelationId net cid (http_get (authServer toml anchorDomain @ ''?account='' @ encodeURIComponent stellarAccount)))
       (\<lambda>res. if \<not> rp_ok res then io_throw (PlainError (''SEP-10 challenge failed: '' @ string_of_int (rp_status res)))
              else and_then (read_json res) (\<lambda>body. destructure body ''transaction''))"

definition sep10_calls :: "net \<Rightarrow> string option \<Rightarrow> string \<Rightarrow> string \<Rightarrow> json option io" where
  "sep10_calls net cid anchorDomain stellarAccount =
     and_then (fetchToml net cid anchorDomain) (\<lambda>toml. challenge net cid toml anchorDomain stellarAccount)"

definition sep10Auth ::
  "net \<Rightarrow> string option \<Rightarrow> int option \<Rightarrow> millis \<Rightarrow> millis \<Rightarrow> string \<Rightarrow> string \<Rightarrow> breaker \<Rightarrow> breaker \<times> (thrown + json option)" where
  "sep10Auth net cid dur now later anchorDomain stellarAccount b =
     fire fiatRampOptions None now later \<lparr>at_duration = dur, at_outcome = snd (sep10_calls net cid anchorDomain stellarAccount)\<rparr> b"

text \<open>A column takes a string or nothing; the database refuses anything else.\<close>

definition string_column :: "json option \<Rightarrow> string option io" where
  "string_column v =
     (case v of None \<Rightarrow> io_return None | Some JNull \<Rightarrow> io_return None | Some (JStr s) \<Rightarrow> io_return (Some s)
      | _ \<Rightarrow> io_throw (PlainError ''PrismaClientValidationError''))"

text \<open>A column that must not be null; \<open>undefined\<close> leaves it as it is.\<close>

definition required_column :: "json option \<Rightarrow> string option io" where
  "required_column v =
     (case v of None \<Rightarrow> io_return None | Some (JStr s) \<Rightarrow> io_return (Some s) | _ \<Rightarrow> io_throw (PlainError ''PrismaClientValidationError''))"

definition optional_field :: "string \<Rightarrow> string option \<Rightarrow> (string \<times> string) list" where
  "optional_field k v = (if truthy v then [(k, or_default v [])] else [])"

definition initiate_post :: "(rat \<Rightarrow> string) \<Rightarrow> ramp_type \<Rightarrow> Sep24InitOpts \<Rightarrow> (string \<times> string) list \<Rightarrow> json option \<Rightarrow> http_call" where
  "initiate_post fmt ty opts toml jwt =
     \<lparr>hc_method = ''POST'',
      hc_url = transferServer toml (io_anchorDomain opts) @ ''/transactions/'' @ ramp_type_name ty @ ''/interactive'',
      hc_headers = [(''Authorization'', ''Bearer '' @ template fmt jwt), (''Content-Type'', ''application/x-www-form-urlencoded'')],
      hc_body = Some (form_string ([(''asset_code'', io_assetCode opts), (''account'', io_stellarAccount opts)] @
        optional_field ''asset_issuer'' (io_assetIssuer opts) @ optional_field ''amount'' (io_amount opts)))\<rparr>"

definition initiate_answer :: "ramp_type \<Rightarrow> reply \<Rightarrow> (string option \<times> string option) io" where
  "initiate_answer ty res =
     (if \<not> rp_ok res then io_throw (PlainError (''SEP-24 '' @ ramp_type_name ty @ '' failed: '' @ string_of_int (rp_status res)))
      else and_then (read_json res) (\<lambda>body.
           and_then (destructure body ''id'') (\<lambda>aid. and_then (string_column aid) (\<lambda>anchorId.
           and_then (string_column (json_field body ''url'')) (\<lambda>url. io_return (anchorId, url))))))"

definition initiate_calls :: "(rat \<Rightarrow> string) \<Rightarrow> net \<Rightarrow> string option \<Rightarrow> ramp_type \<Rightarrow> Sep24InitOpts \<Rightarrow> (string option \<times> string option) io" where
  "initiate_calls fmt net cid ty opts =
     and_then (fetchToml net cid (io_anchorDomain opts)) (\<lambda>toml.
     and_then (challenge net cid toml (io_anchorDomain opts) (io_stellarAccount opts)) (\<lambda>jwt.
     and_then (fetchWithCorrelationId net cid (initiate_post fmt ty opts toml jwt)) (initiate_answer ty)))"

definition new_row :: "millis \<Rightarrow> string \<Rightarrow> ramp_type \<Rightarrow> Sep24InitOpts \<Rightarrow> string option \<times> string option \<Rightarrow> RampTransactionRecord" where
  "new_row now uuid ty opts r =
     \<lparr>rt_id = uuid, rt_userId = io_userId opts, rt_type = ty, rt_anchorDomain = io_anchorDomain opts,
      rt_stellarAccount = io_stellarAccount opts, rt_assetCode = io_assetCode opts, rt_assetIssuer = io_assetIssuer opts,
      rt_amount = io_amount opts, rt_anchorId = fst r, rt_status = ''pending_user_transfer_start'',
      rt_interactiveUrl = snd r, rt_moreInfoUrl = None, rt_startedAt = now, rt_updatedAt = now\<rparr>"

text \<open>The work behind the breaker: the table after it and its outcome.\<close>

definition initiate_work ::
  "(rat \<Rightarrow> string) \<Rightarrow> net \<Rightarrow> string option \<Rightarrow> thrown option \<Rightarrow> millis \<Rightarrow> string \<Rightarrow> ramp_type \<Rightarrow> Sep24InitOpts \<Rightarrow> ramp_table \<Rightarrow> ramp_table \<times> (thrown + Sep24Result)" where
  "initiate_work fmt net cid create_err now uuid ty opts tbl =
     (case snd (initiate_calls fmt net cid ty opts) of
        Inl e \<Rightarrow> (tbl, Inl e)
      | Inr r \<Rightarrow>
          (case create_err of
             Some e \<Rightarrow> (tbl, Inl e)
           | None \<Rightarrow> (tbl @ [new_row now uuid ty opts r],
                      Inr \<lparr>sr_id = uuid, sr_anchorId = fst r, sr_interactiveUrl = snd r, sr_type = ty\<rparr>)))"

record 'a guarded =
  gd_breaker :: breaker
  gd_table :: ramp_table
  gd_calls :: "http_call list"
  gd_result :: "thrown + 'a"

text \<open>Work in the breaker: not begun when the circuit is open, and going on when the breaker has given up on it, unless
  it never settles.\<close>

definition guarded_work ::
  "int option \<Rightarrow> millis \<Rightarrow> millis \<Rightarrow> http_call list \<Rightarrow> ramp_table \<times> (thrown + 'a) \<Rightarrow> breaker \<Rightarrow> ramp_table \<Rightarrow> 'a guarded" where
  "guarded_work dur now later calls work b tbl =
     (let (b', r) = fire fiatRampOptions None now later \<lparr>at_duration = dur, at_outcome = snd work\<rparr> b; go = snd (fire_enter now b)
      in \<lparr>gd_breaker = b', gd_table = (if go \<and> dur \<noteq> None then fst work else tbl), gd_calls = (if go then calls else []), gd_result = r\<rparr>)"

definition initiate ::
  "(rat \<Rightarrow> string) \<Rightarrow> net \<Rightarrow> string option \<Rightarrow> thrown option \<Rightarrow> int option \<Rightarrow> millis \<Rightarrow> millis \<Rightarrow> string \<Rightarrow> ramp_type \<Rightarrow> Sep24InitOpts \<Rightarrow>
    breaker \<Rightarrow> ramp_table \<Rightarrow> Sep24Result guarded" where
  "initiate fmt net cid create_err dur now later uuid ty opts b tbl =
     guarded_work dur now later (fst (initiate_calls fmt net cid ty opts)) (initiate_work fmt net cid create_err later uuid ty opts tbl) b tbl"

definition find_row :: "string \<Rightarrow> ramp_table \<Rightarrow> RampTransactionRecord option" where
  "find_row i tbl = List.find (\<lambda>r. rt_id r = i) tbl"

definition getTransaction :: "string \<Rightarrow> ramp_table \<Rightarrow> thrown + RampTransactionRecord" where
  "getTransaction i tbl =
     (case find_row i tbl of None \<Rightarrow> Inl (PlainError (''RampTransaction '' @ i @ '' not found'')) | Some r \<Rightarrow> Inr r)"

text \<open>The poll; \<open>transaction.status\<close> must be there.\<close>

definition poll_get :: "(rat \<Rightarrow> string) \<Rightarrow> (string \<times> string) list \<Rightarrow> string \<Rightarrow> string \<Rightarrow> json option \<Rightarrow> http_call" where
  "poll_get fmt toml anchorDomain anchorId jwt =
     (http_get (transferServer toml anchorDomain @ ''/transaction?id='' @ encodeURIComponent anchorId))
       \<lparr>hc_headers := [(''Authorization'', ''Bearer '' @ template fmt jwt)]\<rparr>"

definition sync_calls :: "(rat \<Rightarrow> string) \<Rightarrow> net \<Rightarrow> string option \<Rightarrow> RampTransactionRecord \<Rightarrow> string \<Rightarrow> (string \<times> string option) io" where
  "sync_calls fmt net cid r anchorId =
     and_then (fetchToml net cid (rt_anchorDomain r)) (\<lambda>toml.
     and_then (challenge net cid toml (rt_anchorDomain r) (rt_stellarAccount r)) (\<lambda>jwt.
     and_then (plain_fetch net (poll_get fmt toml (rt_anchorDomain r) anchorId jwt)) (\<lambda>res.
       if \<not> rp_ok res then io_throw (PlainError (''Anchor transaction poll failed: '' @ string_of_int (rp_status res)))
       else and_then (read_json res) (\<lambda>body. and_then (destructure body ''transaction'') (\<lambda>tx.
            case tx of
              None \<Rightarrow> io_throw (PlainError ''Cannot read properties of undefined (reading 'status')'')
            | Some t \<Rightarrow> and_then (destructure t ''status'') (\<lambda>st. and_then (required_column st) (\<lambda>s.
                and_then (string_column (json_field t ''more_info_url'')) (\<lambda>m. io_return (or_default s (rt_status r), m)))))))))"

definition sync_work :: "(rat \<Rightarrow> string) \<Rightarrow> net \<Rightarrow> string option \<Rightarrow> millis \<Rightarrow> RampTransactionRecord \<Rightarrow> string \<Rightarrow> ramp_table \<Rightarrow> ramp_table \<times> (thrown + RampTransactionRecord)" where
  "sync_work fmt net cid now r anchorId tbl =
     (case snd (sync_calls fmt net cid r anchorId) of
        Inl e \<Rightarrow> (tbl, Inl e)
      | Inr (st, m) \<Rightarrow>
          (let upd = (\<lambda>x. x\<lparr>rt_status := st, rt_moreInfoUrl := m, rt_updatedAt := now\<rparr>)
           in (update_first (\<lambda>x. rt_id x = rt_id r) upd tbl, Inr (upd r))))"

definition syncTransactionStatus ::
  "(rat \<Rightarrow> string) \<Rightarrow> net \<Rightarrow> string option \<Rightarrow> int option \<Rightarrow> millis \<Rightarrow> millis \<Rightarrow> string \<Rightarrow> breaker \<Rightarrow> ramp_table \<Rightarrow> RampTransactionRecord guarded" where
  "syncTransactionStatus fmt net cid dur now later i b tbl =
     (case getTransaction i tbl of
        Inl e \<Rightarrow> \<lparr>gd_breaker = b, gd_table = tbl, gd_calls = [], gd_result = Inl e\<rparr>
      | Inr r \<Rightarrow>
          if \<not> truthy (rt_anchorId r) then \<lparr>gd_breaker = b, gd_table = tbl, gd_calls = [], gd_result = Inr r\<rparr>
          else guarded_work dur now later (fst (sync_calls fmt net cid r (or_default (rt_anchorId r) [])))
                 (sync_work fmt net cid later r (or_default (rt_anchorId r) []) tbl) b tbl)"

section \<open>Routes\<close>

text \<open>What a handler does: it answers, or it passes an error on.\<close>

type_synonym answer = "thrown + int \<times> json"

definition app_error :: "string \<Rightarrow> string \<Rightarrow> int \<Rightarrow> json option \<Rightarrow> thrown" where
  "app_error code message status details = AppError ''AppError'' code message status details"

definition opt_json :: "string option \<Rightarrow> json" where
  "opt_json v = (case v of None \<Rightarrow> JNull | Some s \<Rightarrow> JStr s)"

definition sep24_json :: "Sep24Result \<Rightarrow> json" where
  "sep24_json r = JObj [(''id'', JStr (sr_id r)), (''anchorId'', opt_json (sr_anchorId r)),
     (''interactiveUrl'', opt_json (sr_interactiveUrl r)), (''type'', JStr (ramp_type_name (sr_type r)))]"

definition ramp_json :: "RampTransactionRecord \<Rightarrow> json" where
  "ramp_json r = JObj [(''id'', JStr (rt_id r)), (''userId'', JStr (rt_userId r)), (''type'', JStr (ramp_type_name (rt_type r))),
     (''anchorDomain'', JStr (rt_anchorDomain r)), (''stellarAccount'', JStr (rt_stellarAccount r)), (''assetCode'', JStr (rt_assetCode r)),
     (''assetIssuer'', opt_json (rt_assetIssuer r)), (''amount'', opt_json (rt_amount r)), (''anchorId'', opt_json (rt_anchorId r)),
     (''status'', JStr (rt_status r)), (''interactiveUrl'', opt_json (rt_interactiveUrl r)), (''moreInfoUrl'', opt_json (rt_moreInfoUrl r)),
     (''startedAt'', JStr (toISOString (rt_startedAt r))), (''updatedAt'', JStr (toISOString (rt_updatedAt r)))]"

text \<open>\<open>err?.message\<close> of what the service throws, which is always an error.\<close>

definition circuit_unavailable :: "thrown \<Rightarrow> thrown" where
  "circuit_unavailable e =
     app_error ''RAMP_CIRCUIT_OPEN'' ''Fiat ramp provider is currently unavailable (circuit open)'' 503 (Some (JStr (err_message e)))"

fun initiation_failed :: "ramp_type \<Rightarrow> thrown \<Rightarrow> thrown" where
  "initiation_failed deposit e = app_error ''DEPOSIT_INITIATION_FAILED'' ''Failed to initiate deposit'' 502 (Some (JStr (err_message e)))"
| "initiation_failed withdraw e = app_error ''WITHDRAW_INITIATION_FAILED'' ''Failed to initiate withdraw'' 502 (Some (JStr (err_message e)))"

definition initiate_route ::
  "(rat \<Rightarrow> string) \<Rightarrow> net \<Rightarrow> string option \<Rightarrow> thrown option \<Rightarrow> int option \<Rightarrow> millis \<Rightarrow> millis \<Rightarrow> string \<Rightarrow> ramp_type \<Rightarrow> kyc_db \<Rightarrow>
    string \<Rightarrow> (string \<Rightarrow> string option) \<Rightarrow> breaker \<Rightarrow> ramp_table \<Rightarrow> (int \<times> json) guarded" where
  "initiate_route fmt net cid create_err dur now later uuid ty kyc wallet body b tbl =
     (let refuse = (\<lambda>e. \<lparr>gd_breaker = b, gd_table = tbl, gd_calls = [], gd_result = Inl e\<rparr>);
          status = ks_status (getKycStatus kyc wallet)
      in if \<not> truthy (body ''anchorDomain'') \<or> \<not> truthy (body ''assetCode'') \<or> \<not> truthy (body ''stellarAccount'')
         then refuse (app_error ''MISSING_FIELDS'' ''anchorDomain, assetCode, stellarAccount are required'' 400 None)
         else if status \<noteq> ''approved''
         then refuse (app_error ''KYC_REQUIRED'' ''KYC approval required to use fiat ramp'' 403 (Some (JObj [(''kycStatus'', JStr status)])))
         else (let g = initiate fmt net cid create_err dur now later uuid ty
                         \<lparr>io_anchorDomain = the (body ''anchorDomain''), io_stellarAccount = the (body ''stellarAccount''),
                          io_assetCode = the (body ''assetCode''), io_assetIssuer = body ''assetIssuer'', io_amount = body ''amount'',
                          io_userId = wallet\<rparr> b tbl
               in \<lparr>gd_breaker = gd_breaker g, gd_table = gd_table g, gd_calls = gd_calls g,
                   gd_result = (case gd_result g of
                                  Inr r \<Rightarrow> Inr (201, sep24_json r)
                                | Inl e \<Rightarrow> Inl (if isCircuitOpenError e then circuit_unavailable e else initiation_failed ty e))\<rparr>))"

definition not_found_error :: "thrown \<Rightarrow> thrown" where
  "not_found_error e = app_error ''RAMP_TRANSACTION_NOT_FOUND'' (err_message e) 404 None"

text \<open>The two reading routes are given the wallet of the caller, and do not use it.\<close>

definition status_route ::
  "(rat \<Rightarrow> string) \<Rightarrow> net \<Rightarrow> string option \<Rightarrow> int option \<Rightarrow> millis \<Rightarrow> millis \<Rightarrow> string \<Rightarrow> string \<Rightarrow> breaker \<Rightarrow> ramp_table \<Rightarrow> (int \<times> json) guarded" where
  "status_route fmt net cid dur now later wallet i b tbl =
     (let g = syncTransactionStatus fmt net cid dur now later i b tbl
      in \<lparr>gd_breaker = gd_breaker g, gd_table = gd_table g, gd_calls = gd_calls g,
          gd_result = (case gd_result g of
                         Inr r \<Rightarrow> Inr (200, ramp_json r)
                       | Inl e \<Rightarrow> Inl (if isCircuitOpenError e then circuit_unavailable e else not_found_error e))\<rparr>)"

definition read_route :: "string \<Rightarrow> string \<Rightarrow> ramp_table \<Rightarrow> answer" where
  "read_route wallet i tbl =
     (case getTransaction i tbl of Inr r \<Rightarrow> Inr (200, ramp_json r) | Inl e \<Rightarrow> Inl (not_found_error e))"

section \<open>Properties\<close>

lemmas guarded_defs = guarded_work_def fire_def Let_def

lemma guarded_open:
  assumes "\<not> snd (fire_enter now b)"
  shows "gd_table (guarded_work dur now later calls work b tbl) = tbl" "gd_calls (guarded_work dur now later calls work b tbl) = []"
    "gd_result (guarded_work dur now later calls work b tbl) = Inl open_error"
  using assms by (auto simp: guarded_defs with_fallback_def split: prod.splits)

lemma guarded_Inr:
  assumes "gd_result (guarded_work dur now later calls work b tbl) = Inr r"
  shows "snd work = Inr r \<and> gd_table (guarded_work dur now later calls work b tbl) = fst work \<and>
         gd_calls (guarded_work dur now later calls work b tbl) = calls"
  using assms by (auto simp: guarded_defs with_fallback_def race_def split: prod.splits if_splits option.splits sum.splits)

text \<open>Every call of the anchor is preceded by the checks: without the required fields, without an approved KYC status, or
  with the circuit open, a deposit or withdrawal makes no call and writes no row, and is answered with 400, 403 or 503.\<close>

theorem ramp_initiation_guarded:
  assumes "gd_calls (initiate_route fmt net cid create_err dur now later uuid ty kyc wallet body b tbl) \<noteq> [] \<or>
           gd_table (initiate_route fmt net cid create_err dur now later uuid ty kyc wallet body b tbl) \<noteq> tbl"
  shows "truthy (body ''anchorDomain'') \<and> truthy (body ''assetCode'') \<and> truthy (body ''stellarAccount'') \<and>
         ks_status (getKycStatus kyc wallet) = ''approved'' \<and> snd (fire_enter now b)"
proof (rule ccontr)
  assume no: "\<not> ?thesis"
  have "gd_calls (initiate_route fmt net cid create_err dur now later uuid ty kyc wallet body b tbl) = [] \<and>
        gd_table (initiate_route fmt net cid create_err dur now later uuid ty kyc wallet body b tbl) = tbl"
  proof (cases "snd (fire_enter now b)")
    case True
    with no show ?thesis by (auto simp: initiate_route_def Let_def)
  next
    case False
    then show ?thesis by (simp add: initiate_route_def initiate_def Let_def guarded_open)
  qed
  with assms show False by simp
qed

lemma challenge_calls:
  assumes "snd (challenge net cid toml d a) = Inr x"
  shows "map hc_method (fst (challenge net cid toml d a)) = [''GET'']"
  using assms unfolding challenge_def
  by (elim and_thenE)
     (auto simp: fetchWithCorrelationId_def http_get_def read_json_def and_then_def destructure_def split: if_splits sum.splits)

lemma initiate_calls_methods:
  assumes "snd (initiate_calls fmt net cid ty opts) = Inr x"
  shows "map hc_method (fst (initiate_calls fmt net cid ty opts)) = [''GET'', ''GET'', ''POST'']"
proof -
  have tail: "fst (initiate_answer ty res) = []" for res
    by (auto simp: initiate_answer_def and_then_def read_json_def destructure_def string_column_def split: sum.splits option.splits json.splits)
  show ?thesis
    using assms unfolding initiate_calls_def
    by (elim and_thenE) (simp add: tail fetchToml_calls challenge_calls fetchWithCorrelationId_def initiate_post_def)
qed

text \<open>A successful initiation made exactly three calls (the anchor's \<open>stellar.toml\<close>, the challenge, the request itself)
  and wrote exactly one row, for the caller, awaiting the user's transfer, with the id and the address the anchor gave.\<close>

theorem ramp_initiation_recorded:
  assumes "gd_result (initiate fmt net cid create_err dur now later uuid ty opts b tbl) = Inr r"
  shows "\<exists>row. gd_table (initiate fmt net cid create_err dur now later uuid ty opts b tbl) = tbl @ [row] \<and>
           rt_id row = sr_id r \<and> sr_id r = uuid \<and> rt_userId row = io_userId opts \<and> rt_type row = ty \<and> sr_type r = ty \<and>
           rt_status row = ''pending_user_transfer_start'' \<and> rt_anchorId row = sr_anchorId r \<and> rt_interactiveUrl row = sr_interactiveUrl r"
    and "map hc_method (gd_calls (initiate fmt net cid create_err dur now later uuid ty opts b tbl)) = [''GET'', ''GET'', ''POST'']"
proof -
  have g: "snd (initiate_work fmt net cid create_err later uuid ty opts tbl) = Inr r"
    "gd_table (initiate fmt net cid create_err dur now later uuid ty opts b tbl) = fst (initiate_work fmt net cid create_err later uuid ty opts tbl)"
    "gd_calls (initiate fmt net cid create_err dur now later uuid ty opts b tbl) = fst (initiate_calls fmt net cid ty opts)"
    using guarded_Inr [OF assms [unfolded initiate_def]] by (simp_all add: initiate_def)
  then show "\<exists>row. gd_table (initiate fmt net cid create_err dur now later uuid ty opts b tbl) = tbl @ [row] \<and>
           rt_id row = sr_id r \<and> sr_id r = uuid \<and> rt_userId row = io_userId opts \<and> rt_type row = ty \<and> sr_type r = ty \<and>
           rt_status row = ''pending_user_transfer_start'' \<and> rt_anchorId row = sr_anchorId r \<and> rt_interactiveUrl row = sr_interactiveUrl r"
    by (auto simp: initiate_work_def new_row_def split: sum.splits option.splits)
  obtain x where "snd (initiate_calls fmt net cid ty opts) = Inr x"
    using g(1) by (auto simp: initiate_work_def split: sum.splits)
  then show "map hc_method (gd_calls (initiate fmt net cid create_err dur now later uuid ty opts b tbl)) = [''GET'', ''GET'', ''POST'']"
    unfolding g(3) by (rule initiate_calls_methods)
qed

text \<open>A slow anchor: when the calls succeed but take as long as the breaker waits, or longer, the caller is told that the
  initiation failed (502), and yet the row is written and the anchor has the transaction. Trying again makes another.\<close>

theorem slow_initiation_recorded:
  assumes "snd (fire_enter now b)" and "snd (initiate_calls fmt net cid ty opts) = Inr x" and "5000 \<le> d"
  shows "let g = initiate fmt net cid None (Some d) now later uuid ty opts b tbl
         in gd_result g = Inl (PlainError ''Operation timed out after 5000ms'') \<and> gd_table g = tbl @ [new_row later uuid ty opts x]"
proof -
  have "string_of_int 5000 = ''5000''" by code_simp
  then show ?thesis
    using assms by (auto simp: initiate_def guarded_defs initiate_work_def with_fallback_def race_def fiatRampOptions_def split: prod.splits)
qed

text \<open>An anchor in memory: it publishes where it listens, hands out a challenge and accepts every request.\<close>

definition demo_anchor :: net where
  "demo_anchor call =
     Inr \<lparr>rp_status = 200, rp_text = ''TRANSFER_SERVER = '' @ [quote_char] @ ''https://a/t'' @ [quote_char],
          rp_json = Inr (JObj [(''transaction'', JObj [(''status'', JStr ''completed'')]), (''id'', JStr ''x1''), (''url'', JStr ''https://a/u'')])\<rparr>"

definition demo_opts :: Sep24InitOpts where
  "demo_opts = \<lparr>io_anchorDomain = ''a'', io_stellarAccount = ''G'', io_assetCode = ''USDC'', io_assetIssuer = None, io_amount = None, io_userId = ''u''\<rparr>"

lemma demo_initiate: "snd (initiate_calls fmt demo_anchor cid ty demo_opts) = Inr (Some ''x1'', Some ''https://a/u'')"
  by (simp add: initiate_calls_def initiate_answer_def fetchToml_def challenge_def fetchWithCorrelationId_def plain_fetch_def demo_anchor_def and_then_def
      rp_ok_def read_json_def destructure_def string_column_def json_field_def io_return_def Let_def)

theorem slow_initiation_recorded_witness:
  "gd_result (initiate (\<lambda>_. []) demo_anchor None None (Some 5000) 0 5000 ''r1'' deposit demo_opts new_breaker []) =
     Inl (PlainError ''Operation timed out after 5000ms'') \<and>
   length (gd_table (initiate (\<lambda>_. []) demo_anchor None None (Some 5000) 0 5000 ''r1'' deposit demo_opts new_breaker [])) = 1"
proof -
  have "snd (fire_enter 0 new_breaker)" by (simp add: fire_enter_def getState_def new_breaker_def)
  from slow_initiation_recorded [OF this demo_initiate order_refl,
      where fmt = "\<lambda>_. []" and cid = None and ty = deposit and later = 5000 and uuid = "''r1''" and tbl = "[]"]
  show ?thesis by (simp add: Let_def)
qed

text \<open>The status route shows and refreshes any transaction for any caller.\<close>

theorem status_ignores_owner:
  "status_route fmt net cid dur now later wallet i b tbl = status_route fmt net cid dur now later wallet' i b tbl"
  "read_route wallet i tbl = read_route wallet' i tbl"
  by (simp_all add: status_route_def read_route_def)

text \<open>Every failure of a refresh except an open circuit is reported as 404, although the transaction exists: an anchor that
  is down, and a time-out.\<close>

theorem refresh_failure_is_404:
  assumes "getTransaction i tbl = Inr r" and "truthy (rt_anchorId r)" and "snd (fire_enter now b)" and "race fiatRampOptions
      \<lparr>at_duration = dur, at_outcome = snd (sync_work fmt net cid later r (or_default (rt_anchorId r) []) tbl)\<rparr> = Inl e"
    and "\<not> isCircuitOpenError (as_error e)"
  shows "gd_result (status_route fmt net cid dur now later wallet i b tbl) = Inl (not_found_error (as_error e))"
  using assms by (auto simp: status_route_def syncTransactionStatus_def guarded_defs with_fallback_def split: prod.splits)

text \<open>A successful refresh stores what the anchor reports in the row of that id, and touches no other row.\<close>

theorem refresh_stores_status:
  assumes "gd_result (syncTransactionStatus fmt net cid dur now later i b tbl) = Inr r'" and "distinct (map rt_id tbl)"
  shows "find_row i (gd_table (syncTransactionStatus fmt net cid dur now later i b tbl)) = Some r' \<and>
         filter (\<lambda>r. rt_id r \<noteq> i) (gd_table (syncTransactionStatus fmt net cid dur now later i b tbl)) = filter (\<lambda>r. rt_id r \<noteq> i) tbl"
proof -
  obtain r where r: "find_row i tbl = Some r" "rt_id r = i"
    using assms(1) find_SomeD
    by (fastforce simp: syncTransactionStatus_def getTransaction_def find_row_def split: option.splits)
  show ?thesis
  proof (cases "truthy (rt_anchorId r)")
    case False
    then show ?thesis using assms(1) r by (auto simp: syncTransactionStatus_def getTransaction_def)
  next
    case True
    let ?w = "sync_work fmt net cid later r (or_default (rt_anchorId r) []) tbl"
    have g: "snd ?w = Inr r'" "gd_table (syncTransactionStatus fmt net cid dur now later i b tbl) = fst ?w"
      using assms(1) True r guarded_Inr [of dur now later _ ?w b tbl r']
      by (simp_all add: syncTransactionStatus_def getTransaction_def)
    obtain st m where c: "snd (sync_calls fmt net cid r (or_default (rt_anchorId r) [])) = Inr (st, m)"
      using g(1) by (auto simp: sync_work_def Let_def split: sum.splits)
    define upd where "upd = (\<lambda>x. x\<lparr>rt_status := st, rt_moreInfoUrl := m, rt_updatedAt := later\<rparr> :: RampTransactionRecord)"
    have u: "\<And>x. rt_id (upd x) = rt_id x" "r' = upd r" "fst ?w = update_first (\<lambda>x. rt_id x = i) upd tbl"
      using g(1) r by (simp_all add: sync_work_def Let_def c upd_def)
    have "find_row i (update_first (\<lambda>x. rt_id x = i) upd tbl) = map_option upd (find_row i tbl)"
      using u(1) by (induction tbl) (auto simp: find_row_def)
    moreover have "filter (\<lambda>x. rt_id x \<noteq> i) (update_first (\<lambda>x. rt_id x = i) upd tbl) = filter (\<lambda>x. rt_id x \<noteq> i) tbl"
      using u(1) by (induction tbl) auto
    ultimately show ?thesis using g(2) u r by simp
  qed
qed

end
