(* ===== verification/Cross_Border.thy ===== *)
theory Cross_Border
  imports Ramp_Transfers
begin

text \<open>
  Cross-border payments, \<open>backend/src/services/sep31.ts\<close> and the handlers of \<open>backend/src/routes/sep31.ts\<close> behind
  their authentication. The network is an argument; the table \<open>crossBorderPayment\<close> is a list of rows, and creating
  a row may fail, which is an argument.
\<close>

section \<open>Data\<close>

record Sep31Quote =
  q_rate :: json
  q_fee :: json
  q_expiresAt :: json

record Sep31SendOpts =
  so_anchorDomain :: string
  so_sendAssetCode :: string
  so_receiveAssetCode :: string
  so_amount :: string
  so_senderId :: string
  so_receiverId :: string
  so_fields :: "(string \<times> string) list"
  so_groupId :: "string option"

record Sep31SendResult =
  sd_id :: string
  sd_anchorTxId :: "json option"
  sd_stellarAccountId :: "json option"
  sd_stellarMemo :: "json option"
  sd_stellarMemoType :: "json option"

record Sep31StatusResult =
  ss_id :: string
  ss_status :: string
  ss_completedAt :: "json option"

record payment =
  pm_id :: string
  pm_senderId :: string
  pm_receiverId :: string
  pm_amount :: string
  pm_anchorDomain :: string
  pm_sendAssetCode :: string
  pm_receiveAssetCode :: string
  pm_anchorTxId :: "string option"
  pm_status :: string
  pm_stellarAccount :: "string option"
  pm_stellarMemo :: "string option"
  pm_groupId :: "string option"

type_synonym payments = "payment list"

section \<open>Operations\<close>

definition getDirectPaymentServer :: "net \<Rightarrow> string option \<Rightarrow> string \<Rightarrow> string io" where
  "getDirectPaymentServer net cid anchorDomain =
     and_then (fetchToml net cid anchorDomain)
       (\<lambda>toml. io_return (or_default (map_of toml ''DIRECT_PAYMENT_SERVER'') (''https://'' @ anchorDomain @ ''/sep31'')))"

text \<open>\<open>Object.entries(v ?? {})\<close>: arrays and strings have their positions as keys.\<close>

definition entries_of :: "json option \<Rightarrow> (string \<times> json) list" where
  "entries_of v =
     (case v of
        Some (JObj fs) \<Rightarrow> fs
      | Some (JArr vs) \<Rightarrow> map (\<lambda>(i, x). (string_of_nat i, x)) (enumerate 0 vs)
      | Some (JStr s) \<Rightarrow> map (\<lambda>(i, c). (string_of_nat i, JStr [c])) (enumerate 0 s)
      | _ \<Rightarrow> [])"

definition asset_fields :: "json \<Rightarrow> (string \<times> json) list" where
  "asset_fields body = concat (map (\<lambda>asset. entries_of (json_field (snd asset) ''fields'')) (entries_of (json_field body ''receive'')))"

definition field_optional :: "json \<Rightarrow> bool" where
  "field_optional meta = (case json_field meta ''optional'' of None \<Rightarrow> False | Some v \<Rightarrow> json_truthy v)"

definition required_fields :: "json \<Rightarrow> string list" where
  "required_fields body = map fst (filter (\<lambda>f. \<not> field_optional (snd f)) (asset_fields body))"

text \<open>Reading a property of \<open>null\<close> throws.\<close>

definition null_in_info :: "json \<Rightarrow> bool" where
  "null_in_info body \<longleftrightarrow> body = JNull \<or> JNull \<in> snd ` set (entries_of (json_field body ''receive'')) \<or> JNull \<in> snd ` set (asset_fields body)"

definition missing_fields :: "(string \<times> string) list \<Rightarrow> json \<Rightarrow> string list" where
  "missing_fields provided body = filter (\<lambda>f. \<not> truthy (map_of provided f)) (required_fields body)"

definition validateComplianceFields :: "net \<Rightarrow> string option \<Rightarrow> string \<Rightarrow> (string \<times> string) list \<Rightarrow> unit io" where
  "validateComplianceFields net cid anchorDomain provided =
     and_then (getDirectPaymentServer net cid anchorDomain) (\<lambda>server.
     and_then (fetchWithCorrelationId net cid (http_get (server @ ''/info''))) (\<lambda>res.
       if \<not> rp_ok res then io_throw (PlainError (''SEP-31 /info failed: '' @ string_of_int (rp_status res)))
       else and_then (read_json res) (\<lambda>body.
            if null_in_info body then io_throw (PlainError ''Cannot read properties of null'')
            else if missing_fields provided body \<noteq> []
            then io_throw (PlainError (''Missing required compliance fields: '' @ join '', '' (missing_fields provided body)))
            else io_return ())))"

text \<open>\<open>body.f ?? d\<close>\<close>

definition field_or :: "json \<Rightarrow> string \<Rightarrow> string \<Rightarrow> json" where
  "field_or body f d = (case json_field body f of None \<Rightarrow> JStr d | Some JNull \<Rightarrow> JStr d | Some v \<Rightarrow> v)"

definition getQuote :: "net \<Rightarrow> string option \<Rightarrow> millis \<Rightarrow> string \<Rightarrow> string \<Rightarrow> string \<Rightarrow> string \<Rightarrow> Sep31Quote io" where
  "getQuote net cid now anchorDomain sendAsset receiveAsset amount =
     and_then (getDirectPaymentServer net cid anchorDomain) (\<lambda>server.
     and_then (fetchWithCorrelationId net cid (http_get (server @ ''/rate?send_asset='' @ encodeURIComponent sendAsset @
       ''&receive_asset='' @ encodeURIComponent receiveAsset @ ''&amount='' @ encodeURIComponent amount))) (\<lambda>res.
       if \<not> rp_ok res then io_throw (PlainError (''SEP-31 rate quote failed: '' @ string_of_int (rp_status res)))
       else and_then (read_json res) (\<lambda>body.
            if body = JNull then io_throw (PlainError ''Cannot read properties of null (reading 'rate')'')
            else io_return \<lparr>q_rate = field_or body ''rate'' ''1'', q_fee = field_or body ''fee'' ''0'',
                            q_expiresAt = field_or body ''expires_at'' (toISOString (now + 3600000))\<rparr>)))"

definition send_post :: "string \<Rightarrow> Sep31SendOpts \<Rightarrow> http_call" where
  "send_post server opts =
     \<lparr>hc_method = ''POST'', hc_url = server @ ''/transactions'', hc_headers = [(''Content-Type'', ''application/json'')],
      hc_body = Some (stringify (\<lambda>_. []) (JObj [(''amount'', JStr (so_amount opts)), (''asset_code'', JStr (so_sendAssetCode opts)),
        (''destination_asset'', JStr (so_receiveAssetCode opts)), (''sender_id'', JStr (so_senderId opts)),
        (''receiver_id'', JStr (so_receiverId opts)),
        (''fields'', JObj [(''transaction'', JObj (map (\<lambda>f. (fst f, JStr (snd f))) (so_fields opts)))])]))\<rparr>"

definition send_calls :: "net \<Rightarrow> string option \<Rightarrow> Sep31SendOpts \<Rightarrow> json io" where
  "send_calls net cid opts =
     and_then (validateComplianceFields net cid (so_anchorDomain opts) (so_fields opts)) (\<lambda>_.
     and_then (getDirectPaymentServer net cid (so_anchorDomain opts)) (\<lambda>server.
     and_then (fetchWithCorrelationId net cid (send_post server opts)) (\<lambda>res.
       if \<not> rp_ok res then io_throw (PlainError (''SEP-31 transaction initiation failed: '' @ string_of_int (rp_status res)))
       else and_then (read_json res) (\<lambda>body.
            if body = JNull then io_throw (PlainError ''Cannot read properties of null (reading 'id')'') else io_return body))))"

definition text_field :: "json \<Rightarrow> string \<Rightarrow> string option" where
  "text_field body f = (case json_field body f of Some (JStr s) \<Rightarrow> Some s | _ \<Rightarrow> None)"

definition payment_row :: "string \<Rightarrow> Sep31SendOpts \<Rightarrow> json \<Rightarrow> payment" where
  "payment_row uuid opts body =
     \<lparr>pm_id = uuid, pm_senderId = so_senderId opts, pm_receiverId = so_receiverId opts, pm_amount = so_amount opts,
      pm_anchorDomain = so_anchorDomain opts, pm_sendAssetCode = so_sendAssetCode opts, pm_receiveAssetCode = so_receiveAssetCode opts,
      pm_anchorTxId = text_field body ''id'', pm_status = ''pending'', pm_stellarAccount = text_field body ''stellar_account_id'',
      pm_stellarMemo = text_field body ''stellar_memo'', pm_groupId = so_groupId opts\<rparr>"

definition sendPayment ::
  "net \<Rightarrow> string option \<Rightarrow> thrown option \<Rightarrow> string \<Rightarrow> Sep31SendOpts \<Rightarrow> payments \<Rightarrow> payments \<times> http_call list \<times> (thrown + Sep31SendResult)" where
  "sendPayment net cid create_err uuid opts tbl =
     (let r = send_calls net cid opts
      in case snd r of
           Inl e \<Rightarrow> (tbl, fst r, Inl e)
         | Inr body \<Rightarrow>
             (case create_err of
                Some e \<Rightarrow> (tbl, fst r, Inl e)
              | None \<Rightarrow> (tbl @ [payment_row uuid opts body], fst r,
                         Inr \<lparr>sd_id = uuid, sd_anchorTxId = json_field body ''id'', sd_stellarAccountId = json_field body ''stellar_account_id'',
                              sd_stellarMemo = json_field body ''stellar_memo'', sd_stellarMemoType = json_field body ''stellar_memo_type''\<rparr>)))"

text \<open>The status that the reply names, if any, and the time of completion.\<close>

definition anchor_status :: "string \<Rightarrow> json \<Rightarrow> json \<times> json option" where
  "anchor_status old body =
     (case json_field body ''transaction'' of
        Some tx \<Rightarrow> (field_or tx ''status'' old, json_field tx ''completed_at'')
      | None \<Rightarrow> (JStr old, None))"

definition payment_poll :: "net \<Rightarrow> string option \<Rightarrow> string \<Rightarrow> string \<Rightarrow> reply io" where
  "payment_poll net cid anchorDomain anchorTxId =
     and_then (getDirectPaymentServer net cid anchorDomain) (\<lambda>server.
       fetchWithCorrelationId net cid (http_get (server @ ''/transaction/'' @ encodeURIComponent anchorTxId)))"

definition find_payment :: "string \<Rightarrow> payments \<Rightarrow> payment option" where
  "find_payment i tbl = List.find (\<lambda>p. pm_id p = i) tbl"

definition getPaymentStatus ::
  "net \<Rightarrow> string option \<Rightarrow> string \<Rightarrow> string \<Rightarrow> payments \<Rightarrow> payments \<times> (thrown + Sep31StatusResult)" where
  "getPaymentStatus net cid anchorDomain i tbl =
     (case find_payment i tbl of
        None \<Rightarrow> (tbl, Inl (PlainError (''CrossBorderPayment '' @ i @ '' not found'')))
      | Some p \<Rightarrow>
          let unchanged = (tbl, Inr \<lparr>ss_id = i, ss_status = pm_status p, ss_completedAt = None\<rparr>)
          in if \<not> truthy (pm_anchorTxId p) then unchanged
             else case snd (payment_poll net cid anchorDomain (or_default (pm_anchorTxId p) [])) of
                    Inl e \<Rightarrow> (tbl, Inl e)
                  | Inr res \<Rightarrow>
                      if \<not> rp_ok res then unchanged
                      else (case rp_json res of
                              Inl e \<Rightarrow> (tbl, Inl e)
                            | Inr body \<Rightarrow>
                                if body = JNull then (tbl, Inl (PlainError ''Cannot read properties of null (reading 'transaction')''))
                                else case anchor_status (pm_status p) body of
                                       (JStr st, completedAt) \<Rightarrow>
                                         ((if st \<noteq> pm_status p then update_first (\<lambda>q. pm_id q = i) (\<lambda>q. q\<lparr>pm_status := st\<rparr>) tbl else tbl),
                                          Inr \<lparr>ss_id = i, ss_status = st, ss_completedAt = completedAt\<rparr>)
                                     | _ \<Rightarrow> (tbl, Inl (PlainError ''PrismaClientValidationError''))))"

section \<open>Routes\<close>

definition quote_json :: "Sep31Quote \<Rightarrow> json" where
  "quote_json q = JObj [(''rate'', q_rate q), (''fee'', q_fee q), (''expiresAt'', q_expiresAt q)]"

definition quote_route :: "net \<Rightarrow> string option \<Rightarrow> millis \<Rightarrow> (string \<Rightarrow> string option) \<Rightarrow> answer" where
  "quote_route net cid now query =
     (if \<not> truthy (query ''anchorDomain'') \<or> \<not> truthy (query ''sendAsset'') \<or> \<not> truthy (query ''receiveAsset'') \<or> \<not> truthy (query ''amount'')
      then Inl (app_error ''MISSING_FIELDS'' ''anchorDomain, sendAsset, receiveAsset, amount are required'' 400 None)
      else case snd (getQuote net cid now (the (query ''anchorDomain'')) (the (query ''sendAsset'')) (the (query ''receiveAsset'')) (the (query ''amount''))) of
             Inr q \<Rightarrow> Inr (200, quote_json q)
           | Inl e \<Rightarrow> Inl (app_error ''QUOTE_FETCH_FAILED'' ''Failed to get quote'' 502 (Some (JStr (err_message e)))))"

fun str_includes :: "string \<Rightarrow> string \<Rightarrow> bool" where
  "str_includes [] p \<longleftrightarrow> p = []"
| "str_includes (c # s) p \<longleftrightarrow> startsWith (c # s) p \<or> str_includes s p"

definition send_failed :: "thrown \<Rightarrow> thrown" where
  "send_failed e =
     (let isValidation = str_includes (err_message e) ''Missing required compliance''
      in app_error (if isValidation then ''MISSING_COMPLIANCE_FIELDS'' else ''SEP31_SEND_FAILED'') (err_message e)
           (if isValidation then 422 else 502) None)"

definition opt_field :: "string \<Rightarrow> json option \<Rightarrow> (string \<times> json) list" where
  "opt_field k v = (case v of None \<Rightarrow> [] | Some j \<Rightarrow> [(k, j)])"

definition send_json_result :: "Sep31SendResult \<Rightarrow> json" where
  "send_json_result r = JObj ((''id'', JStr (sd_id r)) # opt_field ''anchorTxId'' (sd_anchorTxId r) @
     opt_field ''stellarAccountId'' (sd_stellarAccountId r) @ opt_field ''stellarMemo'' (sd_stellarMemo r) @
     opt_field ''stellarMemoType'' (sd_stellarMemoType r))"

definition send_route ::
  "net \<Rightarrow> string option \<Rightarrow> thrown option \<Rightarrow> string \<Rightarrow> string \<Rightarrow> (string \<Rightarrow> string option) \<Rightarrow> (string \<times> string) list \<Rightarrow> payments \<Rightarrow>
    payments \<times> http_call list \<times> answer" where
  "send_route net cid create_err uuid wallet body provided tbl =
     (if \<not> truthy (body ''anchorDomain'') \<or> \<not> truthy (body ''sendAssetCode'') \<or> \<not> truthy (body ''receiveAssetCode'') \<or>
         \<not> truthy (body ''amount'') \<or> \<not> truthy (body ''receiverId'')
      then (tbl, [], Inl (app_error ''MISSING_FIELDS'' ''anchorDomain, sendAssetCode, receiveAssetCode, amount, receiverId are required'' 400 None))
      else case sendPayment net cid create_err uuid
                  \<lparr>so_anchorDomain = the (body ''anchorDomain''), so_sendAssetCode = the (body ''sendAssetCode''),
                   so_receiveAssetCode = the (body ''receiveAssetCode''), so_amount = the (body ''amount''), so_senderId = wallet,
                   so_receiverId = the (body ''receiverId''), so_fields = provided, so_groupId = body ''groupId''\<rparr> tbl of
             (tbl', calls, Inr r) \<Rightarrow> (tbl', calls, Inr (201, send_json_result r))
           | (tbl', calls, Inl e) \<Rightarrow> (tbl', calls, Inl (send_failed e)))"

definition payment_status_json :: "Sep31StatusResult \<Rightarrow> json" where
  "payment_status_json r = JObj ([(''id'', JStr (ss_id r)), (''status'', JStr (ss_status r))] @ opt_field ''completedAt'' (ss_completedAt r))"

definition payment_status_route :: "net \<Rightarrow> string option \<Rightarrow> string \<Rightarrow> (string \<Rightarrow> string option) \<Rightarrow> string \<Rightarrow> payments \<Rightarrow> payments \<times> answer" where
  "payment_status_route net cid wallet query i tbl =
     (if \<not> truthy (query ''anchorDomain'') then (tbl, Inl (app_error ''MISSING_FIELDS'' ''anchorDomain query param is required'' 400 None))
      else case getPaymentStatus net cid (the (query ''anchorDomain'')) i tbl of
             (tbl', Inr r) \<Rightarrow> (tbl', Inr (200, payment_status_json r))
           | (tbl', Inl e) \<Rightarrow> (tbl', Inl (app_error ''SEP31_STATUS_NOT_FOUND'' (err_message e) 404 None)))"

section \<open>Properties\<close>

lemma get_calls: "list_all (\<lambda>c. hc_method c = ''GET'') (fst (fetchWithCorrelationId net cid (http_get url)))"
  by (simp add: fetchWithCorrelationId_def http_get_def)

lemma getDirectPaymentServer_gets: "list_all (\<lambda>c. hc_method c = ''GET'') (fst (getDirectPaymentServer net cid d))"
  unfolding getDirectPaymentServer_def fetchToml_def Let_def by (intro and_then_calls get_calls) simp_all

lemma validate_gets: "list_all (\<lambda>c. hc_method c = ''GET'') (fst (validateComplianceFields net cid d fs))"
proof -
  have "fst (read_json res) = []" for res by (simp add: read_json_def)
  then show ?thesis
    unfolding validateComplianceFields_def
    by (intro and_then_calls getDirectPaymentServer_gets get_calls) (auto intro!: and_then_calls)
qed

text \<open>No payment is sent before it complies: when a payment is posted to the anchor, its \<open>/info\<close> was read and every
  required field it lists is provided.\<close>

theorem payment_complies:
  assumes "c \<in> set (fst (send_calls net cid opts))" and "hc_method c = ''POST''"
  shows "snd (validateComplianceFields net cid (so_anchorDomain opts) (so_fields opts)) = Inr ()"
proof (rule ccontr)
  assume "\<not> ?thesis"
  then obtain e where "snd (validateComplianceFields net cid (so_anchorDomain opts) (so_fields opts)) = Inl e"
    by (cases "snd (validateComplianceFields net cid (so_anchorDomain opts) (so_fields opts))") auto
  then have "fst (send_calls net cid opts) = fst (validateComplianceFields net cid (so_anchorDomain opts) (so_fields opts))"
    by (simp add: send_calls_def and_then_def)
  with assms validate_gets [of net cid "so_anchorDomain opts" "so_fields opts"] show False
    by (auto simp: list_all_iff)
qed

text \<open>What validation demands: the fields that are not optional of every asset the anchor receives, also of those the
  payment is not about.\<close>

theorem validation_iff:
  "snd (validateComplianceFields net cid d provided) = Inr () \<longleftrightarrow>
     (\<exists>server res body. snd (getDirectPaymentServer net cid d) = Inr server \<and>
        snd (fetchWithCorrelationId net cid (http_get (server @ ''/info''))) = Inr res \<and> rp_ok res \<and> rp_json res = Inr body \<and>
        \<not> null_in_info body \<and> (\<forall>f\<in>set (required_fields body). truthy (map_of provided f)))"
proof -
  have "missing_fields provided body = [] \<longleftrightarrow> (\<forall>f\<in>set (required_fields body). truthy (map_of provided f))" for body
    by (auto simp: missing_fields_def filter_empty_conv)
  then show ?thesis
    unfolding validateComplianceFields_def and_then_Inr_iff by (auto simp: and_then_Inr_iff read_json_def split: if_splits)
qed

text \<open>A payment that the anchor has accepted is lost when its row cannot be created: it has been posted, the caller is told
  that sending failed, and no row remembers it.\<close>

theorem unrecorded_payment:
  assumes "snd (send_calls net cid opts) = Inr body"
  shows "sendPayment net cid (Some e) uuid opts tbl = (tbl, fst (send_calls net cid opts), Inl e) \<and>
         (\<exists>c\<in>set (fst (send_calls net cid opts)). hc_method c = ''POST'')"
proof -
  let ?v = "validateComplianceFields net cid (so_anchorDomain opts) (so_fields opts)"
  let ?s = "getDirectPaymentServer net cid (so_anchorDomain opts)"
  obtain u server where "snd ?v = Inr u" "snd ?s = Inr server"
    using assms unfolding send_calls_def and_then_Inr_iff by blast
  then have "fetch \<in> set (fst (send_calls net cid opts))"
    if "fst (fetchWithCorrelationId net cid (send_post server opts)) = [fetch]" for fetch
    using that unfolding send_calls_def by (auto simp: and_then_def split: sum.split)
  then have "\<exists>c\<in>set (fst (send_calls net cid opts)). hc_method c = ''POST''"
    by (force simp: fetchWithCorrelationId_def send_post_def)
  then show ?thesis using assms by (simp add: sendPayment_def Let_def)
qed

definition forged_net :: "string \<Rightarrow> string \<Rightarrow> net \<Rightarrow> net" where
  "forged_net domain st net call =
     (if startsWith (hc_url call) (''https://'' @ domain @ ''/'')
      then Inr \<lparr>rp_status = 200, rp_text = [], rp_json = Inr (JObj [(''transaction'', JObj [(''status'', JStr st)])])\<rparr>
      else net call)"

lemma startsWith_append [simp]: "startsWith (p @ s) p"
  by (simp add: startsWith_def)

text \<open>The status of a payment can be forged: the route polls the domain that its caller names, not the one the payment was
  sent through. Whoever runs any domain can give every payment any status.\<close>

theorem payment_status_forgeable:
  assumes "find_payment i tbl = Some p" and "truthy (pm_anchorTxId p)" and "domain \<noteq> []"
  shows "\<exists>p'. find_payment i (fst (payment_status_route (forged_net domain st net) cid wallet (\<lambda>_. Some domain) i tbl)) = Some p' \<and> pm_status p' = st"
proof -
  let ?net = "forged_net domain st net"
  have hit: "?net c = Inr \<lparr>rp_status = 200, rp_text = [], rp_json = Inr (JObj [(''transaction'', JObj [(''status'', JStr st)])])\<rparr>"
    if "hc_url c = ''https://'' @ domain @ ''/'' @ x" for c x
    using that startsWith_append [of "''https://'' @ domain @ ''/''" x] by (simp add: forged_net_def)
  have "snd (fetchToml ?net cid domain) = Inr []"
    using hit [of _ "''.well-known/stellar.toml''"]
    by (simp add: fetchToml_def fetchWithCorrelationId_def plain_fetch_def http_get_def and_then_def rp_ok_def parse_toml_def toml_line_def Let_def)
  then have server: "snd (getDirectPaymentServer ?net cid domain) = Inr (''https://'' @ domain @ ''/sep31'')"
    by (simp add: getDirectPaymentServer_def and_then_def)
  have "snd (payment_poll ?net cid domain x) = Inr \<lparr>rp_status = 200, rp_text = [], rp_json = Inr (JObj [(''transaction'', JObj [(''status'', JStr st)])])\<rparr>" for x
    using hit [of _ "''sep31/transaction/'' @ encodeURIComponent x"]
    by (simp add: payment_poll_def and_then_def server fetchWithCorrelationId_def plain_fetch_def http_get_def)
  then have "fst (payment_status_route ?net cid wallet (\<lambda>_. Some domain) i tbl) =
      (if st \<noteq> pm_status p then update_first (\<lambda>q. pm_id q = i) (\<lambda>q. q\<lparr>pm_status := st\<rparr>) tbl else tbl)"
    using assms by (simp add: payment_status_route_def getPaymentStatus_def rp_ok_def anchor_status_def field_or_def json_field_def Let_def)
  moreover have "find_payment i (update_first (\<lambda>q. pm_id q = i) (\<lambda>q. q\<lparr>pm_status := st\<rparr>) tbl) = map_option (\<lambda>q. q\<lparr>pm_status := st\<rparr>) (find_payment i tbl)"
    by (induction tbl) (auto simp: find_payment_def)
  ultimately show ?thesis using assms(1) by simp
qed

definition demo_payment :: payment where
  "demo_payment = payment_row ''p'' \<lparr>so_anchorDomain = ''a'', so_sendAssetCode = [], so_receiveAssetCode = [], so_amount = [],
     so_senderId = [], so_receiverId = [], so_fields = [], so_groupId = None\<rparr> (JObj [(''id'', JStr ''t'')])"

theorem payment_status_forgeable_witness:
  "\<exists>p'. find_payment ''p'' (fst (payment_status_route (forged_net ''evil'' ''completed'' (\<lambda>_. Inl (PlainError [])))
     None ''w'' (\<lambda>_. Some ''evil'') ''p'' [demo_payment])) = Some p' \<and> pm_status p' = ''completed''"
proof (rule payment_status_forgeable)
  show "find_payment ''p'' [demo_payment] = Some demo_payment" by (simp add: find_payment_def demo_payment_def payment_row_def)
  show "truthy (pm_anchorTxId demo_payment)" by (simp add: demo_payment_def payment_row_def text_field_def json_field_def)
qed simp

end
