(* ===== verification/Group_Metadata.thy ===== *)
theory Group_Metadata
  imports Pinning_Service Js_Values
begin

text \<open>
  Group metadata on IPFS, \<open>backend/src/ipfs/group_metadata_cache.ts\<close>, over Redis and the pinning service, and the
  alerts of \<open>backend/src/ipfs/monitor.ts\<close>. The answers of the IPFS node (\<open>add\<close>, \<open>cat\<close>, health, pin list) and
  \<open>JSON.parse\<close> are arguments. The time to live of the cached copy is not part of the view of Redis: that it has
  run out is the absence of its key.
\<close>

section \<open>Cached metadata\<close>

definition cid_key :: "string \<Rightarrow> string \<Rightarrow> string" where
  "cid_key contractId groupId = ''ipfs:group:cid:'' @ contractId @ '':'' @ groupId"

definition copy_key :: "string \<Rightarrow> string \<Rightarrow> string" where
  "copy_key contractId groupId = ''ipfs:group:cache:'' @ contractId @ '':'' @ groupId"

definition METADATA_CACHE_TTL :: int where "METADATA_CACHE_TTL = 300"

text \<open>\<open>{...metadata, updated_at: metadata.updated_at ?? now, version: metadata.version ?? 1}\<close>\<close>

definition present :: "json option \<Rightarrow> json \<Rightarrow> json" where
  "present v d = (case v of None \<Rightarrow> d | Some JNull \<Rightarrow> d | Some x \<Rightarrow> x)"

definition metadata_payload :: "millis \<Rightarrow> json \<Rightarrow> json" where
  "metadata_payload now metadata =
     with_field (with_field metadata ''updated_at'' (present (json_field metadata ''updated_at'') (JNum (now div 1000))))
       ''version'' (present (json_field metadata ''version'') (JNum 1))"

definition setex :: "'db redis_ops \<Rightarrow> 'db \<Rightarrow> string \<Rightarrow> int \<Rightarrow> string \<Rightarrow> 'db" where
  "setex ops db k ttl v = rexpire ops (rset ops db k v) k ttl"

definition cacheMetadata ::
  "'db redis_ops \<Rightarrow> (rat \<Rightarrow> string) \<Rightarrow> (string \<Rightarrow> string \<Rightarrow> string + string) \<Rightarrow> int \<Rightarrow> millis \<Rightarrow> string \<Rightarrow> string \<Rightarrow> string \<Rightarrow> json \<Rightarrow> 'db \<Rightarrow>
    'db \<times> (string + string)" where
  "cacheMetadata ops fmt ipfs_add pinRetryCount now jobId groupId contractId metadata db =
     (let payloadJson = stringify fmt (metadata_payload now metadata)
      in case ipfs_add payloadJson (''group-'' @ groupId @ ''-metadata.json'') of
           Inl e \<Rightarrow> (db, Inl e)
         | Inr cid \<Rightarrow>
             (let db1 = rset ops db (cid_key contractId groupId) cid;
                  db2 = setex ops db1 (copy_key contractId groupId) METADATA_CACHE_TTL payloadJson
              in (fst (pinContent ops pinRetryCount now jobId cid groupId contractId 0 db2), Inr cid)))"

text \<open>The metadata, if any, and the id of the content. Only the part that asks IPFS catches errors: a cached copy that
  does not parse throws, which is \<open>Inl\<close>.\<close>

definition getCachedMetadata ::
  "'db redis_ops \<Rightarrow> (string \<Rightarrow> json option) \<Rightarrow> (string \<Rightarrow> string + string) \<Rightarrow> string \<Rightarrow> string \<Rightarrow> 'db \<Rightarrow>
    'db \<times> (string + json option \<times> string option)" where
  "getCachedMetadata ops parse cat groupId contractId db =
     (let cached = rget ops db (copy_key contractId groupId); cid = rget ops db (cid_key contractId groupId)
      in if truthy cached
         then (db, case parse (the cached) of None \<Rightarrow> Inl ''SyntaxError'' | Some metadata \<Rightarrow> Inr (Some metadata, cid))
         else if \<not> truthy cid then (db, Inr (None, None))
         else case cat (the cid) of
                Inl _ \<Rightarrow> (db, Inr (None, cid))
              | Inr raw \<Rightarrow>
                  (case parse raw of
                     None \<Rightarrow> (db, Inr (None, cid))
                   | Some metadata \<Rightarrow>
                       (recordAccess ops (the cid) (setex ops db (copy_key contractId groupId) METADATA_CACHE_TTL raw), Inr (Some metadata, cid))))"

definition invalidateMetadata ::
  "'db redis_ops \<Rightarrow> int \<Rightarrow> millis \<Rightarrow> string \<Rightarrow> string \<Rightarrow> string \<Rightarrow> 'db \<Rightarrow> 'db" where
  "invalidateMetadata ops pinRetryCount now jobId groupId contractId db =
     (let cid = rget ops db (cid_key contractId groupId); db1 = rdel ops db (copy_key contractId groupId)
      in if truthy cid
         then rdel ops (fst (unpinContent ops pinRetryCount now jobId (the cid) groupId contractId db1)) (cid_key contractId groupId)
         else db1)"

definition getCid :: "'db redis_ops \<Rightarrow> string \<Rightarrow> string \<Rightarrow> 'db \<Rightarrow> string option" where
  "getCid ops groupId contractId db = rget ops db (cid_key contractId groupId)"

record pin_status =
  ps_cid :: "string option"
  ps_pinned :: bool
  ps_accessCount :: "int option"
  ps_jobCount :: nat

definition getPinStatus ::
  "'db redis_ops \<Rightarrow> (string \<Rightarrow> string + string list) \<Rightarrow> string \<Rightarrow> string \<Rightarrow> 'db \<Rightarrow> string + pin_status" where
  "getPinStatus ops pinLs groupId contractId db =
     (let cid = getCid ops groupId contractId db
      in if \<not> truthy cid then Inr \<lparr>ps_cid = None, ps_pinned = False, ps_accessCount = Some 0, ps_jobCount = 0\<rparr>
         else case isPinned ops pinLs (the cid) db of
                Inl e \<Rightarrow> Inl e
              | Inr pinned \<Rightarrow> Inr \<lparr>ps_cid = cid, ps_pinned = pinned, ps_accessCount = getAccessCount ops (the cid) db,
                                   ps_jobCount = length (getJobsByGroup ops groupId db)\<rparr>)"

text \<open>\<open>key.replace(prefix, '')\<close> for a key that begins with the prefix.\<close>

primrec refresh_loop ::
  "'db redis_ops \<Rightarrow> (string \<Rightarrow> string + string list) \<Rightarrow> int \<Rightarrow> millis \<Rightarrow> (nat \<Rightarrow> string) \<Rightarrow> string \<Rightarrow> string list \<Rightarrow> 'db \<times> nat \<times> nat \<Rightarrow> 'db \<times> nat \<times> nat" where
  "refresh_loop ops pinLs rc now fresh contractId [] st = st"
| "refresh_loop ops pinLs rc now fresh contractId (key # keys) st =
     refresh_loop ops pinLs rc now fresh contractId keys
       (case st of (db, refreshed, failures) \<Rightarrow>
          let groupId = drop (length (cid_key contractId [])) key; cid = rget ops db key
          in if \<not> truthy cid then (db, refreshed, failures)
             else case refreshPin ops pinLs rc now (fresh (length keys)) (the cid) groupId contractId db of
                    Inl _ \<Rightarrow> (db, refreshed, failures + 1)
                  | Inr db' \<Rightarrow> (db', refreshed + 1, failures))"

definition refreshAllPins ::
  "'db redis_ops \<Rightarrow> (string \<Rightarrow> string + string list) \<Rightarrow> int \<Rightarrow> millis \<Rightarrow> (nat \<Rightarrow> string) \<Rightarrow> string \<Rightarrow> 'db \<Rightarrow> 'db \<times> nat \<times> nat" where
  "refreshAllPins ops pinLs rc now fresh contractId db =
     refresh_loop ops pinLs rc now fresh contractId (str_keys ops db (cid_key contractId [])) (db, 0, 0)"

section \<open>Monitor\<close>

datatype ipfs_alert = node_unreachable | pin_failure | pin_missing | queue_stalled

record IpfsMonitorAlert =
  ia_id :: string
  ia_type :: ipfs_alert
  ia_message :: string
  ia_timestamp :: millis
  ia_acknowledged :: bool

fun ipfs_alert_name :: "ipfs_alert \<Rightarrow> string" where
  "ipfs_alert_name node_unreachable = ''node_unreachable''"
| "ipfs_alert_name pin_failure = ''pin_failure''"
| "ipfs_alert_name pin_missing = ''pin_missing''"
| "ipfs_alert_name queue_stalled = ''queue_stalled''"

type_synonym ipfs_alerts = "IpfsMonitorAlert list"

definition new_alert :: "ipfs_alert \<Rightarrow> string \<Rightarrow> millis \<Rightarrow> IpfsMonitorAlert" where
  "new_alert ty message now = \<lparr>ia_id = ipfs_alert_name ty @ ''-'' @ string_of_int now, ia_type = ty, ia_message = message,
     ia_timestamp = now, ia_acknowledged = False\<rparr>"

definition addAlert :: "ipfs_alert \<Rightarrow> string \<Rightarrow> millis \<Rightarrow> ipfs_alerts \<Rightarrow> ipfs_alerts" where
  "addAlert ty message now as =
     (if list_ex (\<lambda>a. ia_type a = ty \<and> \<not> ia_acknowledged a) as then as
      else (let as' = as @ [new_alert ty message now]
            in if length as' > 1000 then js_slice (- 500) (int (length as')) as' else as'))"

definition checkNodeHealth :: "bool \<Rightarrow> millis \<Rightarrow> ipfs_alerts \<Rightarrow> ipfs_alerts" where
  "checkNodeHealth healthy now as = (if healthy then as else addAlert node_unreachable ''IPFS node is unreachable'' now as)"

definition ipfs_checkFailedJobs :: "queue_stats \<Rightarrow> millis \<Rightarrow> ipfs_alerts \<Rightarrow> ipfs_alerts" where
  "ipfs_checkFailedJobs stats now as =
     (if qs_failed stats > 0 then addAlert pin_failure (string_of_nat (qs_failed stats) @ '' pinning job(s) have failed'') now as else as)"

definition checkPinConsistency :: "pin_report \<Rightarrow> millis \<Rightarrow> ipfs_alerts \<Rightarrow> ipfs_alerts" where
  "checkPinConsistency rep now as =
     (if rep_missing rep > 0
      then addAlert pin_missing (string_of_nat (rep_missing rep) @ '' of '' @ string_of_nat (rep_total rep) @
             '' tracked CID(s) are missing from the IPFS node'') now as
      else as)"

definition checkQueueStalled :: "queue_stats \<Rightarrow> bool \<Rightarrow> millis \<Rightarrow> ipfs_alerts \<Rightarrow> ipfs_alerts" where
  "checkQueueStalled stats ipfsReady now as =
     (if qs_processing stats > 0 \<and> ipfsReady
      then addAlert queue_stalled (string_of_nat (qs_processing stats) @ '' job(s) stuck in processing state'') now as else as)"

text \<open>The four checks run concurrently and raise alerts of different types; here they run in the order of the code.\<close>

definition ipfs_runChecks ::
  "'db redis_ops \<Rightarrow> bool \<Rightarrow> (string \<Rightarrow> string + string list) \<Rightarrow> millis \<Rightarrow> 'db \<Rightarrow> ipfs_alerts \<Rightarrow> 'db \<times> ipfs_alerts" where
  "ipfs_runChecks ops healthy pinLs now db as =
     (let stats = getQueueStats ops db; (db', rep) = verifyAllPins ops pinLs db
      in (db', checkQueueStalled stats healthy now (checkPinConsistency rep now
                 (ipfs_checkFailedJobs stats now (checkNodeHealth healthy now as)))))"

definition ipfs_getAlerts :: "bool \<Rightarrow> ipfs_alerts \<Rightarrow> ipfs_alerts" where
  "ipfs_getAlerts unacknowledgedOnly as = (if unacknowledgedOnly then filter (\<lambda>a. \<not> ia_acknowledged a) as else as)"

definition ipfs_acknowledge :: "string \<Rightarrow> ipfs_alerts \<Rightarrow> ipfs_alerts \<times> bool" where
  "ipfs_acknowledge i as = (update_first (\<lambda>a. ia_id a = i) (\<lambda>a. a\<lparr>ia_acknowledged := True\<rparr>) as, list_ex (\<lambda>a. ia_id a = i) as)"

definition acknowledgeByType :: "ipfs_alert \<Rightarrow> ipfs_alerts \<Rightarrow> ipfs_alerts \<times> nat" where
  "acknowledgeByType ty as =
     (map (\<lambda>a. if ia_type a = ty \<and> \<not> ia_acknowledged a then a\<lparr>ia_acknowledged := True\<rparr> else a) as,
      length (filter (\<lambda>a. ia_type a = ty \<and> \<not> ia_acknowledged a) as))"

section \<open>What the cache returns\<close>

lemma metadata_keys_distinct [simp]:
  "cid_key c g \<noteq> copy_key c' g'" "copy_key c' g' \<noteq> cid_key c g" "access_key x \<noteq> cid_key c g" "access_key x \<noteq> copy_key c g"
  "pinned_key x \<noteq> cid_key c g" "pinned_key x \<noteq> copy_key c g" "hot_key x \<noteq> cid_key c g" "cid_key c g \<noteq> job_key i" "cid_key c g \<noteq> QUEUE_KEY"
  "cid_key c g \<noteq> PROCESSING_KEY" "copy_key c g \<noteq> job_key i" "copy_key c g \<noteq> QUEUE_KEY" "cid_key c g \<noteq> pinned_key x" "cid_key c g \<noteq> hot_key x"
  "QUEUE_KEY \<noteq> cid_key c g" "QUEUE_KEY \<noteq> copy_key c g" "job_key i \<noteq> cid_key c g" "copy_key c g \<noteq> access_key x" "cid_key c g \<noteq> access_key x" "copy_key c g \<noteq> pinned_key x"
  by (simp_all add: cid_key_def copy_key_def access_key_def pinned_key_def hot_key_def ACCESS_COUNTER_PREFIX_def PINNED_CID_PREFIX_def
      HOT_CID_PREFIX_def job_key_def job_prefix_def JOB_KEY_PREFIX_def QUEUE_KEY_def PROCESSING_KEY_def)

context redis_server
begin

lemma str_pinContent: "str_of view (fst (pinContent ops rc now i cid g c p db)) = str_of view db"
  by (simp add: pinContent_def pin_enqueue_def str_frame Let_def)

lemma str_setex: "str_of view (setex ops db k ttl v) = (str_of view db)(k \<mapsto> v)"
  by (simp add: setex_def str_frame str_rset)

lemma cacheMetadata_str:
  assumes "ipfs_add (stringify fmt (metadata_payload now m)) (''group-'' @ g @ ''-metadata.json'') = Inr cid"
  shows "snd (cacheMetadata ops fmt ipfs_add rc now i g c m db) = Inr cid"
    and "str_of view (fst (cacheMetadata ops fmt ipfs_add rc now i g c m db)) =
      (str_of view db)(cid_key c g \<mapsto> cid, copy_key c g \<mapsto> stringify fmt (metadata_payload now m))"
  using assms by (simp_all add: cacheMetadata_def Let_def str_pinContent str_setex str_rset)

lemma getCached_copy:
  assumes "str_of view db (copy_key c g) = Some s" "s \<noteq> []" "parse s = Some m"
  shows "getCachedMetadata ops parse cat g c db = (db, Inr (Some m, str_of view db (cid_key c g)))"
  using assms by (simp add: getCachedMetadata_def str_rget Let_def)

lemma getCached_ipfs:
  assumes "str_of view db (copy_key c g) = None" "str_of view db (cid_key c g) = Some cid" "cid \<noteq> []" "cat cid = Inr s" "parse s = Some m"
  shows "snd (getCachedMetadata ops parse cat g c db) = Inr (Some m, Some cid)"
    and "str_of view (fst (getCachedMetadata ops parse cat g c db)) (copy_key c g) = Some s"
  using assms by (simp_all add: getCachedMetadata_def str_rget Let_def recordAccess_def str_setex str_frame str_rincr)

end

lemma stringify_payload_nonempty: "stringify fmt (metadata_payload now m) \<noteq> []"
  by (simp add: metadata_payload_def with_field_def)

text \<open>What is cached is read back: after metadata was cached, reading gives exactly the stored payload and its content id,
  from the copy in Redis as long as it lives and from IPFS afterwards, which renews the copy.\<close>

theorem metadata_roundtrip:
  assumes "redis_server ops view" and "parse (stringify fmt (metadata_payload now m)) = Some (metadata_payload now m)"
    and "ipfs_add (stringify fmt (metadata_payload now m)) (''group-'' @ g @ ''-metadata.json'') = Inr cid" and "cid \<noteq> []"
    and "db' = fst (cacheMetadata ops fmt ipfs_add rc now i g c m db)"
  shows "getCachedMetadata ops parse cat g c db' = (db', Inr (Some (metadata_payload now m), Some cid))"
    and "cat cid = Inr (stringify fmt (metadata_payload now m)) \<Longrightarrow>
         snd (getCachedMetadata ops parse cat g c (rdel ops db' (copy_key c g))) = Inr (Some (metadata_payload now m), Some cid)"
proof -
  have s: "str_of view db' = (str_of view db)(cid_key c g \<mapsto> cid, copy_key c g \<mapsto> stringify fmt (metadata_payload now m))"
    unfolding assms(5) by (rule redis_server.cacheMetadata_str(2)) (fact assms)+
  show "getCachedMetadata ops parse cat g c db' = (db', Inr (Some (metadata_payload now m), Some cid))"
    using redis_server.getCached_copy [OF assms(1), of db' c g "stringify fmt (metadata_payload now m)" parse] s assms(2)
      stringify_payload_nonempty by simp
  show "snd (getCachedMetadata ops parse cat g c (rdel ops db' (copy_key c g))) = Inr (Some (metadata_payload now m), Some cid)"
    if "cat cid = Inr (stringify fmt (metadata_payload now m))"
    using that s assms(2,4) by (intro redis_server.getCached_ipfs(1) [OF assms(1)]) (simp_all add: redis_server.str_frame(1) [OF assms(1)])
qed

theorem metadata_roundtrip_witness:
  "let m = JObj [(''name'', JStr ''g'')]; p = metadata_payload 5000 m;
       db = fst (cacheMetadata mem_ops (\<lambda>_. []) (\<lambda>_ _. Inr ''Qm'') 3 5000 ''j'' ''g1'' ''C1'' m empty_db)
   in getCachedMetadata mem_ops (\<lambda>_. Some p) (\<lambda>_. Inl []) ''g1'' ''C1'' db = (db, Inr (Some p, Some ''Qm''))"
  unfolding Let_def
  by (rule metadata_roundtrip(1) [where view = mem_view and fmt = "\<lambda>_. []" and ipfs_add = "\<lambda>_ _. Inr ''Qm''"]) (simp_all add: mem.redis_server_axioms)

section \<open>Shared content\<close>

context redis_server
begin

text \<open>The only waiting job, fetched.\<close>

lemma single_dequeue:
  assumes "zset_of view db QUEUE_KEY = [i \<mapsto> p]" "getJob ops i db = Some j"
  shows "pin_dequeue ops now db =
    (sadd ops (hset ops (fst (zpopmin ops db QUEUE_KEY)) (job_key i) (jobToMap (j\<lparr>pj_status := ''pinning'', pj_updatedAt := Some now\<rparr>))) PROCESSING_KEY i,
     Some (j\<lparr>pj_status := ''pinning'', pj_updatedAt := Some now\<rparr>))"
proof -
  have "zrange_first ops db QUEUE_KEY \<noteq> None" using assms(1) by (simp add: zrange_first_None)
  then obtain e where e: "zrange_first ops db QUEUE_KEY = Some e" by blast
  then have "least_member [i \<mapsto> p] e" using zrange_first_Some assms(1) by metis
  then have "e = (i, p)" by (cases e) (auto simp: least_member_def split: if_splits)
  with e show ?thesis using pin_dequeue_Some assms(2) by blast
qed

lemma str_updateStatus: "str_of view (updateStatus ops now i st err db) = str_of view db"
  by (simp add: updateStatus_def Let_def str_frame split: if_splits)

lemma invalidate_queue:
  assumes "str_of view db (cid_key c g) = Some cid" "cid \<noteq> []" "zset_of view db QUEUE_KEY = Map.empty"
  shows "zset_of view (invalidateMetadata ops rc now i g c db) QUEUE_KEY = [i \<mapsto> 0]"
    and "getJob ops i (invalidateMetadata ops rc now i g c db) = Some (normal_job (new_job rc now i cid g c ''unpin'' 0))"
    and "str_of view (invalidateMetadata ops rc now i g c db) = (str_of view db)(copy_key c g := None, cid_key c g := None)"
proof -
  define db1 where "db1 = hset ops (rdel ops db (copy_key c g)) (job_key i) (jobToMap (new_job rc now i cid g c ''unpin'' 0))"
  have inv: "invalidateMetadata ops rc now i g c db = rdel ops (zadd ops db1 QUEUE_KEY 0 i) (cid_key c g)"
    using assms(1,2) by (simp add: invalidateMetadata_def str_rget unpinContent_def pin_enqueue_def Let_def db1_def)
  show "zset_of view (invalidateMetadata ops rc now i g c db) QUEUE_KEY = [i \<mapsto> 0]"
    using assms(3) by (simp add: inv zset_frame zset_zadd db1_def)
  have "hash_of view (rdel ops db2 (cid_key c g)) (job_key i) = hash_of view db2 (job_key i)" for db2
    by (simp add: hash_frame)
  then have "getJob ops i (invalidateMetadata ops rc now i g c db) = getJob ops i db1"
    by (simp add: inv getJob_view hash_frame)
  then show "getJob ops i (invalidateMetadata ops rc now i g c db) = Some (normal_job (new_job rc now i cid g c ''unpin'' 0))"
    by (simp add: db1_def getJob_hset)
  show "str_of view (invalidateMetadata ops rc now i g c db) = (str_of view db)(copy_key c g := None, cid_key c g := None)"
    by (simp add: inv db1_def str_frame)
qed

end

text \<open>Identical metadata of two groups is one content. Invalidating it for one of them queues the removal of the pin, and the
  next round of the worker removes it, although the other group still refers to the content.\<close>

theorem shared_content_unpinned:
  assumes "redis_server ops view" and "str_of view db (cid_key c g) = Some cid" and "str_of view db (cid_key c' g') = Some cid"
    and "cid_key c' g' \<noteq> cid_key c g" and "cid \<noteq> []" and "zset_of view db QUEUE_KEY = Map.empty" and "pinRm cid = Inr ()"
    and "db' = fst (processQueue ops True pinAdd pinRm later (invalidateMetadata ops rc now i g c db))"
  shows "str_of view db' (pinned_key cid) = None \<and> str_of view db' (cid_key c' g') = Some cid"
proof -
  note inv = redis_server.invalidate_queue [OF assms(1,2,5,6), where rc = rc and now = now and i = i]
  let ?db1 = "invalidateMetadata ops rc now i g c db"
  let ?j = "(normal_job (new_job rc now i cid g c ''unpin'' 0))\<lparr>pj_status := ''pinning'', pj_updatedAt := Some later\<rparr>"
  obtain db2 where d: "pin_dequeue ops later ?db1 = (db2, Some ?j)" and s2: "str_of view db2 = str_of view ?db1"
    using redis_server.single_dequeue [OF assms(1) inv(1,2), of later] redis_server.str_frame [OF assms(1)] by simp
  have j: "pj_action ?j = ''unpin''" "pj_cid ?j = cid" "pj_id ?j = i" by (simp_all add: new_job_def)
  have "db' = rdel ops (rdel ops (updateStatus ops later i ''unpinned'' None db2) (pinned_key cid)) (hot_key cid)"
    unfolding assms(8) processQueue_def using d j assms(7) by (simp add: run_job_def)
  then have "str_of view db' = (str_of view ?db1)(pinned_key cid := None, hot_key cid := None)"
    by (simp add: redis_server.str_frame [OF assms(1)] redis_server.str_updateStatus [OF assms(1)] s2)
  then show ?thesis
    using inv(3) assms(3,4) by simp
qed

definition shared_db :: mem_db where
  "shared_db = empty_db\<lparr>mem_str := [(cid_key ''C'' ''a'', ''Qm''), (cid_key ''C'' ''b'', ''Qm''), (pinned_key ''Qm'', ''true'')]\<rparr>"

theorem shared_content_unpinned_witness:
  "str_of mem_view (fst (processQueue mem_ops True (\<lambda>_. Inr True) (\<lambda>_. Inr ()) 9 (invalidateMetadata mem_ops 3 5 ''j'' ''a'' ''C'' shared_db)))
     (pinned_key ''Qm'') = None"
proof -
  have "cid_key ''C'' ''b'' \<noteq> cid_key ''C'' ''a''" by (simp add: cid_key_def)
  moreover have "str_of mem_view shared_db (cid_key ''C'' ''a'') = Some ''Qm''" "str_of mem_view shared_db (cid_key ''C'' ''b'') = Some ''Qm''"
    "zset_of mem_view shared_db QUEUE_KEY = Map.empty"
    by (simp_all add: shared_db_def mem_view_def empty_db_def cid_key_def)
  ultimately show ?thesis
    using shared_content_unpinned [OF mem.redis_server_axioms, where db = shared_db and c = "''C''" and g = "''a''" and c' = "''C''" and g' = "''b''"
        and cid = "''Qm''" and pinRm = "\<lambda>_. Inr ()"]
    by blast
qed

section \<open>Alerts of the monitor\<close>

inductive ipfs_monitored :: "'db redis_ops \<Rightarrow> ipfs_alerts \<Rightarrow> bool" for ops where
  im_start: "ipfs_monitored ops []"
| im_check: "ipfs_monitored ops as \<Longrightarrow> ipfs_monitored ops (snd (ipfs_runChecks ops healthy pinLs now db as))"
| im_ack: "ipfs_monitored ops as \<Longrightarrow> ipfs_monitored ops (fst (ipfs_acknowledge i as))"
| im_ack_type: "ipfs_monitored ops as \<Longrightarrow> ipfs_monitored ops (fst (acknowledgeByType ty as))"

abbreviation open_types :: "ipfs_alerts \<Rightarrow> ipfs_alert list" where
  "open_types as \<equiv> map ia_type (filter (\<lambda>a. \<not> ia_acknowledged a) as)"

definition alerts_ok :: "ipfs_alerts \<Rightarrow> bool" where
  "alerts_ok as \<longleftrightarrow> distinct (open_types as) \<and> length as \<le> 1000"

lemma js_slice_last: "0 < n \<Longrightarrow> n \<le> length xs \<Longrightarrow> js_slice (- int n) (int (length xs)) xs = drop (length xs - n) xs"
  by (simp add: js_slice_def slice_index_def slice_def nat_diff_distrib)

lemma distinct_open_drop: "distinct (open_types as) \<Longrightarrow> distinct (open_types (drop n as))"
  by (metis append_take_drop_id distinct_append filter_append map_append)

lemma addAlert_cases:
  "addAlert ty msg now as =
     (if list_ex (\<lambda>a. ia_type a = ty \<and> \<not> ia_acknowledged a) as then as
      else if length as \<ge> 1000 then drop (length as - 499) (as @ [new_alert ty msg now]) else as @ [new_alert ty msg now])"
  using js_slice_last [of 500 "as @ [new_alert ty msg now]"] by (simp add: addAlert_def Let_def add.commute)

lemma addAlert_ok:
  assumes "alerts_ok as"
  shows "alerts_ok (addAlert ty msg now as)"
proof (cases "list_ex (\<lambda>a. ia_type a = ty \<and> \<not> ia_acknowledged a) as")
  case True
  then show ?thesis using assms by (simp add: addAlert_cases)
next
  case False
  then have "distinct (open_types (as @ [new_alert ty msg now]))"
    using assms by (auto simp: new_alert_def alerts_ok_def list_ex_iff)
  then show ?thesis
    using assms False distinct_open_drop [of "as @ [new_alert ty msg now]"]
    by (auto simp: addAlert_cases alerts_ok_def simp del: drop_append)
qed

lemma open_types_acknowledge: "distinct (open_types as) \<Longrightarrow> distinct (open_types (fst (ipfs_acknowledge i as)))"
  unfolding ipfs_acknowledge_def fst_conv
proof (induction as)
  case (Cons a as)
  have "set (open_types (update_first (\<lambda>a. ia_id a = i) (\<lambda>a. a\<lparr>ia_acknowledged := True\<rparr>) as)) \<subseteq> set (open_types as)"
    by (induction as) auto
  with Cons show ?case by auto
qed simp

lemma open_types_acknowledgeByType: "open_types (fst (acknowledgeByType ty as)) = filter (\<lambda>t. t \<noteq> ty) (open_types as)"
  by (induction as) (auto simp: acknowledgeByType_def)

text \<open>The list of alerts stays small and free of repetition: whatever checks and acknowledgements happen, it has at most
  a thousand entries and never two open ones of the same type.\<close>

theorem ipfs_alerts_bounded:
  assumes "ipfs_monitored ops as"
  shows "length as \<le> 1000 \<and> distinct (open_types as)"
proof -
  have "alerts_ok as"
    using assms
  proof induction
    case im_start
    then show ?case by (simp add: alerts_ok_def)
  next
    case (im_check as healthy pinLs now db)
    then show ?case
      by (simp add: ipfs_runChecks_def checkNodeHealth_def ipfs_checkFailedJobs_def checkPinConsistency_def checkQueueStalled_def
          addAlert_ok Let_def split: prod.split)
  next
    case (im_ack as i)
    then show ?case using open_types_acknowledge by (simp add: alerts_ok_def ipfs_acknowledge_def)
  next
    case (im_ack_type as ty)
    then show ?case by (simp add: alerts_ok_def open_types_acknowledgeByType) (simp add: acknowledgeByType_def)
  qed
  then show ?thesis by (simp add: alerts_ok_def)
qed

text \<open>A queue counts as stalled as soon as a job is being processed while the node answers, however recently it was begun.\<close>

theorem stalled_iff_processing:
  assumes "\<not> list_ex (\<lambda>a. ia_type a = queue_stalled) as"
  shows "list_ex (\<lambda>a. ia_type a = queue_stalled) (checkQueueStalled stats ready now as) \<longleftrightarrow> qs_processing stats > 0 \<and> ready"
proof -
  have "ia_type (new_alert queue_stalled msg now) = queue_stalled" for msg by (simp add: new_alert_def)
  then have "list_ex (\<lambda>a. ia_type a = queue_stalled) (addAlert queue_stalled msg now as)" for msg
    by (auto simp: addAlert_cases list_ex_iff)
  then show ?thesis using assms by (auto simp: checkQueueStalled_def)
qed

end
