(* ===== verification/Query_Complexity.thy ===== *)
theory Query_Complexity
  imports Prelude
begin

text \<open>
  The complexity rule of the GraphQL server, \<open>backend/src/graphql/complexity.ts\<close>. The library visits the nodes of a
  document depth first and calls \<open>enter\<close> and \<open>leave\<close> of the rule for every field; a spread names a fragment, which is
  a definition of the document visited once, where it stands. The rule is the pair of its variables, as the visit
  changes them. The depth rule is the library's.
\<close>

section \<open>Documents\<close>

datatype selection =
    Field (sel_alias: "string option") (sel_name: string) (sel_sub: "selection list")
  | Inline_Fragment "selection list"
  | Spread string

datatype gql_definition = Operation "selection list" | Fragment string "selection list"

type_synonym document = "gql_definition list"

section \<open>The rule\<close>

definition MAX_COMPLEXITY :: nat where "MAX_COMPLEXITY = 100"

definition FIELD_COSTS :: "string \<Rightarrow> nat option" where
  "FIELD_COSTS = map_of
     [(''groups'', 10), (''members'', 10), (''transactions'', 10), (''recommendations'', 15), (''search'', 20),
      (''Group.members'', 5), (''Group.transactions'', 5), (''Member.groups'', 5), (''Recommendation.group'', 3)]"

record rule_state =
  complexity :: nat
  typeStack :: "string list"

text \<open>\<open>parentType\<close> is the top of the stack; an empty name is falsy.\<close>

definition field_key :: "string list \<Rightarrow> string \<Rightarrow> string" where
  "field_key stack fieldName =
     (if stack = [] \<or> last stack = [] then fieldName else last stack @ ''.'' @ fieldName)"

definition field_cost :: "string list \<Rightarrow> string \<Rightarrow> nat" where
  "field_cost stack fieldName = or_default (nullish (FIELD_COSTS (field_key stack fieldName)) (FIELD_COSTS fieldName)) 1"

definition enter :: "string \<Rightarrow> rule_state \<Rightarrow> rule_state" where
  "enter fieldName s = s\<lparr>complexity := complexity s + field_cost (typeStack s) fieldName, typeStack := typeStack s @ [fieldName]\<rparr>"

definition leave :: "rule_state \<Rightarrow> rule_state" where
  "leave s = s\<lparr>typeStack := butlast (typeStack s)\<rparr>"

primrec visit :: "selection \<Rightarrow> rule_state \<Rightarrow> rule_state" where
  "visit (Field a n sub) s = leave (fold (\<lambda>f. f) (map visit sub) (enter n s))"
| "visit (Inline_Fragment sub) s = fold (\<lambda>f. f) (map visit sub) s"
| "visit (Spread n) s = s"

fun definition_body :: "gql_definition \<Rightarrow> selection list" where
  "definition_body (Operation sub) = sub"
| "definition_body (Fragment n sub) = sub"

definition visit_document :: "document \<Rightarrow> rule_state" where
  "visit_document doc = fold visit (concat (map definition_body doc)) \<lparr>complexity = 0, typeStack = []\<rparr>"

text \<open>\<open>None\<close>: no error is reported.\<close>

definition complexityLimitRule :: "nat \<Rightarrow> document \<Rightarrow> string option" where
  "complexityLimitRule maxComplexity doc =
     (let c = complexity (visit_document doc)
      in if c > maxComplexity
         then Some (''Query complexity '' @ string_of_nat c @ '' exceeds maximum allowed complexity of '' @ string_of_nat maxComplexity @ ''.'')
         else None)"

section \<open>What is measured\<close>

text \<open>The cost of a selection below a field, as a sum over the tree.\<close>

primrec sel_cost :: "string list \<Rightarrow> selection \<Rightarrow> nat" where
  "sel_cost st (Field a n sub) = field_cost st n + sum_list (map (\<lambda>s. sel_cost (st @ [n]) s) sub)"
| "sel_cost st (Inline_Fragment sub) = sum_list (map (sel_cost st) sub)"
| "sel_cost st (Spread n) = 0"

lemma fold_visit:
  assumes "\<And>x st. x \<in> set xs \<Longrightarrow> visit x st = st\<lparr>complexity := complexity st + sel_cost (typeStack st) x\<rparr>"
  shows "fold visit xs st = st\<lparr>complexity := complexity st + sum_list (map (sel_cost (typeStack st)) xs)\<rparr>"
  using assms by (induction xs arbitrary: st) simp_all

lemma fold_map_id: "fold (\<lambda>f. f) (map g xs) s = fold g xs s"
  by (induction xs arbitrary: s) simp_all

lemma visit_cost: "visit x st = st\<lparr>complexity := complexity st + sel_cost (typeStack st) x\<rparr>"
proof (induction x arbitrary: st)
  case (Field a n sub)
  then show ?case
    by (simp add: fold_map_id fold_visit enter_def leave_def add.assoc)
next
  case (Inline_Fragment sub)
  then show ?case by (simp add: fold_map_id fold_visit)
qed simp

text \<open>The visitor with its counter and its stack computes a sum over the tree, and leaves the stack as it found it.\<close>

theorem visit_document_sum:
  "visit_document doc = \<lparr>complexity = sum_list (map (sel_cost []) (concat (map definition_body doc))), typeStack = []\<rparr>"
  by (simp add: visit_document_def fold_visit [OF visit_cost])

section \<open>What is not measured\<close>

primrec field_names :: "selection \<Rightarrow> string list" where
  "field_names (Field a n sub) = n # concat (map field_names sub)"
| "field_names (Inline_Fragment sub) = concat (map field_names sub)"
| "field_names (Spread n) = []"

definition plain_cost :: "string \<Rightarrow> nat" where
  "plain_cost n = or_default (FIELD_COSTS n) 1"

text \<open>A name of a field has no dot.\<close>

definition dotless :: "string \<Rightarrow> bool" where
  "dotless n \<longleftrightarrow> CHR ''.'' \<notin> set n"

definition type_names :: "string set" where
  "type_names = {''Group'', ''Member'', ''Recommendation''}"

lemma dotted_cost:
  assumes "dotless p" "p \<notin> type_names"
  shows "FIELD_COSTS (p @ ''.'' @ n) = None"
proof (rule ccontr)
  assume "FIELD_COSTS (p @ ''.'' @ n) \<noteq> None"
  then have k: "p @ ''.'' @ n \<in> {''groups'', ''members'', ''transactions'', ''recommendations'', ''search'',
      ''Group.members'', ''Group.transactions'', ''Member.groups'', ''Recommendation.group''}"
    by (auto simp: FIELD_COSTS_def split: if_splits)
  have "takeWhile (\<lambda>c. c \<noteq> CHR ''.'') (p @ ''.'' @ n) = p"
    using assms(1) by (subst takeWhile_append2) (auto simp: dotless_def)
  moreover have "CHR ''.'' \<in> set (p @ ''.'' @ n)" by simp
  ultimately show False
    using k assms(2) unfolding type_names_def by (auto simp del: append_Cons append_Nil)
qed

lemma field_cost_plain:
  assumes "\<forall>p\<in>set st. dotless p \<and> p \<notin> type_names"
  shows "field_cost st n = plain_cost n"
proof (cases "st = [] \<or> last st = []")
  case True
  then show ?thesis by (cases "FIELD_COSTS n") (auto simp: field_cost_def field_key_def plain_cost_def)
next
  case False
  then have "FIELD_COSTS (field_key st n) = None" using assms dotted_cost by (simp add: field_key_def)
  then show ?thesis by (simp add: field_cost_def plain_cost_def)
qed

lemma sum_list_concat_map: "sum_list (map f (concat xss)) = sum_list (map (\<lambda>xs. sum_list (map f xs)) xss)" for f :: "'a \<Rightarrow> nat"
  by (induction xss) simp_all

lemma sel_cost_plain:
  assumes "\<forall>n\<in>set (field_names x). dotless n \<and> n \<notin> type_names" "\<forall>p\<in>set st. dotless p \<and> p \<notin> type_names"
  shows "sel_cost st x = sum_list (map plain_cost (field_names x))"
  using assms
proof (induction x arbitrary: st)
  case (Field a n sub)
  have "sum_list (map (\<lambda>s. sel_cost (st @ [n]) s) sub) = sum_list (map (\<lambda>s. sum_list (map plain_cost (field_names s))) sub)"
    using Field by (intro arg_cong [where f = sum_list] map_cong) auto
  then show ?case
    using Field.prems by (simp add: field_cost_plain sum_list_concat_map comp_def)
next
  case (Inline_Fragment sub)
  have "sum_list (map (sel_cost st) sub) = sum_list (map (\<lambda>s. sum_list (map plain_cost (field_names s))) sub)"
    using Inline_Fragment by (intro arg_cong [where f = sum_list] map_cong) auto
  then show ?case by (simp add: sum_list_concat_map comp_def)
qed simp

text \<open>The costs of nested fields are never used: the stack holds names of fields, and the keys of the table name types. In
  a document whose fields are not called \<open>Group\<close>, \<open>Member\<close> or \<open>Recommendation\<close>, every field counts as it would at the
  top, wherever it stands: \<open>members\<close> inside a group costs 10 and not the 5 of the table.\<close>

theorem nested_costs_unused:
  assumes "\<forall>x\<in>set (concat (map definition_body doc)). \<forall>n\<in>set (field_names x). dotless n \<and> n \<notin> type_names"
  shows "complexity (visit_document doc) = sum_list (map plain_cost (concat (map field_names (concat (map definition_body doc)))))"
proof -
  have "sum_list (map (sel_cost []) xs) = sum_list (map plain_cost (concat (map field_names xs)))"
    if "\<forall>x\<in>set xs. \<forall>n\<in>set (field_names x). dotless n \<and> n \<notin> type_names" for xs
    using that by (induction xs) (simp_all add: sel_cost_plain)
  then show ?thesis using assms by (simp add: visit_document_sum)
qed

theorem nested_costs_unused_witness:
  "complexity (visit_document [Operation [Field None ''groups'' [Field None ''members'' []]]]) = 20"
  using nested_costs_unused [of "[Operation [Field None ''groups'' [Field None ''members'' []]]]"]
  by (simp add: dotless_def type_names_def plain_cost_def FIELD_COSTS_def)

text \<open>Replacing the spreads by the bodies they name.\<close>

primrec expand :: "(string \<Rightarrow> selection list) \<Rightarrow> selection \<Rightarrow> selection" where
  "expand body (Field a n sub) = Field a n (map (expand body) sub)"
| "expand body (Inline_Fragment sub) = Inline_Fragment (map (expand body) sub)"
| "expand body (Spread n) = Inline_Fragment (body n)"

text \<open>A fragment is measured once, however often it is spread: with \<open>k\<close> aliases of a field of cost 1 that spread the same
  fragment, the measured complexity is \<open>k\<close> plus that of the fragment, while what is executed has \<open>k\<close> times both. With
  fifty of each the limit of 100 is respected and 2550 is executed.\<close>

definition aliased :: "nat \<Rightarrow> string \<Rightarrow> selection list" where
  "aliased k fragment = map (\<lambda>i. Field (Some (CHR ''a'' # string_of_nat i)) ''viewer'' [Spread fragment]) [0..<k]"

theorem fragments_measured_once:
  assumes "\<forall>x\<in>set body. \<forall>n\<in>set (field_names x). dotless n \<and> n \<notin> type_names"
  shows "complexity (visit_document [Operation (aliased k f), Fragment f body]) = k + sum_list (map (sel_cost []) body)"
    and "complexity (visit_document [Operation (map (expand (\<lambda>_. body)) (aliased k f))]) = k * (1 + sum_list (map (sel_cost []) body))"
proof -
  have v: "field_cost [] ''viewer'' = 1" by (simp add: field_cost_def field_key_def FIELD_COSTS_def)
  have "sum_list (map (sel_cost []) (aliased k f)) = k"
    by (simp add: aliased_def comp_def v sum_list_triv)
  then show "complexity (visit_document [Operation (aliased k f), Fragment f body]) = k + sum_list (map (sel_cost []) body)"
    by (simp add: visit_document_sum)
  have "sel_cost [''viewer''] x = sel_cost [] x" if "x \<in> set body" for x
    using assms that by (simp add: sel_cost_plain dotless_def type_names_def)
  then have "sum_list (map (sel_cost [''viewer'']) body) = sum_list (map (sel_cost []) body)"
    by (simp cong: map_cong)
  then show "complexity (visit_document [Operation (map (expand (\<lambda>_. body)) (aliased k f))]) = k * (1 + sum_list (map (sel_cost []) body))"
    by (simp add: visit_document_sum aliased_def comp_def v sum_list_triv)
qed

end
