(* ===== verification/Regex.thy ===== *)
theory Regex
  imports Group_Cache
begin

text \<open>
  Regular expressions of JavaScript as far as the sources use them: characters from a class, greedy and lazy
  repetition of a class, word boundaries and the end of the input. A match of an expression at a position is the list
  of the positions where it can end, in the order in which the backtracking matcher tries them. A global expression
  keeps the position where its next search begins, \<open>lastIndex\<close>, from one call of \<open>test\<close> to the next.
\<close>

datatype regex =
    Cls "char \<Rightarrow> bool"
  | Many "char \<Rightarrow> bool"
  | ManyLazy "char \<Rightarrow> bool"
  | Some1 "char \<Rightarrow> bool"
  | Boundary
  | AtEnd
  | Seq "regex list"

definition run_length :: "(char \<Rightarrow> bool) \<Rightarrow> string \<Rightarrow> nat \<Rightarrow> nat" where
  "run_length p s i = length (takeWhile p (drop i s))"

definition word_char :: "char \<Rightarrow> bool" where
  "word_char c = (let n = (of_char c :: nat) in (48 \<le> n \<and> n \<le> 57) \<or> (65 \<le> n \<and> n \<le> 90) \<or> (97 \<le> n \<and> n \<le> 122) \<or> n = 95)"

definition word_at :: "string \<Rightarrow> nat \<Rightarrow> bool" where
  "word_at s i \<longleftrightarrow> i < length s \<and> word_char (s ! i)"

definition at_boundary :: "string \<Rightarrow> nat \<Rightarrow> bool" where
  "at_boundary s i \<longleftrightarrow> ((0 < i \<and> word_at s (i - 1)) \<noteq> word_at s i)"

primrec ends :: "regex \<Rightarrow> string \<Rightarrow> nat \<Rightarrow> nat list" where
  "ends (Cls p) s i = (if i < length s \<and> p (s ! i) then [i + 1] else [])"
| "ends (Many p) s i = rev [i..<i + run_length p s i + 1]"
| "ends (ManyLazy p) s i = [i..<i + run_length p s i + 1]"
| "ends (Some1 p) s i = rev [i + 1..<i + run_length p s i + 1]"
| "ends Boundary s i = (if at_boundary s i then [i] else [])"
| "ends AtEnd s i = (if i = length s then [i] else [])"
| "ends (Seq rs) s i = fold (\<lambda>e is. concat (map e is)) (map (\<lambda>r. ends r s) rs) [i]"

text \<open>The leftmost match from a position on: where it ends.\<close>

definition search_from :: "regex \<Rightarrow> string \<Rightarrow> nat \<Rightarrow> nat option" where
  "search_from r s i = map_option (\<lambda>j. hd (ends r s j)) (List.find (\<lambda>j. ends r s j \<noteq> []) [i..<length s + 1])"

text \<open>\<open>r.test(s)\<close> for a global \<open>r\<close>: the new \<open>lastIndex\<close> and the answer.\<close>

definition global_test :: "regex \<Rightarrow> string \<Rightarrow> nat \<Rightarrow> nat \<times> bool" where
  "global_test r s lastIndex = (case search_from r s lastIndex of None \<Rightarrow> (0, False) | Some e \<Rightarrow> (e, True))"

text \<open>\<open>r.test(s)\<close> for an expression anchored at the start.\<close>

definition anchored_test :: "regex \<Rightarrow> string \<Rightarrow> bool" where
  "anchored_test r s \<longleftrightarrow> ends r s 0 \<noteq> []"

section \<open>Writing expressions\<close>

definition ch :: "char \<Rightarrow> regex" where "ch c = Cls (\<lambda>x. x = c)"

text \<open>With the flag \<open>i\<close>, letters match in both cases.\<close>

definition ci :: "char \<Rightarrow> regex" where "ci c = Cls (\<lambda>x. to_lower x = to_lower c)"

definition word_i :: "string \<Rightarrow> regex list" where "word_i s = map ci s"

text \<open>\<open>.\<close> is any character but a line terminator.\<close>

definition dot :: "char \<Rightarrow> bool" where "dot c \<longleftrightarrow> c \<noteq> CHR 0x0A \<and> c \<noteq> CHR 0x0D"

section \<open>Lemmas\<close>

lemma ends_Seq_Nil [simp]: "ends (Seq []) s i = [i]"
  by simp

lemma fold_ends_set:
  "set (fold (\<lambda>e is. concat (map e is)) es is) = (\<Union>i\<in>set is. set (fold (\<lambda>e is. concat (map e is)) es [i]))"
proof (induction es arbitrary: "is")
  case (Cons e es)
  let ?F = "\<lambda>es is. fold (\<lambda>e is. concat (map e is)) es is"
  have one: "set (?F (e # es) [i]) = (\<Union>k\<in>set (e i). set (?F es [k]))" for i
    using Cons.IH [of "e i"] by simp
  have "set (?F (e # es) is) = (\<Union>k\<in>set (concat (map e is)). set (?F es [k]))"
    using Cons.IH [of "concat (map e is)"] by simp
  also have "\<dots> = (\<Union>i\<in>set is. \<Union>k\<in>set (e i). set (?F es [k]))" by auto
  finally show ?case by (simp only: one)
qed simp

lemma set_ends_Seq_Cons: "set (ends (Seq (r # rs)) s i) = (\<Union>j\<in>set (ends r s i). set (ends (Seq rs) s j))"
  using fold_ends_set [of "map (\<lambda>r. ends r s) rs" "ends r s i"] by simp

lemma set_ends_Seq_append: "set (ends (Seq (rs @ qs)) s i) = (\<Union>j\<in>set (ends (Seq rs) s i). set (ends (Seq qs) s j))"
proof (induction rs arbitrary: i)
  case (Cons r rs)
  show ?case unfolding append_Cons set_ends_Seq_Cons using Cons.IH by blast
qed simp

lemma search_from_None: "search_from r s i = None \<longleftrightarrow> (\<forall>j. i \<le> j \<and> j \<le> length s \<longrightarrow> ends r s j = [])"
  by (auto simp: search_from_def find_None_iff)

text \<open>A global test that starts behind every match answers no.\<close>

lemma global_test_stale:
  "(\<And>j. lastIndex \<le> j \<Longrightarrow> j \<le> length s \<Longrightarrow> ends r s j = []) \<Longrightarrow> global_test r s lastIndex = (0, False)"
  by (simp add: global_test_def search_from_None [THEN iffD2])

lemma take_of_run: "j \<le> i + run_length p s i \<Longrightarrow> i \<le> j \<Longrightarrow> list_all p (take (j - i) (drop i s))"
  unfolding run_length_def list_all_iff
  by (metis add_diff_cancel_left' diff_le_mono in_mono set_take_subset_set_take set_takeWhileD takeWhile_eq_take)

text \<open>Where a run of characters of a class can end.\<close>

lemma run_length_iff: "i < j \<Longrightarrow> j \<le> i + run_length p s i \<longleftrightarrow> j \<le> length s \<and> (\<forall>k. i \<le> k \<and> k < j \<longrightarrow> p (s ! k))"
proof
  assume ij: "i < j" and j: "j \<le> i + run_length p s i"
  have len: "run_length p s i \<le> length s - i" unfolding run_length_def by (metis length_drop length_takeWhile_le)
  have "p (s ! k)" if "i \<le> k" "k < j" for k
  proof -
    have "k - i < length (takeWhile p (drop i s))" using that j by (simp add: run_length_def)
    then have "p (takeWhile p (drop i s) ! (k - i))" by (meson nth_mem set_takeWhileD)
    then show ?thesis using \<open>k - i < _\<close> that len by (simp add: takeWhile_nth run_length_def)
  qed
  then show "j \<le> length s \<and> (\<forall>k. i \<le> k \<and> k < j \<longrightarrow> p (s ! k))" using ij j len by auto
next
  assume ij: "i < j" and a: "j \<le> length s \<and> (\<forall>k. i \<le> k \<and> k < j \<longrightarrow> p (s ! k))"
  show "j \<le> i + run_length p s i"
  proof (rule ccontr)
    assume n: "\<not> j \<le> i + run_length p s i"
    then have "run_length p s i < length (drop i s)" using conjunct1 [OF a] ij by simp
    then have "\<not> p (drop i s ! run_length p s i)" unfolding run_length_def by (rule nth_length_takeWhile)
    then show False using a n ij by simp
  qed
qed

lemma ends_Some1: "j \<in> set (ends (Some1 p) s i) \<longleftrightarrow> i < j \<and> j \<le> length s \<and> (\<forall>k. i \<le> k \<and> k < j \<longrightarrow> p (s ! k))"
  using run_length_iff [of i j p s] by auto

lemma ends_ch: "set (ends (ch c) s i) = (if i < length s \<and> s ! i = c then {i + 1} else {})"
  by (simp add: ch_def)

lemma ends_replicate: "set (ends (Seq (replicate n (Cls p))) s i) = (if i + n \<le> length s \<and> (\<forall>k. i \<le> k \<and> k < i + n \<longrightarrow> p (s ! k)) \<or> n = 0 then {i + n} else {})"
proof (induction n arbitrary: i)
  case (Suc n)
  have *: "i \<le> k \<and> k < i + Suc n \<longleftrightarrow> k = i \<or> i + 1 \<le> k \<and> k < i + 1 + n" for k by auto
  show ?case unfolding replicate_Suc set_ends_Seq_Cons * by (auto simp: Suc.IH simp del: ends.simps(7))
qed simp

lemma anchored_test_iff: "anchored_test r s \<longleftrightarrow> (\<exists>m. m \<in> set (ends r s 0))"
  by (simp only: anchored_test_def ex_in_conv set_empty)

text \<open>The matcher as a relation between positions.\<close>

lemma Seq_mem: "m \<in> set (ends (Seq (r # rs)) s i) \<longleftrightarrow> (\<exists>j. j \<in> set (ends r s i) \<and> m \<in> set (ends (Seq rs) s j))"
  unfolding set_ends_Seq_Cons by blast

lemma Seq_append_mem: "m \<in> set (ends (Seq (rs @ qs)) s i) \<longleftrightarrow> (\<exists>j. j \<in> set (ends (Seq rs) s i) \<and> m \<in> set (ends (Seq qs) s j))"
  unfolding set_ends_Seq_append by blast

lemma Nil_mem: "m \<in> set (ends (Seq []) s i) \<longleftrightarrow> m = i"
  by simp

lemma AtEnd_mem: "m \<in> set (ends AtEnd s i) \<longleftrightarrow> m = i \<and> i = length s"
  by simp

lemma ch_mem: "m \<in> set (ends (ch c) s i) \<longleftrightarrow> m = Suc i \<and> i < length s \<and> s ! i = c"
  by (simp add: ch_def)

lemma Cls_replicate_mem:
  "m \<in> set (ends (Seq (replicate n (Cls p))) s i) \<longleftrightarrow> m = i + n \<and> (n = 0 \<or> i + n \<le> length s \<and> (\<forall>k. i \<le> k \<and> k < i + n \<longrightarrow> p (s ! k)))"
  unfolding ends_replicate by auto

lemmas match_iffs = anchored_test_iff Seq_mem Seq_append_mem Nil_mem AtEnd_mem ch_mem Cls_replicate_mem ends_Some1

text \<open>A match of a repeated class as a part of the text, and back.\<close>

lemma Some1_span: "w \<noteq> [] \<Longrightarrow> list_all p w \<Longrightarrow> length u + length w \<in> set (ends (Some1 p) (u @ w @ v) (length u))"
  by (auto simp: ends_Some1 nth_append list_all_length simp del: ends.simps)

lemma Some1_part: "j \<in> set (ends (Some1 p) s i) \<Longrightarrow> take (j - i) (drop i s) \<noteq> [] \<and> list_all p (take (j - i) (drop i s))"
  by (auto simp: ends_Some1 list_all_length simp del: ends.simps)

end
