(* ===== verification/Sanitizer.thy ===== *)
theory Sanitizer
  imports Regex Errors Js_Values
begin

text \<open>
  Input sanitisation, \<open>backend/src/input_sanitization_middleware.ts\<close>. The patterns are global regular expressions of
  the module: each keeps its \<open>lastIndex\<close> between calls, which is the state here. The body, the query and the
  parameters of a request are JSON values. Parsing a URL is an argument, and so is whether \<open>req.query\<close> can be
  assigned, which differs between versions of Express. Log lines are dropped.
\<close>

section \<open>HTML entities\<close>

definition HTML_ENTITIES :: "(char \<times> string) list" where
  "HTML_ENTITIES =
     [(CHR ''&'', ''&amp;''), (CHR ''<'', ''&lt;''), (CHR ''>'', ''&gt;''), (CHR 0x22, ''&quot;''), (CHR 0x27, ''&#x27;''), (CHR ''/'', ''&#x2F;'')]"

definition encode_char :: "char \<Rightarrow> string" where
  "encode_char c = or_default (map_of HTML_ENTITIES c) [c]"

definition encodeHtml :: "string \<Rightarrow> string" where
  "encodeHtml s = concat (map encode_char s)"

text \<open>The entity at the head of a text, with the character it stands for.\<close>

definition entity_at :: "string \<Rightarrow> (char \<times> string) option" where
  "entity_at s = List.find (\<lambda>e. startsWith s (snd e)) HTML_ENTITIES"

function decodeHtml :: "string \<Rightarrow> string" where
  "decodeHtml [] = []"
| "decodeHtml (c # s) =
     (case entity_at (c # s) of
        Some (d, e) \<Rightarrow> d # decodeHtml (drop (length e - 1) s)
      | None \<Rightarrow> c # decodeHtml s)"
  by pat_completeness auto
termination by (relation "measure length") auto

section \<open>Patterns\<close>

definition tag_body :: "string \<Rightarrow> regex list" where
  "tag_body name = word_i (CHR ''<'' # name) @ [Many (\<lambda>c. c \<noteq> CHR ''>''), ch CHR ''>'']"

definition DANGEROUS_PATTERNS :: "regex list" where
  "DANGEROUS_PATTERNS =
     [Seq (tag_body ''script'' @ [ManyLazy (\<lambda>_. True)] @ word_i ''</script>''),
      Seq (tag_body ''iframe'' @ [ManyLazy (\<lambda>_. True)] @ word_i ''</iframe>''),
      Seq (word_i ''javascript:''),
      Seq (word_i ''on'' @ [Some1 word_char, Many is_space, ch CHR ''='']),
      Seq (tag_body ''embed''), Seq (tag_body ''object''), Seq (word_i ''data:text/html''), Seq (word_i ''vbscript:'')]"

definition two_words :: "string \<Rightarrow> string \<Rightarrow> regex" where
  "two_words a b = Seq ([Boundary] @ word_i a @ [Boundary, Many dot, Boundary] @ word_i b @ [Boundary])"

definition SQL_INJECTION_PATTERNS :: "regex list" where
  "SQL_INJECTION_PATTERNS =
     [two_words ''UNION'' ''SELECT'', two_words ''INSERT'' ''INTO'', two_words ''UPDATE'' ''SET'', two_words ''DELETE'' ''FROM'',
      two_words ''DROP'' ''TABLE'',
      Seq ([ch CHR 0x27, Many dot] @ word_i ''OR'' @ [Many dot, ch CHR 0x27, ch CHR ''='', ch CHR 0x27]),
      Seq [ch CHR ''-'', ch CHR ''-''],
      Seq ([ch CHR '';'', Many dot] @ word_i ''DROP'')]"

text \<open>The positions of the patterns.\<close>

record patterns =
  sql_last :: "nat list"
  xss_last :: "nat list"

definition fresh_patterns :: patterns where
  "fresh_patterns = \<lparr>sql_last = replicate 8 0, xss_last = replicate 8 0\<rparr>"

text \<open>Testing one pattern after the other until one matches.\<close>

fun test_until :: "regex list \<Rightarrow> string \<Rightarrow> nat list \<Rightarrow> nat list \<times> bool" where
  "test_until (r # rs) s (l # ls) =
     (let (l', hit) = global_test r s l
      in if hit then (l' # ls, True) else (let (ls', h) = test_until rs s ls in (l' # ls', h)))"
| "test_until rs s ls = (ls, False)"

section \<open>Sanitising values\<close>

record SanitizationOptions =
  allowHtml :: bool
  maxLength :: nat
  stripSql :: bool

text \<open>A missing or zero maximum does not limit.\<close>

definition cut :: "nat \<Rightarrow> string \<Rightarrow> string" where
  "cut m s = (if m \<noteq> 0 \<and> length s > m then take m s else s)"

definition sanitizeString :: "SanitizationOptions \<Rightarrow> string \<Rightarrow> patterns \<Rightarrow> patterns \<times> (thrown + string)" where
  "sanitizeString opts value ps =
     (let trimmed = cut (maxLength opts) (trim value);
          (sql, hit) = (if stripSql opts then test_until SQL_INJECTION_PATTERNS trimmed (sql_last ps) else (sql_last ps, False));
          ps1 = ps\<lparr>sql_last := sql\<rparr>
      in if hit then (ps1, Inl (PlainError ''Invalid input detected''))
         else if allowHtml opts then (ps1, Inr trimmed)
         else (ps1\<lparr>xss_last := map2 (\<lambda>r l. fst (global_test r value l)) DANGEROUS_PATTERNS (xss_last ps)\<rparr>, Inr (encodeHtml trimmed)))"

text \<open>\<open>sanitized[key] = value\<close>\<close>

definition put_field :: "string \<Rightarrow> json \<Rightarrow> (string \<times> json) list \<Rightarrow> (string \<times> json) list" where
  "put_field k v fs = AList.update k v fs"

fun sanitizeObject :: "SanitizationOptions \<Rightarrow> json \<Rightarrow> patterns \<Rightarrow> patterns \<times> (thrown + json)"
  and sanitize_items :: "SanitizationOptions \<Rightarrow> json list \<Rightarrow> patterns \<Rightarrow> patterns \<times> (thrown + json list)"
  and sanitize_fields :: "SanitizationOptions \<Rightarrow> (string \<times> json) list \<Rightarrow> (string \<times> json) list \<Rightarrow> patterns \<Rightarrow> patterns \<times> (thrown + (string \<times> json) list)"
  where
  "sanitizeObject opts (JStr s) ps = (case sanitizeString opts s ps of (ps', Inl e) \<Rightarrow> (ps', Inl e) | (ps', Inr t) \<Rightarrow> (ps', Inr (JStr t)))"
| "sanitizeObject opts (JArr vs) ps = (case sanitize_items opts vs ps of (ps', Inl e) \<Rightarrow> (ps', Inl e) | (ps', Inr ws) \<Rightarrow> (ps', Inr (JArr ws)))"
| "sanitizeObject opts (JObj fs) ps = (case sanitize_fields opts fs [] ps of (ps', Inl e) \<Rightarrow> (ps', Inl e) | (ps', Inr gs) \<Rightarrow> (ps', Inr (JObj gs)))"
| "sanitizeObject opts v ps = (ps, Inr v)"
| "sanitize_items opts [] ps = (ps, Inr [])"
| "sanitize_items opts (v # vs) ps =
     (case sanitizeObject opts v ps of
        (ps1, Inl e) \<Rightarrow> (ps1, Inl e)
      | (ps1, Inr w) \<Rightarrow> (case sanitize_items opts vs ps1 of (ps2, Inl e) \<Rightarrow> (ps2, Inl e) | (ps2, Inr ws) \<Rightarrow> (ps2, Inr (w # ws))))"
| "sanitize_fields opts [] acc ps = (ps, Inr acc)"
| "sanitize_fields opts (f # fs) acc ps =
     (case sanitizeString (opts\<lparr>maxLength := 100\<rparr>) (fst f) ps of
        (ps1, Inl e) \<Rightarrow> (ps1, Inl e)
      | (ps1, Inr k) \<Rightarrow>
          (case sanitizeObject opts (snd f) ps1 of
             (ps2, Inl e) \<Rightarrow> (ps2, Inl e)
           | (ps2, Inr w) \<Rightarrow> sanitize_fields opts fs (put_field k w acc) ps2))"

definition sanitizeGroupMetadata :: "json \<Rightarrow> patterns \<Rightarrow> patterns \<times> (thrown + json)" where
  "sanitizeGroupMetadata = sanitizeObject \<lparr>allowHtml = False, maxLength = 500, stripSql = True\<rparr>"

definition sanitizeProfileData :: "json \<Rightarrow> patterns \<Rightarrow> patterns \<times> (thrown + json)" where
  "sanitizeProfileData = sanitizeObject \<lparr>allowHtml = False, maxLength = 1000, stripSql = True\<rparr>"

definition sanitizeComment :: "string \<Rightarrow> patterns \<Rightarrow> patterns \<times> (thrown + string)" where
  "sanitizeComment = sanitizeString \<lparr>allowHtml = False, maxLength = 2000, stripSql = True\<rparr>"

section \<open>Formats\<close>

definition upper_or_digit :: "char \<Rightarrow> bool" where
  "upper_or_digit c = (let n = (of_char c :: nat) in (65 \<le> n \<and> n \<le> 90) \<or> (48 \<le> n \<and> n \<le> 57))"

definition validateStellarAddress :: "string \<Rightarrow> bool" where
  "validateStellarAddress a = anchored_test (Seq (ch CHR ''G'' # replicate 55 (Cls upper_or_digit) @ [AtEnd])) a"

definition email_char :: "char \<Rightarrow> bool" where
  "email_char c \<longleftrightarrow> \<not> is_space c \<and> c \<noteq> CHR ''@''"

definition validateEmail :: "string \<Rightarrow> bool" where
  "validateEmail e = anchored_test (Seq [Some1 email_char, ch CHR ''@'', Some1 email_char, ch CHR ''.'', Some1 email_char, AtEnd]) e"

text \<open>\<open>new URL(url)\<close> gives the protocol and the printed URL, or throws.\<close>

definition sanitizeUrl :: "(string \<Rightarrow> (string \<times> string) option) \<Rightarrow> string \<Rightarrow> thrown + string" where
  "sanitizeUrl parse url =
     (case parse url of
        Some (protocol, text) \<Rightarrow> if protocol \<in> {''http:'', ''https:''} then Inr text else Inl (PlainError ''Invalid URL format'')
      | None \<Rightarrow> Inl (PlainError ''Invalid URL format''))"

section \<open>Middlewares\<close>

record san_request =
  sq_body :: "json option"
  sq_query :: "json option"
  sq_params :: "json option"

text \<open>Present, truthy and of type \<open>object\<close>: an object or an array.\<close>

definition is_object :: "json option \<Rightarrow> bool" where
  "is_object v = (case v of Some (JObj _) \<Rightarrow> True | Some (JArr _) \<Rightarrow> True | _ \<Rightarrow> False)"

definition sanitize_part :: "SanitizationOptions \<Rightarrow> json option \<Rightarrow> patterns \<Rightarrow> patterns \<times> (thrown + json option)" where
  "sanitize_part opts v ps =
     (if is_object v then (case sanitizeObject opts (the v) ps of (ps', Inl e) \<Rightarrow> (ps', Inl e) | (ps', Inr w) \<Rightarrow> (ps', Inr (Some w)))
      else (ps, Inr v))"

definition bad_request :: "string \<Rightarrow> string \<Rightarrow> response \<Rightarrow> response" where
  "bad_request err message res = send_json 400 (JObj [(''error'', JStr err), (''message'', JStr message)]) res"

definition malicious :: "response \<Rightarrow> response" where
  "malicious res = bad_request ''Invalid input detected'' ''The request contains potentially malicious content'' res"

definition sanitizeInputMiddleware :: "bool \<Rightarrow> san_request \<Rightarrow> response \<Rightarrow> patterns \<Rightarrow> patterns \<times> san_request \<times> response" where
  "sanitizeInputMiddleware query_assignable req res ps =
     (case sanitize_part \<lparr>allowHtml = False, maxLength = 0, stripSql = True\<rparr> (sq_body req) ps of
        (ps1, Inl e) \<Rightarrow> (ps1, req, malicious res)
      | (ps1, Inr b) \<Rightarrow>
          let req1 = req\<lparr>sq_body := b\<rparr>
          in case sanitize_part \<lparr>allowHtml = False, maxLength = 500, stripSql = False\<rparr> (sq_query req1) ps1 of
               (ps2, Inl e) \<Rightarrow> (ps2, req1, malicious res)
             | (ps2, Inr q) \<Rightarrow>
                 if is_object (sq_query req1) \<and> \<not> query_assignable then (ps2, req1, malicious res)
                 else let req2 = req1\<lparr>sq_query := q\<rparr>
                      in case sanitize_part \<lparr>allowHtml = False, maxLength = 100, stripSql = False\<rparr> (sq_params req2) ps2 of
                           (ps3, Inl e) \<Rightarrow> (ps3, req2, malicious res)
                         | (ps3, Inr p) \<Rightarrow> (ps3, req2\<lparr>sq_params := p\<rparr>, call_next res))"

definition sanitize_body_field ::
  "(json \<Rightarrow> patterns \<Rightarrow> patterns \<times> (thrown + json)) \<Rightarrow> string \<Rightarrow> (response \<Rightarrow> response) \<Rightarrow> san_request \<Rightarrow> response \<Rightarrow> patterns \<Rightarrow>
    patterns \<times> san_request \<times> response" where
  "sanitize_body_field san f refuse req res ps =
     (case Option.bind (sq_body req) (\<lambda>b. json_field b f) of
        Some v \<Rightarrow>
          if json_truthy v
          then (case san v ps of
                  (ps', Inl e) \<Rightarrow> (ps', req, refuse res)
                | (ps', Inr w) \<Rightarrow> (ps', req\<lparr>sq_body := map_option (\<lambda>b. with_field b f w) (sq_body req)\<rparr>, call_next res))
          else (ps, req, call_next res)
      | None \<Rightarrow> (ps, req, call_next res))"

definition sanitizeGroupMetadataMiddleware :: "san_request \<Rightarrow> response \<Rightarrow> patterns \<Rightarrow> patterns \<times> san_request \<times> response" where
  "sanitizeGroupMetadataMiddleware =
     sanitize_body_field sanitizeGroupMetadata ''metadata'' (bad_request ''Invalid metadata'' ''Group metadata contains invalid content'')"

definition sanitizeProfileMiddleware :: "san_request \<Rightarrow> response \<Rightarrow> patterns \<Rightarrow> patterns \<times> san_request \<times> response" where
  "sanitizeProfileMiddleware =
     sanitize_body_field sanitizeProfileData ''profile'' (bad_request ''Invalid profile data'' ''Profile contains invalid content'')"

section \<open>Encoding\<close>

lemma encode_char_cases:
  obtains e where "(c, e) \<in> set HTML_ENTITIES" "encode_char c = e" | "c \<notin> fst ` set HTML_ENTITIES" "encode_char c = [c]"
proof (cases "map_of HTML_ENTITIES c")
  case None
  then have "encode_char c = [c]" by (simp add: encode_char_def)
  with None show ?thesis using that(2) by (simp add: map_of_eq_None_iff)
next
  case (Some e)
  then show ?thesis using that(1) by (auto simp: encode_char_def dest: map_of_SomeD)
qed

lemma encodeHtml_simps [simp]: "encodeHtml [] = []" "encodeHtml (c # s) = encode_char c @ encodeHtml s"
  by (simp_all add: encodeHtml_def)

lemma entity_at_encoded: "(c, e) \<in> set HTML_ENTITIES \<Longrightarrow> entity_at (e @ s) = Some (c, e)"
  unfolding HTML_ENTITIES_def set_simps insert_iff prod.inject
  by (elim disjE conjE emptyE; simp add: entity_at_def HTML_ENTITIES_def startsWith_def)

lemma entity_at_plain: "c \<noteq> CHR ''&'' \<Longrightarrow> entity_at (c # s) = None"
  by (simp add: HTML_ENTITIES_def entity_at_def startsWith_def)

lemma entity_nonempty: "(c, e) \<in> set HTML_ENTITIES \<Longrightarrow> e \<noteq> [] \<and> length e \<le> 6 \<and> set e \<inter> {CHR ''<'', CHR ''>'', CHR 0x22, CHR 0x27, CHR ''/''} = {}"
  by (auto simp: HTML_ENTITIES_def)

lemma decode_entity: "(c, e) \<in> set HTML_ENTITIES \<Longrightarrow> decodeHtml (e @ s) = c # decodeHtml s"
  using entity_at_encoded [of c e s] entity_nonempty [of c e] by (cases e) auto

lemma decode_encode: "decodeHtml (encodeHtml s) = s"
proof (induction s)
  case (Cons c s)
  show ?case
  proof (cases rule: encode_char_cases [of c])
    case (1 e)
    then show ?thesis using Cons.IH by (simp add: decode_entity)
  next
    case 2
    then have "c \<noteq> CHR ''&''" by (auto simp: HTML_ENTITIES_def)
    then show ?thesis using 2 Cons.IH by (simp add: entity_at_plain)
  qed
qed simp

text \<open>Decoding an encoded text gives the text back.\<close>

theorem decode_encode_html: "decodeHtml (encodeHtml s) = s"
  by (rule decode_encode)

lemma encode_char_safe: "set (encode_char c) \<inter> {CHR ''<'', CHR ''>'', CHR 0x22, CHR 0x27, CHR ''/''} = {}"
proof (cases rule: encode_char_cases [of c])
  case (1 e)
  then show ?thesis using entity_nonempty [of c e] by simp
next
  case 2
  then show ?thesis by (auto simp: HTML_ENTITIES_def)
qed

lemma encodeHtml_safe: "set (encodeHtml s) \<inter> {CHR ''<'', CHR ''>'', CHR 0x22, CHR 0x27, CHR ''/''} = {}"
  using encode_char_safe by (induction s) auto

lemma encodeHtml_length: "length (encodeHtml s) \<le> 6 * length s"
proof (induction s)
  case (Cons c s)
  have "length (encode_char c) \<le> 6"
    by (cases rule: encode_char_cases [of c]) (use entity_nonempty in auto)
  then show ?case using Cons by simp
qed simp

section \<open>What passes\<close>

text \<open>No character that opens markup or closes an attribute.\<close>

definition markup_free :: "string \<Rightarrow> bool" where
  "markup_free s \<longleftrightarrow> set s \<inter> {CHR ''<'', CHR ''>'', CHR 0x22, CHR 0x27, CHR ''/''} = {}"

fun json_free :: "json \<Rightarrow> bool" where
  "json_free (JStr s) = markup_free s"
| "json_free (JArr vs) = list_all json_free vs"
| "json_free (JObj fs) = list_all (\<lambda>f. markup_free (fst f) \<and> json_free (snd f)) fs"
| "json_free v = True"

lemma sanitizeString_result:
  assumes "sanitizeString opts v ps = (ps', Inr t)"
  shows "t = (if allowHtml opts then cut (maxLength opts) (trim v) else encodeHtml (cut (maxLength opts) (trim v)))"
  using assms by (auto simp: sanitizeString_def Let_def split: prod.splits if_splits)

lemma sanitizeString_free: "sanitizeString opts v ps = (ps', Inr t) \<Longrightarrow> \<not> allowHtml opts \<Longrightarrow> markup_free t"
  by (drule sanitizeString_result) (simp add: markup_free_def encodeHtml_safe del: insert_disjoint)

lemma put_field_free:
  "markup_free k \<Longrightarrow> json_free v \<Longrightarrow> json_free (JObj acc) \<Longrightarrow> json_free (JObj (put_field k v acc))"
  using set_update_subset [of k v acc] by (auto simp: put_field_def list_all_iff)

lemma sanitizeObject_free:
  "\<not> allowHtml opts \<Longrightarrow> sanitizeObject opts v ps = (ps', Inr w) \<Longrightarrow> json_free w"
  "\<not> allowHtml opts \<Longrightarrow> sanitize_items opts vs ps = (ps', Inr ws) \<Longrightarrow> list_all json_free ws"
  "\<not> allowHtml opts \<Longrightarrow> json_free (JObj acc) \<Longrightarrow> sanitize_fields opts fs acc ps = (ps', Inr gs) \<Longrightarrow> json_free (JObj gs)"
proof (induction opts v ps and opts vs ps and opts fs acc ps arbitrary: ps' w and ps' ws and ps' gs
    rule: sanitizeObject_sanitize_items_sanitize_fields.induct)
  case (8 opts f fs acc ps)
  obtain ps1 k ps2 x where *: "sanitizeString (opts\<lparr>maxLength := 100\<rparr>) (fst f) ps = (ps1, Inr k)"
    "sanitizeObject opts (snd f) ps1 = (ps2, Inr x)" "sanitize_fields opts fs (put_field k x acc) ps2 = (ps', Inr gs)"
    using "8.prems"(3) by (auto split: prod.splits sum.splits)
  have "markup_free k" using sanitizeString_free [OF *(1)] "8.prems"(1) by simp
  moreover have "json_free x" using "8.IH"(1) [OF *(1)[symmetric] refl] *(2) "8.prems"(1) by simp
  ultimately have "json_free (JObj (put_field k x acc))" using put_field_free "8.prems"(2) by blast
  then show ?case using "8.IH"(2) [OF *(1)[symmetric] refl *(2)[symmetric] refl] *(3) "8.prems"(1) by simp
qed (auto split: prod.splits sum.splits intro: sanitizeString_free)

lemma sanitize_part_free:
  "\<not> allowHtml opts \<Longrightarrow> sanitize_part opts v ps = (ps', Inr w) \<Longrightarrow> is_object v \<Longrightarrow> \<exists>x. w = Some x \<and> json_free x"
  by (auto simp: sanitize_part_def split: prod.splits sum.splits intro: sanitizeObject_free)

text \<open>A request that the middleware lets through has no markup in any string or key of its body, query or
  parameters, where these were objects.\<close>

theorem admitted_requests_markup_free:
  assumes "sanitizeInputMiddleware a req fresh_response ps = (ps', req', res')" and "res_next res'"
  shows "(is_object (sq_body req) \<longrightarrow> (\<exists>v. sq_body req' = Some v \<and> json_free v)) \<and>
    (is_object (sq_query req) \<longrightarrow> (\<exists>v. sq_query req' = Some v \<and> json_free v)) \<and>
    (is_object (sq_params req) \<longrightarrow> (\<exists>v. sq_params req' = Some v \<and> json_free v))"
proof -
  let ?o = "\<lambda>m sql. \<lparr>allowHtml = False, maxLength = m, stripSql = sql\<rparr>"
  obtain ps1 b ps2 q ps3 p where
    "sanitize_part (?o 0 True) (sq_body req) ps = (ps1, Inr b)"
    "sanitize_part (?o 500 False) (sq_query req) ps1 = (ps2, Inr q)"
    "sanitize_part (?o 100 False) (sq_params req) ps2 = (ps3, Inr p)"
    and "req' = req\<lparr>sq_body := b, sq_query := q, sq_params := p\<rparr>"
    using assms
    by (auto simp: sanitizeInputMiddleware_def malicious_def bad_request_def Let_def split: prod.splits sum.splits if_splits)
  then show ?thesis using sanitize_part_free [where opts = "?o _ _"] by fastforce
qed

text \<open>The length of what passes: an entity is at most six characters, so a limit of \<open>m\<close> bounds the result by
  \<open>6 * m\<close>, not by \<open>m\<close>; and the limit is reached.\<close>

theorem sanitized_length:
  assumes "sanitizeString opts v ps = (ps', Inr t)" and "maxLength opts \<noteq> 0"
  shows "length t \<le> 6 * maxLength opts"
proof -
  have "length (cut (maxLength opts) (trim v)) \<le> maxLength opts" using assms(2) by (simp add: cut_def)
  then show ?thesis
    using sanitizeString_result [OF assms(1)] encodeHtml_length [of "cut (maxLength opts) (trim v)"] by (simp split: if_splits)
qed

text \<open>Sanitising twice is sanitising once only for texts without special characters: an entity is encoded again,
  so the middleware of the application and the one of a route together store a text that one decoding does not
  bring back.\<close>

lemma encode_char_length: "length (encode_char c) = 1 \<longleftrightarrow> c \<notin> fst ` set HTML_ENTITIES" "length (encode_char c) \<ge> 1"
  by (auto simp: encode_char_def HTML_ENTITIES_def)

lemma encodeHtml_longer: "length (encodeHtml s) \<ge> length s"
proof (induction s)
  case (Cons c s)
  then show ?case using encode_char_length(2) [of c] by simp
qed simp

lemma encodeHtml_id_iff: "encodeHtml s = s \<longleftrightarrow> set s \<inter> fst ` set HTML_ENTITIES = {}"
proof (induction s)
  case (Cons c s)
  show ?case
  proof (cases rule: encode_char_cases [of c])
    case (1 e)
    have "length e \<noteq> 1" using 1 encode_char_length(1) [of c] by (metis image_eqI fst_conv)
    then have "length (e @ encodeHtml s) \<noteq> length (c # s)"
      using encodeHtml_longer [of s] encode_char_length(2) [of c] 1 by simp
    then have "encodeHtml (c # s) \<noteq> c # s" using 1 by (metis encodeHtml_simps(2))
    then show ?thesis using 1 by force
  next
    case 2
    then show ?thesis using Cons.IH by simp
  qed
qed simp

theorem sanitizing_twice: "decodeHtml (encodeHtml (encodeHtml s)) = s \<longleftrightarrow> set s \<inter> fst ` set HTML_ENTITIES = {}"
  by (simp only: decode_encode encodeHtml_id_iff)

section \<open>Patterns with memory\<close>

lemma global_test_beyond: "length s < l \<Longrightarrow> global_test r s l = (0, False)"
  by (rule global_test_stale) simp

lemma global_test_no_match: "search_from r s 0 = None \<Longrightarrow> global_test r s l = (0, False)"
  by (rule global_test_stale) (simp add: search_from_None)

lemma test_until_none:
  assumes "length ls = length rs" and "\<And>j. j < length rs \<Longrightarrow> global_test (rs ! j) s (ls ! j) = (0, False)"
  shows "test_until rs s ls = (map (\<lambda>_. 0) rs, False)"
  using assms
proof (induction rs arbitrary: ls)
  case (Cons r rs)
  obtain l ls' where ls: "ls = l # ls'" using Cons.prems(1) by (cases ls) auto
  have "test_until rs s ls' = (map (\<lambda>_. 0) rs, False)"
    using Cons.prems(2) [of "Suc _"] Cons.prems(1) by (intro Cons.IH) (auto simp: ls)
  then show ?case using Cons.prems(2) [of 0] by (simp add: ls)
qed simp

text \<open>A pattern keeps the position behind its last match. While that position lies behind the end of the next comment,
  the comment is stored although the pattern matches it: after one refusal, a shorter comment with the same injection
  is admitted.\<close>

theorem stale_pattern_admits:
  assumes "length (sql_last ps) = 8" and "length (trim v) \<le> 2000"
    and "length (trim v) < sql_last ps ! i"
    and "\<And>j. j < 8 \<Longrightarrow> j \<noteq> i \<Longrightarrow> search_from (SQL_INJECTION_PATTERNS ! j) (trim v) 0 = None"
  shows "snd (sanitizeComment v ps) = Inr (encodeHtml (trim v))"
proof -
  have eight: "length SQL_INJECTION_PATTERNS = 8" by (simp add: SQL_INJECTION_PATTERNS_def)
  have "test_until SQL_INJECTION_PATTERNS (trim v) (sql_last ps) = (map (\<lambda>_. 0) SQL_INJECTION_PATTERNS, False)"
    using assms eight by (intro test_until_none) (auto intro: global_test_beyond global_test_no_match)
  moreover have "cut 2000 (trim v) = trim v" using assms(2) by (simp add: cut_def)
  ultimately show ?thesis by (simp add: sanitizeComment_def sanitizeString_def)
qed

lemma all_less_8: "(\<forall>j<8. P j) \<longleftrightarrow> P 0 \<and> P 1 \<and> P 2 \<and> P 3 \<and> P 4 \<and> P 5 \<and> P 6 \<and> P (7::nat)"
  by (simp add: All_less_Suc numeral_eq_Suc) blast

lemma short_injection_others: "j < 8 \<Longrightarrow> j \<noteq> 6 \<Longrightarrow> search_from (SQL_INJECTION_PATTERNS ! j) ''a--'' 0 = None"
proof -
  have "search_from (SQL_INJECTION_PATTERNS ! 0) ''a--'' 0 = None" "search_from (SQL_INJECTION_PATTERNS ! 1) ''a--'' 0 = None"
    "search_from (SQL_INJECTION_PATTERNS ! 2) ''a--'' 0 = None" "search_from (SQL_INJECTION_PATTERNS ! 3) ''a--'' 0 = None"
    "search_from (SQL_INJECTION_PATTERNS ! 4) ''a--'' 0 = None" "search_from (SQL_INJECTION_PATTERNS ! 5) ''a--'' 0 = None"
    "search_from (SQL_INJECTION_PATTERNS ! 7) ''a--'' 0 = None"
    by code_simp+
  then have "\<forall>j<8. j \<noteq> 6 \<longrightarrow> search_from (SQL_INJECTION_PATTERNS ! j) ''a--'' 0 = None" by (simp add: all_less_8)
  then show "j < 8 \<Longrightarrow> j \<noteq> 6 \<Longrightarrow> search_from (SQL_INJECTION_PATTERNS ! j) ''a--'' 0 = None" by blast
qed

lemma refusal_leaves_position:
  "sanitizeComment ''abc--'' fresh_patterns =
     (fresh_patterns\<lparr>sql_last := [0, 0, 0, 0, 0, 0, 5, 0]\<rparr>, Inl (PlainError ''Invalid input detected''))"
  by code_simp

theorem stale_pattern_admits_witness:
  "snd (sanitizeComment ''abc--'' fresh_patterns) = Inl (PlainError ''Invalid input detected'') \<and>
   snd (sanitizeComment ''a--'' fresh_patterns) = Inl (PlainError ''Invalid input detected'') \<and>
   snd (sanitizeComment ''a--'' (fst (sanitizeComment ''abc--'' fresh_patterns))) = Inr ''a--''"
proof -
  have t: "trim ''a--'' = ''a--''" by code_simp
  have "encodeHtml ''a--'' = ''a--''" by code_simp
  moreover have "snd (sanitizeComment ''a--'' fresh_patterns) = Inl (PlainError ''Invalid input detected'')" by code_simp
  ultimately show ?thesis
    using stale_pattern_admits [of "fst (sanitizeComment ''abc--'' fresh_patterns)" "''a--''" 6] short_injection_others
    by (simp add: refusal_leaves_position t)
qed

section \<open>Formats\<close>

text \<open>The query object of Express 5 has no setter, so the assignment throws and every request with a query object, the
  empty one included, is refused.\<close>

theorem query_refused_without_setter:
  assumes "is_object (sq_query req)" and "sanitizeInputMiddleware False req fresh_response ps = (ps', req', res')"
  shows "\<not> res_next res' \<and> res_status res' = Some 400"
  using assms by (auto simp: sanitizeInputMiddleware_def malicious_def bad_request_def Let_def split: prod.splits sum.splits if_splits)

text \<open>An address passes when it has 56 characters, the first a \<open>G\<close> and the others capital letters or digits. The digits
  \<open>0\<close>, \<open>1\<close>, \<open>8\<close> and \<open>9\<close>, which no base 32 text has, pass as well.\<close>

theorem stellar_address_iff:
  "validateStellarAddress a \<longleftrightarrow> length a = 56 \<and> a ! 0 = CHR ''G'' \<and> list_all upper_or_digit (tl a)"
proof -
  have "validateStellarAddress a \<longleftrightarrow> length a = 56 \<and> a ! 0 = CHR ''G'' \<and> (\<forall>k. Suc 0 \<le> k \<and> k < Suc 55 \<longrightarrow> upper_or_digit (a ! k))"
    unfolding validateStellarAddress_def match_iffs by auto
  also have "(\<forall>k. Suc 0 \<le> k \<and> k < Suc 55 \<longrightarrow> upper_or_digit (a ! k)) \<longleftrightarrow> (\<forall>k<55. upper_or_digit (a ! Suc k))"
    by (metis Suc_le_D Suc_le_mono Suc_less_eq le0)
  also have "length a = 56 \<and> a ! 0 = CHR ''G'' \<and> (\<forall>k<55. upper_or_digit (a ! Suc k)) \<longleftrightarrow>
    length a = 56 \<and> a ! 0 = CHR ''G'' \<and> list_all upper_or_digit (tl a)"
    by (auto simp: list_all_length nth_tl)
  finally show ?thesis .
qed

definition email_form :: "string \<Rightarrow> string \<Rightarrow> string \<Rightarrow> string" where
  "email_form a b c = a @ CHR ''@'' # b @ CHR ''.'' # c"

definition email_part :: "string \<Rightarrow> bool" where
  "email_part s \<longleftrightarrow> s \<noteq> [] \<and> list_all email_char s"


text \<open>An e-mail address passes when it has the form \<open>local@domain.suffix\<close> with three nonempty parts without spaces or
  further at signs.\<close>

theorem email_iff: "validateEmail e \<longleftrightarrow> (\<exists>a b c. e = email_form a b c \<and> email_part a \<and> email_part b \<and> email_part c)"
proof
  let ?C = "Some1 email_char"
  assume "validateEmail e"
  then obtain i j where i: "i \<in> set (ends ?C e 0)" and at: "i < length e" "e ! i = CHR ''@''"
    and j: "j \<in> set (ends ?C e (Suc i))" and dt: "j < length e" "e ! j = CHR ''.''" and k: "length e \<in> set (ends ?C e (Suc j))"
    unfolding validateEmail_def anchored_test_iff Seq_mem Nil_mem AtEnd_mem ch_mem by blast
  let ?a = "take i e" and ?b = "take (j - Suc i) (drop (Suc i) e)" and ?c = "drop (Suc j) e"
  have "Suc i < j" using j by (simp add: ends_Some1 del: ends.simps)
  then have "drop (Suc i) e = ?b @ CHR ''.'' # ?c"
    using id_take_nth_drop [of "j - Suc i" "drop (Suc i) e"] dt by simp
  then have "e = email_form ?a ?b ?c" using id_take_nth_drop [OF at(1)] at(2) by (simp add: email_form_def)
  moreover have "email_part ?a" "email_part ?b" "email_part ?c"
    using Some1_part [OF i] Some1_part [OF j] Some1_part [OF k] by (simp_all add: email_part_def)
  ultimately show "\<exists>a b c. e = email_form a b c \<and> email_part a \<and> email_part b \<and> email_part c" by blast
next
  let ?C = "Some1 email_char"
  assume "\<exists>a b c. e = email_form a b c \<and> email_part a \<and> email_part b \<and> email_part c"
  then obtain a b c where e: "e = email_form a b c" and p: "email_part a" "email_part b" "email_part c" by blast
  have "length a \<in> set (ends ?C e 0)"
    using Some1_span [of a email_char "[]" "CHR ''@'' # b @ CHR ''.'' # c"] p by (simp add: e email_form_def email_part_def del: ends.simps)
  moreover have "Suc (length a + length b) \<in> set (ends ?C e (Suc (length a)))"
    using Some1_span [of b email_char "a @ ''@''" "CHR ''.'' # c"] p by (simp add: e email_form_def email_part_def del: ends.simps)
  moreover have "length e \<in> set (ends ?C e (Suc (Suc (length a + length b))))"
    using Some1_span [of c email_char "a @ CHR ''@'' # b @ ''.''" "[]"] p by (simp add: e email_form_def email_part_def add.assoc del: ends.simps)
  moreover have "length a < length e" "e ! length a = CHR ''@''" "Suc (length a + length b) < length e"
    "e ! Suc (length a + length b) = CHR ''.''"
    by (simp_all add: e email_form_def nth_append)
  ultimately show "validateEmail e" 
    unfolding validateEmail_def anchored_test_iff Seq_mem Nil_mem AtEnd_mem ch_mem by blast
qed

end
