(* ===== verification/Strkey.thy ===== *)
theory Strkey
  imports Js_Values "HOL-Library.Word"
begin

text \<open>
  Addresses of the Stellar network as the client library checks them, \<open>packages/sdk/src/utils.ts\<close>: base 32 digits, the
  checksum CRC16-XMODEM and the version byte. Numbers under the bit operators of JavaScript are words of 32 bits, the
  elements of a \<open>Uint8Array\<close> words of 8 bits, a text of binary digits is a list of booleans.
\<close>

unbundle bit_operations_syntax

section \<open>Address formatting\<close>

record FormatAddressOptions =
  prefixChars :: nat
  suffixChars :: nat

text \<open>\<open>address.slice(-n)\<close>: the last \<open>n\<close> characters, and the whole text for \<open>n = 0\<close>.\<close>

definition slice_end :: "nat \<Rightarrow> string \<Rightarrow> string" where
  "slice_end n s = (if n = 0 then s else drop (length s - n) s)"

definition formatAddress :: "string \<Rightarrow> FormatAddressOptions \<Rightarrow> string" where
  "formatAddress address opts =
     (if length address \<le> prefixChars opts + suffixChars opts then address
      else take (prefixChars opts) address @ ''...'' @ slice_end (suffixChars opts) address)"

section \<open>Checksum\<close>

definition BASE32_ALPHABET :: string where
  "BASE32_ALPHABET = ''ABCDEFGHIJKLMNOPQRSTUVWXYZ234567''"

text \<open>One round of the inner loop: shift, reduce, mask.\<close>

definition crc_step :: "32 word \<Rightarrow> 32 word" where
  "crc_step crc = (if crc AND 0x8000 \<noteq> 0 then push_bit 1 crc XOR 0x1021 else push_bit 1 crc) AND 0xffff"

definition crc_byte :: "32 word \<Rightarrow> 8 word \<Rightarrow> 32 word" where
  "crc_byte crc d = (crc_step ^^ 8) (crc XOR push_bit 8 (ucast d))"

definition crc16 :: "8 word list \<Rightarrow> 32 word" where
  "crc16 data = foldl crc_byte 0 data"

section \<open>Base 32\<close>

definition indexOf_char :: "string \<Rightarrow> char \<Rightarrow> nat option" where
  "indexOf_char s c = (let i = length (takeWhile (\<lambda>x. x \<noteq> c) s) in if i < length s then Some i else None)"

text \<open>\<open>value.toString(2).padStart(5, '0')\<close> for a value below 32.\<close>

definition five_bits :: "nat \<Rightarrow> bool list" where
  "five_bits v = map (bit v) [4, 3, 2, 1, 0]"

fun base32_bits :: "string \<Rightarrow> bool list option" where
  "base32_bits [] = Some []"
| "base32_bits (c # s) =
     (case indexOf_char BASE32_ALPHABET c of
        None \<Rightarrow> None
      | Some v \<Rightarrow> map_option (\<lambda>bs. five_bits v @ bs) (base32_bits s))"

text \<open>\<open>parseInt(digits, 2)\<close>\<close>

definition parse_bits :: "bool list \<Rightarrow> nat" where
  "parse_bits bs = foldl (\<lambda>n b. 2 * n + of_bool b) 0 bs"

definition bits_slice :: "bool list \<Rightarrow> nat \<Rightarrow> nat \<Rightarrow> bool list" where
  "bits_slice bs i j = take (j - i) (drop i bs)"

definition base32Decode :: "string \<Rightarrow> 8 word list option" where
  "base32Decode input =
     (if length input \<noteq> 56 \<or> \<not> startsWith input ''G'' then None
      else case base32_bits input of
             None \<Rightarrow> None
           | Some bits \<Rightarrow>
               if length bits \<noteq> 280 then None
               else Some (map (\<lambda>i. word_of_nat (parse_bits (bits_slice bits (i * 8) (i * 8 + 8)))) [0..<35]))"

section \<open>Validation\<close>

record ValidateAddressResult =
  addr_valid :: bool
  addr_error :: "string option"

definition addr_invalid :: "string \<Rightarrow> ValidateAddressResult" where
  "addr_invalid e = \<lparr>addr_valid = False, addr_error = Some e\<rparr>"

definition validateAddress :: "json \<Rightarrow> ValidateAddressResult" where
  "validateAddress address =
     (case address of
        JStr s \<Rightarrow>
          let trimmed = trim s
          in if length trimmed \<noteq> 56 \<or> \<not> startsWith trimmed ''G'' then addr_invalid ''Must be 56 chars starting with G''
             else (case base32Decode trimmed of
                     None \<Rightarrow> addr_invalid ''Invalid base32 characters''
                   | Some bytes \<Rightarrow>
                       if bytes ! 0 \<noteq> push_bit 3 6 then addr_invalid ''Invalid version byte''
                       else let expectedCrc = crc16 (take 33 bytes);
                                actualCrc = push_bit 8 (ucast (bytes ! 33)) OR ucast (bytes ! 34)
                            in if expectedCrc \<noteq> actualCrc then addr_invalid ''Checksum mismatch''
                               else \<lparr>addr_valid = True, addr_error = None\<rparr>)
      | _ \<Rightarrow> addr_invalid ''Address must be a string'')"

definition isValidStellarAddress :: "json \<Rightarrow> bool" where
  "isValidStellarAddress address = addr_valid (validateAddress address)"

section \<open>The checksum bit by bit\<close>

definition crc_bit :: "32 word \<Rightarrow> bool \<Rightarrow> 32 word" where
  "crc_bit crc b = crc_step (crc XOR (if b then 0x8000 else 0))"

lemma mask16: "(0xffff :: 32 word) = mask 16" by (simp add: mask_eq_exp_minus_1)

lemma and_8000: "(crc :: 32 word) AND 0x8000 \<noteq> 0 \<longleftrightarrow> bit crc 15"
  using and_exp_eq_0_iff_not_bit [of crc 15] by simp

lemma crc_step_alt: "crc_step x = take_bit 16 (push_bit 1 x XOR (if bit x 15 then 0x1021 else 0))"
  by (simp add: crc_step_def and_8000 mask16 take_bit_eq_mask)

lemma crc_step_xor: "crc_step (x XOR y) = crc_step x XOR crc_step y"
  by (simp add: crc_step_alt bit_simps push_bit_xor take_bit_xor ac_simps)

lemma crc_step_0 [simp]: "crc_step 0 = 0"
  by (simp add: crc_step_alt)

text \<open>A word that fits into the register of 16 bits.\<close>

abbreviation reg :: "32 word \<Rightarrow> bool" where "reg x \<equiv> take_bit 16 x = x"

lemma reg_bit: "reg x \<Longrightarrow> 16 \<le> i \<Longrightarrow> \<not> bit x i"
  by (metis bit_take_bit_iff not_less)

lemma reg_step [simp]: "reg (crc_step x)"
  by (simp add: crc_step_alt)

lemma bit_push_1: "bit (push_bit 1 (x :: 32 word)) i \<longleftrightarrow> 0 < i \<and> i < 32 \<and> bit x (i - 1)"
  unfolding bit_push_bit_iff by (auto simp: Suc_le_eq)

lemma bit_8000: "bit (0x8000 :: 32 word) i \<longleftrightarrow> i = 15"
  using bit_exp_iff [where 'a = "32 word", of 15 i] by auto

lemma bit_step_0: "bit (crc_step x) 0 \<longleftrightarrow> bit x 15"
  unfolding crc_step_alt bit_take_bit_iff bit_xor_iff bit_push_1 by simp

lemma bit_step_even: "\<not> bit x 15 \<Longrightarrow> bit (crc_step x) (Suc i) \<longleftrightarrow> i < 15 \<and> bit x i"
  unfolding crc_step_alt bit_take_bit_iff bit_xor_iff bit_push_1 by auto

text \<open>The register is never cleared by a round: a round is injective and linear.\<close>

lemma step_eq_0: "reg x \<Longrightarrow> crc_step x = 0 \<longleftrightarrow> x = 0"
proof
  assume r: "reg x" and z: "crc_step x = 0"
  have m: "\<not> bit x 15" using bit_step_0 [of x] z by simp
  show "x = 0"
  proof (rule bit_eqI)
    fix i :: nat
    consider "i < 15" | "i = 15" | "16 \<le> i" by linarith
    then show "bit x i \<longleftrightarrow> bit 0 i"
      using bit_step_even [OF m, of i] z m reg_bit [OF r, of i] by cases auto
  qed
qed simp

lemma crc_bit_xor: "crc_bit (x XOR y) (b = (\<not> c)) = crc_bit x b XOR crc_bit y c"
  by (cases b; cases c; simp add: crc_bit_def ac_simps flip: crc_step_xor)

definition diff :: "bool list \<Rightarrow> bool list \<Rightarrow> bool list" where
  "diff bs cs = map2 (\<noteq>) bs cs"

lemma fold_bits_xor:
  "length bs = length cs \<Longrightarrow> foldl crc_bit (x XOR y) (diff bs cs) = foldl crc_bit x bs XOR foldl crc_bit y cs"
  by (induction bs cs arbitrary: x y rule: list_induct2) (simp_all add: diff_def crc_bit_xor)

lemma reg_crc_bit [simp]: "reg (crc_bit x b)"
  by (simp add: crc_bit_def)

lemma fold_zeros: "reg x \<Longrightarrow> foldl crc_bit x (replicate n False) = 0 \<longleftrightarrow> x = 0"
  by (induction n arbitrary: x) (simp_all add: step_eq_0 crc_bit_def)

text \<open>Bits that clear the register determine it: its low bits are clear.\<close>

lemma fold_cleared:
  "reg x \<Longrightarrow> foldl crc_bit x bs = 0 \<Longrightarrow> length bs \<le> 16 \<Longrightarrow> i < 16 - length bs \<Longrightarrow> \<not> bit x i"
proof (induction bs arbitrary: x i)
  case (Cons b bs)
  let ?y = "x XOR (if b then 0x8000 else 0)"
  have clear: "\<not> bit (crc_step ?y) j" if "j < 16 - length bs" for j
    using Cons.IH [of "crc_step ?y" j] Cons.prems(2,3) that by (simp add: crc_bit_def)
  have m: "\<not> bit ?y 15" using clear [of 0] Cons.prems(3) bit_step_0 [of ?y] by simp
  have "\<not> bit ?y i" using clear [of "Suc i"] bit_step_even [OF m, of i] Cons.prems(4) by simp
  moreover have "bit ?y i = bit x i" using Cons.prems(4) bit_8000 [of i] by (auto simp: bit_xor_iff)
  ultimately show ?case by simp
qed simp

text \<open>A burst of at most 16 bits that is not all zero leaves a nonzero register.\<close>

lemma burst_nonzero: "foldl crc_bit 0 bs = 0 \<Longrightarrow> length bs \<le> 16 \<Longrightarrow> bs = replicate (length bs) False"
proof (induction bs)
  case (Cons b bs)
  show ?case
  proof (cases b)
    case True
    have "crc_bit 0 True = 0x1021" by (simp add: crc_bit_def crc_step_def)
    moreover have "bit (0x1021 :: 32 word) 0" by simp
    ultimately have False
      using fold_cleared [of "crc_bit 0 True" bs 0] Cons.prems True by simp
    then show ?thesis ..
  next
    case False
    then show ?thesis using Cons by (simp add: crc_bit_def)
  qed
qed simp

section \<open>Bytes and bits\<close>

text \<open>Bits in the top positions of the register.\<close>

primrec align :: "bool list \<Rightarrow> 32 word" where
  "align [] = 0"
| "align (b # bs) = (if b then 0x8000 else 0) XOR drop_bit 1 (align bs)"

lemma bit_align: "bit (align bs) i \<longleftrightarrow> i \<le> 15 \<and> 15 - i < length bs \<and> bs ! (15 - i)"
proof (induction bs arbitrary: i)
  case (Cons b bs)
  have "bit (align (b # bs)) i \<longleftrightarrow> ((b \<and> i = 15) \<noteq> bit (align bs) (Suc i))"
    using bit_8000 [of i] by (auto simp: bit_xor_iff bit_drop_bit_eq)
  then show ?case unfolding Cons.IH by (cases "i = 15") (auto simp: nth_Cons' Suc_diff_le)
qed simp

lemma reg_align: "reg (align bs)"
  by (rule bit_eqI) (auto simp: bit_take_bit_iff bit_align)

lemma step_drop_align: "length bs \<le> 15 \<Longrightarrow> crc_step (drop_bit 1 (align bs)) = align bs"
proof (rule bit_eqI)
  fix i assume l: "length bs \<le> 15"
  have m: "\<not> bit (drop_bit 1 (align bs)) 15" by (simp add: bit_drop_bit_eq bit_align)
  show "bit (crc_step (drop_bit 1 (align bs))) i \<longleftrightarrow> bit (align bs) i"
  proof (cases i)
    case 0
    then show ?thesis using bit_step_0 [of "drop_bit 1 (align bs)"] m l by (simp add: bit_align)
  next
    case (Suc j)
    then show ?thesis using bit_step_even [OF m, of j] by (auto simp: bit_drop_bit_eq bit_align)
  qed
qed

lemma steps_align: "length bs \<le> 16 \<Longrightarrow> (crc_step ^^ length bs) (c XOR align bs) = foldl crc_bit c bs"
proof (induction bs arbitrary: c)
  case (Cons b bs)
  have "crc_step (c XOR align (b # bs)) = crc_bit c b XOR align bs"
    using Cons.prems step_drop_align [of bs]
    by (simp only: align.simps crc_bit_def crc_step_xor length_Cons xor.assoc)
  then show ?case using Cons by (simp add: funpow_swap1 del: align.simps)
qed simp

lemma steps_0 [simp]: "(crc_step ^^ n) 0 = 0"
  by (induction n) simp_all

definition byte_bits :: "8 word \<Rightarrow> bool list" where
  "byte_bits d = map (bit d) [7, 6, 5, 4, 3, 2, 1, 0]"

lemma byte_bits_nth: "i < 8 \<Longrightarrow> byte_bits d ! i = bit d (7 - i)"
  by (auto simp: byte_bits_def less_Suc_eq numeral_eq_Suc)

lemma length_byte_bits [simp]: "length (byte_bits d) = 8"
  by (simp add: byte_bits_def)

lemma align_byte: "align (byte_bits d) = push_bit 8 (ucast d)"
proof (rule bit_eqI)
  fix i assume "possible_bit TYPE(32 word) i"
  then have "i < 32" by simp
  then show "bit (align (byte_bits d)) i \<longleftrightarrow> bit (push_bit 8 (ucast d) :: 32 word) i"
    using bit_imp_le_length [of d "i - 8"] by (auto simp: bit_align bit_push_bit_iff bit_ucast_iff byte_bits_nth)
qed

lemma crc_byte_bits: "crc_byte c d = foldl crc_bit c (byte_bits d)"
  using steps_align [of "byte_bits d" c] by (simp add: crc_byte_def align_byte)

lemma crc16_bits: "crc16 data = foldl crc_bit 0 (concat (map byte_bits data))"
proof -
  have "foldl crc_byte c data = foldl crc_bit c (concat (map byte_bits data))" for c
    by (induction data arbitrary: c) (simp_all add: crc_byte_bits)
  then show ?thesis by (simp add: crc16_def)
qed

lemma align_two_bytes: "align (byte_bits a @ byte_bits b) = push_bit 8 (ucast a) OR ucast b"
proof (rule bit_eqI)
  fix i assume "possible_bit TYPE(32 word) i"
  then have "i < 32" by simp
  then show "bit (align (byte_bits a @ byte_bits b)) i \<longleftrightarrow> bit (push_bit 8 (ucast a) OR ucast b :: 32 word) i"
    using bit_imp_le_length [of a "i - 8"] bit_imp_le_length [of b i]
    by (auto simp: bit_align bit_push_bit_iff bit_ucast_iff bit_or_iff nth_append byte_bits_nth)
qed

lemma parse_bits_horner: "parse_bits bs = horner_sum of_bool 2 (rev bs)"
  by (simp add: parse_bits_def horner_sum_foldr foldr_conv_foldl add.commute mult.commute)

lemma byte_of_bits: "length bs = 8 \<Longrightarrow> byte_bits (word_of_nat (parse_bits bs)) = bs"
proof (rule nth_equalityI)
  fix i assume l: "length bs = 8" and "i < length (byte_bits (word_of_nat (parse_bits bs)))"
  then have "i < 8" by simp
  then show "byte_bits (word_of_nat (parse_bits bs)) ! i = bs ! i"
    using l by (auto simp: byte_bits_nth bit_of_nat_iff parse_bits_horner bit_horner_sum_bit_iff rev_nth)
qed simp

lemma concat_slices: "length bs = 8 * n \<Longrightarrow> concat (map (\<lambda>i. bits_slice bs (i * 8) (i * 8 + 8)) [0..<n]) = bs"
proof (induction n arbitrary: bs)
  case (Suc n)
  have "bits_slice bs (i * 8) (i * 8 + 8) = bits_slice (take (8 * n) bs) (i * 8) (i * 8 + 8)" if "i < n" for i
    using that by (simp add: bits_slice_def take_drop min_def)
  then have eq: "map (\<lambda>i. bits_slice bs (i * 8) (i * 8 + 8)) [0..<n] = map (\<lambda>i. bits_slice (take (8 * n) bs) (i * 8) (i * 8 + 8)) [0..<n]"
    by simp
  have "concat (map (\<lambda>i. bits_slice bs (i * 8) (i * 8 + 8)) [0..<n]) = take (8 * n) bs"
    unfolding eq by (rule Suc.IH) (simp add: Suc.prems)
  moreover have "bits_slice bs (n * 8) (n * 8 + 8) = drop (8 * n) bs"
    using Suc.prems by (simp add: bits_slice_def mult.commute)
  ultimately show ?case by simp
qed simp

lemma base32Decode_bits:
  assumes "base32Decode s = Some bytes"
  obtains bits where "base32_bits s = Some bits" "length bits = 280" "length bytes = 35" "concat (map byte_bits bytes) = bits"
proof -
  obtain bits where b: "base32_bits s = Some bits" "length bits = 280"
    and bytes: "bytes = map (\<lambda>i. word_of_nat (parse_bits (bits_slice bits (i * 8) (i * 8 + 8)))) [0..<35]"
    using assms by (auto simp: base32Decode_def split: if_splits option.splits)
  have m: "map byte_bits bytes = map (\<lambda>i. bits_slice bits (i * 8) (i * 8 + 8)) [0..<35]"
    unfolding bytes map_map by (rule map_cong) (use b(2) in \<open>auto intro!: byte_of_bits simp: bits_slice_def\<close>)
  have "concat (map byte_bits bytes) = bits" unfolding m by (rule concat_slices) (simp add: b(2))
  moreover have "length bytes = 35" by (simp add: bytes)
  ultimately show thesis using that b by blast
qed

lemma valid_register_zero:
  assumes "isValidStellarAddress (JStr s)"
  obtains bits where "base32_bits (trim s) = Some bits" "foldl crc_bit 0 bits = 0"
proof -
  obtain bytes where d: "base32Decode (trim s) = Some bytes"
    and c: "crc16 (take 33 bytes) = push_bit 8 (ucast (bytes ! 33)) OR ucast (bytes ! 34)"
    using assms by (auto simp: isValidStellarAddress_def validateAddress_def addr_invalid_def Let_def split: if_splits option.splits)
  obtain bits where b: "base32_bits (trim s) = Some bits" "length bits = 280" "length bytes = 35" "concat (map byte_bits bytes) = bits"
    using base32Decode_bits [OF d] .
  let ?last = "byte_bits (bytes ! 33) @ byte_bits (bytes ! 34)"
  have eq: "bytes = take 33 bytes @ [bytes ! 33, bytes ! 34]"
    using b(3) append_take_drop_id [of 33 bytes] Cons_nth_drop_Suc [of 33 bytes] Cons_nth_drop_Suc [of 34 bytes] by simp
  have "bits = concat (map byte_bits (take 33 bytes)) @ ?last"
    using b(4) arg_cong [OF eq, of "\<lambda>x. concat (map byte_bits x)"] by simp
  then have "foldl crc_bit 0 bits = foldl crc_bit (align ?last) ?last"
    using c by (simp add: align_two_bytes flip: crc16_bits)
  also have "\<dots> = 0"
    using steps_align [of ?last "align ?last"] by simp
  finally show thesis using that b(1) by blast
qed

section \<open>Errors that the checksum detects\<close>

lemma base32_bits_append:
  "base32_bits (x @ y) = (case base32_bits x of None \<Rightarrow> None | Some b \<Rightarrow> map_option (\<lambda>c. b @ c) (base32_bits y))"
  by (induction x; cases "base32_bits y") (auto split: option.splits)

lemma indexOf_char_nth: "indexOf_char s c = Some i \<Longrightarrow> i < length s \<and> s ! i = c"
  using nth_length_takeWhile [of "\<lambda>x. x \<noteq> c" s] by (auto simp: indexOf_char_def Let_def split: if_splits)

lemma five_bits_inj: "five_bits v = five_bits w \<Longrightarrow> v < 32 \<Longrightarrow> w < 32 \<Longrightarrow> v = w"
proof -
  assume eq: "five_bits v = five_bits w" and v: "v < 32" and w: "w < 32"
  have "bit v i = bit w i" if "i < 5" for i
    using eq that by (auto simp: five_bits_def less_Suc_eq numeral_eq_Suc)
  then have "take_bit 5 v = take_bit 5 w" by (auto simp: bit_eq_iff bit_take_bit_iff)
  then show "v = w" using v w by (simp add: take_bit_nat_eq_self)
qed

lemma base32_bits_length: "base32_bits s = Some b \<Longrightarrow> length b = 5 * length s"
  by (induction s arbitrary: b) (auto simp: five_bits_def split: option.splits)

lemma base32_bits_inj: "base32_bits x = Some b \<Longrightarrow> base32_bits y = Some b \<Longrightarrow> x = y"
proof (induction x arbitrary: b y)
  case Nil
  then show ?case using base32_bits_length by fastforce
next
  case (Cons c x)
  obtain d y' where y: "y = d # y'" using Cons.prems base32_bits_length by (cases y) fastforce+
  obtain v w r r' where *: "indexOf_char BASE32_ALPHABET c = Some v" "indexOf_char BASE32_ALPHABET d = Some w"
    "base32_bits x = Some r" "base32_bits y' = Some r'" "five_bits v @ r = b" "five_bits w @ r' = b"
    using Cons.prems by (auto simp: y split: option.splits)
  then have "five_bits v = five_bits w" "r = r'" by (auto simp: five_bits_def)
  moreover have "v < 32" "w < 32" using *(1,2) indexOf_char_nth by (fastforce simp: BASE32_ALPHABET_def)+
  ultimately have "v = w" using five_bits_inj by blast
  then have "c = d" using *(1,2) indexOf_char_nth by blast
  then show ?case using Cons.IH *(3,4) \<open>r = r'\<close> by (simp add: y)
qed

lemma dropWhile_full: "length (dropWhile P xs) = length xs \<Longrightarrow> dropWhile P xs = xs"
  using takeWhile_dropWhile_id [of P xs] by (metis add_cancel_left_left append_Nil length_0_conv length_append)

lemma trim_full: "length (trim s) = length s \<Longrightarrow> trim s = s"
proof -
  assume l: "length (trim s) = length s"
  have le: "length (trim s) \<le> length (dropWhile is_space s)" unfolding trim_def by (metis length_dropWhile_le length_rev)
  have d: "dropWhile is_space s = s"
    by (rule dropWhile_full) (use l le length_dropWhile_le [of is_space s] in simp)
  have "dropWhile is_space (rev s) = rev s"
    by (rule dropWhile_full) (use l d in \<open>simp add: trim_def\<close>)
  then show "trim s = s" by (simp add: trim_def d)
qed

lemma valid_trimmed: "isValidStellarAddress (JStr s) \<Longrightarrow> length (trim s) = 56"
  by (auto simp: isValidStellarAddress_def validateAddress_def addr_invalid_def Let_def split: if_splits)

lemma diff_same: "diff xs xs = replicate (length xs) False"
  by (induction xs) (simp_all add: diff_def)

lemma diff_append: "length xs = length ys \<Longrightarrow> diff (xs @ us) (ys @ vs) = diff xs ys @ diff us vs"
  by (simp add: diff_def)

lemma diff_zero: "length xs = length ys \<Longrightarrow> diff xs ys = replicate (length xs) False \<Longrightarrow> xs = ys"
  by (induction xs ys rule: list_induct2) (simp_all add: diff_def)

lemma fold_bits_burst:
  assumes "length M = length M'" and "length M \<le> 16"
    and "foldl crc_bit 0 (U @ M @ V) = 0" and "foldl crc_bit 0 (U @ M' @ V) = 0"
  shows "M = M'"
proof -
  have "foldl crc_bit (0 XOR 0) (diff (U @ M @ V) (U @ M' @ V)) = 0"
    using fold_bits_xor [of "U @ M @ V" "U @ M' @ V" 0 0] assms by simp
  then have "foldl crc_bit (foldl crc_bit (foldl crc_bit 0 (replicate (length U) False)) (diff M M')) (replicate (length V) False) = 0"
    using assms(1) by (simp add: diff_append diff_same)
  moreover have "foldl crc_bit 0 (replicate (length U) False) = 0" by (simp add: fold_zeros)
  moreover have "reg (foldl crc_bit 0 bs)" for bs
    by (induction bs rule: rev_induct) simp_all
  ultimately have "foldl crc_bit 0 (diff M M') = 0" by (simp only: fold_zeros)
  moreover have len: "length (diff M M') = length M" using assms(1) by (simp add: diff_def)
  ultimately have "diff M M' = replicate (length M) False" using burst_nonzero [of "diff M M'"] assms(2) by simp
  then show ?thesis by (rule diff_zero [OF assms(1)])
qed

text \<open>C37. Two valid addresses that differ in at most three adjacent characters are the same address: no mistyped character,
  no swap of neighbours and no error confined to three neighbouring characters turns a valid address into another
  valid one.\<close>

theorem typo_detected:
  assumes "isValidStellarAddress (JStr (u @ m @ v))" and "length (u @ m @ v) = 56"
    and "length m' = length m" and "length m \<le> 3" and "m' \<noteq> m"
  shows "\<not> isValidStellarAddress (JStr (u @ m' @ v))"
proof
  assume valid': "isValidStellarAddress (JStr (u @ m' @ v))"
  have "trim (u @ m @ v) = u @ m @ v" "trim (u @ m' @ v) = u @ m' @ v"
    using valid_trimmed [OF assms(1)] valid_trimmed [OF valid'] assms(2,3) by (auto intro: trim_full)
  then obtain b b' where "base32_bits (u @ m @ v) = Some b" "foldl crc_bit 0 b = 0"
    "base32_bits (u @ m' @ v) = Some b'" "foldl crc_bit 0 b' = 0"
    using valid_register_zero [OF assms(1)] valid_register_zero [OF valid'] by metis
  then obtain U M V M' where *: "base32_bits m = Some M" "base32_bits m' = Some M'"
    "foldl crc_bit 0 (U @ M @ V) = 0" "foldl crc_bit 0 (U @ M' @ V) = 0"
    by (auto simp: base32_bits_append split: option.splits)
  have "M = M'"
    using fold_bits_burst [OF _ _ *(3,4)] *(1,2) assms(3,4) by (simp add: base32_bits_length)
  then have "m = m'" using *(1,2) base32_bits_inj by blast
  then show False using assms(5) by simp
qed

text \<open>A key whose first bytes clear the register: its checksum is zero.\<close>

definition sample_address :: string where
  "sample_address = ''GA3FG'' @ replicate 51 CHR ''A''"

definition other_address :: string where
  "other_address = ''GA3FG'' @ replicate 47 CHR ''A'' @ ''CIIQ''"

lemma crc_zeros: "foldl crc_byte 0 (replicate n 0) = 0"
  by (induction n) (simp_all add: crc_byte_def)

lemma crc_sample_head: "foldl crc_byte 0 [48, 0x36, 0x53] = 0"
  by code_simp

lemma crc_sample: "crc16 ([48, 0x36, 0x53] @ replicate n 0 @ bs) = foldl crc_byte 0 bs"
  unfolding crc16_def foldl_append crc_sample_head crc_zeros ..

lemma sample_decoded:
  "trim sample_address = sample_address" "base32Decode sample_address = Some ([48, 0x36, 0x53] @ replicate 32 0)"
  by code_simp+

lemma other_decoded:
  "trim other_address = other_address"
  "base32Decode other_address = Some ([48, 0x36, 0x53] @ replicate 29 0 @ [1, 0x21, 0x10])"
  by code_simp+

lemma base32Decode_guard: "base32Decode s = Some bytes \<Longrightarrow> length s = 56 \<and> startsWith s ''G''"
  by (simp add: base32Decode_def split: if_splits)

lemma validateAddress_decoded:
  assumes "trim s = s" and "base32Decode s = Some bytes"
  shows "isValidStellarAddress (JStr s) \<longleftrightarrow>
    bytes ! 0 = push_bit 3 6 \<and> crc16 (take 33 bytes) = push_bit 8 (ucast (bytes ! 33)) OR ucast (bytes ! 34)"
  using assms base32Decode_guard [OF assms(2)]
  by (simp add: isValidStellarAddress_def validateAddress_def addr_invalid_def Let_def)

lemma sample_valid: "isValidStellarAddress (JStr sample_address)"
proof -
  have "take 33 ([48, 0x36, 0x53] @ replicate 32 (0 :: 8 word)) = [48, 0x36, 0x53] @ replicate 30 0 @ []" by simp
  moreover have "crc16 ([48, 0x36, 0x53] @ replicate 30 0 @ []) = 0" unfolding crc_sample by simp
  ultimately show ?thesis unfolding validateAddress_decoded [OF sample_decoded] by simp
qed

theorem typo_detected_witness:
  "isValidStellarAddress (JStr (''GA3'' @ ''FG'' @ replicate 51 CHR ''A'')) \<and>
   \<not> isValidStellarAddress (JStr (''GA3'' @ ''GF'' @ replicate 51 CHR ''A''))"
proof -
  have "isValidStellarAddress (JStr (''GA3'' @ ''FG'' @ replicate 51 CHR ''A''))"
    using sample_valid by (simp add: sample_address_def)
  moreover have "length (''GA3'' @ ''FG'' @ replicate 51 CHR ''A'') = 56" "length ''GF'' = length ''FG''" "length ''FG'' \<le> 3" "''GF'' \<noteq> ''FG''"
    by simp_all
  ultimately show ?thesis using typo_detected by blast
qed

text \<open>The version byte and checksum of an address as the network defines them.\<close>

definition genuine :: "8 word list \<Rightarrow> bool" where
  "genuine bytes \<longleftrightarrow> bytes ! 0 = 48 \<and> crc16 (take 33 bytes) = push_bit 8 (ucast (bytes ! 34)) OR ucast (bytes ! 33)"

lemma align_inj: "align bs = align cs \<Longrightarrow> length bs = length cs \<Longrightarrow> length bs \<le> 16 \<Longrightarrow> bs = cs"
proof (rule nth_equalityI)
  fix k assume "align bs = align cs" "length bs = length cs" "length bs \<le> 16" "k < length bs"
  then show "bs ! k = cs ! k" using bit_align [of bs "15 - k"] bit_align [of cs "15 - k"] by auto
qed

lemma byte_bits_inj: "byte_bits a = byte_bits b \<Longrightarrow> a = b"
proof (rule bit_eqI)
  fix n assume "byte_bits a = byte_bits b" "possible_bit TYPE(8 word) n"
  then show "bit a n = bit b n" using byte_bits_nth [of "7 - n" a] byte_bits_nth [of "7 - n" b] by auto
qed

lemma two_bytes_inj:
  "(push_bit 8 (ucast a) OR ucast b :: 32 word) = push_bit 8 (ucast c) OR ucast d \<Longrightarrow> (a :: 8 word) = c \<and> (b :: 8 word) = d"
  using align_inj [of "byte_bits a @ byte_bits b" "byte_bits c @ byte_bits d"]
  by (auto simp: align_two_bytes dest: byte_bits_inj)

text \<open>C38. A Stellar address ends with its checksum, the low byte first. The check reads the high byte first: it accepts a
  genuine address only if both bytes of the checksum are equal.\<close>

theorem genuine_accepted_iff:
  assumes "trim s = s" and "base32Decode s = Some bytes" and "genuine bytes"
  shows "isValidStellarAddress (JStr s) \<longleftrightarrow> bytes ! 33 = bytes ! 34"
proof -
  have "(48 :: 8 word) = push_bit 3 6" by simp
  then show ?thesis
    unfolding validateAddress_decoded [OF assms(1,2)] using assms(3) two_bytes_inj [of "bytes ! 34" "bytes ! 33" "bytes ! 33" "bytes ! 34"]
    by (auto simp: genuine_def)
qed

theorem genuine_accepted_iff_witness:
  "base32Decode other_address = Some ([48, 0x36, 0x53] @ replicate 29 0 @ [1, 0x21, 0x10]) \<and>
   genuine ([48, 0x36, 0x53] @ replicate 29 0 @ [1, 0x21, 0x10]) \<and> \<not> isValidStellarAddress (JStr other_address)"
proof -
  let ?b = "[48, 0x36, 0x53] @ replicate 29 0 @ [1, 0x21, 0x10] :: 8 word list"
  have "take 33 ?b = [48, 0x36, 0x53] @ replicate 29 0 @ [1]" by simp
  moreover have "crc16 ([48, 0x36, 0x53] @ replicate 29 0 @ [1]) = 0x1021"
    unfolding crc_sample by code_simp
  ultimately have g: "genuine ?b" by (simp add: genuine_def nth_append)
  have "?b ! 33 \<noteq> ?b ! 34" by (simp add: nth_append)
  then show ?thesis using genuine_accepted_iff [OF other_decoded g] g other_decoded(2) by blast
qed

end
