(* ===== verification/Retry.thy ===== *)
theory Retry
  imports Errors Prelude
begin

text \<open>
  Retry with exponential backoff, \<open>packages/shared-utils/src/retry.ts\<close>. The operation is a function of the attempt and of
  the state of the world; it fails with an error or returns a value. Numbers are exact rationals; \<open>Math.random\<close> is an
  argument, a number per attempt; the number of attempts is an integer, and \<open>onRetry\<close> and the test for retryable errors do not
  throw. What is returned has the state, the outcome, the number of calls, and the calls of
  \<open>onRetry\<close> and \<open>sleep\<close> in their order.
\<close>

section \<open>Delays\<close>

record backoff =
  initialDelayMs :: rat
  maxDelayMs :: rat
  backoffMultiplier :: rat
  jitter :: rat

definition DEFAULT_BACKOFF :: backoff where
  "DEFAULT_BACKOFF = \<lparr>initialDelayMs = 100, maxDelayMs = 5000, backoffMultiplier = 2, jitter = 1 / 10\<rparr>"

definition DEFAULT_ATTEMPTS :: int where "DEFAULT_ATTEMPTS = 3"

text \<open>\<open>Math.round\<close>: half up.\<close>

definition Math_round :: "rat \<Rightarrow> int" where
  "Math_round x = \<lfloor>x + 1 / 2\<rfloor>"

definition computeBackoffDelay :: "nat \<Rightarrow> backoff \<Rightarrow> rat \<Rightarrow> int" where
  "computeBackoffDelay attempt opts random =
     (let exponential = initialDelayMs opts * backoffMultiplier opts ^ attempt;
          capped = min exponential (maxDelayMs opts)
      in if jitter opts \<le> 0 then max 0 (Math_round capped)
         else let jitterFraction = min (max (jitter opts) 0) 1;
                  jittered = capped * (1 - jitterFraction * random)
              in max 0 (Math_round jittered))"

section \<open>The loop\<close>

record 'e retry_info =
  ri_attempt :: nat
  ri_delayMs :: int
  ri_error :: 'e

datatype 'e retry_event = OnRetry "'e retry_info" | Sleep int

record ('s, 'e, 'a) retried =
  world :: 's
  outcome :: "'e + 'a"
  calls :: nat
  events :: "'e retry_event list"

text \<open>\<open>left\<close> is the number of attempts after this one, which is \<open>attempt\<close>.\<close>

primrec retry_loop ::
  "(nat \<Rightarrow> 's \<Rightarrow> 's \<times> ('e + 'a)) \<Rightarrow> ('e \<Rightarrow> nat \<Rightarrow> bool) option \<Rightarrow> backoff \<Rightarrow> (nat \<Rightarrow> rat) \<Rightarrow> nat \<Rightarrow> nat \<Rightarrow> 's \<Rightarrow> ('s, 'e, 'a) retried" where
  "retry_loop fn isRetryable opts random 0 attempt s =
     (let (s', r) = fn attempt s in \<lparr>world = s', outcome = r, calls = 1, events = []\<rparr>)"
| "retry_loop fn isRetryable opts random (Suc left) attempt s =
     (case fn attempt s of
        (s', Inr v) \<Rightarrow> \<lparr>world = s', outcome = Inr v, calls = 1, events = []\<rparr>
      | (s', Inl e) \<Rightarrow>
          if \<not> (case isRetryable of Some p \<Rightarrow> p e attempt | None \<Rightarrow> True)
          then \<lparr>world = s', outcome = Inl e, calls = 1, events = []\<rparr>
          else let delayMs = computeBackoffDelay attempt opts (random attempt);
                   rest = retry_loop fn isRetryable opts random left (Suc attempt) s'
               in rest\<lparr>calls := Suc (calls rest), events := OnRetry \<lparr>ri_attempt = attempt, ri_delayMs = delayMs, ri_error = e\<rparr> # Sleep delayMs # events rest\<rparr>)"

text \<open>Fewer than one attempt is a \<open>RangeError\<close> that names the number.\<close>

definition withRetry ::
  "(nat \<Rightarrow> 's \<Rightarrow> 's \<times> ('e + 'a)) \<Rightarrow> int \<Rightarrow> ('e \<Rightarrow> nat \<Rightarrow> bool) option \<Rightarrow> backoff \<Rightarrow> (nat \<Rightarrow> rat) \<Rightarrow> 's \<Rightarrow> int + ('s, 'e, 'a) retried" where
  "withRetry fn attempts isRetryable opts random s =
     (if attempts < 1 then Inl attempts else Inr (retry_loop fn isRetryable opts random (nat attempts - 1) 0 s))"

definition isTransientHttpError :: "('e \<Rightarrow> int option) \<Rightarrow> 'e \<Rightarrow> bool" where
  "isTransientHttpError statusOf error =
     (case statusOf error of None \<Rightarrow> True | Some status \<Rightarrow> status = 408 \<or> status = 429 \<or> status \<ge> 500)"

section \<open>Delays are bounded\<close>

lemma Math_round_mono: "x \<le> y \<Longrightarrow> Math_round x \<le> Math_round y"
  by (simp add: Math_round_def floor_mono)

lemma Math_round_of_int [simp]: "Math_round (of_int n) = n"
  by (simp add: Math_round_def floor_eq_iff)

lemma backoff_upper:
  assumes "0 \<le> initialDelayMs opts" "0 \<le> backoffMultiplier opts" "0 \<le> maxDelayMs opts" "0 \<le> random" "random \<le> 1"
  shows "computeBackoffDelay attempt opts random \<le> Math_round (maxDelayMs opts)"
proof -
  let ?c = "min (initialDelayMs opts * backoffMultiplier opts ^ attempt) (maxDelayMs opts)"
  let ?f = "min (max (jitter opts) 0) 1"
  have c: "0 \<le> ?c" "?c \<le> maxDelayMs opts" using assms by simp_all
  have z: "0 \<le> Math_round (maxDelayMs opts)" using Math_round_mono [of 0 "maxDelayMs opts"] assms(3) by (simp add: Math_round_def)
  have "0 \<le> ?f * random" "?f * random \<le> 1" using assms(4,5) by (auto intro: mult_le_one)
  then have "?c * (1 - ?f * random) \<le> ?c * 1" using c(1) by (intro mult_left_mono) simp_all
  then have "?c * (1 - ?f * random) \<le> maxDelayMs opts" using c(2) by simp
  then show ?thesis using z c(2) by (simp add: computeBackoffDelay_def Let_def Math_round_mono)
qed

section \<open>What the loop does\<close>

text \<open>The state after \<open>j\<close> attempts from \<open>a\<close> on, and the result of the next.\<close>

primrec state_from :: "(nat \<Rightarrow> 's \<Rightarrow> 's \<times> ('e + 'a)) \<Rightarrow> nat \<Rightarrow> 's \<Rightarrow> nat \<Rightarrow> 's" where
  "state_from fn a s 0 = s"
| "state_from fn a s (Suc j) = fst (fn (a + j) (state_from fn a s j))"

definition result_from :: "(nat \<Rightarrow> 's \<Rightarrow> 's \<times> ('e + 'a)) \<Rightarrow> nat \<Rightarrow> 's \<Rightarrow> nat \<Rightarrow> 'e + 'a" where
  "result_from fn a s j = snd (fn (a + j) (state_from fn a s j))"

definition retryable :: "('e \<Rightarrow> nat \<Rightarrow> bool) option \<Rightarrow> 'e + 'a \<Rightarrow> nat \<Rightarrow> bool" where
  "retryable isRetryable r j = (case r of Inr _ \<Rightarrow> False | Inl e \<Rightarrow> (case isRetryable of Some p \<Rightarrow> p e j | None \<Rightarrow> True))"

text \<open>The wait after attempt \<open>j\<close>.\<close>

definition wait_events :: "(nat \<Rightarrow> 's \<Rightarrow> 's \<times> ('e + 'a)) \<Rightarrow> backoff \<Rightarrow> (nat \<Rightarrow> rat) \<Rightarrow> nat \<Rightarrow> 's \<Rightarrow> nat \<Rightarrow> 'e retry_event list" where
  "wait_events fn opts random a s j =
     (let d = computeBackoffDelay (a + j) opts (random (a + j))
      in [OnRetry \<lparr>ri_attempt = a + j, ri_delayMs = d, ri_error = projl (result_from fn a s j)\<rparr>, Sleep d])"

lemma state_from_shift: "state_from fn a s (Suc j) = state_from fn (Suc a) (fst (fn a s)) j"
  by (induction j) simp_all

lemma result_from_shift: "result_from fn a s (Suc j) = result_from fn (Suc a) (fst (fn a s)) j"
  unfolding result_from_def state_from_shift by simp

lemma wait_events_shift: "wait_events fn opts random a s (Suc j) = wait_events fn opts random (Suc a) (fst (fn a s)) j"
  unfolding wait_events_def result_from_shift by simp

definition loop_ran :: "(nat \<Rightarrow> 's \<Rightarrow> 's \<times> ('e + 'a)) \<Rightarrow> ('e \<Rightarrow> nat \<Rightarrow> bool) option \<Rightarrow> backoff \<Rightarrow> (nat \<Rightarrow> rat) \<Rightarrow> nat \<Rightarrow> nat \<Rightarrow> 's \<Rightarrow> nat \<Rightarrow> ('s, 'e, 'a) retried \<Rightarrow> bool" where
  "loop_ran fn p opts random left a s k r \<longleftrightarrow>
     k \<le> left \<and> calls r = Suc k \<and> world r = state_from fn a s (Suc k) \<and> outcome r = result_from fn a s k \<and>
     (\<forall>j<k. retryable p (result_from fn a s j) (a + j)) \<and> (k = left \<or> \<not> retryable p (result_from fn a s k) (a + k)) \<and>
     events r = concat (map (wait_events fn opts random a s) [0..<k])"

lemma upt_Suc_map: "concat (map f [0..<Suc k]) = f 0 @ concat (map (\<lambda>j. f (Suc j)) [0..<k])"
  by (simp add: upt_conv_Cons map_Suc_upt [symmetric] comp_def del: upt_Suc)

lemma retry_loop_ran: "\<exists>k. loop_ran fn p opts random left a s k (retry_loop fn p opts random left a s)"
proof (induction left arbitrary: a s)
  case 0
  show ?case by (rule exI [of _ 0]) (simp add: loop_ran_def result_from_def case_prod_beta)
next
  case (Suc left)
  show ?case
  proof (cases "retryable p (result_from fn a s 0) a")
    case False
    then show ?thesis
      by (intro exI [of _ 0]) (auto simp: loop_ran_def result_from_def retryable_def split: prod.splits sum.splits option.splits)
  next
    case True
    then obtain s' e where e: "fn a s = (s', Inl e)" "case p of Some q \<Rightarrow> q e a | None \<Rightarrow> True"
      by (auto simp: retryable_def result_from_def split: sum.splits) (metis prod.collapse)+
    let ?rest = "retry_loop fn p opts random left (Suc a) s'"
    obtain k where k: "loop_ran fn p opts random left (Suc a) s' k ?rest" using Suc.IH by blast
    have loop: "retry_loop fn p opts random (Suc left) a s =
      ?rest\<lparr>calls := Suc (calls ?rest), events := wait_events fn opts random a s 0 @ events ?rest\<rparr>"
      using e by (simp add: Let_def wait_events_def result_from_def)
    have "loop_ran fn p opts random (Suc left) a s (Suc k) (retry_loop fn p opts random (Suc left) a s)"
      unfolding loop loop_ran_def upt_Suc_map All_less_Suc2
      using k True e(1) unfolding loop_ran_def
      by (simp add: result_from_shift wait_events_shift [abs_def] state_from_shift del: state_from.simps(2))
    then show ?thesis ..
  qed
qed

text \<open>C40. With at least one attempt the call returns: after some attempt \<open>k\<close> below the number of attempts, with that attempt's
  result and state, when every earlier attempt failed with an error worth a retry, and attempt \<open>k\<close> succeeded, failed for
  good or was the last one.\<close>

theorem withRetry_result:
  assumes "attempts \<ge> 1"
  shows "\<exists>r k. withRetry fn attempts p opts random s = Inr r \<and> k < nat attempts \<and> calls r = Suc k \<and>
    world r = state_from fn 0 s (Suc k) \<and> outcome r = result_from fn 0 s k \<and>
    (\<forall>j<k. retryable p (result_from fn 0 s j) j) \<and> (Suc k = nat attempts \<or> \<not> retryable p (result_from fn 0 s k) k)"
proof -
  obtain k where "loop_ran fn p opts random (nat attempts - 1) 0 s k (retry_loop fn p opts random (nat attempts - 1) 0 s)"
    by (rule exE [OF retry_loop_ran])
  then show ?thesis
    using assms by (intro exI [of _ "retry_loop fn p opts random (nat attempts - 1) 0 s"] exI [of _ k]) (auto simp: loop_ran_def withRetry_def)
qed

definition flaky :: "nat \<Rightarrow> nat \<Rightarrow> nat \<times> (int + string)" where
  "flaky attempt s = (s + 1, if attempt < 2 then Inl 503 else Inr ''done'')"

theorem withRetry_result_witness:
  "\<exists>r k. withRetry flaky 3 (Some (\<lambda>e _. isTransientHttpError Some e)) DEFAULT_BACKOFF (\<lambda>_. 0) 0 = Inr r \<and>
     calls r = 3 \<and> outcome r = Inr ''done'' \<and> outcome r = result_from flaky 0 0 k \<and> k = 2"
proof -
  have r: "withRetry flaky 3 (Some (\<lambda>e _. isTransientHttpError Some e)) DEFAULT_BACKOFF (\<lambda>_. 0) 0 =
     Inr \<lparr>world = 3, outcome = Inr ''done'', calls = 3,
          events = [OnRetry \<lparr>ri_attempt = 0, ri_delayMs = 100, ri_error = 503\<rparr>, Sleep 100, OnRetry \<lparr>ri_attempt = 1, ri_delayMs = 200, ri_error = 503\<rparr>, Sleep 200]\<rparr>"
    by code_simp
  show ?thesis
    using withRetry_result [of 3 flaky "Some (\<lambda>e _. isTransientHttpError Some e)" DEFAULT_BACKOFF "\<lambda>_. 0" 0]
    unfolding r by auto
qed

lemma sleeps_of_run:
  assumes "loop_ran fn p opts random left 0 s k r" and "Sleep d \<in> set (events r)"
  obtains j where "j < k" "d = computeBackoffDelay j opts (random j)"
  using assms by (auto simp: loop_ran_def wait_events_def Let_def)

text \<open>No wait is negative or longer than the maximum, whatever the jitter, and there are fewer waits than attempts.\<close>

theorem withRetry_waits_bounded:
  assumes "withRetry fn attempts p opts random s = Inr r"
    and "0 \<le> initialDelayMs opts" "0 \<le> backoffMultiplier opts" "0 \<le> maxDelayMs opts" "\<And>j. 0 \<le> random j \<and> random j \<le> 1"
  shows "(\<forall>d. Sleep d \<in> set (events r) \<longrightarrow> 0 \<le> d \<and> d \<le> Math_round (maxDelayMs opts)) \<and>
    length (events r) = 2 * (calls r - 1) \<and> calls r \<le> nat attempts"
proof -
  have r: "r = retry_loop fn p opts random (nat attempts - 1) 0 s" using assms(1) by (simp add: withRetry_def split: if_splits)
  obtain k where k: "loop_ran fn p opts random (nat attempts - 1) 0 s k r" unfolding r by (rule exE [OF retry_loop_ran])
  have a: "attempts \<ge> 1" using assms(1) by (auto simp: withRetry_def split: if_splits)
  have "0 \<le> d \<and> d \<le> Math_round (maxDelayMs opts)" if sl: "Sleep d \<in> set (events r)" for d
  proof -
    obtain j where j: "d = computeBackoffDelay j opts (random j)" using sleeps_of_run [OF k sl] by blast
    moreover have "0 \<le> d" unfolding j by (simp add: computeBackoffDelay_def Let_def)
    ultimately show ?thesis using backoff_upper assms(2-5) by simp
  qed
  moreover have "length (events r) = 2 * k"
    using k by (simp add: loop_ran_def length_concat wait_events_def Let_def comp_def sum_list_triv)
  ultimately show ?thesis using k a by (auto simp: loop_ran_def)
qed

theorem withRetry_waits_bounded_witness:
  "\<exists>r. withRetry flaky 3 None DEFAULT_BACKOFF (\<lambda>_. 1 / 2) 0 = Inr r \<and> length (events r) = 2 * (calls r - 1) \<and>
     (\<forall>d. Sleep d \<in> set (events r) \<longrightarrow> 0 \<le> d \<and> d \<le> 5000)"
proof -
  obtain r where r: "withRetry flaky 3 None DEFAULT_BACKOFF (\<lambda>_. 1 / 2) 0 = Inr r" by (auto simp: withRetry_def)
  then show ?thesis
    using withRetry_waits_bounded [OF r] Math_round_of_int [of 5000] by (auto simp: DEFAULT_BACKOFF_def)
qed

text \<open>\<open>onRetry\<close> is called before the wait it announces, not after it: the documentation of the option says that the delay
  has already elapsed.\<close>

theorem notified_before_sleep:
  "\<exists>infos. events (retry_loop fn p opts random left a s) = concat (map (\<lambda>i. [OnRetry i, Sleep (ri_delayMs i)]) infos)"
proof -
  obtain k where "loop_ran fn p opts random left a s k (retry_loop fn p opts random left a s)" by (rule exE [OF retry_loop_ran])
  then have *: "events (retry_loop fn p opts random left a s) = concat (map (wait_events fn opts random a s) [0..<k])" by (simp add: loop_ran_def)
  let ?i = "\<lambda>j. \<lparr>ri_attempt = a + j, ri_delayMs = computeBackoffDelay (a + j) opts (random (a + j)), ri_error = projl (result_from fn a s j)\<rparr>"
  show ?thesis unfolding * by (rule exI [of _ "map ?i [0..<k]"]) (simp add: wait_events_def [abs_def] Let_def comp_def)
qed

text \<open>A request that the server understood and refused is not repeated.\<close>

theorem refusal_not_repeated:
  assumes "fn 0 s = (s', Inl e)" and "statusOf e = Some status" and "400 \<le> status" "status < 500" "status \<noteq> 408" "status \<noteq> 429"
    and "attempts \<ge> 1"
  shows "withRetry fn attempts (Some (\<lambda>e _. isTransientHttpError statusOf e)) opts random s =
    Inr \<lparr>world = s', outcome = Inl e, calls = 1, events = []\<rparr>"
proof (cases "nat attempts - 1")
  case 0
  then show ?thesis using assms by (simp add: withRetry_def)
next
  case (Suc n)
  then show ?thesis using assms by (simp add: withRetry_def isTransientHttpError_def)
qed

end
