(* ===== verification/Sdk_Format.thy ===== *)
theory Sdk_Format
  imports Js_Values Errors
begin

text \<open>
  Amounts and dates as the clients show them, \<open>packages/sdk/src/utils.ts\<close>. The locale dependent printing of the
  platform (\<open>toLocaleString\<close>, \<open>toLocaleDateString\<close>, \<open>Intl.RelativeTimeFormat\<close>) is an argument; times are milliseconds.
\<close>

section \<open>Amounts\<close>

record FormatAmountOptions =
  fa_decimals :: nat
  fa_symbol :: string
  fa_showSymbol :: bool

text \<open>The amount after \<open>parseFloat\<close>, \<open>None\<close> when it is not a number.\<close>

definition formatAmount :: "(nat \<Rightarrow> rat \<Rightarrow> string) \<Rightarrow> rat option \<Rightarrow> FormatAmountOptions \<Rightarrow> string" where
  "formatAmount toLocale amount opts =
     (case amount of
        None \<Rightarrow> if fa_showSymbol opts then ''0 '' @ fa_symbol opts else ''0''
      | Some num \<Rightarrow>
          let formatted = toLocale (fa_decimals opts) num
          in if fa_showSymbol opts then formatted @ '' '' @ fa_symbol opts else formatted)"

definition formatStroops :: "(nat \<Rightarrow> rat \<Rightarrow> string) \<Rightarrow> int \<Rightarrow> FormatAmountOptions \<Rightarrow> string" where
  "formatStroops toLocale stroops opts = formatAmount toLocale (Some (of_int stroops / 10000000)) opts"

section \<open>Dates\<close>

datatype date_mode = Relative | Absolute

record platform =
  rtf :: "int \<Rightarrow> string \<Rightarrow> string"
  long_date :: "int \<Rightarrow> string"
  short_date :: "int \<Rightarrow> string"

definition countdown :: "int \<Rightarrow> string" where
  "countdown s =
     (let days = s div 86400; hours = s mod 86400 div 3600; minutes = s mod 3600 div 60
      in if days > 0 then string_of_int days @ ''d '' @ string_of_int hours @ ''h''
         else if hours > 0 then string_of_int hours @ ''h '' @ string_of_int minutes @ ''m''
         else string_of_int minutes @ ''m'')"

definition formatDate :: "platform \<Rightarrow> int \<Rightarrow> int option \<Rightarrow> date_mode \<Rightarrow> thrown + string" where
  "formatDate pf now input mode =
     (case input of
        None \<Rightarrow> Inl (PlainError ''Invalid date input'')
      | Some date \<Rightarrow>
          if mode = Absolute then Inr (long_date pf date)
          else
            let diffMs = now - date; diffSeconds = \<bar>diffMs\<bar> div 1000
            in if diffMs < 0 \<and> diffSeconds < 7 * 24 * 60 * 60 then Inr (countdown diffSeconds)
               else if diffSeconds < 60 then Inr (rtf pf (- diffSeconds) ''second'')
               else if diffSeconds < 3600 then Inr (rtf pf (- (diffSeconds div 60)) ''minute'')
               else if diffSeconds < 86400 then Inr (rtf pf (- (diffSeconds div 3600)) ''hour'')
               else if diffSeconds < 30 * 86400 then Inr (rtf pf (- (diffSeconds div 86400)) ''day'')
               else if diffSeconds < 365 * 86400 then Inr (rtf pf (- (diffSeconds div (30 * 86400))) ''month'')
               else Inr (short_date pf date))"

text \<open>\<open>n units ago\<close>\<close>

definition ago :: "int \<Rightarrow> string \<Rightarrow> string" where
  "ago n u = string_of_int n @ '' '' @ u @ (if n \<noteq> 1 then ''s'' else []) @ '' ago''"

definition distance_parts :: "int \<Rightarrow> (int \<times> string) option" where
  "distance_parts diffSeconds =
     (if diffSeconds < 5 then None
      else if diffSeconds < 60 then Some (diffSeconds, ''second'')
      else
        let mins = diffSeconds div 60
        in if mins < 60 then Some (mins, ''minute'')
           else
             let hours = mins div 60
             in if hours < 24 then Some (hours, ''hour'')
                else
                  let days = hours div 24
                  in if days < 30 then Some (days, ''day'')
                     else
                       let months = days div 30
                       in if months < 12 then Some (months, ''month'') else Some (months div 12, ''year''))"

definition formatDistanceToNow :: "int \<Rightarrow> int \<Rightarrow> string" where
  "formatDistanceToNow now past =
     (case distance_parts ((now - past) div 1000) of None \<Rightarrow> ''just now'' | Some (n, u) \<Rightarrow> ago n u)"

section \<open>Theorems\<close>

text \<open>The length of a unit as the function counts it: months have 30 days, years 12 such months.\<close>

definition unit_seconds :: "string \<Rightarrow> int" where
  "unit_seconds u =
     (if u = ''second'' then 1 else if u = ''minute'' then 60 else if u = ''hour'' then 3600 else if u = ''day'' then 86400
      else if u = ''month'' then 30 * 86400 else 360 * 86400)"

lemma distance_parts_alt:
  "distance_parts d =
     (if d < 5 then None else if d < 60 then Some (d, ''second'') else if d div 60 < 60 then Some (d div 60, ''minute'')
      else if d div 3600 < 24 then Some (d div 3600, ''hour'') else if d div 86400 < 30 then Some (d div 86400, ''day'')
      else if d div (30 * 86400) < 12 then Some (d div (30 * 86400), ''month'') else Some (d div (360 * 86400), ''year''))"
proof -
  have "d div 60 div 60 = d div 3600" "d div 3600 div 24 = d div 86400" "d div 86400 div 30 = d div (30 * 86400)"
    "d div (30 * 86400) div 12 = d div (360 * 86400)"
    by (simp_all flip: zdiv_zmult2_eq)
  then show ?thesis unfolding distance_parts_def Let_def by (simp only:)
qed

lemma div_bracket: "0 < k \<Longrightarrow> d div k * k \<le> d \<and> d < (d div k + 1) * (k :: int)"
  by (metis add.commute add_less_cancel_left distrib_right minus_mod_eq_div_mult diff_add_cancel mult_1 pos_mod_bound pos_mod_sign
      le_add_same_cancel1 add_le_cancel_left)

text \<open>What is shown brackets the elapsed time: \<open>n\<close> units have passed and \<open>n + 1\<close> have not, and \<open>n\<close> is at least one.\<close>

theorem distance_brackets:
  "case distance_parts d of
     None \<Rightarrow> d < 5
   | Some (n, u) \<Rightarrow> n \<ge> 1 \<and> n * unit_seconds u \<le> d \<and> d < (n + 1) * unit_seconds u"
  unfolding distance_parts_alt
  using div_bracket [of 60 d] div_bracket [of 3600 d] div_bracket [of 86400 d] div_bracket [of "30 * 86400" d] div_bracket [of "360 * 86400" d]
  by (simp split: if_split add: unit_seconds_def)

text \<open>A date in the future is shown as \<open>just now\<close>.\<close>

theorem future_is_just_now:
  assumes "past > now - 5000"
  shows "formatDistanceToNow now past = ''just now''"
proof -
  have "(now - past) div 1000 < 5" using assms by linarith
  then show ?thesis by (simp add: formatDistanceToNow_def distance_parts_def)
qed

text \<open>A date more than a week ahead is shown as the date equally far in the past: the sign of the distance is lost.\<close>

theorem far_future_reads_as_past:
  assumes "date \<ge> now + 7 * 86400 * 1000" and "date < now + 365 * 86400 * 1000"
  shows "formatDate pf now (Some date) Relative = formatDate pf now (Some (now - (date - now))) Relative"
proof -
  have "\<not> (date - now) div 1000 < 604800" "(date - now) div 1000 < 31536000" using assms by linarith+
  then show ?thesis using assms by (simp add: formatDate_def Let_def abs_if)
qed

theorem far_future_reads_as_past_witness:
  "formatDate \<lparr>rtf = \<lambda>n u. ago (- n) u, long_date = \<lambda>_. [], short_date = \<lambda>_. []\<rparr> 0 (Some (8 * 86400 * 1000)) Relative = Inr ''8 days ago''"
proof -
  let ?pf = "\<lparr>rtf = \<lambda>n u. ago (- n) u, long_date = \<lambda>_. [], short_date = \<lambda>_. []\<rparr>"
  have "formatDate ?pf 0 (Some (0 - (8 * 86400 * 1000 - 0))) Relative = Inr ''8 days ago''" by code_simp
  moreover have "formatDate ?pf 0 (Some (8 * 86400 * 1000)) Relative = formatDate ?pf 0 (Some (0 - (8 * 86400 * 1000 - 0))) Relative"
    by (rule far_future_reads_as_past) simp_all
  ultimately show ?thesis by (rule trans [rotated])
qed

end
