(* ===== verification/Savings_Math.thy ===== *)
theory Savings_Math
  imports Js_Values Errors Retry Sdk_Format
begin

text \<open>
  Interest and cycle progress as the web client computes them, \<open>frontend/src/utils/interestCalculations.ts\<close> and
  \<open>frontend/src/utils/cycleProgress.ts\<close>, over exact rationals. A date is its time in milliseconds.
\<close>

section \<open>Interest\<close>

datatype DayCountConvention = Actual365 | Actual360 | ActualActual

record YieldParams =
  yp_principal :: rat
  yp_annualRate :: rat
  yp_startDate :: int
  yp_endDate :: int
  yp_dayCount :: DayCountConvention
  yp_decimalPlaces :: "nat option"

record YieldResult =
  yr_accruedInterest :: rat
  yr_endBalance :: rat
  yr_days :: int
  yr_fractionalYear :: rat
  yr_yearBasis :: int

text \<open>\<open>Math.trunc\<close> of a quotient: towards zero.\<close>

definition trunc_div :: "int \<Rightarrow> int \<Rightarrow> int" where
  "trunc_div a b = (if a < 0 then - ((- a) div b) else a div b)"

definition daysBetween :: "int \<Rightarrow> int \<Rightarrow> int" where
  "daysBetween start finish = trunc_div (finish - start) MS_PER_DAY"

definition isLeapYear :: "int \<Rightarrow> bool" where
  "isLeapYear year \<longleftrightarrow> (year mod 4 = 0 \<and> year mod 100 \<noteq> 0) \<or> year mod 400 = 0"

definition getUTCFullYear :: "int \<Rightarrow> int" where
  "getUTCFullYear t = fst (civil_from_days (t div MS_PER_DAY))"

definition feb29 :: "int \<Rightarrow> int" where
  "feb29 y = days_from_civil y 2 29 * MS_PER_DAY"

definition periodContainsLeapDay :: "int \<Rightarrow> int \<Rightarrow> bool" where
  "periodContainsLeapDay start finish =
     list_ex (\<lambda>y. isLeapYear y \<and> feb29 y \<ge> start \<and> feb29 y < finish) [getUTCFullYear start..getUTCFullYear finish]"

definition resolveYearBasis :: "DayCountConvention \<Rightarrow> int \<Rightarrow> int \<Rightarrow> int" where
  "resolveYearBasis convention start finish =
     (case convention of
        Actual360 \<Rightarrow> 360
      | ActualActual \<Rightarrow> if periodContainsLeapDay start finish then 366 else 365
      | Actual365 \<Rightarrow> 365)"

definition roundHalfAwayFromZero :: "rat \<Rightarrow> nat \<Rightarrow> rat" where
  "roundHalfAwayFromZero v places =
     (let factor = 10 ^ places in (if v = 0 then 1 else sgn v) * of_int (Math_round (\<bar>v\<bar> * factor)) / factor)"

datatype yield_error = Negative_principal | Negative_rate | Negative_period int

definition calculateYield :: "YieldParams \<Rightarrow> yield_error + YieldResult" where
  "calculateYield p =
     (if yp_principal p < 0 then Inl Negative_principal
      else if yp_annualRate p < 0 then Inl Negative_rate
      else
        let days = daysBetween (yp_startDate p) (yp_endDate p)
        in if days < 0 then Inl (Negative_period days)
           else
             let yearBasis = resolveYearBasis (yp_dayCount p) (yp_startDate p) (yp_endDate p);
                 fractionalYear = of_int days / of_int yearBasis;
                 rawInterest = yp_principal p * yp_annualRate p * fractionalYear;
                 rnd = (\<lambda>v. case yp_decimalPlaces p of Some n \<Rightarrow> roundHalfAwayFromZero v n | None \<Rightarrow> v)
             in Inr \<lparr>yr_accruedInterest = rnd rawInterest, yr_endBalance = rnd (yp_principal p + rawInterest), yr_days = days,
                     yr_fractionalYear = fractionalYear, yr_yearBasis = yearBasis\<rparr>)"

section \<open>Cycle progress\<close>

record CycleProgressResult =
  timeProgress :: rat
  contributionProgress :: rat
  overallProgress :: rat
  isComplete :: bool
  isOverdue :: bool
  timeRemaining :: "string option"
  elapsedSeconds :: int

definition clamp100 :: "rat \<Rightarrow> rat" where
  "clamp100 x = min 100 (max 0 x)"

definition calculateCycleProgress :: "int option \<Rightarrow> int \<Rightarrow> int \<Rightarrow> int \<Rightarrow> int \<Rightarrow> thrown + CycleProgressResult" where
  "calculateCycleProgress cycleStart cycleDurationSeconds contributedCount totalMembers now =
     (case cycleStart of
        None \<Rightarrow>
          if cycleDurationSeconds \<le> 0 then Inl (PlainError ''Cycle duration must be greater than 0'')
          else if totalMembers \<le> 0 then Inl (PlainError ''Total members must be greater than 0'')
          else Inr \<lparr>timeProgress = 0, contributionProgress = clamp100 (of_int contributedCount / of_int totalMembers * 100), overallProgress = 0,
                    isComplete = False, isOverdue = False, timeRemaining = None, elapsedSeconds = 0\<rparr>
      | Some start \<Rightarrow>
          let elapsed = max 0 (now - start) div 1000
          in if cycleDurationSeconds \<le> 0 then Inl (PlainError ''Cycle duration must be greater than 0'')
             else if totalMembers \<le> 0 then Inl (PlainError ''Total members must be greater than 0'')
             else
               let tp = clamp100 (of_int elapsed / of_int cycleDurationSeconds * 100);
                   cp = clamp100 (of_int contributedCount / of_int totalMembers * 100);
                   op = min tp cp;
                   overdue = (elapsed > cycleDurationSeconds)
               in Inr \<lparr>timeProgress = tp, contributionProgress = cp, overallProgress = op, isComplete = (op = 100), isOverdue = overdue,
                       timeRemaining = (if \<not> overdue then Some (countdown (cycleDurationSeconds - elapsed)) else None),
                       elapsedSeconds = elapsed\<rparr>)"

definition calculateCycleProgressFromDeadline :: "int \<Rightarrow> int \<Rightarrow> int \<Rightarrow> int \<Rightarrow> thrown + CycleProgressResult" where
  "calculateCycleProgressFromDeadline deadline contributedCount totalMembers now =
     calculateCycleProgress (Some (deadline - 30 * 24 * 60 * 60 * 1000)) (30 * 24 * 60 * 60) contributedCount totalMembers now"

section \<open>Rounding\<close>

lemma Math_round_error: "\<bar>of_int (Math_round x) - x\<bar> \<le> 1 / 2"
  using floor_correct [of "x + 1 / 2"] unfolding Math_round_def abs_le_iff by linarith

lemma round_alt: "roundHalfAwayFromZero v n = (if v < 0 then - 1 else 1) * of_int (Math_round (\<bar>v\<bar> * 10 ^ n)) / 10 ^ n"
  by (simp add: roundHalfAwayFromZero_def sgn_if Let_def)

text \<open>Rounding is off by at most half a unit of the last place.\<close>

lemma rounding_half: "\<bar>roundHalfAwayFromZero v n - v\<bar> \<le> 1 / (2 * 10 ^ n)"
proof -
  let ?f = "10 ^ n :: rat"
  have f: "?f > 0" by simp
  have e: "\<bar>of_int (Math_round (\<bar>v\<bar> * ?f)) - \<bar>v\<bar> * ?f\<bar> \<le> 1 / 2" by (rule Math_round_error)
  have "roundHalfAwayFromZero v n - v = (if v < 0 then - 1 else 1) * (of_int (Math_round (\<bar>v\<bar> * ?f)) - \<bar>v\<bar> * ?f) / ?f"
    by (simp add: round_alt field_simps)
  then have "\<bar>roundHalfAwayFromZero v n - v\<bar> = \<bar>of_int (Math_round (\<bar>v\<bar> * ?f)) - \<bar>v\<bar> * ?f\<bar> / ?f"
    by (simp add: abs_mult)
  also have "\<dots> \<le> (1 / 2) / ?f" using e f by (intro divide_right_mono) simp_all
  finally show ?thesis by simp
qed

lemma Math_round_add_int: "Math_round (of_int k + x) = k + Math_round x"
  by (simp add: Math_round_def add.assoc)

lemma round_of_nonneg: "0 \<le> v \<Longrightarrow> roundHalfAwayFromZero v n = of_int (Math_round (v * 10 ^ n)) / 10 ^ n"
  by (simp add: round_alt)

lemma round_nonneg: "0 \<le> v \<Longrightarrow> 0 \<le> roundHalfAwayFromZero v n"
  using Math_round_mono [of 0 "v * 10 ^ n"] Math_round_of_int [of 0] by (simp add: round_alt)

lemma days_in_year_basis: "resolveYearBasis c s f \<in> {360, 365, 366}"
  by (simp add: resolveYearBasis_def split: DayCountConvention.split)

section \<open>Yields\<close>

text \<open>With a principal that has no more decimals than asked for, the two rounded figures agree: the end balance is the principal
  plus the accrued interest, and the interest is within half a unit of the exact one.\<close>

theorem balances_add_up:
  assumes "calculateYield p = Inr r" and "yp_decimalPlaces p = Some n" and "yp_principal p * 10 ^ n = of_int k"
  shows "yr_endBalance r = yp_principal p + yr_accruedInterest r \<and> 0 \<le> yr_accruedInterest r \<and>
    \<bar>yr_accruedInterest r - yp_principal p * yp_annualRate p * (of_int (yr_days r) / of_int (yr_yearBasis r))\<bar> \<le> 1 / (2 * 10 ^ n)"
proof -
  let ?raw = "yp_principal p * yp_annualRate p * (of_int (yr_days r) / of_int (yr_yearBasis r))"
  have r: "yr_accruedInterest r = roundHalfAwayFromZero ?raw n" "yr_endBalance r = roundHalfAwayFromZero (yp_principal p + ?raw) n"
    "0 \<le> yp_principal p" "0 \<le> yp_annualRate p" "0 \<le> yr_days r" "yr_yearBasis r \<in> {360, 365, 366}"
    using assms(1,2) days_in_year_basis [of "yp_dayCount p" "yp_startDate p" "yp_endDate p"]
    by (auto simp: calculateYield_def Let_def split: if_splits)
  have "0 \<le> yr_yearBasis r" using r(6) by auto
  then have raw: "0 \<le> ?raw" using r by (intro mult_nonneg_nonneg divide_nonneg_nonneg) simp_all
  have "roundHalfAwayFromZero (yp_principal p + ?raw) n = of_int (Math_round (of_int k + ?raw * 10 ^ n)) / 10 ^ n"
    using raw r(3) assms(3) by (simp add: round_alt distrib_right)
  also have "\<dots> = (of_int k + of_int (Math_round (?raw * 10 ^ n))) / 10 ^ n" by (simp add: Math_round_add_int)
  also have "\<dots> = of_int k / 10 ^ n + of_int (Math_round (?raw * 10 ^ n)) / 10 ^ n" by (rule add_divide_distrib)
  also have "of_int k / 10 ^ n = yp_principal p" by (simp flip: assms(3))
  also have "of_int (Math_round (?raw * 10 ^ n)) / 10 ^ n = roundHalfAwayFromZero ?raw n" by (rule round_of_nonneg [OF raw, symmetric])
  finally have "yr_endBalance r = yp_principal p + yr_accruedInterest r" by (simp only: r)
  then show ?thesis using round_nonneg [OF raw, of n] rounding_half [of ?raw n] r(1) by simp
qed

text \<open>The function rejects negative amounts, and a period only if it runs backwards by a full day: an end up to a day before the
  start is accepted, as a period of no days.\<close>

theorem yield_rejected_iff:
  "(\<exists>e. calculateYield p = Inl e) \<longleftrightarrow>
     yp_principal p < 0 \<or> yp_annualRate p < 0 \<or> yp_endDate p + MS_PER_DAY \<le> yp_startDate p"
proof -
  have "daysBetween s f < 0 \<longleftrightarrow> f + MS_PER_DAY \<le> s" for s f
    by (auto simp: daysBetween_def trunc_div_def MS_PER_DAY_def)
  then show ?thesis by (auto simp: calculateYield_def Let_def)
qed

section \<open>Progress\<close>

lemma clamp100_bounds [simp]: "0 \<le> clamp100 x" "clamp100 x \<le> 100" by (simp_all add: clamp100_def)

lemma clamp100_full: "0 < d \<Longrightarrow> clamp100 (of_int a / of_int d * 100) = 100 \<longleftrightarrow> d \<le> a"
  by (auto simp: clamp100_def min_def max_def field_simps)

text \<open>The figures of a started cycle.\<close>

lemma started_cycle:
  assumes "calculateCycleProgress (Some start) duration contributed members now = Inr r"
  shows "0 < duration" "0 < members"
    and "timeProgress r = clamp100 (of_int (max 0 (now - start) div 1000) / of_int duration * 100)"
    and "contributionProgress r = clamp100 (of_int contributed / of_int members * 100)"
    and "overallProgress r = min (timeProgress r) (contributionProgress r)"
    and "isComplete r \<longleftrightarrow> overallProgress r = 100"
    and "isOverdue r \<longleftrightarrow> max 0 (now - start) div 1000 > duration"
    and "timeRemaining r = None \<longleftrightarrow> isOverdue r"
proof -
  have pos: "\<not> duration \<le> 0" "\<not> members \<le> 0"
    using assms by (cases "duration \<le> 0"; cases "members \<le> 0"; simp add: calculateCycleProgress_def Let_def)+
  then show "0 < duration" "0 < members" by simp_all
  have r: "r = \<lparr>timeProgress = clamp100 (of_int (max 0 (now - start) div 1000) / of_int duration * 100),
     contributionProgress = clamp100 (of_int contributed / of_int members * 100),
     overallProgress = min (clamp100 (of_int (max 0 (now - start) div 1000) / of_int duration * 100)) (clamp100 (of_int contributed / of_int members * 100)),
     isComplete = (min (clamp100 (of_int (max 0 (now - start) div 1000) / of_int duration * 100)) (clamp100 (of_int contributed / of_int members * 100)) = 100),
     isOverdue = (max 0 (now - start) div 1000 > duration),
     timeRemaining = (if \<not> max 0 (now - start) div 1000 > duration then Some (countdown (duration - max 0 (now - start) div 1000)) else None),
     elapsedSeconds = max 0 (now - start) div 1000\<rparr>"
    using assms pos unfolding calculateCycleProgress_def Let_def by (simp only: option.case if_False sum.inject)
  show "timeProgress r = clamp100 (of_int (max 0 (now - start) div 1000) / of_int duration * 100)"
    "contributionProgress r = clamp100 (of_int contributed / of_int members * 100)"
    "overallProgress r = min (timeProgress r) (contributionProgress r)"
    "isComplete r \<longleftrightarrow> overallProgress r = 100" "isOverdue r \<longleftrightarrow> max 0 (now - start) div 1000 > duration"
    unfolding r by (simp_all only: CycleProgressResult.simps)
  show "timeRemaining r = None \<longleftrightarrow> isOverdue r" unfolding r by (simp add: CycleProgressResult.simps)
qed

lemma min_is_100: "a \<le> 100 \<Longrightarrow> b \<le> 100 \<Longrightarrow> min a b = 100 \<longleftrightarrow> a = 100 \<and> b = (100 :: rat)"
  by (auto simp: min_def)

text \<open>All percentages lie between 0 and 100. A started cycle is complete when its time is up and every member has contributed,
  and the text of the remaining time is missing exactly when it is overdue.\<close>

theorem cycle_progress_correct:
  assumes "calculateCycleProgress (Some start) duration contributed members now = Inr r"
  shows "0 \<le> timeProgress r \<and> timeProgress r \<le> 100 \<and> 0 \<le> contributionProgress r \<and> contributionProgress r \<le> 100 \<and>
    overallProgress r = min (timeProgress r) (contributionProgress r) \<and>
    (isComplete r \<longleftrightarrow> now - start \<ge> duration * 1000 \<and> members \<le> contributed) \<and>
    (isOverdue r \<longleftrightarrow> now - start \<ge> (duration + 1) * 1000) \<and> (timeRemaining r = None \<longleftrightarrow> isOverdue r)"
proof -
  note s = started_cycle [OF assms]
  have e: "duration \<le> max 0 (now - start) div 1000 \<longleftrightarrow> now - start \<ge> duration * 1000"
    "duration < max 0 (now - start) div 1000 \<longleftrightarrow> now - start \<ge> (duration + 1) * 1000"
    using s(1) by (auto simp: max_def)
  have b: "0 \<le> timeProgress r" "timeProgress r \<le> 100" "0 \<le> contributionProgress r" "contributionProgress r \<le> 100"
    unfolding s(3,4) by (rule clamp100_bounds)+
  have "isComplete r \<longleftrightarrow> timeProgress r = 100 \<and> contributionProgress r = 100"
    unfolding s(6) s(5) by (rule min_is_100 [OF b(2,4)])
  then have "isComplete r \<longleftrightarrow> now - start \<ge> duration * 1000 \<and> members \<le> contributed"
    unfolding s(3,4) clamp100_full [OF s(1)] clamp100_full [OF s(2)] e .
  then show ?thesis using b s(5,7,8) e(2) by blast
qed

text \<open>Progress never goes back as time passes.\<close>

theorem progress_monotone:
  assumes "calculateCycleProgress (Some start) duration contributed members now = Inr r"
    and "calculateCycleProgress (Some start) duration contributed members later = Inr r'" and "now \<le> later"
  shows "timeProgress r \<le> timeProgress r' \<and> overallProgress r \<le> overallProgress r'"
proof -
  note s = started_cycle [OF assms(1)] and s' = started_cycle [OF assms(2)]
  have "max 0 (now - start) div 1000 \<le> max 0 (later - start) div 1000" using assms(3) by (intro zdiv_mono1) simp_all
  then have "(of_int (max 0 (now - start) div 1000) / of_int duration * 100 :: rat) \<le> of_int (max 0 (later - start) div 1000) / of_int duration * 100"
    using s(1) by (intro mult_right_mono divide_right_mono) simp_all
  then have "timeProgress r \<le> timeProgress r'"
    unfolding s(3) s'(3) clamp100_def by (intro min.mono max.mono order_refl)
  then show ?thesis unfolding s(5) s'(5) s(4) s'(4) by (intro conjI min.mono order_refl)
qed

end
