(* ===== verification/Offline_Store.thy ===== *)
theory Offline_Store
  imports Js_Values Errors "HOL-Library.List_Lexorder" "HOL-Library.Char_ord"
begin

text \<open>
  The offline store of the web client, \<open>frontend/src/lib/db.ts\<close>, over IndexedDB. An object store is an association list;
  reading all of it gives the values in the order of their keys. The fields of a group that the store does not look at
  are one JSON value.
\<close>

datatype action_type = Contribution | Join_group | Create_group | Update_group

datatype queue_status = Q_pending | Q_processing | Q_failed

record SyncQueueItem =
  qi_id :: string
  qi_type :: action_type
  qi_payload :: json
  qi_timestamp :: int
  qi_retryCount :: nat
  qi_status :: queue_status
  qi_error :: "string option"

record PublicGroup =
  pg_id :: string
  pg_data :: json

record DetailedGroup =
  dg_id :: string
  dg_members :: json
  dg_contributions :: json
  dg_data :: json

record CachedGroup =
  cg_group :: DetailedGroup
  cg_timestamp :: int
  cg_stale :: bool

record CachedGroupsList =
  cl_groups :: "PublicGroup list"
  cl_timestamp :: int
  cl_stale :: bool

record sync_metadata =
  lastSync :: int
  isOnline :: bool

record offline_db =
  db_groups :: "(string \<times> CachedGroup) list"
  db_groupsList :: "CachedGroupsList option"
  db_members :: "(string \<times> (json \<times> int)) list"
  db_contributions :: "(string \<times> (json \<times> int)) list"
  db_syncQueue :: "(string \<times> SyncQueueItem) list"
  db_metadata :: "sync_metadata option"

definition initDB :: offline_db where
  "initDB = \<lparr>db_groups = [], db_groupsList = None, db_members = [], db_contributions = [], db_syncQueue = [], db_metadata = None\<rparr>"

section \<open>Object stores\<close>

definition store_values :: "(string \<times> 'v) list \<Rightarrow> 'v list" where
  "store_values st = map snd (sort_key fst st)"

section \<open>Groups\<close>

definition cacheGroup :: "int \<Rightarrow> DetailedGroup \<Rightarrow> offline_db \<Rightarrow> offline_db" where
  "cacheGroup now g db = db\<lparr>db_groups := AList.update (dg_id g) \<lparr>cg_group = g, cg_timestamp = now, cg_stale = False\<rparr> (db_groups db)\<rparr>"

definition getCachedGroup :: "string \<Rightarrow> offline_db \<Rightarrow> CachedGroup option" where
  "getCachedGroup groupId db = map_of (db_groups db) groupId"

definition cacheGroupsList :: "int \<Rightarrow> PublicGroup list \<Rightarrow> offline_db \<Rightarrow> offline_db" where
  "cacheGroupsList now gs db = db\<lparr>db_groupsList := Some \<lparr>cl_groups = gs, cl_timestamp = now, cl_stale = False\<rparr>\<rparr>"

definition getCachedGroupsList :: "offline_db \<Rightarrow> CachedGroupsList option" where
  "getCachedGroupsList db = db_groupsList db"

text \<open>Each cached group is written back under the id of its group.\<close>

definition markGroupsAsStale :: "offline_db \<Rightarrow> offline_db" where
  "markGroupsAsStale db =
     (let db1 = fold (\<lambda>c d. d\<lparr>db_groups := AList.update (dg_id (cg_group c)) (c\<lparr>cg_stale := True\<rparr>) (db_groups d)\<rparr>) (store_values (db_groups db)) db
      in db1\<lparr>db_groupsList := map_option (\<lambda>l. l\<lparr>cl_stale := True\<rparr>) (db_groupsList db1)\<rparr>)"

definition cacheMembers :: "int \<Rightarrow> string \<Rightarrow> json \<Rightarrow> offline_db \<Rightarrow> offline_db" where
  "cacheMembers now groupId ms db = db\<lparr>db_members := AList.update groupId (ms, now) (db_members db)\<rparr>"

definition getCachedMembers :: "string \<Rightarrow> offline_db \<Rightarrow> json option" where
  "getCachedMembers groupId db = map_option fst (map_of (db_members db) groupId)"

definition cacheContributions :: "int \<Rightarrow> string \<Rightarrow> json \<Rightarrow> offline_db \<Rightarrow> offline_db" where
  "cacheContributions now groupId cs db = db\<lparr>db_contributions := AList.update groupId (cs, now) (db_contributions db)\<rparr>"

definition getCachedContributions :: "string \<Rightarrow> offline_db \<Rightarrow> json option" where
  "getCachedContributions groupId db = map_option fst (map_of (db_contributions db) groupId)"

section \<open>The queue\<close>

fun action_name :: "action_type \<Rightarrow> string" where
  "action_name Contribution = ''contribution''"
| "action_name Join_group = ''join_group''"
| "action_name Create_group = ''create_group''"
| "action_name Update_group = ''update_group''"

text \<open>\<open>db.add\<close> fails when the key exists; the random suffix is an argument.\<close>

definition addToSyncQueue :: "int \<Rightarrow> string \<Rightarrow> SyncQueueItem \<Rightarrow> offline_db \<Rightarrow> offline_db \<times> (thrown + string)" where
  "addToSyncQueue now suffix item db =
     (let i = action_name (qi_type item) @ ''_'' @ string_of_int now @ ''_'' @ suffix
      in if map_of (db_syncQueue db) i \<noteq> None then (db, Inl (PlainError ''ConstraintError''))
         else (db\<lparr>db_syncQueue := AList.update i (item\<lparr>qi_id := i\<rparr>) (db_syncQueue db)\<rparr>, Inr i))"

definition getPendingSyncItems :: "offline_db \<Rightarrow> SyncQueueItem list" where
  "getPendingSyncItems db = sort_key qi_timestamp (filter (\<lambda>i. qi_status i = Q_pending) (store_values (db_syncQueue db)))"

definition updateSyncQueueItem :: "string \<Rightarrow> (SyncQueueItem \<Rightarrow> SyncQueueItem) \<Rightarrow> offline_db \<Rightarrow> offline_db" where
  "updateSyncQueueItem i f db =
     (case map_of (db_syncQueue db) i of
        Some item \<Rightarrow> db\<lparr>db_syncQueue := AList.update i (f item) (db_syncQueue db)\<rparr>
      | None \<Rightarrow> db)"

definition removeSyncQueueItem :: "string \<Rightarrow> offline_db \<Rightarrow> offline_db" where
  "removeSyncQueueItem i db = db\<lparr>db_syncQueue := AList.delete i (db_syncQueue db)\<rparr>"

definition getSyncQueueCount :: "offline_db \<Rightarrow> nat" where
  "getSyncQueueCount db = length (filter (\<lambda>i. qi_status i = Q_pending) (store_values (db_syncQueue db)))"

section \<open>Metadata\<close>

definition updateSyncMetadata :: "int \<Rightarrow> int option \<Rightarrow> bool option \<Rightarrow> offline_db \<Rightarrow> offline_db" where
  "updateSyncMetadata now ls on db =
     (let current = or_default (db_metadata db) \<lparr>lastSync = now, isOnline = True\<rparr>
      in db\<lparr>db_metadata := Some \<lparr>lastSync = or_default ls (lastSync current), isOnline = or_default on (isOnline current)\<rparr>\<rparr>)"

definition getSyncMetadata :: "offline_db \<Rightarrow> sync_metadata option" where
  "getSyncMetadata db = db_metadata db"

definition clearAllCache :: "offline_db \<Rightarrow> offline_db" where
  "clearAllCache db = db\<lparr>db_groups := [], db_groupsList := None, db_members := [], db_contributions := []\<rparr>"

definition clearSyncQueue :: "offline_db \<Rightarrow> offline_db" where
  "clearSyncQueue db = db\<lparr>db_syncQueue := []\<rparr>"

section \<open>Well-formed stores\<close>

text \<open>Keys are unique and are the ids of what they hold.\<close>

definition db_ok :: "offline_db \<Rightarrow> bool" where
  "db_ok db \<longleftrightarrow>
     distinct (map fst (db_groups db)) \<and> list_all (\<lambda>e. fst e = dg_id (cg_group (snd e))) (db_groups db) \<and>
     distinct (map fst (db_syncQueue db)) \<and> list_all (\<lambda>e. fst e = qi_id (snd e)) (db_syncQueue db)"

lemma set_store_values [simp]: "set (store_values st) = snd ` set st"
  by (simp add: store_values_def)

lemma getPending_iff:
  "db_ok db \<Longrightarrow> i \<in> set (getPendingSyncItems db) \<longleftrightarrow> map_of (db_syncQueue db) (qi_id i) = Some i \<and> qi_status i = Q_pending"
  by (force simp: getPendingSyncItems_def db_ok_def list_all_iff)

lemma getPending_sorted: "sorted (map qi_timestamp (getPendingSyncItems db))"
  by (simp add: getPendingSyncItems_def)

end
