(* ===== verification/Offline_Sync.thy ===== *)
theory Offline_Sync
  imports Offline_Store
begin

text \<open>
  Synchronisation of the web client, \<open>frontend/src/lib/syncService.ts\<close>: replay of queued actions, refresh of the cache,
  the periodic timer, and the handlers of the browser's events, which interleave at their \<open>await\<close>s. The network
  (\<open>fetchGroups\<close>, \<open>fetchGroup\<close>) is an argument. Operations of the store do not fail here.
\<close>

definition SYNC_INTERVAL :: int where "SYNC_INTERVAL = 5 * 60 * 1000"

definition STALE_THRESHOLD :: int where "STALE_THRESHOLD = 2 * 60 * 1000"

datatype SyncStatus = Idle | Syncing | SyncError

datatype ConnectionStatus = Online | Offline | Unknown

section \<open>Replay\<close>

text \<open>\<open>error instanceof Error ? error.message : 'Unknown error'\<close>\<close>

fun error_text :: "thrown \<Rightarrow> string" where
  "error_text (ThrownValue _) = ''Unknown error''"
| "error_text e = err_message e"

text \<open>Every branch waits half a second and returns.\<close>

fun executeQueuedAction :: "SyncQueueItem \<Rightarrow> thrown + unit" where
  "executeQueuedAction item =
     (case qi_type item of Contribution \<Rightarrow> Inr () | Join_group \<Rightarrow> Inr () | Create_group \<Rightarrow> Inr () | Update_group \<Rightarrow> Inr ())"

definition mark_processing :: "SyncQueueItem \<Rightarrow> offline_db \<Rightarrow> offline_db" where
  "mark_processing item = updateSyncQueueItem (qi_id item) (\<lambda>i. i\<lparr>qi_status := Q_processing\<rparr>)"

definition replay_item :: "(SyncQueueItem \<Rightarrow> thrown + unit) \<Rightarrow> SyncQueueItem \<Rightarrow> offline_db \<Rightarrow> offline_db" where
  "replay_item exec item db =
     (let db1 = mark_processing item db
      in case exec item of
           Inr _ \<Rightarrow> removeSyncQueueItem (qi_id item) db1
         | Inl e \<Rightarrow>
             let retryCount = qi_retryCount item + 1
             in if retryCount \<ge> 3
                then updateSyncQueueItem (qi_id item) (\<lambda>i. i\<lparr>qi_status := Q_failed, qi_retryCount := retryCount, qi_error := Some (error_text e)\<rparr>) db1
                else updateSyncQueueItem (qi_id item) (\<lambda>i. i\<lparr>qi_status := Q_pending, qi_retryCount := retryCount\<rparr>) db1)"

definition replayQueue :: "(SyncQueueItem \<Rightarrow> thrown + unit) \<Rightarrow> offline_db \<Rightarrow> offline_db" where
  "replayQueue exec db = fold (replay_item exec) (getPendingSyncItems db) db"

section \<open>Refresh\<close>

record network =
  fetchGroups :: "thrown + PublicGroup list"
  fetchGroup :: "string \<Rightarrow> thrown + DetailedGroup option"

definition refresh_group :: "network \<Rightarrow> int \<Rightarrow> PublicGroup \<Rightarrow> offline_db \<Rightarrow> offline_db" where
  "refresh_group net now pg db =
     (case fetchGroup net (pg_id pg) of
        Inr (Some g) \<Rightarrow> cacheContributions now (pg_id pg) (dg_contributions g) (cacheMembers now (pg_id pg) (dg_members g) (cacheGroup now g db))
      | _ \<Rightarrow> db)"

definition refreshCache :: "network \<Rightarrow> int \<Rightarrow> offline_db \<Rightarrow> offline_db \<times> (thrown + unit)" where
  "refreshCache net now db =
     (case fetchGroups net of
        Inl e \<Rightarrow> (db, Inl e)
      | Inr gs \<Rightarrow>
          let db1 = cacheGroupsList now gs db
          in case getCachedGroupsList db1 of
               Some l \<Rightarrow> if length (cl_groups l) > 0 then (fold (refresh_group net now) (take 10 (cl_groups l)) db1, Inr ()) else (db1, Inr ())
             | None \<Rightarrow> (db1, Inr ()))"

section \<open>The service\<close>

record sync_service =
  sv_db :: offline_db
  sv_interval :: bool
  sv_syncing :: bool
  sv_navigator :: bool
  sv_status :: "SyncStatus list"
  sv_connection :: "ConnectionStatus list"

definition notifySyncStatus :: "SyncStatus \<Rightarrow> sync_service \<Rightarrow> sync_service" where
  "notifySyncStatus st sv = sv\<lparr>sv_status := sv_status sv @ [st]\<rparr>"

definition notifyConnectionStatus :: "ConnectionStatus \<Rightarrow> sync_service \<Rightarrow> sync_service" where
  "notifyConnectionStatus st sv = sv\<lparr>sv_connection := sv_connection sv @ [st]\<rparr>"

text \<open>\<open>syncAll\<close> in three parts, between its \<open>await\<close>s: the guards, the replay of the queue, the refresh with what follows.\<close>

definition sync_begin :: "sync_service \<Rightarrow> sync_service option" where
  "sync_begin sv =
     (if sv_syncing sv then None
      else if \<not> sv_navigator sv then None
      else Some (notifySyncStatus Syncing (sv\<lparr>sv_syncing := True\<rparr>)))"

definition sync_replay :: "(SyncQueueItem \<Rightarrow> thrown + unit) \<Rightarrow> sync_service \<Rightarrow> sync_service" where
  "sync_replay exec sv = sv\<lparr>sv_db := replayQueue exec (sv_db sv)\<rparr>"

definition sync_refresh :: "network \<Rightarrow> int \<Rightarrow> sync_service \<Rightarrow> sync_service" where
  "sync_refresh net now sv =
     (let (db, r) = refreshCache net now (sv_db sv);
          sv1 = (case r of
                   Inr _ \<Rightarrow> notifySyncStatus Idle (sv\<lparr>sv_db := updateSyncMetadata now (Some now) (Some True) db\<rparr>)
                 | Inl _ \<Rightarrow> notifySyncStatus SyncError (sv\<lparr>sv_db := db\<rparr>))
      in sv1\<lparr>sv_syncing := False\<rparr>)"

definition syncAll_with :: "(SyncQueueItem \<Rightarrow> thrown + unit) \<Rightarrow> network \<Rightarrow> int \<Rightarrow> sync_service \<Rightarrow> sync_service" where
  "syncAll_with exec net now sv =
     (case sync_begin sv of None \<Rightarrow> sv | Some sv1 \<Rightarrow> sync_refresh net now (sync_replay exec sv1))"

definition syncAll :: "network \<Rightarrow> int \<Rightarrow> sync_service \<Rightarrow> sync_service" where
  "syncAll = syncAll_with executeQueuedAction"

definition forceSyncNow :: "network \<Rightarrow> int \<Rightarrow> sync_service \<Rightarrow> sync_service" where
  "forceSyncNow net now sv = syncAll net now sv"

definition startPeriodicSync :: "sync_service \<Rightarrow> sync_service" where
  "startPeriodicSync sv = (if sv_interval sv then sv else sv\<lparr>sv_interval := True\<rparr>)"

definition stopPeriodicSync :: "sync_service \<Rightarrow> sync_service" where
  "stopPeriodicSync sv = (if sv_interval sv then sv\<lparr>sv_interval := False\<rparr> else sv)"

definition queueAction :: "network \<Rightarrow> int \<Rightarrow> string \<Rightarrow> action_type \<Rightarrow> json \<Rightarrow> sync_service \<Rightarrow> sync_service \<times> (thrown + string)" where
  "queueAction net now suffix ty payload sv =
     (let item = \<lparr>qi_id = [], qi_type = ty, qi_payload = payload, qi_timestamp = now, qi_retryCount = 0, qi_status = Q_pending, qi_error = None\<rparr>
      in case addToSyncQueue now suffix item (sv_db sv) of
           (db, Inl e) \<Rightarrow> (sv\<lparr>sv_db := db\<rparr>, Inl e)
         | (db, Inr i) \<Rightarrow>
             let sv1 = sv\<lparr>sv_db := db\<rparr>
             in (if sv_navigator sv1 then syncAll net now sv1 else sv1, Inr i))"

section \<open>Reading the cache\<close>

definition is_stale :: "int \<Rightarrow> int \<Rightarrow> bool \<Rightarrow> bool" where
  "is_stale now timestamp stale \<longleftrightarrow> stale \<or> now - timestamp > STALE_THRESHOLD"

definition getCachedGroupWithStatus :: "int \<Rightarrow> string \<Rightarrow> offline_db \<Rightarrow> DetailedGroup option \<times> bool \<times> bool" where
  "getCachedGroupWithStatus now groupId db =
     (case getCachedGroup groupId db of
        None \<Rightarrow> (None, False, False)
      | Some c \<Rightarrow> (Some (cg_group c), is_stale now (cg_timestamp c) (cg_stale c), True))"

definition getCachedGroupsListWithStatus :: "int \<Rightarrow> offline_db \<Rightarrow> PublicGroup list \<times> bool \<times> bool" where
  "getCachedGroupsListWithStatus now db =
     (case getCachedGroupsList db of
        None \<Rightarrow> ([], False, False)
      | Some c \<Rightarrow> (cl_groups c, is_stale now (cl_timestamp c) (cl_stale c), True))"

definition getConnectionStatus :: "offline_db \<Rightarrow> ConnectionStatus" where
  "getConnectionStatus db = (case getSyncMetadata db of None \<Rightarrow> Unknown | Some m \<Rightarrow> if isOnline m then Online else Offline)"

definition getLastSyncTime :: "offline_db \<Rightarrow> int option" where
  "getLastSyncTime db = map_option lastSync (getSyncMetadata db)"

section \<open>Handlers of the browser's events\<close>

text \<open>What is left of a handler after an \<open>await\<close>.\<close>

datatype handler = On_updated | Off_updated | Off_marked | Sync_started | Sync_replayed

text \<open>\<open>void syncAll()\<close>: the call runs to its first \<open>await\<close>, the rest is suspended.\<close>

definition spawn_sync :: "sync_service \<Rightarrow> sync_service \<times> handler list" where
  "spawn_sync sv = (case sync_begin sv of None \<Rightarrow> (sv, []) | Some sv1 \<Rightarrow> (sv1, [Sync_started]))"

definition periodic_tick :: "sync_service \<Rightarrow> sync_service \<times> handler list" where
  "periodic_tick sv = (if sv_navigator sv then spawn_sync sv else (sv, []))"

definition handleVisibilityChange :: "bool \<Rightarrow> sync_service \<Rightarrow> sync_service \<times> handler list" where
  "handleVisibilityChange visible sv = (if visible \<and> sv_navigator sv then spawn_sync sv else (sv, []))"

text \<open>The browser changes \<open>navigator.onLine\<close> and calls the handler, which runs to its first \<open>await\<close>.\<close>

definition online_event :: "int \<Rightarrow> sync_service \<Rightarrow> sync_service \<times> handler" where
  "online_event now sv = (sv\<lparr>sv_navigator := True, sv_db := updateSyncMetadata now None (Some True) (sv_db sv)\<rparr>, On_updated)"

definition offline_event :: "int \<Rightarrow> sync_service \<Rightarrow> sync_service \<times> handler" where
  "offline_event now sv = (sv\<lparr>sv_navigator := False, sv_db := updateSyncMetadata now None (Some False) (sv_db sv)\<rparr>, Off_updated)"

definition resume :: "network \<Rightarrow> int \<Rightarrow> handler \<Rightarrow> sync_service \<Rightarrow> sync_service \<times> handler list" where
  "resume net now h sv =
     (case h of
        On_updated \<Rightarrow> (let (sv1, hs) = spawn_sync (notifyConnectionStatus Online sv) in (startPeriodicSync sv1, hs))
      | Off_updated \<Rightarrow>
          (let sv1 = notifyConnectionStatus Offline sv in (sv1\<lparr>sv_db := markGroupsAsStale (sv_db sv1)\<rparr>, [Off_marked]))
      | Off_marked \<Rightarrow> (stopPeriodicSync sv, [])
      | Sync_started \<Rightarrow> (sync_replay executeQueuedAction sv, [Sync_replayed])
      | Sync_replayed \<Rightarrow> (sync_refresh net now sv, []))"

definition initSyncService :: "bool \<Rightarrow> int \<Rightarrow> sync_service" where
  "initSyncService navigator now =
     (let sv = notifyConnectionStatus (if navigator then Online else Offline)
            \<lparr>sv_db = updateSyncMetadata now None (Some navigator) initDB, sv_interval = False, sv_syncing = False, sv_navigator = navigator,
             sv_status = [], sv_connection = []\<rparr>
      in if navigator then startPeriodicSync sv else sv)"

text \<open>Events and handlers interleave; a handler that is suspended may resume after others.\<close>

inductive sync_step :: "network \<Rightarrow> sync_service \<times> handler list \<Rightarrow> sync_service \<times> handler list \<Rightarrow> bool" for net where
  online: "online_event now sv = (sv', h) \<Longrightarrow> sync_step net (sv, hs) (sv', hs @ [h])"
| offline: "offline_event now sv = (sv', h) \<Longrightarrow> sync_step net (sv, hs) (sv', hs @ [h])"
| visible: "handleVisibilityChange v sv = (sv', new) \<Longrightarrow> sync_step net (sv, hs) (sv', hs @ new)"
| tick: "sv_interval sv \<Longrightarrow> periodic_tick sv = (sv', new) \<Longrightarrow> sync_step net (sv, hs) (sv', hs @ new)"
| resumed: "resume net now h sv = (sv', new) \<Longrightarrow> sync_step net (sv, hs @ h # ks) (sv', hs @ new @ ks)"

section \<open>Single flight\<close>

definition sync_handlers :: "handler list \<Rightarrow> nat" where
  "sync_handlers hs = length (filter (\<lambda>h. h = Sync_started \<or> h = Sync_replayed) hs)"

lemma sync_handlers_simps [simp]:
  "sync_handlers [] = 0" "sync_handlers (hs @ ks) = sync_handlers hs + sync_handlers ks"
  "sync_handlers (h # hs) = (if h = Sync_started \<or> h = Sync_replayed then 1 else 0) + sync_handlers hs"
  by (simp_all add: sync_handlers_def)

definition one_sync :: "sync_service \<times> handler list \<Rightarrow> bool" where
  "one_sync s \<longleftrightarrow> sync_handlers (snd s) = of_bool (sv_syncing (fst s))"

lemmas service_defs = notifySyncStatus_def notifyConnectionStatus_def startPeriodicSync_def stopPeriodicSync_def
  sync_begin_def sync_replay_def sync_refresh_def spawn_sync_def periodic_tick_def handleVisibilityChange_def
  online_event_def offline_event_def

lemma spawn_flight:
  "spawn_sync sv = (sv', new) \<Longrightarrow> n = of_bool (sv_syncing sv) \<Longrightarrow> n + sync_handlers new = of_bool (sv_syncing sv')"
  by (auto simp: service_defs split: if_splits)

lemma step_one_sync: "sync_step net s t \<Longrightarrow> one_sync s \<Longrightarrow> one_sync t"
proof (induction rule: sync_step.induct)
  case (visible v sv sv' new hs)
  then show ?case using spawn_flight [of sv sv' new "sync_handlers hs"] by (cases "v \<and> sv_navigator sv") (auto simp: handleVisibilityChange_def one_sync_def)
next
  case (tick sv sv' new hs)
  then show ?case using spawn_flight [of sv sv' new "sync_handlers hs"] by (cases "sv_navigator sv") (auto simp: periodic_tick_def one_sync_def)
next
  case (resumed now h sv sv' new hs ks)
  show ?case
  proof (cases h)
    case On_updated
    obtain sv1 where s: "spawn_sync (notifyConnectionStatus Online sv) = (sv1, new)" and sv': "sv' = startPeriodicSync sv1"
      using resumed(1) On_updated by (auto simp: resume_def split: prod.splits)
    have "sv_syncing sv' = sv_syncing sv1" by (simp add: sv' startPeriodicSync_def)
    then show ?thesis using spawn_flight [OF s, of "sync_handlers hs + sync_handlers ks"] resumed(2) On_updated
      by (simp add: one_sync_def notifyConnectionStatus_def)
  next
    case Sync_replayed
    then show ?thesis
      using resumed by (cases "sv_syncing sv") (auto simp: resume_def one_sync_def service_defs Let_def split: prod.splits sum.splits)
  qed (use resumed in \<open>auto simp: resume_def one_sync_def service_defs Let_def split: if_splits\<close>)
qed (auto simp: one_sync_def service_defs)

text \<open>In every interleaving of browser events, timer and suspended handlers, at most one synchronisation is under way.\<close>

theorem at_most_one_sync:
  assumes "(sync_step net)\<^sup>*\<^sup>* (initSyncService navigator now, []) (sv, hs)"
  shows "sync_handlers hs = of_bool (sv_syncing sv)"
proof -
  have "one_sync (initSyncService navigator now, [])"
    by (simp add: one_sync_def initSyncService_def service_defs Let_def)
  with assms have "one_sync (sv, hs)"
    by (induction "(sv, hs)" arbitrary: sv hs rule: rtranclp_induct) (auto intro: step_one_sync)
  then show ?thesis by (simp add: one_sync_def)
qed

section \<open>Schedules\<close>

datatype sched = Ev_online int | Ev_offline int | Ev_resume nat int

fun play :: "network \<Rightarrow> sched list \<Rightarrow> sync_service \<times> handler list \<Rightarrow> sync_service \<times> handler list" where
  "play net [] s = s"
| "play net (Ev_online now # es) (sv, hs) = (let (sv', h) = online_event now sv in play net es (sv', hs @ [h]))"
| "play net (Ev_offline now # es) (sv, hs) = (let (sv', h) = offline_event now sv in play net es (sv', hs @ [h]))"
| "play net (Ev_resume i now # es) (sv, hs) =
     (if i < length hs
      then let (sv', new) = resume net now (hs ! i) sv in play net es (sv', take i hs @ new @ drop (Suc i) hs)
      else play net es (sv, hs))"

lemma play_steps: "(sync_step net)\<^sup>*\<^sup>* s (play net es s)"
proof (induction net es s rule: play.induct)
  case (2 net now es sv hs)
  obtain sv' h where e: "online_event now sv = (sv', h)" by force
  have "sync_step net (sv, hs) (sv', hs @ [h])" by (rule sync_step.online [OF e])
  then show ?case using 2 [OF e [symmetric] refl] e by (simp add: converse_rtranclp_into_rtranclp)
next
  case (3 net now es sv hs)
  obtain sv' h where e: "offline_event now sv = (sv', h)" by force
  have "sync_step net (sv, hs) (sv', hs @ [h])" by (rule sync_step.offline [OF e])
  then show ?case using 3 [OF e [symmetric] refl] e by (simp add: converse_rtranclp_into_rtranclp)
next
  case (4 net i now es sv hs)
  show ?case
  proof (cases "i < length hs")
    case True
    obtain sv' new where e: "resume net now (hs ! i) sv = (sv', new)" by force
    have "sync_step net (sv, take i hs @ hs ! i # drop (Suc i) hs) (sv', take i hs @ new @ drop (Suc i) hs)"
      by (rule sync_step.resumed [OF e])
    then have "sync_step net (sv, hs) (sv', take i hs @ new @ drop (Suc i) hs)" by (simp only: id_take_nth_drop [OF True, symmetric])
    then show ?thesis using "4.IH"(1) [OF True e [symmetric] refl] e True by (simp add: converse_rtranclp_into_rtranclp)
  qed (use "4.IH"(2) in simp)
qed simp

definition quiet_network :: network where
  "quiet_network = \<lparr>fetchGroups = Inr [], fetchGroup = \<lambda>_. Inr None\<rparr>"

text \<open>A connection that comes back while the handler of its loss still waits for the store leaves the client online
  without a timer: the handler of the loss stops the timer last, and nothing starts it again.\<close>

theorem online_without_timer:
  "\<exists>sv. (sync_step quiet_network)\<^sup>*\<^sup>* (initSyncService True 0, []) (sv, []) \<and>
     sv_navigator sv \<and> getConnectionStatus (sv_db sv) = Online \<and> last (sv_connection sv) = Online \<and> \<not> sv_interval sv \<and>
     sv_interval (initSyncService True 0)"
proof -
  let ?es = "[Ev_offline 1, Ev_resume 0 2, Ev_online 3, Ev_resume 1 4, Ev_resume 0 5, Ev_resume 0 6, Ev_resume 0 7]"
  let ?s = "play quiet_network ?es (initSyncService True 0, [])"
  have "snd ?s = []" by code_simp
  moreover have "sv_navigator (fst ?s) \<and> getConnectionStatus (sv_db (fst ?s)) = Online \<and> last (sv_connection (fst ?s)) = Online \<and>
    \<not> sv_interval (fst ?s) \<and> sv_interval (initSyncService True 0)"
    by code_simp
  ultimately show ?thesis using play_steps [of quiet_network "(initSyncService True 0, [])" ?es] by (metis prod.collapse)
qed

section \<open>What a replay does to the queue\<close>

definition queue_of :: "offline_db \<Rightarrow> string \<Rightarrow> SyncQueueItem option" where
  "queue_of db = map_of (db_syncQueue db)"

text \<open>An item after one attempt.\<close>

definition attempted :: "(SyncQueueItem \<Rightarrow> thrown + unit) \<Rightarrow> SyncQueueItem \<Rightarrow> SyncQueueItem option" where
  "attempted exec i =
     (case exec i of
        Inr _ \<Rightarrow> None
      | Inl e \<Rightarrow>
          if qi_retryCount i + 1 \<ge> 3 then Some (i\<lparr>qi_status := Q_failed, qi_retryCount := qi_retryCount i + 1, qi_error := Some (error_text e)\<rparr>)
          else Some (i\<lparr>qi_retryCount := qi_retryCount i + 1\<rparr>))"

lemma queue_of_update: "queue_of (updateSyncQueueItem k f db) = (case queue_of db k of Some i \<Rightarrow> (queue_of db)(k \<mapsto> f i) | None \<Rightarrow> queue_of db)"
  by (auto simp: queue_of_def updateSyncQueueItem_def update_conv split: option.splits)

lemma queue_of_remove: "queue_of (removeSyncQueueItem k db) = (queue_of db)(k := None)"
  by (simp add: queue_of_def removeSyncQueueItem_def delete_conv')

lemma queue_of_replay:
  assumes "queue_of db (qi_id i) = Some i" and "qi_status i = Q_pending"
  shows "queue_of (replay_item exec i db) = (queue_of db)(qi_id i := attempted exec i)"
  using assms
  by (auto simp: replay_item_def mark_processing_def queue_of_update queue_of_remove attempted_def Let_def split: sum.splits)

lemma queue_of_fold:
  assumes "distinct (map qi_id items)" and "\<And>i. i \<in> set items \<Longrightarrow> queue_of db (qi_id i) = Some i \<and> qi_status i = Q_pending"
  shows "queue_of (fold (replay_item exec) items db) k =
    (case map_of (map (\<lambda>i. (qi_id i, i)) items) k of Some i \<Rightarrow> attempted exec i | None \<Rightarrow> queue_of db k)"
  using assms
proof (induction items arbitrary: db)
  case (Cons i items)
  have q: "queue_of (replay_item exec i db) = (queue_of db)(qi_id i := attempted exec i)"
    using Cons.prems(2) [of i] by (intro queue_of_replay) auto
  have "queue_of (replay_item exec i db) (qi_id j) = Some j \<and> qi_status j = Q_pending" if "j \<in> set items" for j
    using Cons.prems(1) Cons.prems(2) [of j] that by (auto simp: q) (metis image_eqI)
  then have IH: "queue_of (fold (replay_item exec) items (replay_item exec i db)) k =
      (case map_of (map (\<lambda>i. (qi_id i, i)) items) k of Some i \<Rightarrow> attempted exec i | None \<Rightarrow> queue_of (replay_item exec i db) k)"
    using Cons.prems(1) by (intro Cons.IH) auto
  have "map_of (map (\<lambda>i. (qi_id i, i)) items) (qi_id i) = None" using Cons.prems(1) by (force simp: map_of_eq_None_iff)
  then show ?case using IH by (auto simp: q split: option.splits)
qed simp

lemma distinct_map_sort_key: "distinct (map f (sort_key g xs)) \<longleftrightarrow> distinct (map f xs)"
  by (simp add: distinct_map)

lemma pending_distinct: "db_ok db \<Longrightarrow> distinct (map qi_id (getPendingSyncItems db))"
proof -
  assume ok: "db_ok db"
  have "map qi_id (store_values (db_syncQueue db)) = map fst (sort_key fst (db_syncQueue db))"
    using ok by (auto simp: store_values_def db_ok_def list_all_iff)
  then have "distinct (map qi_id (store_values (db_syncQueue db)))"
    using ok by (simp add: distinct_map_sort_key db_ok_def)
  then show "distinct (map qi_id (getPendingSyncItems db))"
    by (simp add: getPendingSyncItems_def distinct_map_sort_key distinct_map_filter)
qed

lemma queue_of_replayQueue:
  assumes "db_ok db"
  shows "queue_of (replayQueue exec db) k =
    (case queue_of db k of Some i \<Rightarrow> if qi_status i = Q_pending then attempted exec i else Some i | None \<Rightarrow> None)"
proof -
  let ?p = "getPendingSyncItems db"
  have pend: "i \<in> set ?p \<longleftrightarrow> queue_of db (qi_id i) = Some i \<and> qi_status i = Q_pending" for i
    using getPending_iff [OF assms] by (simp add: queue_of_def)
  have keys: "queue_of db k = Some i \<Longrightarrow> qi_id i = k" for i
    using assms by (auto simp: queue_of_def db_ok_def list_all_iff dest: map_of_SomeD)
  have "map_of (map (\<lambda>i. (qi_id i, i)) ?p) k = (case queue_of db k of Some i \<Rightarrow> if qi_status i = Q_pending then Some i else None | None \<Rightarrow> None)"
  proof (cases "\<exists>i. queue_of db k = Some i \<and> qi_status i = Q_pending")
    case True
    then obtain i where i: "queue_of db k = Some i" "qi_status i = Q_pending" by blast
    then have "(k, i) \<in> set (map (\<lambda>i. (qi_id i, i)) ?p)" using keys pend by force
    then have "map_of (map (\<lambda>i. (qi_id i, i)) ?p) k = Some i"
      using pending_distinct [OF assms] by (intro map_of_is_SomeI) (simp_all add: comp_def)
    then show ?thesis using i by simp
  next
    case False
    then have "map_of (map (\<lambda>i. (qi_id i, i)) ?p) k = None" using pend by (force simp: map_of_eq_None_iff)
    then show ?thesis using False by (auto split: option.splits)
  qed
  then show ?thesis
    unfolding replayQueue_def using queue_of_fold [OF pending_distinct [OF assms], of db exec k] pend
    by (auto split: option.splits if_splits)
qed

text \<open>One replay attempts every pending item exactly once and leaves the others alone: an item whose action succeeds is
  removed, one whose action fails stays pending until its third failure, then it is marked as failed.\<close>

theorem replay_attempts_pending_once:
  assumes "db_ok db"
  shows "queue_of (replayQueue exec db) k =
    (case queue_of db k of Some i \<Rightarrow> if qi_status i = Q_pending then attempted exec i else Some i | None \<Rightarrow> None)"
  by (rule queue_of_replayQueue [OF assms])

lemma db_ok_update: "db_ok db \<Longrightarrow> (\<And>i. qi_id (f i) = qi_id i) \<Longrightarrow> db_ok (updateSyncQueueItem k f db)"
proof -
  assume ok: "db_ok db" and f: "\<And>i. qi_id (f i) = qi_id i"
  show "db_ok (updateSyncQueueItem k f db)"
  proof (cases "map_of (db_syncQueue db) k")
    case (Some i)
    then have "qi_id i = k" using ok by (auto simp: db_ok_def list_all_iff dest: map_of_SomeD)
    then have "list_all (\<lambda>e. fst e = qi_id (snd e)) (AList.update k (f i) (db_syncQueue db))"
      using ok f set_update_subset [of k "f i" "db_syncQueue db"] by (auto simp: db_ok_def list_all_iff)
    then show ?thesis using ok Some by (simp add: updateSyncQueueItem_def db_ok_def distinct_update)
  qed (use ok in \<open>simp add: updateSyncQueueItem_def\<close>)
qed

lemma db_ok_remove: "db_ok db \<Longrightarrow> db_ok (removeSyncQueueItem k db)"
  by (auto simp: db_ok_def removeSyncQueueItem_def distinct_map_filter list_all_iff AList.delete_eq)

lemma db_ok_replay_item: "db_ok db \<Longrightarrow> db_ok (replay_item exec i db)"
  by (auto simp: replay_item_def mark_processing_def Let_def split: sum.splits intro!: db_ok_update db_ok_remove)

lemma db_ok_replayQueue: "db_ok db \<Longrightarrow> db_ok (replayQueue exec db)"
proof -
  have "db_ok d \<Longrightarrow> db_ok (fold (replay_item exec) xs d)" for xs d
    by (induction xs arbitrary: d) (simp_all add: db_ok_replay_item)
  then show "db_ok db \<Longrightarrow> db_ok (replayQueue exec db)" by (simp add: replayQueue_def)
qed

lemma db_ok_replays: "db_ok db \<Longrightarrow> db_ok ((replayQueue exec ^^ n) db)"
  by (induction n) (simp_all add: db_ok_replayQueue)

lemma not_pending_kept:
  "db_ok db \<Longrightarrow> queue_of db k = Some i \<Longrightarrow> qi_status i \<noteq> Q_pending \<Longrightarrow> queue_of ((replayQueue exec ^^ n) db) k = Some i"
  by (induction n) (simp_all add: queue_of_replayQueue db_ok_replays)

text \<open>A client that is closed while an action runs leaves its item marked as being processed. No later replay ever attempts
  it again: only pending items are read.\<close>

theorem interrupted_action_stuck:
  assumes "db_ok db" and "queue_of db (qi_id i) = Some i"
  shows "queue_of ((replayQueue exec ^^ n) (mark_processing i db)) (qi_id i) = Some (i\<lparr>qi_status := Q_processing\<rparr>) \<and>
    qi_id i \<notin> qi_id ` set (getPendingSyncItems ((replayQueue exec ^^ n) (mark_processing i db)))"
proof -
  let ?db = "mark_processing i db"
  have ok: "db_ok ?db" using assms(1) by (simp add: mark_processing_def db_ok_update)
  have "queue_of ?db (qi_id i) = Some (i\<lparr>qi_status := Q_processing\<rparr>)" using assms(2) by (simp add: mark_processing_def queue_of_update)
  then have k: "queue_of ((replayQueue exec ^^ n) ?db) (qi_id i) = Some (i\<lparr>qi_status := Q_processing\<rparr>)"
    by (rule not_pending_kept [OF ok]) simp
  have "j \<notin> set (getPendingSyncItems ((replayQueue exec ^^ n) ?db))" if "qi_id j = qi_id i" for j
    unfolding getPending_iff [OF db_ok_replays [OF ok]] using k that by (auto simp: queue_of_def)
  then show ?thesis using k by (metis imageE)
qed

definition sample_item :: SyncQueueItem where
  "sample_item = \<lparr>qi_id = ''contribution_1_a'', qi_type = Contribution, qi_payload = JNull, qi_timestamp = 1, qi_retryCount = 0, qi_status = Q_pending, qi_error = None\<rparr>"

definition sample_db :: offline_db where
  "sample_db = initDB\<lparr>db_syncQueue := [(''contribution_1_a'', sample_item)]\<rparr>"

theorem interrupted_action_stuck_witness:
  "queue_of ((replayQueue executeQueuedAction ^^ 100) (mark_processing sample_item sample_db)) ''contribution_1_a'' =
     Some (sample_item\<lparr>qi_status := Q_processing\<rparr>)"
proof -
  have ok: "db_ok sample_db" "queue_of sample_db (qi_id sample_item) = Some sample_item"
    by (simp_all add: db_ok_def sample_db_def sample_item_def initDB_def queue_of_def)
  show ?thesis using interrupted_action_stuck [OF ok] by (simp add: sample_item_def)
qed

text \<open>An action that keeps failing is attempted three times, then it is given up and keeps its last error.\<close>

theorem given_up_after_three:
  assumes "db_ok db" and "queue_of db k = Some i" and "qi_status i = Q_pending" and "qi_retryCount i = 0"
    and "\<And>j. qi_id j = k \<Longrightarrow> exec j = Inl e" and "n \<ge> 3"
  shows "queue_of ((replayQueue exec ^^ n) db) k = Some (i\<lparr>qi_status := Q_failed, qi_retryCount := 3, qi_error := Some (error_text e)\<rparr>)"
proof -
  have k: "qi_id i = k" using assms(1,2) by (auto simp: queue_of_def db_ok_def list_all_iff dest: map_of_SomeD)
  let ?d = "\<lambda>n. (replayQueue exec ^^ n) db"
  have "queue_of (?d 1) k = Some (i\<lparr>qi_retryCount := 1\<rparr>)"
    using assms k by (simp add: queue_of_replayQueue attempted_def)
  then have "queue_of (?d 2) k = Some (i\<lparr>qi_retryCount := 2\<rparr>)"
    using assms k db_ok_replays [OF assms(1), where exec = exec and n = 1] by (simp add: queue_of_replayQueue attempted_def numeral_2_eq_2)
  then have three: "queue_of (?d 3) k = Some (i\<lparr>qi_status := Q_failed, qi_retryCount := 3, qi_error := Some (error_text e)\<rparr>)"
    using assms k db_ok_replays [OF assms(1), where exec = exec and n = 2] by (simp add: queue_of_replayQueue attempted_def numeral_3_eq_3 numeral_2_eq_2)
  have "?d n = (replayQueue exec ^^ (n - 3)) (?d 3)" using assms(6) by (metis funpow_add comp_apply le_add_diff_inverse2)
  then show ?thesis using not_pending_kept [OF db_ok_replays [OF assms(1)] three, where exec = exec and n = "n - 3"] by simp
qed

text \<open>A synchronisation removes every pending action although none of them is sent anywhere: the branches of
  \<open>executeQueuedAction\<close> only wait.\<close>

theorem queued_actions_dropped:
  assumes "db_ok (sv_db sv)" and "\<not> sv_syncing sv" and "sv_navigator sv"
    and "queue_of (sv_db sv) k = Some i" and "qi_status i = Q_pending"
  shows "queue_of (sv_db (syncAll net now sv)) k = None"
proof -
  have r: "queue_of (replayQueue executeQueuedAction (sv_db sv)) k = None"
    using assms by (simp add: queue_of_replayQueue attempted_def split: action_type.split)
  have keep: "db_syncQueue (fst (refreshCache net now d)) = db_syncQueue d" for d
  proof -
    have one: "db_syncQueue (refresh_group net now pg d) = db_syncQueue d" for pg d
      by (simp add: refresh_group_def cacheGroup_def cacheMembers_def cacheContributions_def split: sum.splits option.splits)
    have "db_syncQueue (fold (refresh_group net now) gs d) = db_syncQueue d" for gs d
      by (induction gs arbitrary: d) (simp_all add: one)
    then show ?thesis by (auto simp: refreshCache_def cacheGroupsList_def Let_def split: sum.splits option.splits)
  qed
  have "db_syncQueue (sv_db (syncAll net now sv)) = db_syncQueue (replayQueue executeQueuedAction (sv_db sv))"
    using assms(2,3) keep [of "replayQueue executeQueuedAction (sv_db sv)"]
    by (auto simp: syncAll_def syncAll_with_def sync_begin_def sync_replay_def sync_refresh_def notifySyncStatus_def updateSyncMetadata_def Let_def
        split: prod.splits sum.splits)
  then show ?thesis using r by (simp add: queue_of_def)
qed

section \<open>Staleness\<close>

lemma mark_fold_stale:
  assumes "\<And>k c. map_of (db_groups d) k = Some c \<Longrightarrow> cg_stale c \<or> k \<in> (\<lambda>c. dg_id (cg_group c)) ` set cs"
  shows "map_of (db_groups (fold (\<lambda>c d. d\<lparr>db_groups := AList.update (dg_id (cg_group c)) (c\<lparr>cg_stale := True\<rparr>) (db_groups d)\<rparr>) cs d)) k = Some c \<Longrightarrow> cg_stale c"
  using assms
proof (induction cs arbitrary: d)
  case (Cons x cs)
  show ?case
  proof (rule Cons.IH [where d = "d\<lparr>db_groups := AList.update (dg_id (cg_group x)) (x\<lparr>cg_stale := True\<rparr>) (db_groups d)\<rparr>"])
    show "map_of (db_groups (fold (\<lambda>c d. d\<lparr>db_groups := AList.update (dg_id (cg_group c)) (c\<lparr>cg_stale := True\<rparr>) (db_groups d)\<rparr>) cs
        (d\<lparr>db_groups := AList.update (dg_id (cg_group x)) (x\<lparr>cg_stale := True\<rparr>) (db_groups d)\<rparr>))) k = Some c"
      using Cons.prems(1) by simp
  next
    fix k' c'
    assume "map_of (db_groups (d\<lparr>db_groups := AList.update (dg_id (cg_group x)) (x\<lparr>cg_stale := True\<rparr>) (db_groups d)\<rparr>)) k' = Some c'"
    then show "cg_stale c' \<or> k' \<in> (\<lambda>c. dg_id (cg_group c)) ` set cs"
      using Cons.prems(2) [of k' c'] by (auto simp: update_conv split: if_splits)
  qed
qed auto

text \<open>Once the handler of a lost connection has marked the cache, everything read from it is reported as stale.\<close>

theorem offline_marks_everything_stale:
  assumes "db_ok db"
  shows "getCachedGroupWithStatus now groupId (markGroupsAsStale db) = (g, stale, fromCache) \<Longrightarrow> fromCache \<Longrightarrow> stale"
    and "getCachedGroupsListWithStatus now (markGroupsAsStale db) = (gs, stale', fromCache') \<Longrightarrow> fromCache' \<Longrightarrow> stale'"
proof -
  have "cg_stale c" if "map_of (db_groups (markGroupsAsStale db)) groupId = Some c" for c
  proof -
    have "cg_stale x \<or> k \<in> (\<lambda>c. dg_id (cg_group c)) ` set (store_values (db_groups db))" if "map_of (db_groups db) k = Some x" for k x
      using map_of_SomeD [OF that] assms by (force simp: db_ok_def list_all_iff)
    then show ?thesis using mark_fold_stale [of db "store_values (db_groups db)" groupId c] that by (simp add: markGroupsAsStale_def Let_def)
  qed
  then show "getCachedGroupWithStatus now groupId (markGroupsAsStale db) = (g, stale, fromCache) \<Longrightarrow> fromCache \<Longrightarrow> stale"
    by (auto simp: getCachedGroupWithStatus_def getCachedGroup_def is_stale_def split: option.splits)
  show "getCachedGroupsListWithStatus now (markGroupsAsStale db) = (gs, stale', fromCache') \<Longrightarrow> fromCache' \<Longrightarrow> stale'"
    by (auto simp: getCachedGroupsListWithStatus_def getCachedGroupsList_def markGroupsAsStale_def is_stale_def Let_def split: option.splits)
qed

end
