(* ===== verification/Privacy.thy ===== *)
theory Privacy
  imports Errors Js_Values Http
begin

text \<open>
  Data export, deletion and retention, \<open>backend/src/privacy_service.ts\<close> with the routes of \<open>backend/src/routes/privacy.ts\<close>.
  The database is a list of rows per model of the schema; a row has the wallet it belongs to (\<open>userId\<close>,
  \<open>walletAddress\<close> or \<open>address\<close>), the columns the code filters on and the other columns as JSON. A transaction is atomic.
  Which calls of the database fail is an argument; the new ids and the clock are arguments; days have 24 hours (UTC).
\<close>

section \<open>Database\<close>

datatype model =
    AnalyticsEvent | AuditLog | NotificationPreference | Notification | NotificationQueue | PushSubscription | Webhook | UserMetrics
  | MemberReputation | RefreshToken | PrivacyRequest
  | MobileDeviceToken | FraudFlag | ApiKey | KycRecord | KycStatusEvent | RampTransaction | Transaction

record row =
  row_id :: string
  row_owner :: "string option"
  row_createdAt :: int
  row_status :: string
  row_expiresAt :: int
  row_columns :: "(string \<times> json) list"

type_synonym database = "model \<Rightarrow> row list"

definition owned :: "string \<Rightarrow> row \<Rightarrow> bool" where
  "owned w r \<longleftrightarrow> row_owner r = Some w"

definition deleteMany :: "model \<Rightarrow> (row \<Rightarrow> bool) \<Rightarrow> database \<Rightarrow> database" where
  "deleteMany m p db = db(m := filter (\<lambda>r. \<not> p r) (db m))"

definition deleted_count :: "model \<Rightarrow> (row \<Rightarrow> bool) \<Rightarrow> database \<Rightarrow> nat" where
  "deleted_count m p db = length (filter p (db m))"

section \<open>Export\<close>

definition redacted :: json where "redacted = JStr ''[redacted]''"

definition row_json :: "row \<Rightarrow> json" where
  "row_json r = JObj (row_columns r)"

definition redact :: "string list \<Rightarrow> row \<Rightarrow> json" where
  "redact ks r = fold (\<lambda>k v. with_field v k redacted) ks (row_json r)"

definition first_json :: "row list \<Rightarrow> json" where
  "first_json rs = (case rs of [] \<Rightarrow> JNull | r # _ \<Rightarrow> row_json r)"

definition exportUserData :: "string \<Rightarrow> string \<Rightarrow> database \<Rightarrow> json" where
  "exportUserData exportedAt w db =
     (let found = (\<lambda>m. filter (owned w) (db m)); all = (\<lambda>m. JArr (map row_json (found m)))
      in JObj [(''exportedAt'', JStr exportedAt), (''walletAddress'', JStr w),
               (''analyticsEvents'', all AnalyticsEvent), (''auditLogs'', all AuditLog),
               (''notificationPreferences'', first_json (found NotificationPreference)),
               (''notifications'', all Notification), (''notificationQueue'', all NotificationQueue),
               (''pushSubscriptions'', JArr (map (redact [''p256dh'', ''auth'']) (found PushSubscription))),
               (''webhooks'', JArr (map (redact [''secret'']) (found Webhook))),
               (''userMetrics'', all UserMetrics), (''reputation'', first_json (found MemberReputation)),
               (''privacyRequests'', all PrivacyRequest)])"

section \<open>Deletion\<close>

definition deletion_tables :: "model list" where
  "deletion_tables =
     [AnalyticsEvent, AuditLog, NotificationPreference, Notification, NotificationQueue, PushSubscription, Webhook, UserMetrics,
      MemberReputation, RefreshToken]"

definition deleteUserData :: "string \<Rightarrow> database \<Rightarrow> database" where
  "deleteUserData w db = fold (\<lambda>m. deleteMany m (owned w)) deletion_tables db"

section \<open>Requests\<close>

definition createPrivacyRequest :: "string \<Rightarrow> int \<Rightarrow> string \<Rightarrow> string \<Rightarrow> database \<Rightarrow> database" where
  "createPrivacyRequest i now w requestType db =
     db(PrivacyRequest := db PrivacyRequest @
          [\<lparr>row_id = i, row_owner = Some w, row_createdAt = now, row_status = ''pending'', row_expiresAt = 0,
            row_columns = [(''requestType'', JStr requestType)]\<rparr>])"

definition completePrivacyRequest :: "string \<Rightarrow> string \<Rightarrow> database \<Rightarrow> database" where
  "completePrivacyRequest i status db =
     db(PrivacyRequest := map (\<lambda>r. if row_id r = i then r\<lparr>row_status := status\<rparr> else r) (db PrivacyRequest))"

section \<open>Retention\<close>

definition enforceRetention :: "int \<Rightarrow> int \<Rightarrow> database \<Rightarrow> database \<times> (string \<times> nat) list" where
  "enforceRetention days now db =
     (let cutoff = now - days * 86400000;
          old = (\<lambda>r. row_createdAt r < cutoff);
          oldSent = (\<lambda>r. row_createdAt r < cutoff \<and> row_status r \<in> {''sent'', ''failed''});
          oldDone = (\<lambda>r. row_createdAt r < cutoff \<and> row_status r = ''completed'');
          expired = (\<lambda>r. row_expiresAt r < now);
          db1 = deleteMany AnalyticsEvent old db; db2 = deleteMany AuditLog old db1;
          db3 = deleteMany Notification oldSent db2; db4 = deleteMany NotificationQueue oldDone db3;
          db5 = deleteMany RefreshToken expired db4
      in (db5, [(''analyticsEvents'', deleted_count AnalyticsEvent old db), (''auditLogs'', deleted_count AuditLog old db1),
                (''notifications'', deleted_count Notification oldSent db2), (''notificationQueue'', deleted_count NotificationQueue oldDone db3),
                (''expiredRefreshTokens'', deleted_count RefreshToken expired db4)]))"

section \<open>Routes\<close>

text \<open>The calls of the database, each of which may fail.\<close>

datatype db_call = Create_request | Collect | Delete_all | Complete_ok | Complete_failed

text \<open>After a failure the request is marked as failed if it was created; a second failure there is swallowed.\<close>

definition privacy_failed :: "(db_call \<Rightarrow> bool) \<Rightarrow> string option \<Rightarrow> database \<Rightarrow> database" where
  "privacy_failed fails requestId db =
     (case requestId of Some i \<Rightarrow> if fails Complete_failed then db else completePrivacyRequest i ''failed'' db | None \<Rightarrow> db)"

definition privacy_export_route :: "(db_call \<Rightarrow> bool) \<Rightarrow> string \<Rightarrow> string \<Rightarrow> int \<Rightarrow> string \<Rightarrow> response \<Rightarrow> database \<Rightarrow> database \<times> (thrown + response)" where
  "privacy_export_route fails i exportedAt now w res db =
     (let err = AppError ''AppError'' ''PRIVACY_EXPORT_FAILED'' ''Failed to export data'' 500 None
      in if fails Create_request then (privacy_failed fails None db, Inl err)
         else
           let db1 = createPrivacyRequest i now w ''export'' db
           in if fails Collect then (privacy_failed fails (Some i) db1, Inl err)
              else
                let payload = exportUserData exportedAt w db1
                in if fails Complete_ok then (privacy_failed fails (Some i) db1, Inl err)
                   else
                     let db2 = completePrivacyRequest i ''completed'' db1
                     in (db2, Inr (send_json 200 payload
                           (res\<lparr>res_headers := (res_headers res)(''Content-Disposition'' \<mapsto> ''attachment; filename='' @ [CHR 0x22] @ ''stellar-save-data-export.json'' @ [CHR 0x22])\<rparr>))))"

definition privacy_delete_route :: "(db_call \<Rightarrow> bool) \<Rightarrow> string \<Rightarrow> int \<Rightarrow> string \<Rightarrow> response \<Rightarrow> database \<Rightarrow> database \<times> (thrown + response)" where
  "privacy_delete_route fails i now w res db =
     (let err = AppError ''AppError'' ''PRIVACY_DELETE_FAILED'' ''Failed to delete data'' 500 None
      in if fails Create_request then (privacy_failed fails None db, Inl err)
         else
           let db1 = createPrivacyRequest i now w ''deletion'' db
           in if fails Delete_all then (privacy_failed fails (Some i) db1, Inl err)
              else
                let db2 = deleteUserData w db1
                in if fails Complete_ok then (privacy_failed fails (Some i) db2, Inl err)
                   else (completePrivacyRequest i ''completed'' db2,
                         Inr (send_json 200 (JObj [(''message'', JStr ''All personal data has been permanently deleted.'')]) res)))"

text \<open>Newest first.\<close>

definition privacy_requests_route :: "bool \<Rightarrow> string \<Rightarrow> response \<Rightarrow> database \<Rightarrow> thrown + response" where
  "privacy_requests_route fails w res db =
     (if fails then Inl (AppError ''AppError'' ''PRIVACY_REQUESTS_FETCH_FAILED'' ''Failed to fetch privacy requests'' 500 None)
      else Inr (send_json 200 (JObj [(''requests'', JArr (map row_json (sort_key (\<lambda>r. - row_createdAt r) (filter (owned w) (db PrivacyRequest)))))]) res))"

section \<open>Theorems\<close>

lemma fold_deleteMany: "fold (\<lambda>m. deleteMany m p) ms db t = (if t \<in> set ms then filter (\<lambda>r. \<not> p r) (db t) else db t)"
  by (induction ms arbitrary: db) (auto simp: deleteMany_def)

lemma deleteUserData_table: "deleteUserData w db m = (if m \<in> set deletion_tables then filter (\<lambda>r. \<not> owned w r) (db m) else db m)"
  unfolding deleteUserData_def by (rule fold_deleteMany)

lemma completed_other [simp]: "m \<noteq> PrivacyRequest \<Longrightarrow> completePrivacyRequest i s db m = db m"
  by (simp add: completePrivacyRequest_def)

lemma created_other [simp]: "m \<noteq> PrivacyRequest \<Longrightarrow> createPrivacyRequest i now w t db m = db m"
  by (simp add: createPrivacyRequest_def)

text \<open>The deletion removes exactly the rows of the wallet from the tables of the inventory, and no row of anyone else.\<close>

theorem deletion_exact:
  assumes "privacy_delete_route fails i now w res db = (db', Inr res')" and "m \<noteq> PrivacyRequest"
  shows "db' m = (if m \<in> set deletion_tables then filter (\<lambda>r. \<not> owned w r) (db m) else db m)"
  using assms by (auto simp: privacy_delete_route_def Let_def deleteUserData_table split: if_splits)

text \<open>What the response calls all personal data leaves seven models with rows of the wallet: device tokens, fraud flags, API
  keys, identity records and their history, ramp transactions and transactions.\<close>

theorem deletion_leaves_personal_data:
  assumes "privacy_delete_route fails i now w res db = (db', Inr res')"
    and "m \<in> {MobileDeviceToken, FraudFlag, ApiKey, KycRecord, KycStatusEvent, RampTransaction, Transaction}" and "r \<in> set (db m)"
  shows "r \<in> set (db' m) \<and> res_body res' = JObj [(''message'', JStr ''All personal data has been permanently deleted.'')]"
  using assms by (auto simp: privacy_delete_route_def Let_def deleteUserData_table deletion_tables_def send_json_def split: if_splits)

text \<open>When only the last update fails, the caller is told that the deletion failed and the request is marked as failed,
  although every row of the inventory is gone.\<close>

theorem failed_deletion_may_have_deleted:
  assumes "\<not> fails Create_request" "\<not> fails Delete_all" "fails Complete_ok" "\<not> fails Complete_failed"
  shows "\<exists>db' e. privacy_delete_route fails i now w res db = (db', Inl e) \<and> (\<forall>m \<in> set deletion_tables. filter (owned w) (db' m) = []) \<and>
    (\<exists>r \<in> set (db' PrivacyRequest). row_id r = i \<and> row_status r = ''failed'')"
proof -
  let ?db1 = "createPrivacyRequest i now w ''deletion'' db"
  let ?db' = "completePrivacyRequest i ''failed'' (deleteUserData w ?db1)"
  have 1: "snd (privacy_delete_route fails i now w res db) = Inl (AppError ''AppError'' ''PRIVACY_DELETE_FAILED'' ''Failed to delete data'' 500 None)"
    "fst (privacy_delete_route fails i now w res db) = ?db'"
    using assms by (simp_all add: privacy_delete_route_def privacy_failed_def Let_def)
  have 2: "\<forall>m \<in> set deletion_tables. filter (owned w) (?db' m) = []"
    by (auto simp: deletion_tables_def deleteUserData_table filter_empty_conv)
  have 3: "\<exists>r \<in> set (?db' PrivacyRequest). row_id r = i \<and> row_status r = ''failed''"
    by (simp add: completePrivacyRequest_def deleteUserData_table deletion_tables_def createPrivacyRequest_def)
  show ?thesis using 1 2 3 by (metis prod.collapse)
qed

text \<open>The export names no credential: the keys of push subscriptions and the secrets of webhooks are replaced.\<close>

lemma redact_field: "k \<in> set ks \<Longrightarrow> json_field (redact ks r) k = Some redacted"
proof -
  have "json_field (fold (\<lambda>k v. with_field v k redacted) ks v) k = (if k \<in> set ks then Some redacted else json_field v k)" for v
    by (induction ks arbitrary: v) auto
  then show "k \<in> set ks \<Longrightarrow> json_field (redact ks r) k = Some redacted" by (simp add: redact_def)
qed

theorem export_redacts_credentials:
  "\<exists>subs hooks. json_field (exportUserData t w db) ''pushSubscriptions'' = Some (JArr subs) \<and>
     json_field (exportUserData t w db) ''webhooks'' = Some (JArr hooks) \<and>
     list_all (\<lambda>s. json_field s ''p256dh'' = Some redacted \<and> json_field s ''auth'' = Some redacted) subs \<and>
     list_all (\<lambda>h. json_field h ''secret'' = Some redacted) hooks"
  by (simp add: exportUserData_def json_field_def [of "JObj _"] Let_def list_all_iff redact_field)

lemma deleteMany_other: "m' \<noteq> m \<Longrightarrow> deleteMany m p db m' = db m'"
  by (simp add: deleteMany_def)

lemma deleted_accounts: "length (deleteMany m p db m) + deleted_count m p db = length (db m)"
  using sum_length_filter_compl [of p "db m"] by (simp add: deleted_count_def deleteMany_def)

text \<open>Retention: no event and no access log older than the limit is left; the counts are what the tables lost. A
  notification that was never sent is kept however old it is.\<close>

theorem retention_enforced:
  assumes "enforceRetention days now db = (db', counts)"
  shows "(\<forall>r \<in> set (db' AnalyticsEvent) \<union> set (db' AuditLog). row_createdAt r \<ge> now - days * 86400000) \<and>
    (\<forall>r \<in> set (db' RefreshToken). row_expiresAt r \<ge> now) \<and>
    sum_list (map snd counts) + sum_list (map (\<lambda>m. length (db' m)) [AnalyticsEvent, AuditLog, Notification, NotificationQueue, RefreshToken]) =
    sum_list (map (\<lambda>m. length (db m)) [AnalyticsEvent, AuditLog, Notification, NotificationQueue, RefreshToken]) \<and>
    (r \<in> set (db Notification) \<and> row_status r = ''pending'' \<longrightarrow> r \<in> set (db' Notification))"
proof -
  have db': "db' = fst (enforceRetention days now db)" "counts = snd (enforceRetention days now db)" using assms by simp_all
  have "\<forall>r \<in> set (db' AnalyticsEvent) \<union> set (db' AuditLog). row_createdAt r \<ge> now - days * 86400000"
    "\<forall>r \<in> set (db' RefreshToken). row_expiresAt r \<ge> now" "r \<in> set (db Notification) \<and> row_status r = ''pending'' \<longrightarrow> r \<in> set (db' Notification)"
    by (auto simp: db' enforceRetention_def deleteMany_def Let_def)
  moreover have "sum_list (map snd counts) + sum_list (map (\<lambda>m. length (db' m)) [AnalyticsEvent, AuditLog, Notification, NotificationQueue, RefreshToken]) =
    sum_list (map (\<lambda>m. length (db m)) [AnalyticsEvent, AuditLog, Notification, NotificationQueue, RefreshToken])"
  proof -
    let ?old = "\<lambda>r. row_createdAt r < now - days * 86400000"
    let ?sent = "\<lambda>r. row_createdAt r < now - days * 86400000 \<and> row_status r \<in> {''sent'', ''failed''}"
    let ?done = "\<lambda>r. row_createdAt r < now - days * 86400000 \<and> row_status r = ''completed''"
    define db1 where "db1 = deleteMany AnalyticsEvent ?old db"
    define db2 where "db2 = deleteMany AuditLog ?old db1"
    define db3 where "db3 = deleteMany Notification ?sent db2"
    define db4 where "db4 = deleteMany NotificationQueue ?done db3"
    define db5 where "db5 = deleteMany RefreshToken (\<lambda>r. row_expiresAt r < now) db4"
    note steps = db1_def db2_def db3_def db4_def db5_def
    have "length (db1 AnalyticsEvent) + deleted_count AnalyticsEvent ?old db = length (db AnalyticsEvent)"
      "length (db2 AuditLog) + deleted_count AuditLog ?old db1 = length (db1 AuditLog)"
      "length (db3 Notification) + deleted_count Notification ?sent db2 = length (db2 Notification)"
      "length (db4 NotificationQueue) + deleted_count NotificationQueue ?done db3 = length (db3 NotificationQueue)"
      "length (db5 RefreshToken) + deleted_count RefreshToken (\<lambda>r. row_expiresAt r < now) db4 = length (db4 RefreshToken)"
      unfolding steps by (rule deleted_accounts)+
    moreover have "db5 AnalyticsEvent = db1 AnalyticsEvent" "db5 AuditLog = db2 AuditLog" "db5 Notification = db3 Notification"
      "db5 NotificationQueue = db4 NotificationQueue" "db1 AuditLog = db AuditLog" "db2 Notification = db Notification"
      "db3 NotificationQueue = db NotificationQueue" "db4 RefreshToken = db RefreshToken"
      by (simp_all add: steps deleteMany_other)
    moreover have "db' = db5" "map snd counts = [deleted_count AnalyticsEvent ?old db, deleted_count AuditLog ?old db1, deleted_count Notification ?sent db2,
        deleted_count NotificationQueue ?done db3, deleted_count RefreshToken (\<lambda>r. row_expiresAt r < now) db4]"
      by (simp_all add: db' enforceRetention_def Let_def steps)
    ultimately show ?thesis by simp
  qed
  ultimately show ?thesis by blast
qed

end
