(* ===== verification/Ab_Testing.thy ===== *)
theory Ab_Testing
  imports Prelude "HOL-Library.Word"
begin

text \<open>
  Bucketing of users, \<open>backend/src/ab_testing.ts\<close>. The bit operators of JavaScript work on words of 32 bits; the store of
  assignments is a map.
\<close>

datatype TestBucket = Bucket_A | Bucket_B

type_synonym bucket_store = "string \<rightharpoonup> TestBucket"

text \<open>\<open>hash = (hash << 5) - hash + char; hash |= 0\<close>\<close>

definition hash_char :: "32 word \<Rightarrow> char \<Rightarrow> 32 word" where
  "hash_char hash c = push_bit 5 hash - hash + of_nat (of_char c)"

definition simpleHash :: "string \<Rightarrow> int" where
  "simpleHash str = \<bar>sint (foldl hash_char 0 str)\<bar>"

definition getBucket :: "string \<Rightarrow> bucket_store \<Rightarrow> bucket_store \<times> TestBucket" where
  "getBucket userId store =
     (case store userId of
        Some b \<Rightarrow> (store, b)
      | None \<Rightarrow> let b = (if simpleHash userId mod 2 = 0 then Bucket_A else Bucket_B) in (store(userId \<mapsto> b), b))"

definition isInBucket :: "string \<Rightarrow> string \<Rightarrow> TestBucket \<Rightarrow> bucket_store \<Rightarrow> bucket_store \<times> bool" where
  "isInBucket userId experimentKey expected store = (let (store', b) = getBucket userId store in (store', b = expected))"

section \<open>The hash and its parity\<close>

lemma even_of_nat_word: "even (of_nat n :: 32 word) \<longleftrightarrow> even n"
  using bit_of_nat_iff [where 'a = "32 word", of n 0] by (simp add: bit_0)

lemma even_sint: "even (sint (w :: 32 word)) \<longleftrightarrow> even w"
  using bit_sint_iff [of w 0] by (simp add: bit_0)

lemma even_hash_char: "even (hash_char h c) \<longleftrightarrow> even h = even (of_char c :: nat)"
proof -
  have "hash_char h c = 31 * h + of_nat (of_char c)" by (simp add: hash_char_def push_bit_eq_mult)
  then show ?thesis by (simp add: even_of_nat_word)
qed

definition char_sum :: "string \<Rightarrow> nat" where
  "char_sum s = sum_list (map of_char s)"

lemma even_fold_hash: "even (foldl hash_char h s) \<longleftrightarrow> even h = even (char_sum s)"
  by (induction s arbitrary: h) (auto simp: even_hash_char char_sum_def)

text \<open>A user without an assignment gets bucket A if the sum of the character codes of the id is even: neither the order of the
  characters nor the wrap-around of the hash matters.\<close>

theorem bucket_is_parity:
  assumes "store userId = None"
  shows "snd (getBucket userId store) = (if even (char_sum userId) then Bucket_A else Bucket_B)"
proof -
  have "even (simpleHash userId) \<longleftrightarrow> even (char_sum userId)"
    using even_fold_hash [of 0 userId] by (simp add: simpleHash_def even_sint)
  then show ?thesis using assms by (auto simp: getBucket_def Let_def even_iff_mod_2_eq_zero)
qed


theorem bucket_is_parity_witness: "snd (getBucket ''ab'' Map.empty) = Bucket_B \<and> snd (getBucket ''ba'' Map.empty) = Bucket_B"
proof -
  have "char_sum ''ab'' = 195" "char_sum ''ba'' = 195" by (simp_all add: char_sum_def)
  then show ?thesis using bucket_is_parity [of Map.empty "''ab''"] bucket_is_parity [of Map.empty "''ba''"] by simp
qed

text \<open>The bucket of a user does not change, whatever other users are assigned in between.\<close>

definition assign_all :: "string list \<Rightarrow> bucket_store \<Rightarrow> bucket_store" where
  "assign_all us store = fold (\<lambda>u st. fst (getBucket u st)) us store"

lemma getBucket_stored: "fst (getBucket u store) u = Some (snd (getBucket u store))"
  by (auto simp: getBucket_def Let_def split: option.splits)

lemma getBucket_keeps: "store u = Some b \<Longrightarrow> fst (getBucket v store) u = Some b"
  by (auto simp: getBucket_def Let_def split: option.splits)

theorem bucket_stable: "snd (getBucket u (assign_all us (fst (getBucket u store)))) = snd (getBucket u store)"
proof -
  have "store' u = Some b \<Longrightarrow> assign_all us store' u = Some b" for store' b
    unfolding assign_all_def by (induction us arbitrary: store') (simp_all add: getBucket_keeps)
  then have "assign_all us (fst (getBucket u store)) u = Some (snd (getBucket u store))" using getBucket_stored by blast
  then show ?thesis by (simp add: getBucket_def)
qed

text \<open>All experiments share one assignment: the key of the experiment is not used, so whoever is in the test group of one
  experiment is in the test group of every other.\<close>

theorem experiments_share_buckets: "isInBucket u e1 b store = isInBucket u e2 b store"
  by (simp add: isInBucket_def)

end
