(* ===== verification/Export_Jobs.thy ===== *)
theory Export_Jobs
  imports Errors Prelude
begin

text \<open>
  Export jobs, \<open>backend/src/export_service.ts\<close>. The jobs are a map from ids to jobs; a job is processed in two parts, before and
  after the wait, and the second part changes the job object, which may have left the map. Ids, the clock and the
  outcome of the e-mail are arguments.
\<close>

datatype ExportFormat = CSV | JSON

datatype ExportStatus = Ex_pending | Ex_processing | Ex_completed | Ex_failed

record ExportJob =
  ex_id :: string
  ex_userId :: string
  ex_format :: ExportFormat
  ex_status :: ExportStatus
  ex_createdAt :: int
  ex_completedAt :: "int option"
  ex_fileUrl :: "string option"
  ex_error :: "string option"

fun format_suffix :: "ExportFormat \<Rightarrow> string" where
  "format_suffix CSV = ''csv''"
| "format_suffix JSON = ''json''"

record export_service =
  ex_jobs :: "string \<rightharpoonup> ExportJob"
  ex_waiting :: "string list"

definition ex_update :: "string \<Rightarrow> (ExportJob \<Rightarrow> ExportJob) \<Rightarrow> export_service \<Rightarrow> export_service" where
  "ex_update i f sv = sv\<lparr>ex_jobs := (ex_jobs sv)(i := map_option f (ex_jobs sv i))\<rparr>"

text \<open>The part of \<open>processJob\<close> up to the wait.\<close>

definition processJob_start :: "string \<Rightarrow> export_service \<Rightarrow> export_service" where
  "processJob_start jobId sv =
     (case ex_jobs sv jobId of
        None \<Rightarrow> sv
      | Some _ \<Rightarrow> (ex_update jobId (\<lambda>j. j\<lparr>ex_status := Ex_processing\<rparr>) sv)\<lparr>ex_waiting := ex_waiting sv @ [jobId]\<rparr>)"

definition createJob :: "string \<Rightarrow> int \<Rightarrow> string \<Rightarrow> ExportFormat \<Rightarrow> export_service \<Rightarrow> export_service \<times> string" where
  "createJob jobId now userId format sv =
     (let job = \<lparr>ex_id = jobId, ex_userId = userId, ex_format = format, ex_status = Ex_pending, ex_createdAt = now,
                 ex_completedAt = None, ex_fileUrl = None, ex_error = None\<rparr>
      in (processJob_start jobId (sv\<lparr>ex_jobs := (ex_jobs sv)(jobId \<mapsto> job)\<rparr>), jobId))"

definition getExportJob :: "string \<Rightarrow> export_service \<Rightarrow> ExportJob option" where
  "getExportJob jobId sv = ex_jobs sv jobId"

text \<open>\<open>error instanceof Error ? error.message : String(error)\<close>\<close>

fun thrown_text :: "thrown \<Rightarrow> string" where
  "thrown_text (ThrownValue s) = s"
| "thrown_text e = err_message e"

definition download_url :: "ExportJob \<Rightarrow> string" where
  "download_url j = ''https://stellar-save.exports/download/'' @ ex_id j @ ''.'' @ format_suffix (ex_format j)"

definition finish_job :: "int \<Rightarrow> thrown + unit \<Rightarrow> ExportJob \<Rightarrow> ExportJob" where
  "finish_job now mail j =
     (let j1 = j\<lparr>ex_fileUrl := Some (download_url j), ex_status := Ex_completed, ex_completedAt := Some now\<rparr>
      in case mail of Inr _ \<Rightarrow> j1 | Inl e \<Rightarrow> j1\<lparr>ex_status := Ex_failed, ex_error := Some (thrown_text e)\<rparr>)"

text \<open>The rest of \<open>processJob\<close>.\<close>

definition processJob_finish :: "string \<Rightarrow> int \<Rightarrow> thrown + unit \<Rightarrow> export_service \<Rightarrow> export_service" where
  "processJob_finish jobId now mail sv = (ex_update jobId (finish_job now mail) sv)\<lparr>ex_waiting := removeAll jobId (ex_waiting sv)\<rparr>"

definition cleanupOldJobs :: "int \<Rightarrow> export_service \<Rightarrow> export_service" where
  "cleanupOldJobs now sv =
     sv\<lparr>ex_jobs := (\<lambda>i. case ex_jobs sv i of Some j \<Rightarrow> if now - ex_createdAt j > 24 * 60 * 60 * 1000 then None else Some j | None \<Rightarrow> None)\<rparr>"

section \<open>CSV\<close>

record interaction =
  in_groupId :: string
  in_type :: string
  in_timestamp :: int

definition csv_line :: "string \<Rightarrow> string \<Rightarrow> string \<Rightarrow> int \<Rightarrow> string" where
  "csv_line kind i v t = kind @ '','' @ i @ '','' @ v @ '','' @ string_of_int t @ [CHR 0x0A]"

definition convertToCSV :: "int \<Rightarrow> (string \<times> string list) option \<Rightarrow> interaction list \<Rightarrow> string" where
  "convertToCSV now prefs interactions =
     ''Type,ID,Value,Timestamp'' @ [CHR 0x0A] @
     (case prefs of Some (userId, tags) \<Rightarrow> csv_line ''Preference'' userId (join ''|'' tags) now | None \<Rightarrow> []) @
     concat (map (\<lambda>i. csv_line ''Interaction'' (in_groupId i) (in_type i) (in_timestamp i)) interactions)"

section \<open>Jobs over time\<close>

inductive export_step :: "export_service \<Rightarrow> export_service \<Rightarrow> bool" where
  create: "ex_jobs sv i = None \<Longrightarrow> i \<notin> set (ex_waiting sv) \<Longrightarrow> export_step sv (fst (createJob i now u f sv))"
| finish: "i \<in> set (ex_waiting sv) \<Longrightarrow> export_step sv (processJob_finish i now mail sv)"
| cleanup: "export_step sv (cleanupOldJobs now sv)"

definition no_jobs :: export_service where
  "no_jobs = \<lparr>ex_jobs = Map.empty, ex_waiting = []\<rparr>"

text \<open>What holds of every job: it is being processed exactly while its second part is outstanding, a finished job has its link
  and time, and only a job whose e-mail failed has an error.\<close>

definition export_ok :: "string list \<Rightarrow> string \<Rightarrow> ExportJob \<Rightarrow> bool" where
  "export_ok waiting i j \<longleftrightarrow>
     ex_id j = i \<and> ex_status j \<noteq> Ex_pending \<and> (ex_status j = Ex_processing \<longleftrightarrow> i \<in> set waiting) \<and>
     (ex_status j \<noteq> Ex_processing \<longleftrightarrow> ex_completedAt j \<noteq> None) \<and>
     (ex_fileUrl j = (if ex_status j = Ex_processing then None else Some (download_url j))) \<and>
     (ex_error j \<noteq> None \<longleftrightarrow> ex_status j = Ex_failed)"

definition exports_ok :: "export_service \<Rightarrow> bool" where
  "exports_ok sv \<longleftrightarrow> (\<forall>i j. ex_jobs sv i = Some j \<longrightarrow> export_ok (ex_waiting sv) i j)"

lemma export_ok_finish: "export_ok w i j \<Longrightarrow> i \<in> set w \<Longrightarrow> export_ok (removeAll i w) i (finish_job now mail j)"
  unfolding export_ok_def finish_job_def Let_def by (cases mail) (simp_all add: download_url_def)

lemma export_ok_other: "export_ok w k j \<Longrightarrow> k \<noteq> i \<Longrightarrow> export_ok (removeAll i w) k j \<and> export_ok (w @ [i]) k j"
  unfolding export_ok_def by auto

lemma step_jobs_ok: "export_step sv sv' \<Longrightarrow> exports_ok sv \<Longrightarrow> exports_ok sv'"
proof (induction rule: export_step.induct)
  case (create sv i now u f)
  have "export_ok (ex_waiting sv @ [i]) i \<lparr>ex_id = i, ex_userId = u, ex_format = f, ex_status = Ex_processing, ex_createdAt = now,
     ex_completedAt = None, ex_fileUrl = None, ex_error = None\<rparr>" by (simp add: export_ok_def)
  then show ?case using create export_ok_other by (auto simp: createJob_def processJob_start_def ex_update_def exports_ok_def)
next
  case (finish i sv now mail)
  then show ?case
    using export_ok_finish export_ok_other by (fastforce simp: processJob_finish_def ex_update_def exports_ok_def split: if_splits)
next
  case (cleanup sv now)
  then show ?case by (auto simp: cleanupOldJobs_def exports_ok_def split: option.splits if_splits)
qed

lemma no_jobs_ok: "exports_ok no_jobs"
  by (simp add: no_jobs_def exports_ok_def)

text \<open>Every job that can be looked up, after any interleaving of requests, e-mails and clean-ups, is well formed.\<close>

theorem export_jobs_consistent:
  assumes "export_step\<^sup>*\<^sup>* no_jobs sv" and "getExportJob i sv = Some j"
  shows "export_ok (ex_waiting sv) i j"
proof -
  have "exports_ok sv" using assms(1) by (induction rule: rtranclp_induct) (auto intro: step_jobs_ok no_jobs_ok)
  then show ?thesis using assms(2) by (simp add: exports_ok_def getExportJob_def)
qed

text \<open>A job whose file is ready but whose e-mail failed is reported as failed, with its link.\<close>

theorem mail_failure_fails_export:
  assumes "ex_jobs sv i = Some j"
  shows "\<exists>j'. getExportJob i (processJob_finish i now (Inl e) sv) = Some j' \<and> ex_status j' = Ex_failed \<and> ex_fileUrl j' = Some (download_url j)"
  using assms by (simp add: getExportJob_def processJob_finish_def ex_update_def finish_job_def)

text \<open>After a clean-up no job is older than a day, and younger ones are untouched.\<close>

theorem cleanup_exact:
  "getExportJob i (cleanupOldJobs now sv) = Some j \<longleftrightarrow> getExportJob i sv = Some j \<and> now - ex_createdAt j \<le> 24 * 60 * 60 * 1000"
  by (auto simp: getExportJob_def cleanupOldJobs_def split: option.splits if_splits)

text \<open>Fields are not quoted: a line has three commas and as many more as its fields contain, so a group id with a comma shifts
  the columns behind it.\<close>

theorem csv_columns:
  "count_list (csv_line kind i v t) CHR '','' = 3 + count_list kind CHR '','' + count_list i CHR '','' + count_list v CHR '','' + count_list (string_of_int t) CHR '',''"
  by (simp add: csv_line_def)

end
