(* ===== verification/Sessions.thy ===== *)
theory Sessions
  imports Errors
begin

text \<open>
  Sessions by refresh tokens, \<open>backend/src/modules/auth/auth_service.ts\<close>. The table is a list of rows with unique hashes.
  The digest, random secrets and family ids, and the clock are arguments. A rotation reads its row and then writes, with
  other requests possible in between: it is one function, and also two halves for the interleaved steps.
\<close>

section \<open>The table\<close>

record RefreshTokenRow =
  rt_tokenHash :: string
  rt_walletAddress :: string
  rt_familyId :: string
  rt_used :: bool
  rt_revokedAt :: "int option"
  rt_expiresAt :: int

type_synonym tokens = "RefreshTokenRow list"

definition findToken :: "string \<Rightarrow> tokens \<Rightarrow> RefreshTokenRow option" where
  "findToken h ts = List.find (\<lambda>r. rt_tokenHash r = h) ts"

definition tokenExpiresAt :: "int \<Rightarrow> int \<Rightarrow> int" where
  "tokenExpiresAt days now = now + days * 86400000"

text \<open>A second row with the same hash violates the unique index.\<close>

definition issueRefreshToken :: "(string \<Rightarrow> string) \<Rightarrow> int \<Rightarrow> int \<Rightarrow> string \<Rightarrow> string \<Rightarrow> string \<Rightarrow> tokens \<Rightarrow> tokens \<times> (thrown + string)" where
  "issueRefreshToken hashToken days now raw family wallet ts =
     (if findToken (hashToken raw) ts \<noteq> None then (ts, Inl (PlainError ''Unique constraint failed''))
      else (ts @ [\<lparr>rt_tokenHash = hashToken raw, rt_walletAddress = wallet, rt_familyId = family, rt_used = False,
                   rt_revokedAt = None, rt_expiresAt = tokenExpiresAt days now\<rparr>], Inr raw))"

definition revoke_where :: "(RefreshTokenRow \<Rightarrow> bool) \<Rightarrow> int \<Rightarrow> tokens \<Rightarrow> tokens" where
  "revoke_where p now ts = map (\<lambda>r. if p r \<and> rt_revokedAt r = None then r\<lparr>rt_revokedAt := Some now\<rparr> else r) ts"

definition revokeFamilyTokens :: "string \<Rightarrow> int \<Rightarrow> tokens \<Rightarrow> tokens" where
  "revokeFamilyTokens family = revoke_where (\<lambda>r. rt_familyId r = family)"

definition revokeAllSessions :: "string \<Rightarrow> int \<Rightarrow> tokens \<Rightarrow> tokens" where
  "revokeAllSessions wallet = revoke_where (\<lambda>r. rt_walletAddress r = wallet)"

definition revokeSession :: "(string \<Rightarrow> string) \<Rightarrow> string \<Rightarrow> int \<Rightarrow> tokens \<Rightarrow> tokens" where
  "revokeSession hashToken raw now ts =
     (case findToken (hashToken raw) ts of Some r \<Rightarrow> revokeFamilyTokens (rt_familyId r) now ts | None \<Rightarrow> ts)"

section \<open>Rotation\<close>

definition mark_used :: "string \<Rightarrow> tokens \<Rightarrow> tokens" where
  "mark_used h ts = map (\<lambda>r. if rt_tokenHash r = h then r\<lparr>rt_used := True\<rparr> else r) ts"

text \<open>The first half: the row as it was read, and the checks on it.\<close>

definition rotate_check :: "(string \<Rightarrow> string) \<Rightarrow> int \<Rightarrow> string \<Rightarrow> tokens \<Rightarrow> tokens \<times> (thrown + RefreshTokenRow)" where
  "rotate_check hashToken now raw ts =
     (case findToken (hashToken raw) ts of
        None \<Rightarrow> (ts, Inl (PlainError ''Invalid refresh token.''))
      | Some record \<Rightarrow>
          if rt_revokedAt record \<noteq> None then (ts, Inl (PlainError ''Refresh token has been revoked.''))
          else if rt_expiresAt record < now then (ts, Inl (PlainError ''Refresh token has expired.''))
          else if rt_used record
               then (revokeFamilyTokens (rt_familyId record) now ts, Inl (PlainError ''Refresh token reuse detected. All sessions invalidated.''))
               else (ts, Inr record))"

text \<open>The second half: the row is marked, a new one is created.\<close>

definition rotate_commit :: "(string \<Rightarrow> string) \<Rightarrow> int \<Rightarrow> int \<Rightarrow> string \<Rightarrow> RefreshTokenRow \<Rightarrow> tokens \<Rightarrow> tokens \<times> (thrown + string)" where
  "rotate_commit hashToken days now newRaw record ts =
     issueRefreshToken hashToken days now newRaw (rt_familyId record) (rt_walletAddress record) (mark_used (rt_tokenHash record) ts)"

definition rotateRefreshToken ::
  "(string \<Rightarrow> string) \<Rightarrow> (string \<Rightarrow> string) \<Rightarrow> int \<Rightarrow> int \<Rightarrow> string \<Rightarrow> string \<Rightarrow> tokens \<Rightarrow> tokens \<times> (thrown + string \<times> string)" where
  "rotateRefreshToken hashToken issueJwt days now newRaw raw ts =
     (case rotate_check hashToken now raw ts of
        (ts1, Inl e) \<Rightarrow> (ts1, Inl e)
      | (ts1, Inr record) \<Rightarrow>
          (case rotate_commit hashToken days now newRaw record ts1 of
             (ts2, Inl e) \<Rightarrow> (ts2, Inl e)
           | (ts2, Inr refresh) \<Rightarrow> (ts2, Inr (issueJwt (rt_walletAddress record), refresh))))"

section \<open>Live tokens\<close>

definition live_token :: "RefreshTokenRow \<Rightarrow> bool" where
  "live_token r \<longleftrightarrow> \<not> rt_used r \<and> rt_revokedAt r = None"

definition live_in :: "string \<Rightarrow> tokens \<Rightarrow> RefreshTokenRow list" where
  "live_in family ts = filter (\<lambda>r. rt_familyId r = family \<and> live_token r) ts"

definition family_revoked :: "string \<Rightarrow> tokens \<Rightarrow> bool" where
  "family_revoked family ts \<longleftrightarrow> list_all (\<lambda>r. rt_familyId r = family \<longrightarrow> rt_revokedAt r \<noteq> None) ts"

definition known_family :: "string \<Rightarrow> tokens \<Rightarrow> bool" where
  "known_family family ts \<longleftrightarrow> list_ex (\<lambda>r. rt_familyId r = family) ts"

definition tokens_ok :: "tokens \<Rightarrow> bool" where
  "tokens_ok ts \<longleftrightarrow> distinct (map rt_tokenHash ts) \<and> (\<forall>family. length (live_in family ts) \<le> 1)"

text \<open>Requests one after the other. A login creates a family whose id is new.\<close>

inductive session_step :: "(string \<Rightarrow> string) \<Rightarrow> int \<Rightarrow> tokens \<Rightarrow> tokens \<Rightarrow> bool" for hashToken days where
  login: "\<not> known_family family ts \<Longrightarrow> session_step hashToken days ts (fst (issueRefreshToken hashToken days now raw family wallet ts))"
| rotate: "session_step hashToken days ts (fst (rotateRefreshToken hashToken jwt days now newRaw raw ts))"
| logout: "session_step hashToken days ts (revokeSession hashToken raw now ts)"
| logout_everywhere: "session_step hashToken days ts (revokeAllSessions wallet now ts)"

lemma revoke_where_hash [simp]: "map rt_tokenHash (revoke_where p now ts) = map rt_tokenHash ts"
  by (simp add: revoke_where_def)

lemma mark_used_hash [simp]: "map rt_tokenHash (mark_used h ts) = map rt_tokenHash ts"
  by (simp add: mark_used_def)

lemma live_revoked: "length (live_in f (revoke_where p now ts)) \<le> length (live_in f ts)"
  by (induction ts) (auto simp: live_in_def revoke_where_def live_token_def)

lemma live_marked: "length (live_in f (mark_used h ts)) \<le> length (live_in f ts)"
  by (induction ts) (auto simp: live_in_def mark_used_def live_token_def)

lemma tokens_ok_revoke: "tokens_ok ts \<Longrightarrow> tokens_ok (revoke_where p now ts)"
  using live_revoked order_trans unfolding tokens_ok_def revoke_where_hash by blast

lemma findToken_Some: "findToken h ts = Some r \<Longrightarrow> r \<in> set ts \<and> rt_tokenHash r = h"
  by (auto simp: findToken_def find_Some_iff)

lemma findToken_None: "findToken h ts = None \<longleftrightarrow> h \<notin> rt_tokenHash ` set ts"
  by (auto simp: findToken_def find_None_iff)

lemma issue_table:
  "fst (issueRefreshToken hashToken days now raw family wallet ts) = ts \<or>
   hashToken raw \<notin> rt_tokenHash ` set ts \<and>
   fst (issueRefreshToken hashToken days now raw family wallet ts) =
     ts @ [\<lparr>rt_tokenHash = hashToken raw, rt_walletAddress = wallet, rt_familyId = family, rt_used = False, rt_revokedAt = None,
            rt_expiresAt = tokenExpiresAt days now\<rparr>]"
  by (auto simp: issueRefreshToken_def findToken_None)

lemma tokens_ok_issue:
  assumes "tokens_ok ts" and "live_in family ts = []"
  shows "tokens_ok (fst (issueRefreshToken hashToken days now raw family wallet ts))"
  using issue_table [of hashToken days now raw family wallet ts]
proof
  assume "hashToken raw \<notin> rt_tokenHash ` set ts \<and> fst (issueRefreshToken hashToken days now raw family wallet ts) =
     ts @ [\<lparr>rt_tokenHash = hashToken raw, rt_walletAddress = wallet, rt_familyId = family, rt_used = False, rt_revokedAt = None,
            rt_expiresAt = tokenExpiresAt days now\<rparr>]" (is "?new \<and> ?eq")
  then show ?thesis using assms by (auto simp: tokens_ok_def live_in_def)
qed (use assms in simp)

text \<open>Marking the live token of a family leaves none.\<close>

lemma live_after_mark:
  assumes "tokens_ok ts" and "r \<in> set ts" and "live_token r"
  shows "live_in (rt_familyId r) (mark_used (rt_tokenHash r) ts) = []"
proof -
  have "r \<in> set (live_in (rt_familyId r) ts)" using assms(2,3) by (simp add: live_in_def)
  then have one: "live_in (rt_familyId r) ts = [r]"
    using assms(1) by (cases "live_in (rt_familyId r) ts" rule: list.exhaust) (auto simp: tokens_ok_def le_Suc_eq dest: spec [of _ "rt_familyId r"])
  have "x = r" if "x \<in> set ts" "rt_familyId x = rt_familyId r" "live_token x" for x
  proof -
    have "x \<in> set (live_in (rt_familyId r) ts)" using that by (simp add: live_in_def)
    then show ?thesis using one by simp
  qed
  then show ?thesis by (auto simp: live_in_def mark_used_def filter_empty_conv live_token_def split: if_splits) blast
qed

lemma tokens_ok_mark: "tokens_ok ts \<Longrightarrow> tokens_ok (mark_used h ts)"
  using live_marked order_trans unfolding tokens_ok_def mark_used_hash by blast

lemma rotate_check_ok:
  assumes "rotate_check hashToken now raw ts = (ts', Inr r)"
  shows "ts' = ts \<and> r \<in> set ts \<and> live_token r"
  using assms by (auto simp: rotate_check_def live_token_def split: option.splits if_splits dest: findToken_Some)

lemma rotate_check_table: "fst (rotate_check hashToken now raw ts) = ts \<or> (\<exists>p. fst (rotate_check hashToken now raw ts) = revoke_where p now ts)"
  by (auto simp: rotate_check_def revokeFamilyTokens_def split: option.splits)

lemma rotate_table:
  "fst (rotateRefreshToken hashToken jwt days now newRaw raw ts) =
     (case rotate_check hashToken now raw ts of (ts1, Inl e) \<Rightarrow> ts1 | (ts1, Inr r) \<Rightarrow> fst (rotate_commit hashToken days now newRaw r ts1))"
  by (auto simp: rotateRefreshToken_def split: prod.splits sum.splits)

lemma tokens_ok_rotate: "tokens_ok ts \<Longrightarrow> tokens_ok (fst (rotateRefreshToken hashToken jwt days now newRaw raw ts))"
proof (cases "rotate_check hashToken now raw ts")
  case (Pair ts1 r)
  assume ok: "tokens_ok ts"
  show ?thesis
  proof (cases r)
    case (Inl e)
    then show ?thesis using rotate_check_table [of hashToken now raw ts] ok Pair by (auto simp: rotate_table tokens_ok_revoke)
  next
    case (Inr row)
    then have "ts1 = ts" "row \<in> set ts" "live_token row" using rotate_check_ok Pair by blast+
    then show ?thesis
      using ok live_after_mark [of ts row] by (simp add: rotate_table Pair Inr rotate_commit_def tokens_ok_issue tokens_ok_mark)
  qed
qed

lemma live_unknown: "\<not> known_family family ts \<Longrightarrow> live_in family ts = []"
  by (auto simp: known_family_def live_in_def list_ex_iff filter_empty_conv)

lemma step_tokens_ok: "session_step hashToken days ts ts' \<Longrightarrow> tokens_ok ts \<Longrightarrow> tokens_ok ts'"
  by (induction rule: session_step.induct)
     (auto simp: tokens_ok_issue live_unknown tokens_ok_rotate revokeSession_def revokeFamilyTokens_def revokeAllSessions_def tokens_ok_revoke split: option.splits)

lemma no_tokens_ok: "tokens_ok []"
  by (simp add: tokens_ok_def live_in_def)

text \<open>While requests run one after the other, a session family never has more than one token that could still be rotated.\<close>

theorem one_live_token_per_family:
  assumes "(session_step hashToken days)\<^sup>*\<^sup>* [] ts"
  shows "length (live_in family ts) \<le> 1"
proof -
  have "tokens_ok ts" using assms by (induction rule: rtranclp_induct) (auto intro: step_tokens_ok no_tokens_ok)
  then show ?thesis by (simp add: tokens_ok_def)
qed

section \<open>Revoked families\<close>

lemma known_family_simps [simp]:
  "known_family f (revoke_where p now ts) = known_family f ts" "known_family f (mark_used h ts) = known_family f ts"
  "known_family f (ts @ us) \<longleftrightarrow> known_family f ts \<or> known_family f us"
  by (induction ts) (auto simp: known_family_def revoke_where_def mark_used_def)

lemma family_revoked_simps [simp]:
  "family_revoked f ts \<Longrightarrow> family_revoked f (revoke_where p now ts)" "family_revoked f (mark_used h ts) = family_revoked f ts"
  "family_revoked f (ts @ us) \<longleftrightarrow> family_revoked f ts \<and> family_revoked f us"
  by (induction ts) (auto simp: family_revoked_def revoke_where_def mark_used_def)

lemma revoke_family_revoked: "family_revoked f (revokeFamilyTokens f now ts)"
  by (induction ts) (auto simp: family_revoked_def revokeFamilyTokens_def revoke_where_def)

lemma issue_keeps_revoked:
  assumes "family_revoked f ts \<and> known_family f ts" and "family \<noteq> f"
  shows "family_revoked f (fst (issueRefreshToken hashToken days now raw family wallet ts)) \<and>
    known_family f (fst (issueRefreshToken hashToken days now raw family wallet ts))"
  using assms issue_table [of hashToken days now raw family wallet ts] by (auto simp: family_revoked_def [of _ "[_]"])

lemma family_revoked_step:
  "session_step hashToken days ts ts' \<Longrightarrow> family_revoked family ts \<and> known_family family ts \<Longrightarrow> family_revoked family ts' \<and> known_family family ts'"
proof (induction rule: session_step.induct)
  case (login fam ts now raw wallet)
  then show ?case by (intro issue_keeps_revoked) auto
next
  case (rotate ts jwt now newRaw raw)
  obtain ts1 r where c: "rotate_check hashToken now raw ts = (ts1, r)" by force
  show ?case
  proof (cases r)
    case (Inl e)
    then show ?thesis using rotate_check_table [of hashToken now raw ts] rotate c by (auto simp: rotate_table)
  next
    case (Inr row)
    then have row: "ts1 = ts" "row \<in> set ts" "live_token row" using rotate_check_ok c by blast+
    then have "rt_familyId row \<noteq> family" using rotate by (auto simp: family_revoked_def list_all_iff live_token_def)
    then show ?thesis
      using rotate row issue_keeps_revoked by (simp add: rotate_table c Inr rotate_commit_def)
  qed
qed (auto simp: revokeSession_def revokeFamilyTokens_def revokeAllSessions_def split: option.splits)

section \<open>Rotations that overlap\<close>

text \<open>A rotation under way holds the row it read. Requests interleave between the two halves of a rotation.\<close>

inductive overlap_step ::
  "(string \<Rightarrow> string) \<Rightarrow> int \<Rightarrow> tokens \<times> RefreshTokenRow list \<Rightarrow> tokens \<times> RefreshTokenRow list \<Rightarrow> bool" for hashToken days where
  sequential: "session_step hashToken days ts ts' \<Longrightarrow> overlap_step hashToken days (ts, held) (ts', held)"
| begin_rotate: "rotate_check hashToken now raw ts = (ts', Inr r) \<Longrightarrow> overlap_step hashToken days (ts, held) (ts', r # held)"
| end_rotate: "overlap_step hashToken days (ts, pre @ r # post) (fst (rotate_commit hashToken days now newRaw r ts), pre @ post)"

section \<open>Reuse ends a session\<close>

text \<open>A revoked family stays revoked in every interleaving, as long as no rotation of it is under way.\<close>

lemma family_revoked_overlap:
  "overlap_step hashToken days c c' \<Longrightarrow>
    family_revoked f (fst c) \<and> known_family f (fst c) \<and> list_all (\<lambda>x. rt_familyId x \<noteq> f) (snd c) \<Longrightarrow>
    family_revoked f (fst c') \<and> known_family f (fst c') \<and> list_all (\<lambda>x. rt_familyId x \<noteq> f) (snd c')"
proof (induction rule: overlap_step.induct)
  case (sequential ts ts' held)
  then show ?case using family_revoked_step by simp
next
  case (begin_rotate now raw ts ts' r held)
  then have "ts' = ts" "r \<in> set ts" "live_token r" using rotate_check_ok by blast+
  then show ?case using begin_rotate by (auto simp: family_revoked_def list_all_iff live_token_def)
next
  case (end_rotate ts pre r post now newRaw)
  then show ?case using issue_keeps_revoked by (simp add: rotate_commit_def)
qed

text \<open>C25. Presenting a token that is neither expired nor revoked but was already rotated ends its session: every token of the family is
  revoked, the one that replaced it included, and none of the family is live after any requests that follow, rotations whose
  two halves interleave with others among them, provided no rotation of the family was under way at that moment.\<close>

theorem reuse_ends_session:
  assumes "findToken (hashToken raw) ts = Some r" and "rt_used r" and "rt_revokedAt r = None" and "now \<le> rt_expiresAt r"
    and "list_all (\<lambda>x. rt_familyId x \<noteq> rt_familyId r) held"
    and "(overlap_step hashToken days)\<^sup>*\<^sup>* (fst (rotateRefreshToken hashToken jwt days now newRaw raw ts), held) (ts', held')"
  shows "family_revoked (rt_familyId r) ts' \<and> live_in (rt_familyId r) ts' = []"
proof -
  have eq: "fst (rotateRefreshToken hashToken jwt days now newRaw raw ts) = revokeFamilyTokens (rt_familyId r) now ts"
    using assms(1-4) by (simp add: rotate_table rotate_check_def)
  have "known_family (rt_familyId r) ts" using findToken_Some [OF assms(1)] by (auto simp: known_family_def list_ex_iff)
  then have start: "family_revoked (rt_familyId r) (revokeFamilyTokens (rt_familyId r) now ts) \<and>
      known_family (rt_familyId r) (revokeFamilyTokens (rt_familyId r) now ts)"
    using revoke_family_revoked by (simp add: revokeFamilyTokens_def)
  have "family_revoked (rt_familyId r) (fst c) \<and> known_family (rt_familyId r) (fst c) \<and> list_all (\<lambda>x. rt_familyId x \<noteq> rt_familyId r) (snd c)"
    if "(overlap_step hashToken days)\<^sup>*\<^sup>* (revokeFamilyTokens (rt_familyId r) now ts, held) c" for c
    using that by (induction rule: rtranclp_induct) (use start assms(5) family_revoked_overlap in auto)
  from this [of "(ts', held')"] have "family_revoked (rt_familyId r) ts'" using assms(6) by (simp add: eq)
  then show ?thesis by (auto simp: family_revoked_def live_in_def live_token_def list_all_iff filter_empty_conv)
qed

definition used_row :: RefreshTokenRow where
  "used_row = \<lparr>rt_tokenHash = ''a'', rt_walletAddress = ''W'', rt_familyId = ''F'', rt_used = True, rt_revokedAt = None, rt_expiresAt = 100\<rparr>"

definition next_row :: RefreshTokenRow where
  "next_row = used_row\<lparr>rt_tokenHash := ''b'', rt_used := False\<rparr>"

definition other_row :: RefreshTokenRow where
  "other_row = used_row\<lparr>rt_tokenHash := ''x'', rt_familyId := ''G'', rt_used := False\<rparr>"

text \<open>A rotation of another session is under way when the used token is presented, and finishes afterwards.\<close>

theorem reuse_ends_session_witness:
  "live_in ''F'' [used_row, next_row, other_row] = [next_row] \<and>
   live_in ''F'' (fst (rotate_commit (\<lambda>s. s) 30 6 ''y'' other_row
     (fst (rotateRefreshToken (\<lambda>s. s) (\<lambda>w. w) 30 5 ''c'' ''a'' [used_row, next_row, other_row])))) = []"
proof -
  let ?ts = "[used_row, next_row, other_row]" and ?h = "\<lambda>s::string. s"
  have f: "findToken (?h ''a'') ?ts = Some used_row" "rt_used used_row" "rt_revokedAt used_row = None" "(5::int) \<le> rt_expiresAt used_row"
    "rt_familyId used_row = ''F''" "list_all (\<lambda>x. rt_familyId x \<noteq> rt_familyId used_row) [other_row]"
    by (simp_all add: findToken_def used_row_def other_row_def)
  have "overlap_step ?h 30 (fst (rotateRefreshToken ?h ?h 30 5 ''c'' ''a'' ?ts), [] @ other_row # [])
      (fst (rotate_commit ?h 30 6 ''y'' other_row (fst (rotateRefreshToken ?h ?h 30 5 ''c'' ''a'' ?ts))), [] @ [])"
    by (rule overlap_step.end_rotate)
  then have "(overlap_step ?h 30)\<^sup>*\<^sup>* (fst (rotateRefreshToken ?h ?h 30 5 ''c'' ''a'' ?ts), [other_row])
      (fst (rotate_commit ?h 30 6 ''y'' other_row (fst (rotateRefreshToken ?h ?h 30 5 ''c'' ''a'' ?ts))), [])" by simp
  from reuse_ends_session [OF f(1-4,6) this] f(5)
  have "live_in ''F'' (fst (rotate_commit ?h 30 6 ''y'' other_row (fst (rotateRefreshToken ?h ?h 30 5 ''c'' ''a'' ?ts)))) = []" by simp
  moreover have "live_in ''F'' ?ts = [next_row]" by (simp add: live_in_def live_token_def next_row_def used_row_def other_row_def)
  ultimately show ?thesis by simp
qed

section \<open>Two rotations of one token\<close>

definition first_row :: RefreshTokenRow where
  "first_row = \<lparr>rt_tokenHash = ''a'', rt_walletAddress = ''W'', rt_familyId = ''F'', rt_used = False, rt_revokedAt = None, rt_expiresAt = 2592000000\<rparr>"

definition rotated_row :: "string \<Rightarrow> RefreshTokenRow" where
  "rotated_row h = first_row\<lparr>rt_tokenHash := h\<rparr>"

lemma overlap_login: "overlap_step (\<lambda>s. s) 30 ([], []) ([first_row], [])"
proof -
  have "session_step (\<lambda>s. s) 30 [] (fst (issueRefreshToken (\<lambda>s. s) 30 0 ''a'' ''F'' ''W'' []))"
    by (rule session_step.login) (simp add: known_family_def)
  moreover have "fst (issueRefreshToken (\<lambda>s. s) 30 0 ''a'' ''F'' ''W'' []) = [first_row]"
    by (simp add: issueRefreshToken_def findToken_def first_row_def tokenExpiresAt_def)
  ultimately show ?thesis by (metis overlap_step.sequential)
qed

lemma overlap_begin: "overlap_step (\<lambda>s. s) 30 ([first_row], held) ([first_row], first_row # held)"
  by (rule overlap_step.begin_rotate [where now = 0 and raw = "''a''"]) (simp add: rotate_check_def findToken_def first_row_def)

lemma overlap_begins: "(overlap_step (\<lambda>s. s) 30)\<^sup>*\<^sup>* ([], []) ([first_row], [first_row, first_row])"
  using overlap_login overlap_begin [of "[]"] overlap_begin [of "[first_row]"]
  by (meson converse_rtranclp_into_rtranclp rtranclp.rtrancl_refl)

text \<open>Two rotations of the same token that overlap both succeed: both read the row before either marks it. The family then has
  two live tokens, and the reuse is not noticed.\<close>

theorem overlapping_rotations_fork:
  "\<exists>ts. (overlap_step (\<lambda>s. s) 30)\<^sup>*\<^sup>* ([], []) (ts, []) \<and> length (live_in ''F'' ts) = 2"
proof -
  let ?ts = "[first_row]" and ?h = "\<lambda>s::string. s"
  let ?ts1 = "fst (rotate_commit ?h 30 0 ''b'' first_row ?ts)"
  let ?ts2 = "fst (rotate_commit ?h 30 0 ''c'' first_row ?ts1)"
  have "overlap_step ?h 30 (?ts, [] @ first_row # [first_row]) (?ts1, [] @ [first_row])" by (rule overlap_step.end_rotate)
  moreover have "overlap_step ?h 30 (?ts1, [] @ first_row # []) (?ts2, [] @ [])" by (rule overlap_step.end_rotate)
  ultimately have "(overlap_step ?h 30)\<^sup>*\<^sup>* ([], []) (?ts2, [])" using overlap_begins by simp
  moreover have "length (live_in ''F'' ?ts2) = 2"
    by (simp add: rotate_commit_def issueRefreshToken_def mark_used_def findToken_def first_row_def live_in_def live_token_def)
  ultimately show ?thesis by blast
qed

text \<open>A rotation under way survives the revocation of its session: its new token is live although the user has logged out
  everywhere in between.\<close>

theorem rotation_survives_logout:
  "\<exists>ts ts'. (overlap_step (\<lambda>s. s) 30)\<^sup>*\<^sup>* ([], []) (revokeAllSessions ''W'' 1 ts, [first_row]) \<and>
     overlap_step (\<lambda>s. s) 30 (revokeAllSessions ''W'' 1 ts, [first_row]) (ts', []) \<and> length (live_in ''F'' ts') = 1"
proof -
  let ?h = "\<lambda>s::string. s"
  let ?ts = "revokeAllSessions ''W'' 1 [first_row]"
  let ?ts' = "fst (rotate_commit ?h 30 2 ''b'' first_row ?ts)"
  have "(overlap_step ?h 30)\<^sup>*\<^sup>* ([], []) ([first_row], [first_row])"
    using overlap_login overlap_begin [of "[]"] by (meson converse_rtranclp_into_rtranclp rtranclp.rtrancl_refl)
  moreover have "overlap_step ?h 30 ([first_row], [first_row]) (?ts, [first_row])"
    by (rule overlap_step.sequential) (rule session_step.logout_everywhere)
  ultimately have "(overlap_step ?h 30)\<^sup>*\<^sup>* ([], []) (?ts, [first_row])" by (rule rtranclp.rtrancl_into_rtrancl)
  moreover have "overlap_step ?h 30 (?ts, [first_row]) (?ts', [])"
    using overlap_step.end_rotate [of ?h 30 ?ts "[]" first_row "[]" 2 "''b''"] by simp
  moreover have "length (live_in ''F'' ?ts') = 1"
    by (simp add: rotate_commit_def issueRefreshToken_def mark_used_def findToken_def first_row_def live_in_def live_token_def
        revokeAllSessions_def revoke_where_def)
  ultimately show ?thesis by blast
qed

end
