(* ===== verification/Auth.thy ===== *)
theory Auth
  imports Sessions Group_Cache Js_Values
begin

text \<open>
  Authentication by signed challenge, \<open>backend/src/modules/auth/auth_service.ts\<close> with \<open>auth_middleware.ts\<close> and the routes of
  \<open>backend/src/routes/auth.ts\<close>. Redis is the interface of \<open>Group_Cache\<close>; the key check and the signature check of the
  Stellar SDK, signing and verifying JSON web tokens, random values and the clock are arguments. The bodies of the requests
  have passed the schema of their route.
\<close>

section \<open>Challenges\<close>

definition CHALLENGE_TTL_SECONDS :: int where "CHALLENGE_TTL_SECONDS = 300"

definition USED_NONCE_TTL_SECONDS :: int where "USED_NONCE_TTL_SECONDS = CHALLENGE_TTL_SECONDS + 60"

definition challengeKey :: "string \<Rightarrow> string" where
  "challengeKey wallet = ''auth:challenge:'' @ wallet"

definition usedNonceKey :: "string \<Rightarrow> string" where
  "usedNonceKey nonce = ''auth:used_nonce:'' @ nonce"

definition challenge_message :: "string \<Rightarrow> string \<Rightarrow> int \<Rightarrow> string" where
  "challenge_message wallet nonce timestamp =
     ''Sign this message to authenticate with Stellar Save.'' @ [CHR 0x0A, CHR 0x0A] @ ''Wallet: '' @ wallet @ [CHR 0x0A] @
     ''Nonce: '' @ nonce @ [CHR 0x0A] @ ''Timestamp: '' @ string_of_int timestamp"

definition challenge_json :: "string \<Rightarrow> string \<Rightarrow> int \<Rightarrow> json" where
  "challenge_json nonce message timestamp = JObj [(''nonce'', JStr nonce), (''message'', JStr message), (''timestamp'', JNum timestamp)]"

definition generateChallenge ::
  "'db kv_ops \<Rightarrow> (string \<Rightarrow> bool) \<Rightarrow> string \<Rightarrow> int \<Rightarrow> string \<Rightarrow> 'db cache_state \<Rightarrow> 'db cache_state \<times> (thrown + string)" where
  "generateChallenge ops publicKey nonce now wallet st =
     (if \<not> publicKey wallet then (st, Inl (PlainError ''Invalid Stellar wallet address''))
      else
        let message = challenge_message wallet nonce now
        in case redis_set ops now (challengeKey wallet) (challenge_json nonce message now) CHALLENGE_TTL_SECONDS st of
             (st1, Inl e) \<Rightarrow> (st1, Inl e)
           | (st1, Inr _) \<Rightarrow> (st1, Inr message))"

text \<open>What follows once the challenge was read, in the steps its awaits make: the challenge is deleted; its message, its age and
  the mark of its nonce are checked; the signature is checked and the nonce is marked. A failure of the last write is caught.\<close>

definition stored_nonce :: "json \<Rightarrow> string" where
  "stored_nonce stored = (case json_field stored ''nonce'' of Some (JStr n) \<Rightarrow> n | _ \<Rightarrow> ''undefined'')"

definition verify_check :: "'db kv_ops \<Rightarrow> int \<Rightarrow> string \<Rightarrow> json \<Rightarrow> 'db cache_state \<Rightarrow> 'db cache_state \<times> (thrown + string)" where
  "verify_check ops now signedMessage stored st =
     (if json_field stored ''message'' \<noteq> Some (JStr signedMessage) then (st, Inl (PlainError ''Challenge message mismatch.''))
      else if (case json_field stored ''timestamp'' of Some (JNum t) \<Rightarrow> now - t > CHALLENGE_TTL_SECONDS * 1000 | _ \<Rightarrow> False)
           then (st, Inl (PlainError ''Challenge has expired.''))
      else
        case redis_get ops now (usedNonceKey (stored_nonce stored)) st of
          (st1, Inl e) \<Rightarrow> (st1, Inl e)
        | (st1, Inr used) \<Rightarrow>
            if (case used of Some v \<Rightarrow> json_truthy v | None \<Rightarrow> False)
            then (st1, Inl (PlainError ''Challenge nonce has already been used.''))
            else (st1, Inr (stored_nonce stored)))"

definition verify_mark ::
  "'db kv_ops \<Rightarrow> (string \<Rightarrow> string \<Rightarrow> string \<Rightarrow> bool) \<Rightarrow> int \<Rightarrow> string \<Rightarrow> string \<Rightarrow> string \<Rightarrow> string \<Rightarrow> 'db cache_state \<Rightarrow> 'db cache_state \<times> bool" where
  "verify_mark ops signed now wallet signedMessage signature nonce st =
     (if signed wallet signedMessage signature
      then (case redis_set ops now (usedNonceKey nonce) (JBool True) USED_NONCE_TTL_SECONDS st of
              (st1, Inl e) \<Rightarrow> (st1, False)
            | (st1, Inr _) \<Rightarrow> (st1, True))
      else (st, False))"

text \<open>The steps of one request with no other between them.\<close>

definition verify_stored ::
  "'db kv_ops \<Rightarrow> (string \<Rightarrow> string \<Rightarrow> string \<Rightarrow> bool) \<Rightarrow> int \<Rightarrow> string \<Rightarrow> string \<Rightarrow> string \<Rightarrow> json \<Rightarrow> 'db cache_state \<Rightarrow> 'db cache_state \<times> (thrown + bool)" where
  "verify_stored ops signed now wallet signedMessage signature stored st =
     (case redis_del ops [challengeKey wallet] st of
        (st1, Inl e) \<Rightarrow> (st1, Inl e)
      | (st1, Inr _) \<Rightarrow>
          (case verify_check ops now signedMessage stored st1 of
             (st2, Inl e) \<Rightarrow> (st2, Inl e)
           | (st2, Inr nonce) \<Rightarrow>
               (case verify_mark ops signed now wallet signedMessage signature nonce st2 of (st3, ok) \<Rightarrow> (st3, Inr ok))))"

definition verifySignature ::
  "'db kv_ops \<Rightarrow> (string \<Rightarrow> string \<Rightarrow> string \<Rightarrow> bool) \<Rightarrow> int \<Rightarrow> string \<Rightarrow> string \<Rightarrow> string \<Rightarrow> 'db cache_state \<Rightarrow> 'db cache_state \<times> (thrown + bool)" where
  "verifySignature ops signed now wallet signedMessage signature st =
     (case redis_get ops now (challengeKey wallet) st of
        (st1, Inl e) \<Rightarrow> (st1, Inl e)
      | (st1, Inr None) \<Rightarrow> (st1, Inl (PlainError ''Challenge not found or expired. Request a new challenge.''))
      | (st1, Inr (Some stored)) \<Rightarrow> verify_stored ops signed now wallet signedMessage signature stored st1)"

section \<open>Middlewares\<close>

datatype jwt_error = TokenExpiredError | OtherJwtError

record auth_request =
  ar_secret :: "string option"
  ar_authorization :: "string option"
  ar_params_wallet :: "string option"
  ar_params_user :: "string option"
  ar_adminId :: "string option"
  ar_wallet :: "string option"

definition sendError :: "thrown \<Rightarrow> response \<Rightarrow> response" where
  "sendError err res = send_json (err_status err) (JObj [(''error'', JStr (err_message err))]) res"

definition adminAuthMiddleware :: "string \<Rightarrow> auth_request \<Rightarrow> response \<Rightarrow> auth_request \<times> response" where
  "adminAuthMiddleware ADMIN_SECRET req res =
     (if ar_secret req = Some ADMIN_SECRET then (req\<lparr>ar_adminId := Some ''admin_001''\<rparr>, call_next res)
      else (req, sendError (UnauthorizedError ''Unauthorized: Invalid Admin Secret'' None) res))"

definition jwtAuthMiddleware :: "(string \<Rightarrow> jwt_error + string) \<Rightarrow> auth_request \<Rightarrow> response \<Rightarrow> auth_request \<times> response" where
  "jwtAuthMiddleware verifyJwt req res =
     (case ar_authorization req of
        Some h \<Rightarrow>
          if \<not> startsWith h ''Bearer '' then (req, sendError (UnauthorizedError ''Unauthorized: Missing or malformed Authorization header'' None) res)
          else (case verifyJwt (drop 7 h) of
                  Inr sub \<Rightarrow> (req\<lparr>ar_wallet := Some sub\<rparr>, call_next res)
                | Inl e \<Rightarrow>
                    (req, sendError (UnauthorizedError (if e = TokenExpiredError then ''Unauthorized: Token expired'' else ''Unauthorized: Invalid token'') None) res))
      | None \<Rightarrow> (req, sendError (UnauthorizedError ''Unauthorized: Missing or malformed Authorization header'' None) res))"

text \<open>\<open>req.params.walletAddress || req.params.userId\<close>\<close>

definition paramAddress :: "auth_request \<Rightarrow> string option" where
  "paramAddress req =
     (case ar_params_wallet req of Some w \<Rightarrow> if w \<noteq> [] then Some w else ar_params_user req | None \<Rightarrow> ar_params_user req)"

definition requireSelf :: "auth_request \<Rightarrow> response \<Rightarrow> response" where
  "requireSelf req res =
     (case paramAddress req of
        Some a \<Rightarrow> if a = [] \<or> ar_wallet req \<noteq> Some a then sendError (ForbiddenError ''Forbidden: You can only access your own data'' None) res else call_next res
      | None \<Rightarrow> sendError (ForbiddenError ''Forbidden: You can only access your own data'' None) res)"

section \<open>Routes\<close>

text \<open>\<open>error instanceof Error ? error.message : fallback\<close>\<close>

fun message_or :: "string \<Rightarrow> thrown \<Rightarrow> string" where
  "message_or fallback (ThrownValue _) = fallback"
| "message_or fallback e = err_message e"

definition auth_error :: "string \<Rightarrow> string \<Rightarrow> int \<Rightarrow> thrown" where
  "auth_error code message status = AppError ''AppError'' code message status None"

definition challenge_route :: "'db kv_ops \<Rightarrow> (string \<Rightarrow> bool) \<Rightarrow> string \<Rightarrow> int \<Rightarrow> string \<Rightarrow> response \<Rightarrow> 'db cache_state \<Rightarrow> 'db cache_state \<times> (thrown + response)" where
  "challenge_route ops publicKey nonce now wallet res st =
     (case generateChallenge ops publicKey nonce now wallet st of
        (st1, Inr challenge) \<Rightarrow> (st1, Inr (send_json 200 (JObj [(''challenge'', JStr challenge)]) res))
      | (st1, Inl e) \<Rightarrow> (st1, Inl (auth_error ''CHALLENGE_FAILED'' (message_or ''Failed to generate challenge'' e) 400)))"

definition token_json :: "string \<Rightarrow> string \<Rightarrow> json" where
  "token_json accessToken refreshToken = JObj [(''accessToken'', JStr accessToken), (''refreshToken'', JStr refreshToken)]"

text \<open>The random secrets, digests and token printer a request uses.\<close>

record auth_env =
  ae_signed :: "string \<Rightarrow> string \<Rightarrow> string \<Rightarrow> bool"
  ae_hash :: "string \<Rightarrow> string"
  ae_jwt :: "string \<Rightarrow> string"
  ae_days :: int

definition verify_route ::
  "'db kv_ops \<Rightarrow> auth_env \<Rightarrow> string \<Rightarrow> string \<Rightarrow> int \<Rightarrow> string \<Rightarrow> string \<Rightarrow> string \<Rightarrow> response \<Rightarrow> 'db cache_state \<Rightarrow> tokens \<Rightarrow>
    'db cache_state \<times> tokens \<times> (thrown + response)" where
  "verify_route ops env raw family now wallet challenge signature res st ts =
     (case verifySignature ops (ae_signed env) now wallet challenge signature st of
        (st1, Inl e) \<Rightarrow> (st1, ts, Inl (auth_error ''VERIFICATION_FAILED'' (message_or ''Verification failed'' e) 401))
      | (st1, Inr False) \<Rightarrow> (st1, ts, Inl (auth_error ''INVALID_SIGNATURE'' ''Invalid signature'' 401))
      | (st1, Inr True) \<Rightarrow>
          (case issueRefreshToken (ae_hash env) (ae_days env) now raw family wallet ts of
             (ts1, Inl e) \<Rightarrow> (st1, ts1, Inl (auth_error ''VERIFICATION_FAILED'' (message_or ''Verification failed'' e) 401))
           | (ts1, Inr refresh) \<Rightarrow> (st1, ts1, Inr (send_json 200 (token_json (ae_jwt env wallet) refresh) res))))"

definition refresh_route :: "auth_env \<Rightarrow> string \<Rightarrow> int \<Rightarrow> string \<Rightarrow> response \<Rightarrow> tokens \<Rightarrow> tokens \<times> (thrown + response)" where
  "refresh_route env newRaw now refreshToken res ts =
     (case rotateRefreshToken (ae_hash env) (ae_jwt env) (ae_days env) now newRaw refreshToken ts of
        (ts1, Inr (a, r)) \<Rightarrow> (ts1, Inr (send_json 200 (token_json a r) res))
      | (ts1, Inl e) \<Rightarrow> (ts1, Inl (auth_error ''TOKEN_ROTATION_FAILED'' (message_or ''Token rotation failed'' e) 401)))"

definition logout_route :: "auth_env \<Rightarrow> int \<Rightarrow> string \<Rightarrow> response \<Rightarrow> tokens \<Rightarrow> tokens \<times> response" where
  "logout_route env now refreshToken res ts =
     (revokeSession (ae_hash env) refreshToken now ts, send_json 200 (JObj [(''message'', JStr ''Logged out'')]) res)"

definition logout_everywhere_route ::
  "(string \<Rightarrow> jwt_error + string) \<Rightarrow> int \<Rightarrow> auth_request \<Rightarrow> response \<Rightarrow> tokens \<Rightarrow> tokens \<times> response" where
  "logout_everywhere_route verifyJwt now req res ts =
     (let (req1, res1) = jwtAuthMiddleware verifyJwt req res
      in if res_next res1
         then (case ar_wallet req1 of
                 Some w \<Rightarrow> (revokeAllSessions w now ts, send_json 200 (JObj [(''message'', JStr ''All sessions revoked'')]) res1)
               | None \<Rightarrow> (ts, res1))
         else (ts, res1))"

section \<open>Tokens need a signature\<close>

lemma redis_get_db [simp]: "cs_db (fst (redis_get ops now k st)) = cs_db st"
  by (simp add: redis_get_def recordHit_def recordMiss_def split: sum.splits option.splits)

lemma verify_stored_true:
  assumes "verify_stored ops signed now wallet m sig stored st = (st', Inr True)"
  shows "signed wallet m sig \<and> json_field stored ''message'' = Some (JStr m) \<and>
    (case json_field stored ''timestamp'' of Some (JNum t) \<Rightarrow> now - t \<le> 300000 | _ \<Rightarrow> True)"
  using assms
  by (auto simp: verify_stored_def verify_check_def verify_mark_def CHALLENGE_TTL_SECONDS_def
      split: prod.splits sum.splits if_splits option.splits json.splits)

text \<open>The row of a session that starts.\<close>

definition login_row :: "auth_env \<Rightarrow> string \<Rightarrow> string \<Rightarrow> int \<Rightarrow> string \<Rightarrow> RefreshTokenRow" where
  "login_row env raw family now wallet = \<lparr>rt_tokenHash = ae_hash env raw, rt_walletAddress = wallet, rt_familyId = family, rt_used = False,
     rt_revokedAt = None, rt_expiresAt = now + ae_days env * 86400000\<rparr>"

lemma issue_success:
  assumes "issueRefreshToken (ae_hash env) (ae_days env) now raw family wallet ts = (ts', Inr refresh)"
  shows "ts' = ts @ [login_row env raw family now wallet] \<and> refresh = raw"
  using assms by (auto simp: issueRefreshToken_def login_row_def tokenExpiresAt_def split: if_splits)

lemma issue_failure: "issueRefreshToken h d now raw family wallet ts = (ts', Inl e) \<Longrightarrow> ts' = ts"
  by (auto simp: issueRefreshToken_def split: if_splits)

text \<open>C21. The verification route issues tokens only for a wallet whose key signed exactly the message that Redis holds for it, at most
  five minutes after its time stamp. The answer then carries an access token for this wallet and the new refresh token, and the
  table gains exactly one row: the digest of that refresh token, for this wallet, unused and unrevoked. Otherwise it answers with
  status 401 and issues nothing.\<close>

theorem tokens_require_signature:
  assumes "expiring_store ops view" and "verify_route ops env raw family now wallet challenge sig res st ts = (st', ts', r)"
  shows "case r of
      Inl e \<Rightarrow> ts' = ts \<and> err_status e = 401
    | Inr res' \<Rightarrow> ae_signed env wallet challenge sig \<and>
        (\<exists>stored expiry. view (cs_db st) (challengeKey wallet) = Some (stored, expiry) \<and> now < expiry \<and>
           json_field stored ''message'' = Some (JStr challenge) \<and>
           (case json_field stored ''timestamp'' of Some (JNum t) \<Rightarrow> now - t \<le> 300000 | _ \<Rightarrow> True)) \<and>
        res' = send_json 200 (token_json (ae_jwt env wallet) raw) res \<and> ts' = ts @ [login_row env raw family now wallet]"
proof -
  obtain st1 v where v: "verifySignature ops (ae_signed env) now wallet challenge sig st = (st1, v)" by force
  have stored: "\<exists>stored expiry. view (cs_db st) (challengeKey wallet) = Some (stored, expiry) \<and> now < expiry \<and>
      json_field stored ''message'' = Some (JStr challenge) \<and>
      (case json_field stored ''timestamp'' of Some (JNum t) \<Rightarrow> now - t \<le> 300000 | _ \<Rightarrow> True)"
    and signed: "ae_signed env wallet challenge sig" if ok: "v = Inr True"
  proof -
    obtain st2 stored where g: "redis_get ops now (challengeKey wallet) st = (st2, Inr (Some stored))"
      and s: "verify_stored ops (ae_signed env) now wallet challenge sig stored st2 = (st1, Inr True)"
      using v ok by (auto simp: verifySignature_def split: prod.splits sum.splits option.splits)
    have k: "kv_get ops (cs_db st) now (challengeKey wallet) = Inr (Some stored)"
      using g by (auto simp: redis_get_def split: sum.splits option.splits if_splits)
    have "\<exists>expiry. view (cs_db st) (challengeKey wallet) = Some (stored, expiry) \<and> now < expiry"
      using expiring_store.get_view [OF assms(1) k] by (auto split: option.splits if_splits)
    then show "\<exists>stored expiry. view (cs_db st) (challengeKey wallet) = Some (stored, expiry) \<and> now < expiry \<and>
      json_field stored ''message'' = Some (JStr challenge) \<and>
      (case json_field stored ''timestamp'' of Some (JNum t) \<Rightarrow> now - t \<le> 300000 | _ \<Rightarrow> True)"
      and "ae_signed env wallet challenge sig" using verify_stored_true [OF s] by blast+
  qed
  show ?thesis
  proof (cases "v = Inr True")
    case True
    then show ?thesis
      using assms(2) stored signed unfolding verify_route_def v
      by (auto simp: auth_error_def dest!: issue_success dest: issue_failure split: sum.splits prod.splits)
  next
    case False
    then show ?thesis
      using assms(2) unfolding verify_route_def v by (auto simp: auth_error_def split: sum.splits bool.splits)
  qed
qed

section \<open>A challenge is used once\<close>

lemma nonce_key_distinct: "usedNonceKey n \<noteq> challengeKey w"
  by (simp add: usedNonceKey_def challengeKey_def)

context expiring_store begin

lemma redis_set_view: "redis_set ops now k v ttl st = (st', Inr u) \<Longrightarrow> view (cs_db st') = (view (cs_db st))(k \<mapsto> (v, now + 1000 * ttl))"
  using set_view by (auto simp: redis_set_def split: sum.splits)

lemma redis_del_view: "redis_del ops ks st = (st', Inr u) \<Longrightarrow> view (cs_db st') = view (cs_db st) |` (- set ks)"
  using del_view by (auto simp: redis_del_def split: sum.splits)

lemma redis_get_live: "redis_get ops now k st = (st', Inr r) \<Longrightarrow> r = live (cs_db st) now k"
  by (auto simp: redis_get_def live_def dest!: get_view split: sum.splits option.splits if_splits)

lemma redis_get_keeps: "redis_get ops now k st = (st', r) \<Longrightarrow> cs_db st' = cs_db st"
  using redis_get_db [of ops now k st] by simp

text \<open>The nonce is marked for longer than its challenge may be presented.\<close>

definition nonce_marked :: "string \<Rightarrow> int \<Rightarrow> 'db cache_state \<Rightarrow> bool" where
  "nonce_marked n t st \<longleftrightarrow> (\<exists>expiry. view (cs_db st) (usedNonceKey n) = Some (JBool True, expiry) \<and> t + 300000 < expiry)"

lemma mark_marks:
  assumes "verify_mark ops signed now w m sig n st = (st', True)" and "t \<le> now"
  shows "nonce_marked n t st'"
  using assms by (auto simp: verify_mark_def nonce_marked_def USED_NONCE_TTL_SECONDS_def CHALLENGE_TTL_SECONDS_def dest!: redis_set_view
      split: prod.splits sum.splits if_splits)

lemma set_keeps_mark: "nonce_marked n t st \<Longrightarrow> k \<noteq> usedNonceKey n \<Longrightarrow> redis_set ops now k v ttl st = (st', r) \<Longrightarrow> nonce_marked n t st'"
  using redis_set_view [of now k v ttl st st' "()"] by (cases r) (auto simp: nonce_marked_def redis_set_def split: sum.splits)

lemma del_keeps_mark: "nonce_marked n t st \<Longrightarrow> redis_del ops [challengeKey w] st = (st', r) \<Longrightarrow> nonce_marked n t st'"
  using redis_del_view [of "[challengeKey w]" st st' "()"] nonce_key_distinct [of n w]
  by (cases r) (auto simp: nonce_marked_def redis_del_def restrict_map_def split: sum.splits)

lemma mark_keeps_mark:
  assumes "nonce_marked n t st" and "t \<le> now"
  shows "nonce_marked n t (fst (verify_mark ops signed now w m sig n' st))"
proof (cases "n' = n")
  case True
  then show ?thesis using assms mark_marks [of signed now w m sig n st _ t]
    by (cases "verify_mark ops signed now w m sig n st"; cases "snd (verify_mark ops signed now w m sig n st)")
       (auto simp: verify_mark_def redis_set_def split: sum.splits if_splits)
next
  case False
  then have "usedNonceKey n' \<noteq> usedNonceKey n" by (simp add: usedNonceKey_def)
  then show ?thesis using assms(1) set_keeps_mark by (auto simp: verify_mark_def split: prod.splits sum.splits)
qed

lemma check_keeps_db [simp]: "cs_db (fst (verify_check ops now m stored st)) = cs_db st"
  using redis_get_db [of ops now "usedNonceKey (stored_nonce stored)" st]
  by (auto simp: verify_check_def simp del: redis_get_db split: prod.splits sum.splits option.splits json.splits)

lemma marked_nonce_refused:
  assumes "nonce_marked n t st" and "json_field stored ''nonce'' = Some (JStr n)" and "json_field stored ''timestamp'' = Some (JNum t)"
  shows "snd (verify_check ops now m stored st) \<noteq> Inr n'"
proof
  assume r: "snd (verify_check ops now m stored st) = Inr n'"
  have nonce: "stored_nonce stored = n" using assms(2) by (simp add: stored_nonce_def)
  obtain st2 used where g: "redis_get ops now (usedNonceKey n) st = (st2, Inr used)" and age: "now - t \<le> 300000"
    and "\<not> (case used of Some v \<Rightarrow> json_truthy v | None \<Rightarrow> False)"
    using r assms(3) nonce by (auto simp: verify_check_def CHALLENGE_TTL_SECONDS_def split: prod.splits sum.splits if_splits)
  moreover have "live (cs_db st) now (usedNonceKey n) = Some (JBool True)" using age assms(1) by (auto simp: nonce_marked_def live_def)
  ultimately show False using redis_get_live [OF g] by simp
qed

end

text \<open>The commands of the authentication requests in any order, each at a time that is not before the last one: a challenge is
  stored, read or deleted, a challenge that was read is checked, and a nonce is marked.\<close>

inductive auth_step :: "'db kv_ops \<Rightarrow> int \<times> 'db cache_state \<Rightarrow> int \<times> 'db cache_state \<Rightarrow> bool" for ops where
  challenge: "clock \<le> now \<Longrightarrow> auth_step ops (clock, st) (now, fst (generateChallenge ops publicKey nonce now wallet st))"
| read: "clock \<le> now \<Longrightarrow> auth_step ops (clock, st) (now, fst (redis_get ops now (challengeKey wallet) st))"
| delete: "clock \<le> now \<Longrightarrow> auth_step ops (clock, st) (now, fst (redis_del ops [challengeKey wallet] st))"
| check: "clock \<le> now \<Longrightarrow> auth_step ops (clock, st) (now, fst (verify_check ops now m stored st))"
| mark: "clock \<le> now \<Longrightarrow> auth_step ops (clock, st) (now, fst (verify_mark ops signed now wallet m sig nonce st))"

context expiring_store begin

lemma auth_step_keeps_mark:
  "auth_step ops c c' \<Longrightarrow> nonce_marked n t (snd c) \<Longrightarrow> t \<le> fst c \<Longrightarrow> nonce_marked n t (snd c') \<and> t \<le> fst c'"
proof (induction rule: auth_step.induct)
  case (challenge clock now st publicKey nonce wallet)
  then show ?case
    using set_keeps_mark [of n t st "challengeKey wallet" now] nonce_key_distinct [of n wallet, symmetric]
    by (auto simp: generateChallenge_def Let_def split: prod.splits sum.splits)
next
  case (delete clock now st wallet)
  then show ?case using del_keeps_mark [of n t st wallet] by (cases "redis_del ops [challengeKey wallet] st") auto
next
  case (mark clock now st signed wallet m sig nonce)
  then show ?case using mark_keeps_mark [of n t st now] by simp
qed (auto simp: nonce_marked_def)

lemma auth_steps_keep_mark:
  assumes "(auth_step ops)\<^sup>*\<^sup>* c c'" and "nonce_marked n t (snd c)" and "t \<le> fst c"
  shows "nonce_marked n t (snd c')"
proof -
  have "nonce_marked n t (snd c') \<and> t \<le> fst c'"
    using assms by (induction rule: rtranclp_induct) (auto dest: auth_step_keeps_mark)
  then show ?thesis ..
qed

end

text \<open>C28. Once a request has marked the nonce of a challenge, no request that comes to the check of the nonce later passes it with this
  challenge, whether it read the challenge before or after, and whatever commands of other requests run in between: the mark
  stays in Redis for as long as the challenge is young enough.\<close>

theorem challenge_not_replayable:
  assumes "expiring_store ops view" and "verify_mark ops signed now w m sig (stored_nonce stored) st = (st', True)"
    and "json_field stored ''nonce'' = Some (JStr n)" and "json_field stored ''timestamp'' = Some (JNum t)" and "t \<le> now"
    and "(auth_step ops)\<^sup>*\<^sup>* (now, st') (clock, st'')"
  shows "\<exists>e. snd (verify_check ops now' m' stored st'') = Inl e"
proof -
  have "stored_nonce stored = n" using assms(3) by (simp add: stored_nonce_def)
  then have "expiring_store.nonce_marked view n t st'" using expiring_store.mark_marks [OF assms(1), of signed now w m sig n st st' t] assms(2,5) by simp
  then have "expiring_store.nonce_marked view n t st''" using expiring_store.auth_steps_keep_mark [OF assms(1,6), of n t] assms(5) by simp
  then show ?thesis using expiring_store.marked_nonce_refused [OF assms(1) _ assms(3,4)] by (cases "snd (verify_check ops now' m' stored st'')") blast+
qed

definition sample_challenge :: json where
  "sample_challenge = challenge_json ''n1'' ''msg'' 1000"

definition sample_auth :: "(string \<times> json \<times> int) list cache_state" where
  "sample_auth = \<lparr>cs_db = [(challengeKey ''W'', sample_challenge, 301000)], cs_hits = 0, cs_misses = 0, cacheHitsTotal = 0,
     cacheMissesTotal = 0, cacheInvalidationsTotal = []\<rparr>"

definition sample_env :: auth_env where
  "sample_env = \<lparr>ae_signed = (\<lambda>w m s. s = ''sig''), ae_hash = (\<lambda>s. s), ae_jwt = (\<lambda>w. w), ae_days = 30\<rparr>"

lemmas sample_eval = verify_check_def verify_mark_def stored_nonce_def sample_challenge_def challenge_json_def json_field_def
  redis_del_def redis_get_def redis_set_def mem_store_def sample_auth_def sample_env_def CHALLENGE_TTL_SECONDS_def usedNonceKey_def
  challengeKey_def recordHit_def recordMiss_def

text \<open>One request reads the challenge, a second one reads, checks and marks it, and a third one stores a new challenge: then the first
  is refused at its check.\<close>

theorem challenge_not_replayable_witness:
  "snd (redis_get mem_store 2000 (challengeKey ''W'') sample_auth) = Inr (Some sample_challenge) \<and>
   snd (verify_check mem_store 2000 ''msg'' sample_challenge sample_auth) = Inr ''n1'' \<and>
   snd (verify_mark mem_store (ae_signed sample_env) 2000 ''W'' ''msg'' ''sig'' ''n1'' sample_auth) \<and>
   (\<exists>e. snd (verify_check mem_store 2002 ''msg'' sample_challenge (fst (generateChallenge mem_store (\<lambda>w. True) ''n2'' 2001 ''W''
     (fst (verify_mark mem_store (ae_signed sample_env) 2000 ''W'' ''msg'' ''sig'' ''n1'' sample_auth))))) = Inl e)"
proof -
  have f: "json_field sample_challenge ''nonce'' = Some (JStr ''n1'')" "json_field sample_challenge ''timestamp'' = Some (JNum 1000)"
    "stored_nonce sample_challenge = ''n1''"
    by (simp_all add: sample_challenge_def challenge_json_def json_field_def stored_nonce_def)
  have r: "snd (redis_get mem_store 2000 (challengeKey ''W'') sample_auth) = Inr (Some sample_challenge)"
    "snd (verify_check mem_store 2000 ''msg'' sample_challenge sample_auth) = Inr ''n1''" by (simp_all add: sample_eval)
  obtain st' where m: "verify_mark mem_store (ae_signed sample_env) 2000 ''W'' ''msg'' ''sig'' (stored_nonce sample_challenge) sample_auth = (st', True)"
    by (simp add: sample_eval)
  have "auth_step mem_store (2000, st') (2001, fst (generateChallenge mem_store (\<lambda>w. True) ''n2'' 2001 ''W'' st'))"
    by (rule auth_step.challenge) simp
  then have "\<exists>e. snd (verify_check mem_store 2002 ''msg'' sample_challenge (fst (generateChallenge mem_store (\<lambda>w. True) ''n2'' 2001 ''W'' st'))) = Inl e"
    by (intro challenge_not_replayable [OF memkv.expiring_store_axioms m f(1,2)]) auto
  then show ?thesis using r m f(3) by simp
qed

text \<open>The check and the mark are two commands with others possible in between: two requests that both check the nonce before either
  marks it are both accepted, with one challenge and one signature.\<close>

theorem overlapping_verifications_both_accepted:
  "\<exists>s1 s2 s3 s4. redis_get mem_store 2000 (challengeKey ''W'') sample_auth = (s1, Inr (Some sample_challenge)) \<and>
     redis_get mem_store 2000 (challengeKey ''W'') s1 = (s2, Inr (Some sample_challenge)) \<and>
     snd (verify_check mem_store 2001 ''msg'' sample_challenge (fst (redis_del mem_store [challengeKey ''W''] s2))) = Inr ''n1'' \<and>
     verify_check mem_store 2001 ''msg'' sample_challenge
       (fst (verify_check mem_store 2001 ''msg'' sample_challenge (fst (redis_del mem_store [challengeKey ''W''] s2)))) = (s3, Inr ''n1'') \<and>
     verify_mark mem_store (ae_signed sample_env) 2002 ''W'' ''msg'' ''sig'' ''n1'' s3 = (s4, True) \<and>
     snd (verify_mark mem_store (ae_signed sample_env) 2002 ''W'' ''msg'' ''sig'' ''n1'' s4)"
  by (simp add: sample_eval)

theorem tokens_require_signature_witness:
  "\<exists>st'. verify_route mem_store sample_env ''raw'' ''F'' 2000 ''W'' ''msg'' ''sig'' fresh_response sample_auth [] =
     (st', [login_row sample_env ''raw'' ''F'' 2000 ''W''], Inr (send_json 200 (token_json ''W'' ''raw'') fresh_response)) \<and>
     ae_signed sample_env ''W'' ''msg'' ''sig''"
proof -
  obtain st' ts' r where v: "verify_route mem_store sample_env ''raw'' ''F'' 2000 ''W'' ''msg'' ''sig'' fresh_response sample_auth [] = (st', ts', r)"
    by (metis prod_cases3)
  have "\<exists>res'. r = Inr res'"
    using v by (auto simp: verify_route_def verifySignature_def verify_stored_def sample_eval issueRefreshToken_def findToken_def)
  moreover have "ae_jwt sample_env ''W'' = ''W''" by (simp add: sample_env_def)
  ultimately show ?thesis using tokens_require_signature [OF memkv.expiring_store_axioms v] v by auto
qed

section \<open>Guards of the routes\<close>

text \<open>A request gets through the token check followed by the ownership check only with a token issued for the wallet it names.\<close>

theorem self_only:
  assumes "jwtAuthMiddleware verifyJwt req fresh_response = (req', res')" and "res_next res'" and "res_next (requireSelf req' fresh_response)"
  shows "\<exists>h a. ar_authorization req = Some h \<and> startsWith h ''Bearer '' \<and> verifyJwt (drop 7 h) = Inr a \<and> paramAddress req = Some a"
  using assms
  by (auto simp: jwtAuthMiddleware_def requireSelf_def sendError_def paramAddress_def send_json_def split: option.splits if_splits sum.splits)

text \<open>Logging out everywhere leaves the wallet no live token and touches no one else's.\<close>

theorem logout_everywhere_complete:
  assumes "jwtAuthMiddleware verifyJwt req fresh_response = (req', res')" and "res_next res'" and "ar_wallet req' = Some w"
  shows "list_all (\<lambda>r. if rt_walletAddress r = w then \<not> live_token r else r \<in> set ts) (fst (logout_everywhere_route verifyJwt now req fresh_response ts))"
  using assms by (auto simp: logout_everywhere_route_def revokeAllSessions_def revoke_where_def list_all_iff live_token_def)

text \<open>The refresh route tells the caller that reuse was detected: the reason of the failure is the message of the response,
  although the comment there says it is not to be leaked.\<close>

theorem reuse_reason_in_response:
  assumes "findToken (ae_hash env token) ts = Some r" and "rt_used r" and "rt_revokedAt r = None" and "now \<le> rt_expiresAt r"
  shows "snd (refresh_route env newRaw now token res ts) =
    Inl (auth_error ''TOKEN_ROTATION_FAILED'' ''Refresh token reuse detected. All sessions invalidated.'' 401)"
  using assms by (simp add: refresh_route_def rotateRefreshToken_def rotate_check_def)

end
