(* ===== verification/Ws_Gateway.thy ===== *)
theory Ws_Gateway
  imports Auth
begin

text \<open>
  The web socket gateway, \<open>backend/src/ws_gateway.ts\<close>. A client object is a number, its fields are in a store, since the
  handlers of a socket keep the object after it has left the map of clients. Frames are JSON values before they are
  printed. Token verification, the token of the query string and the payloads are arguments; a send that throws is
  logged and the frame lost.
\<close>

definition HEARTBEAT_INTERVAL_MS :: int where "HEARTBEAT_INTERVAL_MS = 30000"

definition MAX_QUEUE_PER_CLIENT :: nat where "MAX_QUEUE_PER_CLIENT = 100"

section \<open>State\<close>

record ClientState =
  wc_open :: bool
  wc_broken :: bool
  wc_sent :: "json list"
  wc_pings :: nat
  wc_walletAddress :: string
  wc_isAdmin :: bool
  wc_topics :: "json list"
  wc_isAlive :: bool
  wc_pendingQueue :: "json list"

record gateway =
  gw_store :: "nat \<Rightarrow> ClientState"
  gw_clients :: "nat list"
  gw_subscriptions :: "json \<Rightarrow> nat list"
  gw_delivered :: nat
  gw_rejections :: nat

definition upd :: "nat \<Rightarrow> (ClientState \<Rightarrow> ClientState) \<Rightarrow> gateway \<Rightarrow> gateway" where
  "upd c f gw = gw\<lparr>gw_store := (gw_store gw)(c := f (gw_store gw c))\<rparr>"

section \<open>Topics\<close>

datatype TopicType = Group_topic | Wallet_topic | Global_topic

definition parseTopic :: "string \<Rightarrow> (TopicType \<times> string) option" where
  "parseTopic topic =
     (case split_on CHR '':'' topic of
        [] \<Rightarrow> None
      | ty # rest \<Rightarrow>
          let i = join '':'' rest
          in if ty = ''group'' \<and> i \<noteq> [] then Some (Group_topic, i)
             else if ty = ''wallet'' \<and> i \<noteq> [] then Some (Wallet_topic, i)
             else if ty = ''global'' then Some (Global_topic, []) else None)"

text \<open>A topic that is not a string has no \<open>split\<close>, unless an administrator asks, for whom it is not parsed.\<close>

definition isAuthorized :: "ClientState \<Rightarrow> json \<Rightarrow> thrown + bool" where
  "isAuthorized client topic =
     (if wc_isAdmin client then Inr True
      else case topic of
             JStr t \<Rightarrow>
               (case parseTopic t of
                  None \<Rightarrow> Inr False
                | Some (Wallet_topic, i) \<Rightarrow> Inr (i = wc_walletAddress client)
                | Some (Group_topic, i) \<Rightarrow> Inr True
                | Some (Global_topic, i) \<Rightarrow> Inr False)
           | _ \<Rightarrow> Inl (PlainError ''topic.split is not a function''))"

section \<open>Sending\<close>

definition client_send :: "json \<Rightarrow> ClientState \<Rightarrow> ClientState" where
  "client_send frame c = (if wc_open c \<and> \<not> wc_broken c then c\<lparr>wc_sent := wc_sent c @ [frame]\<rparr> else c)"

text \<open>The socket stays open during the loop, which therefore empties the queue, or does nothing.\<close>

definition client_flush :: "ClientState \<Rightarrow> ClientState" where
  "client_flush c = (if wc_open c then (fold client_send (wc_pendingQueue c) c)\<lparr>wc_pendingQueue := []\<rparr> else c)"

definition event_frame :: "string \<Rightarrow> json \<Rightarrow> json" where
  "event_frame topic payload = JObj [(''type'', JStr ''event''), (''topic'', JStr topic), (''payload'', payload)]"

definition notice_frame :: json where
  "notice_frame = JObj [(''type'', JStr ''notice''), (''message'', JStr ''event_dropped_backpressure'')]"

definition error_frame :: "string \<Rightarrow> json" where
  "error_frame m = JObj [(''type'', JStr ''error''), (''message'', JStr m)]"

definition publish_client :: "json \<Rightarrow> nat \<Rightarrow> gateway \<Rightarrow> gateway" where
  "publish_client frame c gw =
     (if \<not> wc_open (gw_store gw c) then gw
      else
        let gw1 = (if length (wc_pendingQueue (gw_store gw c)) \<ge> MAX_QUEUE_PER_CLIENT
                   then upd c (\<lambda>s. client_send notice_frame (s\<lparr>wc_pendingQueue := tl (wc_pendingQueue s)\<rparr>)) gw else gw);
            gw2 = upd c (\<lambda>s. client_flush (s\<lparr>wc_pendingQueue := wc_pendingQueue s @ [frame]\<rparr>)) gw1
        in gw2\<lparr>gw_delivered := gw_delivered gw2 + 1\<rparr>)"

definition publish :: "string \<Rightarrow> json \<Rightarrow> gateway \<Rightarrow> gateway" where
  "publish topic payload gw = fold (publish_client (event_frame topic payload)) (gw_subscriptions gw (JStr topic)) gw"

definition publish_to :: "(rat \<Rightarrow> string) \<Rightarrow> string \<Rightarrow> json option \<Rightarrow> json \<Rightarrow> gateway \<Rightarrow> gateway" where
  "publish_to fmt kind key event gw =
     (case key of Some v \<Rightarrow> if json_truthy v then publish (kind @ '':'' @ js_String fmt v) event gw else gw | None \<Rightarrow> gw)"

definition publishContractEvent :: "(rat \<Rightarrow> string) \<Rightarrow> json \<Rightarrow> json \<Rightarrow> gateway \<Rightarrow> gateway" where
  "publishContractEvent fmt data event gw =
     publish ''global'' event
       (publish_to fmt ''wallet'' (first_field data [''member'', ''address'', ''recipient'']) event
         (publish_to fmt ''group'' (first_field data [''groupId'', ''group_id'', ''group'']) event gw))"

definition connectionCount :: "gateway \<Rightarrow> nat" where
  "connectionCount gw = length (gw_clients gw)"

section \<open>Connections\<close>

record handshake =
  hs_query_token :: "string option"
  hs_authorization :: "string option"
  hs_admin_secret :: "string option"

definition handshake_token :: "handshake \<Rightarrow> string option" where
  "handshake_token hs =
     (case hs_query_token hs of
        Some t \<Rightarrow> Some t
      | None \<Rightarrow> (case hs_authorization hs of Some h \<Rightarrow> if startsWith h ''Bearer '' then Some (drop 7 h) else None | None \<Rightarrow> None))"

text \<open>Who connects: an administrator, the wallet of a verified token, or no one.\<close>

definition authenticate :: "string \<Rightarrow> (string \<Rightarrow> jwt_error + string) \<Rightarrow> handshake \<Rightarrow> (string \<times> bool) option" where
  "authenticate ADMIN_SECRET verifyJwt hs =
     (if hs_admin_secret hs = Some ADMIN_SECRET \<and> ADMIN_SECRET \<noteq> [] then Some (''admin'', True)
      else case handshake_token hs of
             None \<Rightarrow> None
           | Some t \<Rightarrow> if t = [] then None else (case verifyJwt t of Inl _ \<Rightarrow> None | Inr sub \<Rightarrow> Some (sub, False)))"

definition new_client :: "bool \<Rightarrow> string \<Rightarrow> bool \<Rightarrow> ClientState" where
  "new_client broken wallet admin =
     \<lparr>wc_open = True, wc_broken = broken, wc_sent = [], wc_pings = 0, wc_walletAddress = wallet, wc_isAdmin = admin, wc_topics = [],
      wc_isAlive = True, wc_pendingQueue = []\<rparr>"

definition connected_frame :: "string \<Rightarrow> json" where
  "connected_frame wallet = JObj [(''type'', JStr ''connected''), (''walletAddress'', JStr wallet)]"

definition onConnection :: "string \<Rightarrow> (string \<Rightarrow> jwt_error + string) \<Rightarrow> nat \<Rightarrow> bool \<Rightarrow> handshake \<Rightarrow> gateway \<Rightarrow> gateway" where
  "onConnection ADMIN_SECRET verifyJwt c broken hs gw =
     (case authenticate ADMIN_SECRET verifyJwt hs of
        None \<Rightarrow> gw\<lparr>gw_rejections := gw_rejections gw + 1\<rparr>
      | Some (wallet, admin) \<Rightarrow>
          upd c (client_send (connected_frame wallet))
            (gw\<lparr>gw_store := (gw_store gw)(c := new_client broken wallet admin), gw_clients := gw_clients gw @ [c]\<rparr>))"

definition set_add :: "'a \<Rightarrow> 'a list \<Rightarrow> 'a list" where
  "set_add x xs = (if x \<in> set xs then xs else xs @ [x])"

definition subscribe_one :: "nat \<Rightarrow> json \<Rightarrow> gateway \<Rightarrow> gateway" where
  "subscribe_one c topic gw =
     upd c (\<lambda>s. s\<lparr>wc_topics := set_add topic (wc_topics s)\<rparr>)
       (gw\<lparr>gw_subscriptions := (gw_subscriptions gw)(topic := set_add c (gw_subscriptions gw topic))\<rparr>)"

text \<open>The accepted and the rejected topics so far; an exception leaves the loop.\<close>

fun subscribe_loop :: "nat \<Rightarrow> json list \<Rightarrow> json list \<Rightarrow> json list \<Rightarrow> gateway \<Rightarrow> gateway \<times> (thrown + json list \<times> json list)" where
  "subscribe_loop c [] accepted rejected gw = (gw, Inr (accepted, rejected))"
| "subscribe_loop c (topic # topics) accepted rejected gw =
     (case isAuthorized (gw_store gw c) topic of
        Inl e \<Rightarrow> (gw, Inl e)
      | Inr False \<Rightarrow> subscribe_loop c topics accepted (rejected @ [topic]) gw
      | Inr True \<Rightarrow> subscribe_loop c topics (accepted @ [topic]) rejected (subscribe_one c topic gw))"

definition subscribed_frame :: "json list \<Rightarrow> json list \<Rightarrow> json" where
  "subscribed_frame accepted rejected = JObj [(''type'', JStr ''subscribed''), (''accepted'', JArr accepted), (''rejected'', JArr rejected)]"

definition handleSubscribe :: "nat \<Rightarrow> json list \<Rightarrow> gateway \<Rightarrow> gateway \<times> (thrown + unit)" where
  "handleSubscribe c topics gw =
     (case subscribe_loop c topics [] [] gw of
        (gw1, Inl e) \<Rightarrow> (gw1, Inl e)
      | (gw1, Inr (accepted, rejected)) \<Rightarrow> (upd c (client_send (subscribed_frame accepted rejected)) gw1, Inr ()))"

definition unsubscribe_one :: "nat \<Rightarrow> json \<Rightarrow> gateway \<Rightarrow> gateway" where
  "unsubscribe_one c topic gw =
     upd c (\<lambda>s. s\<lparr>wc_topics := removeAll topic (wc_topics s)\<rparr>)
       (gw\<lparr>gw_subscriptions := (gw_subscriptions gw)(topic := removeAll c (gw_subscriptions gw topic))\<rparr>)"

definition unsubscribed_frame :: "json list \<Rightarrow> json" where
  "unsubscribed_frame topics = JObj [(''type'', JStr ''unsubscribed''), (''topics'', JArr topics)]"

definition handleUnsubscribe :: "nat \<Rightarrow> json list \<Rightarrow> gateway \<Rightarrow> gateway" where
  "handleUnsubscribe c topics gw = upd c (client_send (unsubscribed_frame topics)) (fold (unsubscribe_one c) topics gw)"

definition pong_frame :: "int \<Rightarrow> json" where
  "pong_frame now = JObj [(''type'', JStr ''pong''), (''ts'', JNum now)]"

text \<open>The message after \<open>JSON.parse\<close>, \<open>None\<close> when that fails. Taking the fields of \<open>null\<close> throws.\<close>

definition onMessage :: "(rat \<Rightarrow> string) \<Rightarrow> int \<Rightarrow> nat \<Rightarrow> json option \<Rightarrow> gateway \<Rightarrow> gateway \<times> (thrown + unit)" where
  "onMessage fmt now c parsed gw =
     (case parsed of
        None \<Rightarrow> (upd c (client_send (error_frame ''Invalid JSON'')) gw, Inr ())
      | Some JNull \<Rightarrow> (gw, Inl (PlainError ''Cannot destructure null''))
      | Some msg \<Rightarrow>
          (case (json_field msg ''type'', json_field msg ''topics'') of
             (Some (JStr ty), Some (JArr topics)) \<Rightarrow>
               if ty = ''subscribe'' then handleSubscribe c topics gw
               else if ty = ''unsubscribe'' then (handleUnsubscribe c topics gw, Inr ())
               else if ty = ''ping'' then (upd c (client_send (pong_frame now)) gw, Inr ())
               else (upd c (client_send (error_frame (''Unknown message type: '' @ ty))) gw, Inr ())
           | (ty, _) \<Rightarrow>
               if ty = Some (JStr ''ping'') then (upd c (client_send (pong_frame now)) gw, Inr ())
               else (upd c (client_send (error_frame (''Unknown message type: '' @ (case ty of Some v \<Rightarrow> js_String fmt v | None \<Rightarrow> ''undefined'')))) gw, Inr ())))"

definition onClose :: "nat \<Rightarrow> gateway \<Rightarrow> gateway" where
  "onClose c gw =
     (let gw1 = fold (\<lambda>t g. g\<lparr>gw_subscriptions := (gw_subscriptions g)(t := removeAll c (gw_subscriptions g t))\<rparr>) (wc_topics (gw_store gw c)) gw
      in gw1\<lparr>gw_clients := removeAll c (gw_clients gw1)\<rparr>)"

definition heartbeat_frame :: "int \<Rightarrow> json" where
  "heartbeat_frame now = JObj [(''type'', JStr ''heartbeat''), (''ts'', JNum now)]"

definition heartbeat_client :: "int \<Rightarrow> nat \<Rightarrow> gateway \<Rightarrow> gateway" where
  "heartbeat_client now c gw =
     upd c (\<lambda>s. if \<not> wc_isAlive s then s\<lparr>wc_open := False\<rparr>
                else client_send (heartbeat_frame now) (s\<lparr>wc_isAlive := False, wc_pings := wc_pings s + 1\<rparr>)) gw"

definition heartbeat :: "int \<Rightarrow> gateway \<Rightarrow> gateway" where
  "heartbeat now gw = fold (heartbeat_client now) (gw_clients gw) gw"

definition pong :: "nat \<Rightarrow> gateway \<Rightarrow> gateway" where
  "pong c gw = upd c (\<lambda>s. s\<lparr>wc_isAlive := True\<rparr>) gw"

definition socket_closed :: "nat \<Rightarrow> gateway \<Rightarrow> gateway" where
  "socket_closed c gw = onClose c (upd c (\<lambda>s. s\<lparr>wc_open := False\<rparr>) gw)"

section \<open>What a client may see\<close>

text \<open>Events that were sent were of topics the client may read, and nothing waits in the queue.\<close>

definition client_ok :: "ClientState \<Rightarrow> bool" where
  "client_ok s \<longleftrightarrow> wc_pendingQueue s = [] \<and>
     (\<forall>f\<in>set (wc_sent s). json_field f ''type'' = Some (JStr ''event'') \<longrightarrow>
        (\<exists>t p. f = event_frame t p \<and> isAuthorized s (JStr t) = Inr True))"

definition gateway_ok :: "gateway \<Rightarrow> bool" where
  "gateway_ok gw \<longleftrightarrow>
     distinct (gw_clients gw) \<and> (\<forall>t. distinct (gw_subscriptions gw t)) \<and> (\<forall>c\<in>set (gw_clients gw). client_ok (gw_store gw c)) \<and>
     (\<forall>t c. c \<in> set (gw_subscriptions gw t) \<longrightarrow>
        c \<in> set (gw_clients gw) \<and> t \<in> set (wc_topics (gw_store gw c)) \<and> isAuthorized (gw_store gw c) t = Inr True)"

text \<open>An update of a client that leaves its identity alone.\<close>

definition same_client :: "ClientState \<Rightarrow> ClientState \<Rightarrow> bool" where
  "same_client s s' \<longleftrightarrow> wc_isAdmin s' = wc_isAdmin s \<and> wc_walletAddress s' = wc_walletAddress s"

lemma same_client_refl [simp]: "same_client s s"
  by (simp add: same_client_def)

lemma isAuthorized_same: "same_client s s' \<Longrightarrow> isAuthorized s' t = isAuthorized s t"
  unfolding same_client_def isAuthorized_def by (simp cong: json.case_cong option.case_cong prod.case_cong TopicType.case_cong)

lemma upd_fields [simp]:
  "gw_store (upd c f gw) = (gw_store gw)(c := f (gw_store gw c))" "gw_clients (upd c f gw) = gw_clients gw"
  "gw_subscriptions (upd c f gw) = gw_subscriptions gw"
  by (simp_all add: upd_def)

lemma upd_ok:
  assumes "gateway_ok gw"
    and "same_client (gw_store gw c) (f (gw_store gw c))"
    and "set (wc_topics (gw_store gw c)) \<subseteq> set (wc_topics (f (gw_store gw c)))"
    and "c \<in> set (gw_clients gw) \<Longrightarrow> client_ok (gw_store gw c) \<Longrightarrow> client_ok (f (gw_store gw c))"
  shows "gateway_ok (upd c f gw)"
  using assms isAuthorized_same [OF assms(2)] by (auto simp: gateway_ok_def)

lemma client_send_fields [simp]:
  "wc_topics (client_send f s) = wc_topics s" "same_client s (client_send f s)"
  "wc_pendingQueue (client_send f s) = wc_pendingQueue s" "wc_open (client_send f s) = wc_open s"
  by (simp_all add: client_send_def same_client_def)

lemma client_send_ok:
  assumes "client_ok s"
    and "json_field f ''type'' = Some (JStr ''event'') \<Longrightarrow> \<exists>t p. f = event_frame t p \<and> isAuthorized s (JStr t) = Inr True"
  shows "client_ok (client_send f s)"
proof -
  have "isAuthorized (client_send f s) t = isAuthorized s t" for t by (rule isAuthorized_same) simp
  then show ?thesis using assms by (auto simp: client_ok_def client_send_def split: if_splits)
qed

lemmas frame_defs = connected_frame_def subscribed_frame_def unsubscribed_frame_def pong_frame_def heartbeat_frame_def error_frame_def
  notice_frame_def

lemma frame_not_event [simp]:
  "json_field (connected_frame w) ''type'' \<noteq> Some (JStr ''event'')" "json_field (subscribed_frame a r) ''type'' \<noteq> Some (JStr ''event'')"
  "json_field (unsubscribed_frame ts) ''type'' \<noteq> Some (JStr ''event'')" "json_field (pong_frame n) ''type'' \<noteq> Some (JStr ''event'')"
  "json_field (heartbeat_frame n) ''type'' \<noteq> Some (JStr ''event'')" "json_field (error_frame m) ''type'' \<noteq> Some (JStr ''event'')"
  by (simp_all add: frame_defs json_field_def)

lemma send_control_ok: "gateway_ok gw \<Longrightarrow> json_field f ''type'' \<noteq> Some (JStr ''event'') \<Longrightarrow> gateway_ok (upd c (client_send f) gw)"
  by (rule upd_ok) (auto intro: client_send_ok)

section \<open>Steps\<close>

inductive ws_step :: "string \<Rightarrow> (string \<Rightarrow> jwt_error + string) \<Rightarrow> (rat \<Rightarrow> string) \<Rightarrow> gateway \<Rightarrow> gateway \<Rightarrow> bool"
  for secret :: string and verifyJwt :: "string \<Rightarrow> jwt_error + string" and fmt :: "rat \<Rightarrow> string" where
  ws_connect: "c \<notin> set (gw_clients gw) \<Longrightarrow> ws_step secret verifyJwt fmt gw (onConnection secret verifyJwt c broken hs gw)"
| ws_message: "c \<in> set (gw_clients gw) \<Longrightarrow> ws_step secret verifyJwt fmt gw (fst (onMessage fmt now c parsed gw))"
| ws_pong: "c \<in> set (gw_clients gw) \<Longrightarrow> ws_step secret verifyJwt fmt gw (pong c gw)"
| ws_closed: "c \<in> set (gw_clients gw) \<Longrightarrow> ws_step secret verifyJwt fmt gw (socket_closed c gw)"
| ws_heartbeat: "ws_step secret verifyJwt fmt gw (heartbeat now gw)"
| ws_event: "ws_step secret verifyJwt fmt gw (publishContractEvent fmt data event gw)"

definition gateway_start :: "(nat \<Rightarrow> ClientState) \<Rightarrow> gateway" where
  "gateway_start store = \<lparr>gw_store = store, gw_clients = [], gw_subscriptions = (\<lambda>_. []), gw_delivered = 0, gw_rejections = 0\<rparr>"

lemma gateway_start_ok: "gateway_ok (gateway_start store)"
  by (simp add: gateway_ok_def gateway_start_def)

lemma set_set_add [simp]: "set (set_add x xs) = insert x (set xs)"
  by (auto simp: set_add_def)

lemma distinct_set_add [simp]: "distinct (set_add x xs) = distinct xs"
  by (auto simp: set_add_def)

lemma onConnection_ok:
  assumes "gateway_ok gw" "c \<notin> set (gw_clients gw)"
  shows "gateway_ok (onConnection secret verifyJwt c broken hs gw)"
proof (cases "authenticate secret verifyJwt hs")
  case None
  then show ?thesis using assms by (simp add: onConnection_def gateway_ok_def)
next
  case (Some a)
  have "c \<notin> set (gw_subscriptions gw t)" for t using assms unfolding gateway_ok_def by blast
  then have "gateway_ok (gw\<lparr>gw_store := (gw_store gw)(c := new_client broken w ad), gw_clients := gw_clients gw @ [c]\<rparr>)" for w ad
    using assms by (auto simp: gateway_ok_def new_client_def client_ok_def)
  then show ?thesis using Some by (auto simp: onConnection_def split: prod.split intro!: send_control_ok)
qed

lemma subscribe_one_ok:
  assumes "gateway_ok gw" "c \<in> set (gw_clients gw)" "isAuthorized (gw_store gw c) t = Inr True"
  shows "gateway_ok (subscribe_one c t gw)"
proof -
  have "same_client (gw_store gw c) ((gw_store gw c)\<lparr>wc_topics := ts\<rparr>)" for ts by (simp add: same_client_def)
  then have a: "isAuthorized ((gw_store gw c)\<lparr>wc_topics := ts\<rparr>) u = isAuthorized (gw_store gw c) u" for ts u by (rule isAuthorized_same)
  then have "client_ok ((gw_store gw c)\<lparr>wc_topics := ts\<rparr>)" for ts using assms(1,2) by (auto simp: gateway_ok_def client_ok_def)
  then show ?thesis using assms a by (auto simp: gateway_ok_def subscribe_one_def)
qed

lemma subscribe_one_clients [simp]: "gw_clients (subscribe_one c t gw) = gw_clients gw"
  by (simp add: subscribe_one_def)

lemma subscribe_loop_ok:
  assumes "gateway_ok gw" "c \<in> set (gw_clients gw)"
  shows "gateway_ok (fst (subscribe_loop c ts a r gw))"
  using assms
proof (induction c ts a r gw rule: subscribe_loop.induct)
  case (2 c topic topics accepted rejected gw)
  then show ?case by (auto simp: subscribe_one_ok split: sum.split bool.split)
qed simp

lemma handleSubscribe_ok:
  assumes "gateway_ok gw" "c \<in> set (gw_clients gw)"
  shows "gateway_ok (fst (handleSubscribe c ts gw))"
  using subscribe_loop_ok [OF assms, of ts "[]" "[]"]
  by (auto simp: handleSubscribe_def split: prod.split sum.split intro: send_control_ok)

lemma unsubscribe_one_ok: "gateway_ok gw \<Longrightarrow> gateway_ok (unsubscribe_one c t gw)"
proof -
  assume ok: "gateway_ok gw"
  have "same_client (gw_store gw c) ((gw_store gw c)\<lparr>wc_topics := ts\<rparr>)" for ts by (simp add: same_client_def)
  then have a: "isAuthorized ((gw_store gw c)\<lparr>wc_topics := ts\<rparr>) u = isAuthorized (gw_store gw c) u" for ts u by (rule isAuthorized_same)
  then have "c \<in> set (gw_clients gw) \<Longrightarrow> client_ok ((gw_store gw c)\<lparr>wc_topics := ts\<rparr>)" for ts using ok by (auto simp: gateway_ok_def client_ok_def)
  then show ?thesis using ok a by (auto simp: gateway_ok_def unsubscribe_one_def distinct_removeAll)
qed

lemma handleUnsubscribe_ok: "gateway_ok gw \<Longrightarrow> gateway_ok (handleUnsubscribe c ts gw)"
proof -
  have "gateway_ok gw \<Longrightarrow> gateway_ok (fold (unsubscribe_one c) ts gw)"
    by (induction ts arbitrary: gw) (auto intro: unsubscribe_one_ok)
  then show "gateway_ok gw \<Longrightarrow> ?thesis" by (simp add: handleUnsubscribe_def send_control_ok)
qed

lemma onMessage_ok:
  assumes "gateway_ok gw" "c \<in> set (gw_clients gw)"
  shows "gateway_ok (fst (onMessage fmt now c parsed gw))"
  using assms by (auto simp: onMessage_def send_control_ok handleSubscribe_ok handleUnsubscribe_ok split: option.split json.split)

lemma pong_ok: "gateway_ok gw \<Longrightarrow> gateway_ok (pong c gw)"
  unfolding pong_def
proof (rule upd_ok)
  have "isAuthorized (gw_store gw c\<lparr>wc_isAlive := True\<rparr>) t = isAuthorized (gw_store gw c) t" for t
    by (rule isAuthorized_same) (simp add: same_client_def)
  then show "client_ok (gw_store gw c) \<Longrightarrow> client_ok (gw_store gw c\<lparr>wc_isAlive := True\<rparr>)" by (simp add: client_ok_def)
qed (simp_all add: same_client_def)

lemma terminate_ok: "gateway_ok gw \<Longrightarrow> gateway_ok (upd c (\<lambda>s. s\<lparr>wc_open := False\<rparr>) gw)"
proof (rule upd_ok)
  have "isAuthorized (gw_store gw c\<lparr>wc_open := False\<rparr>) t = isAuthorized (gw_store gw c) t" for t
    by (rule isAuthorized_same) (simp add: same_client_def)
  then show "client_ok (gw_store gw c) \<Longrightarrow> client_ok (gw_store gw c\<lparr>wc_open := False\<rparr>)" by (simp add: client_ok_def)
qed (simp_all add: same_client_def)

lemma heartbeat_client_ok: "gateway_ok gw \<Longrightarrow> gateway_ok (heartbeat_client now c gw)"
proof -
  assume ok: "gateway_ok gw"
  let ?s = "gw_store gw c\<lparr>wc_isAlive := False, wc_pings := wc_pings (gw_store gw c) + 1\<rparr>"
  have "isAuthorized ?s t = isAuthorized (gw_store gw c) t" for t by (rule isAuthorized_same) (simp add: same_client_def)
  then have "client_ok (gw_store gw c) \<Longrightarrow> client_ok (client_send (heartbeat_frame now) ?s)"
    by (intro client_send_ok) (simp_all add: client_ok_def)
  then have "gateway_ok (upd c (\<lambda>s. client_send (heartbeat_frame now) (s\<lparr>wc_isAlive := False, wc_pings := wc_pings s + 1\<rparr>)) gw)"
    using ok by (intro upd_ok) (simp_all add: same_client_def client_send_def)
  moreover have "heartbeat_client now c gw =
      (if \<not> wc_isAlive (gw_store gw c) then upd c (\<lambda>s. s\<lparr>wc_open := False\<rparr>) gw
       else upd c (\<lambda>s. client_send (heartbeat_frame now) (s\<lparr>wc_isAlive := False, wc_pings := wc_pings s + 1\<rparr>)) gw)"
    by (simp add: heartbeat_client_def upd_def)
  ultimately show ?thesis using terminate_ok [OF ok] by simp
qed

lemma heartbeat_ok: "gateway_ok gw \<Longrightarrow> gateway_ok (heartbeat now gw)"
proof -
  have "gateway_ok gw \<Longrightarrow> gateway_ok (fold (heartbeat_client now) cs gw)" for cs
    by (induction cs arbitrary: gw) (auto intro: heartbeat_client_ok)
  then show "gateway_ok gw \<Longrightarrow> ?thesis" by (simp add: heartbeat_def)
qed

text \<open>A closing socket leaves every set of subscribers, not only those of its own topics.\<close>

lemma fold_leave:
  "fold (\<lambda>t g. g\<lparr>gw_subscriptions := (gw_subscriptions g)(t := removeAll c (gw_subscriptions g t))\<rparr>) ts gw =
   gw\<lparr>gw_subscriptions := (\<lambda>t. if t \<in> set ts then removeAll c (gw_subscriptions gw t) else gw_subscriptions gw t)\<rparr>"
  by (induction ts arbitrary: gw) (auto simp: fun_eq_iff intro!: arg_cong [where f = "\<lambda>x. gw\<lparr>gw_subscriptions := x\<rparr>" for gw])

lemma onClose_leaves:
  assumes "gateway_ok gw"
  shows "onClose c gw = gw\<lparr>gw_subscriptions := \<lambda>t. removeAll c (gw_subscriptions gw t), gw_clients := removeAll c (gw_clients gw)\<rparr>"
proof -
  have "(if t \<in> set (wc_topics (gw_store gw c)) then removeAll c (gw_subscriptions gw t) else gw_subscriptions gw t)
        = removeAll c (gw_subscriptions gw t)" for t
  proof (cases "c \<in> set (gw_subscriptions gw t)")
    case True
    then have "t \<in> set (wc_topics (gw_store gw c))" using assms unfolding gateway_ok_def by blast
    then show ?thesis by simp
  qed (simp add: removeAll_id)
  then show ?thesis by (simp add: onClose_def fold_leave)
qed

lemma socket_closed_ok: "gateway_ok gw \<Longrightarrow> gateway_ok (socket_closed c gw)"
  using onClose_leaves [OF terminate_ok] terminate_ok [of gw c]
  by (auto simp: socket_closed_def gateway_ok_def distinct_removeAll)

text \<open>The queue is empty before and after, so the branch for a full one is never taken.\<close>

lemma flush_sends: "wc_pendingQueue s = [] \<Longrightarrow> wc_open s \<Longrightarrow> client_flush (s\<lparr>wc_pendingQueue := [f]\<rparr>) = client_send f s"
  by (simp add: client_flush_def client_send_def)

lemma publish_client_sends:
  assumes "wc_pendingQueue (gw_store gw c) = []"
  shows "publish_client f c gw =
    (if wc_open (gw_store gw c) then (upd c (client_send f) gw)\<lparr>gw_delivered := gw_delivered gw + 1\<rparr> else gw)"
  using assms by (simp add: publish_client_def MAX_QUEUE_PER_CLIENT_def flush_sends upd_def)

lemma gateway_ok_delivered [simp]: "gateway_ok (gw\<lparr>gw_delivered := n\<rparr>) = gateway_ok gw"
  by (simp add: gateway_ok_def)

lemma publish_client_ok:
  assumes "gateway_ok gw" "c \<in> set (gw_subscriptions gw (JStr t))"
  shows "gateway_ok (publish_client (event_frame t p) c gw)"
proof -
  have c: "c \<in> set (gw_clients gw)" "isAuthorized (gw_store gw c) (JStr t) = Inr True" using assms unfolding gateway_ok_def by blast+
  then have "wc_pendingQueue (gw_store gw c) = []" using assms unfolding gateway_ok_def client_ok_def by blast
  moreover have "gateway_ok (upd c (client_send (event_frame t p)) gw)"
    using assms(1) c(2) by (intro upd_ok) (auto intro: client_send_ok)
  ultimately show ?thesis using assms(1) by (simp add: publish_client_sends)
qed

lemma publish_client_subs [simp]: "gw_subscriptions (publish_client f c gw) = gw_subscriptions gw"
  by (simp add: publish_client_def Let_def)

lemma publish_ok: "gateway_ok gw \<Longrightarrow> gateway_ok (publish t p gw)"
proof -
  have "gateway_ok gw \<Longrightarrow> set cs \<subseteq> set (gw_subscriptions gw (JStr t)) \<Longrightarrow> gateway_ok (fold (publish_client (event_frame t p)) cs gw)" for cs
    by (induction cs arbitrary: gw) (auto simp: publish_client_ok)
  then show "gateway_ok gw \<Longrightarrow> ?thesis" by (simp add: publish_def)
qed

lemma publishContractEvent_ok: "gateway_ok gw \<Longrightarrow> gateway_ok (publishContractEvent fmt data event gw)"
  by (auto simp: publishContractEvent_def publish_to_def publish_ok split: option.split)

lemma ws_step_ok: "ws_step secret verifyJwt fmt gw gw' \<Longrightarrow> gateway_ok gw \<Longrightarrow> gateway_ok gw'"
  by (induction rule: ws_step.induct) (simp_all add: onConnection_ok onMessage_ok pong_ok socket_closed_ok heartbeat_ok publishContractEvent_ok)

lemma gateway_reachable_ok: "(ws_step secret verifyJwt fmt)\<^sup>*\<^sup>* (gateway_start store) gw \<Longrightarrow> gateway_ok gw"
  by (induction rule: rtranclp_induct) (auto intro: gateway_start_ok ws_step_ok)

section \<open>Properties\<close>

lemma event_frame_eq [simp]: "event_frame t p = event_frame u q \<longleftrightarrow> t = u \<and> p = q"
  by (simp add: event_frame_def)

lemma authorized_cases:
  assumes "isAuthorized s (JStr t) = Inr True"
  shows "wc_isAdmin s \<or> parseTopic t = Some (Wallet_topic, wc_walletAddress s) \<or> (\<exists>g. parseTopic t = Some (Group_topic, g))"
  using assms by (auto simp: isAuthorized_def split: if_splits option.splits prod.splits TopicType.splits)

text \<open>C15. In every state the gateway can reach, an event that was sent to a connected client who is not an administrator
  was of the client's own wallet topic or of a group topic; the topics of other wallets and the global stream are never
  delivered to it.\<close>

theorem events_only_to_authorized:
  assumes "(ws_step secret verifyJwt fmt)\<^sup>*\<^sup>* (gateway_start store) gw" "c \<in> set (gw_clients gw)"
    and "event_frame t p \<in> set (wc_sent (gw_store gw c))" "\<not> wc_isAdmin (gw_store gw c)"
  shows "parseTopic t = Some (Wallet_topic, wc_walletAddress (gw_store gw c)) \<or> (\<exists>g. parseTopic t = Some (Group_topic, g))"
proof -
  have "client_ok (gw_store gw c)" using gateway_reachable_ok [OF assms(1)] assms(2) by (simp add: gateway_ok_def)
  moreover have "json_field (event_frame t p) ''type'' = Some (JStr ''event'')" by (simp add: event_frame_def json_field_def)
  ultimately have "isAuthorized (gw_store gw c) (JStr t) = Inr True" using assms(3) unfolding client_ok_def by fastforce
  then show ?thesis using assms(4) authorized_cases by blast
qed

lemma publish_fold:
  assumes "distinct cs" "\<forall>c\<in>set cs. wc_pendingQueue (gw_store gw c) = []"
  shows "gw_store (fold (publish_client f) cs gw) c =
      (if c \<in> set cs \<and> wc_open (gw_store gw c) then client_send f (gw_store gw c) else gw_store gw c) \<and>
    gw_delivered (fold (publish_client f) cs gw) = gw_delivered gw + length (filter (\<lambda>c. wc_open (gw_store gw c)) cs)"
  using assms
proof (induction cs arbitrary: gw)
  case (Cons a cs)
  let ?gw = "publish_client f a gw"
  have s: "gw_store ?gw = (if wc_open (gw_store gw a) then (gw_store gw)(a := client_send f (gw_store gw a)) else gw_store gw)"
    and d: "gw_delivered ?gw = gw_delivered gw + (if wc_open (gw_store gw a) then 1 else 0)"
    using Cons.prems by (simp_all add: publish_client_sends)
  have e: "\<forall>c\<in>set cs. wc_pendingQueue (gw_store ?gw c) = []" using Cons.prems s by auto
  have o: "filter (\<lambda>c. wc_open (gw_store ?gw c)) cs = filter (\<lambda>c. wc_open (gw_store gw c)) cs"
    using s by (intro filter_cong) auto
  show ?case using Cons.IH [of ?gw] Cons.prems e d o s by auto
qed simp

text \<open>Publishing sends the event once to each subscriber whose socket is open, directly after what it got before,
  changes no other client, counts one delivery per open subscriber, and never sends the notice of a dropped event: the
  queue is emptied whenever something is put in it.\<close>

theorem publish_exact:
  assumes "(ws_step secret verifyJwt fmt)\<^sup>*\<^sup>* (gateway_start store) gw"
  shows "gw_store (publish t p gw) c =
      (if c \<in> set (gw_subscriptions gw (JStr t)) \<and> wc_open (gw_store gw c) then client_send (event_frame t p) (gw_store gw c) else gw_store gw c)"
    and "gw_delivered (publish t p gw) = gw_delivered gw + length (filter (\<lambda>c. wc_open (gw_store gw c)) (gw_subscriptions gw (JStr t)))"
proof -
  have ok: "gateway_ok gw" by (rule gateway_reachable_ok [OF assms])
  then have d: "distinct (gw_subscriptions gw (JStr t))" by (simp add: gateway_ok_def)
  have e: "\<forall>c\<in>set (gw_subscriptions gw (JStr t)). wc_pendingQueue (gw_store gw c) = []"
    using ok unfolding gateway_ok_def client_ok_def by blast
  show "gw_store (publish t p gw) c =
      (if c \<in> set (gw_subscriptions gw (JStr t)) \<and> wc_open (gw_store gw c) then client_send (event_frame t p) (gw_store gw c) else gw_store gw c)"
    unfolding publish_def using publish_fold [OF d e] by blast
  show "gw_delivered (publish t p gw) = gw_delivered gw + length (filter (\<lambda>c. wc_open (gw_store gw c)) (gw_subscriptions gw (JStr t)))"
    unfolding publish_def using publish_fold [OF d e] by blast
qed

lemma heartbeat_client_other [simp]: "c \<noteq> d \<Longrightarrow> gw_store (heartbeat_client now c gw) d = gw_store gw d"
  by (simp add: heartbeat_client_def)

lemma heartbeat_fold:
  "distinct cs \<Longrightarrow> gw_store (fold (heartbeat_client now) cs gw) c = (if c \<in> set cs then gw_store (heartbeat_client now c gw) c else gw_store gw c)"
proof (induction cs arbitrary: gw)
  case (Cons a cs)
  then show ?case by (cases "a = c") (auto simp: heartbeat_client_def)
qed simp

lemma heartbeat_store:
  assumes "distinct (gw_clients gw)" "c \<in> set (gw_clients gw)"
  shows "gw_store (heartbeat now gw) c = gw_store (heartbeat_client now c gw) c"
  using heartbeat_fold [OF assms(1)] assms(2) by (simp add: heartbeat_def)

lemma heartbeat_clients [simp]: "gw_clients (heartbeat now gw) = gw_clients gw"
proof -
  have "gw_clients (fold (heartbeat_client now) cs gw) = gw_clients gw" for cs
    by (induction cs arbitrary: gw) (simp_all add: heartbeat_client_def)
  then show ?thesis by (simp add: heartbeat_def)
qed

text \<open>A connected client from which no pong arrives between two ticks is disconnected by the second one at the latest,
  and one that answers stays connected.\<close>

theorem silent_client_terminated:
  assumes "(ws_step secret verifyJwt fmt)\<^sup>*\<^sup>* (gateway_start store) gw" "c \<in> set (gw_clients gw)"
  shows "\<not> wc_open (gw_store (heartbeat now' (heartbeat now gw)) c)"
    and "wc_isAlive (gw_store gw c) \<Longrightarrow>
      wc_open (gw_store (heartbeat now' (pong c (heartbeat now gw))) c) = wc_open (gw_store gw c)"
proof -
  have d: "distinct (gw_clients gw)" using gateway_reachable_ok [OF assms(1)] by (simp add: gateway_ok_def)
  have p: "gw_clients (pong c g) = gw_clients g" for g by (simp add: pong_def)
  show "\<not> wc_open (gw_store (heartbeat now' (heartbeat now gw)) c)"
    using d assms(2) by (simp add: heartbeat_store) (simp add: heartbeat_client_def heartbeat_store client_send_def)
  show "wc_isAlive (gw_store gw c) \<Longrightarrow>
      wc_open (gw_store (heartbeat now' (pong c (heartbeat now gw))) c) = wc_open (gw_store gw c)"
    using d assms(2) by (simp add: heartbeat_store p) (simp add: heartbeat_client_def pong_def heartbeat_store client_send_def)
qed

definition sample_gateway :: gateway where
  "sample_gateway =
     publishContractEvent (\<lambda>_. []) (JObj [(''member'', JStr ''GA'')]) JNull
       (fst (onMessage (\<lambda>_. []) 0 7 (Some (JObj [(''type'', JStr ''subscribe''), (''topics'', JArr [JStr ''wallet:GA'', JStr ''wallet:GB''])]))
          (onConnection ''s'' Inr 7 False \<lparr>hs_query_token = Some ''GA'', hs_authorization = None, hs_admin_secret = None\<rparr>
             (gateway_start (\<lambda>_. new_client False [] False)))))"

lemmas gateway_defs = sample_gateway_def publishContractEvent_def publish_to_def first_field_def publish_def publish_client_def
  onMessage_def handleSubscribe_def onConnection_def authenticate_def handshake_token_def gateway_start_def new_client_def
  client_send_def client_flush_def upd_def isAuthorized_def parseTopic_def subscribe_one_def set_add_def json_field_def
  MAX_QUEUE_PER_CLIENT_def event_frame_def connected_frame_def subscribed_frame_def startsWith_def

lemma sample_gateway_reachable: "(ws_step ''s'' Inr (\<lambda>_. []))\<^sup>*\<^sup>* (gateway_start (\<lambda>_. new_client False [] False)) sample_gateway"
  unfolding sample_gateway_def
  apply (rule rtranclp.rtrancl_into_rtrancl)
   prefer 2
   apply (rule ws_event)
  apply (rule rtranclp.rtrancl_into_rtrancl)
   prefer 2
   apply (rule ws_message)
   apply (simp add: gateway_defs)
  apply (rule r_into_rtranclp)
  apply (rule ws_connect)
  apply (simp add: gateway_start_def)
  done

lemma sample_gateway_state:
  "gw_clients sample_gateway = [7]" "wc_walletAddress (gw_store sample_gateway 7) = ''GA''" "\<not> wc_isAdmin (gw_store sample_gateway 7)"
  "event_frame ''wallet:GA'' JNull \<in> set (wc_sent (gw_store sample_gateway 7))"
  by (simp_all add: gateway_defs)

lemma events_only_to_authorized_witness:
  "parseTopic ''wallet:GA'' = Some (Wallet_topic, ''GA'') \<or> (\<exists>g. parseTopic ''wallet:GA'' = Some (Group_topic, g))"
  using events_only_to_authorized [OF sample_gateway_reachable, of 7 "''wallet:GA''" JNull] by (simp add: sample_gateway_state)

text \<open>Any client with a valid token may subscribe to any group, whether its wallet is a member or not; the header of the
  file says only to groups it belongs to.\<close>

theorem any_group_readable:
  assumes "g \<noteq> []"
  shows "isAuthorized s (JStr (''group:'' @ g)) = Inr True"
proof -
  have "split_on CHR '':'' (''group:'' @ g) = ''group'' # split_on CHR '':'' g"
    using split_on_word_append [of "CHR '':''" "''group''" g] by simp
  moreover have "join '':'' (split_on CHR '':'' g) = g" by (rule join_split_on)
  ultimately show ?thesis using assms by (simp add: isAuthorized_def parseTopic_def)
qed

text \<open>A frame holding \<open>null\<close>, or a subscription to a topic that is not a string by a client that is not an administrator,
  throws in the message handler, where nothing catches it.\<close>

theorem malformed_frames_throw:
  assumes "\<not> wc_isAdmin (gw_store gw c)"
  shows "\<exists>e. snd (onMessage fmt now c (Some JNull) gw) = Inl e"
    and "\<exists>e. snd (onMessage fmt now c (Some (JObj [(''type'', JStr ''subscribe''), (''topics'', JArr (JNum n # ts))])) gw) = Inl e"
  using assms by (simp_all add: onMessage_def handleSubscribe_def isAuthorized_def json_field_def)

text \<open>A socket that closes leaves the map of clients and every set of subscribers, so no later event is sent to it.\<close>

theorem closed_socket_forgotten:
  assumes "(ws_step secret verifyJwt fmt)\<^sup>*\<^sup>* (gateway_start store) gw"
  shows "c \<notin> set (gw_clients (socket_closed c gw)) \<and> (\<forall>t. c \<notin> set (gw_subscriptions (socket_closed c gw) t))"
  using onClose_leaves [OF terminate_ok [OF gateway_reachable_ok [OF assms]], of c] by (simp add: socket_closed_def)

end
