(* ===== verification/On_Chain_Monitor.thy ===== *)
theory On_Chain_Monitor
  imports Js_Values Group_Cache Errors
begin

text \<open>
  The monitor of contract events, \<open>backend/src/on_chain_monitor.ts\<close>: the classification of events, one check cycle with
  its five alerts, and the polling loop as a step relation, since the loop waits for the database in the middle of a tick.
  The rows of the event table, the printing of numbers and the sink of the alerts are arguments; the sink may fail.
\<close>

section \<open>Configuration and events\<close>

record OnChainMonitorConfig =
  largePayoutThresholdStroops :: int
  payoutSpikeThreshold :: nat
  errorSpikeThreshold :: nat
  revertThreshold :: nat
  mc_rollingWindowMs :: int
  mc_pollIntervalMs :: int

definition MONITOR_DEFAULT_CONFIG :: OnChainMonitorConfig where
  "MONITOR_DEFAULT_CONFIG =
     \<lparr>largePayoutThresholdStroops = 100000000000, payoutSpikeThreshold = 10, errorSpikeThreshold = 5, revertThreshold = 3,
      mc_rollingWindowMs = 5 * 60 * 1000, mc_pollIntervalMs = 60 * 1000\<rparr>"

record contract_event =
  cv_eventType :: string
  cv_data :: json
  cv_txHash :: string
  cv_ledgerSeq :: int
  cv_timestamp :: int

definition ADMIN_EVENTS :: "string list" where
  "ADMIN_EVENTS = [''pause_group'', ''unpause_group'', ''admin'', ''admin_action'', ''set_admin'']"

definition PAYOUT_EVENTS :: "string list" where
  "PAYOUT_EVENTS = [''payout'', ''payout_received'', ''payoutreceived'', ''payout_processed'']"

definition ERROR_EVENTS :: "string list" where
  "ERROR_EVENTS = [''error'', ''contract_error'', ''failed'', ''revert'']"

definition REVERT_EVENTS :: "string list" where
  "REVERT_EVENTS = [''revert'', ''tx_failed'', ''invocation_failed'']"

definition normalise :: "string \<Rightarrow> string" where
  "normalise t = map (\<lambda>c. if c = CHR ''-'' then CHR ''_'' else c) (map to_lower t)"

definition isAdmin_event :: "string \<Rightarrow> bool" where "isAdmin_event t \<longleftrightarrow> normalise t \<in> set ADMIN_EVENTS"

definition isPayout :: "string \<Rightarrow> bool" where "isPayout t \<longleftrightarrow> normalise t \<in> set PAYOUT_EVENTS"

definition isError :: "string \<Rightarrow> bool" where "isError t \<longleftrightarrow> normalise t \<in> set ERROR_EVENTS"

definition isRevert :: "string \<Rightarrow> bool" where "isRevert t \<longleftrightarrow> normalise t \<in> set REVERT_EVENTS"

section \<open>One check\<close>

text \<open>\<open>BigInt(s)\<close>: a decimal integer with an optional sign, or digits after \<open>0x\<close>, \<open>0o\<close> or \<open>0b\<close>, with space around it;
  anything else throws.\<close>

definition radix_digit :: "char \<Rightarrow> nat option" where
  "radix_digit c =
     (let n = (of_char (to_lower c) :: nat)
      in if is_digit c then Some (digit_val c) else if 97 \<le> n \<and> n \<le> 102 then Some (n - 87) else None)"

definition radix_value :: "nat \<Rightarrow> string \<Rightarrow> int option" where
  "radix_value b s =
     (if s = [] then None
      else fold (\<lambda>c acc. case (acc, radix_digit c) of
                           (Some a, Some d) \<Rightarrow> if d < b then Some (a * int b + int d) else None
                         | _ \<Rightarrow> None) s (Some 0))"

definition BigInt :: "string \<Rightarrow> thrown + int" where
  "BigInt s =
     (let w = trim s;
          r = (case w of
                 z # p # ds \<Rightarrow>
                   if z = CHR ''0'' \<and> to_lower p = CHR ''x'' then radix_value 16 ds
                   else if z = CHR ''0'' \<and> to_lower p = CHR ''o'' then radix_value 8 ds
                   else if z = CHR ''0'' \<and> to_lower p = CHR ''b'' then radix_value 2 ds
                   else to_number w
               | _ \<Rightarrow> to_number w)
      in case r of Some i \<Rightarrow> Inr i | None \<Rightarrow> Inl (PlainError ''SyntaxError: Cannot convert to a BigInt''))"

datatype AlertSeverity = Warning_alert | Critical_alert

record OnChainAlert =
  oa_type :: string
  oa_severity :: AlertSeverity
  oa_message :: string
  oa_circuitBreakerAction :: "string option"
  oa_metadata :: json
  oa_runbook :: string

text \<open>Printing of numbers: \<open>String(x)\<close> and \<open>x.toFixed(2)\<close>.\<close>

record number_format =
  nf_string :: "rat \<Rightarrow> string"
  nf_fixed2 :: "rat \<Rightarrow> string"

definition runbook_url :: "string \<Rightarrow> string" where
  "runbook_url name = ''https://github.com/ComputerOracle/Stellar-Save/blob/main/docs/runbooks/'' @ name"

definition payout_amount :: "number_format \<Rightarrow> contract_event \<Rightarrow> thrown + int" where
  "payout_amount nf p =
     (case first_field (cv_data p) [''amount'', ''value''] of
        Some v \<Rightarrow> if json_truthy v then BigInt (js_String (nf_string nf) v) else Inr 0
      | None \<Rightarrow> Inr 0)"

definition large_payout_alert :: "number_format \<Rightarrow> contract_event \<Rightarrow> int \<Rightarrow> OnChainAlert" where
  "large_payout_alert nf p amount =
     (let xlm = rat_of_int amount / 10000000
      in \<lparr>oa_type = ''LARGE_PAYOUT'', oa_severity = Critical_alert,
          oa_message = ''Large payout detected: '' @ nf_fixed2 nf xlm @ '' XLM (tx: '' @ cv_txHash p @ '')'',
          oa_circuitBreakerAction =
            Some ''Consider calling pause_group on the affected contract until the payout is manually verified.'',
          oa_metadata = JObj [(''txHash'', JStr (cv_txHash p)), (''amountXlm'', JRat xlm), (''ledgerSeq'', JNum (cv_ledgerSeq p))],
          oa_runbook = runbook_url ''on-chain-large-payout.md''\<rparr>)"

text \<open>The first payout whose amount does not parse ends the check. The gauge holds the last large amount seen.\<close>

fun large_payouts :: "number_format \<Rightarrow> OnChainMonitorConfig \<Rightarrow> contract_event list \<Rightarrow> thrown + OnChainAlert list" where
  "large_payouts nf cfg [] = Inr []"
| "large_payouts nf cfg (p # ps) =
     (case payout_amount nf p of
        Inl e \<Rightarrow> Inl e
      | Inr amount \<Rightarrow>
          (case large_payouts nf cfg ps of
             Inl e \<Rightarrow> Inl e
           | Inr rest \<Rightarrow> Inr (if amount \<ge> largePayoutThresholdStroops cfg then large_payout_alert nf p amount # rest else rest)))"

definition window_minutes :: "OnChainMonitorConfig \<Rightarrow> rat" where
  "window_minutes cfg = rat_of_int (mc_rollingWindowMs cfg) / 60000"

definition count_message :: "number_format \<Rightarrow> OnChainMonitorConfig \<Rightarrow> nat \<Rightarrow> string \<Rightarrow> string" where
  "count_message nf cfg n what =
     string_of_nat n @ what @ '' in the last '' @ nf_string nf (window_minutes cfg) @ '' minutes''"

definition payout_spike :: "number_format \<Rightarrow> OnChainMonitorConfig \<Rightarrow> contract_event list \<Rightarrow> OnChainAlert list" where
  "payout_spike nf cfg payouts =
     (if length payouts \<ge> payoutSpikeThreshold cfg
      then [\<lparr>oa_type = ''PAYOUT_SPIKE'', oa_severity = Warning_alert, oa_message = count_message nf cfg (length payouts) '' payouts'',
             oa_circuitBreakerAction = None,
             oa_metadata = JObj [(''count'', JNum (int (length payouts))), (''windowMinutes'', JRat (window_minutes cfg))],
             oa_runbook = runbook_url ''on-chain-payout-spike.md''\<rparr>]
      else [])"

definition error_spike :: "number_format \<Rightarrow> OnChainMonitorConfig \<Rightarrow> contract_event list \<Rightarrow> OnChainAlert list" where
  "error_spike nf cfg errors =
     (if length errors \<ge> errorSpikeThreshold cfg
      then let severity = (if length errors \<ge> errorSpikeThreshold cfg * 3 then Critical_alert else Warning_alert)
           in [\<lparr>oa_type = ''ERROR_SPIKE'', oa_severity = severity,
                oa_message = count_message nf cfg (length errors) '' contract error events'',
                oa_circuitBreakerAction =
                  (if severity = Critical_alert
                   then Some ''Halt new group creation and contributions via feature flag until root cause is identified.'' else None),
                oa_metadata = JObj [(''count'', JNum (int (length errors)))], oa_runbook = runbook_url ''on-chain-error-spike.md''\<rparr>]
      else [])"

definition repeated_reverts :: "number_format \<Rightarrow> OnChainMonitorConfig \<Rightarrow> contract_event list \<Rightarrow> OnChainAlert list" where
  "repeated_reverts nf cfg reverts =
     (if length reverts \<ge> revertThreshold cfg
      then [\<lparr>oa_type = ''REPEATED_REVERT'', oa_severity = Warning_alert,
             oa_message = count_message nf cfg (length reverts) '' transaction reverts'', oa_circuitBreakerAction = None,
             oa_metadata = JObj [(''count'', JNum (int (length reverts)))], oa_runbook = runbook_url ''on-chain-reverts.md''\<rparr>]
      else [])"

definition admin_alert :: "contract_event \<Rightarrow> OnChainAlert" where
  "admin_alert a =
     \<lparr>oa_type = ''ADMIN_ACTION'', oa_severity = Warning_alert,
      oa_message = ''Admin action detected: '' @ cv_eventType a @ '' (tx: '' @ cv_txHash a @ '')'', oa_circuitBreakerAction = None,
      oa_metadata = JObj [(''eventType'', JStr (cv_eventType a)), (''txHash'', JStr (cv_txHash a)), (''ledgerSeq'', JNum (cv_ledgerSeq a))],
      oa_runbook = runbook_url ''on-chain-admin-action.md''\<rparr>"

definition window_events :: "OnChainMonitorConfig \<Rightarrow> int \<Rightarrow> contract_event list \<Rightarrow> contract_event list" where
  "window_events cfg now table =
     take 500 (sort_key (\<lambda>e. - cv_timestamp e) (filter (\<lambda>e. cv_timestamp e \<ge> now - mc_rollingWindowMs cfg) table))"

definition check_alerts :: "number_format \<Rightarrow> OnChainMonitorConfig \<Rightarrow> contract_event list \<Rightarrow> thrown + OnChainAlert list" where
  "check_alerts nf cfg events =
     (let payouts = filter (isPayout \<circ> cv_eventType) events; errors = filter (isError \<circ> cv_eventType) events;
          reverts = filter (isRevert \<circ> cv_eventType) events; adminActions = filter (isAdmin_event \<circ> cv_eventType) events
      in case large_payouts nf cfg payouts of
           Inl e \<Rightarrow> Inl e
         | Inr large \<Rightarrow>
             Inr (large @ payout_spike nf cfg payouts @ error_spike nf cfg errors @ repeated_reverts nf cfg reverts @
                  map admin_alert adminActions))"

text \<open>Alerts are counted and handed to the sink in turn; a sink that throws leaves the rest unsent. The result also
  has the alerts that were handed over.\<close>

fun fire_sinks :: "(OnChainAlert \<Rightarrow> thrown option) \<Rightarrow> OnChainAlert list \<Rightarrow> OnChainAlert list \<times> thrown option" where
  "fire_sinks alertSink [] = ([], None)"
| "fire_sinks alertSink (a # as) =
     (case alertSink a of
        Some e \<Rightarrow> ([a], Some e)
      | None \<Rightarrow> (let (sent, e) = fire_sinks alertSink as in (a # sent, e)))"

definition monitor_check ::
  "number_format \<Rightarrow> OnChainMonitorConfig \<Rightarrow> (OnChainAlert \<Rightarrow> thrown option) \<Rightarrow> int \<Rightarrow> contract_event list \<Rightarrow> OnChainAlert list \<times> (thrown + OnChainAlert list)" where
  "monitor_check nf cfg alertSink now table =
     (case check_alerts nf cfg (window_events cfg now table) of
        Inl e \<Rightarrow> ([], Inl e)
      | Inr alerts \<Rightarrow>
          (case fire_sinks alertSink alerts of
             (sent, Some e) \<Rightarrow> (sent, Inl e)
           | (sent, None) \<Rightarrow> (sent, Inr alerts)))"

section \<open>The polling loop\<close>

text \<open>Timers are numbered in the order they are set; \<open>om_inflight\<close> counts the checks that have begun and not ended.\<close>

record monitor =
  om_running :: bool
  om_timer :: "nat option"
  om_pending :: "nat list"
  om_inflight :: nat
  om_next :: nat

definition monitor_new :: monitor where
  "monitor_new = \<lparr>om_running = False, om_timer = None, om_pending = [], om_inflight = 0, om_next = 0\<rparr>"

definition tick_begin :: "monitor \<Rightarrow> monitor" where
  "tick_begin m = (if om_running m then m\<lparr>om_inflight := om_inflight m + 1\<rparr> else m)"

definition tick_end :: "monitor \<Rightarrow> monitor" where
  "tick_end m =
     m\<lparr>om_inflight := om_inflight m - 1, om_timer := Some (om_next m), om_pending := om_pending m @ [om_next m], om_next := om_next m + 1\<rparr>"

definition monitor_start :: "monitor \<Rightarrow> monitor" where
  "monitor_start m = (if om_running m then m else tick_begin (m\<lparr>om_running := True\<rparr>))"

definition monitor_stop :: "monitor \<Rightarrow> monitor" where
  "monitor_stop m =
     m\<lparr>om_running := False, om_pending := (case om_timer m of Some t \<Rightarrow> removeAll t (om_pending m) | None \<Rightarrow> om_pending m)\<rparr>"

definition timer_fires :: "nat \<Rightarrow> monitor \<Rightarrow> monitor" where
  "timer_fires t m = tick_begin (m\<lparr>om_pending := removeAll t (om_pending m)\<rparr>)"

inductive monitor_step :: "monitor \<Rightarrow> monitor \<Rightarrow> bool" where
  m_start: "monitor_step m (monitor_start m)"
| m_stop: "monitor_step m (monitor_stop m)"
| m_done: "om_inflight m > 0 \<Longrightarrow> monitor_step m (tick_end m)"
| m_timer: "t \<in> set (om_pending m) \<Longrightarrow> monitor_step m (timer_fires t m)"

inductive_simps monitor_step_simps: "monitor_step m m'"

definition loops :: "monitor \<Rightarrow> nat" where
  "loops m = om_inflight m + length (om_pending m)"

section \<open>What a check reports\<close>

lemma large_payouts_error:
  "(\<exists>e. large_payouts nf cfg ps = Inl e) \<longleftrightarrow> (\<exists>p\<in>set ps. \<exists>e. payout_amount nf p = Inl e)"
  by (induction ps) (auto split: sum.splits)

text \<open>When all amounts parse, the payouts reported as large are exactly those at or above the threshold, each once and in
  the order of the events.\<close>

theorem large_payouts_exact:
  assumes "\<forall>p\<in>set ps. payout_amount nf p = Inr (amount p)"
  shows "large_payouts nf cfg ps =
    Inr (map (\<lambda>p. large_payout_alert nf p (amount p)) (filter (\<lambda>p. amount p \<ge> largePayoutThresholdStroops cfg) ps))"
  using assms by (induction ps) auto

text \<open>One payout among the newest 500 events of the window whose amount is not an integer silences the check: nothing is
  sent, neither for other payouts nor for administrative actions.\<close>

theorem bad_amount_silences_monitor:
  assumes "p \<in> set (window_events cfg now table)" "isPayout (cv_eventType p)" "payout_amount nf p = Inl e"
  shows "\<exists>e. monitor_check nf cfg alertSink now table = ([], Inl e)"
proof -
  have "\<exists>e. large_payouts nf cfg (filter (isPayout \<circ> cv_eventType) (window_events cfg now table)) = Inl e"
    unfolding large_payouts_error using assms by auto
  then show ?thesis by (auto simp: monitor_check_def check_alerts_def)
qed

lemma window_events_small:
  assumes "length (filter (\<lambda>e. cv_timestamp e \<ge> now - mc_rollingWindowMs cfg) table) \<le> 500"
  shows "set (window_events cfg now table) = {e \<in> set table. cv_timestamp e \<ge> now - mc_rollingWindowMs cfg}"
  using assms by (simp add: window_events_def)

lemma fire_sinks_all: "\<forall>a. alertSink a = None \<Longrightarrow> fire_sinks alertSink as = (as, None)"
  by (induction as) auto

text \<open>While the window holds at most 500 events, all amounts parse and the sink works, an administrative action is reported
  by every check in the five minutes after it, hence several times, for nothing remembers what was reported.\<close>

theorem admin_action_reported:
  assumes "a \<in> set table" "isAdmin_event (cv_eventType a)" "now \<le> cv_timestamp a + mc_rollingWindowMs cfg"
    and "length (filter (\<lambda>e. cv_timestamp e \<ge> now - mc_rollingWindowMs cfg) table) \<le> 500"
    and "\<forall>p\<in>set table. isPayout (cv_eventType p) \<longrightarrow> (\<exists>n. payout_amount nf p = Inr n)" and "\<forall>x. alertSink x = None"
  shows "admin_alert a \<in> set (fst (monitor_check nf cfg alertSink now table))"
proof -
  let ?ev = "window_events cfg now table"
  have s: "set ?ev = {e \<in> set table. cv_timestamp e \<ge> now - mc_rollingWindowMs cfg}" by (rule window_events_small [OF assms(4)])
  have "\<not> (\<exists>p\<in>set (filter (isPayout \<circ> cv_eventType) ?ev). \<exists>e. payout_amount nf p = Inl e)"
    using assms(5) s by (fastforce simp: o_def)
  then have "\<not> (\<exists>e. large_payouts nf cfg (filter (isPayout \<circ> cv_eventType) ?ev) = Inl e)" by (simp only: large_payouts_error not_False_eq_True)
  then obtain large where "large_payouts nf cfg (filter (isPayout \<circ> cv_eventType) ?ev) = Inr large"
    by (cases "large_payouts nf cfg (filter (isPayout \<circ> cv_eventType) ?ev)") auto
  moreover have "a \<in> set (filter (isAdmin_event \<circ> cv_eventType) ?ev)" using s assms(1,2,3) by auto
  ultimately show ?thesis using assms(6) by (simp add: monitor_check_def check_alerts_def fire_sinks_all)
qed

lemma sorted_take_before:
  assumes "sorted (map f xs)" "e \<in> set (take n xs)" "x \<in> set xs" "f x < (f e :: int)"
  shows "x \<in> set (take n xs)"
proof (rule ccontr)
  assume "x \<notin> set (take n xs)"
  then have "x \<in> set (drop n xs)" using assms(3) by (metis Un_iff append_take_drop_id set_append)
  moreover have "sorted (map f (take n xs) @ map f (drop n xs))" using assms(1) by (metis append_take_drop_id map_append)
  ultimately have "f e \<le> f x" using assms(2) unfolding sorted_append by auto
  then show False using assms(4) by simp
qed

text \<open>An event followed by 500 younger ones within the window is not looked at, whatever it is.\<close>

theorem flood_hides_event:
  assumes "distinct table" "length (filter (\<lambda>x. cv_timestamp x > cv_timestamp e) table) \<ge> 500"
  shows "e \<notin> set (window_events cfg now table)"
proof
  let ?w = "filter (\<lambda>x. cv_timestamp x \<ge> now - mc_rollingWindowMs cfg) table"
  let ?s = "sort_key (\<lambda>x. - cv_timestamp x) ?w"
  assume e: "e \<in> set (window_events cfg now table)"
  then have w: "cv_timestamp e \<ge> now - mc_rollingWindowMs cfg" by (auto simp: window_events_def dest: in_set_takeD)
  let ?young = "filter (\<lambda>x. cv_timestamp x > cv_timestamp e) table"
  have "insert e (set ?young) \<subseteq> set (take 500 ?s)"
    using e w sorted_take_before [of "\<lambda>x. - cv_timestamp x" ?s e 500] by (auto simp: window_events_def sorted_sort_key)
  then have "card (insert e (set ?young)) \<le> card (set (take 500 ?s))" by (intro card_mono) simp_all
  also have "\<dots> \<le> 500" using card_length [of "take 500 ?s"] by simp
  finally have "card (set ?young) \<le> 499" by (simp add: card_insert_disjoint)
  moreover have "card (set ?young) = length ?young" using assms(1) by (intro distinct_card distinct_filter)
  ultimately show False using assms(2) by simp
qed

section \<open>How often it runs\<close>

text \<open>A stop at rest is one while no check waits for the database.\<close>

inductive calm_step :: "monitor \<Rightarrow> monitor \<Rightarrow> bool" where
  c_start: "calm_step m (monitor_start m)"
| c_stop: "om_inflight m = 0 \<Longrightarrow> calm_step m (monitor_stop m)"
| c_done: "om_inflight m > 0 \<Longrightarrow> calm_step m (tick_end m)"
| c_timer: "t \<in> set (om_pending m) \<Longrightarrow> calm_step m (timer_fires t m)"

definition one_loop :: "monitor \<Rightarrow> bool" where
  "one_loop m \<longleftrightarrow> loops m = (if om_running m then 1 else 0) \<and> (\<forall>t\<in>set (om_pending m). om_timer m = Some t)"

lemma one_loop_step: "calm_step m m' \<Longrightarrow> one_loop m \<Longrightarrow> one_loop m'"
proof (induction rule: calm_step.induct)
  case (c_stop m)
  then show ?case by (cases "om_pending m") (auto simp: one_loop_def loops_def monitor_stop_def split: option.split if_splits)
next
  case (c_timer t m)
  then show ?case by (cases "om_pending m") (auto simp: one_loop_def loops_def timer_fires_def tick_begin_def split: if_splits)
next
  case (c_done m)
  then have "om_pending m = []" by (cases "om_pending m") (auto simp: one_loop_def loops_def split: if_splits)
  then show ?case using c_done by (auto simp: one_loop_def loops_def tick_end_def split: if_splits)
qed (auto simp: one_loop_def loops_def monitor_start_def tick_begin_def split: if_splits)

lemma one_loop_new: "one_loop monitor_new"
  by (simp add: one_loop_def loops_def monitor_new_def)

text \<open>As long as the monitor is stopped only between checks, a running monitor has exactly one check in flight or timer
  set, and a stopped one has none, so it never checks again before it is started.\<close>

theorem monitor_one_loop:
  assumes "calm_step\<^sup>*\<^sup>* monitor_new m"
  shows "om_inflight m + length (om_pending m) = (if om_running m then 1 else 0)"
proof -
  have "one_loop m" using assms
    by (induction rule: rtranclp_induct) (auto intro: one_loop_step one_loop_new)
  then show ?thesis by (simp add: one_loop_def loops_def)
qed

text \<open>A stop and a start while a check is in flight leave two loops running side by side, of which a later stop clears
  only one timer.\<close>

theorem restart_doubles_loop:
  "\<exists>m. monitor_step\<^sup>*\<^sup>* monitor_new m \<and> om_running m \<and> length (om_pending m) = 2 \<and> length (om_pending (monitor_stop m)) = 1"
proof -
  let ?m = "tick_end (tick_end (monitor_start (monitor_stop (monitor_start monitor_new))))"
  have "monitor_step\<^sup>*\<^sup>* monitor_new ?m"
    apply (rule rtranclp.rtrancl_into_rtrancl)
     prefer 2
     apply (rule m_done)
     apply (simp add: tick_end_def monitor_start_def tick_begin_def monitor_stop_def monitor_new_def)
    apply (rule rtranclp.rtrancl_into_rtrancl)
     prefer 2
     apply (rule m_done)
     apply (simp add: monitor_start_def tick_begin_def monitor_stop_def monitor_new_def)
    apply (rule rtranclp.rtrancl_into_rtrancl)
     prefer 2
     apply (rule m_start)
    apply (rule rtranclp.rtrancl_into_rtrancl)
     prefer 2
     apply (rule m_stop)
    apply (rule r_into_rtranclp)
    apply (rule m_start)
    done
  moreover have "om_running ?m \<and> length (om_pending ?m) = 2 \<and> length (om_pending (monitor_stop ?m)) = 1"
    by (simp add: tick_end_def monitor_start_def tick_begin_def monitor_stop_def monitor_new_def)
  ultimately show ?thesis by blast
qed

end
