(* ===== verification/Push.thy ===== *)
theory Push
  imports Errors Js_Values
begin

text \<open>
  Push notifications: the table of mobile devices (\<open>backend/src/device_token_service.ts\<close>), delivery to a user's devices
  (\<open>push_notification_service.ts\<close>), and browser subscriptions (\<open>web_push_service.ts\<close>). What a provider answers to a
  send is an argument: success, or an error with an optional status code. \<open>Promise.allSettled\<close> runs the sends of a batch
  side by side; they touch different rows, so the batch is a fold. The attempts are recorded in order.
\<close>

section \<open>Device tokens\<close>

record DeviceTokenRow =
  dt_userId :: string
  dt_token :: string
  dt_platform :: string
  dt_isValid :: bool
  dt_lastUsedAt :: "int option"
  dt_createdAt :: int

type_synonym device_tokens = "DeviceTokenRow list"

definition registerToken :: "string \<Rightarrow> string \<Rightarrow> string \<Rightarrow> int \<Rightarrow> device_tokens \<Rightarrow> device_tokens" where
  "registerToken userId token platform now db =
     (if \<exists>r\<in>set db. dt_token r = token
      then map (\<lambda>r. if dt_token r = token
                    then r\<lparr>dt_userId := userId, dt_platform := platform, dt_isValid := True, dt_lastUsedAt := Some now\<rparr> else r) db
      else db @ [\<lparr>dt_userId = userId, dt_token = token, dt_platform = platform, dt_isValid = True, dt_lastUsedAt = None, dt_createdAt = now\<rparr>])"

definition removeToken :: "string \<Rightarrow> device_tokens \<Rightarrow> device_tokens" where
  "removeToken token db = map (\<lambda>r. if dt_token r = token then r\<lparr>dt_isValid := False\<rparr> else r) db"

definition getTokensForUser :: "string \<Rightarrow> device_tokens \<Rightarrow> (string \<times> string) list" where
  "getTokensForUser userId db = map (\<lambda>r. (dt_token r, dt_platform r)) (filter (\<lambda>r. dt_userId r = userId \<and> dt_isValid r) db)"

definition markTokenInvalid :: "string \<Rightarrow> device_tokens \<Rightarrow> device_tokens" where
  "markTokenInvalid token db = map (\<lambda>r. if dt_token r = token then r\<lparr>dt_isValid := False\<rparr> else r) db"

definition pruneExpiredTokens :: "int \<Rightarrow> device_tokens \<Rightarrow> device_tokens" where
  "pruneExpiredTokens now db =
     (let cutoff = now - 365 * 24 * 60 * 60 * 1000 in filter (\<lambda>r. \<not> (\<not> dt_isValid r \<or> dt_createdAt r < cutoff)) db)"

section \<open>Mobile push\<close>

text \<open>What a provider answers: a message id, or an error with its status code if it has one.\<close>

type_synonym provider = "string \<Rightarrow> string \<Rightarrow> string \<Rightarrow> nat option + string"

record push_service =
  ps_providers :: "string \<rightharpoonup> provider"
  ps_defaultProvider :: string

text \<open>The configuration as far as \<open>setupProviders\<close> reads it; the service account of Firebase has to be JSON, which is a
  flag here.\<close>

record push_config =
  pc_firebase :: "(string \<times> string) option"
  pc_firebase_json :: bool
  pc_onesignal :: "(string \<times> string) option"
  pc_apns :: "(string \<times> string \<times> string \<times> string) option"

definition setupProviders :: "provider \<Rightarrow> provider \<Rightarrow> provider \<Rightarrow> push_config \<Rightarrow> (string \<rightharpoonup> provider)" where
  "setupProviders firebase oneSignal apns cfg =
     (let m1 = (case pc_firebase cfg of
                  Some (p, s) \<Rightarrow> if p \<noteq> [] \<and> s \<noteq> [] \<and> pc_firebase_json cfg then Map.empty(''firebase'' \<mapsto> firebase) else Map.empty
                | None \<Rightarrow> Map.empty);
          m2 = (case pc_onesignal cfg of
                  Some (a, k) \<Rightarrow> if a \<noteq> [] \<and> k \<noteq> [] then m1(''onesignal'' \<mapsto> oneSignal) else m1 | None \<Rightarrow> m1)
      in case pc_apns cfg of
           Some (i, t, k, b) \<Rightarrow> if i \<noteq> [] \<and> t \<noteq> [] \<and> k \<noteq> [] \<and> b \<noteq> [] then m2(''apns'' \<mapsto> apns) else m2
         | None \<Rightarrow> m2)"

definition push_send :: "push_service \<Rightarrow> string \<Rightarrow> string \<Rightarrow> string \<Rightarrow> nat option + string" where
  "push_send svc deviceToken title body =
     (case ps_providers svc (ps_defaultProvider svc) of None \<Rightarrow> Inr ''no-provider'' | Some provider \<Rightarrow> provider deviceToken title body)"

definition sendVia :: "push_service \<Rightarrow> string \<Rightarrow> string \<Rightarrow> string \<Rightarrow> string \<Rightarrow> thrown + (nat option + string)" where
  "sendVia svc providerName deviceToken title body =
     (case ps_providers svc providerName of
        None \<Rightarrow> Inl (PlainError (''Provider '' @ [char_of (39::nat)] @ providerName @ [char_of (39::nat)] @ '' not configured''))
      | Some provider \<Rightarrow> Inr (provider deviceToken title body))"

definition isProviderAvailable :: "push_service \<Rightarrow> string \<Rightarrow> bool" where
  "isProviderAvailable svc name \<longleftrightarrow> ps_providers svc name \<noteq> None"

definition platform_provider :: "string \<Rightarrow> string" where
  "platform_provider platform = (if platform = ''ios'' then ''apns'' else ''firebase'')"

definition gone :: "nat option + 'a \<Rightarrow> bool" where
  "gone answer \<longleftrightarrow> answer = Inl (Some 410) \<or> answer = Inl (Some 404)"

text \<open>One device of the batch; the second component collects the tokens that were sent to.\<close>

definition send_device :: "push_service \<Rightarrow> string \<Rightarrow> string \<Rightarrow> string \<times> string \<Rightarrow> device_tokens \<times> string list \<Rightarrow> device_tokens \<times> string list" where
  "send_device svc title body tp st =
     (case ps_providers svc (platform_provider (snd tp)) of
        None \<Rightarrow> st
      | Some provider \<Rightarrow>
          ((if gone (provider (fst tp) title body) then markTokenInvalid (fst tp) (fst st) else fst st), snd st @ [fst tp]))"

definition sendToUserMobile :: "push_service \<Rightarrow> string \<Rightarrow> string \<Rightarrow> string \<Rightarrow> device_tokens \<Rightarrow> device_tokens \<times> string list" where
  "sendToUserMobile svc userId title body db = fold (send_device svc title body) (getTokensForUser userId db) (db, [])"

section \<open>Web push\<close>

record PushSubscriptionRow =
  sub_userId :: string
  sub_endpoint :: string
  sub_p256dh :: string
  sub_auth :: string

record web_push =
  wp_enabled :: bool
  wp_subs :: "PushSubscriptionRow list"
  wp_attempts :: "(string \<times> json) list"

definition web_push_init :: "string \<Rightarrow> string \<Rightarrow> PushSubscriptionRow list \<Rightarrow> web_push" where
  "web_push_init publicKey privateKey subs = \<lparr>wp_enabled = (publicKey \<noteq> [] \<and> privateKey \<noteq> []), wp_subs = subs, wp_attempts = []\<rparr>"

definition saveSubscription :: "PushSubscriptionRow \<Rightarrow> web_push \<Rightarrow> web_push" where
  "saveSubscription s w =
     w\<lparr>wp_subs := (if \<exists>r\<in>set (wp_subs w). sub_endpoint r = sub_endpoint s
                   then map (\<lambda>r. if sub_endpoint r = sub_endpoint s then s else r) (wp_subs w) else wp_subs w @ [s])\<rparr>"

definition deleteSubscription :: "string \<Rightarrow> web_push \<Rightarrow> web_push" where
  "deleteSubscription endpoint w = w\<lparr>wp_subs := filter (\<lambda>r. sub_endpoint r \<noteq> endpoint) (wp_subs w)\<rparr>"

definition deleteSubscriptionsForUser :: "string \<Rightarrow> web_push \<Rightarrow> web_push" where
  "deleteSubscriptionsForUser userId w = w\<lparr>wp_subs := filter (\<lambda>r. sub_userId r \<noteq> userId) (wp_subs w)\<rparr>"

definition sendToSubscription :: "(PushSubscriptionRow \<Rightarrow> json \<Rightarrow> nat option + unit) \<Rightarrow> json \<Rightarrow> PushSubscriptionRow \<Rightarrow> web_push \<Rightarrow> web_push" where
  "sendToSubscription webpush payload sub w =
     (let w1 = w\<lparr>wp_attempts := wp_attempts w @ [(sub_endpoint sub, payload)]\<rparr>
      in if gone (webpush sub payload) then deleteSubscription (sub_endpoint sub) w1 else w1)"

definition send_batch :: "(PushSubscriptionRow \<Rightarrow> json \<Rightarrow> nat option + unit) \<Rightarrow> json \<Rightarrow> PushSubscriptionRow list \<Rightarrow> web_push \<Rightarrow> web_push" where
  "send_batch webpush payload subs w = fold (sendToSubscription webpush payload) subs w"

definition sendToUser :: "(PushSubscriptionRow \<Rightarrow> json \<Rightarrow> nat option + unit) \<Rightarrow> string \<Rightarrow> json \<Rightarrow> web_push \<Rightarrow> web_push" where
  "sendToUser webpush userId payload w =
     (if \<not> wp_enabled w then w else send_batch webpush payload (filter (\<lambda>r. sub_userId r = userId) (wp_subs w)) w)"

definition sendToAll :: "(PushSubscriptionRow \<Rightarrow> json \<Rightarrow> nat option + unit) \<Rightarrow> json \<Rightarrow> web_push \<Rightarrow> web_push" where
  "sendToAll webpush payload w = (if \<not> wp_enabled w then w else send_batch webpush payload (wp_subs w) w)"

definition sendToMembers :: "(PushSubscriptionRow \<Rightarrow> json \<Rightarrow> nat option + unit) \<Rightarrow> string list \<Rightarrow> json \<Rightarrow> web_push \<Rightarrow> web_push" where
  "sendToMembers webpush memberAddresses payload w =
     (if \<not> wp_enabled w \<or> memberAddresses = [] then w
      else let subs = filter (\<lambda>r. sub_userId r \<in> set memberAddresses) (wp_subs w)
           in if subs = [] then sendToAll webpush payload w else send_batch webpush payload subs w)"

section \<open>Lemmas\<close>

definition tokens_unique :: "device_tokens \<Rightarrow> bool" where
  "tokens_unique db \<longleftrightarrow> distinct (map dt_token db)"

definition endpoints_unique :: "web_push \<Rightarrow> bool" where
  "endpoints_unique w \<longleftrightarrow> distinct (map sub_endpoint (wp_subs w))"

lemma map_token_update [simp]: "(\<And>r. dt_token (f r) = dt_token r) \<Longrightarrow> map (\<lambda>r. dt_token (if P r then f r else r)) db = map dt_token db"
  by (induction db) auto

lemma tokens_unique_ops:
  assumes "tokens_unique db"
  shows "tokens_unique (registerToken u t p now db)" "tokens_unique (removeToken t db)" "tokens_unique (markTokenInvalid t db)"
    "tokens_unique (pruneExpiredTokens now db)"
  using assms by (auto simp: tokens_unique_def registerToken_def removeToken_def markTokenInvalid_def pruneExpiredTokens_def o_def
      distinct_map_filter)

lemma send_batch_fields [simp]: "wp_enabled (send_batch webpush p subs w) = wp_enabled w"
  unfolding send_batch_def by (induction subs arbitrary: w) (simp_all add: sendToSubscription_def deleteSubscription_def Let_def)

lemma send_batch_result:
  "wp_attempts (send_batch webpush p subs w) = wp_attempts w @ map (\<lambda>s. (sub_endpoint s, p)) subs"
  "wp_subs (send_batch webpush p subs w) = filter (\<lambda>r. \<not> (\<exists>s\<in>set subs. gone (webpush s p) \<and> sub_endpoint s = sub_endpoint r)) (wp_subs w)"
proof -
  have "wp_attempts (send_batch webpush p subs w) = wp_attempts w @ map (\<lambda>s. (sub_endpoint s, p)) subs \<and>
    wp_subs (send_batch webpush p subs w) = filter (\<lambda>r. \<not> (\<exists>s\<in>set subs. gone (webpush s p) \<and> sub_endpoint s = sub_endpoint r)) (wp_subs w)"
    unfolding send_batch_def
  proof (induction subs arbitrary: w)
    case (Cons s subs)
    then show ?case by (auto simp: sendToSubscription_def deleteSubscription_def Let_def filter_filter intro!: filter_cong)
  qed simp
  then show "wp_attempts (send_batch webpush p subs w) = wp_attempts w @ map (\<lambda>s. (sub_endpoint s, p)) subs"
    "wp_subs (send_batch webpush p subs w) = filter (\<lambda>r. \<not> (\<exists>s\<in>set subs. gone (webpush s p) \<and> sub_endpoint s = sub_endpoint r)) (wp_subs w)"
    by blast+
qed

section \<open>Properties\<close>

text \<open>A message to a user is sent once to each of the user's subscriptions and to no other; afterwards exactly those of
  them are gone for which the push service answered that they do not exist any more.\<close>

theorem sendToUser_exact:
  assumes "endpoints_unique w" "wp_enabled w"
  shows "wp_attempts (sendToUser webpush u p w) = wp_attempts w @ map (\<lambda>r. (sub_endpoint r, p)) (filter (\<lambda>r. sub_userId r = u) (wp_subs w))"
    and "wp_subs (sendToUser webpush u p w) = filter (\<lambda>r. \<not> (sub_userId r = u \<and> gone (webpush r p))) (wp_subs w)"
proof -
  have inj: "\<And>r s. r \<in> set (wp_subs w) \<Longrightarrow> s \<in> set (wp_subs w) \<Longrightarrow> sub_endpoint r = sub_endpoint s \<Longrightarrow> r = s"
    using assms(1) by (auto simp: endpoints_unique_def distinct_map dest: inj_onD)
  show "wp_attempts (sendToUser webpush u p w) = wp_attempts w @ map (\<lambda>r. (sub_endpoint r, p)) (filter (\<lambda>r. sub_userId r = u) (wp_subs w))"
    using assms(2) by (simp add: sendToUser_def send_batch_result)
  show "wp_subs (sendToUser webpush u p w) = filter (\<lambda>r. \<not> (sub_userId r = u \<and> gone (webpush r p))) (wp_subs w)"
    using assms(2) by (auto simp: sendToUser_def send_batch_result intro!: filter_cong dest: inj)
qed

text \<open>A message meant for the members of a group is sent to every subscriber of the platform when none of the members
  has a subscription.\<close>

theorem member_message_broadcast:
  assumes "wp_enabled w" "members \<noteq> []" "\<forall>r\<in>set (wp_subs w). sub_userId r \<notin> set members"
  shows "wp_attempts (sendToMembers webpush members p w) = wp_attempts w @ map (\<lambda>r. (sub_endpoint r, p)) (wp_subs w)"
proof -
  have "filter (\<lambda>r. sub_userId r \<in> set members) (wp_subs w) = []" using assms(3) by (simp add: filter_empty_conv)
  then show ?thesis using assms(1,2) by (simp add: sendToMembers_def sendToAll_def send_batch_result)
qed

text \<open>When a member has a subscription, the message reaches subscriptions of members only.\<close>

theorem member_message_targeted:
  assumes "r \<in> set (wp_subs w)" "sub_userId r \<in> set members"
  shows "set (drop (length (wp_attempts w)) (wp_attempts (sendToMembers webpush members p w)))
    \<subseteq> {(sub_endpoint s, p) | s. s \<in> set (wp_subs w) \<and> sub_userId s \<in> set members}"
proof -
  have "filter (\<lambda>r. sub_userId r \<in> set members) (wp_subs w) \<noteq> []" using assms by (auto simp: filter_empty_conv)
  then show ?thesis by (auto simp: sendToMembers_def send_batch_result)
qed

text \<open>An endpoint belongs to the user who registered it last: saving it again moves it, and keeps endpoints unique.\<close>

theorem subscription_moves:
  assumes "endpoints_unique w"
  shows "endpoints_unique (saveSubscription s w)"
    and "{r \<in> set (wp_subs (saveSubscription s w)). sub_endpoint r = sub_endpoint s} = {s}"
proof -
  have "map sub_endpoint (map (\<lambda>r. if sub_endpoint r = sub_endpoint s then s else r) (wp_subs w)) = map sub_endpoint (wp_subs w)" by simp
  then show "endpoints_unique (saveSubscription s w)"
    using assms by (auto simp: endpoints_unique_def saveSubscription_def simp del: map_map)
  show "{r \<in> set (wp_subs (saveSubscription s w)). sub_endpoint r = sub_endpoint s} = {s}"
    by (auto simp: saveSubscription_def)
qed

text \<open>Clearing expired tokens deletes a valid token a year after it was first registered, however recently the device
  registered it again: registering does not renew the date that is looked at.\<close>

theorem prune_ignores_use:
  assumes "tokens_unique db" "r \<in> set db" "dt_token r = t" "dt_createdAt r < now - 365 * 24 * 60 * 60 * 1000"
  shows "t \<notin> dt_token ` set (pruneExpiredTokens now (registerToken u t p now db))"
proof -
  let ?f = "\<lambda>r. if dt_token r = t then r\<lparr>dt_userId := u, dt_platform := p, dt_isValid := True, dt_lastUsedAt := Some now\<rparr> else r"
  have same: "dt_createdAt x = dt_createdAt r" if "x \<in> set db" "dt_token x = t" for x
    using assms(1,2,3) that by (auto simp: tokens_unique_def distinct_map dest: inj_onD)
  have reg: "registerToken u t p now db = map ?f db" using assms(2,3) unfolding registerToken_def by auto
  have "dt_createdAt x < now - 365 * 24 * 60 * 60 * 1000" if x: "x \<in> set (registerToken u t p now db)" "dt_token x = t" for x
  proof -
    obtain y where y: "y \<in> set db" "x = ?f y" using x(1) reg by auto
    then have "dt_token y = t" "dt_createdAt x = dt_createdAt y" using x(2) by (auto split: if_splits)
    then show ?thesis using same [OF y(1)] assms(4) by simp
  qed
  then show ?thesis by (auto simp: pruneExpiredTokens_def Let_def)
qed

lemma send_device_fold:
  "snd (fold (send_device svc title body) tps (db, sent)) =
     sent @ map fst (filter (\<lambda>tp. ps_providers svc (platform_provider (snd tp)) \<noteq> None) tps)"
  "fst (fold (send_device svc title body) tps (db, sent)) =
     map (\<lambda>r. if \<exists>tp\<in>set tps. fst tp = dt_token r \<and> (\<exists>pr. ps_providers svc (platform_provider (snd tp)) = Some pr \<and> gone (pr (fst tp) title body))
              then r\<lparr>dt_isValid := False\<rparr> else r) db"
proof (induction tps arbitrary: db sent)
  case (Cons tp tps)
  {
    case 1
    show ?case using Cons.IH(1) by (auto simp: send_device_def split: option.split)
  next
    case 2
    show ?case using Cons.IH(2) by (auto simp: send_device_def markTokenInvalid_def split: option.split)
  }
qed simp_all

text \<open>A message to a user's devices is sent once to every valid token of the user whose platform has a provider, and
  exactly the tokens rejected with 404 or 410 become invalid, so the next message passes them over.\<close>

theorem mobile_delivery_exact:
  assumes "tokens_unique db"
  shows "snd (sendToUserMobile svc u title body db) =
      map dt_token (filter (\<lambda>r. dt_userId r = u \<and> dt_isValid r \<and> isProviderAvailable svc (platform_provider (dt_platform r))) db)"
    and "fst (sendToUserMobile svc u title body db) =
      map (\<lambda>r. if dt_userId r = u \<and> dt_isValid r \<and>
                  (\<exists>pr. ps_providers svc (platform_provider (dt_platform r)) = Some pr \<and> gone (pr (dt_token r) title body))
               then r\<lparr>dt_isValid := False\<rparr> else r) db"
proof -
  have inj: "\<And>r s. r \<in> set db \<Longrightarrow> s \<in> set db \<Longrightarrow> dt_token r = dt_token s \<Longrightarrow> r = s"
    using assms by (auto simp: tokens_unique_def distinct_map dest: inj_onD)
  show "snd (sendToUserMobile svc u title body db) =
      map dt_token (filter (\<lambda>r. dt_userId r = u \<and> dt_isValid r \<and> isProviderAvailable svc (platform_provider (dt_platform r))) db)"
    by (simp add: sendToUserMobile_def send_device_fold getTokensForUser_def isProviderAvailable_def filter_map o_def filter_filter conj_commute
        cong: conj_cong) (rule arg_cong [where f = "map dt_token"], rule filter_cong, auto)
  show "fst (sendToUserMobile svc u title body db) =
      map (\<lambda>r. if dt_userId r = u \<and> dt_isValid r \<and>
                  (\<exists>pr. ps_providers svc (platform_provider (dt_platform r)) = Some pr \<and> gone (pr (dt_token r) title body))
               then r\<lparr>dt_isValid := False\<rparr> else r) db"
    unfolding sendToUserMobile_def send_device_fold
    by (rule map_cong [OF refl]) (auto simp: getTokensForUser_def dest: inj)
qed

end
