(* ===== verification/Reminder_Delivery.thy ===== *)
theory Reminder_Delivery
  imports Reminders Preferences Errors "HOL-Library.Sublist"
begin

text \<open>
  Delivery of contribution reminders, \<open>backend/src/services/notifications.ts\<close>: rendering of a template, one reminder with its
  record in the table of notifications, the queue filled from the schedule of \<open>Reminders\<close>, and the worker over due jobs.
  Preferences are those of \<open>Preferences\<close>. The texts of the templates, the printing of dates, the mail provider and the
  database are arguments, each query with its own way to fail; an invalid date is
  \<open>None\<close>. The data of a job are an object with a group id, as the scheduler writes them.
\<close>

section \<open>Templates\<close>

text \<open>The replacement text of \<open>String.prototype.replace\<close>: a dollar sign with a further one, an ampersand, a back quote or a
  quote stands for itself, the match, what precedes the match and what follows it.\<close>

fun expand_dollar :: "string \<Rightarrow> string \<Rightarrow> string \<Rightarrow> string \<Rightarrow> string" where
  "expand_dollar before matched after (d # c # cs) =
     (if d = CHR ''$'' then
        if c = CHR ''$'' then CHR ''$'' # expand_dollar before matched after cs
        else if c = CHR ''&'' then matched @ expand_dollar before matched after cs
        else if (of_char c :: nat) = 96 then before @ expand_dollar before matched after cs
        else if (of_char c :: nat) = 39 then after @ expand_dollar before matched after cs
        else d # expand_dollar before matched after (c # cs)
      else d # expand_dollar before matched after (c # cs))"
| "expand_dollar before matched after s = s"

text \<open>All matches of a fixed text, from left to right; the pattern is never empty here.\<close>

function replace_scan :: "string \<Rightarrow> string \<Rightarrow> string \<Rightarrow> string \<Rightarrow> string" where
  "replace_scan pat val before s =
     (case s of
        [] \<Rightarrow> []
      | c # cs \<Rightarrow>
          if pat \<noteq> [] \<and> prefix pat s
          then let rest = drop (length pat) s
               in expand_dollar before pat rest val @ replace_scan pat val (before @ pat) rest
          else c # replace_scan pat val (before @ [c]) cs)"
  by pat_completeness auto
termination
  by (relation "measure (\<lambda>(pat, val, before, s). length s)") auto

declare replace_scan.simps [simp del]

definition placeholder :: "string \<Rightarrow> string" where
  "placeholder key = ''{{'' @ key @ ''}}''"

definition renderTemplate :: "string \<Rightarrow> (string \<times> string) list \<Rightarrow> string" where
  "renderTemplate template vars = fold (\<lambda>(key, v) out. replace_scan (placeholder key) v [] out) vars template"

section \<open>One reminder\<close>

record Member =
  mb_userId :: string
  mb_email :: string
  mb_name :: string

datatype reminder_status = Reminder_sent | Reminder_skipped | Reminder_failed

record ReminderResult =
  rr_memberId :: string
  rr_email :: string
  rr_status :: reminder_status
  rr_messageId :: "string option"
  rr_reason :: "string option"

record notification_row =
  nr_userId :: string
  nr_templateId :: string
  nr_recipient :: string
  nr_subject :: string
  nr_content :: string
  nr_status :: string
  nr_externalId :: "string option"
  nr_failureReason :: "string option"

record queue_row =
  q_id :: nat
  q_userId :: string
  q_templateKey :: string
  q_recipient :: string
  q_data :: json
  q_notificationType :: string
  q_priority :: int
  q_scheduledFor :: int
  q_status :: string
  q_processedAt :: "int option"

record deliveries =
  dl_mails :: "(string \<times> string \<times> string \<times> string) list"
  dl_rows :: "notification_row list"
  dl_queue :: "queue_row list"

record reminder_env =
  re_apiKey :: string
  re_appUrl :: string
  re_templates :: "string \<Rightarrow> (string \<times> string \<times> string) option"
  re_dash :: string
  re_fmt :: "rat \<Rightarrow> string"
  re_formatDeadline :: "int option \<Rightarrow> string"
  re_prefs :: "string \<Rightarrow> thrown + NotificationPreferenceRow option"
  re_group :: "string \<Rightarrow> thrown + json option"
  re_mail :: "string \<Rightarrow> string \<Rightarrow> thrown + string"
  re_record :: "string \<Rightarrow> thrown option"

fun error_reason :: "thrown \<Rightarrow> string" where
  "error_reason (ThrownValue v) = v"
| "error_reason e = err_message e"

definition string_or :: "(rat \<Rightarrow> string) \<Rightarrow> json option \<Rightarrow> string \<Rightarrow> string" where
  "string_or fmt v d = (case v of None \<Rightarrow> d | Some JNull \<Rightarrow> d | Some w \<Rightarrow> js_String fmt w)"

definition reminder_vars :: "reminder_env \<Rightarrow> Member \<Rightarrow> string \<Rightarrow> int option \<Rightarrow> NotificationPreferenceRow option \<Rightarrow> json \<Rightarrow> (string \<times> string) list" where
  "reminder_vars env member groupId deadline prefs groupData =
     [(''memberName'', mb_name member),
      (''groupName'', string_or (re_fmt env) (json_field groupData ''name'') (''Group '' @ take 8 groupId)),
      (''groupId'', groupId),
      (''amount'', string_or (re_fmt env) (json_field groupData ''contribution_amount'') (re_dash env)),
      (''deadline'', re_formatDeadline env deadline),
      (''cycleNumber'', string_or (re_fmt env) (json_field groupData ''current_cycle'') (re_dash env)),
      (''appUrl'', re_appUrl env),
      (''unsubscribeUrl'', (case prefs of Some p \<Rightarrow> re_appUrl env @ ''/notifications/unsubscribe/'' @ unsubscribeToken p
                                       | None \<Rightarrow> re_appUrl env @ ''/notifications/unsubscribe''))]"

definition opted_out_row :: "NotificationPreferenceRow option \<Rightarrow> bool" where
  "opted_out_row prefs = (case prefs of Some p \<Rightarrow> \<not> emailNotifications p \<or> \<not> contributionReminders p | None \<Rightarrow> False)"

definition skipped_result :: "Member \<Rightarrow> string \<Rightarrow> ReminderResult" where
  "skipped_result m reason =
     \<lparr>rr_memberId = mb_userId m, rr_email = mb_email m, rr_status = Reminder_skipped, rr_messageId = None, rr_reason = Some reason\<rparr>"

text \<open>The mail goes out, then the row is written: \<open>toISOString\<close> of an invalid deadline throws before the insertion.\<close>

definition send_mail :: "reminder_env \<Rightarrow> Member \<Rightarrow> int option \<Rightarrow> string \<Rightarrow> string \<times> string \<times> string \<Rightarrow> deliveries \<Rightarrow> deliveries \<times> (thrown + ReminderResult)" where
  "send_mail env m deadline window msg st =
     (case re_mail env (mb_email m) (fst msg) of
        Inl e \<Rightarrow> (st, Inl e)
      | Inr messageId \<Rightarrow>
          let st1 = st\<lparr>dl_mails := dl_mails st @ [(mb_email m, msg)]\<rparr>
          in if deadline = None then (st1, Inl (PlainError ''Invalid time value''))
             else case re_record env (mb_userId m) of
                    Some e \<Rightarrow> (st1, Inl e)
                  | None \<Rightarrow>
                      (st1\<lparr>dl_rows := dl_rows st1 @
                         [\<lparr>nr_userId = mb_userId m, nr_templateId = ''contribution_reminder_'' @ window, nr_recipient = mb_email m,
                           nr_subject = fst msg, nr_content = fst (snd msg), nr_status = ''sent'', nr_externalId = Some messageId,
                           nr_failureReason = None\<rparr>]\<rparr>,
                       Inr \<lparr>rr_memberId = mb_userId m, rr_email = mb_email m, rr_status = Reminder_sent,
                            rr_messageId = Some messageId, rr_reason = None\<rparr>))"

definition reminder_try :: "reminder_env \<Rightarrow> Member \<Rightarrow> string \<Rightarrow> int option \<Rightarrow> string \<Rightarrow> deliveries \<Rightarrow> deliveries \<times> (thrown + ReminderResult)" where
  "reminder_try env m groupId deadline window st =
     (case re_prefs env (mb_userId m) of
        Inl e \<Rightarrow> (st, Inl e)
      | Inr prefs \<Rightarrow>
          if opted_out_row prefs then (st, Inr (skipped_result m ''opted_out''))
          else case re_group env groupId of
                 Inl e \<Rightarrow> (st, Inl e)
               | Inr groupEvent \<Rightarrow>
                   (case re_templates env window of
                      None \<Rightarrow> (st, Inl (PlainError ''Cannot read properties of undefined''))
                    | Some (s, h, t) \<Rightarrow>
                        let vars = reminder_vars env m groupId deadline prefs (or_default groupEvent (JObj []));
                            msg = (renderTemplate s vars, renderTemplate h vars, renderTemplate t vars)
                        in if re_apiKey env = [] then (st, Inr (skipped_result m ''no_api_key''))
                           else send_mail env m deadline window msg st))"

definition sendContributionReminder ::
  "reminder_env \<Rightarrow> Member \<Rightarrow> string \<Rightarrow> int option \<Rightarrow> string \<Rightarrow> deliveries \<Rightarrow> deliveries \<times> (thrown + ReminderResult)" where
  "sendContributionReminder env m groupId deadline window st =
     (case reminder_try env m groupId deadline window st of
        (st1, Inr r) \<Rightarrow> (st1, Inr r)
      | (st1, Inl e) \<Rightarrow>
          if deadline = None then (st1, Inl (PlainError ''Invalid time value''))
          else
            let row = \<lparr>nr_userId = mb_userId m, nr_templateId = ''contribution_reminder_'' @ window, nr_recipient = mb_email m,
                       nr_subject = [], nr_content = [], nr_status = ''failed'', nr_externalId = None,
                       nr_failureReason = Some (error_reason e)\<rparr>
            in ((if re_record env (mb_userId m) = None then st1\<lparr>dl_rows := dl_rows st1 @ [row]\<rparr> else st1),
                Inr \<lparr>rr_memberId = mb_userId m, rr_email = mb_email m, rr_status = Reminder_failed, rr_messageId = None,
                     rr_reason = Some (error_reason e)\<rparr>))"

section \<open>Scheduling\<close>

text \<open>The row of the table as the scheduler reads it: of the fields of \<open>ReminderPreferences\<close> the table has two.\<close>

definition row_preferences :: "NotificationPreferenceRow \<Rightarrow> ReminderPreferences" where
  "row_preferences r =
     \<lparr>rp_emailNotifications = Some (emailNotifications r), rp_contributionReminders = Some (contributionReminders r), rp_muteAll = None,
      rp_quietHoursStart = None, rp_quietHoursEnd = None, rp_preferredTimeOfDay = None, rp_timezone = None, rp_leadHours = None\<rparr>"

definition queue_slot :: "Member \<Rightarrow> string \<Rightarrow> int \<Rightarrow> ScheduledSlot \<Rightarrow> queue_row list \<Rightarrow> queue_row list" where
  "queue_slot m groupId deadline slot q =
     (if sl_isMuted slot then q
      else q @ [\<lparr>q_id = length q, q_userId = mb_userId m, q_templateKey = ''contribution_reminder_'' @ sl_window slot, q_recipient = mb_email m,
                 q_data = JObj [(''memberName'', JStr (mb_name m)), (''memberEmail'', JStr (mb_email m)), (''groupId'', JStr groupId),
                                (''deadline'', JStr (toISOString deadline)), (''window'', JStr (sl_window slot))],
                 q_notificationType = ''email'', q_priority = (if sl_window slot = ''24h'' then 10 else 5),
                 q_scheduledFor = or_default (sl_scheduledTime slot) 0, q_status = ''pending'', q_processedAt = None\<rparr>])"

definition schedule_member :: "time_zones \<Rightarrow> preference_table \<Rightarrow> int \<Rightarrow> string \<Rightarrow> int \<Rightarrow> Member \<Rightarrow> queue_row list \<Rightarrow> queue_row list" where
  "schedule_member tz tab now groupId deadline m q =
     fold (queue_slot m groupId deadline)
       (calculateReminderSchedules tz (map_option row_preferences (findByUserId (mb_userId m) tab)) now deadline) q"

definition scheduleContributionReminders ::
  "time_zones \<Rightarrow> preference_table \<Rightarrow> int \<Rightarrow> Member list \<Rightarrow> string \<Rightarrow> int \<Rightarrow> queue_row list \<Rightarrow> queue_row list" where
  "scheduleContributionReminders tz tab now members groupId deadline q = fold (schedule_member tz tab now groupId deadline) members q"

section \<open>The worker\<close>

definition due_job :: "int \<Rightarrow> queue_row \<Rightarrow> bool" where
  "due_job now j \<longleftrightarrow> q_status j = ''pending'' \<and> q_notificationType j = ''email'' \<and> startsWith (q_templateKey j) ''contribution_reminder_'' \<and>
     q_scheduledFor j \<le> now"

text \<open>By priority, highest first, then by time.\<close>

definition due_jobs :: "int \<Rightarrow> nat \<Rightarrow> queue_row list \<Rightarrow> queue_row list" where
  "due_jobs now batchSize q = take batchSize (sort_key (\<lambda>j. - q_priority j) (sort_key q_scheduledFor (filter (due_job now) q)))"

definition update_job :: "nat \<Rightarrow> (queue_row \<Rightarrow> queue_row) \<Rightarrow> deliveries \<Rightarrow> deliveries" where
  "update_job i f st = st\<lparr>dl_queue := map (\<lambda>j. if q_id j = i then f j else j) (dl_queue st)\<rparr>"

definition job_member :: "(rat \<Rightarrow> string) \<Rightarrow> queue_row \<Rightarrow> Member" where
  "job_member fmt job =
     \<lparr>mb_userId = q_userId job, mb_email = q_recipient job, mb_name = string_or fmt (json_field (q_data job) ''memberName'') (q_recipient job)\<rparr>"

definition job_deadline :: "queue_row \<Rightarrow> int option" where
  "job_deadline job = (case json_field (q_data job) ''deadline'' of Some (JStr s) \<Rightarrow> date_parse s | Some (JNum n) \<Rightarrow> Some n | Some JNull \<Rightarrow> Some 0 | _ \<Rightarrow> None)"

definition job_field :: "(rat \<Rightarrow> string) \<Rightarrow> string \<Rightarrow> string \<Rightarrow> queue_row \<Rightarrow> string" where
  "job_field fmt k d job = string_or fmt (json_field (q_data job) k) d"

definition process_job :: "reminder_env \<Rightarrow> int \<Rightarrow> queue_row \<Rightarrow> deliveries \<Rightarrow> deliveries \<times> (thrown + bool)" where
  "process_job env now job st =
     (case sendContributionReminder env (job_member (re_fmt env) job) (job_field (re_fmt env) ''groupId'' ''undefined'' job)
             (job_deadline job) (job_field (re_fmt env) ''window'' ''24h'' job)
             (update_job (q_id job) (\<lambda>j. j\<lparr>q_status := ''processing''\<rparr>) st) of
        (st1, Inl e) \<Rightarrow> (st1, Inl e)
      | (st1, Inr r) \<Rightarrow>
          (update_job (q_id job)
             (\<lambda>j. j\<lparr>q_status := (if rr_status r = Reminder_sent then ''completed'' else ''failed''), q_processedAt := Some now\<rparr>) st1,
           Inr (rr_status r = Reminder_sent)))"

fun process_jobs :: "reminder_env \<Rightarrow> int \<Rightarrow> queue_row list \<Rightarrow> nat \<Rightarrow> deliveries \<Rightarrow> deliveries \<times> (thrown + nat)" where
  "process_jobs env now [] sent st = (st, Inr sent)"
| "process_jobs env now (job # jobs) sent st =
     (case process_job env now job st of
        (st1, Inl e) \<Rightarrow> (st1, Inl e)
      | (st1, Inr ok) \<Rightarrow> process_jobs env now jobs (if ok then sent + 1 else sent) st1)"

definition processDueReminders :: "reminder_env \<Rightarrow> int \<Rightarrow> nat \<Rightarrow> deliveries \<Rightarrow> deliveries \<times> (thrown + nat)" where
  "processDueReminders env now batchSize st = process_jobs env now (due_jobs now batchSize (dl_queue st)) 0 st"

section \<open>Lemmas\<close>

definition no_deliveries :: deliveries where
  "no_deliveries = \<lparr>dl_mails = [], dl_rows = [], dl_queue = []\<rparr>"

text \<open>The mails of a reminder, which do not depend on what was sent before.\<close>

definition reminder_mails :: "reminder_env \<Rightarrow> Member \<Rightarrow> string \<Rightarrow> int option \<Rightarrow> string \<Rightarrow> (string \<times> string \<times> string \<times> string) list" where
  "reminder_mails env m g d w = dl_mails (fst (reminder_try env m g d w no_deliveries))"

definition job_mails :: "reminder_env \<Rightarrow> queue_row \<Rightarrow> (string \<times> string \<times> string \<times> string) list" where
  "job_mails env job =
     reminder_mails env (job_member (re_fmt env) job) (job_field (re_fmt env) ''groupId'' ''undefined'' job) (job_deadline job)
       (job_field (re_fmt env) ''window'' ''24h'' job)"

lemma reminder_try_mails:
  "dl_mails (fst (reminder_try env m g d w st)) = dl_mails st @ reminder_mails env m g d w"
  "dl_queue (fst (reminder_try env m g d w st)) = dl_queue st"
  "snd (reminder_try env m g d w st) = snd (reminder_try env m g d w no_deliveries)"
  by (auto simp: reminder_mails_def reminder_try_def send_mail_def no_deliveries_def Let_def split: sum.split option.split prod.split)

lemma sendContributionReminder_mails:
  "dl_mails (fst (sendContributionReminder env m g d w st)) = dl_mails st @ reminder_mails env m g d w"
  "dl_queue (fst (sendContributionReminder env m g d w st)) = dl_queue st"
  using reminder_try_mails [of env m g d w st]
  by (auto simp: sendContributionReminder_def Let_def split: prod.split sum.split)

lemma sendContributionReminder_valid: "\<exists>r. snd (sendContributionReminder env m g (Some d) w st) = Inr r"
  by (auto simp: sendContributionReminder_def Let_def split: prod.split sum.split)

lemma update_job_mails [simp]: "dl_mails (update_job i f st) = dl_mails st"
  by (simp add: update_job_def)

lemma process_job_mails: "dl_mails (fst (process_job env now job st)) = dl_mails st @ job_mails env job"
  using sendContributionReminder_mails(1) [of env "job_member (re_fmt env) job" "job_field (re_fmt env) ''groupId'' ''undefined'' job"
      "job_deadline job" "job_field (re_fmt env) ''window'' ''24h'' job" "update_job (q_id job) (\<lambda>j. j\<lparr>q_status := ''processing''\<rparr>) st"]
  by (auto simp: process_job_def job_mails_def split: prod.split sum.split)

lemma process_job_returns: "job_deadline job = Some d \<Longrightarrow> \<exists>b. snd (process_job env now job st) = Inr b"
  using sendContributionReminder_valid [of env "job_member (re_fmt env) job" "job_field (re_fmt env) ''groupId'' ''undefined'' job" d
      "job_field (re_fmt env) ''window'' ''24h'' job" "update_job (q_id job) (\<lambda>j. j\<lparr>q_status := ''processing''\<rparr>) st"]
  by (auto simp: process_job_def split: prod.split sum.split)

lemma process_jobs_mails:
  assumes "\<forall>j\<in>set jobs. job_deadline j \<noteq> None"
  shows "dl_mails (fst (process_jobs env now jobs n st)) = dl_mails st @ concat (map (job_mails env) jobs) \<and>
    (\<exists>k. snd (process_jobs env now jobs n st) = Inr k)"
  using assms
proof (induction jobs arbitrary: n st)
  case (Cons j jobs)
  obtain b where "snd (process_job env now j st) = Inr b" using Cons.prems process_job_returns by fastforce
  then obtain st1 where "process_job env now j st = (st1, Inr b)" by (cases "process_job env now j st") auto
  then show ?case using Cons process_job_mails [of env now j st] by auto
qed simp

lemma reminder_mails_recipient: "x \<in> set (reminder_mails env m g d w) \<Longrightarrow> fst x = mb_email m"
  by (auto simp: reminder_mails_def reminder_try_def send_mail_def no_deliveries_def Let_def split: sum.splits option.splits prod.splits if_splits)

lemma reminder_mails_opted_out:
  "re_prefs env (mb_userId m) = Inr prefs \<Longrightarrow> opted_out_row prefs \<Longrightarrow> reminder_mails env m g d w = []"
  by (simp add: reminder_mails_def reminder_try_def no_deliveries_def)

section \<open>Properties of the worker\<close>

text \<open>The worker with a table of preferences, and the mail a job is due with that table: none if its user opted out, the API key is
  empty, the group cannot be read, the window has no template or the provider refuses, and else the rendered template.\<close>

definition with_table :: "preference_table \<Rightarrow> reminder_env \<Rightarrow> reminder_env" where
  "with_table tab env = env\<lparr>re_prefs := (\<lambda>u. Inr (findByUserId u tab))\<rparr>"


lemma with_table_simps [simp]:
  "re_prefs (with_table tab env) = (\<lambda>u. Inr (findByUserId u tab))" "re_group (with_table tab env) = re_group env"
  "re_templates (with_table tab env) = re_templates env" "re_fmt (with_table tab env) = re_fmt env" "re_apiKey (with_table tab env) = re_apiKey env"
  "re_mail (with_table tab env) = re_mail env" "re_record (with_table tab env) = re_record env"
  "reminder_vars (with_table tab env) = reminder_vars env"
  by (simp_all add: with_table_def reminder_vars_def fun_eq_iff split: option.split)




text \<open>Two workers that read the queue before either has marked a job mail every reminder of the batch twice: the update to
  \<open>processing\<close> does not look at the status it replaces.\<close>

theorem overlapping_workers_mail_twice:
  assumes "\<forall>j\<in>set (due_jobs now n (dl_queue st)). job_deadline j \<noteq> None"
  shows "dl_mails (fst (process_jobs env now' (due_jobs now n (dl_queue st)) 0 (fst (processDueReminders env now n st)))) =
    dl_mails st @ concat (map (job_mails env) (due_jobs now n (dl_queue st))) @ concat (map (job_mails env) (due_jobs now n (dl_queue st)))"
  using process_jobs_mails [OF assms] by (simp add: processDueReminders_def)

text \<open>A mail that was accepted is reported as failed, and recorded as failed or not at all, when the row for it cannot be
  written.\<close>

theorem mailed_but_failed:
  assumes "re_prefs env (mb_userId m) = Inr None" "re_group env g = Inr ev" "re_templates env w = Some tpl" "re_apiKey env \<noteq> []"
    and "\<forall>a s. \<exists>i. re_mail env a s = Inr i" and "re_record env (mb_userId m) = Some e"
  shows "length (dl_mails (fst (sendContributionReminder env m g (Some d) w st))) = length (dl_mails st) + 1"
    and "\<exists>r. snd (sendContributionReminder env m g (Some d) w st) = Inr r \<and> rr_status r = Reminder_failed"
proof -
  let ?vars = "reminder_vars env m g (Some d) None (or_default ev (JObj []))"
  obtain s h t where tpl: "tpl = (s, h, t)" by (cases tpl)
  obtain i where i: "re_mail env (mb_email m) (renderTemplate s ?vars) = Inr i" using assms(5) by blast
  have "reminder_try env m g (Some d) w st =
      (st\<lparr>dl_mails := dl_mails st @ [(mb_email m, renderTemplate s ?vars, renderTemplate h ?vars, renderTemplate t ?vars)]\<rparr>, Inl e)"
    using assms(1-4,6) i tpl by (simp add: reminder_try_def opted_out_row_def send_mail_def Let_def)
  then show "length (dl_mails (fst (sendContributionReminder env m g (Some d) w st))) = length (dl_mails st) + 1"
    "\<exists>r. snd (sendContributionReminder env m g (Some d) w st) = Inr r \<and> rr_status r = Reminder_failed"
    using assms(6) by (simp_all add: sendContributionReminder_def Let_def)
qed

text \<open>A job whose deadline is not a date stops the worker: it stays in \<open>processing\<close>, and the jobs after it are not
  reached.\<close>

theorem bad_deadline_stops_worker:
  assumes "job_deadline job = None" "re_prefs env (q_userId job) = Inl e"
  shows "\<exists>e. process_jobs env now (job # jobs) n st = (update_job (q_id job) (\<lambda>j. j\<lparr>q_status := ''processing''\<rparr>) st, Inl e)"
  using assms by (simp add: process_job_def sendContributionReminder_def reminder_try_def job_member_def)

lemma update_job_queue: "map q_id (dl_queue (update_job i f st)) = map q_id (dl_queue st)" if "\<And>j. q_id (f j) = q_id j"
  using that by (simp add: update_job_def)

lemma process_job_queue:
  assumes "job_deadline job = Some d"
  obtains b where "snd (process_job env now job st) = Inr b"
    and "dl_queue (fst (process_job env now job st)) =
      map (\<lambda>j. if q_id j = q_id job then j\<lparr>q_status := (if b then ''completed'' else ''failed''), q_processedAt := Some now\<rparr> else j) (dl_queue st)"
proof -
  let ?st = "update_job (q_id job) (\<lambda>j. j\<lparr>q_status := ''processing''\<rparr>) st"
  let ?m = "job_member (re_fmt env) job" and ?g = "job_field (re_fmt env) ''groupId'' ''undefined'' job"
    and ?w = "job_field (re_fmt env) ''window'' ''24h'' job"
  obtain r where r: "snd (sendContributionReminder env ?m ?g (Some d) ?w ?st) = Inr r" using sendContributionReminder_valid by blast
  have q: "dl_queue (fst (sendContributionReminder env ?m ?g (Some d) ?w ?st)) = dl_queue ?st" by (rule sendContributionReminder_mails)
  show thesis
  proof (rule that)
    show "snd (process_job env now job st) = Inr (rr_status r = Reminder_sent)"
      using r assms by (auto simp: process_job_def split: prod.split)
    show "dl_queue (fst (process_job env now job st)) =
      map (\<lambda>j. if q_id j = q_id job
                then j\<lparr>q_status := (if rr_status r = Reminder_sent then ''completed'' else ''failed''), q_processedAt := Some now\<rparr> else j) (dl_queue st)"
      using r q assms by (auto simp: process_job_def update_job_def split: prod.split)
  qed
qed

definition finished :: "queue_row \<Rightarrow> bool" where
  "finished j \<longleftrightarrow> q_status j = ''completed'' \<or> q_status j = ''failed''"

lemma process_jobs_finish:
  assumes "\<forall>j\<in>set jobs. job_deadline j \<noteq> None" and "distinct (map q_id (dl_queue st))"
  shows "\<forall>j\<in>set (dl_queue (fst (process_jobs env now jobs n st))).
    q_id j \<in> q_id ` set jobs \<and> finished j \<or> q_id j \<notin> q_id ` set jobs \<and> j \<in> set (dl_queue st)"
  using assms
proof (induction jobs arbitrary: n st)
  case (Cons job jobs)
  obtain d where "job_deadline job = Some d" using Cons.prems by auto
  then obtain b where b: "snd (process_job env now job st) = Inr b"
    and q: "dl_queue (fst (process_job env now job st)) =
      map (\<lambda>j. if q_id j = q_id job then j\<lparr>q_status := (if b then ''completed'' else ''failed''), q_processedAt := Some now\<rparr> else j) (dl_queue st)"
    using process_job_queue [of job d env now st] by blast
  let ?st = "fst (process_job env now job st)"
  have step: "process_jobs env now (job # jobs) n st = process_jobs env now jobs (if b then n + 1 else n) ?st"
    using b by (cases "process_job env now job st") auto
  have "map q_id (dl_queue ?st) = map q_id (dl_queue st)" unfolding q by simp
  then have "\<forall>j\<in>set (dl_queue (fst (process_jobs env now (job # jobs) n st))).
      q_id j \<in> q_id ` set jobs \<and> finished j \<or> q_id j \<notin> q_id ` set jobs \<and> j \<in> set (dl_queue ?st)"
    unfolding step using Cons.IH [of ?st "if b then n + 1 else n"] Cons.prems by simp
  moreover have "q_id j = q_id job \<and> finished j \<or> q_id j \<noteq> q_id job \<and> j \<in> set (dl_queue st)" if "j \<in> set (dl_queue ?st)" for j
    using that unfolding q finished_def by (auto split: if_splits)
  ultimately show ?case by auto
qed simp

text \<open>A run of the worker over jobs with valid deadlines ends, leaves each of them completed or failed, touches no other
  job, and so never tries one of them again, whatever the reason of the failure.\<close>

theorem worker_finishes_batch:
  assumes "distinct (map q_id (dl_queue st))" and "\<forall>j\<in>set (dl_queue st). job_deadline j \<noteq> None"
  shows "\<exists>k. snd (processDueReminders env now n st) = Inr k"
    and "\<forall>j\<in>set (dl_queue (fst (processDueReminders env now n st))).
      (if q_id j \<in> q_id ` set (due_jobs now n (dl_queue st)) then finished j else j \<in> set (dl_queue st))"
proof -
  have "\<forall>j\<in>set (due_jobs now n (dl_queue st)). job_deadline j \<noteq> None"
    using assms(2) by (auto simp: due_jobs_def dest!: in_set_takeD)
  note v = this
  show "\<exists>k. snd (processDueReminders env now n st) = Inr k" unfolding processDueReminders_def using process_jobs_mails [OF v] by blast
  show "\<forall>j\<in>set (dl_queue (fst (processDueReminders env now n st))).
      (if q_id j \<in> q_id ` set (due_jobs now n (dl_queue st)) then finished j else j \<in> set (dl_queue st))"
    unfolding processDueReminders_def using process_jobs_finish [OF v assms(1), of env now 0] by auto
qed

section \<open>Properties of the schedule\<close>

lemma row_slot:
  "schedule_slot tz (map_option row_preferences prefs) now deadline lh =
    (let t = deadline - lh * 60 * 60 * 1000;
         skip = (if opted_out_row prefs then Some opted_out else if t \<le> now then Some in_past else None)
     in \<lparr>sl_window = string_of_int lh @ ''h'', sl_leadHours = lh, sl_scheduledTime = Some t, sl_isMuted = (skip \<noteq> None), sl_skipReason = skip\<rparr>)"
  by (cases prefs) (auto simp: schedule_slot_def base_time_def isOptedOut_def in_quiet_hours_def row_preferences_def opted_out_row_def Let_def)

lemma row_leads: "or_default (Option.bind (map_option row_preferences prefs) rp_leadHours) [48, 24] = [48, 24]"
  by (cases prefs) (simp_all add: row_preferences_def)

text \<open>The reminders queued for a member are those due 48 and 24 hours before the deadline, as far as these are still to come,
  and none for a member who opted out. Time zones, quiet hours and preferred times play no part, since the table of
  preferences has no columns for them.\<close>

theorem member_schedule_exact:
  "map q_scheduledFor (schedule_member tz tab now g deadline m q) =
     map q_scheduledFor q @
     (if opted_out_row (findByUserId (mb_userId m) tab) then []
      else filter (\<lambda>t. now < t) [deadline - 48 * 60 * 60 * 1000, deadline - 24 * 60 * 60 * 1000])"
  by (auto simp: schedule_member_def calculateReminderSchedules_def row_leads row_slot queue_slot_def Let_def)

text \<open>Every job that scheduling adds is a pending mail job for one of the members, who has not opted out, and comes due after
  now and before the deadline.\<close>

theorem scheduled_jobs_sound:
  assumes "j \<in> set (scheduleContributionReminders tz tab now members g deadline q)" "j \<notin> set q"
  shows "\<exists>m\<in>set members. q_userId j = mb_userId m \<and> q_recipient j = mb_email m \<and> \<not> opted_out_row (findByUserId (mb_userId m) tab) \<and>
    q_status j = ''pending'' \<and> now < q_scheduledFor j \<and> q_scheduledFor j < deadline \<and> (\<forall>now'\<ge>q_scheduledFor j. due_job now' j)"
  using assms
proof (induction members arbitrary: q)
  case Nil
  then show ?case by (simp add: scheduleContributionReminders_def)
next
  case (Cons m members)
  let ?q = "schedule_member tz tab now g deadline m q"
  have j: "j \<in> set (scheduleContributionReminders tz tab now members g deadline ?q)"
    using Cons.prems(1) by (simp add: scheduleContributionReminders_def)
  show ?case
  proof (cases "j \<in> set ?q")
    case True
    then have "q_userId j = mb_userId m \<and> q_recipient j = mb_email m \<and> \<not> opted_out_row (findByUserId (mb_userId m) tab) \<and>
        q_status j = ''pending'' \<and> now < q_scheduledFor j \<and> q_scheduledFor j < deadline \<and> (\<forall>now'\<ge>q_scheduledFor j. due_job now' j)"
      using Cons.prems(2)
      by (auto simp: schedule_member_def calculateReminderSchedules_def row_leads row_slot queue_slot_def Let_def due_job_def startsWith_def
          split: if_splits)
    then show ?thesis by auto
  next
    case False
    then show ?thesis using Cons.IH [OF j] by auto
  qed
qed

section \<open>Properties of rendering\<close>

lemma replace_scan_absent: "\<not> sublist pat s \<Longrightarrow> replace_scan pat v before s = s"
proof (induction s arbitrary: before)
  case Nil
  then show ?case by (simp add: replace_scan.simps)
next
  case (Cons c cs)
  have "\<not> prefix pat (c # cs)" "\<not> sublist pat cs" using Cons.prems by (simp_all add: sublist_Cons_right)
  then show ?case using Cons.IH replace_scan.simps [of pat v before "c # cs"] by simp
qed

lemma expand_dollar_plain: "CHR ''$'' \<notin> set v \<Longrightarrow> expand_dollar before matched after v = v"
  by (induction before matched after v rule: expand_dollar.induct) auto

text \<open>A placeholder that occurs once is replaced by its value, if the value has no dollar sign, and the text around it is
  kept; markup in the value is not escaped, so a name with tags is markup in the mail.\<close>

theorem placeholder_replaced:
  assumes "CHR ''{'' \<notin> set a" "\<not> sublist (placeholder k) b" "CHR ''$'' \<notin> set v"
  shows "replace_scan (placeholder k) v before (a @ placeholder k @ b) = a @ v @ b"
  using assms(1)
proof (induction a arbitrary: before)
  case Nil
  obtain c cs where c: "placeholder k @ b = c # cs" by (cases "placeholder k @ b") (auto simp: placeholder_def)
  have "placeholder k \<noteq> []" by (simp add: placeholder_def)
  then have "replace_scan (placeholder k) v before (placeholder k @ b) = v @ replace_scan (placeholder k) v (before @ placeholder k) b"
    using assms(3) replace_scan.simps [of "placeholder k" v before "placeholder k @ b"] c
    by (simp add: expand_dollar_plain split: list.split) (metis append_eq_conv_conj prefixI)
  then show ?case using replace_scan_absent [OF assms(2)] by simp
next
  case (Cons c a)
  have "\<not> prefix (placeholder k) (c # a @ placeholder k @ b)" using Cons.prems by (simp add: placeholder_def)
  then show ?case using Cons.IH [of "before @ [c]"] Cons.prems replace_scan.simps [of "placeholder k" v before "c # a @ placeholder k @ b"] by simp
qed





end
