(* ===== verification/Notifications.thy ===== *)
theory Notifications
  imports Reminder_Delivery
begin

text \<open>
  The general notification service, \<open>backend/src/notification_service.ts\<close>, over the queue it shares with the reminders of
  \<open>Reminder_Delivery\<close>, and the table of templates, \<open>notification_template_manager.ts\<close>. The texts of the default templates
  are arguments, since they are long and not ASCII; keys, types, subjects and placeholders are written out. Queries of the
  template table and insertions of notifications may fail as the environment says. Days are 24 hours, as on a server in UTC.
\<close>

section \<open>Templates\<close>

record NotificationTemplate =
  tp_templateKey :: string
  tp_templateName :: string
  tp_templateType :: string
  tp_subject :: "string option"
  tp_htmlContent :: string
  tp_textContent :: string
  tp_placeholders :: "string list"
  tp_active :: bool

type_synonym templates = "NotificationTemplate list"

definition getTemplate :: "string \<Rightarrow> templates \<Rightarrow> NotificationTemplate option" where
  "getTemplate key tab = List.find (\<lambda>t. tp_templateKey t = key) tab"

definition getActiveTemplates :: "templates \<Rightarrow> templates" where
  "getActiveTemplates tab = filter tp_active tab"

text \<open>The key is unique in the table: creating it again, or updating one that does not exist, throws.\<close>

definition createTemplate :: "NotificationTemplate \<Rightarrow> templates \<Rightarrow> thrown + templates" where
  "createTemplate t tab =
     (if getTemplate (tp_templateKey t) tab \<noteq> None then Inl (PlainError ''Unique constraint failed on templateKey'') else Inr (tab @ [t]))"

record template_update =
  tu_subject :: "string option"
  tu_htmlContent :: "string option"
  tu_textContent :: "string option"
  tu_active :: "bool option"

definition apply_template_update :: "template_update \<Rightarrow> NotificationTemplate \<Rightarrow> NotificationTemplate" where
  "apply_template_update u t = t\<lparr>
     tp_subject := (case tu_subject u of Some s \<Rightarrow> Some s | None \<Rightarrow> tp_subject t),
     tp_htmlContent := or_default (tu_htmlContent u) (tp_htmlContent t),
     tp_textContent := or_default (tu_textContent u) (tp_textContent t),
     tp_active := or_default (tu_active u) (tp_active t)\<rparr>"

definition updateTemplate :: "string \<Rightarrow> template_update \<Rightarrow> templates \<Rightarrow> thrown + templates" where
  "updateTemplate key u tab =
     (if getTemplate key tab = None then Inl (PlainError ''Record to update not found'')
      else Inr (map (\<lambda>t. if tp_templateKey t = key then apply_template_update u t else t) tab))"

definition disableTemplate :: "string \<Rightarrow> templates \<Rightarrow> thrown + templates" where
  "disableTemplate key tab =
     updateTemplate key \<lparr>tu_subject = None, tu_htmlContent = None, tu_textContent = None, tu_active = Some False\<rparr> tab"

text \<open>The default templates: the first \<open>email_group_update\<close> has no end of its HTML before the next template, whose texts and
  placeholders it thereby takes. The texts are those of the i-th template.\<close>

definition default_template :: "string \<Rightarrow> string \<Rightarrow> string \<Rightarrow> string option \<Rightarrow> string \<times> string \<Rightarrow> string list \<Rightarrow> NotificationTemplate" where
  "default_template key name ty subject texts placeholders =
     \<lparr>tp_templateKey = key, tp_templateName = name, tp_templateType = ty, tp_subject = subject, tp_htmlContent = fst texts,
      tp_textContent = snd texts, tp_placeholders = placeholders, tp_active = True\<rparr>"

definition defaultTemplates :: "(nat \<Rightarrow> string \<times> string) \<Rightarrow> NotificationTemplate list" where
  "defaultTemplates texts =
     [default_template ''email_contribution_reminder'' ''Contribution Reminder - Email'' ''email''
        (Some ''Reminder: Contribution due for {{groupName}}'') (texts 0)
        [''userName'', ''groupName'', ''amount'', ''dueDate'', ''daysRemaining'', ''appUrl'', ''groupId'', ''unsubscribeUrl''],
      default_template ''email_contribution_confirmed'' ''Contribution Confirmed - Email'' ''email''
        (Some ''Contribution Confirmed for {{groupName}}'') (texts 1)
        [''userName'', ''groupName'', ''amount'', ''txHash'', ''timestamp'', ''membersRemaining'', ''unsubscribeUrl''],
      default_template ''email_payout_notification'' ''Payout Ready - Email'' ''email''
        (Some ''Your Payout is Ready - {{groupName}}'') (texts 2)
        [''userName'', ''groupName'', ''amount'', ''cycleNumber'', ''payoutWallet'', ''appUrl'', ''groupId'', ''unsubscribeUrl''],
      default_template ''email_group_update'' ''Group Update - Email'' ''email'' (Some ''Update: {{groupName}}'') (texts 3)
        [''recipientEmail'', ''creatorName'', ''groupName'', ''joinLink'', ''unsubscribeUrl''],
      default_template ''email_group_update'' ''Group Update - Email'' ''email'' (Some ''Update: {{groupName}}'') (texts 4)
        [''userName'', ''groupName'', ''updateTitle'', ''updateMessage'', ''appUrl'', ''groupId'', ''unsubscribeUrl''],
      default_template ''push_contribution_reminder'' ''Contribution Reminder - Push'' ''push'' None (texts 5)
        [''groupName'', ''amount'', ''daysRemaining''],
      default_template ''push_payout_ready'' ''Payout Ready - Push'' ''push'' None (texts 6) [''groupName'', ''amount''],
      default_template ''push_contribution_confirmed'' ''Contribution Confirmed - Push'' ''push'' None (texts 7) [''groupName'', ''amount''],
      default_template ''push_member_joined'' ''Member Joined - Push'' ''push'' None (texts 8)
        [''memberName'', ''groupName'', ''totalMembers'', ''maxMembers'']]"

definition init_template :: "NotificationTemplate \<Rightarrow> templates \<Rightarrow> templates" where
  "init_template t tab = (if getTemplate (tp_templateKey t) tab = None then tab @ [t] else tab)"

definition initializeDefaultTemplates :: "(nat \<Rightarrow> string \<times> string) \<Rightarrow> templates \<Rightarrow> templates" where
  "initializeDefaultTemplates texts tab = fold init_template (defaultTemplates texts) tab"

section \<open>The service\<close>

record notification_env =
  ne_apiKey :: string
  ne_firebase :: bool
  ne_fmt :: "rat \<Rightarrow> string"
  ne_template :: "string \<Rightarrow> thrown + NotificationTemplate option"
  ne_record :: "string \<Rightarrow> thrown option"
  ne_messageId :: string

record notification_state =
  ns_rows :: "(int \<times> notification_row) list"
  ns_queue :: "queue_row list"

fun error_string :: "thrown \<Rightarrow> string" where
  "error_string (AppError n c m s d) = n @ '': '' @ m"
| "error_string (PlainError m) = ''Error: '' @ m"
| "error_string (ThrownValue v) = v"

text \<open>\<open>String(value || '')\<close>, and \<open>value || d\<close> for strings.\<close>

definition string_or_empty :: "(rat \<Rightarrow> string) \<Rightarrow> json \<Rightarrow> string" where
  "string_or_empty fmt v = (if json_truthy v then js_String fmt v else [])"

definition data_or :: "(rat \<Rightarrow> string) \<Rightarrow> json \<Rightarrow> string \<Rightarrow> string \<Rightarrow> string" where
  "data_or fmt data k d = (case json_field data k of Some v \<Rightarrow> if json_truthy v then js_String fmt v else d | None \<Rightarrow> d)"

definition data_entries :: "json \<Rightarrow> (string \<times> json) list" where
  "data_entries data = (case data of JObj fs \<Rightarrow> fs | _ \<Rightarrow> [])"

definition service_renderTemplate :: "(rat \<Rightarrow> string) \<Rightarrow> string \<Rightarrow> json \<Rightarrow> string" where
  "service_renderTemplate fmt tpl data = renderTemplate tpl (map (\<lambda>(k, v). (k, string_or_empty fmt v)) (data_entries data))"

definition recordNotification :: "notification_env \<Rightarrow> int \<Rightarrow> notification_row \<Rightarrow> notification_state \<Rightarrow> notification_state" where
  "recordNotification env now row st =
     (if ne_record env (nr_userId row) = None then st\<lparr>ns_rows := ns_rows st @ [(now, row)]\<rparr> else st)"

definition failed_row :: "notification_env \<Rightarrow> string \<Rightarrow> string \<Rightarrow> json \<Rightarrow> string \<Rightarrow> thrown \<Rightarrow> notification_row" where
  "failed_row env templateId recipient data subject e =
     \<lparr>nr_userId = data_or (ne_fmt env) data ''userId'' ''unknown'', nr_templateId = templateId, nr_recipient = recipient, nr_subject = subject,
      nr_content = [], nr_status = ''failed'', nr_externalId = None, nr_failureReason = Some (error_string e)\<rparr>"

definition email_try :: "notification_env \<Rightarrow> int \<Rightarrow> string \<Rightarrow> string \<Rightarrow> json \<Rightarrow> string \<Rightarrow> notification_state \<Rightarrow> notification_state \<times> (thrown + string)" where
  "email_try env now to templateId data subject st =
     (case ne_template env templateId of
        Inl e \<Rightarrow> (st, Inl e)
      | Inr None \<Rightarrow> (st, Inl (PlainError (''Email template '' @ templateId @ '' not found'')))
      | Inr (Some t) \<Rightarrow>
          if tp_templateType t \<noteq> ''email'' then (st, Inl (PlainError (''Email template '' @ templateId @ '' not found'')))
          else if ne_apiKey env = [] then (st, Inr ''no-provider'')
          else
            (recordNotification env now
               \<lparr>nr_userId = data_or (ne_fmt env) data ''userId'' ''unknown'', nr_templateId = templateId, nr_recipient = to,
                nr_subject = service_renderTemplate (ne_fmt env) (if subject \<noteq> [] then subject else or_default (tp_subject t) []) data,
                nr_content = service_renderTemplate (ne_fmt env) (tp_htmlContent t) data, nr_status = ''sent'', nr_externalId = None,
                nr_failureReason = None\<rparr> st,
             Inr ''sent''))"

definition sendEmail :: "notification_env \<Rightarrow> int \<Rightarrow> string \<Rightarrow> string \<Rightarrow> json \<Rightarrow> string \<Rightarrow> notification_state \<Rightarrow> notification_state \<times> (thrown + string)" where
  "sendEmail env now to templateId data subject st =
     (case email_try env now to templateId data subject st of
        (st1, Inr r) \<Rightarrow> (st1, Inr r)
      | (st1, Inl e) \<Rightarrow> (recordNotification env now (failed_row env templateId to data subject e) st1, Inl e))"

definition push_try :: "notification_env \<Rightarrow> int \<Rightarrow> string \<Rightarrow> string \<Rightarrow> json \<Rightarrow> notification_state \<Rightarrow> notification_state \<times> (thrown + string)" where
  "push_try env now deviceToken templateId data st =
     (case ne_template env templateId of
        Inl e \<Rightarrow> (st, Inl e)
      | Inr None \<Rightarrow> (st, Inl (PlainError (''Push template '' @ templateId @ '' not found'')))
      | Inr (Some t) \<Rightarrow>
          if tp_templateType t \<noteq> ''push'' then (st, Inl (PlainError (''Push template '' @ templateId @ '' not found'')))
          else if \<not> ne_firebase env then (st, Inr ''no-provider'')
          else
            (recordNotification env now
               \<lparr>nr_userId = data_or (ne_fmt env) data ''userId'' ''unknown'', nr_templateId = templateId, nr_recipient = deviceToken,
                nr_subject = [], nr_content = service_renderTemplate (ne_fmt env) (tp_htmlContent t) data, nr_status = ''sent'',
                nr_externalId = Some (ne_messageId env), nr_failureReason = None\<rparr> st,
             Inr (ne_messageId env)))"

definition sendPushNotification :: "notification_env \<Rightarrow> int \<Rightarrow> string \<Rightarrow> string \<Rightarrow> json \<Rightarrow> notification_state \<Rightarrow> notification_state \<times> (thrown + string)" where
  "sendPushNotification env now deviceToken templateId data st =
     (case push_try env now deviceToken templateId data st of
        (st1, Inr r) \<Rightarrow> (st1, Inr r)
      | (st1, Inl e) \<Rightarrow> (recordNotification env now (failed_row env templateId deviceToken data [] e) st1, Inl e))"

definition queueNotification ::
  "string \<Rightarrow> string \<Rightarrow> string \<Rightarrow> json \<Rightarrow> string \<Rightarrow> int \<Rightarrow> int option \<Rightarrow> int \<Rightarrow> notification_state \<Rightarrow> notification_state \<times> nat" where
  "queueNotification userId templateKey recipient data ty priority scheduledFor now st =
     (st\<lparr>ns_queue := ns_queue st @
        [\<lparr>q_id = length (ns_queue st), q_userId = userId, q_templateKey = templateKey, q_recipient = recipient, q_data = data,
          q_notificationType = ty, q_priority = priority, q_scheduledFor = or_default scheduledFor now, q_status = ''pending'',
          q_processedAt = None\<rparr>]\<rparr>, length (ns_queue st))"

definition pending_now :: "int \<Rightarrow> queue_row \<Rightarrow> bool" where
  "pending_now now j \<longleftrightarrow> q_status j = ''pending'' \<and> q_scheduledFor j \<le> now"

definition pendingNotifications :: "int \<Rightarrow> nat \<Rightarrow> queue_row list \<Rightarrow> queue_row list" where
  "pendingNotifications now batchSize q = take batchSize (sort_key (\<lambda>j. - q_priority j) (sort_key q_scheduledFor (filter (pending_now now) q)))"

definition set_job :: "nat \<Rightarrow> (queue_row \<Rightarrow> queue_row) \<Rightarrow> notification_state \<Rightarrow> notification_state" where
  "set_job i f st = st\<lparr>ns_queue := map (\<lambda>j. if q_id j = i then f j else j) (ns_queue st)\<rparr>"

definition dispatch :: "notification_env \<Rightarrow> int \<Rightarrow> queue_row \<Rightarrow> notification_state \<Rightarrow> notification_state \<times> (thrown + string)" where
  "dispatch env now n st =
     (if q_notificationType n = ''email''
      then sendEmail env now (q_recipient n) (q_templateKey n) (q_data n) (data_or (ne_fmt env) (q_data n) ''subject'' []) st
      else if q_notificationType n = ''push'' then sendPushNotification env now (q_recipient n) (q_templateKey n) (q_data n) st
      else (st, Inr []))"

definition process_notification :: "notification_env \<Rightarrow> int \<Rightarrow> queue_row \<Rightarrow> notification_state \<times> nat \<Rightarrow> notification_state \<times> nat" where
  "process_notification env now n st =
     (case dispatch env now n (set_job (q_id n) (\<lambda>j. j\<lparr>q_status := ''processing''\<rparr>) (fst st)) of
        (st1, Inr _) \<Rightarrow> (set_job (q_id n) (\<lambda>j. j\<lparr>q_status := ''completed'', q_processedAt := Some now\<rparr>) st1, snd st + 1)
      | (st1, Inl _) \<Rightarrow> (set_job (q_id n) (\<lambda>j. j\<lparr>q_status := ''failed''\<rparr>) st1, snd st))"

definition processQueuedNotifications :: "notification_env \<Rightarrow> int \<Rightarrow> nat \<Rightarrow> notification_state \<Rightarrow> notification_state \<times> nat" where
  "processQueuedNotifications env now batchSize st =
     fold (process_notification env now) (pendingNotifications now batchSize (ns_queue st)) (st, 0)"

definition getNotificationHistory :: "string \<Rightarrow> nat \<Rightarrow> notification_state \<Rightarrow> notification_row list" where
  "getNotificationHistory userId limit st =
     map snd (take limit (sort_key (\<lambda>r. - fst r) (filter (\<lambda>r. nr_userId (snd r) = userId) (ns_rows st))))"

record notification_stats =
  totalSent :: nat
  totalFailed :: nat
  totalPending :: nat
  byType :: "(string \<times> nat) list"

definition count_type :: "string \<Rightarrow> (string \<times> nat) list \<Rightarrow> (string \<times> nat) list" where
  "count_type ty acc = AList.update ty (or_default (map_of acc ty) 0 + 1) acc"

definition getNotificationStats :: "notification_state \<Rightarrow> notification_stats" where
  "getNotificationStats st =
     \<lparr>totalSent = length (filter (\<lambda>r. nr_status (snd r) = ''sent'') (ns_rows st)),
      totalFailed = length (filter (\<lambda>r. nr_status (snd r) = ''failed'') (ns_rows st)),
      totalPending = length (filter (\<lambda>j. q_status j = ''pending'') (ns_queue st)),
      byType = fold (count_type \<circ> q_notificationType) (ns_queue st) []\<rparr>"

definition cleanupOldNotifications :: "int \<Rightarrow> int \<Rightarrow> notification_state \<Rightarrow> notification_state \<times> nat" where
  "cleanupOldNotifications daysToRetain now st =
     (let cutoffDate = now - daysToRetain * MS_PER_DAY
      in (st\<lparr>ns_rows := filter (\<lambda>r. \<not> fst r < cutoffDate) (ns_rows st)\<rparr>, length (filter (\<lambda>r. fst r < cutoffDate) (ns_rows st))))"

section \<open>The table of templates\<close>

definition keys_unique :: "templates \<Rightarrow> bool" where
  "keys_unique tab \<longleftrightarrow> distinct (map tp_templateKey tab)"

lemma getTemplate_None: "getTemplate k tab = None \<longleftrightarrow> k \<notin> tp_templateKey ` set tab"
  by (auto simp: getTemplate_def find_None_iff)

lemma keys_unique_ops:
  assumes "keys_unique tab"
  shows "createTemplate t tab = Inr tab' \<Longrightarrow> keys_unique tab'" "updateTemplate k u tab = Inr tab' \<Longrightarrow> keys_unique tab'"
    "keys_unique (init_template t tab)"
  using assms by (auto simp: keys_unique_def createTemplate_def updateTemplate_def init_template_def getTemplate_None apply_template_update_def o_def
      if_distrib [of tp_templateKey] cong: if_cong split: if_splits)

lemma find_append_cases: "List.find P (xs @ ys) = (case List.find P xs of Some x \<Rightarrow> Some x | None \<Rightarrow> List.find P ys)"
  by (induction xs) auto

lemma init_template_get:
  "getTemplate k (init_template t tab) = (case getTemplate k tab of Some x \<Rightarrow> Some x | None \<Rightarrow> if tp_templateKey t = k then Some t else None)"
  by (auto simp: init_template_def getTemplate_def find_append_cases split: option.split)

lemma getTemplate_simps [simp]:
  "getTemplate k [] = None" "getTemplate k (t # tab) = (if tp_templateKey t = k then Some t else getTemplate k tab)"
  by (simp_all add: getTemplate_def)

lemma init_fold_get:
  "getTemplate k (fold init_template ts tab) = (case getTemplate k tab of Some x \<Rightarrow> Some x | None \<Rightarrow> getTemplate k ts)"
  by (induction ts arbitrary: tab) (auto simp: init_template_get split: option.split)

lemma init_fold_present: "\<forall>t\<in>set ts. getTemplate (tp_templateKey t) tab \<noteq> None \<Longrightarrow> fold init_template ts tab = tab"
  by (induction ts) (auto simp: init_template_def)

text \<open>Setting up the default templates never changes a template that is there, adds the missing ones, and doing it again
  changes nothing.\<close>

theorem default_templates_idempotent:
  "getTemplate k tab = Some t \<Longrightarrow> getTemplate k (initializeDefaultTemplates texts tab) = Some t"
  "initializeDefaultTemplates texts (initializeDefaultTemplates texts' tab) = initializeDefaultTemplates texts' tab"
proof -
  show "getTemplate k tab = Some t \<Longrightarrow> getTemplate k (initializeDefaultTemplates texts tab) = Some t"
    by (simp add: initializeDefaultTemplates_def init_fold_get)
  have "getTemplate (tp_templateKey t) (defaultTemplates texts') \<noteq> None" if "t \<in> set (defaultTemplates texts)" for t
    using that by (auto simp: defaultTemplates_def default_template_def getTemplate_def)
  then show "initializeDefaultTemplates texts (initializeDefaultTemplates texts' tab) = initializeDefaultTemplates texts' tab"
    unfolding initializeDefaultTemplates_def by (intro init_fold_present) (auto simp: init_fold_get split: option.split)
qed

text \<open>On a fresh table the template for group updates is the first of the two with its key, with the placeholders and the
  text of the invitation; there is no template for invitations.\<close>

theorem group_update_template_garbled:
  "\<exists>t. getTemplate ''email_group_update'' (initializeDefaultTemplates texts []) = Some t \<and>
     tp_placeholders t = [''recipientEmail'', ''creatorName'', ''groupName'', ''joinLink'', ''unsubscribeUrl''] \<and>
     tp_htmlContent t = fst (texts 3) \<and> tp_textContent t = snd (texts 3)"
  "getTemplate ''email_group_invitation'' (initializeDefaultTemplates texts []) = None"
  unfolding initializeDefaultTemplates_def init_fold_get by (simp_all add: defaultTemplates_def default_template_def)

section \<open>The worker\<close>

lemma recordNotification_queue [simp]: "ns_queue (recordNotification env now r st) = ns_queue st"
  by (simp add: recordNotification_def)

lemma dispatch_queue [simp]: "ns_queue (fst (dispatch env now n st)) = ns_queue st"
  by (simp add: dispatch_def sendEmail_def sendPushNotification_def email_try_def push_try_def split: prod.split sum.split option.split)

lemma process_notification_queue:
  "ns_queue (fst (process_notification env now n st)) =
     map (\<lambda>j. if q_id j = q_id n
              then (if (\<exists>r. snd (dispatch env now n (set_job (q_id n) (\<lambda>j. j\<lparr>q_status := ''processing''\<rparr>) (fst st))) = Inr r)
                    then j\<lparr>q_status := ''completed'', q_processedAt := Some now\<rparr> else j\<lparr>q_status := ''failed''\<rparr>) else j)
       (ns_queue (fst st))"
proof -
  let ?st = "set_job (q_id n) (\<lambda>j. j\<lparr>q_status := ''processing''\<rparr>) (fst st)"
  obtain st1 res where d: "dispatch env now n ?st = (st1, res)" by (cases "dispatch env now n ?st")
  then have "ns_queue st1 = ns_queue ?st" using dispatch_queue [of env now n ?st] by simp
  then show ?thesis using d by (cases res) (auto simp: process_notification_def set_job_def)
qed

lemma process_notification_ids: "map q_id (ns_queue (fst (process_notification env now n st))) = map q_id (ns_queue (fst st))"
  unfolding process_notification_queue by simp

lemma process_fold_finish:
  assumes "distinct (map q_id (ns_queue (fst st)))"
  shows "\<forall>j\<in>set (ns_queue (fst (fold (process_notification env now) ns st))).
    q_id j \<in> q_id ` set ns \<and> finished j \<or> q_id j \<notin> q_id ` set ns \<and> j \<in> set (ns_queue (fst st))"
  using assms
proof (induction ns arbitrary: st)
  case (Cons n ns)
  let ?st = "process_notification env now n st"
  have "\<forall>j\<in>set (ns_queue (fst (fold (process_notification env now) ns ?st))).
      q_id j \<in> q_id ` set ns \<and> finished j \<or> q_id j \<notin> q_id ` set ns \<and> j \<in> set (ns_queue (fst ?st))"
    using Cons.IH [of ?st] Cons.prems by (simp add: process_notification_ids)
  moreover have "q_id j = q_id n \<and> finished j \<or> q_id j \<noteq> q_id n \<and> j \<in> set (ns_queue (fst st))" if "j \<in> set (ns_queue (fst ?st))" for j
    using that unfolding process_notification_queue finished_def by (auto split: if_splits)
  ultimately show ?case by auto
qed simp

text \<open>A run of the worker leaves each job it takes completed or failed, and touches no other.\<close>

theorem notification_worker_finishes:
  assumes "distinct (map q_id (ns_queue st))"
  shows "\<forall>j\<in>set (ns_queue (fst (processQueuedNotifications env now n st))).
    (if q_id j \<in> q_id ` set (pendingNotifications now n (ns_queue st)) then finished j else j \<in> set (ns_queue st))"
  unfolding processQueuedNotifications_def using process_fold_finish [of "(st, 0)" env now] assms by auto

lemma fold_step_fails:
  assumes "distinct (map q_id ns)" "distinct (map q_id (ns_queue (fst st)))" "n \<in> set ns"
    and "\<And>st. \<exists>e. snd (dispatch env now n st) = Inl e"
  shows "\<forall>j\<in>set (ns_queue (fst (fold (process_notification env now) ns st))). q_id j = q_id n \<longrightarrow> q_status j = ''failed''"
  using assms(1-3)
proof (induction ns arbitrary: st)
  case (Cons m ns)
  let ?st = "process_notification env now m st"
  have d: "distinct (map q_id (ns_queue (fst ?st)))" using Cons.prems(2) by (simp add: process_notification_ids)
  show ?case
  proof (cases "n \<in> set ns")
    case True
    then show ?thesis using Cons.IH [of ?st] Cons.prems(1) d by simp
  next
    case False
    then have m: "m = n" using Cons.prems(3) by simp
    then have notin: "q_id n \<notin> q_id ` set ns" using Cons.prems(1) by auto
    have "q_status j = ''failed''" if "j \<in> set (ns_queue (fst (fold (process_notification env now) ns ?st)))" "q_id j = q_id n" for j
    proof -
      have "j \<in> set (ns_queue (fst ?st))" using bspec [OF process_fold_finish [OF d, of env now ns] that(1)] that(2) notin by simp
      moreover obtain e where "snd (dispatch env now n (set_job (q_id n) (\<lambda>j. j\<lparr>q_status := ''processing''\<rparr>) (fst st))) = Inl e"
        using assms(4) by blast
      ultimately show ?thesis using that(2) m unfolding process_notification_queue by auto
    qed
    then show ?thesis by simp
  qed
qed simp

text \<open>The two workers share the queue: a reminder that the general worker takes first fails, since no default template has
  the key of a reminder, and the worker for reminders, which only takes pending jobs, never sends it.\<close>

theorem general_worker_fails_reminders:
  assumes "distinct (map q_id (ns_queue st))" "j0 \<in> set (pendingNotifications now n (ns_queue st))"
    and "startsWith (q_templateKey j0) ''contribution_reminder_''" "q_notificationType j0 = ''email''"
    and "ne_template env = (\<lambda>k. Inr (getTemplate k (initializeDefaultTemplates texts [])))"
    and "j \<in> set (ns_queue (fst (processQueuedNotifications env now n st)))" "q_id j = q_id j0"
  shows "q_status j = ''failed'' \<and> \<not> due_job now' j"
proof -
  let ?ns = "pendingNotifications now n (ns_queue st)"
  obtain s where "q_templateKey j0 = ''contribution_reminder_'' @ s"
    using assms(3) unfolding startsWith_def by (metis append_take_drop_id)
  then have "getTemplate (q_templateKey j0) (initializeDefaultTemplates texts []) = None"
    unfolding initializeDefaultTemplates_def init_fold_get by (simp add: defaultTemplates_def default_template_def)
  then have fails: "\<exists>e. snd (dispatch env now j0 st') = Inl e" for st'
    using assms(4,5) by (simp add: dispatch_def sendEmail_def email_try_def)
  have "distinct (ns_queue st)" "inj_on q_id (set (ns_queue st))" using assms(1) by (simp_all add: distinct_map)
  moreover have "set ?ns \<subseteq> set (ns_queue st)" by (auto simp: pendingNotifications_def dest!: in_set_takeD)
  ultimately have "distinct (map q_id ?ns)"
    by (auto simp: distinct_map pendingNotifications_def intro: inj_on_subset distinct_take)
  then have "q_status j = ''failed''"
    using fold_step_fails [of ?ns "(st, 0)" j0 env now] assms(1,2,6,7) fails unfolding processQueuedNotifications_def by auto
  then show ?thesis by (simp add: due_job_def)
qed

text \<open>Disabling a template has no effect on sending: a mail of its key is recorded as sent as before.\<close>

theorem disabled_template_sends:
  assumes "getTemplate k tab = Some t" "tp_templateType t = ''email''" "disableTemplate k tab = Inr tab'" "ne_apiKey env \<noteq> []"
  shows "snd (sendEmail (env\<lparr>ne_template := (\<lambda>k. Inr (getTemplate k tab'))\<rparr>) now to k data subject st) = Inr ''sent''"
proof -
  let ?f = "\<lambda>t. if tp_templateKey t = k
    then apply_template_update \<lparr>tu_subject = None, tu_htmlContent = None, tu_textContent = None, tu_active = Some False\<rparr> t else t"
  have "tab' = map ?f tab" using assms(1,3) by (simp add: disableTemplate_def updateTemplate_def)
  moreover have "getTemplate k (map ?f tab) = map_option ?f (getTemplate k tab)"
    by (induction tab) (auto simp: apply_template_update_def)
  moreover have "tp_templateKey t = k" using find_SomeD assms(1) by (fastforce simp: getTemplate_def)
  ultimately have "getTemplate k tab' = Some (?f t)" "tp_templateType (?f t) = ''email''"
    using assms(1,2) by (simp_all add: apply_template_update_def)
  then show ?thesis using assms(4) by (simp add: sendEmail_def email_try_def)
qed

section \<open>Statistics and clean-up\<close>

lemma count_type_fold: "or_default (map_of (fold (count_type \<circ> f) xs acc) ty) 0 = or_default (map_of acc ty) 0 + length (filter (\<lambda>x. f x = ty) xs)"
proof (induction xs arbitrary: acc)
  case (Cons x xs)
  have "map_of (count_type (f x) acc) ty = (if ty = f x then Some (or_default (map_of acc (f x)) 0 + 1) else map_of acc ty)"
    by (simp add: count_type_def update_conv')
  then show ?case using Cons by auto
qed simp

text \<open>The statistics count, for each type, the jobs of that type in the queue; clean-up keeps exactly the notifications of
  the last days and reports how many it deleted.\<close>

theorem notification_counts:
  "or_default (map_of (byType (getNotificationStats st)) ty) 0 = length (filter (\<lambda>j. q_notificationType j = ty) (ns_queue st))"
  "length (ns_rows (fst (cleanupOldNotifications d now st))) + snd (cleanupOldNotifications d now st) = length (ns_rows st)"
  "r \<in> set (ns_rows (fst (cleanupOldNotifications d now st))) \<longleftrightarrow> r \<in> set (ns_rows st) \<and> now - d * MS_PER_DAY \<le> fst r"
proof -
  show "or_default (map_of (byType (getNotificationStats st)) ty) 0 = length (filter (\<lambda>j. q_notificationType j = ty) (ns_queue st))"
    using count_type_fold [of q_notificationType "ns_queue st" "[]" ty] by (simp add: getNotificationStats_def)
  show "length (ns_rows (fst (cleanupOldNotifications d now st))) + snd (cleanupOldNotifications d now st) = length (ns_rows st)"
    using sum_length_filter_compl [of "\<lambda>r. fst r < now - d * MS_PER_DAY" "ns_rows st"]
    by (simp add: cleanupOldNotifications_def Let_def)
  show "r \<in> set (ns_rows (fst (cleanupOldNotifications d now st))) \<longleftrightarrow> r \<in> set (ns_rows st) \<and> now - d * MS_PER_DAY \<le> fst r"
    by (auto simp: cleanupOldNotifications_def Let_def)
qed

end
