(* ===== verification/Warehouse.thy ===== *)
theory Warehouse
  imports Js_Values Errors
begin

text \<open>
  The export to the data warehouse, \<open>backend/src/warehouse_export.ts\<close>: contract events above a watermark and all daily
  metrics become objects of line-separated JSON in a bucket. The watermark is a row of the cursor table, which has a unique
  contract id and, by the schema of the database, an identifier that is \<open>singleton\<close> unless it is given. Tables, clock,
  bucket and the printing of numbers are arguments; reading the watermark and each upload may fail.
\<close>

section \<open>Tables\<close>

record cursor_row =
  cu_id :: string
  cu_contractId :: string
  cu_lastLedger :: int

record event_record =
  er_id :: string
  er_contractId :: string
  er_eventType :: string
  er_txHash :: string
  er_ledgerSeq :: int
  er_timestamp :: int
  er_topics :: json
  er_data :: json

record metrics_record =
  mr_date :: int
  mr_totalUsers :: int
  mr_activeUsers :: int
  mr_totalGroups :: int
  mr_contribution :: rat
  mr_payout :: rat
  mr_successRate :: rat

definition WATERMARK_KEY :: string where "WATERMARK_KEY = ''warehouse_export_watermark''"

record warehouse =
  wh_cursors :: "cursor_row list"
  wh_bucket :: "(string \<times> string) list"

record warehouse_env =
  we_fmt :: "rat \<Rightarrow> string"
  we_load_fails :: bool
  we_put :: "string \<Rightarrow> thrown option"

definition loadWatermark :: "warehouse_env \<Rightarrow> warehouse \<Rightarrow> int" where
  "loadWatermark env w =
     (if we_load_fails env then 0
      else case List.find (\<lambda>r. cu_contractId r = WATERMARK_KEY) (wh_cursors w) of Some r \<Rightarrow> cu_lastLedger r | None \<Rightarrow> 0)"

definition saveWatermark :: "int \<Rightarrow> warehouse \<Rightarrow> thrown + warehouse" where
  "saveWatermark ledger w =
     (if \<exists>r\<in>set (wh_cursors w). cu_contractId r = WATERMARK_KEY
      then Inr (w\<lparr>wh_cursors := map (\<lambda>r. if cu_contractId r = WATERMARK_KEY then r\<lparr>cu_lastLedger := ledger\<rparr> else r) (wh_cursors w)\<rparr>)
      else if \<exists>r\<in>set (wh_cursors w). cu_id r = ''singleton'' then Inl (PlainError ''Unique constraint failed on id'')
      else Inr (w\<lparr>wh_cursors := wh_cursors w @ [\<lparr>cu_id = ''singleton'', cu_contractId = WATERMARK_KEY, cu_lastLedger = ledger\<rparr>]\<rparr>))"

section \<open>Rows\<close>

definition fact_row :: "(rat \<Rightarrow> string) \<Rightarrow> string \<Rightarrow> event_record \<Rightarrow> json" where
  "fact_row fmt exportedAt e =
     JObj [(''id'', JStr (er_id e)), (''contract_id'', JStr (er_contractId e)), (''event_type'', JStr (er_eventType e)),
           (''tx_hash'', JStr (er_txHash e)), (''ledger_seq'', JNum (er_ledgerSeq e)), (''event_ts'', JStr (toISOString (er_timestamp e))),
           (''topics'', JStr (stringify fmt (er_topics e))), (''data'', JStr (stringify fmt (er_data e))), (''exported_at'', JStr exportedAt)]"

definition metrics_row :: "(rat \<Rightarrow> string) \<Rightarrow> metrics_record \<Rightarrow> json" where
  "metrics_row fmt m =
     JObj [(''date'', JStr (take 10 (toISOString (mr_date m)))), (''total_users'', JNum (mr_totalUsers m)), (''active_users'', JNum (mr_activeUsers m)),
           (''total_groups'', JNum (mr_totalGroups m)), (''total_contribution_xlm'', JStr (fmt (mr_contribution m))),
           (''total_payout_xlm'', JStr (fmt (mr_payout m))), (''success_rate_pct'', JStr (fmt (mr_successRate m)))]"

definition toNdjson :: "(rat \<Rightarrow> string) \<Rightarrow> json list \<Rightarrow> string" where
  "toNdjson fmt rows = join [char_of (10::nat)] (map (stringify fmt) rows)"

definition datePrefix :: "string \<Rightarrow> string" where
  "datePrefix isoTs = map (\<lambda>c. if c = CHR ''-'' then CHR ''/'' else c) (take 10 isoTs)"

section \<open>Data-quality checks\<close>

definition requiredByTable :: "string \<Rightarrow> string list" where
  "requiredByTable table =
     (if table = ''fact_contract_events'' then [''id'', ''contract_id'', ''event_type'', ''tx_hash'', ''ledger_seq'', ''event_ts'']
      else if table = ''dim_platform_metrics'' then [''date'', ''total_users'', ''active_users''] else [])"

definition missing_field :: "json \<Rightarrow> string \<Rightarrow> bool" where
  "missing_field row field \<longleftrightarrow> json_field row field \<in> {None, Some JNull, Some (JStr [])}"

definition pkField :: "string \<Rightarrow> string" where
  "pkField table = (if table = ''fact_contract_events'' then ''id'' else ''date'')"

fun check_required :: "string \<Rightarrow> json list \<Rightarrow> thrown option" where
  "check_required table [] = None"
| "check_required table (row # rows) =
     (case List.find (missing_field row) (requiredByTable table) of
        Some field \<Rightarrow> Some (PlainError (''Data-quality check failed: null field '' @ quote field @ '' in '' @ table))
      | None \<Rightarrow> check_required table rows)"

fun check_keys :: "string \<Rightarrow> json option list \<Rightarrow> json list \<Rightarrow> thrown option" where
  "check_keys table seen [] = None"
| "check_keys table seen (row # rows) =
     (if json_field row (pkField table) \<in> set seen
      then Some (PlainError (''Data-quality check failed: duplicate '' @ quote (pkField table) @ '' in '' @ table))
      else check_keys table (seen @ [json_field row (pkField table)]) rows)"

definition runQualityChecks :: "string \<Rightarrow> json list \<Rightarrow> thrown option" where
  "runQualityChecks table rows =
     (case check_required table rows of Some e \<Rightarrow> Some e | None \<Rightarrow> check_keys table [] rows)"

section \<open>The run\<close>

definition wh_upload :: "warehouse_env \<Rightarrow> string \<Rightarrow> string \<Rightarrow> warehouse \<Rightarrow> thrown + warehouse" where
  "wh_upload env key body w =
     (case we_put env key of Some e \<Rightarrow> Inl e | None \<Rightarrow> Inr (w\<lparr>wh_bucket := (key, body) # filter (\<lambda>x. fst x \<noteq> key) (wh_bucket w)\<rparr>))"

definition new_events :: "int \<Rightarrow> event_record list \<Rightarrow> event_record list" where
  "new_events watermark table = sort_key er_ledgerSeq (filter (\<lambda>e. er_ledgerSeq e > watermark) table)"

definition export_table :: "warehouse_env \<Rightarrow> string \<Rightarrow> string \<Rightarrow> json list \<Rightarrow> warehouse \<Rightarrow> thrown + warehouse" where
  "export_table env table key rows w =
     (case runQualityChecks table rows of Some e \<Rightarrow> Inl e | None \<Rightarrow> wh_upload env key (toNdjson (we_fmt env) rows) w)"

definition events_key :: "string \<Rightarrow> int \<Rightarrow> int \<Rightarrow> string" where
  "events_key exportedAt watermark last_seq =
     ''fact_contract_events/'' @ datePrefix exportedAt @ ''_ledger_'' @ string_of_int (watermark + 1) @ ''_to_'' @ string_of_int last_seq @ ''.ndjson''"

definition export_events :: "warehouse_env \<Rightarrow> string \<Rightarrow> int \<Rightarrow> event_record list \<Rightarrow> warehouse \<Rightarrow> thrown + warehouse \<times> string list" where
  "export_events env exportedAt watermark events w =
     (if events = [] then Inr (w, [])
      else let key = events_key exportedAt watermark (er_ledgerSeq (last events))
           in case export_table env ''fact_contract_events'' key (map (fact_row (we_fmt env) exportedAt) events) w of
                Inl e \<Rightarrow> Inl e | Inr w1 \<Rightarrow> Inr (w1, [key]))"

definition metrics_key :: "string \<Rightarrow> string" where
  "metrics_key exportedAt = ''dim_platform_metrics/'' @ datePrefix exportedAt @ ''.ndjson''"

definition export_metrics :: "warehouse_env \<Rightarrow> string \<Rightarrow> metrics_record list \<Rightarrow> warehouse \<Rightarrow> thrown + warehouse \<times> string list" where
  "export_metrics env exportedAt metrics w =
     (if metrics = [] then Inr (w, [])
      else case export_table env ''dim_platform_metrics'' (metrics_key exportedAt) (map (metrics_row (we_fmt env)) (sort_key mr_date metrics)) w of
             Inl e \<Rightarrow> Inl e | Inr w1 \<Rightarrow> Inr (w1, [metrics_key exportedAt]))"

record WarehouseExportResult =
  wx_eventsExported :: nat
  wx_metricsExported :: nat
  wx_s3Keys :: "string list"
  wx_watermark :: int

text \<open>A run leaves what it has uploaded in the bucket when a later part fails.\<close>

definition warehouse_run ::
  "warehouse_env \<Rightarrow> int \<Rightarrow> event_record list \<Rightarrow> metrics_record list \<Rightarrow> warehouse \<Rightarrow> warehouse \<times> (thrown + WarehouseExportResult)" where
  "warehouse_run env now table metrics w =
     (let watermark = loadWatermark env w; exportedAt = toISOString now; events = new_events watermark table;
          newWatermark = (if events = [] then watermark else er_ledgerSeq (last events))
      in case export_events env exportedAt watermark events w of
           Inl e \<Rightarrow> (w, Inl e)
         | Inr (w1, keys1) \<Rightarrow>
             (case export_metrics env exportedAt metrics w1 of
                Inl e \<Rightarrow> (w1, Inl e)
              | Inr (w2, keys2) \<Rightarrow>
                  let res = \<lparr>wx_eventsExported = length events, wx_metricsExported = length metrics, wx_s3Keys = keys1 @ keys2,
                             wx_watermark = newWatermark\<rparr>
                  in if newWatermark > watermark
                     then (case saveWatermark newWatermark w2 of Inl e \<Rightarrow> (w2, Inl e) | Inr w3 \<Rightarrow> (w3, Inr res))
                     else (w2, Inr res)))"

section \<open>Lemmas\<close>

lemma wh_upload_cursors: "wh_upload env k b w = Inr w' \<Longrightarrow> wh_cursors w' = wh_cursors w"
  by (auto simp: wh_upload_def split: option.splits)

lemma export_cursors:
  "export_events env t wm es w = Inr (w', ks) \<Longrightarrow> wh_cursors w' = wh_cursors w"
  "export_metrics env t ms w = Inr (w', ks) \<Longrightarrow> wh_cursors w' = wh_cursors w"
  by (auto simp: export_events_def export_metrics_def export_table_def Let_def wh_upload_cursors split: if_splits sum.splits option.splits)

lemma new_events_set [simp]: "set (new_events wm table) = {e \<in> set table. er_ledgerSeq e > wm}"
  by (simp add: new_events_def)

lemma sorted_last: "sorted (map f xs) \<Longrightarrow> e \<in> set xs \<Longrightarrow> f e \<le> (f (last xs) :: int)"
  by (induction xs) auto

lemma new_events_last: "e \<in> set (new_events wm table) \<Longrightarrow> er_ledgerSeq e \<le> er_ledgerSeq (last (new_events wm table))"
  by (rule sorted_last) (simp_all add: new_events_def)

lemma loadWatermark_saved:
  assumes "saveWatermark l w = Inr w'" "\<not> we_load_fails env"
  shows "loadWatermark env w' = l"
proof -
  have find: "List.find (\<lambda>r. cu_contractId r = WATERMARK_KEY)
      (map (\<lambda>r. if cu_contractId r = WATERMARK_KEY then r\<lparr>cu_lastLedger := l\<rparr> else r) cs) =
    map_option (\<lambda>r. r\<lparr>cu_lastLedger := l\<rparr>) (List.find (\<lambda>r. cu_contractId r = WATERMARK_KEY) cs)" for cs
    by (induction cs) auto
  have new: "List.find P (cs @ [r]) = (case List.find P cs of None \<Rightarrow> if P r then Some r else None | Some x \<Rightarrow> Some x)" for P cs and r :: cursor_row
    by (induction cs) auto
  have none: "List.find (\<lambda>r. cu_contractId r = WATERMARK_KEY) (wh_cursors w) = None \<longleftrightarrow> \<not> (\<exists>r\<in>set (wh_cursors w). cu_contractId r = WATERMARK_KEY)"
    by (auto simp: find_None_iff)
  show ?thesis
    using assms none by (auto simp: saveWatermark_def loadWatermark_def find new split: if_splits option.split)
qed

lemma check_required_None: "check_required table rows = None \<longleftrightarrow> (\<forall>row\<in>set rows. \<forall>f\<in>set (requiredByTable table). \<not> missing_field row f)"
proof (induction rows)
  case (Cons row rows)
  then show ?case using find_None_iff [of "missing_field row" "requiredByTable table"]
    by (cases "List.find (missing_field row) (requiredByTable table)") auto
qed simp

lemma check_keys_None:
  "check_keys table seen rows = None \<longleftrightarrow> distinct (map (\<lambda>r. json_field r (pkField table)) rows) \<and>
     (\<forall>r\<in>set rows. json_field r (pkField table) \<notin> set seen)"
proof (induction rows arbitrary: seen)
  case (Cons row rows)
  then show ?case by (auto simp: image_iff)
qed simp

section \<open>Properties\<close>

text \<open>The quality checks pass exactly when every row has all required fields and no primary key occurs twice.\<close>

theorem quality_checks_exact:
  "runQualityChecks table rows = None \<longleftrightarrow>
     (\<forall>row\<in>set rows. \<forall>f\<in>set (requiredByTable table). \<not> missing_field row f) \<and> distinct (map (\<lambda>r. json_field r (pkField table)) rows)"
proof (cases "check_required table rows")
  case None
  then show ?thesis using check_required_None [of table rows] check_keys_None [of table "[]" rows] by (simp add: runQualityChecks_def)
next
  case (Some e)
  then show ?thesis using check_required_None [of table rows] by (simp add: runQualityChecks_def)
qed

text \<open>A run that succeeds has exported every event above the watermark it read, and once its watermark is stored the next
  run on the same table exports no event again.\<close>

theorem rerun_exports_nothing:
  assumes "warehouse_run env now table metrics w = (w', Inr res)" "\<not> we_load_fails env"
    and "warehouse_run env now' table metrics' w' = (w'', Inr res')"
  shows "wx_eventsExported res = length (filter (\<lambda>e. er_ledgerSeq e > loadWatermark env w) table)" and "wx_eventsExported res' = 0"
proof -
  let ?wm = "loadWatermark env w"
  let ?ev = "new_events ?wm table"
  obtain w1 k1 where e: "export_events env (toISOString now) ?wm ?ev w = Inr (w1, k1)"
    using assms(1) by (auto simp: warehouse_run_def Let_def split: sum.splits)
  then obtain w2 k2 where m: "export_metrics env (toISOString now) metrics w1 = Inr (w2, k2)"
    using assms(1) by (auto simp: warehouse_run_def Let_def split: sum.splits)
  note parts = e m
  have c: "wh_cursors w2 = wh_cursors w" using export_cursors(1) [OF e] export_cursors(2) [OF m] by simp
  show "wx_eventsExported res = length (filter (\<lambda>e. er_ledgerSeq e > ?wm) table)"
    using assms(1) parts by (auto simp: warehouse_run_def Let_def new_events_def split: sum.splits if_splits)
  have wm': "\<forall>e\<in>set table. er_ledgerSeq e \<le> loadWatermark env w'"
  proof (cases "?ev = []")
    case True
    then have "wh_cursors w' = wh_cursors w" using assms(1) parts c by (simp add: warehouse_run_def Let_def)
    then have "loadWatermark env w' = ?wm" by (simp add: loadWatermark_def)
    moreover have "\<forall>e\<in>set table. \<not> er_ledgerSeq e > ?wm" using True new_events_set [of ?wm table] by auto
    ultimately show ?thesis by auto
  next
    case False
    then have "last ?ev \<in> set ?ev" by (rule last_in_set)
    then have big: "er_ledgerSeq (last ?ev) > ?wm" unfolding new_events_set by blast
    then have "saveWatermark (er_ledgerSeq (last ?ev)) w2 = Inr w'"
      using assms(1) parts False by (auto simp: warehouse_run_def Let_def split: sum.splits)
    then have wm: "loadWatermark env w' = er_ledgerSeq (last ?ev)" by (rule loadWatermark_saved [OF _ assms(2)])
    have "er_ledgerSeq e \<le> er_ledgerSeq (last ?ev)" if "e \<in> set table" for e
    proof (cases "er_ledgerSeq e > ?wm")
      case True
      then show ?thesis using that by (intro new_events_last) simp
    qed (use big in simp)
    then show ?thesis using wm by simp
  qed
  then have "set (new_events (loadWatermark env w') table) = {}" unfolding new_events_set by fastforce
  then have "new_events (loadWatermark env w') table = []" by (rule set_empty [THEN iffD1])
  then show "wx_eventsExported res' = 0"
    using assms(3) by (auto simp: warehouse_run_def Let_def split: sum.splits if_splits)
qed

text \<open>As soon as another component keeps a row of its own in the cursor table under the default identifier, as the event
  indexer does, the watermark cannot be stored: a run with new events fails after its uploads, and since the cursor table is
  unchanged the next run exports the same events again.\<close>

theorem watermark_never_stored:
  assumes "\<forall>r\<in>set (wh_cursors w). cu_contractId r \<noteq> WATERMARK_KEY" and "r \<in> set (wh_cursors w)" "cu_id r = ''singleton''"
    and "e \<in> set table" "er_ledgerSeq e > 0"
  shows "\<exists>err. snd (warehouse_run env now table metrics w) = Inl err"
    and "wh_cursors (fst (warehouse_run env now table metrics w)) = wh_cursors w"
    and "new_events (loadWatermark env (fst (warehouse_run env now table metrics w))) table = new_events (loadWatermark env w) table"
proof -
  have none: "List.find (\<lambda>r. cu_contractId r = WATERMARK_KEY) cs = None" if "cs = wh_cursors w" for cs
    using assms(1) that by (simp add: find_None_iff)
  then have wm: "loadWatermark env w = 0" by (simp add: loadWatermark_def)
  let ?ev = "new_events 0 table"
  have "e \<in> set ?ev" using assms(4,5) by simp
  then have ne: "?ev \<noteq> []" by (metis empty_iff list.set(1))
  then have "last ?ev \<in> set ?ev" by (rule last_in_set)
  then have big: "er_ledgerSeq (last ?ev) > 0" unfolding new_events_set by blast
  have fail: "\<exists>err. saveWatermark l w2 = Inl err" if "wh_cursors w2 = wh_cursors w" for l w2
    using that assms(1,2,3) by (auto simp: saveWatermark_def)
  have run: "(\<exists>err. snd (warehouse_run env now table metrics w) = Inl err) \<and> wh_cursors (fst (warehouse_run env now table metrics w)) = wh_cursors w"
  proof (cases "export_events env (toISOString now) 0 ?ev w")
    case (Inl err)
    then show ?thesis using wm by (simp add: warehouse_run_def Let_def)
  next
    case (Inr p)
    obtain w1 k1 where p: "p = (w1, k1)" by (cases p)
    have c1: "wh_cursors w1 = wh_cursors w" using export_cursors(1) Inr p by blast
    show ?thesis
    proof (cases "export_metrics env (toISOString now) metrics w1")
      case (Inl err)
      then show ?thesis using wm Inr p c1 by (simp add: warehouse_run_def Let_def)
    next
      case (Inr q)
      obtain w2 k2 where q: "q = (w2, k2)" by (cases q)
      have c2: "wh_cursors w2 = wh_cursors w" using export_cursors(2) Inr q c1 by metis
      obtain err where "saveWatermark (er_ledgerSeq (last ?ev)) w2 = Inl err" using fail [OF c2] by blast
      then show ?thesis using wm \<open>export_events env (toISOString now) 0 ?ev w = Inr p\<close> Inr p q c2 ne big by (simp add: warehouse_run_def Let_def)
    qed
  qed
  then show "\<exists>err. snd (warehouse_run env now table metrics w) = Inl err"
    "wh_cursors (fst (warehouse_run env now table metrics w)) = wh_cursors w" by blast+
  then have "loadWatermark env (fst (warehouse_run env now table metrics w)) = loadWatermark env w" by (simp add: loadWatermark_def)
  then show "new_events (loadWatermark env (fst (warehouse_run env now table metrics w))) table = new_events (loadWatermark env w) table" by simp
qed

text \<open>A failure in the export of the metrics comes after the upload of the events and before the watermark is stored, so
  these events are exported again by the next run.\<close>

theorem metrics_failure_repeats_events:
  assumes "export_events env (toISOString now) (loadWatermark env w) (new_events (loadWatermark env w) table) w = Inr (w1, keys)"
    and "export_metrics env (toISOString now) metrics w1 = Inl e"
  shows "fst (warehouse_run env now table metrics w) = w1 \<and> loadWatermark env w1 = loadWatermark env w"
  using assms export_cursors(1) [OF assms(1)] by (simp add: warehouse_run_def Let_def loadWatermark_def)

text \<open>An event that is indexed after the export of its ledger is never exported: a run with it in the table is the run
  without it.\<close>

theorem late_event_skipped:
  assumes "er_ledgerSeq e \<le> loadWatermark env w"
  shows "warehouse_run env now (as @ e # bs) metrics w = warehouse_run env now (as @ bs) metrics w"
proof -
  have "new_events (loadWatermark env w) (as @ e # bs) = new_events (loadWatermark env w) (as @ bs)"
    using assms by (simp add: new_events_def)
  then show ?thesis by (simp only: warehouse_run_def Let_def)
qed

end
