(* ===== verification/Analytics_Aggregator.thy ===== *)
theory Analytics_Aggregator
  imports Js_Values
begin

text \<open>
  The daily aggregation of analytics events, \<open>backend/src/analytics_aggregator.ts\<close>. The table of events, the clock and
  \<open>Number\<close> of a JSON value are arguments. A day is 24 hours from midnight UTC, which is the time zone of the servers. Rows
  are kept per day; time stamps of updates are dropped. Interval timers are not modelled.
\<close>

section \<open>Events\<close>

record analytics_event =
  ae_userId :: "string option"
  ae_groupId :: "string option"
  ae_sessionId :: "string option"
  ae_eventType :: string
  ae_eventData :: json
  ae_createdAt :: int

definition eventDataType :: "json \<Rightarrow> string option" where
  "eventDataType v = (case json_field v ''type'' of Some (JStr s) \<Rightarrow> Some s | _ \<Rightarrow> None)"

text \<open>A missing or \<open>null\<close> amount is zero, and so is one that is not a number.\<close>

definition eventDataAmount :: "(json \<Rightarrow> rat option) \<Rightarrow> json \<Rightarrow> rat" where
  "eventDataAmount num v =
     (case json_field v ''amount'' of None \<Rightarrow> 0 | Some JNull \<Rightarrow> 0 | Some a \<Rightarrow> or_default (num a) 0)"

definition is_transaction :: "string \<Rightarrow> analytics_event \<Rightarrow> bool" where
  "is_transaction ty e \<longleftrightarrow> ae_eventType e = ''transaction'' \<and> eventDataType (ae_eventData e) = Some ty"

definition count_transactions :: "string \<Rightarrow> analytics_event list \<Rightarrow> nat" where
  "count_transactions ty events = length (filter (is_transaction ty) events)"

definition total_amount :: "(json \<Rightarrow> rat option) \<Rightarrow> string \<Rightarrow> analytics_event list \<Rightarrow> rat" where
  "total_amount num ty events = foldl (\<lambda>sum e. sum + eventDataAmount num (ae_eventData e)) 0 (filter (is_transaction ty) events)"

definition count_events :: "string \<Rightarrow> analytics_event list \<Rightarrow> nat" where
  "count_events ty events = length (filter (\<lambda>e. ae_eventType e = ty) events)"

text \<open>\<open>new Set(xs.filter(Boolean)).size\<close>\<close>

definition unique_count :: "string option list \<Rightarrow> nat" where
  "unique_count xs = length (remdups (filter truthy xs))"

definition in_day :: "int \<Rightarrow> int \<Rightarrow> bool" where
  "in_day date t \<longleftrightarrow> date \<le> t \<and> t < date + MS_PER_DAY"

definition day_events :: "int \<Rightarrow> analytics_event list \<Rightarrow> analytics_event list" where
  "day_events date table = filter (\<lambda>e. in_day date (ae_createdAt e)) table"

section \<open>Platform metrics\<close>

record platform_metrics =
  pm_date :: int
  pm_totalUsers :: nat
  pm_activeUsers :: nat
  pm_totalGroups :: nat
  pm_activeGroups :: nat
  pm_totalContributions :: nat
  pm_totalContributionAmount :: rat
  pm_totalPayouts :: nat
  pm_totalPayoutAmount :: rat
  pm_averageGroupSize :: rat
  pm_successRate :: rat
  pm_totalTransactions :: nat
  pm_uniqueWallets :: nat

definition platform_row :: "(json \<Rightarrow> rat option) \<Rightarrow> int \<Rightarrow> analytics_event list \<Rightarrow> platform_metrics" where
  "platform_row num date events =
     (let users = unique_count (map ae_userId events); groups = unique_count (map ae_groupId events);
          contributions = count_transactions ''contribution'' events; payouts = count_transactions ''payout'' events;
          completedGroups = count_events ''group_completed'' events; createdGroups = count_events ''group_created'' events
      in \<lparr>pm_date = date, pm_totalUsers = users,
          pm_activeUsers = (if count_events ''page_view'' events > 0 then users else 0), pm_totalGroups = groups,
          pm_activeGroups = (if count_events ''group_activity'' events > 0 then groups else 0),
          pm_totalContributions = contributions, pm_totalContributionAmount = total_amount num ''contribution'' events,
          pm_totalPayouts = payouts, pm_totalPayoutAmount = total_amount num ''payout'' events,
          pm_averageGroupSize = (if groups > 0 then rat_of_nat users / rat_of_nat groups else 0),
          pm_successRate = (if createdGroups > 0 then rat_of_nat completedGroups / rat_of_nat createdGroups * 100 else 0),
          pm_totalTransactions = contributions + payouts, pm_uniqueWallets = users\<rparr>)"

text \<open>The first row of the day is updated, with its date; otherwise one is created.\<close>

definition upsert_first :: "('a \<Rightarrow> bool) \<Rightarrow> ('a \<Rightarrow> 'a) \<Rightarrow> 'a \<Rightarrow> 'a list \<Rightarrow> 'a list" where
  "upsert_first P f new tab = (if list_ex P tab then update_first P f tab else tab @ [new])"

definition aggregatePlatformMetrics :: "(json \<Rightarrow> rat option) \<Rightarrow> int \<Rightarrow> analytics_event list \<Rightarrow> platform_metrics list \<Rightarrow> platform_metrics list" where
  "aggregatePlatformMetrics num date table tab =
     (let row = platform_row num date (day_events date table)
      in upsert_first (\<lambda>r. in_day date (pm_date r)) (\<lambda>r. row\<lparr>pm_date := pm_date r\<rparr>) row tab)"

section \<open>User and group metrics\<close>

text \<open>The events of each key in the order the keys appear; events without a key are passed over.\<close>

definition group_events :: "(analytics_event \<Rightarrow> string option) \<Rightarrow> analytics_event list \<Rightarrow> (string \<times> analytics_event list) list" where
  "group_events key events =
     fold (\<lambda>e m. case key e of
                   Some k \<Rightarrow> if k \<noteq> [] then AList.update k (or_default (map_of m k) [] @ [e]) m else m
                 | None \<Rightarrow> m) events []"

record user_metrics =
  um_userId :: string
  um_date :: int
  um_groupsJoined :: nat
  um_groupsCreated :: nat
  um_groupsCompleted :: nat
  um_totalContributions :: nat
  um_totalContributionAmount :: rat
  um_totalPayoutsReceived :: rat
  um_sessionsCount :: nat
  um_pageViews :: nat
  um_interactionCount :: nat

definition user_row :: "(json \<Rightarrow> rat option) \<Rightarrow> int \<Rightarrow> string \<times> analytics_event list \<Rightarrow> user_metrics" where
  "user_row num date ue =
     (let es = snd ue
      in \<lparr>um_userId = fst ue, um_date = date, um_groupsJoined = count_events ''join_group'' es,
          um_groupsCreated = count_events ''group_created'' es, um_groupsCompleted = count_events ''group_completed'' es,
          um_totalContributions = count_transactions ''contribution'' es,
          um_totalContributionAmount = total_amount num ''contribution'' es, um_totalPayoutsReceived = total_amount num ''payout'' es,
          um_sessionsCount = unique_count (map ae_sessionId es), um_pageViews = count_events ''page_view'' es,
          um_interactionCount = length es\<rparr>)"

definition upsert_user :: "(json \<Rightarrow> rat option) \<Rightarrow> int \<Rightarrow> string \<times> analytics_event list \<Rightarrow> user_metrics list \<Rightarrow> user_metrics list" where
  "upsert_user num date ue tab =
     upsert_first (\<lambda>r. um_userId r = fst ue \<and> in_day date (um_date r)) (\<lambda>r. (user_row num date ue)\<lparr>um_date := um_date r\<rparr>)
       (user_row num date ue) tab"

definition aggregateUserMetrics :: "(json \<Rightarrow> rat option) \<Rightarrow> int \<Rightarrow> analytics_event list \<Rightarrow> user_metrics list \<Rightarrow> user_metrics list" where
  "aggregateUserMetrics num date table tab =
     fold (upsert_user num date) (group_events ae_userId (filter (\<lambda>e. ae_userId e \<noteq> None) (day_events date table))) tab"

record group_metrics =
  gm_groupId :: string
  gm_date :: int
  gm_memberCount :: nat
  gm_totalContributions :: nat
  gm_totalContributionAmount :: rat
  gm_totalPayoutsDistributed :: rat
  gm_successRate :: int
  gm_averageContributionSize :: rat
  gm_newMembersCount :: nat
  gm_churnCount :: nat

definition group_row :: "(json \<Rightarrow> rat option) \<Rightarrow> int \<Rightarrow> string \<times> analytics_event list \<Rightarrow> group_metrics" where
  "group_row num date ge =
     (let es = snd ge; contributions = count_transactions ''contribution'' es; amount = total_amount num ''contribution'' es
      in \<lparr>gm_groupId = fst ge, gm_date = date, gm_memberCount = unique_count (map ae_userId es), gm_totalContributions = contributions,
          gm_totalContributionAmount = amount, gm_totalPayoutsDistributed = total_amount num ''payout'' es,
          gm_successRate = (if count_events ''group_completed'' es > 0 then 100 else 0),
          gm_averageContributionSize = (if contributions > 0 then amount / rat_of_nat contributions else 0),
          gm_newMembersCount = count_events ''member_joined'' es, gm_churnCount = count_events ''member_left'' es\<rparr>)"

definition upsert_group :: "(json \<Rightarrow> rat option) \<Rightarrow> int \<Rightarrow> string \<times> analytics_event list \<Rightarrow> group_metrics list \<Rightarrow> group_metrics list" where
  "upsert_group num date ge tab =
     upsert_first (\<lambda>r. gm_groupId r = fst ge \<and> in_day date (gm_date r)) (\<lambda>r. (group_row num date ge)\<lparr>gm_date := gm_date r\<rparr>)
       (group_row num date ge) tab"

definition aggregateGroupMetrics :: "(json \<Rightarrow> rat option) \<Rightarrow> int \<Rightarrow> analytics_event list \<Rightarrow> group_metrics list \<Rightarrow> group_metrics list" where
  "aggregateGroupMetrics num date table tab =
     fold (upsert_group num date) (group_events ae_groupId (filter (\<lambda>e. ae_groupId e \<noteq> None) (day_events date table))) tab"

section \<open>The run\<close>

record metrics_db =
  md_platform :: "platform_metrics list"
  md_user :: "user_metrics list"
  md_group :: "group_metrics list"
  md_cache :: "string list"

definition yesterday :: "int \<Rightarrow> int" where
  "yesterday now = (now - MS_PER_DAY) div MS_PER_DAY * MS_PER_DAY"

definition stale_stats_key :: "string \<Rightarrow> bool" where
  "stale_stats_key k \<longleftrightarrow> list_ex (startsWith k) [''platform_stats:'', ''platform_trends:'', ''user_stats:'', ''group_stats:'']"

definition runAggregation :: "(json \<Rightarrow> rat option) \<Rightarrow> int \<Rightarrow> analytics_event list \<Rightarrow> metrics_db \<Rightarrow> metrics_db" where
  "runAggregation num now table db =
     db\<lparr>md_platform := aggregatePlatformMetrics num (yesterday now) table (md_platform db),
        md_user := aggregateUserMetrics num (yesterday now) table (md_user db),
        md_group := aggregateGroupMetrics num (yesterday now) table (md_group db),
        md_cache := filter (\<lambda>k. \<not> stale_stats_key k) (md_cache db)\<rparr>"

section \<open>Upserts\<close>

text \<open>What the three aggregations rely on: a row of a key is recognised before and after it is refreshed, and refreshing is
  settled after once.\<close>

locale keyed_upsert =
  fixes matches :: "'k \<Rightarrow> 'r \<Rightarrow> bool" and refresh :: "'k \<Rightarrow> 'r \<Rightarrow> 'r" and fresh :: "'k \<Rightarrow> 'r"
  assumes matches_fresh: "matches k (fresh k)"
    and matches_refresh: "matches k r \<Longrightarrow> matches k' (refresh k r) = matches k' r"
    and refresh_refresh: "refresh k (refresh k r) = refresh k r"
    and refresh_fresh: "refresh k (fresh k) = fresh k"
begin

definition upsert :: "'k \<Rightarrow> 'r list \<Rightarrow> 'r list" where
  "upsert k tab = upsert_first (matches k) (refresh k) (fresh k) tab"

definition settled :: "'k \<Rightarrow> 'r list \<Rightarrow> bool" where
  "settled k tab \<longleftrightarrow> (\<exists>r. List.find (matches k) tab = Some r \<and> refresh k r = r)"

definition disjoint_keys :: "'k \<Rightarrow> 'k \<Rightarrow> bool" where
  "disjoint_keys k k' \<longleftrightarrow> (\<forall>r. \<not> (matches k r \<and> matches k' r))"

lemma settled_upsert: "settled k tab \<Longrightarrow> upsert k tab = tab"
proof -
  assume "settled k tab"
  then obtain r where r: "List.find (matches k) tab = Some r" "refresh k r = r" by (auto simp: settled_def)
  then have "update_first (matches k) (refresh k) tab = tab" by (induction tab) (auto split: if_splits)
  moreover have "list_ex (matches k) tab" using find_SomeD [OF r(1)] by (auto simp: list_ex_iff)
  ultimately show ?thesis by (simp add: upsert_def upsert_first_def)
qed

lemma find_update: "list_ex (matches k) tab \<Longrightarrow> List.find (matches k) (update_first (matches k) (refresh k) tab) = map_option (refresh k) (List.find (matches k) tab)"
  using matches_refresh by (induction tab) auto

lemma find_new: "\<not> list_ex P tab \<Longrightarrow> P r \<Longrightarrow> List.find P (tab @ [r]) = Some r"
  by (induction tab) auto

lemma upsert_settles: "settled k (upsert k tab)"
proof (cases "list_ex (matches k) tab")
  case True
  then obtain r where "List.find (matches k) tab = Some r" by (cases "List.find (matches k) tab") (auto simp: find_None_iff list_ex_iff)
  then show ?thesis using True find_update [OF True] refresh_refresh by (simp add: settled_def upsert_def upsert_first_def)
next
  case False
  then show ?thesis using matches_fresh refresh_fresh by (simp add: settled_def upsert_def upsert_first_def find_new)
qed

lemma find_other:
  assumes "disjoint_keys k k'"
  shows "List.find (matches k) (update_first (matches k') (refresh k') tab) = List.find (matches k) tab"
proof (induction tab)
  case (Cons r tab)
  show ?case
  proof (cases "matches k' r")
    case True
    then have "\<not> matches k r" "\<not> matches k (refresh k' r)" using assms matches_refresh by (auto simp: disjoint_keys_def)
    then show ?thesis using True by simp
  next
    case False
    then show ?thesis using Cons by simp
  qed
qed simp

lemma find_some_append: "List.find P tab = Some r \<Longrightarrow> List.find P (tab @ tab') = Some r"
  by (induction tab) (auto split: if_splits)

lemma settled_other: "disjoint_keys k k' \<Longrightarrow> settled k tab \<Longrightarrow> settled k (upsert k' tab)"
  by (auto simp: settled_def upsert_def upsert_first_def find_other find_some_append)

lemma settled_fold:
  "(\<And>k'. k' \<in> set ks \<Longrightarrow> disjoint_keys k k') \<Longrightarrow> settled k tab \<Longrightarrow> settled k (fold upsert ks tab)"
  by (induction ks arbitrary: tab) (auto intro: settled_other)

lemma fold_settles:
  assumes "\<And>i j. i < j \<Longrightarrow> j < length ks \<Longrightarrow> disjoint_keys (ks ! i) (ks ! j)"
  shows "\<forall>k\<in>set ks. settled k (fold upsert ks tab)"
  using assms
proof (induction ks arbitrary: tab)
  case (Cons k ks)
  have d: "disjoint_keys k k'" if k': "k' \<in> set ks" for k'
  proof -
    obtain j where "j < length ks" "k' = ks ! j" using k' by (auto simp: in_set_conv_nth)
    then show ?thesis using Cons.prems [of 0 "Suc j"] by simp
  qed
  have "\<forall>x\<in>set ks. settled x (fold upsert ks (upsert k tab))"
  proof (rule Cons.IH)
    show "disjoint_keys (ks ! i) (ks ! j)" if "i < j" "j < length ks" for i j using Cons.prems [of "Suc i" "Suc j"] that by simp
  qed
  moreover have "settled k (fold upsert ks (upsert k tab))" by (rule settled_fold [OF d upsert_settles])
  ultimately show ?case by simp
qed simp

lemma fold_settled: "\<forall>k\<in>set ks. settled k tab \<Longrightarrow> fold upsert ks tab = tab"
  by (induction ks) (auto simp: settled_upsert)

lemma upsert_all_idempotent:
  assumes "\<And>i j. i < j \<Longrightarrow> j < length ks \<Longrightarrow> disjoint_keys (ks ! i) (ks ! j)"
  shows "fold upsert ks (fold upsert ks tab) = fold upsert ks tab"
  using fold_settles [OF assms] by (intro fold_settled) blast

end

interpretation users: keyed_upsert
  "\<lambda>k r. um_userId r = fst (snd (snd k)) \<and> in_day (fst (snd k)) (um_date r)"
  "\<lambda>k r. (user_row (fst k) (fst (snd k)) (snd (snd k)))\<lparr>um_date := um_date r\<rparr>" "\<lambda>k. user_row (fst k) (fst (snd k)) (snd (snd k))"
  by unfold_locales (auto simp: user_row_def Let_def in_day_def MS_PER_DAY_def)

interpretation groups: keyed_upsert
  "\<lambda>k r. gm_groupId r = fst (snd (snd k)) \<and> in_day (fst (snd k)) (gm_date r)"
  "\<lambda>k r. (group_row (fst k) (fst (snd k)) (snd (snd k)))\<lparr>gm_date := gm_date r\<rparr>" "\<lambda>k. group_row (fst k) (fst (snd k)) (snd (snd k))"
  by unfold_locales (auto simp: group_row_def Let_def in_day_def MS_PER_DAY_def)

interpretation platform: keyed_upsert
  "\<lambda>k r. in_day (fst (snd k)) (pm_date r)"
  "\<lambda>k r. (platform_row (fst k) (fst (snd k)) (snd (snd k)))\<lparr>pm_date := pm_date r\<rparr>" "\<lambda>k. platform_row (fst k) (fst (snd k)) (snd (snd k))"
  by unfold_locales (auto simp: platform_row_def Let_def in_day_def MS_PER_DAY_def)

section \<open>Events by key\<close>

definition has_key :: "(analytics_event \<Rightarrow> string option) \<Rightarrow> string \<Rightarrow> analytics_event \<Rightarrow> bool" where
  "has_key key k e \<longleftrightarrow> key e = Some k \<and> k \<noteq> []"

definition put_event :: "(analytics_event \<Rightarrow> string option) \<Rightarrow> analytics_event \<Rightarrow> (string \<times> analytics_event list) list \<Rightarrow> (string \<times> analytics_event list) list" where
  "put_event key e m = (case key e of
      Some k \<Rightarrow> if k \<noteq> [] then AList.update k (or_default (map_of m k) [] @ [e]) m else m
    | None \<Rightarrow> m)"

lemma group_events_fold: "group_events key events = fold (put_event key) events []"
  by (simp add: group_events_def put_event_def [abs_def])

lemma put_event_map: "map_of (put_event key e m) k = (if has_key key k e then Some (or_default (map_of m k) [] @ [e]) else map_of m k)"
  by (auto simp: put_event_def has_key_def update_conv' split: option.split)

lemma put_event_fold:
  "map_of (fold (put_event key) es m) k =
     (if list_ex (has_key key k) es then Some (or_default (map_of m k) [] @ filter (has_key key k) es) else map_of m k)"
proof (induction es arbitrary: m)
  case (Cons e es)
  have "\<not> list_ex (has_key key k) es \<Longrightarrow> filter (has_key key k) es = []" by (simp add: filter_empty_conv list_ex_iff)
  then show ?case using Cons by (auto simp: put_event_map)
qed simp

lemma put_event_distinct: "distinct (map fst m) \<Longrightarrow> distinct (map fst (put_event key e m))"
  by (auto simp: put_event_def distinct_update split: option.split)

lemma group_events_distinct: "distinct (map fst (group_events key es))"
proof -
  have "distinct (map fst m) \<Longrightarrow> distinct (map fst (fold (put_event key) es m))" for m
    by (induction es arbitrary: m) (auto intro: put_event_distinct)
  then show ?thesis by (simp add: group_events_fold)
qed

lemma group_events_map:
  "map_of (group_events key es) k = (if list_ex (has_key key k) es then Some (filter (has_key key k) es) else None)"
  by (simp add: group_events_fold put_event_fold)

text \<open>A count per key, added up, is the count of the events that have a key.\<close>

lemma sum_update:
  assumes "distinct (map fst m)"
  shows "sum_list (map g (AList.update k v m)) = sum_list (map g m) + g (k, v) - (case map_of m k of Some w \<Rightarrow> g (k, w) | None \<Rightarrow> (0 :: rat))"
  using assms
proof (induction m)
  case (Cons p m)
  obtain a b where p: "p = (a, b)" by (cases p)
  have "map_of m a = None" using Cons.prems p by (simp add: map_of_eq_None_iff)
  then show ?case using Cons p by auto
qed simp

lemma sum_by_key:
  fixes weight :: "analytics_event \<Rightarrow> rat"
  shows "sum_list (map (\<lambda>(k, es). sum_list (map weight es)) (group_events key es)) = sum_list (map weight (filter (\<lambda>e. truthy (key e)) es))"
proof -
  let ?g = "\<lambda>(k, es). sum_list (map weight es)"
  have "sum_list (map ?g (fold (put_event key) es m)) = sum_list (map ?g m) + sum_list (map weight (filter (\<lambda>e. truthy (key e)) es))"
    if "distinct (map fst m)" for m :: "(string \<times> analytics_event list) list"
    using that
  proof (induction es arbitrary: m)
    case (Cons e es)
    have "sum_list (map ?g (put_event key e m)) = sum_list (map ?g m) + (if truthy (key e) then weight e else 0)"
      using sum_update [OF Cons.prems, of ?g] by (auto simp: put_event_def split: option.split)
    then show ?case using Cons.IH [OF put_event_distinct [OF Cons.prems]] by simp
  qed simp
  from this [of "[]"] show ?thesis by (simp add: group_events_fold)
qed

section \<open>Properties\<close>

lemma disjoint_by_key: "distinct (map fst m) \<Longrightarrow> i < j \<Longrightarrow> j < length m \<Longrightarrow> fst (m ! i) \<noteq> fst (m ! j)"
  by (metis (no_types, lifting) distinct_conv_nth length_map less_trans nat_neq_iff nth_map)

lemma fold_map_key: "fold f (map g xs) = fold (f \<circ> g) xs"
  by (induction xs) auto

lemma users_twice:
  assumes "distinct (map fst m)"
  shows "fold users.upsert (map (\<lambda>ue. (num, d, ue)) m) (fold users.upsert (map (\<lambda>ue. (num, d, ue)) m) tab) =
    fold users.upsert (map (\<lambda>ue. (num, d, ue)) m) tab"
proof (rule users.upsert_all_idempotent)
  fix i j
  assume "i < j" "j < length (map (\<lambda>ue. (num, d, ue)) m)"
  then show "users.disjoint_keys (map (\<lambda>ue. (num, d, ue)) m ! i) (map (\<lambda>ue. (num, d, ue)) m ! j)"
    using disjoint_by_key [OF assms, of i j] by (auto simp: users.disjoint_keys_def)
qed

lemma groups_twice:
  assumes "distinct (map fst m)"
  shows "fold groups.upsert (map (\<lambda>ge. (num, d, ge)) m) (fold groups.upsert (map (\<lambda>ge. (num, d, ge)) m) tab) =
    fold groups.upsert (map (\<lambda>ge. (num, d, ge)) m) tab"
proof (rule groups.upsert_all_idempotent)
  fix i j
  assume "i < j" "j < length (map (\<lambda>ge. (num, d, ge)) m)"
  then show "groups.disjoint_keys (map (\<lambda>ge. (num, d, ge)) m ! i) (map (\<lambda>ge. (num, d, ge)) m ! j)"
    using disjoint_by_key [OF assms, of i j] by (auto simp: groups.disjoint_keys_def)
qed

text \<open>C16. Running the aggregation again on the same events changes nothing: every row of the day is found again and gets the
  values it has.\<close>

theorem aggregation_idempotent:
  "runAggregation num now table (runAggregation num now table db) = runAggregation num now table db"
proof -
  let ?d = "yesterday now"
  let ?u = "group_events ae_userId (filter (\<lambda>e. ae_userId e \<noteq> None) (day_events ?d table))"
  let ?g = "group_events ae_groupId (filter (\<lambda>e. ae_groupId e \<noteq> None) (day_events ?d table))"
  have "aggregateUserMetrics num ?d table tab = fold users.upsert (map (\<lambda>ue. (num, ?d, ue)) ?u) tab" for tab
    by (simp add: aggregateUserMetrics_def fold_map_key o_def users.upsert_def [abs_def] upsert_user_def [abs_def])
  then have u: "aggregateUserMetrics num ?d table (aggregateUserMetrics num ?d table tab) = aggregateUserMetrics num ?d table tab" for tab
    by (simp only: users_twice [OF group_events_distinct])
  have "aggregateGroupMetrics num ?d table tab = fold groups.upsert (map (\<lambda>ge. (num, ?d, ge)) ?g) tab" for tab
    by (simp add: aggregateGroupMetrics_def fold_map_key o_def groups.upsert_def [abs_def] upsert_group_def [abs_def])
  then have g: "aggregateGroupMetrics num ?d table (aggregateGroupMetrics num ?d table tab) = aggregateGroupMetrics num ?d table tab" for tab
    by (simp only: groups_twice [OF group_events_distinct])
  have "aggregatePlatformMetrics num ?d table tab = platform.upsert (num, ?d, day_events ?d table) tab" for tab
    by (simp add: aggregatePlatformMetrics_def platform.upsert_def Let_def)
  then have p: "aggregatePlatformMetrics num ?d table (aggregatePlatformMetrics num ?d table tab) = aggregatePlatformMetrics num ?d table tab" for tab
    by (simp add: platform.settled_upsert [OF platform.upsert_settles])
  show ?thesis by (simp add: runAggregation_def u g p)
qed

lemma upsert_first_new: "\<not> list_ex P tab \<Longrightarrow> upsert_first P f r tab = tab @ [r]"
  by (simp add: upsert_first_def)

lemma fresh_user_rows:
  assumes "distinct (map fst m)" "\<forall>r\<in>set tab. um_userId r \<notin> fst ` set m"
  shows "fold (upsert_user num date) m tab = tab @ map (user_row num date) m"
  using assms
proof (induction m arbitrary: tab)
  case (Cons ue m)
  have "\<not> list_ex (\<lambda>r. um_userId r = fst ue \<and> in_day date (um_date r)) tab" using Cons.prems(2) by (auto simp: list_ex_iff)
  then have "upsert_user num date ue tab = tab @ [user_row num date ue]" by (simp add: upsert_user_def upsert_first_new)
  moreover have "um_userId (user_row num date ue) = fst ue" by (simp add: user_row_def Let_def)
  ultimately show ?case using Cons.IH [of "tab @ [user_row num date ue]"] Cons.prems by auto
qed simp

lemma count_transactions_sum: "rat_of_nat (count_transactions ty es) = sum_list (map (\<lambda>e. if is_transaction ty e then 1 else 0) es)"
  by (induction es) (simp_all add: count_transactions_def)

lemma total_amount_sum: "total_amount num ty es = sum_list (map (\<lambda>e. if is_transaction ty e then eventDataAmount num (ae_eventData e) else 0) es)"
proof -
  have "foldl (\<lambda>sum e. sum + f e) s xs = s + sum_list (map f xs)" for f :: "analytics_event \<Rightarrow> rat" and s xs
    by (induction xs arbitrary: s) auto
  then have "total_amount num ty es = sum_list (map (\<lambda>e. eventDataAmount num (ae_eventData e)) (filter (is_transaction ty) es))"
    by (simp add: total_amount_def)
  also have "\<dots> = sum_list (map (\<lambda>e. if is_transaction ty e then eventDataAmount num (ae_eventData e) else 0) es)" by (induction es) auto
  finally show ?thesis .
qed

text \<open>On a day whose events all have a user, the contributions of the users, in number and in amount, add up to those of the
  platform.\<close>

theorem user_rows_add_up:
  assumes "\<forall>e\<in>set (day_events date table). truthy (ae_userId e)"
  shows "sum_list (map (rat_of_nat \<circ> um_totalContributions) (aggregateUserMetrics num date table [])) =
      rat_of_nat (pm_totalContributions (platform_row num date (day_events date table)))"
    and "sum_list (map um_totalContributionAmount (aggregateUserMetrics num date table [])) =
      pm_totalContributionAmount (platform_row num date (day_events date table))"
proof -
  let ?es = "filter (\<lambda>e. ae_userId e \<noteq> None) (day_events date table)"
  have rows: "aggregateUserMetrics num date table [] = map (user_row num date) (group_events ae_userId ?es)"
    unfolding aggregateUserMetrics_def using fresh_user_rows [OF group_events_distinct, of "[]"] by simp
  have all: "?es = day_events date table" "filter (\<lambda>e. truthy (ae_userId e)) (day_events date table) = day_events date table"
    using assms by (auto intro!: filter_True elim: truthy.elims)
  let ?w = "\<lambda>e. if is_transaction ''contribution'' e then 1 else 0 :: rat"
  have "sum_list (map (\<lambda>(k, es). sum_list (map ?w es)) (group_events ae_userId ?es)) = sum_list (map ?w (day_events date table))"
    using sum_by_key [of ?w ae_userId ?es] by (simp only: all)
  then show "sum_list (map (rat_of_nat \<circ> um_totalContributions) (aggregateUserMetrics num date table [])) =
      rat_of_nat (pm_totalContributions (platform_row num date (day_events date table)))"
    by (simp add: rows o_def user_row_def platform_row_def Let_def count_transactions_sum case_prod_unfold)
  let ?v = "\<lambda>e. if is_transaction ''contribution'' e then eventDataAmount num (ae_eventData e) else 0"
  have "sum_list (map (\<lambda>(k, es). sum_list (map ?v es)) (group_events ae_userId ?es)) = sum_list (map ?v (day_events date table))"
    using sum_by_key [of ?v ae_userId ?es] by (simp only: all)
  then show "sum_list (map um_totalContributionAmount (aggregateUserMetrics num date table [])) =
      pm_totalContributionAmount (platform_row num date (day_events date table))"
    by (simp add: rows o_def user_row_def platform_row_def Let_def total_amount_sum case_prod_unfold)
qed

text \<open>The success rate of a day compares groups completed with groups created on that day and can exceed a hundred per
  cent, which the schema gives as its bound.\<close>

theorem success_rate_unbounded:
  "pm_successRate (platform_row num d
     [e\<lparr>ae_eventType := ''group_created''\<rparr>, e\<lparr>ae_eventType := ''group_completed''\<rparr>, e\<lparr>ae_eventType := ''group_completed''\<rparr>]) = 200"
  by (simp add: platform_row_def count_events_def Let_def)

text \<open>The day that is aggregated is the one before the current day, whole and over.\<close>

theorem yesterday_complete:
  "yesterday now + MS_PER_DAY \<le> now" "now < yesterday now + 2 * MS_PER_DAY" "yesterday now mod MS_PER_DAY = 0"
proof -
  have "now - MS_PER_DAY = (now - MS_PER_DAY) div MS_PER_DAY * MS_PER_DAY + (now - MS_PER_DAY) mod MS_PER_DAY" by (rule div_mult_mod_eq [symmetric])
  moreover have "0 \<le> (now - MS_PER_DAY) mod MS_PER_DAY" "(now - MS_PER_DAY) mod MS_PER_DAY < MS_PER_DAY" by (simp_all add: MS_PER_DAY_def)
  ultimately show "yesterday now + MS_PER_DAY \<le> now" "now < yesterday now + 2 * MS_PER_DAY" unfolding yesterday_def by linarith+
  show "yesterday now mod MS_PER_DAY = 0" by (simp add: yesterday_def)
qed

end
