(* ===== verification/Keeper.thy ===== *)
theory Keeper
  imports Js_Values Errors
begin

text \<open>
  The keeper, which executes the payouts of groups whose cycle is complete, \<open>backend/src/jobs/handlers/keeper.handler.ts\<close>: the
  groups that are due according to the indexed events, and the batch with its retries. The tables of events and the contract
  call are arguments; the call fails or succeeds for the whole batch.
\<close>

definition KEEPER_MAX_RETRIES :: nat where "KEEPER_MAX_RETRIES = 3"

record DueGroup =
  dg_groupId :: string
  dg_cycleNumber :: "int option"
  dg_memberCount :: nat

section \<open>Groups that are due\<close>

definition keeper_group :: "json \<Rightarrow> json option" where
  "keeper_group data = first_field data [''group_id'', ''groupId'']"

definition keeper_cycle :: "json \<Rightarrow> json" where
  "keeper_cycle data = or_default (first_field data [''cycle_number'', ''cycleNumber'']) (JStr ''0'')"

definition keeper_member :: "json \<Rightarrow> json" where
  "keeper_member data = or_default (first_field data [''member'', ''address'']) (JStr ''unknown'')"

text \<open>\<open>`${groupId}:${cycleNumber}`\<close>, or nothing for an event without a group.\<close>

definition event_key :: "(rat \<Rightarrow> string) \<Rightarrow> json \<Rightarrow> string option" where
  "event_key fmt data =
     (case keeper_group data of
        Some g \<Rightarrow> if json_truthy g then Some (js_String fmt g @ '':'' @ js_String fmt (keeper_cycle data)) else None
      | None \<Rightarrow> None)"

definition add_member :: "json \<Rightarrow> json list \<Rightarrow> json list" where
  "add_member m ms = (if m \<in> set ms then ms else ms @ [m])"

definition add_contribution :: "(rat \<Rightarrow> string) \<Rightarrow> json \<Rightarrow> (string \<times> json list) list \<Rightarrow> (string \<times> json list) list" where
  "add_contribution fmt data cycleMap =
     (case event_key fmt data of
        None \<Rightarrow> cycleMap
      | Some key \<Rightarrow> AList.update key (add_member (keeper_member data) (or_default (map_of cycleMap key) [])) cycleMap)"

definition cycle_map :: "(rat \<Rightarrow> string) \<Rightarrow> json list \<Rightarrow> (string \<times> json list) list" where
  "cycle_map fmt contributions = fold (add_contribution fmt) contributions []"

definition paid_keys :: "(rat \<Rightarrow> string) \<Rightarrow> json list \<Rightarrow> string list" where
  "paid_keys fmt payouts = List.map_filter (event_key fmt) payouts"

text \<open>\<open>const [groupId, cycleStr] = key.split(':')\<close>; a key always has a colon.\<close>

definition due_of_key :: "string \<Rightarrow> json list \<Rightarrow> DueGroup" where
  "due_of_key key members =
     (let parts = split_on CHR '':'' key
      in \<lparr>dg_groupId = hd parts, dg_cycleNumber = parseInt (hd (tl parts)), dg_memberCount = length members\<rparr>)"

definition findDueGroups :: "(rat \<Rightarrow> string) \<Rightarrow> json list \<Rightarrow> json list \<Rightarrow> DueGroup list" where
  "findDueGroups fmt contributions payouts =
     map (\<lambda>(key, members). due_of_key key members)
       (filter (\<lambda>(key, members). key \<notin> set (paid_keys fmt payouts) \<and> length members \<ge> 2) (cycle_map fmt contributions))"

section \<open>The run\<close>

record keeper =
  kp_retryMap :: "string \<rightharpoonup> nat"
  kp_success :: nat
  kp_failure :: nat
  kp_deadLettered :: nat

definition due_key :: "DueGroup \<Rightarrow> string" where
  "due_key g = dg_groupId g @ '':'' @ (case dg_cycleNumber g of Some n \<Rightarrow> string_of_int n | None \<Rightarrow> ''NaN'')"

definition retries :: "keeper \<Rightarrow> string \<Rightarrow> nat" where
  "retries k key = or_default (kp_retryMap k key) 0"

definition actionable :: "keeper \<Rightarrow> DueGroup list \<Rightarrow> DueGroup list" where
  "actionable k due = filter (\<lambda>g. retries k (due_key g) < KEEPER_MAX_RETRIES) due"

definition record_failure :: "DueGroup \<Rightarrow> keeper \<Rightarrow> keeper" where
  "record_failure g k =
     (let n = retries k (due_key g) + 1; k1 = k\<lparr>kp_retryMap := (kp_retryMap k)(due_key g \<mapsto> n)\<rparr>
      in if n \<ge> KEEPER_MAX_RETRIES then k1\<lparr>kp_deadLettered := kp_deadLettered k1 + 1\<rparr> else k1)"

definition clear_retry :: "DueGroup \<Rightarrow> keeper \<Rightarrow> keeper" where
  "clear_retry g k = k\<lparr>kp_retryMap := (kp_retryMap k)(due_key g := None)\<rparr>"

text \<open>The second component is the batch that was handed to the contract, if any.\<close>

definition keeper_execute ::
  "(rat \<Rightarrow> string) \<Rightarrow> (string list \<Rightarrow> thrown option) \<Rightarrow> json list \<Rightarrow> json list \<Rightarrow> keeper \<Rightarrow> keeper \<times> string list option" where
  "keeper_execute fmt executePayoutsBatch contributions payouts k =
     (let batch = actionable k (findDueGroups fmt contributions payouts); groupIds = map dg_groupId batch
      in if batch = [] then (k, None)
         else case executePayoutsBatch groupIds of
                None \<Rightarrow> (fold clear_retry batch (k\<lparr>kp_success := kp_success k + length groupIds\<rparr>), Some groupIds)
              | Some e \<Rightarrow> (fold record_failure batch (k\<lparr>kp_failure := kp_failure k + length groupIds\<rparr>), Some groupIds))"

section \<open>Lemmas\<close>

lemma add_member_set [simp]: "set (add_member m ms) = insert m (set ms)"
  by (auto simp: add_member_def)

lemma add_member_distinct: "distinct ms \<Longrightarrow> distinct (add_member m ms)"
  by (simp add: add_member_def)

text \<open>The members of a cycle are the distinct members of its contributions.\<close>

definition contributors :: "(rat \<Rightarrow> string) \<Rightarrow> string \<Rightarrow> json list \<Rightarrow> json set" where
  "contributors fmt key contributions = keeper_member ` {d \<in> set contributions. event_key fmt d = Some key}"

definition map_ok :: "(rat \<Rightarrow> string) \<Rightarrow> json list \<Rightarrow> (string \<times> json list) list \<Rightarrow> bool" where
  "map_ok fmt ds m \<longleftrightarrow> distinct (map fst m) \<and>
     (\<forall>key. case map_of m key of
              Some ms \<Rightarrow> distinct ms \<and> set ms = contributors fmt key ds \<and> ms \<noteq> []
            | None \<Rightarrow> contributors fmt key ds = {})"

lemma contributors_snoc:
  "contributors fmt key (ds @ [d]) = (if event_key fmt d = Some key then insert (keeper_member d) (contributors fmt key ds) else contributors fmt key ds)"
  by (auto simp: contributors_def)

lemma add_contribution_ok: "map_ok fmt ds m \<Longrightarrow> map_ok fmt (ds @ [d]) (add_contribution fmt d m)"
proof (cases "event_key fmt d")
  case None
  then show "map_ok fmt ds m \<Longrightarrow> ?thesis" by (simp add: map_ok_def add_contribution_def contributors_snoc cong: option.case_cong)
next
  case (Some key)
  assume ok: "map_ok fmt ds m"
  let ?v = "add_member (keeper_member d) (or_default (map_of m key) [])"
  have v: "distinct ?v \<and> set ?v = insert (keeper_member d) (contributors fmt key ds)"
    using ok [unfolded map_ok_def, THEN conjunct2, THEN spec, of key] by (auto simp: add_member_distinct split: option.splits)
  have "?v \<noteq> []" by (auto simp: add_member_def)
  then show ?thesis
    using ok Some v by (auto simp: map_ok_def add_contribution_def contributors_snoc update_conv' distinct_update cong: option.case_cong)
qed

lemma cycle_map_ok: "map_ok fmt ds (cycle_map fmt ds)"
proof (induction ds rule: rev_induct)
  case Nil
  then show ?case by (simp add: cycle_map_def map_ok_def contributors_def)
next
  case (snoc d ds)
  then show ?case using add_contribution_ok by (simp add: cycle_map_def)
qed

lemma cycle_map_mem:
  "(key, ms) \<in> set (cycle_map fmt ds) \<Longrightarrow> distinct ms \<and> set ms = contributors fmt key ds"
  "contributors fmt key ds \<noteq> {} \<Longrightarrow> \<exists>ms. (key, ms) \<in> set (cycle_map fmt ds)"
proof -
  have ok: "map_ok fmt ds (cycle_map fmt ds)" by (rule cycle_map_ok)
  show "distinct ms \<and> set ms = contributors fmt key ds" if "(key, ms) \<in> set (cycle_map fmt ds)"
  proof -
    have "map_of (cycle_map fmt ds) key = Some ms" using ok that by (simp add: map_ok_def map_of_is_SomeI)
    then show ?thesis using ok [unfolded map_ok_def, THEN conjunct2, THEN spec, of key] by simp
  qed
  show "\<exists>ms. (key, ms) \<in> set (cycle_map fmt ds)" if some: "contributors fmt key ds \<noteq> {}"
  proof -
    obtain ms where "map_of (cycle_map fmt ds) key = Some ms"
      using ok [unfolded map_ok_def, THEN conjunct2, THEN spec, of key] some by (cases "map_of (cycle_map fmt ds) key") simp_all
    then show ?thesis by (meson map_of_SomeD)
  qed
qed

section \<open>What is due\<close>

text \<open>A cycle is due exactly when no payout of it is recorded and at least two different members have contributed; how
  many members the group has plays no part.\<close>

theorem due_exact:
  "g \<in> set (findDueGroups fmt contributions payouts) \<longleftrightarrow>
     (\<exists>key ms. g = due_of_key key ms \<and> distinct ms \<and> set ms = contributors fmt key contributions \<and> length ms \<ge> 2 \<and>
        (\<forall>p\<in>set payouts. event_key fmt p \<noteq> Some key) \<and> (key, ms) \<in> set (cycle_map fmt contributions))"
proof -
  have "key \<in> set (paid_keys fmt payouts) \<longleftrightarrow> (\<exists>p\<in>set payouts. event_key fmt p = Some key)" for key
    by (force simp: paid_keys_def List.map_filter_def)
  then show ?thesis using cycle_map_mem(1) by (fastforce simp: findDueGroups_def)
qed

lemma colon_free_number: "CHR '':'' \<notin> set (string_of_int i)"
proof -
  have "\<not> is_digit CHR '':''" by (simp add: is_digit_def)
  then show ?thesis using string_of_nat_digits by (auto simp: string_of_int_def)
qed

text \<open>A contribution as the indexer records it, with a group id that has no colon, is read back as it was.\<close>

lemma due_of_plain_key:
  assumes "CHR '':'' \<notin> set g"
  shows "due_of_key (g @ '':'' @ string_of_int c) ms = \<lparr>dg_groupId = g, dg_cycleNumber = Some c, dg_memberCount = length ms\<rparr>"
    and "due_key (due_of_key (g @ '':'' @ string_of_int c) ms) = g @ '':'' @ string_of_int c"
proof -
  have "split_on CHR '':'' (g @ '':'' @ string_of_int c) = [g, string_of_int c]"
    using split_on_word_append [OF assms, of "string_of_int c"] by (simp add: split_on_no_sep colon_free_number)
  then show "due_of_key (g @ '':'' @ string_of_int c) ms = \<lparr>dg_groupId = g, dg_cycleNumber = Some c, dg_memberCount = length ms\<rparr>"
    by (simp add: due_of_key_def parseInt_string_of_int)
  then show "due_key (due_of_key (g @ '':'' @ string_of_int c) ms) = g @ '':'' @ string_of_int c" by (simp add: due_key_def)
qed

text \<open>A group whose id has a colon is never paid under its own id: what is handed to the contract is the part before the
  colon.\<close>

theorem colon_group_misread:
  assumes "CHR '':'' \<notin> set a"
  shows "dg_groupId (due_of_key ((a @ '':'' @ b) @ '':'' @ c) ms) = a"
  using split_on_word_append [OF assms, of "b @ '':'' @ c"] by (simp add: due_of_key_def)

section \<open>Batches and retries\<close>

lemma retries_record: "retries (record_failure g k) key = (if key = due_key g then retries k key + 1 else retries k key)"
  by (simp add: record_failure_def retries_def Let_def)

lemma retries_fold_record:
  "distinct (map due_key gs) \<Longrightarrow> retries (fold record_failure gs k) key = retries k key + (if key \<in> due_key ` set gs then 1 else 0)"
  by (induction gs arbitrary: k) (auto simp: retries_record)

lemma retries_fold_clear: "retries (fold clear_retry gs k) key = (if key \<in> due_key ` set gs then 0 else retries k key)"
  by (induction gs arbitrary: k) (auto simp: clear_retry_def retries_def)

text \<open>Every group of the batch is due and has failed less than three times.\<close>

lemma batch_sound:
  "snd (keeper_execute fmt call contributions payouts k) = Some ids \<Longrightarrow>
     ids = map dg_groupId (actionable k (findDueGroups fmt contributions payouts))"
  by (auto simp: keeper_execute_def Let_def split: if_splits option.splits)

lemma dead_letter_keeps:
  assumes "\<not> retries k key < KEEPER_MAX_RETRIES"
  shows "retries (fst (keeper_execute fmt call contributions payouts k)) key = retries k key"
proof -
  have key: "key \<notin> due_key ` set (actionable k due)" for due using assms by (auto simp: actionable_def)
  have other: "retries (fold record_failure gs k') key = retries k' key" if "key \<notin> due_key ` set gs" for gs k'
    using that by (induction gs arbitrary: k') (auto simp: retries_record)
  have "retries (k\<lparr>kp_success := n\<rparr>) key = retries k key" "retries (k\<lparr>kp_failure := n\<rparr>) key = retries k key" for n by (simp_all add: retries_def)
  then show ?thesis using key by (auto simp: keeper_execute_def Let_def retries_fold_clear other split: option.split)
qed

text \<open>A group that failed three times is not tried again by any later run, whatever the outcome of the runs and even when
  the cause is gone; only a restart of the process clears the count.\<close>

theorem dead_letter_is_final:
  assumes "retries k key \<ge> KEEPER_MAX_RETRIES"
  shows "retries (fst (keeper_execute fmt call contributions payouts k)) key = retries k key"
    and "\<forall>g\<in>set (actionable k due). due_key g \<noteq> key"
  using dead_letter_keeps assms by (auto simp: actionable_def)

text \<open>The batch stands and falls as a whole: when the call fails because of one group, the count of every group of the batch goes
  up, and after three such runs all of them are given up.\<close>

theorem poison_group_dead_letters_all:
  assumes "\<And>ids. ids \<noteq> [] \<Longrightarrow> call ids \<noteq> None" and "distinct (map due_key (findDueGroups fmt contributions payouts))"
    and "g \<in> set (findDueGroups fmt contributions payouts)"
  shows "retries k (due_key g) < KEEPER_MAX_RETRIES \<Longrightarrow>
      retries (fst (keeper_execute fmt call contributions payouts k)) (due_key g) = retries k (due_key g) + 1"
    and "KEEPER_MAX_RETRIES \<le> retries (((\<lambda>k. fst (keeper_execute fmt call contributions payouts k)) ^^ 3) k) (due_key g)"
proof -
  let ?run = "\<lambda>k. fst (keeper_execute fmt call contributions payouts k)"
  have step: "retries (?run k) (due_key g) = retries k (due_key g) + 1" if r: "retries k (due_key g) < KEEPER_MAX_RETRIES" for k
  proof -
    let ?b = "actionable k (findDueGroups fmt contributions payouts)"
    have g: "g \<in> set ?b" using assms(3) r by (simp add: actionable_def)
    then obtain e where "call (map dg_groupId ?b) = Some e" using assms(1) [of "map dg_groupId ?b"] by (cases ?b) auto
    then have "?run k = fold record_failure ?b (k\<lparr>kp_failure := kp_failure k + length (map dg_groupId ?b)\<rparr>)"
      using g by (auto simp: keeper_execute_def Let_def)
    moreover have "distinct (map due_key ?b)" using assms(2) by (simp add: actionable_def distinct_map_filter)
    moreover have "retries (k\<lparr>kp_failure := n\<rparr>) key = retries k key" for n key by (simp add: retries_def)
    ultimately show ?thesis using g by (simp add: retries_fold_record)
  qed
  then show "retries k (due_key g) < KEEPER_MAX_RETRIES \<Longrightarrow> retries (?run k) (due_key g) = retries k (due_key g) + 1" by blast
  have grow: "min KEEPER_MAX_RETRIES (n + retries k (due_key g)) \<le> retries ((?run ^^ n) k) (due_key g)" for n
  proof (induction n)
    case (Suc n)
    let ?k = "(?run ^^ n) k"
    show ?case
    proof (cases "retries ?k (due_key g) < KEEPER_MAX_RETRIES")
      case True
      then show ?thesis using Suc step [OF True] by simp
    next
      case False
      then show ?thesis using dead_letter_keeps [of ?k "due_key g" fmt call contributions payouts] by simp
    qed
  qed simp
  from grow [of 3] show "KEEPER_MAX_RETRIES \<le> retries ((?run ^^ 3) k) (due_key g)" by (simp add: KEEPER_MAX_RETRIES_def)
qed

text \<open>A cycle with a recorded payout is in no batch. Until the payout is indexed, however, a second run hands the same groups
  to the contract again.\<close>

theorem unindexed_payout_repeated:
  assumes "keeper_execute fmt call contributions payouts k = (k', Some ids)" "call ids = None"
  shows "snd (keeper_execute fmt call contributions payouts k') = Some ids"
proof -
  let ?due = "findDueGroups fmt contributions payouts"
  have ids: "ids = map dg_groupId (actionable k ?due)" using batch_sound [of fmt call contributions payouts k ids] assms(1) by simp
  have k': "k' = fold clear_retry (actionable k ?due) (k\<lparr>kp_success := kp_success k + length ids\<rparr>)" and ne: "actionable k ?due \<noteq> []"
    using assms ids by (auto simp: keeper_execute_def Let_def split: if_splits option.splits)
  have r: "retries (k\<lparr>kp_success := n\<rparr>) key = retries k key" for n key by (simp add: retries_def)
  have "actionable k' ?due = actionable k ?due"
    unfolding actionable_def by (rule filter_cong) (auto simp: k' retries_fold_clear r actionable_def KEEPER_MAX_RETRIES_def)
  then show ?thesis using assms(2) ids ne by (simp add: keeper_execute_def Let_def)
qed

end
