(* ===== verification/Governance.thy ===== *)
theory Governance
  imports Js_Values Errors
begin

text \<open>
  Governance proposals, \<open>backend/src/routes/governance.ts\<close>: the store of proposals, the list of governors and the handlers.
  Dates are milliseconds; the text of the environment variable, the clock and the bodies of requests are arguments. The
  routes are mounted without any check of who sends a request.
\<close>

datatype ProposalStatus = Active | Passed | Rejected | Executed | Expired

record Vote =
  gv_voter :: string
  gv_support :: bool
  gv_votedAt :: int

record Proposal =
  gp_id :: string
  gp_title :: string
  gp_description :: string
  gp_proposer :: string
  gp_status :: ProposalStatus
  gp_votesFor :: nat
  gp_votesAgainst :: nat
  gp_votes :: "Vote list"
  gp_votingEndsAt :: int
  gp_timelockEndsAt :: "int option"
  gp_createdAt :: int
  gp_executedAt :: "int option"

type_synonym proposals = "(string \<times> Proposal) list"

section \<open>Seeds and governors\<close>

definition seed_proposals :: "int \<Rightarrow> proposals" where
  "seed_proposals now =
     [(''prop-001'',
       \<lparr>gp_id = ''prop-001'', gp_title = ''Increase max group size to 30'',
        gp_description = ''Raise the protocol-level MAX_MEMBERS constant from 20 to 30 to allow larger community circles.'',
        gp_proposer = ''GABC1234567890ABCDEF'', gp_status = Active, gp_votesFor = 3, gp_votesAgainst = 1, gp_votes = [],
        gp_votingEndsAt = now + 2 * 24 * 60 * 60 * 1000, gp_timelockEndsAt = None, gp_createdAt = now - 12 * 60 * 60 * 1000, gp_executedAt = None\<rparr>),
      (''prop-002'',
       \<lparr>gp_id = ''prop-002'', gp_title = ''Lower minimum contribution to 0.05 XLM'',
        gp_description = ''Reduce the minimum contribution floor so that low-income communities can participate.'',
        gp_proposer = ''GDEF0987654321FEDCBA'', gp_status = Passed, gp_votesFor = 5, gp_votesAgainst = 2, gp_votes = [],
        gp_votingEndsAt = now - 24 * 60 * 60 * 1000, gp_timelockEndsAt = Some (now + 48 * 60 * 60 * 1000),
        gp_createdAt = now - 5 * 24 * 60 * 60 * 1000, gp_executedAt = None\<rparr>),
      (''prop-003'',
       \<lparr>gp_id = ''prop-003'', gp_title = ''Enable insurance pool by default'',
        gp_description = ''All new groups should opt-in to the insurance pool automatically. Group creators can still disable it.'',
        gp_proposer = ''GABC1234567890ABCDEF'', gp_status = Executed, gp_votesFor = 7, gp_votesAgainst = 1, gp_votes = [],
        gp_votingEndsAt = now - 10 * 24 * 60 * 60 * 1000, gp_timelockEndsAt = None,
        gp_createdAt = now - 15 * 24 * 60 * 60 * 1000, gp_executedAt = Some (now - 8 * 24 * 60 * 60 * 1000)\<rparr>)]"

definition getGovernors :: "string option \<Rightarrow> string list" where
  "getGovernors env =
     js_set (filter (\<lambda>a. a \<noteq> []) (map trim (split_on CHR '','' (or_default env []))) @ [''GABC1234567890ABCDEF'', ''GDEF0987654321FEDCBA''])"

definition isGovernor :: "string option \<Rightarrow> string \<Rightarrow> bool" where
  "isGovernor env address \<longleftrightarrow> address \<in> set (getGovernors env)"

section \<open>Handlers\<close>

definition list_proposals :: "proposals \<Rightarrow> Proposal list" where
  "list_proposals ps = sort_key (\<lambda>p. - gp_createdAt p) (map snd ps)"

definition get_proposal :: "string \<Rightarrow> proposals \<Rightarrow> thrown + Proposal" where
  "get_proposal i ps =
     (case map_of ps i of
        None \<Rightarrow> Inl (AppError ''AppError'' ''PROPOSAL_NOT_FOUND'' ''Proposal not found'' 404 None) | Some p \<Rightarrow> Inr p)"

definition proposal_id :: "int \<Rightarrow> string" where
  "proposal_id now = ''prop-'' @ string_of_int now"

definition new_proposal :: "int \<Rightarrow> string \<Rightarrow> string \<Rightarrow> string \<Rightarrow> Proposal" where
  "new_proposal now title description proposer =
     \<lparr>gp_id = proposal_id now, gp_title = title, gp_description = description, gp_proposer = proposer, gp_status = Active,
      gp_votesFor = 0, gp_votesAgainst = 0, gp_votes = [], gp_votingEndsAt = now + 7 * 24 * 60 * 60 * 1000, gp_timelockEndsAt = None,
      gp_createdAt = now, gp_executedAt = None\<rparr>"

definition create_proposal ::
  "string option \<Rightarrow> int \<Rightarrow> string option \<Rightarrow> string option \<Rightarrow> string option \<Rightarrow> proposals \<Rightarrow> proposals \<times> (thrown + Proposal)" where
  "create_proposal env now title description proposer ps =
     (if \<not> truthy title \<or> \<not> truthy description \<or> \<not> truthy proposer
      then (ps, Inl (AppError ''AppError'' ''MISSING_FIELDS'' ''title, description, and proposer are required.'' 400 None))
      else if \<not> isGovernor env (the proposer)
      then (ps, Inl (AppError ''AppError'' ''NOT_A_GOVERNOR'' ''Only governors may create proposals.'' 403 None))
      else let p = new_proposal now (the title) (the description) (the proposer) in (AList.update (gp_id p) p ps, Inr p))"

definition proposal_status_name :: "ProposalStatus \<Rightarrow> string" where
  "proposal_status_name s = (case s of Active \<Rightarrow> ''active'' | Passed \<Rightarrow> ''passed'' | Rejected \<Rightarrow> ''rejected'' | Executed \<Rightarrow> ''executed'' | Expired \<Rightarrow> ''expired'')"

text \<open>A counted vote, and the simple majority of at least three votes.\<close>

definition count_vote :: "int \<Rightarrow> string \<Rightarrow> bool \<Rightarrow> Proposal \<Rightarrow> Proposal" where
  "count_vote now voter support p =
     (let p1 = p\<lparr>gp_votes := gp_votes p @ [\<lparr>gv_voter = voter, gv_support = support, gv_votedAt = now\<rparr>],
                 gp_votesFor := (if support then gp_votesFor p + 1 else gp_votesFor p),
                 gp_votesAgainst := (if support then gp_votesAgainst p else gp_votesAgainst p + 1)\<rparr>
      in if gp_votesFor p1 > gp_votesAgainst p1 \<and> length (gp_votes p1) \<ge> 3
         then p1\<lparr>gp_status := Passed, gp_timelockEndsAt := Some (now + 48 * 60 * 60 * 1000)\<rparr> else p1)"

definition vote ::
  "string option \<Rightarrow> int \<Rightarrow> string \<Rightarrow> string option \<Rightarrow> json option \<Rightarrow> proposals \<Rightarrow> proposals \<times> (thrown + Proposal)" where
  "vote env now i voter support ps =
     (case get_proposal i ps of
        Inl e \<Rightarrow> (ps, Inl e)
      | Inr p \<Rightarrow>
          (case (voter, support) of
             (Some v, Some (JBool s)) \<Rightarrow>
               if v = [] then (ps, Inl (AppError ''AppError'' ''MISSING_FIELDS'' ''voter and support (boolean) are required.'' 400 None))
               else if \<not> isGovernor env v then (ps, Inl (AppError ''AppError'' ''NOT_A_GOVERNOR'' ''Only governors may vote.'' 403 None))
               else if gp_status p \<noteq> Active
               then (ps, Inl (AppError ''AppError'' ''VOTING_CLOSED'' (''Voting is closed (status: '' @ proposal_status_name (gp_status p) @ '').'') 400 None))
               else if now > gp_votingEndsAt p
               then (AList.update (gp_id p) (p\<lparr>gp_status := Expired\<rparr>) ps,
                     Inl (AppError ''AppError'' ''VOTING_PERIOD_ENDED'' ''Voting period has ended.'' 400 None))
               else if v \<in> gv_voter ` set (gp_votes p)
               then (ps, Inl (AppError ''AppError'' ''ALREADY_VOTED'' ''You have already voted on this proposal.'' 409 None))
               else (AList.update (gp_id p) (count_vote now v s p) ps, Inr (count_vote now v s p))
           | _ \<Rightarrow> (ps, Inl (AppError ''AppError'' ''MISSING_FIELDS'' ''voter and support (boolean) are required.'' 400 None))))"

section \<open>Invariant\<close>

inductive gov_step :: "proposals \<Rightarrow> proposals \<Rightarrow> bool" where
  gov_create: "gov_step ps (fst (create_proposal env now title description proposer ps))"
| gov_vote: "gov_step ps (fst (vote env now i voter support ps))"

text \<open>The votes that a seed proposal comes with have no record.\<close>

definition base_votes :: "string \<Rightarrow> nat \<times> nat" where
  "base_votes i = (if i = ''prop-001'' then (3, 1) else if i = ''prop-002'' then (5, 2) else if i = ''prop-003'' then (7, 1) else (0, 0))"

definition votes_with :: "bool \<Rightarrow> Proposal \<Rightarrow> nat" where
  "votes_with s p = length (filter (\<lambda>v. gv_support v = s) (gp_votes p))"

definition seeded :: "string \<Rightarrow> bool" where
  "seeded i \<longleftrightarrow> i \<in> {''prop-001'', ''prop-002'', ''prop-003''}"

definition proposal_ok :: "Proposal \<Rightarrow> bool" where
  "proposal_ok p \<longleftrightarrow>
     distinct (map gv_voter (gp_votes p)) \<and> gp_votesFor p = fst (base_votes (gp_id p)) + votes_with True p \<and>
     gp_votesAgainst p = snd (base_votes (gp_id p)) + votes_with False p \<and> gp_status p \<noteq> Rejected \<and>
     (\<not> seeded (gp_id p) \<longrightarrow>
        gp_status p \<noteq> Executed \<and>
        (gp_status p = Passed \<longrightarrow> 3 \<le> length (gp_votes p) \<and> gp_votesAgainst p < gp_votesFor p \<and> gp_timelockEndsAt p \<noteq> None) \<and>
        (gp_status p = Active \<longrightarrow> length (gp_votes p) < 3 \<or> gp_votesFor p \<le> gp_votesAgainst p))"

definition gov_ok :: "proposals \<Rightarrow> bool" where
  "gov_ok ps \<longleftrightarrow> distinct (map fst ps) \<and> (\<forall>i p. map_of ps i = Some p \<longrightarrow> gp_id p = i \<and> proposal_ok p)"

lemma number_not_padded: "\<not> seeded (proposal_id now)"
proof
  assume "seeded (proposal_id now)"
  then have "string_of_int now \<in> {''001'', ''002'', ''003''}" by (auto simp: seeded_def proposal_id_def)
  then have "parseInt (string_of_int now) \<in> {parseInt ''001'', parseInt ''002'', parseInt ''003''}" by auto
  moreover have "parseInt ''001'' = Some 1" "parseInt ''002'' = Some 2" "parseInt ''003'' = Some 3"
    by code_simp+
  ultimately have "now \<in> {1, 2, 3}" by (auto simp: parseInt_string_of_int)
  moreover have "string_of_int 1 = ''1''" "string_of_int 2 = ''2''" "string_of_int 3 = ''3''" by code_simp+
  ultimately show False using \<open>string_of_int now \<in> {''001'', ''002'', ''003''}\<close> by auto
qed

lemma gov_ok_update:
  assumes "gov_ok ps" "proposal_ok p"
  shows "gov_ok (AList.update (gp_id p) p ps)"
  using assms by (auto simp: gov_ok_def distinct_update update_conv' split: if_splits)

lemma seed_ok: "gov_ok (seed_proposals now)"
  by (auto simp: gov_ok_def seed_proposals_def proposal_ok_def votes_with_def base_votes_def seeded_def split: if_splits)

lemma new_proposal_ok: "proposal_ok (new_proposal now t d p)"
proof -
  have "base_votes (proposal_id now) = (0, 0)" using number_not_padded [of now] by (simp add: base_votes_def seeded_def)
  then show ?thesis by (simp add: proposal_ok_def new_proposal_def votes_with_def)
qed

lemma count_vote_ok:
  assumes "proposal_ok p" "gp_status p = Active" "v \<notin> gv_voter ` set (gp_votes p)"
  shows "proposal_ok (count_vote now v s p)"
  using assms by (auto simp: proposal_ok_def count_vote_def votes_with_def Let_def)

lemma count_vote_id [simp]: "gp_id (count_vote now v s p) = gp_id p"
  by (simp add: count_vote_def Let_def)

lemma create_ok: "gov_ok ps \<Longrightarrow> gov_ok (fst (create_proposal env now t d p ps))"
  using gov_ok_update [OF _ new_proposal_ok, of ps now "the t" "the d" "the p"] by (simp add: create_proposal_def Let_def)

lemma vote_ok: "gov_ok ps \<Longrightarrow> gov_ok (fst (vote env now i voter support ps))"
proof -
  assume ok: "gov_ok ps"
  show ?thesis
  proof (cases "map_of ps i")
    case None
    then show ?thesis using ok by (simp add: vote_def get_proposal_def)
  next
    case (Some p)
    then have p: "proposal_ok p" using ok by (simp add: gov_ok_def)
    have "proposal_ok (p\<lparr>gp_status := Expired\<rparr>)" using p by (simp add: proposal_ok_def votes_with_def)
    then have e: "gov_ok (AList.update (gp_id p) (p\<lparr>gp_status := Expired\<rparr>) ps)" using gov_ok_update [OF ok, of "p\<lparr>gp_status := Expired\<rparr>"] by simp
    have c: "gov_ok (AList.update (gp_id p) (count_vote now v s p) ps)" if "gp_status p = Active" "v \<notin> gv_voter ` set (gp_votes p)" for v s
      using gov_ok_update [OF ok count_vote_ok [OF p that]] by simp
    show ?thesis using Some ok e c by (auto simp: vote_def get_proposal_def split: option.split json.split)
  qed
qed

lemma gov_reachable_ok: "gov_step\<^sup>*\<^sup>* (seed_proposals now) ps \<Longrightarrow> gov_ok ps"
  by (induction rule: rtranclp_induct) (auto simp: seed_ok create_ok vote_ok elim!: gov_step.cases)

section \<open>Properties\<close>

text \<open>In every state the routes can reach, no voter is counted twice on a proposal and the two counts are the votes on record,
  next to what a seed came with; a proposal that was made through the API is passed exactly while it has at least three votes
  and more for than against at the vote that ended the voting, and no proposal is ever rejected.\<close>

theorem governance_tallies:
  assumes "gov_step\<^sup>*\<^sup>* (seed_proposals now) ps" "map_of ps i = Some p"
  shows "distinct (map gv_voter (gp_votes p)) \<and>
    gp_votesFor p = fst (base_votes i) + votes_with True p \<and> gp_votesAgainst p = snd (base_votes i) + votes_with False p \<and>
    gp_status p \<noteq> Rejected \<and>
    (\<not> seeded i \<longrightarrow> gp_status p \<in> {Active, Passed, Expired} \<and>
       (gp_status p = Passed \<longrightarrow> 3 \<le> length (gp_votes p) \<and> gp_votesAgainst p < gp_votesFor p))"
proof -
  have "gp_id p = i" "proposal_ok p" using gov_reachable_ok [OF assms(1)] assms(2) by (simp_all add: gov_ok_def)
  then show ?thesis by (cases "gp_status p") (auto simp: proposal_ok_def)
qed

text \<open>A proposal that is not active any more is not changed by any vote, and a vote changes no other proposal.\<close>

theorem vote_is_local:
  assumes "gov_ok ps" "map_of ps i = Some p" and "gp_status p \<noteq> Active \<or> i \<noteq> j"
  shows "map_of (fst (vote env now j voter support ps)) i = Some p"
proof (cases "map_of ps j")
  case None
  then show ?thesis using assms(2) by (simp add: vote_def get_proposal_def)
next
  case (Some q)
  then have "gp_id q = j" using assms(1) by (simp add: gov_ok_def)
  then show ?thesis using Some assms(2,3) by (auto simp: vote_def get_proposal_def update_conv' split: option.split json.split)
qed

text \<open>Any three requests in the name of three different governors pass a fresh proposal; no request has to come from a governor,
  since the voter is a field of the body. The number of governors plays no part.\<close>

lemma vote_counts:
  assumes "map_of ps i = Some p" "gp_id p = i" "gp_status p = Active" "now \<le> gp_votingEndsAt p" "isGovernor env v" "v \<noteq> []"
    "v \<notin> gv_voter ` set (gp_votes p)"
  shows "map_of (fst (vote env now i (Some v) (Some (JBool s)) ps)) i = Some (count_vote now v s p)"
  using assms by (simp add: vote_def get_proposal_def update_conv')

theorem three_requests_pass:
  assumes "map_of ps i = Some p" "gp_id p = i" "gp_status p = Active" "now \<le> gp_votingEndsAt p" "gp_votes p = []" "gp_votesFor p = 0" "gp_votesAgainst p = 0"
    and "isGovernor env a" "isGovernor env b" "isGovernor env c" "distinct [[], a, b, c]"
  shows "\<exists>q. map_of (fst (vote env now i (Some c) (Some (JBool True)) (fst (vote env now i (Some b) (Some (JBool True))
      (fst (vote env now i (Some a) (Some (JBool True)) ps)))))) i = Some q \<and> gp_status q = Passed"
proof -
  let ?p1 = "count_vote now a True p" and ?p2 = "count_vote now b True (count_vote now a True p)"
  have p1: "gp_status ?p1 = Active" "gp_votingEndsAt ?p1 = gp_votingEndsAt p" "gv_voter ` set (gp_votes ?p1) = {a}" "length (gp_votes ?p1) = 1"
    "gp_votesFor ?p1 = 1" "gp_votesAgainst ?p1 = 0"
    using assms(3,5,6,7) by (simp_all add: count_vote_def Let_def)
  have p2: "gp_status ?p2 = Active" "gp_votingEndsAt ?p2 = gp_votingEndsAt p" "gv_voter ` set (gp_votes ?p2) = {a, b}" "length (gp_votes ?p2) = 2"
    "gp_votesFor ?p2 = 2" "gp_votesAgainst ?p2 = 0"
    using p1 by (auto simp: count_vote_def [of now b] Let_def)
  let ?ps1 = "fst (vote env now i (Some a) (Some (JBool True)) ps)"
  let ?ps2 = "fst (vote env now i (Some b) (Some (JBool True)) ?ps1)"
  have m1: "map_of ?ps1 i = Some ?p1" by (rule vote_counts) (use assms in auto)
  have m2: "map_of ?ps2 i = Some ?p2" by (rule vote_counts [OF m1]) (use assms p1 in auto)
  have "map_of (fst (vote env now i (Some c) (Some (JBool True)) ?ps2)) i = Some (count_vote now c True ?p2)"
    by (rule vote_counts [OF m2]) (use assms p2 in auto)
  moreover have "gp_status (count_vote now c True ?p2) = Passed" using p2 by (simp add: count_vote_def [of now c] Let_def)
  ultimately show ?thesis by blast
qed

text \<open>Two proposals made in the same millisecond have the same identifier: the second replaces the first with its votes.\<close>

theorem same_millisecond_replaces:
  assumes "isGovernor env q" "t \<noteq> []" "d \<noteq> []" "q \<noteq> []"
  shows "map_of (fst (create_proposal env now (Some t) (Some d) (Some q) ps)) (proposal_id now) = Some (new_proposal now t d q)"
  using assms by (simp add: create_proposal_def Let_def update_conv' new_proposal_def)

text \<open>A proposal that everyone opposes is not closed by the votes: it stays active, and is only marked expired by a vote that
  comes after the end of the voting.\<close>

theorem opposed_stays_active:
  assumes "gov_step\<^sup>*\<^sup>* (seed_proposals now) ps" "map_of ps i = Some p" "\<not> seeded i" "\<forall>v\<in>set (gp_votes p). \<not> gv_support v"
  shows "gp_status p \<in> {Active, Expired}"
proof -
  have "gp_id p = i" and ok: "proposal_ok p" using gov_reachable_ok [OF assms(1)] assms(2) by (simp_all add: gov_ok_def)
  moreover have "votes_with True p = 0" using assms(4) by (simp add: votes_with_def filter_empty_conv)
  moreover have "base_votes i = (0, 0)" using assms(3) by (simp add: base_votes_def seeded_def)
  ultimately show ?thesis using assms(3) by (cases "gp_status p") (auto simp: proposal_ok_def)
qed

end
