(* ===== verification/Client_Cache.thy ===== *)
theory Client_Cache
  imports Preferences Js_Values
begin

text \<open>
  Caches of the clients: the cache over local storage, \<open>frontend/src/utils/cache.ts\<close>, and the two-tier cache and request
  batcher of the client library, \<open>packages/sdk/src/rpcBatchCache.ts\<close>. Local storage is an association list in the order of
  its indices; removing a key is taken to keep the order of the others. \<open>JSON.parse\<close> and \<open>JSON.stringify\<close> on entries are
  arguments; \<open>parse\<close> is \<open>None\<close> where the code throws, which includes the text \<open>null\<close>. A \<open>setItem\<close> that throws, as when
  the quota is used up, is an argument too.
\<close>

section \<open>The cache over local storage\<close>

record 'v cache_entry =
  cn_data :: 'v
  cn_expiry :: int

record 'v cache_service =
  cc_prefix :: string
  cc_memoryOnly :: bool
  cc_memory :: "(string \<times> 'v cache_entry) list"

type_synonym storage = "(string \<times> string) list"

definition isExpired_entry :: "int \<Rightarrow> 'v cache_entry \<Rightarrow> bool" where
  "isExpired_entry now e \<longleftrightarrow> now > cn_expiry e"

definition getKey :: "'v cache_service \<Rightarrow> string \<Rightarrow> string" where
  "getKey c key = cc_prefix c @ key"

text \<open>The loop goes up the indices and removes entries on the way, after which the next entry has the index just passed.\<close>

definition load_entry :: "(string \<Rightarrow> 'v cache_entry option) \<Rightarrow> int \<Rightarrow> string \<times> string \<Rightarrow> storage \<times> (string \<times> 'v cache_entry) list \<Rightarrow>
    storage \<times> (string \<times> 'v cache_entry) list" where
  "load_entry parse now kv s =
     (case (kv, s) of ((key, value), (st, mem)) \<Rightarrow>
        if value = [] then (st, mem)
        else case parse value of
               Some e \<Rightarrow> if \<not> isExpired_entry now e then (st, AList.update key e mem) else (AList.delete key st, mem)
             | None \<Rightarrow> (AList.delete key st, mem))"

lemma length_load_entry: "length (fst (load_entry parse now kv (st, mem))) \<le> length st"
  by (auto simp: load_entry_def length_delete_le split: prod.splits option.splits)

function load_loop :: "(string \<Rightarrow> 'v cache_entry option) \<Rightarrow> string \<Rightarrow> int \<Rightarrow> nat \<Rightarrow> storage \<times> (string \<times> 'v cache_entry) list \<Rightarrow>
    storage \<times> (string \<times> 'v cache_entry) list" where
  "load_loop parse prefix now i s =
     (if i \<ge> length (fst s) then s
      else load_loop parse prefix now (i + 1)
             (if startsWith (fst (fst s ! i)) prefix then load_entry parse now (fst s ! i) s else s))"
  by pat_completeness auto
termination
proof (relation "measure (\<lambda>(parse, prefix, now, i, s). length (fst s) - i)", simp, goal_cases)
  case (1 parse prefix now i s)
  then show ?case using length_load_entry [of parse now "fst s ! i" "fst s" "snd s"] by (simp, linarith)
qed

declare load_loop.simps [simp del]

definition loadFromStorage :: "(string \<Rightarrow> 'v cache_entry option) \<Rightarrow> int \<Rightarrow> storage \<Rightarrow> 'v cache_service \<Rightarrow> 'v cache_service \<times> storage" where
  "loadFromStorage parse now st c =
     (if cc_memoryOnly c then (c, st)
      else let (st', mem) = load_loop parse (cc_prefix c) now 0 (st, cc_memory c) in (c\<lparr>cc_memory := mem\<rparr>, st'))"

definition new_cache_service :: "(string \<Rightarrow> 'v cache_entry option) \<Rightarrow> int \<Rightarrow> string option \<Rightarrow> bool option \<Rightarrow> storage \<Rightarrow> 'v cache_service \<times> storage" where
  "new_cache_service parse now prefix memoryOnly st =
     loadFromStorage parse now st
       \<lparr>cc_prefix = or_default prefix ''ss-cache_'', cc_memoryOnly = or_default memoryOnly False, cc_memory = []\<rparr>"

definition saveToStorage :: "('v cache_entry \<Rightarrow> string) \<Rightarrow> bool \<Rightarrow> string \<Rightarrow> 'v cache_entry \<Rightarrow> 'v cache_service \<times> storage \<Rightarrow> 'v cache_service \<times> storage" where
  "saveToStorage to_json setItem_throws key e = (\<lambda>(c, st).
     if cc_memoryOnly c then (c, st)
     else if setItem_throws then (c\<lparr>cc_memoryOnly := True\<rparr>, st)
     else (c, AList.update key (to_json e) st))"

definition service_set :: "('v cache_entry \<Rightarrow> string) \<Rightarrow> bool \<Rightarrow> int \<Rightarrow> string \<Rightarrow> 'v \<Rightarrow> int \<Rightarrow> 'v cache_service \<times> storage \<Rightarrow> 'v cache_service \<times> storage" where
  "service_set to_json setItem_throws now key v ttlMs = (\<lambda>(c, st).
     let fullKey = getKey c key; e = \<lparr>cn_data = v, cn_expiry = now + ttlMs\<rparr>
     in saveToStorage to_json setItem_throws fullKey e (c\<lparr>cc_memory := AList.update fullKey e (cc_memory c)\<rparr>, st))"

definition service_delete :: "string \<Rightarrow> 'v cache_service \<times> storage \<Rightarrow> 'v cache_service \<times> storage" where
  "service_delete key = (\<lambda>(c, st).
     let fullKey = getKey c key
     in (c\<lparr>cc_memory := AList.delete fullKey (cc_memory c)\<rparr>, if \<not> cc_memoryOnly c then AList.delete fullKey st else st))"

definition service_get :: "int \<Rightarrow> string \<Rightarrow> 'v cache_service \<times> storage \<Rightarrow> 'v option \<times> ('v cache_service \<times> storage)" where
  "service_get now key s =
     (case map_of (cc_memory (fst s)) (getKey (fst s) key) of
        Some e \<Rightarrow> if isExpired_entry now e then (None, service_delete key s) else (Some (cn_data e), s)
      | None \<Rightarrow> (None, service_delete key s))"

definition service_has :: "int \<Rightarrow> string \<Rightarrow> 'v cache_service \<times> storage \<Rightarrow> bool \<times> ('v cache_service \<times> storage)" where
  "service_has now key s = (let (r, s') = service_get now key s in (r \<noteq> None, s'))"

definition invalidated :: "string \<Rightarrow> string option \<Rightarrow> string \<Rightarrow> bool" where
  "invalidated prefix pattern key \<longleftrightarrow>
     startsWith key (if truthy pattern then prefix @ the pattern @ ''_'' else prefix) \<or>
     truthy pattern \<and> js_includes key (the pattern)"

text \<open>These loops go down the indices, so that a removal moves no entry that is still to come.\<close>

fun remove_down :: "(string \<Rightarrow> bool) \<Rightarrow> nat \<Rightarrow> storage \<Rightarrow> storage" where
  "remove_down P 0 st = st"
| "remove_down P (Suc i) st = remove_down P i (if i < length st \<and> P (fst (st ! i)) then AList.delete (fst (st ! i)) st else st)"

definition service_invalidate :: "string option \<Rightarrow> 'v cache_service \<times> storage \<Rightarrow> 'v cache_service \<times> storage" where
  "service_invalidate pattern = (\<lambda>(c, st).
     (c\<lparr>cc_memory := filter (\<lambda>(k, e). \<not> invalidated (cc_prefix c) pattern k) (cc_memory c)\<rparr>,
      if \<not> cc_memoryOnly c then remove_down (invalidated (cc_prefix c) pattern) (length st) st else st))"

definition service_clear :: "'v cache_service \<times> storage \<Rightarrow> 'v cache_service \<times> storage" where
  "service_clear = (\<lambda>(c, st).
     (c\<lparr>cc_memory := []\<rparr>, if \<not> cc_memoryOnly c then remove_down (\<lambda>k. startsWith k (cc_prefix c)) (length st) st else st))"

subsection \<open>Correctness\<close>

lemma delete_filter: "AList.delete k st = filter (\<lambda>kv. fst kv \<noteq> k) st"
  by (auto simp: AList.delete_eq case_prod_unfold intro: filter_cong)

lemma delete_nth:
  assumes "i < length st" and "distinct (map fst st)"
  shows "AList.delete (fst (st ! i)) st = take i st @ drop (Suc i) st"
proof -
  let ?x = "st ! i" and ?a = "take i st" and ?b = "drop (Suc i) st"
  have st: "st = ?a @ ?x # ?b" using assms(1) by (rule id_take_nth_drop)
  have "distinct (map fst (?a @ ?x # ?b))" using assms(2) st by simp
  then have d: "fst ?x \<notin> fst ` set ?a" "fst ?x \<notin> fst ` set ?b" by auto
  have "AList.delete (fst ?x) (?a @ ?x # ?b) = AList.delete (fst ?x) ?a @ AList.delete (fst ?x) ?b"
    by (simp add: delete_filter)
  also have "\<dots> = ?a @ ?b" using delete_id [OF d(1)] delete_id [OF d(2)] by simp
  finally show ?thesis using st by simp
qed

lemma remove_down_filter:
  "i \<le> length st \<Longrightarrow> distinct (map fst st) \<Longrightarrow>
   remove_down P i st = filter (\<lambda>kv. \<not> P (fst kv)) (take i st) @ drop i st"
proof (induction i arbitrary: st)
  case (Suc i)
  let ?d = "take i st @ drop (Suc i) st"
  have i: "i < length st" using Suc.prems(1) by simp
  show ?case
  proof (cases "P (fst (st ! i))")
    case True
    have "distinct (map fst ?d)" using distinct_delete [OF Suc.prems(2)] delete_nth [OF i Suc.prems(2)] by metis
    then have "remove_down P i ?d = filter (\<lambda>kv. \<not> P (fst kv)) (take i st) @ drop (Suc i) st"
      using Suc.IH [of ?d] i by simp
    then show ?thesis using True i delete_nth [OF i Suc.prems(2)] by (simp add: take_Suc_conv_app_nth)
  next
    case False
    then have "remove_down P (Suc i) st = remove_down P i st" by simp
    then show ?thesis using False Suc i by (simp add: take_Suc_conv_app_nth Cons_nth_drop_Suc)
  qed
qed simp

lemma remove_down_all [simp]: "distinct (map fst st) \<Longrightarrow> remove_down P (length st) st = filter (\<lambda>kv. \<not> P (fst kv)) st"
  by (simp add: remove_down_filter)

text \<open>What a read returns at a time: the cache is a map whose bindings expire.\<close>

definition service_view :: "int \<Rightarrow> 'v cache_service \<times> storage \<Rightarrow> string \<Rightarrow> 'v option" where
  "service_view now s key = fst (service_get now key s)"

lemma service_view_memory:
  "service_view now (c, st) key =
     (case map_of (cc_memory c) (getKey c key) of Some e \<Rightarrow> if isExpired_entry now e then None else Some (cn_data e) | None \<Rightarrow> None)"
  by (simp add: service_view_def service_get_def split: option.splits)

lemma getKey_inj [simp]: "getKey c a = getKey c b \<longleftrightarrow> a = b"
  by (simp add: getKey_def)

lemma getKey_memory [simp]: "getKey (c\<lparr>cc_memory := m\<rparr>) k = getKey c k" "getKey (c\<lparr>cc_memoryOnly := b\<rparr>) k = getKey c k"
  by (simp_all add: getKey_def)

lemma view_set:
  "service_view t (service_set to_json full now key v ttl s) =
     (if t \<le> now + ttl then (service_view t s)(key \<mapsto> v) else (service_view t s)(key := None))"
  by (cases s) (auto simp: service_set_def saveToStorage_def service_view_memory isExpired_entry_def Let_def update_conv')

lemma view_delete: "service_view t (service_delete key s) = (service_view t s)(key := None)"
  by (cases s) (auto simp: service_delete_def service_view_memory Let_def delete_conv')

lemma view_get: "now \<le> t \<Longrightarrow> service_view t (snd (service_get now key s)) = service_view t s"
proof (cases "map_of (cc_memory (fst s)) (getKey (fst s) key)")
  case None
  then show ?thesis
    by (cases s) (auto simp: service_get_def view_delete service_view_memory fun_eq_iff)
next
  case (Some e)
  assume "now \<le> t"
  then show ?thesis using Some
    by (cases s) (auto simp: service_get_def view_delete service_view_memory fun_eq_iff isExpired_entry_def)
qed

lemma map_of_filter_keys: "map_of (filter (\<lambda>(k, e). \<not> P k) m) k = (if P k then None else map_of m k)"
  by (induction m) auto

lemma view_invalidate:
  "service_view t (service_invalidate pattern s) key =
     (if invalidated (cc_prefix (fst s)) pattern (getKey (fst s) key) then None else service_view t s key)"
  by (cases s) (simp add: service_invalidate_def service_view_memory map_of_filter_keys)

text \<open>The cache over local storage is a map whose bindings expire: a read returns the value of the latest write to its key
  until the time to live has passed, no operation but an invalidation touches other keys, and reading, which drops expired
  entries, changes nothing that a later read sees. Neither a full store nor the fallback to memory makes a difference.\<close>

theorem cache_service_is_expiring_map:
  shows "service_view t (service_set to_json full now key v ttl s) =
           (if t \<le> now + ttl then (service_view t s)(key \<mapsto> v) else (service_view t s)(key := None))"
    and "service_view t (service_delete key s) = (service_view t s)(key := None)"
    and "service_view t (service_invalidate pattern s) other =
           (if invalidated (cc_prefix (fst s)) pattern (getKey (fst s) other) then None else service_view t s other)"
    and "service_view t (service_clear s) = (\<lambda>k. None)"
  by (simp_all add: view_set view_delete view_invalidate service_clear_def service_view_memory fun_eq_iff split: prod.splits)

text \<open>Reading at one time changes nothing that a read at the same or a later time returns.\<close>

theorem reading_is_silent:
  assumes "now \<le> t"
  shows "service_view t (snd (service_get now key s)) = service_view t s"
  using assms by (rule view_get)

section \<open>What is kept in local storage\<close>

definition mirrored :: "(string \<Rightarrow> 'v cache_entry option) \<Rightarrow> 'v cache_service \<times> storage \<Rightarrow> bool" where
  "mirrored parse s \<longleftrightarrow> cc_memoryOnly (fst s) \<or>
     (\<forall>k e. map_of (cc_memory (fst s)) k = Some e \<longrightarrow> (\<exists>txt. map_of (snd s) k = Some txt \<and> parse txt = Some e))"

lemma mirrored_set:
  assumes "mirrored parse s" and "\<And>e. parse (to_json e) = Some e"
  shows "mirrored parse (service_set to_json full now key v ttl s)"
  using assms
  by (cases s) (auto simp: mirrored_def service_set_def saveToStorage_def Let_def update_conv')

lemma mirrored_delete: "mirrored parse s \<Longrightarrow> mirrored parse (service_delete key s)"
  by (cases s) (auto simp: mirrored_def service_delete_def Let_def delete_conv')

lemma mirrored_get: "mirrored parse s \<Longrightarrow> mirrored parse (snd (service_get now key s))"
  by (auto simp: service_get_def mirrored_delete split: option.splits)

lemma map_of_filter_fst: "map_of (filter (\<lambda>kv. \<not> P (fst kv)) m) k = (if P k then None else map_of m k)"
  by (induction m) auto

lemma mirrored_invalidate:
  "mirrored parse s \<Longrightarrow> distinct (map fst (snd s)) \<Longrightarrow> mirrored parse (service_invalidate pattern s)"
  by (cases s) (auto simp: mirrored_def service_invalidate_def map_of_filter_fst map_of_filter_keys split: if_splits)

text \<open>While loading, every entry in memory is the text at an index already passed.\<close>

definition loaded_upto :: "(string \<Rightarrow> 'v cache_entry option) \<Rightarrow> nat \<Rightarrow> storage \<times> (string \<times> 'v cache_entry) list \<Rightarrow> bool" where
  "loaded_upto parse i s \<longleftrightarrow> distinct (map fst (fst s)) \<and>
     (\<forall>k e. map_of (snd s) k = Some e \<longrightarrow> (\<exists>txt. (k, txt) \<in> set (take i (fst s)) \<and> parse txt = Some e))"

lemma loaded_upto_Suc: "loaded_upto parse i s \<Longrightarrow> loaded_upto parse (Suc i) s"
  unfolding loaded_upto_def using set_take_subset_set_take [of i "Suc i" "fst s"] by fastforce

lemma loaded_upto_delete:
  assumes "loaded_upto parse i (st, mem)" and "i < length st"
  shows "loaded_upto parse (Suc i) (AList.delete (fst (st ! i)) st, mem)"
proof -
  have d: "distinct (map fst st)" using assms(1) by (simp add: loaded_upto_def)
  let ?d = "AList.delete (fst (st ! i)) st"
  have "set (take i st) \<subseteq> set (take (Suc i) ?d)" using assms(2) by (simp add: delete_nth [OF assms(2) d])
  moreover have "distinct (map fst ?d)" using d by (rule distinct_delete)
  ultimately show ?thesis using assms(1) by (simp add: loaded_upto_def) (meson subsetD)
qed

lemma loaded_upto_load:
  assumes "loaded_upto parse i (st, mem)" and "i < length st"
  shows "loaded_upto parse (Suc i) (load_entry parse now (st ! i) (st, mem))"
proof (cases "snd (st ! i) \<noteq> [] \<and> (\<exists>e. parse (snd (st ! i)) = Some e \<and> \<not> isExpired_entry now e)")
  case True
  then obtain e where e: "snd (st ! i) \<noteq> []" "parse (snd (st ! i)) = Some e" "\<not> isExpired_entry now e" by blast
  have eq: "load_entry parse now (st ! i) (st, mem) = (st, AList.update (fst (st ! i)) e mem)"
    using e by (simp add: load_entry_def case_prod_unfold)
  have "(fst (st ! i), snd (st ! i)) \<in> set (take (Suc i) st)" using assms(2) by (simp add: take_Suc_conv_app_nth)
  then have "\<exists>txt. (fst (st ! i), txt) \<in> set (take (Suc i) st) \<and> parse txt = Some e" using e(2) by blast
  then show ?thesis using loaded_upto_Suc [OF assms(1)] unfolding eq loaded_upto_def
    by (auto simp: update_conv')
next
  case False
  then have "load_entry parse now (st ! i) (st, mem) \<in> {(st, mem), (AList.delete (fst (st ! i)) st, mem)}"
    by (auto simp: load_entry_def case_prod_unfold split: option.splits)
  then show ?thesis using loaded_upto_Suc [OF assms(1)] loaded_upto_delete [OF assms] by auto
qed

lemma load_loop_loaded: "loaded_upto parse i s \<Longrightarrow> \<exists>j. loaded_upto parse j (load_loop parse p now i s)"
proof (induction parse p now i s rule: load_loop.induct)
  case (1 parse p now i s)
  show ?case
  proof (cases "length (fst s) \<le> i")
    case True
    then show ?thesis using 1(2) by (subst load_loop.simps) auto
  next
    case False
    then have "loaded_upto parse (Suc i) (if startsWith (fst (fst s ! i)) p then load_entry parse now (fst s ! i) s else s)"
      using loaded_upto_load [of parse i "fst s" "snd s" now] loaded_upto_Suc [OF 1(2)] 1(2) by simp
    then show ?thesis using 1(1) [OF False] False by (subst load_loop.simps) simp
  qed
qed

lemma mirrored_new:
  assumes "distinct (map fst st)"
  shows "mirrored parse (new_cache_service parse now p m st) \<and> distinct (map fst (snd (new_cache_service parse now p m st)))"
proof -
  obtain st' mem where l: "load_loop parse (or_default p ''ss-cache_'') now 0 (st, []) = (st', mem)" by fastforce
  have "loaded_upto parse 0 (st, [])" using assms by (simp add: loaded_upto_def)
  then obtain j where j: "loaded_upto parse j (st', mem)" using load_loop_loaded l by metis
  then have "\<exists>txt. map_of st' k = Some txt \<and> parse txt = Some e" if "map_of mem k = Some e" for k e
    using that unfolding loaded_upto_def fst_conv snd_conv by (meson in_set_takeD map_of_is_SomeI)
  moreover have "distinct (map fst st')" using j by (simp add: loaded_upto_def)
  ultimately show ?thesis using assms
    by (simp add: new_cache_service_def loadFromStorage_def mirrored_def l)
qed

text \<open>The calls on a cache, with the time of each and whether \<open>setItem\<close> throws.\<close>

datatype 'v service_call =
    CallSet bool int string 'v int
  | CallGet int string
  | CallDelete string
  | CallInvalidate "string option"
  | CallClear

fun call_service :: "('v cache_entry \<Rightarrow> string) \<Rightarrow> 'v service_call \<Rightarrow> 'v cache_service \<times> storage \<Rightarrow> 'v cache_service \<times> storage" where
  "call_service to_json (CallSet full now key v ttl) s = service_set to_json full now key v ttl s"
| "call_service to_json (CallGet now key) s = snd (service_get now key s)"
| "call_service to_json (CallDelete key) s = service_delete key s"
| "call_service to_json (CallInvalidate p) s = service_invalidate p s"
| "call_service to_json CallClear s = service_clear s"

lemma delete_keys_distinct: "distinct (map fst (snd s)) \<Longrightarrow> distinct (map fst (snd (service_delete key s)))"
  by (cases s) (simp add: service_delete_def distinct_delete Let_def)

lemma call_keys_distinct: "distinct (map fst (snd s)) \<Longrightarrow> distinct (map fst (snd (call_service to_json op s)))"
  by (cases op; cases s)
    (auto simp: service_set_def saveToStorage_def service_get_def service_invalidate_def service_clear_def distinct_update
      delete_keys_distinct Let_def distinct_map_filter split: option.splits)

lemma call_mirrored:
  assumes "mirrored parse s" "distinct (map fst (snd s))" "\<And>e. parse (to_json e) = Some e"
  shows "mirrored parse (call_service to_json op s)"
  using assms by (cases op) (simp_all add: mirrored_set mirrored_get mirrored_delete mirrored_invalidate,
    simp add: service_clear_def mirrored_def split: prod.splits)

text \<open>From a new cache on, whatever is called and whenever the browser refuses to store, each entry that a cache holds in
  memory is in local storage with the same value and expiry, unless the cache has switched to memory. JSON is relied on
  to read back what it wrote.\<close>

theorem storage_mirrors_memory:
  assumes "distinct (map fst st)" and "\<And>e. parse (to_json e) = Some e"
  shows "mirrored parse (fold (call_service to_json) ops (new_cache_service parse now p m st))"
proof -
  have "mirrored parse (fold (call_service to_json) ops s)" if "mirrored parse s" "distinct (map fst (snd s))" for s
    using that by (induction ops arbitrary: s) (simp_all add: call_mirrored assms(2) call_keys_distinct)
  then show ?thesis using mirrored_new [OF assms(1)] by blast
qed

text \<open>Loading skips the entry after one it removes. An entry that is valid for another minute, stored behind one that has
  expired, is not found by a cache opened now, and asking for it removes it from local storage.\<close>

definition sample_parse :: "string \<Rightarrow> nat cache_entry option" where
  "sample_parse txt = (if txt = ''old'' then Some \<lparr>cn_data = 1, cn_expiry = 10\<rparr> else Some \<lparr>cn_data = 2, cn_expiry = 70000\<rparr>)"

theorem live_entry_after_expired_lost:
  "let s = new_cache_service sample_parse 10000 None None [(''ss-cache_a'', ''old''), (''ss-cache_b'', ''new'')];
       (r, s') = service_get 10000 ''b'' s
   in r = None \<and> snd s = [(''ss-cache_b'', ''new'')] \<and> snd s' = []"
  by code_simp

text \<open>Invalidating a pattern removes from local storage every key that contains it, also those of other parts of the
  application, which do not carry the prefix of the cache.\<close>

theorem invalidate_removes_foreign_keys:
  assumes "\<not> cc_memoryOnly c" and "distinct (map fst st)" and "p \<noteq> []" and "js_includes key p"
  shows "map_of (snd (service_invalidate (Some p) (c, st))) key = None"
proof -
  have "invalidated (cc_prefix c) (Some p) key" using assms(3,4) by (simp add: invalidated_def)
  then show ?thesis using assms(1,2) by (simp add: service_invalidate_def map_of_filter_fst)
qed

theorem invalidate_removes_foreign_keys_witness:
  "map_of (snd (service_invalidate (Some ''group'')
     (\<lparr>cc_prefix = ''ss-cache_'', cc_memoryOnly = False, cc_memory = []\<rparr> :: nat cache_service, [(''group-drafts'', ''x'')]))) ''group-drafts'' = None"
  by (rule invalidate_removes_foreign_keys) (simp, simp, simp, code_simp)

section \<open>The two-tier cache of the client library\<close>

record 'v tier_entry =
  te_value :: 'v
  te_expiresAt :: int

record 'v tiered_cache =
  tc_l1 :: "(string \<times> 'v tier_entry) list"
  tc_l2 :: "(string \<times> 'v tier_entry) list"
  tc_hits :: nat
  tc_misses :: nat

datatype cache_tier = TierL1 | TierL2

fun tier_of :: "cache_tier \<Rightarrow> 'v tiered_cache \<Rightarrow> (string \<times> 'v tier_entry) list" where
  "tier_of TierL1 c = tc_l1 c"
| "tier_of TierL2 c = tc_l2 c"

fun set_tier :: "cache_tier \<Rightarrow> (string \<times> 'v tier_entry) list \<Rightarrow> 'v tiered_cache \<Rightarrow> 'v tiered_cache" where
  "set_tier TierL1 m c = c\<lparr>tc_l1 := m\<rparr>"
| "set_tier TierL2 m c = c\<lparr>tc_l2 := m\<rparr>"

fun tiered_scan :: "int \<Rightarrow> string \<Rightarrow> cache_tier list \<Rightarrow> 'v tiered_cache \<Rightarrow> 'v option \<times> 'v tiered_cache" where
  "tiered_scan now key [] c = (None, c\<lparr>tc_misses := tc_misses c + 1\<rparr>)"
| "tiered_scan now key (t # ts) c =
     (case map_of (tier_of t c) key of
        Some e \<Rightarrow> if te_expiresAt e > now
                   then (Some (te_value e), c\<lparr>tc_hits := tc_hits c + 1, tc_l1 := AList.update key e (tc_l1 c)\<rparr>)
                   else tiered_scan now key ts (set_tier t (AList.delete key (tier_of t c)) c)
      | None \<Rightarrow> tiered_scan now key ts c)"

definition tiered_get :: "int \<Rightarrow> string \<Rightarrow> 'v tiered_cache \<Rightarrow> 'v option \<times> 'v tiered_cache" where
  "tiered_get now key = tiered_scan now key [TierL1, TierL2]"

definition tiered_set :: "int \<Rightarrow> string \<Rightarrow> 'v \<Rightarrow> int \<Rightarrow> cache_tier \<Rightarrow> 'v tiered_cache \<Rightarrow> 'v tiered_cache" where
  "tiered_set now key v ttlMs t c = set_tier t (AList.update key \<lparr>te_value = v, te_expiresAt = now + ttlMs\<rparr> (tier_of t c)) c"

definition tier_hitRate :: "'v tiered_cache \<Rightarrow> rat" where
  "tier_hitRate c = (let total = tc_hits c + tc_misses c in if total \<noteq> 0 then of_nat (tc_hits c) / of_nat total else 0)"

definition evictExpired :: "int \<Rightarrow> 'v tiered_cache \<Rightarrow> 'v tiered_cache" where
  "evictExpired now c =
     c\<lparr>tc_l1 := filter (\<lambda>(k, v). \<not> te_expiresAt v \<le> now) (tc_l1 c), tc_l2 := filter (\<lambda>(k, v). \<not> te_expiresAt v \<le> now) (tc_l2 c)\<rparr>"

text \<open>The cached reads; \<open>fetch\<close> is what \<open>fetchFn\<close> resolves to, a value other than \<open>undefined\<close>, and \<open>later\<close> the time at
  which it does.\<close>

definition cached_read :: "int \<Rightarrow> cache_tier \<Rightarrow> string \<Rightarrow> int \<Rightarrow> int \<Rightarrow> 'e + 'v \<Rightarrow> 'v tiered_cache \<Rightarrow> ('e + 'v) \<times> 'v tiered_cache" where
  "cached_read ttl t key now later fetch c =
     (case tiered_get now key c of
        (Some v, c') \<Rightarrow> (Inr v, c')
      | (None, c') \<Rightarrow> (case fetch of Inl e \<Rightarrow> (Inl e, c') | Inr v \<Rightarrow> (Inr v, tiered_set later key v ttl t c')))"

definition getCachedLedgerEntry :: "string \<Rightarrow> int \<Rightarrow> int \<Rightarrow> 'e + 'v \<Rightarrow> 'v tiered_cache \<Rightarrow> ('e + 'v) \<times> 'v tiered_cache" where
  "getCachedLedgerEntry = cached_read 5000 TierL1"

definition getCachedContractData :: "string \<Rightarrow> string \<Rightarrow> int \<Rightarrow> int \<Rightarrow> 'e + 'v \<Rightarrow> 'v tiered_cache \<Rightarrow> ('e + 'v) \<times> 'v tiered_cache" where
  "getCachedContractData contractId dataKey = cached_read 30000 TierL2 (''contract:'' @ contractId @ '':'' @ dataKey)"

subsection \<open>The tiers as one map\<close>

definition tier_live :: "int \<Rightarrow> 'v tier_entry option \<Rightarrow> 'v option" where
  "tier_live now r = (case r of Some e \<Rightarrow> if te_expiresAt e > now then Some (te_value e) else None | None \<Rightarrow> None)"

definition tiered_view :: "int \<Rightarrow> 'v tiered_cache \<Rightarrow> string \<Rightarrow> 'v option" where
  "tiered_view now c key =
     (case tier_live now (map_of (tc_l1 c) key) of Some v \<Rightarrow> Some v | None \<Rightarrow> tier_live now (map_of (tc_l2 c) key))"

lemma tiered_get_view: "fst (tiered_get now key c) = tiered_view now c key"
  by (auto simp: tiered_get_def tiered_view_def tier_live_def split: option.splits)

lemma live_None [simp]: "tier_live t None = None"
  by (simp add: tier_live_def)

lemma map_of_evict:
  "distinct (map fst m) \<Longrightarrow> map_of (filter (\<lambda>(k, v). \<not> te_expiresAt v \<le> now) m) key =
     (case map_of m key of Some e \<Rightarrow> if te_expiresAt e > now then Some e else None | None \<Rightarrow> None)"
  by (induction m) (auto split: option.splits simp: rev_image_eqI map_of_eq_None_iff)

lemma live_evict:
  assumes "distinct (map fst m)" and "now \<le> t"
  shows "tier_live t (map_of (filter (\<lambda>(k, v). \<not> te_expiresAt v \<le> now) m) key) = tier_live t (map_of m key)"
  unfolding map_of_evict [OF assms(1)] using assms(2) by (simp add: tier_live_def split: option.splits)

text \<open>Eviction removes only what no read would return any more.\<close>

theorem eviction_is_silent:
  assumes "distinct (map fst (tc_l1 c))" and "distinct (map fst (tc_l2 c))" and "now \<le> t"
  shows "tiered_view t (evictExpired now c) = tiered_view t c"
  by (simp add: fun_eq_iff tiered_view_def evictExpired_def live_evict [OF assms(1,3)] live_evict [OF assms(2,3)] cong: option.case_cong)

theorem eviction_is_silent_witness:
  "tiered_view 20 (evictExpired 10 \<lparr>tc_l1 = [(''a'', \<lparr>te_value = 1, te_expiresAt = 5\<rparr>)], tc_l2 = [], tc_hits = 0, tc_misses = 0\<rparr>) =
   tiered_view 20 \<lparr>tc_l1 = [(''a'', \<lparr>te_value = (1 :: nat), te_expiresAt = 5\<rparr>)], tc_l2 = [], tc_hits = 0, tc_misses = 0\<rparr>"
  by (rule eviction_is_silent) simp_all

text \<open>A read returns what is cached and alive; otherwise the fetched value, which later reads see for the time to live of
  its kind. A failed fetch caches nothing. Since a write comes after a miss, the live entry of the hot tier that would hide
  a write to the warm tier is not there.\<close>

lemma tiered_get_miss:
  assumes "tiered_view now c key = None"
  shows "\<exists>c'. tiered_get now key c = (None, c') \<and> map_of (tc_l1 c') key = None \<and> map_of (tc_l2 c') key = None"
  using assms by (auto simp: tiered_get_def tiered_view_def tier_live_def delete_conv' split: option.splits if_splits)

theorem cached_read_serves:
  assumes "cached_read ttl tr key now later (Inr v) c = (r, c')"
  shows "r = Inr (case tiered_view now c key of Some old \<Rightarrow> old | None \<Rightarrow> v)"
    and "tiered_view now c key = None \<Longrightarrow> t < later + ttl \<Longrightarrow> tiered_view t c' key = Some v"
    and "tiered_view now c key = None \<Longrightarrow> later + ttl \<le> t \<Longrightarrow> tiered_view t c' key = None"
proof -
  have g: "fst (tiered_get now key c) = tiered_view now c key" by (rule tiered_get_view)
  show "r = Inr (case tiered_view now c key of Some old \<Rightarrow> old | None \<Rightarrow> v)"
    using assms g by (auto simp: cached_read_def split: prod.splits option.splits)
  show "tiered_view t c' key = Some v" if "tiered_view now c key = None" "t < later + ttl"
    using assms tiered_get_miss [OF that(1)] that(2)
    by (cases tr) (auto simp: cached_read_def tiered_set_def tiered_view_def tier_live_def update_conv')
  show "tiered_view t c' key = None" if "tiered_view now c key = None" "later + ttl \<le> t"
    using assms tiered_get_miss [OF that(1)] that(2)
    by (cases tr) (auto simp: cached_read_def tiered_set_def tiered_view_def tier_live_def update_conv')
qed

text \<open>The time to live of the two kinds of data, on an empty cache.\<close>

theorem cached_read_serves_witness:
  "let c = \<lparr>tc_l1 = [], tc_l2 = [], tc_hits = 0, tc_misses = 0\<rparr> :: nat tiered_cache;
       (r, c') = getCachedContractData ''C'' ''balance'' 0 10 (Inr 7 :: string + nat) c
   in r = Inr 7 \<and> tiered_view 30009 c' ''contract:C:balance'' = Some 7 \<and> tiered_view 30010 c' ''contract:C:balance'' = None"
proof -
  let ?c = "\<lparr>tc_l1 = [], tc_l2 = [], tc_hits = 0, tc_misses = 0\<rparr> :: nat tiered_cache"
  obtain r c' where rc: "cached_read 30000 TierL2 ''contract:C:balance'' 0 10 (Inr 7 :: string + nat) ?c = (r, c')" by fastforce
  have e: "tiered_view 0 ?c ''contract:C:balance'' = None" by (simp add: tiered_view_def)
  have "r = Inr 7" using cached_read_serves(1) [OF rc] e by simp
  moreover have "tiered_view 30009 c' ''contract:C:balance'' = Some 7" by (rule cached_read_serves(2) [OF rc e]) simp
  moreover have "tiered_view 30010 c' ''contract:C:balance'' = None" by (rule cached_read_serves(3) [OF rc e]) simp
  ultimately show ?thesis using rc by (simp add: getCachedContractData_def)
qed

section \<open>The request batcher\<close>

text \<open>A request is a number, which stands for its promise, with its key. A batch that \<open>batchFn\<close> was called with is in flight
  until its promise settles.\<close>

record ('k, 'r) batcher =
  bt_queue :: "(nat \<times> 'k) list"
  bt_timer :: bool
  bt_flying :: "(nat \<times> 'k) list list"
  bt_settled :: "(nat \<times> (string + 'r)) list"

definition new_batcher :: "('k, 'r) batcher" where
  "new_batcher = \<lparr>bt_queue = [], bt_timer = False, bt_flying = [], bt_settled = []\<rparr>"

definition batcher_flush :: "('k, 'r) batcher \<Rightarrow> ('k, 'r) batcher" where
  "batcher_flush b =
     (let b' = b\<lparr>bt_timer := False, bt_queue := []\<rparr>; batch = bt_queue b
      in if batch = [] then b' else b'\<lparr>bt_flying := bt_flying b' @ [batch]\<rparr>)"

definition batcher_enqueue :: "nat \<Rightarrow> nat \<Rightarrow> 'k \<Rightarrow> ('k, 'r) batcher \<Rightarrow> ('k, 'r) batcher" where
  "batcher_enqueue maxBatchSize r key b =
     (let b' = b\<lparr>bt_queue := bt_queue b @ [(r, key)]\<rparr>
      in if length (bt_queue b') \<ge> maxBatchSize then batcher_flush b'
         else if \<not> bt_timer b' then b'\<lparr>bt_timer := True\<rparr> else b')"

definition settle_item :: "('k \<Rightarrow> string) \<Rightarrow> string + ('k \<rightharpoonup> 'r) \<Rightarrow> nat \<times> 'k \<Rightarrow> nat \<times> (string + 'r)" where
  "settle_item str outcome item =
     (fst item, case outcome of
        Inl e \<Rightarrow> Inl e
      | Inr results \<Rightarrow> (case results (snd item) of Some v \<Rightarrow> Inr v | None \<Rightarrow> Inl (''No result for key: '' @ str (snd item))))"

definition batch_done :: "('k \<Rightarrow> string) \<Rightarrow> nat \<Rightarrow> string + ('k \<rightharpoonup> 'r) \<Rightarrow> ('k, 'r) batcher \<Rightarrow> ('k, 'r) batcher" where
  "batch_done str i outcome b =
     b\<lparr>bt_flying := take i (bt_flying b) @ drop (Suc i) (bt_flying b),
       bt_settled := bt_settled b @ map (settle_item str outcome) (bt_flying b ! i)\<rparr>"

inductive batcher_step :: "('k \<Rightarrow> string) \<Rightarrow> nat \<Rightarrow> nat list \<times> ('k, 'r) batcher \<Rightarrow> nat list \<times> ('k, 'r) batcher \<Rightarrow> bool"
  for str and mx where
  enqueue: "r \<notin> set rs \<Longrightarrow> batcher_step str mx (rs, b) (rs @ [r], batcher_enqueue mx r key b)"
| timer: "bt_timer b \<Longrightarrow> batcher_step str mx (rs, b) (rs, batcher_flush b)"
| answer: "i < length (bt_flying b) \<Longrightarrow> batcher_step str mx (rs, b) (rs, batch_done str i outcome b)"

definition batcher_ids :: "('k, 'r) batcher \<Rightarrow> nat multiset" where
  "batcher_ids b = mset (map fst (bt_queue b)) + mset (map fst (concat (bt_flying b))) + mset (map fst (bt_settled b))"

definition batcher_ok :: "nat \<Rightarrow> nat list \<times> ('k, 'r) batcher \<Rightarrow> bool" where
  "batcher_ok mx s \<longleftrightarrow> distinct (fst s) \<and> batcher_ids (snd s) = mset (fst s) \<and> (bt_timer (snd s) \<longleftrightarrow> bt_queue (snd s) \<noteq> []) \<and>
     length (bt_queue (snd s)) < mx \<and> (\<forall>batch \<in> set (bt_flying (snd s)). 0 < length batch \<and> length batch \<le> mx)"

lemma batcher_flush_ok:
  assumes "distinct rs" "batcher_ids b = mset rs" "length (bt_queue b) \<le> mx" "0 < mx"
    "\<forall>batch \<in> set (bt_flying b). 0 < length batch \<and> length batch \<le> mx"
  shows "batcher_ok mx (rs, batcher_flush b)"
  using assms by (auto simp: batcher_ok_def batcher_flush_def batcher_ids_def Let_def ac_simps)

lemma batcher_enqueue_ok:
  assumes "batcher_ok mx (rs, b)" and "r \<notin> set rs"
  shows "batcher_ok mx (rs @ [r], batcher_enqueue mx r key b)"
proof -
  let ?b = "b\<lparr>bt_queue := bt_queue b @ [(r, key)]\<rparr>"
  have ids: "batcher_ids ?b = mset (rs @ [r])" using assms(1) by (auto simp: batcher_ok_def batcher_ids_def)
  have d: "distinct (rs @ [r])" using assms by (simp add: batcher_ok_def)
  show ?thesis
  proof (cases "length (bt_queue ?b) \<ge> mx")
    case True
    then have "batcher_ok mx (rs @ [r], batcher_flush ?b)" using assms(1)
      by (intro batcher_flush_ok d ids) (auto simp: batcher_ok_def)
    then show ?thesis using True by (simp add: batcher_enqueue_def)
  next
    case False
    then show ?thesis using assms(1) d ids
      by (auto simp: batcher_enqueue_def batcher_ok_def batcher_ids_def Let_def)
  qed
qed

lemma concat_remove_nth:
  "i < length xss \<Longrightarrow> mset (map f (concat xss)) = mset (map f (xss ! i)) + mset (map f (concat (take i xss @ drop (Suc i) xss)))"
  by (subst id_take_nth_drop [of i xss]) (simp_all add: ac_simps)

lemma batch_done_ok:
  assumes "batcher_ok mx (rs, b)" and "i < length (bt_flying b)"
  shows "batcher_ok mx (rs, batch_done str i outcome b)"
proof -
  have "fst \<circ> settle_item str outcome = fst" by (simp add: settle_item_def fun_eq_iff)
  then have "batcher_ids (batch_done str i outcome b) = batcher_ids b"
    using concat_remove_nth [OF assms(2), of fst] by (simp add: batcher_ids_def batch_done_def ac_simps)
  then show ?thesis using assms(1) by (auto simp: batcher_ok_def batch_done_def dest: in_set_takeD in_set_dropD)
qed

lemma batcher_step_ok: "batcher_step str mx s s' \<Longrightarrow> batcher_ok mx s \<Longrightarrow> batcher_ok mx s'"
proof (induction rule: batcher_step.induct)
  case (timer b rs)
  then show ?case by (intro batcher_flush_ok) (auto simp: batcher_ok_def)
qed (simp_all add: batcher_enqueue_ok batch_done_ok)

text \<open>In every interleaving of requests, timers and answers, each request is waiting, in flight or settled, exactly one of
  them and once; batches are never empty nor larger than the limit; and whenever requests wait, a timer is set that will
  send them.\<close>

theorem batcher_settles_once:
  assumes "0 < mx" and "(batcher_step str mx)\<^sup>*\<^sup>* ([], new_batcher) (rs, b)"
  shows "mset (map fst (bt_queue b)) + mset (map fst (concat (bt_flying b))) + mset (map fst (bt_settled b)) = mset rs"
    and "distinct rs" and "bt_timer b \<longleftrightarrow> bt_queue b \<noteq> []" and "\<forall>batch \<in> set (bt_flying b). 0 < length batch \<and> length batch \<le> mx"
proof -
  have "batcher_ok mx ([], new_batcher)" using assms(1) by (simp add: batcher_ok_def new_batcher_def batcher_ids_def)
  with assms(2) have "batcher_ok mx (rs, b)" by (induction rule: rtranclp_induct) (auto intro: batcher_step_ok)
  then show "mset (map fst (bt_queue b)) + mset (map fst (concat (bt_flying b))) + mset (map fst (bt_settled b)) = mset rs"
    and "distinct rs" and "bt_timer b \<longleftrightarrow> bt_queue b \<noteq> []" and "\<forall>batch \<in> set (bt_flying b). 0 < length batch \<and> length batch \<le> mx"
    by (auto simp: batcher_ok_def batcher_ids_def)
qed

text \<open>A full batch is sent at once, whatever the timer, and every request for a key that the answer holds gets its value,
  also when several requests of the batch are for the same key.\<close>

theorem full_batch_answered:
  assumes "length (bt_queue b) + 1 = mx" and "bt_flying b = []" and "(r, k) \<in> set (bt_queue b @ [(r', key)])" and "results k = Some v"
  shows "(r, Inr v) \<in> set (bt_settled (batch_done str 0 (Inr results) (batcher_enqueue mx r' key b)))"
proof -
  have "settle_item str (Inr results) (r, k) = (r, Inr v)" using assms(4) by (simp add: settle_item_def)
  moreover have "bt_settled (batch_done str 0 (Inr results) (batcher_enqueue mx r' key b)) =
      bt_settled b @ map (settle_item str (Inr results)) (bt_queue b @ [(r', key)])"
    using assms(1,2) by (simp add: batcher_enqueue_def batcher_flush_def batch_done_def Let_def)
  ultimately show ?thesis using assms(3) by (simp only: set_append set_map) (metis UnI2 imageI)
qed

end
