(* ===== verification/Secret_Rotation.thy ===== *)
theory Secret_Rotation
  imports Preferences Js_Values Errors
begin

text \<open>
  The rotation of secrets, \<open>secrets_rotation_lambda.ts\<close>: a function that the secrets manager of the cloud provider calls with
  the four steps of a rotation. The secrets manager is an argument; its documented behaviour is the locale
  \<open>secrets_manager\<close>: each staging label is on at most one version of a secret, a version is written once, and moving the
  label of the current version leaves the values. Random bytes are an argument.
\<close>

section \<open>The secrets manager\<close>

record 's secrets_client =
  describeSecret :: "'s \<Rightarrow> string \<Rightarrow> thrown + (string \<times> string list) list"
  getSecretValue :: "'s \<Rightarrow> string \<Rightarrow> string option \<Rightarrow> string \<Rightarrow> thrown + string option"
  putSecretValue :: "'s \<Rightarrow> string \<Rightarrow> string \<Rightarrow> string \<Rightarrow> string list \<Rightarrow> thrown + 's"
  updateSecretVersionStage :: "'s \<Rightarrow> string \<Rightarrow> string \<Rightarrow> string \<Rightarrow> string option \<Rightarrow> thrown + 's"

section \<open>New values\<close>

definition hex_byte :: "nat \<Rightarrow> string" where
  "hex_byte b = [hex_digit (b div 16), hex_digit (b mod 16)]"

definition hex_string :: "nat list \<Rightarrow> string" where
  "hex_string bs = concat (map hex_byte bs)"

definition base64url_digit :: "nat \<Rightarrow> char" where
  "base64url_digit d = ''ABCDEFGHIJKLMNOPQRSTUVWXYZabcdefghijklmnopqrstuvwxyz0123456789-_'' ! (d mod 64)"

fun base64url :: "nat list \<Rightarrow> string" where
  "base64url [] = []"
| "base64url [a] = [base64url_digit (a div 4), base64url_digit (a mod 4 * 16)]"
| "base64url [a, b] = [base64url_digit (a div 4), base64url_digit (a mod 4 * 16 + b div 16), base64url_digit (b mod 16 * 4)]"
| "base64url (a # b # c # bs) =
     base64url_digit (a div 4) # base64url_digit (a mod 4 * 16 + b div 16) # base64url_digit (b mod 16 * 4 + c div 64) #
     base64url_digit (c mod 64) # base64url bs"

definition password_charset :: string where
  "password_charset = ''abcdefghijklmnopqrstuvwxyzABCDEFGHIJKLMNOPQRSTUVWXYZ0123456789!@#$%^&*''"

definition generateNewSecretValue :: "(nat \<Rightarrow> nat list) \<Rightarrow> string \<Rightarrow> string \<Rightarrow> string" where
  "generateNewSecretValue randomBytes secretId currentValue =
     (if js_includes secretId ''jwt'' \<or> js_includes secretId ''secret'' then hex_string (randomBytes 64)
      else if js_includes secretId ''db'' \<or> js_includes secretId ''password''
      then map (\<lambda>b. password_charset ! (b mod length password_charset)) (randomBytes 32)
      else if js_includes secretId ''api'' \<or> js_includes secretId ''key'' then base64url (randomBytes 32)
      else hex_string (randomBytes 32))"

definition testSecretValue :: "string \<Rightarrow> string \<Rightarrow> string + unit" where
  "testSecretValue secretId v =
     (if js_includes secretId ''db-password'' then Inr ()
      else if js_includes secretId ''jwt-secret'' then if length v < 32 then Inl ''JWT secret too short'' else Inr ()
      else if v = [] \<or> length v < 16 then Inl ''Secret value too short''
      else Inr ())"

section \<open>The four steps\<close>

definition createSecret :: "'s secrets_client \<Rightarrow> (nat \<Rightarrow> nat list) \<Rightarrow> string \<Rightarrow> string \<Rightarrow> 's \<Rightarrow> thrown + 's" where
  "createSecret sm randomBytes secretId token s =
     (case describeSecret sm s secretId of
        Inl e \<Rightarrow> Inl e
      | Inr versions \<Rightarrow>
          if ''AWSCURRENT'' \<in> set (or_default (map_of versions token) []) then Inr s
          else case getSecretValue sm s secretId None ''AWSCURRENT'' of
                 Inl e \<Rightarrow> Inl e
               | Inr current \<Rightarrow>
                   if \<not> truthy current then Inl (PlainError ''Current secret has no string value'')
                   else putSecretValue sm s secretId token (generateNewSecretValue randomBytes secretId (the current)) [''AWSPENDING''])"

definition pendingSecret :: "'s secrets_client \<Rightarrow> string \<Rightarrow> string \<Rightarrow> 's \<Rightarrow> thrown + string" where
  "pendingSecret sm secretId token s =
     (case getSecretValue sm s secretId (Some token) ''AWSPENDING'' of
        Inl e \<Rightarrow> Inl e
      | Inr pending \<Rightarrow> if \<not> truthy pending then Inl (PlainError ''Pending secret has no string value'') else Inr (the pending))"

definition setSecret :: "'s secrets_client \<Rightarrow> string \<Rightarrow> string \<Rightarrow> 's \<Rightarrow> thrown + 's" where
  "setSecret sm secretId token s = (case pendingSecret sm secretId token s of Inl e \<Rightarrow> Inl e | Inr v \<Rightarrow> Inr s)"

definition testSecret :: "'s secrets_client \<Rightarrow> string \<Rightarrow> string \<Rightarrow> 's \<Rightarrow> thrown + 's" where
  "testSecret sm secretId token s =
     (case pendingSecret sm secretId token s of
        Inl e \<Rightarrow> Inl e
      | Inr v \<Rightarrow> (case testSecretValue secretId v of
                     Inl msg \<Rightarrow> Inl (PlainError (''Secret test failed: '' @ msg))
                   | Inr _ \<Rightarrow> Inr s))"

definition finishSecret :: "'s secrets_client \<Rightarrow> string \<Rightarrow> string \<Rightarrow> 's \<Rightarrow> thrown + 's" where
  "finishSecret sm secretId token s =
     (case describeSecret sm s secretId of
        Inl e \<Rightarrow> Inl e
      | Inr versions \<Rightarrow>
          let currentVersion = map_option fst (List.find (\<lambda>(version, stages). ''AWSCURRENT'' \<in> set stages) versions)
          in if currentVersion = Some token then Inr s
             else updateSecretVersionStage sm s secretId ''AWSCURRENT'' token currentVersion)"

text \<open>The handler; a failed step is reported and thrown again. The name of the step comes from the caller.\<close>

definition rotation_handler :: "'s secrets_client \<Rightarrow> (nat \<Rightarrow> nat list) \<Rightarrow> string \<Rightarrow> string \<Rightarrow> string \<Rightarrow> 's \<Rightarrow> thrown + 's" where
  "rotation_handler sm randomBytes secretId token stp s =
     (if stp = ''createSecret'' then createSecret sm randomBytes secretId token s
      else if stp = ''setSecret'' then setSecret sm secretId token s
      else if stp = ''testSecret'' then testSecret sm secretId token s
      else if stp = ''finishSecret'' then finishSecret sm secretId token s
      else Inl (PlainError (''Invalid step: '' @ stp)))"

fun rotation_run :: "'s secrets_client \<Rightarrow> (nat \<Rightarrow> nat list) \<Rightarrow> string \<Rightarrow> string \<Rightarrow> string list \<Rightarrow> 's \<Rightarrow> thrown + 's" where
  "rotation_run sm randomBytes secretId token [] s = Inr s"
| "rotation_run sm randomBytes secretId token (stp # steps) s =
     (case rotation_handler sm randomBytes secretId token stp s of
        Inl e \<Rightarrow> Inl e
      | Inr s' \<Rightarrow> rotation_run sm randomBytes secretId token steps s')"

section \<open>What the secrets manager promises\<close>

locale secrets_manager =
  fixes sm :: "'s secrets_client"
    and version_value :: "'s \<Rightarrow> string \<Rightarrow> string \<Rightarrow> string option option"
    and label_on :: "'s \<Rightarrow> string \<Rightarrow> string \<Rightarrow> string option"
  assumes describe: "describeSecret sm s i = Inr vs \<Longrightarrow>
      distinct (map fst vs) \<and> ((\<exists>ls. (v, ls) \<in> set vs \<and> l \<in> set ls) \<longleftrightarrow> label_on s i l = Some v)"
    and get_value: "getSecretValue sm s i vid l = Inr r \<Longrightarrow>
      \<exists>w. label_on s i l = Some w \<and> (vid = None \<or> vid = Some w) \<and> version_value s i w = Some r"
    and put_new: "version_value s i v = None \<Longrightarrow> putSecretValue sm s i v x ls = Inr s' \<Longrightarrow>
      version_value s' = (version_value s)(i := (version_value s i)(v \<mapsto> Some x)) \<and>
      label_on s' = (label_on s)(i := (\<lambda>l. if l \<in> set ls then Some v else label_on s i l))"
    and put_existing: "version_value s i v = Some y \<Longrightarrow> y \<noteq> Some x \<Longrightarrow> \<exists>e. putSecretValue sm s i v x ls = Inl e"
    and move_label: "updateSecretVersionStage sm s i l v old = Inr s' \<Longrightarrow>
      version_value s' = version_value s \<and> label_on s' i l = Some v \<and>
      (\<forall>j m. j = i \<longrightarrow> m \<noteq> l \<longrightarrow> m \<noteq> ''AWSPREVIOUS'' \<longrightarrow> label_on s' j m = label_on s j m) \<and>
      (\<forall>j. j \<noteq> i \<longrightarrow> label_on s' j = label_on s j) \<and>
      (l = ''AWSCURRENT'' \<longrightarrow> label_on s' i ''AWSPREVIOUS'' = label_on s i l)"
begin

lemma described:
  "describeSecret sm s i = Inr vs \<Longrightarrow> l \<in> set (or_default (map_of vs v) []) \<longleftrightarrow> label_on s i l = Some v"
proof -
  assume d: "describeSecret sm s i = Inr vs"
  then have "distinct (map fst vs)" using describe by blast
  then have "(v, ls) \<in> set vs \<longleftrightarrow> map_of vs v = Some ls" for ls by simp
  then have "l \<in> set (or_default (map_of vs v) []) \<longleftrightarrow> (\<exists>ls. (v, ls) \<in> set vs \<and> l \<in> set ls)"
    by (cases "map_of vs v") simp_all
  then show ?thesis using describe [OF d] by blast
qed

lemma current_found:
  assumes "describeSecret sm s i = Inr vs"
  shows "map_option fst (List.find (\<lambda>(v, ls). l \<in> set ls) vs) = label_on s i l"
proof (cases "List.find (\<lambda>(v, ls). l \<in> set ls) vs")
  case None
  then have "\<not> (\<exists>ls. (v, ls) \<in> set vs \<and> l \<in> set ls)" for v by (auto simp: find_None_iff)
  then have "label_on s i l \<noteq> Some v" for v using describe [OF assms, of v l] by blast
  then show ?thesis using None by (cases "label_on s i l") auto
next
  case (Some p)
  then have "p \<in> set vs" "l \<in> set (snd p)" using find_SomeD [OF Some] by auto
  then show ?thesis using Some describe [OF assms, of "fst p" l] by (metis option.simps(9) prod.collapse)
qed

text \<open>Before the last step the current version stays what it is and keeps its value.\<close>

lemma early_step:
  assumes "rotation_handler sm rb i token stp s = Inr s'" and "stp \<noteq> ''finishSecret''"
    and "version_value s i token = None \<or> stp \<noteq> ''createSecret''"
  shows "label_on s' j ''AWSCURRENT'' = label_on s j ''AWSCURRENT''"
    and "version_value s j v = Some x \<Longrightarrow> version_value s' j v = Some x"
proof -
  have "label_on s' j ''AWSCURRENT'' = label_on s j ''AWSCURRENT'' \<and>
      (version_value s j v = Some x \<longrightarrow> version_value s' j v = Some x)" for j v x
  proof (cases "stp = ''createSecret''")
    case True
    then have "s' = s \<or> (\<exists>y. putSecretValue sm s i token y [''AWSPENDING''] = Inr s')"
      using assms(1) by (auto simp: rotation_handler_def createSecret_def split: sum.splits if_splits)
    then show ?thesis using put_new [of s i token _ "[''AWSPENDING'']" s'] assms(3) True by auto
  next
    case False
    then have "s' = s" using assms(1,2)
      by (auto simp: rotation_handler_def setSecret_def testSecret_def split: sum.splits if_splits)
    then show ?thesis by simp
  qed
  then show "label_on s' j ''AWSCURRENT'' = label_on s j ''AWSCURRENT''"
    and "version_value s j v = Some x \<Longrightarrow> version_value s' j v = Some x" by blast+
qed

lemma finish_moves:
  assumes "finishSecret sm i token s = Inr s'"
  shows "label_on s' i ''AWSCURRENT'' = Some token \<and> version_value s' = version_value s \<and>
    (label_on s i ''AWSCURRENT'' \<noteq> Some token \<longrightarrow> label_on s' i ''AWSPREVIOUS'' = label_on s i ''AWSCURRENT'')"
proof -
  obtain vs where vs: "describeSecret sm s i = Inr vs" using assms by (auto simp: finishSecret_def split: sum.splits)
  then have fin: "(if label_on s i ''AWSCURRENT'' = Some token then Inr s
      else updateSecretVersionStage sm s i ''AWSCURRENT'' token (label_on s i ''AWSCURRENT'')) = Inr s'"
    using assms current_found [OF vs] by (simp add: finishSecret_def Let_def)
  show ?thesis
  proof (cases "label_on s i ''AWSCURRENT'' = Some token")
    case False
    then show ?thesis using fin move_label [of s i "''AWSCURRENT''" token "label_on s i ''AWSCURRENT''" s'] by simp
  qed (use fin in simp)
qed

end

text \<open>A manager that answers: requests within the rules succeed.\<close>

locale secrets_available = secrets_manager +
  assumes describe_ok: "\<exists>vs. describeSecret sm s i = Inr vs"
    and get_ok: "label_on s i l = Some w \<Longrightarrow> version_value s i w = Some r \<Longrightarrow> vid = None \<or> vid = Some w \<Longrightarrow>
      getSecretValue sm s i vid l = Inr r"
    and put_ok: "version_value s i v = None \<Longrightarrow> \<exists>s'. putSecretValue sm s i v x ls = Inr s'"
    and move_ok: "version_value s i v = Some r \<Longrightarrow> label_on s i l = old \<Longrightarrow> \<exists>s'. updateSecretVersionStage sm s i l v old = Inr s'"
begin

lemma create_again:
  assumes "createSecret sm rb i token s = Inr s'" and "version_value s i token = None"
    and "label_on s i ''AWSCURRENT'' = Some cur" and "version_value s i cur = Some (Some old)" and "old \<noteq> []"
    and "generateNewSecretValue rb' i old \<noteq> generateNewSecretValue rb i old"
  shows "\<exists>e. createSecret sm rb' i token s' = Inl e"
proof -
  have ct: "cur \<noteq> token" using assms(2,4) by auto
  obtain vs where vs: "describeSecret sm s i = Inr vs" using describe_ok by blast
  have "''AWSCURRENT'' \<notin> set (or_default (map_of vs token) [])" using described [OF vs] assms(3) ct by simp
  then have "putSecretValue sm s i token (generateNewSecretValue rb i old) [''AWSPENDING''] = Inr s'"
    using assms(1,5) vs get_ok [OF assms(3,4), of None] by (simp add: createSecret_def)
  then have p: "version_value s' i token = Some (Some (generateNewSecretValue rb i old))" "label_on s' i ''AWSCURRENT'' = Some cur"
      "version_value s' i cur = Some (Some old)"
    using put_new [OF assms(2)] assms(3,4) ct by fastforce+
  obtain vs' where vs': "describeSecret sm s' i = Inr vs'" using describe_ok by blast
  have "''AWSCURRENT'' \<notin> set (or_default (map_of vs' token) [])" using described [OF vs'] p(2) ct by simp
  moreover obtain e where "putSecretValue sm s' i token (generateNewSecretValue rb' i old) [''AWSPENDING''] = Inl e"
    using put_existing [OF p(1)] assms(6) by fastforce
  ultimately show ?thesis using vs' get_ok [OF p(2,3), of None] assms(5) by (simp add: createSecret_def)
qed

lemma rotation_succeeds:
  assumes "label_on s i ''AWSCURRENT'' = Some cur" and "version_value s i cur = Some (Some old)" and "old \<noteq> []"
    and "version_value s i token = None" and new: "\<And>x. generateNewSecretValue rb i x \<noteq> []"
    and tested: "\<And>x. testSecretValue i (generateNewSecretValue rb i x) = Inr ()"
  shows "\<exists>s'. rotation_run sm rb i token [''createSecret'', ''setSecret'', ''testSecret'', ''finishSecret''] s = Inr s' \<and>
    label_on s' i ''AWSCURRENT'' = Some token \<and> label_on s' i ''AWSPREVIOUS'' = Some cur \<and>
    version_value s' i token = Some (Some (generateNewSecretValue rb i old)) \<and> version_value s' i cur = Some (Some old)"
proof -
  let ?x = "generateNewSecretValue rb i old"
  have ct: "cur \<noteq> token" using assms(2,4) by auto
  obtain vs where vs: "describeSecret sm s i = Inr vs" using describe_ok by blast
  obtain s1 where s1: "putSecretValue sm s i token ?x [''AWSPENDING''] = Inr s1" using put_ok [OF assms(4)] by blast
  have "''AWSCURRENT'' \<notin> set (or_default (map_of vs token) [])" using described [OF vs] assms(1) ct by simp
  then have create: "createSecret sm rb i token s = Inr s1"
    using vs s1 get_ok [OF assms(1,2), of None] assms(3) by (simp add: createSecret_def)
  have p: "version_value s1 i token = Some (Some ?x)" "label_on s1 i ''AWSPENDING'' = Some token"
      "label_on s1 i ''AWSCURRENT'' = Some cur" "version_value s1 i cur = Some (Some old)"
    using put_new [OF assms(4) s1] assms(1,2) ct by simp_all
  have pend: "pendingSecret sm i token s1 = Inr ?x"
    using get_ok [OF p(2,1), of "Some token"] new by (simp add: pendingSecret_def)
  obtain vs1 where vs1: "describeSecret sm s1 i = Inr vs1" using describe_ok by blast
  obtain s2 where s2: "updateSecretVersionStage sm s1 i ''AWSCURRENT'' token (Some cur) = Inr s2" using move_ok [OF p(1,3)] by blast
  have "map_option fst (List.find (\<lambda>(version, stages). ''AWSCURRENT'' \<in> set stages) vs1) = Some cur"
    using current_found [OF vs1] p(3) by simp
  then have fin: "finishSecret sm i token s1 = Inr s2" using vs1 s2 ct by (auto simp: finishSecret_def Let_def)
  have run: "rotation_run sm rb i token [''createSecret'', ''setSecret'', ''testSecret'', ''finishSecret''] s = Inr s2"
    using create pend fin tested by (simp add: rotation_handler_def setSecret_def testSecret_def)
  then show ?thesis using finish_moves [OF fin] p ct by simp
qed

end

subsection \<open>A manager in memory\<close>

record mem_secrets =
  ms_values :: "((string \<times> string) \<times> string option) list"
  ms_labels :: "((string \<times> string) \<times> string) list"

definition mem_holders :: "mem_secrets \<Rightarrow> string \<Rightarrow> (string \<times> string) list" where
  "mem_holders s i =
     map (\<lambda>l. (l, the (map_of (ms_labels s) (i, l))))
       (filter (\<lambda>l. map_of (ms_labels s) (i, l) \<noteq> None) (remdups (map (snd \<circ> fst) (ms_labels s))))"

definition mem_secrets_client :: "mem_secrets secrets_client" where
  "mem_secrets_client =
     \<lparr>describeSecret = (\<lambda>s i. Inr (map (\<lambda>v. (v, map fst (filter (\<lambda>(l, w). w = v) (mem_holders s i)))) (remdups (map snd (mem_holders s i))))),
      getSecretValue = (\<lambda>s i vid l.
        case map_of (ms_labels s) (i, l) of
          None \<Rightarrow> Inl (PlainError ''ResourceNotFoundException'')
        | Some w \<Rightarrow> if vid \<noteq> None \<and> vid \<noteq> Some w then Inl (PlainError ''ResourceNotFoundException'')
                     else case map_of (ms_values s) (i, w) of None \<Rightarrow> Inl (PlainError ''ResourceNotFoundException'') | Some r \<Rightarrow> Inr r),
      putSecretValue = (\<lambda>s i v x ls.
        case map_of (ms_values s) (i, v) of
          None \<Rightarrow> Inr \<lparr>ms_values = AList.update (i, v) (Some x) (ms_values s),
                         ms_labels = fold (\<lambda>l. AList.update (i, l) v) ls (ms_labels s)\<rparr>
        | Some y \<Rightarrow> if y = Some x then Inr s else Inl (PlainError ''ResourceExistsException'')),
      updateSecretVersionStage = (\<lambda>s i l v old.
        if map_of (ms_values s) (i, v) = None \<or> map_of (ms_labels s) (i, l) \<noteq> old then Inl (PlainError ''InvalidParameterException'')
        else let prev = (if l = ''AWSCURRENT''
                         then case old of Some w \<Rightarrow> AList.update (i, ''AWSPREVIOUS'') w (ms_labels s)
                                        | None \<Rightarrow> AList.delete (i, ''AWSPREVIOUS'') (ms_labels s)
                         else ms_labels s)
             in Inr (s\<lparr>ms_labels := AList.update (i, l) v prev\<rparr>))\<rparr>"

definition mem_value :: "mem_secrets \<Rightarrow> string \<Rightarrow> string \<Rightarrow> string option option" where
  "mem_value s i v = map_of (ms_values s) (i, v)"

definition mem_label :: "mem_secrets \<Rightarrow> string \<Rightarrow> string \<Rightarrow> string option" where
  "mem_label s i l = map_of (ms_labels s) (i, l)"

lemma mem_holders_iff: "(l, v) \<in> set (mem_holders s i) \<longleftrightarrow> mem_label s i l = Some v"
proof -
  have "mem_label s i l = Some v \<Longrightarrow> l \<in> (\<lambda>p. snd (fst p)) ` set (ms_labels s)"
    unfolding mem_label_def using map_of_SomeD by force
  then show ?thesis by (auto simp: mem_holders_def mem_label_def comp_def image_iff)
qed

lemma map_of_fold_labels:
  "map_of (fold (\<lambda>l. AList.update (i, l) v) ls m) (j, l) = (if j = i \<and> l \<in> set ls then Some v else map_of m (j, l))"
  by (induction ls arbitrary: m) (auto simp: update_conv')

interpretation memsm: secrets_available mem_secrets_client mem_value mem_label
proof unfold_locales
  fix s i vs v l
  assume "describeSecret mem_secrets_client s i = Inr vs"
  then have vs: "vs = map (\<lambda>v. (v, map fst (filter (\<lambda>(l, w). w = v) (mem_holders s i)))) (remdups (map snd (mem_holders s i)))"
    by (simp add: mem_secrets_client_def)
  have "distinct (map fst vs)" by (simp add: vs comp_def)
  moreover have "(\<exists>ls. (v, ls) \<in> set vs \<and> l \<in> set ls) \<longleftrightarrow> (l, v) \<in> set (mem_holders s i)"
    by (force simp: vs)
  ultimately show "distinct (map fst vs) \<and> ((\<exists>ls. (v, ls) \<in> set vs \<and> l \<in> set ls) \<longleftrightarrow> mem_label s i l = Some v)"
    using mem_holders_iff by simp
next
  fix s i v x ls s'
  assume "mem_value s i v = None" "putSecretValue mem_secrets_client s i v x ls = Inr s'"
  then have "s' = \<lparr>ms_values = AList.update (i, v) (Some x) (ms_values s), ms_labels = fold (\<lambda>l. AList.update (i, l) v) ls (ms_labels s)\<rparr>"
    by (simp add: mem_secrets_client_def mem_value_def)
  then show "mem_value s' = (mem_value s)(i := (mem_value s i)(v \<mapsto> Some x)) \<and>
      mem_label s' = (mem_label s)(i := (\<lambda>l. if l \<in> set ls then Some v else mem_label s i l))"
    by (auto simp: mem_value_def mem_label_def fun_eq_iff update_conv' map_of_fold_labels)
next
  fix s i l v old s'
  assume "updateSecretVersionStage mem_secrets_client s i l v old = Inr s'"
  then show "mem_value s' = mem_value s \<and> mem_label s' i l = Some v \<and>
      (\<forall>j m. j = i \<longrightarrow> m \<noteq> l \<longrightarrow> m \<noteq> ''AWSPREVIOUS'' \<longrightarrow> mem_label s' j m = mem_label s j m) \<and>
      (\<forall>j. j \<noteq> i \<longrightarrow> mem_label s' j = mem_label s j) \<and>
      (l = ''AWSCURRENT'' \<longrightarrow> mem_label s' i ''AWSPREVIOUS'' = mem_label s i l)"
    by (auto simp: mem_secrets_client_def mem_value_def mem_label_def fun_eq_iff update_conv' delete_conv' Let_def
        split: if_splits option.splits)
qed (auto simp: mem_secrets_client_def mem_value_def mem_label_def split: option.splits if_splits)

section \<open>Properties\<close>

lemma js_includes_infix: "js_includes (a @ p @ b) p"
proof -
  have "startsWith (drop (length a) (a @ p @ b)) p" by (simp add: startsWith_def)
  then show ?thesis unfolding js_includes_def list_ex_iff by (intro bexI [of _ "length a"]) auto
qed

lemma length_hex_string: "length (hex_string bs) = 2 * length bs"
  by (induction bs) (simp_all add: hex_string_def hex_byte_def)

lemma length_base64url: "length (base64url bs) = (4 * length bs + 2) div 3"
  by (induction bs rule: base64url.induct) auto

lemma generated_length:
  assumes "\<And>n. length (rb n) = n"
  shows "32 \<le> length (generateNewSecretValue rb i x)"
  by (simp add: generateNewSecretValue_def length_hex_string length_base64url assms)

lemma generated_passes:
  assumes "\<And>n. length (rb n) = n"
  shows "testSecretValue i (generateNewSecretValue rb i x) = Inr ()" and "generateNewSecretValue rb i x \<noteq> []"
proof -
  have "\<not> length (generateNewSecretValue rb i x) < 32" using generated_length [where rb = rb and i = i and x = x] assms by simp
  then show "testSecretValue i (generateNewSecretValue rb i x) = Inr ()" and "generateNewSecretValue rb i x \<noteq> []"
    by (auto simp: testSecretValue_def)
qed

text \<open>With a manager that answers, a rotation of a secret that has a current value runs to its end: the new version is
  current and holds the generated value, the old one is the previous version and still readable. The test step, which only
  looks at the length, accepts every generated value.\<close>

theorem rotation_completes:
  assumes "secrets_available sm val label" and "\<And>n. length (rb n) = n"
    and "label s i ''AWSCURRENT'' = Some cur" and "val s i cur = Some (Some old)" and "old \<noteq> []" and "val s i token = None"
  shows "\<exists>s'. rotation_run sm rb i token [''createSecret'', ''setSecret'', ''testSecret'', ''finishSecret''] s = Inr s' \<and>
    label s' i ''AWSCURRENT'' = Some token \<and> label s' i ''AWSPREVIOUS'' = Some cur \<and>
    val s' i token = Some (Some (generateNewSecretValue rb i old)) \<and> val s' i cur = Some (Some old)"
  by (rule secrets_available.rotation_succeeds [OF assms(1), OF assms(3-6) generated_passes(2) generated_passes(1), OF assms(2) assms(2)])

definition sample_secrets :: mem_secrets where
  "sample_secrets = \<lparr>ms_values = [((''api-key'', ''v1''), Some ''old'')], ms_labels = [((''api-key'', ''AWSCURRENT''), ''v1'')]\<rparr>"

theorem rotation_completes_witness:
  "\<exists>s'. rotation_run mem_secrets_client (\<lambda>n. replicate n 0) ''api-key'' ''v2''
        [''createSecret'', ''setSecret'', ''testSecret'', ''finishSecret''] sample_secrets = Inr s' \<and>
      mem_label s' ''api-key'' ''AWSCURRENT'' = Some ''v2'' \<and> mem_label s' ''api-key'' ''AWSPREVIOUS'' = Some ''v1'' \<and>
      mem_value s' ''api-key'' ''v2'' = Some (Some (generateNewSecretValue (\<lambda>n. replicate n 0) ''api-key'' ''old'')) \<and>
      mem_value s' ''api-key'' ''v1'' = Some (Some ''old'')"
  by (rule rotation_completes [OF memsm.secrets_available_axioms])
    (simp_all add: sample_secrets_def mem_label_def mem_value_def)

text \<open>No step but the last changes which version of any secret is current, or any value that is there: a rotation that fails
  half-way does no harm.\<close>

theorem current_kept_until_finish:
  assumes "secrets_manager sm val label" and "rotation_handler sm rb i token stp s = Inr s'" and "stp \<noteq> ''finishSecret''"
    and "val s i token = None \<or> stp \<noteq> ''createSecret''"
  shows "label s' j ''AWSCURRENT'' = label s j ''AWSCURRENT'' \<and> (val s j v = Some x \<longrightarrow> val s' j v = Some x)"
  using secrets_manager.early_step [OF assms(1), OF assms(2-4)] by blast

text \<open>A first step that is repeated, as happens after a time-out, fails: it looks for the label of the current version on
  the version that the first attempt wrote, which has the label of the pending one, and generates another value, which the
  manager refuses to write over the first.\<close>

theorem create_not_repeatable:
  assumes "secrets_available sm val label" and "createSecret sm rb i token s = Inr s'" and "val s i token = None"
    and "label s i ''AWSCURRENT'' = Some cur" and "val s i cur = Some (Some old)" and "old \<noteq> []"
    and "generateNewSecretValue rb' i old \<noteq> generateNewSecretValue rb i old"
  shows "\<exists>e. createSecret sm rb' i token s' = Inl e"
  by (rule secrets_available.create_again [OF assms(1), OF assms(2-7)])

theorem create_not_repeatable_witness:
  "\<exists>s' e. createSecret mem_secrets_client (\<lambda>n. replicate n 0) ''api-key'' ''v2'' sample_secrets = Inr s' \<and>
     createSecret mem_secrets_client (\<lambda>n. replicate n 1) ''api-key'' ''v2'' s' = Inl e"
proof -
  have "\<not> isl (createSecret mem_secrets_client (\<lambda>n. replicate n 0) ''api-key'' ''v2'' sample_secrets)" by code_simp
  then obtain s' where s': "createSecret mem_secrets_client (\<lambda>n. replicate n 0) ''api-key'' ''v2'' sample_secrets = Inr s'"
    using sum.collapse(2) by metis
  moreover have "\<exists>e. createSecret mem_secrets_client (\<lambda>n. replicate n 1) ''api-key'' ''v2'' s' = Inl e"
  proof (rule create_not_repeatable [OF memsm.secrets_available_axioms s'])
    show "generateNewSecretValue (\<lambda>n. replicate n 1) ''api-key'' ''old'' \<noteq> generateNewSecretValue (\<lambda>n. replicate n 0) ''api-key'' ''old''"
      by code_simp
  qed (simp_all add: sample_secrets_def mem_label_def mem_value_def)
  ultimately show ?thesis by blast
qed

text \<open>The caller passes the resource name of the secret, which contains the word \<open>secret\<close> whatever the secret is called: each
  rotation generates 128 hexadecimal digits, and the branches for passwords and keys are never taken.\<close>

theorem resource_name_hides_type:
  "generateNewSecretValue rb (''arn:aws:secretsmanager:'' @ region @ '':'' @ account @ '':secret:'' @ name) x = hex_string (rb 64)"
proof -
  have "js_includes ((''arn:aws:secretsmanager:'' @ region @ '':'' @ account @ '':'') @ ''secret'' @ ('':'' @ name)) ''secret''"
    by (rule js_includes_infix)
  then show ?thesis by (simp add: generateNewSecretValue_def)
qed

end
