(* ===== verification/Secrets_Service.thy ===== *)
theory Secrets_Service
  imports Secret_Rotation
begin

text \<open>
  The client side of the secrets manager, \<open>secrets_manager_service.ts\<close>: reads through a cache of five minutes, updates,
  rotation on demand, the status of rotations and the loading of secrets at start-up. A read is two events: the look into
  the cache with the request, and the arrival of the answer, between which other calls may run. What the manager answers
  is an argument of each operation. Tags, descriptions and the creation of secrets pass values on and are left out.
\<close>

record cached_secret =
  cs_value :: string
  cs_expiry :: int

type_synonym secret_cache = "(string \<times> cached_secret) list"

definition CACHE_TTL_MS :: int where "CACHE_TTL_MS = 5 * 60 * 1000"

record metadata =
  md_nextRotation :: "int option"
  md_rotationEnabled :: bool

section \<open>Operations\<close>

definition cached_value :: "bool \<Rightarrow> int \<Rightarrow> string \<Rightarrow> secret_cache \<Rightarrow> string option" where
  "cached_value useCache now name c =
     (if useCache
      then case map_of c name of Some e \<Rightarrow> if cs_expiry e > now then Some (cs_value e) else None | None \<Rightarrow> None
      else None)"

definition getSecret_answer :: "bool \<Rightarrow> int \<Rightarrow> string \<Rightarrow> thrown + string option \<Rightarrow> secret_cache \<Rightarrow> (thrown + string) \<times> secret_cache" where
  "getSecret_answer useCache later name response c =
     (case response of
        Inl e \<Rightarrow> (Inl (PlainError (''Failed to retrieve secret '' @ name @ '': '' @ err_message e)), c)
      | Inr str \<Rightarrow>
          if \<not> truthy str
          then (Inl (PlainError (''Failed to retrieve secret '' @ name @ '': Secret '' @ name @ '' has no string value'')), c)
          else (Inr (the str), if useCache then AList.update name \<lparr>cs_value = the str, cs_expiry = later + CACHE_TTL_MS\<rparr> c else c))"

definition getSecret :: "bool \<Rightarrow> int \<Rightarrow> int \<Rightarrow> string \<Rightarrow> thrown + string option \<Rightarrow> secret_cache \<Rightarrow> (thrown + string) \<times> secret_cache" where
  "getSecret useCache now later name response c =
     (case cached_value useCache now name c of
        Some v \<Rightarrow> (Inr v, c)
      | None \<Rightarrow> getSecret_answer useCache later name response c)"

text \<open>Updating and triggering a rotation drop the cached value once the manager has accepted.\<close>

definition updateSecret :: "string \<Rightarrow> thrown + unit \<Rightarrow> secret_cache \<Rightarrow> (thrown + unit) \<times> secret_cache" where
  "updateSecret name response c = (case response of Inl e \<Rightarrow> (Inl e, c) | Inr _ \<Rightarrow> (Inr (), AList.delete name c))"

definition rotateSecret :: "string \<Rightarrow> thrown + unit \<Rightarrow> secret_cache \<Rightarrow> (thrown + unit) \<times> secret_cache" where
  "rotateSecret name response c = (case response of Inl e \<Rightarrow> (Inl e, c) | Inr _ \<Rightarrow> (Inr (), AList.delete name c))"

definition clearSecretCache :: "string option \<Rightarrow> secret_cache \<Rightarrow> secret_cache" where
  "clearSecretCache name c = (if truthy name then AList.delete (the name) c else [])"

text \<open>The reads of a batch run side by side; each looks into the cache before the answers arrive.\<close>

definition getSecrets :: "int \<Rightarrow> int \<Rightarrow> (string \<Rightarrow> thrown + string option) \<Rightarrow> string list \<Rightarrow> secret_cache \<Rightarrow> (string \<times> string) list \<times> secret_cache" where
  "getSecrets now later response names c =
     fold (\<lambda>name (results, c').
             case cached_value True now name c of
               Some v \<Rightarrow> (AList.update name v results, c')
             | None \<Rightarrow> (case getSecret_answer True later name (response name) c' of
                           (Inr v, c'') \<Rightarrow> (AList.update name v results, c'')
                         | (Inl _, c'') \<Rightarrow> (results, c'')))
       names ([], c)"

record rotation_status =
  rs_upToDate :: "string list"
  rs_needsRotation :: "string list"
  rs_failed :: "string list"

definition check_rotation :: "int \<Rightarrow> (string \<Rightarrow> thrown + metadata) \<Rightarrow> string \<Rightarrow> rotation_status \<Rightarrow> rotation_status" where
  "check_rotation now meta name r =
     (case meta name of
        Inl e \<Rightarrow> r\<lparr>rs_failed := rs_failed r @ [name]\<rparr>
      | Inr m \<Rightarrow>
          if \<not> md_rotationEnabled m then r\<lparr>rs_needsRotation := rs_needsRotation r @ [name]\<rparr>
          else case md_nextRotation m of
                 Some t \<Rightarrow> if t < now then r\<lparr>rs_needsRotation := rs_needsRotation r @ [name]\<rparr> else r\<lparr>rs_upToDate := rs_upToDate r @ [name]\<rparr>
               | None \<Rightarrow> r\<lparr>rs_upToDate := rs_upToDate r @ [name]\<rparr>)"

definition checkRotationStatus :: "int \<Rightarrow> (string \<Rightarrow> thrown + metadata) \<Rightarrow> string list \<Rightarrow> rotation_status" where
  "checkRotationStatus now meta names =
     fold (check_rotation now meta) names \<lparr>rs_upToDate = [], rs_needsRotation = [], rs_failed = []\<rparr>"

definition secretConfigs :: "(string \<times> string) list" where
  "secretConfigs = [(''stellar-save/jwt-secret'', ''JWT_SECRET''), (''stellar-save/admin-secret'', ''ADMIN_SECRET''),
     (''stellar-save/db-password'', ''DB_PASSWORD'')]"

definition load_secret :: "int \<Rightarrow> (string \<Rightarrow> thrown + string option) \<Rightarrow> string \<times> string \<Rightarrow> (string \<rightharpoonup> string) \<times> secret_cache \<Rightarrow> (string \<rightharpoonup> string) \<times> secret_cache" where
  "load_secret now response cfg s =
     (case getSecret True now now (fst cfg) (response (fst cfg)) (snd s) of
        (Inr v, c) \<Rightarrow> ((fst s)(snd cfg \<mapsto> v), c)
      | (Inl _, c) \<Rightarrow> (fst s, c))"

definition initializeSecrets :: "int \<Rightarrow> (string \<Rightarrow> thrown + string option) \<Rightarrow> (string \<rightharpoonup> string) \<times> secret_cache \<Rightarrow> (string \<rightharpoonup> string) \<times> secret_cache" where
  "initializeSecrets now response = fold (load_secret now response) secretConfigs"

section \<open>How old a cached secret can be\<close>

text \<open>\<open>cur t name\<close> is the current value at the manager at time \<open>t\<close>, which may change at any time. Answers on their way are
  kept with the time at which the manager gave them, and arrive within \<open>lat\<close> milliseconds.\<close>

record secrets_run =
  sr_now :: int
  sr_cache :: secret_cache
  sr_answers :: "(string \<times> string \<times> int) list"

inductive secrets_step :: "(int \<Rightarrow> string \<Rightarrow> string option) \<Rightarrow> int \<Rightarrow> secrets_run \<Rightarrow> secrets_run \<Rightarrow> bool" for cur and lat where
  tick: "sr_now r \<le> t \<Longrightarrow> secrets_step cur lat r (r\<lparr>sr_now := t\<rparr>)"
| fetched: "cached_value True (sr_now r) name (sr_cache r) = None \<Longrightarrow> cur (sr_now r) name = Some v \<Longrightarrow>
    secrets_step cur lat r (r\<lparr>sr_answers := (name, v, sr_now r) # sr_answers r\<rparr>)"
| arrived: "(name, v, t) \<in> set (sr_answers r) \<Longrightarrow> sr_now r \<le> t + lat \<Longrightarrow>
    secrets_step cur lat r (r\<lparr>sr_cache := snd (getSecret_answer True (sr_now r) name (Inr (Some v)) (sr_cache r)),
      sr_answers := remove1 (name, v, t) (sr_answers r)\<rparr>)"
| updated: "secrets_step cur lat r (r\<lparr>sr_cache := snd (updateSecret name resp (sr_cache r))\<rparr>)"
| rotated: "secrets_step cur lat r (r\<lparr>sr_cache := snd (rotateSecret name resp (sr_cache r))\<rparr>)"
| cleared: "secrets_step cur lat r (r\<lparr>sr_cache := clearSecretCache target (sr_cache r)\<rparr>)"

definition secrets_ok :: "(int \<Rightarrow> string \<Rightarrow> string option) \<Rightarrow> int \<Rightarrow> secrets_run \<Rightarrow> bool" where
  "secrets_ok cur lat r \<longleftrightarrow>
     (\<forall>name v t. (name, v, t) \<in> set (sr_answers r) \<longrightarrow> cur t name = Some v \<and> t \<le> sr_now r) \<and>
     (\<forall>name e. map_of (sr_cache r) name = Some e \<longrightarrow>
        (\<exists>t. cur t name = Some (cs_value e) \<and> t \<le> sr_now r \<and> cs_expiry e \<le> t + lat + CACHE_TTL_MS))"

lemma secrets_ok_sub:
  assumes "secrets_ok cur lat r" and "\<And>n e. map_of c n = Some e \<Longrightarrow> map_of (sr_cache r) n = Some e"
  shows "secrets_ok cur lat (r\<lparr>sr_cache := c\<rparr>)"
  using assms by (auto simp: secrets_ok_def)

lemma map_of_delete_sub: "map_of (AList.delete k c) n = Some e \<Longrightarrow> map_of c n = Some e"
  by (simp add: delete_conv' split: if_splits)

lemma secrets_step_ok: "secrets_step cur lat r r' \<Longrightarrow> secrets_ok cur lat r \<Longrightarrow> secrets_ok cur lat r'"
proof (induction rule: secrets_step.induct)
  case (tick r t)
  then show ?case unfolding secrets_ok_def by (fastforce intro: order_trans)
next
  case (fetched r name v)
  then show ?case by (auto simp: secrets_ok_def)
next
  case (arrived name v t r)
  have a: "cur t name = Some v" "t \<le> sr_now r" using arrived(1,3) by (auto simp: secrets_ok_def)
  have "map_of (snd (getSecret_answer True (sr_now r) name (Inr (Some v)) (sr_cache r))) n = Some e \<Longrightarrow>
      map_of (sr_cache r) n = Some e \<or> n = name \<and> cs_value e = v \<and> cs_expiry e = sr_now r + CACHE_TTL_MS" for n e
    by (auto simp: getSecret_answer_def update_conv' split: if_splits)
  moreover have "(n, w, u) \<in> set (remove1 (name, v, t) (sr_answers r)) \<Longrightarrow> (n, w, u) \<in> set (sr_answers r)" for n w u
    using set_remove1_subset by (rule subsetD)
  ultimately show ?case using arrived(2,3) a unfolding secrets_ok_def by fastforce
qed (auto simp: updateSecret_def rotateSecret_def clearSecretCache_def intro!: secrets_ok_sub dest: map_of_delete_sub split: sum.splits if_splits)

text \<open>In every interleaving of reads, updates, rotations and changes at the manager, a secret served from the cache was the
  current one less than five minutes and the latency of a request ago.\<close>

theorem cached_secret_recent:
  assumes "(secrets_step cur lat)\<^sup>*\<^sup>* \<lparr>sr_now = t0, sr_cache = [], sr_answers = []\<rparr> r" and "cached_value True (sr_now r) name (sr_cache r) = Some v"
  shows "\<exists>t. cur t name = Some v \<and> t \<le> sr_now r \<and> sr_now r - (CACHE_TTL_MS + lat) < t"
proof -
  have "secrets_ok cur lat \<lparr>sr_now = t0, sr_cache = [], sr_answers = []\<rparr>" by (simp add: secrets_ok_def)
  with assms(1) have "secrets_ok cur lat r" by (induction rule: rtranclp_induct) (auto intro: secrets_step_ok)
  moreover obtain e where "map_of (sr_cache r) name = Some e" "cs_value e = v" "sr_now r < cs_expiry e"
    using assms(2) by (auto simp: cached_value_def split: option.splits if_splits)
  ultimately show ?thesis unfolding secrets_ok_def by force
qed

text \<open>A read that was on its way while the secret was updated brings the old value back into the cache: it is served for
  five more minutes although the update, which drops the cached value, is complete.\<close>

theorem overlapping_read_undoes_update:
  assumes "old \<noteq> []" and "now < later + CACHE_TTL_MS"
  shows "cached_value True now name
    (snd (getSecret_answer True later name (Inr (Some old)) (snd (updateSecret name (Inr ()) c)))) = Some old"
  using assms by (simp add: cached_value_def getSecret_answer_def updateSecret_def update_conv')

text \<open>A rotation on demand only starts the rotation and drops the cached value at once. A read before the rotation has
  ended caches the old value, which is then served although the manager has the new one.\<close>

theorem rotated_secret_served_stale:
  assumes "secrets_available sm val label" and "\<And>n. length (rb n) = n"
    and "label s i ''AWSCURRENT'' = Some cur" and "val s i cur = Some (Some old)" and "old \<noteq> []" and "val s i token = None"
    and "now < later + CACHE_TTL_MS"
  shows "\<exists>s'. rotation_run sm rb i token [''createSecret'', ''setSecret'', ''testSecret'', ''finishSecret''] s = Inr s' \<and>
    getSecretValue sm s' i None ''AWSCURRENT'' = Inr (Some (generateNewSecretValue rb i old)) \<and>
    fst (getSecret True now now i (getSecretValue sm s' i None ''AWSCURRENT'')
      (snd (getSecret_answer True later i (getSecretValue sm s i None ''AWSCURRENT'') (snd (rotateSecret i (Inr ()) c))))) = Inr old"
proof -
  obtain s' where s': "rotation_run sm rb i token [''createSecret'', ''setSecret'', ''testSecret'', ''finishSecret''] s = Inr s'"
      "label s' i ''AWSCURRENT'' = Some token" "val s' i token = Some (Some (generateNewSecretValue rb i old))"
    using secrets_available.rotation_succeeds [OF assms(1), OF assms(3-6) generated_passes(2) generated_passes(1), OF assms(2) assms(2)]
    by blast
  have "getSecretValue sm s i None ''AWSCURRENT'' = Inr (Some old)"
    by (rule secrets_available.get_ok [OF assms(1), OF assms(3,4)]) simp
  moreover have "getSecretValue sm s' i None ''AWSCURRENT'' = Inr (Some (generateNewSecretValue rb i old))"
    by (rule secrets_available.get_ok [OF assms(1), OF s'(2,3)]) simp
  ultimately show ?thesis using s'(1) assms(5,7)
    by (simp add: getSecret_def cached_value_def getSecret_answer_def update_conv')
qed

section \<open>Status and start-up\<close>

definition needs_rotation :: "int \<Rightarrow> metadata \<Rightarrow> bool" where
  "needs_rotation now m \<longleftrightarrow> \<not> md_rotationEnabled m \<or> (\<exists>t. md_nextRotation m = Some t \<and> t < now)"

lemma check_rotation_fold:
  "fold (check_rotation now meta) names r =
     \<lparr>rs_upToDate = rs_upToDate r @ filter (\<lambda>n. \<exists>m. meta n = Inr m \<and> \<not> needs_rotation now m) names,
      rs_needsRotation = rs_needsRotation r @ filter (\<lambda>n. \<exists>m. meta n = Inr m \<and> needs_rotation now m) names,
      rs_failed = rs_failed r @ filter (\<lambda>n. \<exists>e. meta n = Inl e) names\<rparr>"
proof (induction names arbitrary: r)
  case (Cons n names)
  have "check_rotation now meta n r =
      r\<lparr>rs_upToDate := rs_upToDate r @ (if \<exists>m. meta n = Inr m \<and> \<not> needs_rotation now m then [n] else []),
        rs_needsRotation := rs_needsRotation r @ (if \<exists>m. meta n = Inr m \<and> needs_rotation now m then [n] else []),
        rs_failed := rs_failed r @ (if \<exists>e. meta n = Inl e then [n] else [])\<rparr>"
    by (cases "meta n") (simp_all add: check_rotation_def needs_rotation_def split: option.splits)
  then show ?case by (auto simp: Cons.IH)
qed simp

text \<open>The status of rotations puts every secret into exactly one list: failed when its metadata cannot be read, in need of a
  rotation when that is disabled or overdue, and up to date otherwise.\<close>

theorem rotation_status_exact:
  "checkRotationStatus now meta names =
     \<lparr>rs_upToDate = filter (\<lambda>n. \<exists>m. meta n = Inr m \<and> md_rotationEnabled m \<and> (\<forall>t. md_nextRotation m = Some t \<longrightarrow> now \<le> t)) names,
      rs_needsRotation = filter (\<lambda>n. \<exists>m. meta n = Inr m \<and> (\<not> md_rotationEnabled m \<or> (\<exists>t. md_nextRotation m = Some t \<and> t < now))) names,
      rs_failed = filter (\<lambda>n. \<exists>e. meta n = Inl e) names\<rparr>"
proof -
  have "\<not> needs_rotation now m \<longleftrightarrow> md_rotationEnabled m \<and> (\<forall>t. md_nextRotation m = Some t \<longrightarrow> now \<le> t)" for m
    by (auto simp: needs_rotation_def)
  then show ?thesis by (simp add: checkRotationStatus_def check_rotation_fold needs_rotation_def)
qed

definition overriding :: "(string \<Rightarrow> thrown + string option) \<Rightarrow> string \<Rightarrow> string option" where
  "overriding response name = (case response name of Inr (Some v) \<Rightarrow> if v = [] then None else Some v | _ \<Rightarrow> None)"

lemma load_secret_miss:
  assumes "map_of (snd s) name = None"
  shows "fst (load_secret now response (name, var) s) =
      (case overriding response name of Some v \<Rightarrow> (fst s)(var \<mapsto> v) | None \<Rightarrow> fst s)"
    and "n \<noteq> name \<Longrightarrow> map_of (snd (load_secret now response (name, var) s)) n = map_of (snd s) n"
proof -
  have "cached_value True now name (snd s) = None" using assms by (simp add: cached_value_def)
  then have "getSecret True now now name (response name) (snd s) = getSecret_answer True now name (response name) (snd s)"
    by (simp add: getSecret_def)
  then show "fst (load_secret now response (name, var) s) =
      (case overriding response name of Some v \<Rightarrow> (fst s)(var \<mapsto> v) | None \<Rightarrow> fst s)"
    and "n \<noteq> name \<Longrightarrow> map_of (snd (load_secret now response (name, var) s)) n = map_of (snd s) n"
    by (auto simp: load_secret_def getSecret_answer_def overriding_def update_conv' split: sum.splits option.splits)
qed

lemma load_secrets_env:
  assumes "distinct (map fst cfgs)" and "distinct (map snd cfgs)" and "\<forall>name \<in> fst ` set cfgs. map_of (snd s) name = None"
  shows "fst (fold (load_secret now response) cfgs s) var =
    (case Option.bind (map_of (map prod.swap cfgs) var) (overriding response) of Some v \<Rightarrow> Some v | None \<Rightarrow> fst s var)"
  using assms
proof (induction cfgs arbitrary: s)
  case (Cons cfg cfgs)
  obtain name w where cfg: "cfg = (name, w)" by fastforce
  let ?s = "load_secret now response (name, w) s"
  have m: "map_of (snd s) name = None" using Cons.prems(3) cfg by simp
  have "\<forall>n \<in> fst ` set cfgs. map_of (snd ?s) n = None"
    using Cons.prems load_secret_miss(2) [OF m] cfg by (metis distinct.simps(2) image_set insertI2 list.set(2) list.simps(9) fst_conv image_insert)
  then have IH: "fst (fold (load_secret now response) cfgs ?s) var =
      (case Option.bind (map_of (map prod.swap cfgs) var) (overriding response) of Some v \<Rightarrow> Some v | None \<Rightarrow> fst ?s var)"
    using Cons by simp
  have "map_of (map prod.swap cfgs) w = None"
    using Cons.prems(2) cfg by (force simp: map_of_eq_None_iff)
  then show ?case using IH load_secret_miss(1) [OF m] cfg by (auto split: option.splits)
qed simp

text \<open>At start-up a secret that the manager has as a non-empty text replaces its variable of the environment; one that it does
  not have, or that cannot be read, leaves the variable, and no other variable changes.\<close>

theorem startup_overrides_exactly:
  "fst (initializeSecrets now response (env, [])) var =
    (case Option.bind (map_of [(''JWT_SECRET'', ''stellar-save/jwt-secret''), (''ADMIN_SECRET'', ''stellar-save/admin-secret''),
                               (''DB_PASSWORD'', ''stellar-save/db-password'')] var)
            (\<lambda>name. case response name of Inr (Some v) \<Rightarrow> if v = [] then None else Some v | _ \<Rightarrow> None) of
       Some v \<Rightarrow> Some v
     | None \<Rightarrow> env var)"
proof -
  have "distinct (map fst secretConfigs)" "distinct (map snd secretConfigs)" by (simp_all add: secretConfigs_def)
  from load_secrets_env [OF this, of "(env, [])" now response var] show ?thesis
    by (simp add: initializeSecrets_def secretConfigs_def overriding_def [abs_def] cong: option.case_cong)
qed

end
