(* ===== verification/Funnel.thy ===== *)
theory Funnel
  imports Js_Values "HOL-Library.List_Lexorder" "HOL-Library.Char_ord"
begin

text \<open>
  Funnel analytics, \<open>analytics/funnel.ts\<close>: events of users, kept per day and user, the conversion from stage to stage,
  retention by week and segments by an attribute. The store is a \<open>Map\<close>, an association list in the order of insertion.
  \<open>String\<close> on an attribute is an argument. Local time is at a constant distance from UTC, in minutes.
\<close>

section \<open>Data\<close>

datatype FunnelStage = landing | wallet_connect | group_view | group_join | first_contribution | payout_received

record FunnelEvent =
  fe_userId :: string
  fe_stage :: FunnelStage
  fe_timestamp :: int
  fe_attributes :: "string \<rightharpoonup> json"

record CohortEntry =
  ce_cohortDate :: string
  ce_userId :: string
  ce_stages :: "(FunnelStage \<times> int) list"

type_synonym cohorts = "(string \<times> CohortEntry) list"

datatype funnel_name = onboarding | activation | full_cycle

fun FUNNELS :: "funnel_name \<Rightarrow> FunnelStage list" where
  "FUNNELS onboarding = [landing, wallet_connect, group_view, group_join]"
| "FUNNELS activation = [group_join, first_contribution]"
| "FUNNELS full_cycle = [landing, wallet_connect, group_join, first_contribution, payout_received]"

record stage_result =
  sg_stage :: FunnelStage
  sg_users :: nat
  sg_conversionRate :: rat

section \<open>Operations\<close>

definition cohort_date :: "int \<Rightarrow> string" where
  "cohort_date t = take 10 (toISOString t)"

definition trackEvent :: "FunnelEvent \<Rightarrow> cohorts \<Rightarrow> cohorts" where
  "trackEvent ev store =
     (let cohortDate = cohort_date (fe_timestamp ev); key = cohortDate @ '':'' @ fe_userId ev;
          entry = or_default (map_of store key) \<lparr>ce_cohortDate = cohortDate, ce_userId = fe_userId ev, ce_stages = []\<rparr>
      in AList.update key (entry\<lparr>ce_stages := AList.update (fe_stage ev) (fe_timestamp ev) (ce_stages entry)\<rparr>) store)"

definition reached :: "FunnelStage \<Rightarrow> CohortEntry \<Rightarrow> bool" where
  "reached stage e \<longleftrightarrow> map_of (ce_stages e) stage \<noteq> None"

definition analyzeFunnel :: "funnel_name \<Rightarrow> string \<Rightarrow> string \<Rightarrow> cohorts \<Rightarrow> stage_result list" where
  "analyzeFunnel funnelName begin_date end_date store =
     (let stages = FUNNELS funnelName;
          entries = filter (\<lambda>e. ce_cohortDate e \<ge> begin_date \<and> ce_cohortDate e \<le> end_date) (map snd store)
      in map (\<lambda>i. let stage = stages ! i;
                       users = length (filter (reached stage) entries);
                       prev = (if i = 0 then length entries else length (filter (reached (stages ! (i - 1))) entries))
                   in \<lparr>sg_stage = stage, sg_users = users,
                       sg_conversionRate = (if prev > 0 then of_nat users / of_nat prev else 0)\<rparr>)
           [0..<length stages])"

text \<open>The week of a date. The date is midnight UTC, of which local time takes the day; then the Thursday of that day's week
  gives the year, and the distance to the week of the fourth of January the number.\<close>

definition weekday :: "int \<Rightarrow> int" where
  "weekday d = (d + 4) mod 7"

definition local_day :: "int \<Rightarrow> int \<Rightarrow> int" where
  "local_day tz d = (d * MS_PER_DAY + tz * 60000) div MS_PER_DAY"

definition iso_week :: "int \<Rightarrow> int \<Rightarrow> int \<times> int" where
  "iso_week tz day =
     (let ld = local_day tz day; d = ld + 3 - (weekday ld + 6) mod 7; year = fst (civil_from_days d);
          week1 = days_from_civil year 1 4
      in (year, 1 + math_round (of_int (d - week1 - 3 + (weekday week1 + 6) mod 7) / 7)))"

definition date_only :: "string \<Rightarrow> int" where
  "date_only s = days_from_civil (digits_at 0 4 s) (digits_at 5 2 s) (digits_at 8 2 s)"

definition getISOWeek :: "int \<Rightarrow> string \<Rightarrow> string" where
  "getISOWeek tz s = (let (year, n) = iso_week tz (date_only s) in string_of_int year @ ''-W'' @ pad 2 n)"

definition count_stages :: "FunnelStage list \<Rightarrow> CohortEntry \<Rightarrow> (FunnelStage \<Rightarrow> nat) \<Rightarrow> FunnelStage \<Rightarrow> nat" where
  "count_stages stages e counts = fold (\<lambda>stage c. c(stage := c stage + (if reached stage e then 1 else 0))) stages counts"

definition cohortRetention :: "int \<Rightarrow> funnel_name \<Rightarrow> cohorts \<Rightarrow> (string \<times> (FunnelStage \<Rightarrow> nat)) list" where
  "cohortRetention tz funnelName store =
     fold (\<lambda>e result. let week = getISOWeek tz (ce_cohortDate e)
                       in AList.update week (count_stages (FUNNELS funnelName) e (or_default (map_of result week) (\<lambda>_. 0))) result)
       (map snd store) []"

definition segment_of :: "(json \<Rightarrow> string) \<Rightarrow> string \<Rightarrow> FunnelEvent \<Rightarrow> string" where
  "segment_of str segmentKey e = (case fe_attributes e segmentKey of Some v \<Rightarrow> if v = JNull then ''unknown'' else str v | None \<Rightarrow> ''unknown'')"

definition add_segment :: "(json \<Rightarrow> string) \<Rightarrow> string \<Rightarrow> FunnelEvent \<Rightarrow> (string \<times> FunnelEvent list) list \<Rightarrow> (string \<times> FunnelEvent list) list" where
  "add_segment str segmentKey e m =
     (let v = segment_of str segmentKey e in AList.update v (or_default (map_of m v) [] @ [e]) m)"

definition collect_segments :: "(json \<Rightarrow> string) \<Rightarrow> string \<Rightarrow> FunnelEvent list \<Rightarrow> (string \<times> FunnelEvent list) list" where
  "collect_segments str segmentKey events = fold (add_segment str segmentKey) events []"

text \<open>Each segment clears the store, tracks its events in it, and puts the saved entries back.\<close>

definition analyze_segment :: "funnel_name \<Rightarrow> string \<times> FunnelEvent list \<Rightarrow> cohorts \<times> (string \<times> stage_result list) list \<Rightarrow>
    cohorts \<times> (string \<times> stage_result list) list" where
  "analyze_segment funnelName seg s =
     (let saved = fst s; store = fold trackEvent (snd seg) [];
          out = AList.update (fst seg) (analyzeFunnel funnelName ''0000-00-00'' ''9999-12-31'' store) (snd s)
      in (fold (\<lambda>(k, v). AList.update k v) saved [], out))"

definition segmentFunnel :: "(json \<Rightarrow> string) \<Rightarrow> FunnelEvent list \<Rightarrow> funnel_name \<Rightarrow> string \<Rightarrow> cohorts \<Rightarrow> cohorts \<times> (string \<times> stage_result list) list" where
  "segmentFunnel str events funnelName segmentKey store =
     fold (analyze_segment funnelName) (collect_segments str segmentKey events) (store, [])"

section \<open>The store\<close>

lemma length_pad: "n \<le> length (pad n x)"
  by (simp add: pad_def Let_def)

lemma length_cohort_date: "length (cohort_date t) = 10"
proof -
  have yl: "4 \<le> length (year_string y)" for y using length_pad [of 4 y] length_pad [of 6 "\<bar>y\<bar>"] by (simp add: year_string_def)
  obtain y m d where c: "civil_from_days (t div MS_PER_DAY) = (y, m, d)" using prod_cases3 by blast
  obtain rest where "toISOString t = year_string y @ ''-'' @ pad 2 m @ ''-'' @ pad 2 d @ rest"
    by (simp add: toISOString_def c Let_def)
  then have "10 \<le> length (toISOString t)"
    using yl [of y] length_pad [of 2 m] length_pad [of 2 d] by simp
  then show ?thesis by (simp add: cohort_date_def)
qed

text \<open>Keys are unique and name the day and the user of their entry; every stage of an entry happened on its day.\<close>

definition cohorts_ok :: "cohorts \<Rightarrow> bool" where
  "cohorts_ok store \<longleftrightarrow> distinct (map fst store) \<and>
     (\<forall>(k, e) \<in> set store. k = ce_cohortDate e @ '':'' @ ce_userId e \<and> length (ce_cohortDate e) = 10 \<and>
        (\<forall>(st, t) \<in> set (ce_stages e). cohort_date t = ce_cohortDate e))"

lemma tracked_entry:
  assumes "cohorts_ok store"
  shows "\<exists>e. trackEvent ev store = AList.update (cohort_date (fe_timestamp ev) @ '':'' @ fe_userId ev) e store \<and>
    ce_cohortDate e = cohort_date (fe_timestamp ev) \<and> ce_userId e = fe_userId ev \<and> map_of (ce_stages e) (fe_stage ev) = Some (fe_timestamp ev) \<and>
    (\<forall>(st, t) \<in> set (ce_stages e). cohort_date t = ce_cohortDate e)"
proof -
  let ?d = "cohort_date (fe_timestamp ev)"
  let ?k = "?d @ '':'' @ fe_userId ev"
  define entry where "entry = or_default (map_of store ?k) \<lparr>ce_cohortDate = ?d, ce_userId = fe_userId ev, ce_stages = []\<rparr>"
  have e: "ce_cohortDate entry = ?d \<and> ce_userId entry = fe_userId ev \<and> (\<forall>(st, t) \<in> set (ce_stages entry). cohort_date t = ?d)"
  proof (cases "map_of store ?k")
    case (Some x)
    then have x: "?k = ce_cohortDate x @ '':'' @ ce_userId x" "length (ce_cohortDate x) = 10"
        "\<forall>(st, t) \<in> set (ce_stages x). cohort_date t = ce_cohortDate x"
      using assms unfolding cohorts_ok_def by (auto dest: map_of_SomeD)
    then have "ce_cohortDate x = ?d" by (metis append_eq_append_conv length_cohort_date)
    then show ?thesis using x Some by (simp add: entry_def)
  qed (simp add: entry_def)
  let ?e = "entry\<lparr>ce_stages := AList.update (fe_stage ev) (fe_timestamp ev) (ce_stages entry)\<rparr>"
  have "trackEvent ev store = AList.update ?k ?e store" by (simp add: trackEvent_def entry_def Let_def)
  moreover have "\<forall>(st, t) \<in> set (ce_stages ?e). cohort_date t = ?d"
    using e set_update_subset [of "fe_stage ev" "fe_timestamp ev" "ce_stages entry"] by auto
  ultimately show ?thesis using e by (intro exI [of _ ?e]) (simp add: update_conv')
qed

lemma track_ok:
  assumes "cohorts_ok store"
  shows "cohorts_ok (trackEvent ev store)"
proof -
  let ?k = "cohort_date (fe_timestamp ev) @ '':'' @ fe_userId ev"
  obtain e where e: "trackEvent ev store = AList.update ?k e store" "ce_cohortDate e = cohort_date (fe_timestamp ev)"
      "ce_userId e = fe_userId ev" "\<forall>(st, t) \<in> set (ce_stages e). cohort_date t = ce_cohortDate e"
    using tracked_entry [OF assms] by blast
  have "distinct (map fst (AList.update ?k e store))" using assms by (simp add: cohorts_ok_def distinct_update)
  moreover have "length (ce_cohortDate e) = 10" using e(2) length_cohort_date by simp
  ultimately show ?thesis using e assms set_update_subset [of ?k e store] unfolding cohorts_ok_def e(1) by fastforce
qed

lemma tracked_ok: "cohorts_ok store \<Longrightarrow> cohorts_ok (fold trackEvent evs store)"
  by (induction evs arbitrary: store) (simp_all add: track_ok)

lemma no_cohorts_ok: "cohorts_ok []"
  by (simp add: cohorts_ok_def)

section \<open>What a funnel counts\<close>

definition reached_in :: "cohorts \<Rightarrow> string \<Rightarrow> FunnelStage \<Rightarrow> bool" where
  "reached_in store k st \<longleftrightarrow> (\<exists>e. map_of store k = Some e \<and> reached st e)"

lemma reached_in_track:
  "reached_in (trackEvent ev store) k st \<longleftrightarrow>
     reached_in store k st \<or> k = cohort_date (fe_timestamp ev) @ '':'' @ fe_userId ev \<and> st = fe_stage ev"
  by (cases "map_of store k") (auto simp: reached_in_def reached_def trackEvent_def Let_def update_conv' split: if_splits)

lemma reached_in_fold:
  "reached_in (fold trackEvent evs store) k st \<longleftrightarrow>
     reached_in store k st \<or> (\<exists>ev \<in> set evs. k = cohort_date (fe_timestamp ev) @ '':'' @ fe_userId ev \<and> st = fe_stage ev)"
  by (induction evs arbitrary: store) (auto simp: reached_in_track)

definition cohort_key :: "string \<times> string \<Rightarrow> string" where
  "cohort_key du = fst du @ '':'' @ snd du"

definition visited :: "FunnelEvent list \<Rightarrow> FunnelStage \<Rightarrow> string \<Rightarrow> string \<Rightarrow> (string \<times> string) set" where
  "visited evs st a b =
     {(cohort_date (fe_timestamp ev), fe_userId ev) | ev. ev \<in> set evs \<and> fe_stage ev = st \<and>
        a \<le> cohort_date (fe_timestamp ev) \<and> cohort_date (fe_timestamp ev) \<le> b}"

lemma length_filter_card: "distinct (map fst m) \<Longrightarrow> length (filter P (map snd m)) = card {k. \<exists>e. map_of m k = Some e \<and> P e}"
proof (induction m)
  case (Cons p m)
  obtain k e where p: "p = (k, e)" by fastforce
  let ?S = "{x. \<exists>e. map_of m x = Some e \<and> P e}"
  have fin: "finite ?S" by (rule finite_subset [of _ "dom (map_of m)"]) (auto simp: finite_dom_map_of)
  have k: "map_of m k = None" using Cons.prems p by (simp add: map_of_eq_None_iff)
  have eq: "{x. \<exists>e'. map_of (p # m) x = Some e' \<and> P e'} = (if P e then insert k ?S else ?S)"
    using k p by auto
  have "card (insert k ?S) = Suc (card ?S)" using k by (intro card_insert_disjoint fin) simp
  moreover have "length (filter P (map snd m)) = card ?S" using Cons by simp
  ultimately show ?case unfolding eq using p by (cases "P e") (simp_all del: filter_map)
qed simp

lemma reached_keys:
  assumes "cohorts_ok (fold trackEvent evs [])"
  shows "{k. \<exists>e. map_of (fold trackEvent evs []) k = Some e \<and> reached st e \<and> a \<le> ce_cohortDate e \<and> ce_cohortDate e \<le> b} =
    cohort_key ` visited evs st a b"
proof -
  have date: "map_of (fold trackEvent evs []) k = Some e \<Longrightarrow> ce_cohortDate e = take 10 k" for k e
    using assms unfolding cohorts_ok_def by (auto dest!: map_of_SomeD)
  have "{k. \<exists>e. map_of (fold trackEvent evs []) k = Some e \<and> reached st e \<and> a \<le> ce_cohortDate e \<and> ce_cohortDate e \<le> b} =
      {k. reached_in (fold trackEvent evs []) k st \<and> a \<le> take 10 k \<and> take 10 k \<le> b}"
    using date by (auto simp: reached_in_def)
  also have "\<dots> = cohort_key ` visited evs st a b"
    by (auto simp: reached_in_fold reached_in_def [of "[]"] visited_def cohort_key_def length_cohort_date image_iff) blast
  finally show ?thesis .
qed

lemma cohort_key_inj: "inj_on cohort_key (visited evs st a b)"
  by (rule inj_onI) (auto simp: visited_def cohort_key_def length_cohort_date append_eq_append_conv)

text \<open>A stage of a funnel counts the pairs of a day in the range and a user who had an event of that stage on that day, each
  once however often the event was repeated.\<close>

theorem funnel_counts_exact:
  assumes "i < length (FUNNELS f)"
  shows "sg_users (analyzeFunnel f a b (fold trackEvent evs []) ! i) = card (visited evs (FUNNELS f ! i) a b)"
proof -
  let ?store = "fold trackEvent evs []" and ?st = "FUNNELS f ! i"
  have ok: "cohorts_ok ?store" by (rule tracked_ok [OF no_cohorts_ok])
  have "sg_users (analyzeFunnel f a b ?store ! i) =
      length (filter (\<lambda>e. reached ?st e \<and> a \<le> ce_cohortDate e \<and> ce_cohortDate e \<le> b) (map snd ?store))"
    using assms by (simp add: analyzeFunnel_def Let_def conj_commute)
  also have "\<dots> = card (cohort_key ` visited evs ?st a b)"
    using ok reached_keys [OF ok] by (subst length_filter_card) (simp_all add: cohorts_ok_def)
  also have "\<dots> = card (visited evs ?st a b)" by (rule card_image) (rule cohort_key_inj)
  finally show ?thesis .
qed

theorem funnel_counts_exact_witness:
  "sg_users (analyzeFunnel activation ''2024-01-01'' ''2024-12-31''
     (fold trackEvent [\<lparr>fe_userId = ''u'', fe_stage = group_join, fe_timestamp = 1710000000000, fe_attributes = Map.empty\<rparr>] []) ! 0) =
   card (visited [\<lparr>fe_userId = ''u'', fe_stage = group_join, fe_timestamp = 1710000000000, fe_attributes = Map.empty\<rparr>]
     (FUNNELS activation ! 0) ''2024-01-01'' ''2024-12-31'')"
  by (rule funnel_counts_exact) simp

text \<open>Since days are counted apart, a journey that takes two days is two visitors: someone who joins a group on one day and
  contributes on the next halves the rate of the first stage.\<close>

definition two_day_journey :: "FunnelEvent list" where
  "two_day_journey =
     [\<lparr>fe_userId = ''u'', fe_stage = group_join, fe_timestamp = 0, fe_attributes = Map.empty\<rparr>,
      \<lparr>fe_userId = ''u'', fe_stage = first_contribution, fe_timestamp = MS_PER_DAY, fe_attributes = Map.empty\<rparr>]"

theorem journey_over_two_days:
  "map sg_conversionRate (analyzeFunnel activation ''1970-01-01'' ''1970-01-31'' (fold trackEvent two_day_journey [])) = [1 / 2, 1]"
  by code_simp

text \<open>A rate can exceed one: stages are counted apart, and users may reach a stage without the one before it.\<close>

theorem conversion_above_one:
  "map sg_conversionRate (analyzeFunnel activation ''1970-01-01'' ''1970-01-31''
     (fold trackEvent [\<lparr>fe_userId = ''a'', fe_stage = group_join, fe_timestamp = 0, fe_attributes = Map.empty\<rparr>,
        \<lparr>fe_userId = ''a'', fe_stage = first_contribution, fe_timestamp = 1, fe_attributes = Map.empty\<rparr>,
        \<lparr>fe_userId = ''b'', fe_stage = first_contribution, fe_timestamp = 2, fe_attributes = Map.empty\<rparr>] [])) = [1 / 2, 2]"
  by code_simp

section \<open>Segments\<close>

lemma update_new: "k \<notin> fst ` set m \<Longrightarrow> AList.update k v m = m @ [(k, v)]"
  by (induction m) auto

lemma put_back_append: "distinct (map fst (m @ saved)) \<Longrightarrow> fold (\<lambda>(k, v). AList.update k v) saved m = m @ saved"
proof (induction saved arbitrary: m)
  case (Cons p saved)
  then have "fst p \<notin> fst ` set m" by auto
  then show ?case using Cons.IH [of "m @ [p]"] Cons.prems by (cases p) (simp add: update_new)
qed simp

lemma put_back: "distinct (map fst saved) \<Longrightarrow> fold (\<lambda>(k, v). AList.update k v) saved [] = saved"
  using put_back_append [of "[]" saved] by simp

lemma map_of_add_segment:
  "map_of (add_segment str key e m) v =
     (if segment_of str key e = v then Some (or_default (map_of m v) [] @ [e]) else map_of m v)"
  by (simp add: add_segment_def Let_def update_conv')

lemma segments_events:
  "map_of (fold (add_segment str key) events m) v =
     (if \<exists>e \<in> set events. segment_of str key e = v
      then Some (or_default (map_of m v) [] @ filter (\<lambda>e. segment_of str key e = v) events) else map_of m v)"
proof (induction events arbitrary: m)
  case (Cons e events)
  show ?case by (auto simp: Cons.IH map_of_add_segment)
qed simp

lemma segments_distinct:
  "distinct (map fst m) \<Longrightarrow>
   distinct (map fst (fold (add_segment str key) events m))"
  by (induction events arbitrary: m) (simp_all add: add_segment_def Let_def distinct_update)

definition fresh_funnel :: "funnel_name \<Rightarrow> FunnelEvent list \<Rightarrow> stage_result list" where
  "fresh_funnel f evs = analyzeFunnel f ''0000-00-00'' ''9999-12-31'' (fold trackEvent evs [])"

lemma analyze_segment_result:
  "distinct (map fst store) \<Longrightarrow> analyze_segment f seg (store, out) = (store, AList.update (fst seg) (fresh_funnel f (snd seg)) out)"
  by (simp add: analyze_segment_def fresh_funnel_def put_back Let_def)

lemma analyze_segments:
  assumes "distinct (map fst store)" and "distinct (map fst segs)"
  shows "fst (fold (analyze_segment f) segs (store, out)) = store \<and>
    map_of (snd (fold (analyze_segment f) segs (store, out))) v =
       (case map_of segs v of Some evs \<Rightarrow> Some (fresh_funnel f evs) | None \<Rightarrow> map_of out v)"
  using assms(2)
proof (induction segs arbitrary: out)
  case (Cons seg segs)
  have "map_of segs (fst seg) = None" using Cons.prems by (simp add: map_of_eq_None_iff)
  moreover note Cons.IH [of "AList.update (fst seg) (fresh_funnel f (snd seg)) out"] Cons.prems
  ultimately show ?case by (cases "v = fst seg") (simp_all add: analyze_segment_result [OF assms(1)] update_conv' cong: option.case_cong)
qed simp

text \<open>Segmenting leaves the store as it was, and gives for each value of the attribute the funnel of exactly the events that
  have it.\<close>

theorem segments_exact:
  assumes "cohorts_ok store" and "segmentFunnel str events f key store = (store', out)"
  shows "store' = store" and "map_of out v = (if \<exists>e \<in> set events. segment_of str key e = v
    then Some (analyzeFunnel f ''0000-00-00'' ''9999-12-31'' (fold trackEvent (filter (\<lambda>e. segment_of str key e = v) events) []))
    else None)"
proof -
  let ?segs = "collect_segments str key events"
  have d: "distinct (map fst store)" using assms(1) by (simp add: cohorts_ok_def)
  have s: "distinct (map fst ?segs)" using segments_distinct [of "[]"] by (simp add: collect_segments_def)
  have m: "map_of ?segs v = (if \<exists>e \<in> set events. segment_of str key e = v
      then Some (filter (\<lambda>e. segment_of str key e = v) events) else None)"
    using segments_events [of str key events "[]" v] by (simp add: collect_segments_def)
  note r = analyze_segments [OF d s, of f "[]" v]
  show "store' = store" using r assms(2) by (simp add: segmentFunnel_def)
  show "map_of out v = (if \<exists>e \<in> set events. segment_of str key e = v
    then Some (analyzeFunnel f ''0000-00-00'' ''9999-12-31'' (fold trackEvent (filter (\<lambda>e. segment_of str key e = v) events) []))
    else None)" using r assms(2) unfolding m by (simp add: segmentFunnel_def fresh_funnel_def)
qed

section \<open>Weeks\<close>

lemma local_day_east: "0 \<le> tz \<Longrightarrow> tz < 1440 \<Longrightarrow> local_day tz d = d"
  by (simp add: local_day_def MS_PER_DAY_def)

lemma local_day_west:
  assumes "tz < 0" and "- 1440 \<le> tz"
  shows "local_day tz d = d - 1"
proof -
  have "d * 86400000 + tz * 60000 = 86400000 * (d - 1) + (tz * 60000 + 86400000)" by simp
  then have "(d * 86400000 + tz * 60000) div 86400000 = d - 1"
    by (rule int_div_pos_eq) (use assms in simp_all)
  then show ?thesis by (simp add: local_day_def MS_PER_DAY_def)
qed

lemma thursday: "ld + 3 - (weekday ld + 6) mod 7 = 7 * ((ld + 3) div 7)"
  unfolding weekday_def by presburger

text \<open>East of Greenwich the seven days from Monday to Sunday have the same week, a multiple of seven days after the week of
  the fourth of January, so that the rounding rounds nothing. West of Greenwich midnight UTC is the day before, and a Monday
  is counted in the week before.\<close>

theorem iso_week_days:
  assumes "0 \<le> tz" "tz < 1440" and "(d + 3) div 7 = (d' + 3) div 7"
  shows "iso_week tz d = iso_week tz d'"
  using assms by (simp add: iso_week_def local_day_east thursday)

theorem iso_week_days_witness: "iso_week 60 19786 = iso_week 60 19792"
  by (rule iso_week_days) simp_all

theorem monday_in_previous_week:
  assumes "tz < 0" "- 1440 \<le> tz"
  shows "iso_week tz (7 * n + 4) = iso_week 0 (7 * n + 3)"
proof -
  have "local_day tz (7 * n + 4) = local_day 0 (7 * n + 3)"
    using local_day_west [OF assms, of "7 * n + 4"] local_day_east [of 0 "7 * n + 3"] by simp
  then show ?thesis by (simp only: iso_week_def)
qed

theorem monday_in_previous_week_witness: "iso_week (- 300) (7 * 2826 + 4) = iso_week 0 (7 * 2826 + 3)"
  by (rule monday_in_previous_week) simp_all

text \<open>The number of a week is the distance, in whole weeks, of its Thursday to the Thursday of the week with the fourth of
  January of the Thursday's year; the rounding rounds nothing.\<close>

theorem iso_week_number:
  "iso_week tz d =
     (let k = (local_day tz d + 3) div 7; year = fst (civil_from_days (7 * k))
      in (year, 1 + (k - (days_from_civil year 1 4 + 3) div 7)))"
proof -
  have quotient: "math_round (of_int (7 * n) / 7) = n" for n using math_round_int [of n] by simp
  have "7 * k - w - 3 + (weekday w + 6) mod 7 = 7 * (k - (w + 3) div 7)" for k w
    using thursday [of w] by (simp add: right_diff_distrib)
  then have "math_round (of_int (7 * k - w - 3 + (weekday w + 6) mod 7) / 7) = k - (w + 3) div 7" for k w
    by (simp only: quotient)
  then show ?thesis by (simp add: iso_week_def thursday Let_def del: of_int_add of_int_diff)
qed

end
