(* ===== verification/Spec2Isabelle.thy ===== *)
theory Spec2Isabelle
  imports Rate_Limiter Ramp_Protection Rpc_Guard Webhook_Retry Soroban_Pool Pagination Tiered_Limiter Pinning_Service
    Regulatory_Trail Key_Rotation Aml Reputation Recommendation Reconciliation Reminders Fraud Kyc Api_Keys Preferences
    Backup_Orchestrator Cross_Border Group_Metadata Query_Complexity Sanitizer Strkey
    Savings_Math Offline_Sync Privacy Ab_Testing Export_Jobs Ws_Gateway On_Chain_Monitor Push Notifications Warehouse Analytics_Aggregator Keeper Governance Client_Cache
    Secrets_Service Funnel
begin

text \<open>
  A verification library of Stellar-Save.

  Stellar-Save runs rotating savings groups on the Stellar network. The repository holds Soroban contracts in Rust,
  a web and a mobile client with shared packages, and a back end in TypeScript (\<open>backend/src\<close>). This library is
  about the TypeScript: mainly the services of the back end, which stand between the clients, the database, Redis, the
  chain and third parties, and decide who may do what how often, what is recorded, what is retried and who is told;
  and the logic the clients share or keep offline. The routes call these services; the services share Redis, the
  database, its queues and the guarded access to the chain.

  \<^bold>\<open>Conventions.\<close> Each theory translates one part of the sources, in the order of the file, with the names of the
  source. State that a module or object keeps is a record or a map that the operations take and return; the
  composition of handlers is function composition, interleaving at an \<open>await\<close> is a step relation. Integers are
  exact (\<open>int\<close> or \<open>nat\<close>), quotients are exact rationals; rounding of IEEE doubles is not modelled, which makes no
  difference for the counts and time stamps below \<open>2 ^ 53\<close> the code uses. \<open>null\<close>, \<open>undefined\<close> and \<open>NaN\<close> are
  \<open>None\<close>. A thrown error is the left side of a sum, or \<open>None\<close>. The clock, random ids, digests, Redis, the
  database, the chain, the time zone data base and remote services are arguments; where a property relies on what
  they do, that is a locale of documented laws with an instance in memory, on which the witnesses are evaluated.
  Log lines are dropped; counters are kept where a property is about them. A client that follows pages runs on
  fuel: one more request than there are items is enough, as \<open>pages_enumerate_array\<close> shows. Every other loop is
  structural recursion or has a termination proof.

  \<^bold>\<open>Shared theories.\<close>
  \<^item> \<open>Prelude\<close>: truthiness, strings, \<open>parseInt\<close>, arrays and sets of JavaScript, with the lemmas all theories use.
  \<^item> \<open>Http\<close>, \<open>Js_Values\<close>: requests, responses and JSON values; dates, \<open>JSON.stringify\<close>, \<open>String\<close> and \<open>Number\<close>.
  \<^item> \<open>Errors\<close> (\<open>lib/errors.ts\<close>): the error classes, their status codes and the envelope.
  \<^item> \<open>Sliding_Window\<close>: the interface of stores that keep recent time stamps per key (locales \<open>window_store\<close>,
    \<open>capped_store\<close>, \<open>counting_store\<close>), interpreted by the request limiter, the ramp limiter and the AML check.
  \<^item> \<open>Redis\<close>: the commands of Redis and their laws (\<open>redis_server\<close>), with a server in memory.
  \<^item> \<open>Hash_Chain\<close>: chained digests (locale \<open>hash_chain\<close>), interpreted by both audit trails.
  \<^item> \<open>Regex\<close>: the regular expressions of JavaScript, with backtracking and \<open>lastIndex\<close>.
  \<^item> \<open>Request_Context\<close> (\<open>lib/requestContext.ts\<close>, \<open>lib/response-envelope.ts\<close>, \<open>lib/cache-key-builder.ts\<close>): correlation
    ids, response envelopes and injective cache keys.

  \<^bold>\<open>Limits and guards.\<close>
  \<^item> \<open>Rate_Limiter\<close> (\<open>rate_limiter.ts\<close>): the sliding window, the request readers, both middlewares. No window ever
    holds more than the limit, and a refused caller who waits as told is admitted.
  \<^item> \<open>Ramp_Protection\<close> (\<open>fiat_ramp_protection.ts\<close>): address and user limits, CAPTCHA gate and their chain; exactly
    what passes, and that the hourly anomaly flag cannot be reached.
  \<^item> \<open>Tiered_Limiter\<close> (\<open>redis_rate_limiter.ts\<close>): the Lua script over Redis, tiers and costs, the decision for two
    windows.
  \<^item> \<open>Api_Keys\<close> (\<open>api_key_service.ts\<close>, \<open>api_key_rate_limiter.ts\<close>): the life of a key, usage statistics, and the
    fixed-window limiter with its bound of twice the limit.
  \<^item> \<open>Circuit_Breaker\<close>, \<open>Rpc_Guard\<close> (\<open>lib/circuit_breaker.ts\<close>, \<open>lib/rpc_circuit_breaker.ts\<close>): the breaker as a
    state machine under interleaved calls, its metrics and the cached fallback (locale \<open>guarded_call\<close>).
  \<^item> \<open>Soroban_Pool\<close> (\<open>lib/soroban.ts\<close>): clients are conserved in every interleaving of acquire, release and timers;
    the outcome of a pooled call through the breaker, whatever the others do (locale \<open>guarded_attempt\<close>).
  \<^item> \<open>Pagination\<close> (\<open>lib/pagination.ts\<close>): parameters, envelopes, and that following the pages ends with all items.
  \<^item> \<open>Query_Complexity\<close> (\<open>graphql/complexity.ts\<close>): what the complexity rule measures, and what it does not.
  \<^item> \<open>Sanitizer\<close> (\<open>input_sanitization_middleware.ts\<close>): what admitted requests are free of, the HTML encoding and its
    inverse, and how a global pattern, which keeps its position, admits what it refused before.

  \<^bold>\<open>Identity.\<close>
  \<^item> \<open>Sessions\<close>, \<open>Auth\<close> (\<open>modules/auth\<close>, \<open>routes/auth.ts\<close>): challenges over Redis, refresh tokens, middlewares and
    routes. Tokens need a signature; a challenge is refused once its nonce is marked, but two requests that check it before
    either marks it are both accepted; reuse of a token ends its session unless a rotation is under way, and two
    rotations that overlap fork it.
  \<^item> \<open>Ws_Gateway\<close> (\<open>ws_gateway.ts\<close>): the socket gateway as a step relation over connections, messages, pongs, ticks and
    events. Events reach authorised clients only; what publishing sends; silent clients are cut off.
  \<^item> \<open>Privacy\<close> (\<open>privacy_service.ts\<close>, \<open>routes/privacy.ts\<close>): what deletion deletes and leaves, exports, retention.
  \<^item> \<open>Ab_Testing\<close> (\<open>ab_testing.ts\<close>): buckets on words of 32 bits.

  \<^bold>\<open>Queues and caches.\<close>
  \<^item> \<open>Webhook_Retry\<close> (\<open>lib/webhook_retry.ts\<close>): retry schedule, dead letters; a tick conserves its jobs,
    except that a callback that rejects loses them and jobs that arrive during a tick are dropped.
  \<^item> \<open>Pinning_Queue\<close>, \<open>Pinning_Service\<close> (\<open>ipfs/pinning_queue.ts\<close>, \<open>ipfs/pinning_service.ts\<close>): the job queue over
    Redis, its consistency for any order of operations, and the worker.
  \<^item> \<open>Group_Cache\<close> (\<open>lib/cache.ts\<close>, \<open>redis.ts\<close>): the cache refines a partial map with expiry (locale
    \<open>expiring_store\<close>); loading is single-flight in every interleaving.
  \<^item> \<open>Reconciliation\<close> (\<open>reconciliation_service.ts\<close>): sampling, comparison with the chain, the degraded read from
    the group cache, healing and metrics (locale \<open>event_table\<close>); a run that heals everything leaves no drift, if the
    events of a group have distinct time stamps.
  \<^item> \<open>Backup\<close>, \<open>Backup_Monitor\<close>, \<open>Backup_Orchestrator\<close> (\<open>backup_service.ts\<close>, \<open>recovery_service.ts\<close>,
    \<open>backup_scheduler.ts\<close>, \<open>backup_monitor.ts\<close>, \<open>backup_restore_drill.ts\<close>, \<open>lib/backup-orchestrator.ts\<close>): backups over
    an object store (locale \<open>object_store\<close>), uploads and prunings taken apart at their awaits. Every completed backup has
    its object and restores, in every interleaving, except in the moment between the two steps that prune it; what checks
    and drills report; the timers.
  \<^item> \<open>Group_Metadata\<close> (\<open>ipfs/group_metadata_cache.ts\<close>): the cache of metadata over Redis and the pinning service, and the
    alerts of the pinning service.
  \<^item> \<open>Export_Jobs\<close> (\<open>export_service.ts\<close>): the life of an export job in every interleaving, clean-up, CSV.
  \<^item> \<open>Warehouse\<close> (\<open>warehouse_export.ts\<close>): exports above a watermark, their quality checks, and when events are
    exported twice or never.
  \<^item> \<open>Analytics_Aggregator\<close> (\<open>analytics_aggregator.ts\<close>): daily metrics, idempotent (locale \<open>keyed_upsert\<close>), which add up.
  \<^item> \<open>Funnel\<close> (\<open>analytics/funnel.ts\<close>): what a funnel counts, segments, ISO weeks.
  \<^item> \<open>Keeper\<close> (\<open>jobs/handlers/keeper.handler.ts\<close>): which payouts are due, retries, dead letters, and repeated payouts.
  \<^item> \<open>On_Chain_Monitor\<close> (\<open>on_chain_monitor.ts\<close>): the alerts of a check and the polling loop.

  \<^bold>\<open>Records, keys and compliance.\<close>
  \<^item> \<open>Audit_Log\<close>, \<open>Regulatory_Trail\<close> (\<open>audit_event_log.ts\<close>, \<open>regulatory_audit_trail.ts\<close>): what the chains detect
    and what they do not (locale \<open>audit_db\<close>); an untouched log verifies exactly when the JSON columns keep the text of
    its snapshots, which columns that reorder keys do not.
  \<^item> \<open>Key_Rotation\<close> (\<open>key_rotation_service.ts\<close>): exactly one active key per type after any history with a bootstrap; signatures survive
    rotation.
  \<^item> \<open>Secret_Rotation\<close> (\<open>secrets_rotation_lambda.ts\<close>): the four steps over a secrets manager (locales \<open>secrets_manager\<close>,
    \<open>secrets_available\<close>): rotations end, and do no harm before; which steps cannot be repeated.
  \<^item> \<open>Secrets_Service\<close> (\<open>secrets_manager_service.ts\<close>): cached reads of secrets, how old they can be, also across rotations;
    the status of rotations and the start-up.
  \<^item> \<open>Aml\<close> (\<open>aml_service.ts\<close>, two routes of \<open>routes/compliance.ts\<close>): exact detection of rapid succession, risk
    levels as an ordered type, well-formed flags, reviews.
  \<^item> \<open>Fraud\<close> (\<open>fraud_detection_service.ts\<close>): when accounts and groups are high risk, and what a scan reports.
  \<^item> \<open>Kyc\<close> (\<open>services/kyc.ts\<close>): the status and the status events of a user are exactly those of the observations made.

  \<^bold>\<open>Members.\<close>
  \<^item> \<open>Reputation\<close> (\<open>reputation_service.ts\<close>, \<open>modules/reputation\<close>): the incremental score is the batch score (locale
    \<open>reputation_table\<close>).
  \<^item> \<open>Recommendation\<close> (\<open>recommendation.ts\<close>): collaborative filtering computes sums of Jaccard indices.
  \<^item> \<open>Governance\<close> (\<open>routes/governance.ts\<close>): tallies are the votes cast, in every sequence of requests; who can pass what.
  \<^item> \<open>Reminders\<close> (\<open>services/reminder_scheduler.ts\<close>): quiet hours around the clock, local times, the schedule.
  \<^item> \<open>Preferences\<close> (\<open>user_preference_manager.ts\<close>, \<open>modules/notifications\<close>): what unsubscription changes in the
    answers of the preference service, and for whom.
  \<^item> \<open>Reminder_Delivery\<close> (\<open>services/notifications.ts\<close>): rendering, the queue filled from the schedule, and the worker, which
    mails no one who unsubscribed and everyone else as before.
  \<^item> \<open>Notifications\<close> (\<open>notification_service.ts\<close>, \<open>notification_template_manager.ts\<close>): the general worker over the same
    queue, and the table of templates.
  \<^item> \<open>Push\<close> (\<open>device_token_service.ts\<close>, \<open>push_notification_service.ts\<close>, \<open>web_push_service.ts\<close>): who gets a message, and
    which registrations are pruned.

  \<^bold>\<open>Payments through anchors.\<close>
  \<^item> \<open>Anchor_Http\<close> (\<open>lib/http.ts\<close>, \<open>stellar.toml\<close>), \<open>Ramp_Transfers\<close> (\<open>services/sep24.ts\<close>, \<open>routes/ramp.ts\<close>),
    \<open>Cross_Border\<close> (\<open>services/sep31.ts\<close>, \<open>routes/sep31.ts\<close>): what is checked and recorded before and after the anchor is
    called, and whose word a status is.

  \<^bold>\<open>Clients.\<close>
  \<^item> \<open>Strkey\<close>, \<open>Sdk_Format\<close> (\<open>packages/sdk\<close>): the check digits of addresses detect every wrong character; amounts, dates.
  \<^item> \<open>Retry\<close> (\<open>packages/shared-utils\<close>): what is retried, how often and with which waits.
  \<^item> \<open>Client_Cache\<close> (\<open>frontend/src/utils/cache.ts\<close>, \<open>packages/sdk/src/rpcBatchCache.ts\<close>): both caches are maps whose bindings
    expire; storage mirrors memory; the batcher settles every request once.
  \<^item> \<open>Offline_Store\<close>, \<open>Offline_Sync\<close> (\<open>frontend/src/lib\<close>): the offline queue and its replay.
  \<^item> \<open>Savings_Math\<close> (\<open>frontend/src/utils\<close>): interest and the progress of a cycle.

  \<^bold>\<open>Not modelled.\<close> The contracts (Rust), the zero-knowledge circuits, the screens of the clients (rendering and I/O),
  generated code, configuration and start-up, translated texts, the requests to e-mail, push, payment and cloud providers,
  full-text search, and the routes other than those of authentication, compliance, governance, privacy and the anchors, which pass
  values on. The event indexer is left out since its polling loop calls a method that its class does not define. The
  texts of mail templates are arguments. Queries of analytics, cost reports and the decoder of transactions are read-only
  views of third-party data and of tables whose upkeep is modelled.

  The properties are in the theories of their components. The theorems below span components.
\<close>

section \<open>Composition\<close>

text \<open>A drift healed in the database after a degraded read is healed to the cached state: when the pooled call fails,
  what the comparison takes for the chain is what the group cache holds at that time.\<close>

theorem degraded_read_is_cached:
  assumes "expiring_store kv stored" and "configured cfg" and "get_group g = Inl err"
    and "CHR '':'' \<notin> set (contractId cfg)" and "snd (cache_get kv now (contractId cfg) g (rc_cache st)) = Inr r"
  shows "snd (fetchOnChainGroupState kv cfg now get_group g st) = cache_abs stored (rc_cache st) now (contractId cfg, g)"
proof -
  have "r = cache_abs stored (rc_cache st) now (contractId cfg, g)"
    using expiring_store.cache_get_live [OF assms(1,5)] assms(4) by (simp add: cache_abs_live [OF assms(1)])
  then show ?thesis
    using assms(2,3,5) by (auto simp: fetchOnChainGroupState_def configured_def Let_def split: prod.splits)
qed

end
